(* ===== verification/Prelude.thy ===== *)
theory Prelude
  imports Main "HOL-Library.Word"
begin

text \<open>
  Shared vocabulary of the development: the machine integers of the Rust sources, byte
  strings and their UTF-8 validity, big-endian byte conversion, and the state-and-error
  monad in which every fallible routine of the protocol layer is written.

  Conventions. A Rust integer of width w is a \<^typ>\<open>'w word\<close>; a signed one is the same word,
  read with \<^const>\<open>sint\<close>. A float is carried as its IEEE bit pattern, because the modelled code
  only moves floats between fields and bytes. A Rust \<open>String\<close> is the list of its UTF-8 bytes,
  and \<open>utf8_valid\<close> says which byte lists are strings. A value of \<open>usize\<close> that is a length or
  an index into a buffer is a \<^typ>\<open>nat\<close>.
\<close>

unbundle bit_operations_syntax

section \<open>Machine integers and strings\<close>

type_synonym u8 = "8 word"
type_synonym i8 = "8 word"
type_synonym u16 = "16 word"
type_synonym i16 = "16 word"
type_synonym u32 = "32 word"
type_synonym i32 = "32 word"
type_synonym u64 = "64 word"
type_synonym i64 = "64 word"
type_synonym f32 = "32 word"
type_synonym f64 = "64 word"
type_synonym rstring = "u8 list"

text \<open>A Rust string literal: the bytes of its (ASCII) characters.\<close>

definition str :: "string \<Rightarrow> rstring" where
  "str s = map (\<lambda>c. word_of_nat (of_char c)) s"

text \<open>\<open>usize::try_from\<close> on an \<open>i32\<close>: \<open>None\<close> for a negative value.\<close>

definition i32_to_usize :: "i32 \<Rightarrow> nat option" where
  "i32_to_usize v = (if sint v < 0 then None else Some (unat v))"

text \<open>\<open>i32::try_from\<close> on a \<open>usize\<close> and the unchecked cast \<open>len as i32\<close>.\<close>

definition usize_to_i32 :: "nat \<Rightarrow> i32 option" where
  "usize_to_i32 n = (if n < 2 ^ 31 then Some (word_of_nat n) else None)"

definition usize_as_i32 :: "nat \<Rightarrow> i32" where
  "usize_as_i32 n = word_of_nat n"

text \<open>\<open>i32::try_from\<close> on a \<open>u32\<close> and \<open>u32::try_from\<close> on an \<open>i32\<close>.\<close>

definition u32_to_i32 :: "u32 \<Rightarrow> i32 option" where
  "u32_to_i32 v = (if unat v < 2 ^ 31 then Some v else None)"

definition i32_to_u32 :: "i32 \<Rightarrow> u32 option" where
  "i32_to_u32 v = (if sint v < 0 then None else Some v)"

lemma i32_to_usize_of_nat [simp]:
  assumes "n < 2 ^ 31"
  shows "i32_to_usize (word_of_nat n) = Some n"
proof -
  have u: "unat (word_of_nat n :: i32) = n"
    using assms by (simp add: unat_of_nat take_bit_nat_eq_self_iff)
  have "sint (word_of_nat n :: i32) = int n"
    using assms by (simp add: signed_of_nat signed_take_bit_int_eq_self_iff)
  with u show ?thesis by (simp add: i32_to_usize_def)
qed

lemma unat_less_exp: "unat (w :: 'a::len word) < 2 ^ LENGTH('a)"
  by (rule unsigned_less)

lemma sint_i32: "sint (v :: i32) = (if uint v < 2 ^ 31 then uint v else uint v - 2 ^ 32)"
proof -
  have b: "0 \<le> uint v" "uint v < 4294967296"
    using uint_lt2p [of v] by simp_all
  have s: "sint v = (uint v + 2147483648) mod 4294967296 - 2147483648"
    by (simp add: sint_uint signed_take_bit_eq_take_bit_shift take_bit_eq_mod)
  show ?thesis
  proof (cases "uint v < 2147483648")
    case True
    with b have "(uint v + 2147483648) mod 4294967296 = uint v + 2147483648"
      by (intro mod_pos_pos_trivial) linarith+
    with s True show ?thesis by simp
  next
    case False
    have "(uint v + 2147483648) mod 4294967296 = (uint v - 2147483648 + 4294967296) mod 4294967296"
      by (rule arg_cong [where f = "\<lambda>x. x mod 4294967296"]) linarith
    also have "\<dots> = (uint v - 2147483648) mod 4294967296" by (rule mod_add_self2)
    also have "\<dots> = uint v - 2147483648"
      using b False by (intro mod_pos_pos_trivial) linarith+
    finally show ?thesis using s False by simp
  qed
qed

lemma i32_to_usize_nat: "i32_to_usize v = (if unat v < 2 ^ 31 then Some (unat v) else None)"
proof -
  have u: "uint v < 4294967296" using uint_lt2p [of v] by simp
  then have "sint v < 0 \<longleftrightarrow> \<not> uint v < 2147483648"
    by (simp add: sint_i32)
  also have "uint v < 2147483648 \<longleftrightarrow> unat v < 2147483648"
    using uint_nat [of v] by linarith
  finally have "sint v < 0 \<longleftrightarrow> \<not> unat v < 2147483648" .
  then show ?thesis by (auto simp: i32_to_usize_def)
qed

lemma i32_to_u32_nat: "i32_to_u32 v = (if unat v < 2 ^ 31 then Some v else None)"
  using i32_to_usize_nat [of v] by (simp add: i32_to_u32_def i32_to_usize_def split: if_splits)

lemma i32_to_usize_bound: "i32_to_usize v = Some n \<Longrightarrow> n < 2 ^ 31"
  by (simp add: i32_to_usize_nat split: if_split_asm)

lemma str_inject [simp]: "str s = str t \<longleftrightarrow> s = t"
proof -
  have "inj (\<lambda>c. word_of_nat (of_char c) :: u8)"
  proof (rule injI)
    fix c d :: char
    assume "(word_of_nat (of_char c) :: u8) = word_of_nat (of_char d)"
    then have "take_bit 8 (of_char c :: nat) = take_bit 8 (of_char d)"
      by (simp add: word_of_nat_eq_iff)
    moreover have "(of_char e :: nat) < 2 ^ 8" for e :: char
      using nat_of_char_less_256 [of e] by simp
    ultimately show "c = d" by (simp add: take_bit_nat_eq_self)
  qed
  then show ?thesis by (simp add: str_def inj_map_eq_map)
qed

text \<open>
  The byte sequences \<open>String::from_utf8\<close> accepts (Unicode table 3-7): no overlong form, no
  surrogate, nothing beyond U+10FFFF.
\<close>

definition utf8_cont :: "u8 \<Rightarrow> bool" where
  "utf8_cont b \<longleftrightarrow> 0x80 \<le> b \<and> b \<le> 0xBF"

fun utf8_valid :: "u8 list \<Rightarrow> bool" where
  "utf8_valid [] = True"
| "utf8_valid (a # bs) =
     (if a \<le> 0x7F then utf8_valid bs
      else if 0xC2 \<le> a \<and> a \<le> 0xDF then
        (case bs of b # cs \<Rightarrow> utf8_cont b \<and> utf8_valid cs | _ \<Rightarrow> False)
      else if 0xE0 \<le> a \<and> a \<le> 0xEF then
        (case bs of b # c # cs \<Rightarrow>
           (if a = 0xE0 then 0xA0 \<le> b \<and> b \<le> 0xBF
            else if a = 0xED then 0x80 \<le> b \<and> b \<le> 0x9F else utf8_cont b)
           \<and> utf8_cont c \<and> utf8_valid cs
         | _ \<Rightarrow> False)
      else if 0xF0 \<le> a \<and> a \<le> 0xF4 then
        (case bs of b # c # d # cs \<Rightarrow>
           (if a = 0xF0 then 0x90 \<le> b \<and> b \<le> 0xBF
            else if a = 0xF4 then 0x80 \<le> b \<and> b \<le> 0x8F else utf8_cont b)
           \<and> utf8_cont c \<and> utf8_cont d \<and> utf8_valid cs
         | _ \<Rightarrow> False)
      else False)"

lemma utf8_valid_ascii: "\<forall>b \<in> set bs. b \<le> 0x7F \<Longrightarrow> utf8_valid bs"
  by (induction bs) simp_all

section \<open>Big-endian bytes\<close>

text \<open>
  \<open>to_be_bytes\<close> and \<open>from_be_bytes\<close> of the standard library, for a word of \<open>n\<close> bytes.
\<close>

fun to_be_bytes :: "nat \<Rightarrow> 'a::len word \<Rightarrow> u8 list" where
  "to_be_bytes 0 w = []"
| "to_be_bytes (Suc n) w = to_be_bytes n (drop_bit 8 w) @ [ucast w]"

definition from_be_bytes :: "u8 list \<Rightarrow> 'a::len word" where
  "from_be_bytes bs = foldl (\<lambda>acc b. push_bit 8 acc OR ucast b) 0 bs"

lemma length_to_be_bytes [simp]: "length (to_be_bytes n w) = n"
  by (induction n arbitrary: w) simp_all

lemma from_be_bytes_snoc:
  "from_be_bytes (bs @ [b]) = push_bit 8 (from_be_bytes bs) OR ucast b"
  by (simp add: from_be_bytes_def)

lemma from_to_be_bytes: "from_be_bytes (to_be_bytes n w) = take_bit (8 * n) w"
proof (induction n arbitrary: w)
  case 0
  then show ?case by (simp add: from_be_bytes_def)
next
  case (Suc n)
  have "push_bit 8 (take_bit (8 * n) (drop_bit 8 w)) OR ucast (ucast w :: u8) = take_bit (8 * Suc n) w"
    by (rule bit_word_eqI) (auto simp: bit_simps)
  then show ?case by (simp add: from_be_bytes_snoc Suc)
qed

lemma from_to_be_bytes_id [simp]:
  assumes "LENGTH('a) \<le> 8 * n"
  shows "from_be_bytes (to_be_bytes n (w :: 'a::len word)) = w"
  using assms by (simp add: from_to_be_bytes take_bit_word_eq_self)

section \<open>Results with state\<close>

text \<open>
  A fallible routine that mutates a state \<open>'s\<close> returns its \<open>Result\<close> and the state it leaves,
  also when it fails: \<open>?\<close> returns early with whatever the callee has already changed.
\<close>

type_synonym ('s, 'e, 'a) fallible = "'s \<Rightarrow> ('e + 'a) \<times> 's"

definition ret :: "'a \<Rightarrow> ('s, 'e, 'a) fallible" where
  "ret v = (\<lambda>s. (Inr v, s))"

definition throw :: "'e \<Rightarrow> ('s, 'e, 'a) fallible" where
  "throw e = (\<lambda>s. (Inl e, s))"

definition bindE ::
  "('s, 'e, 'a) fallible \<Rightarrow> ('a \<Rightarrow> ('s, 'e, 'b) fallible) \<Rightarrow> ('s, 'e, 'b) fallible" where
  "bindE m f = (\<lambda>s. case m s of (Inl e, s') \<Rightarrow> (Inl e, s') | (Inr v, s') \<Rightarrow> f v s')"

abbreviation seqE ::
  "('s, 'e, 'a) fallible \<Rightarrow> ('s, 'e, 'b) fallible \<Rightarrow> ('s, 'e, 'b) fallible" where
  "seqE m k \<equiv> bindE m (\<lambda>_. k)"

text \<open>\<open>map_err\<close> on the result, and \<open>ok_or\<close> on an option.\<close>

definition map_err :: "('e \<Rightarrow> 'f) \<Rightarrow> ('s, 'e, 'a) fallible \<Rightarrow> ('s, 'f, 'a) fallible" where
  "map_err g m = (\<lambda>s. case m s of (Inl e, s') \<Rightarrow> (Inl (g e), s') | (Inr v, s') \<Rightarrow> (Inr v, s'))"

definition ok_or :: "'a option \<Rightarrow> 'e \<Rightarrow> ('s, 'e, 'a) fallible" where
  "ok_or x e = (case x of None \<Rightarrow> throw e | Some v \<Rightarrow> ret v)"

lemma ok_or_simps [simp]: "ok_or None e = throw e" "ok_or (Some v) e = ret v"
  by (simp_all add: ok_or_def)

lemma bindE_ret [simp]: "bindE (ret v) f = f v"
  by (rule ext) (simp add: bindE_def ret_def)

lemma bindE_throw [simp]: "bindE (throw e) f = throw e"
  by (rule ext) (simp add: bindE_def throw_def)

lemma bindE_assoc: "bindE (bindE m f) g = bindE m (\<lambda>v. bindE (f v) g)"
  by (rule ext) (simp add: bindE_def split: prod.splits sum.splits)

lemma bindE_Inr: "m s = (Inr v, s') \<Longrightarrow> bindE m f s = f v s'"
  by (simp add: bindE_def)

lemma bindE_Inl: "m s = (Inl e, s') \<Longrightarrow> bindE m f s = (Inl e, s')"
  by (simp add: bindE_def)

text \<open>
  The two loops of the encoders and decoders: \<open>for _ in 0..n { out.push(read()?) }\<close> and
  \<open>for v in vs { write(v)? }\<close>.
\<close>

fun get_n :: "nat \<Rightarrow> ('s, 'e, 'a) fallible \<Rightarrow> ('s, 'e, 'a list) fallible" where
  "get_n 0 r = ret []"
| "get_n (Suc n) r = bindE r (\<lambda>v. bindE (get_n n r) (\<lambda>vs. ret (v # vs)))"

fun put_each :: "('a \<Rightarrow> ('s, 'e, unit) fallible) \<Rightarrow> 'a list \<Rightarrow> ('s, 'e, unit) fallible" where
  "put_each w [] = ret ()"
| "put_each w (v # vs) = seqE (w v) (put_each w vs)"

lemma put_each_cong [fundef_cong]:
  "vs = vs' \<Longrightarrow> (\<And>v. v \<in> set vs' \<Longrightarrow> w v = w' v) \<Longrightarrow> put_each w vs = put_each w' vs'"
  by (induction vs arbitrary: vs') auto

section \<open>Results without state\<close>

text \<open>\<open>?\<close> on a \<open>Result\<close>, \<open>ok_or\<close> on an \<open>Option\<close>, and a loop that collects fallible results.\<close>

definition and_then :: "'e + 'a \<Rightarrow> ('a \<Rightarrow> 'e + 'b) \<Rightarrow> 'e + 'b" where
  "and_then x f = (case x of Inl e \<Rightarrow> Inl e | Inr v \<Rightarrow> f v)"

definition some_or :: "'a option \<Rightarrow> 'e \<Rightarrow> 'e + 'a" where
  "some_or x e = (case x of None \<Rightarrow> Inl e | Some v \<Rightarrow> Inr v)"

fun try_each :: "('a \<Rightarrow> 'e + 'b) \<Rightarrow> 'a list \<Rightarrow> 'e + 'b list" where
  "try_each f [] = Inr []"
| "try_each f (x # xs) = and_then (f x) (\<lambda>y. and_then (try_each f xs) (\<lambda>ys. Inr (y # ys)))"

lemma and_then_simps [simp]: "and_then (Inl e) f = Inl e" "and_then (Inr v) f = f v"
  by (simp_all add: and_then_def)

lemma some_or_simps [simp]: "some_or None e = Inl e" "some_or (Some v) e = Inr v"
  by (simp_all add: some_or_def)

lemma and_then_cong [fundef_cong]:
  "x = x' \<Longrightarrow> (\<And>v. x' = Inr v \<Longrightarrow> f v = f' v) \<Longrightarrow> and_then x f = and_then x' f'"
  by (cases x') auto

lemma try_each_cong [fundef_cong]:
  "xs = xs' \<Longrightarrow> (\<And>x. x \<in> set xs' \<Longrightarrow> f x = f' x) \<Longrightarrow> try_each f xs = try_each f' xs'"
  by (induction xs arbitrary: xs') auto

lemma try_each_map: "(\<And>x. x \<in> set xs \<Longrightarrow> f (g x) = Inr x) \<Longrightarrow> try_each f (map g xs) = Inr xs"
  by (induction xs) auto

end
