(* ===== verification/Varint.thy ===== *)
theory Varint
  imports Prelude
begin

text \<open>
  Protocol errors (\<open>protocol/error.rs\<close>) and the variable-length integers of the wire format
  (\<open>protocol/varint.rs\<close>). The three write loops of the code (\<open>u32\<close>, \<open>u64\<close>, and \<open>usize\<close> in
  \<open>framing.rs\<close>) have one text and are one definition over any word; the read loops are one
  definition with the byte limit as its argument. The lemmas give the length of an encoding,
  the round trip at any position of a buffer, and the classification of malformed input.
\<close>

section \<open>Protocol errors\<close>

text \<open>The payload of \<open>Io\<close> is opaque to the modelled code; it is kept as its message.\<close>

datatype protocol_error =
    VarIntTooLong
  | UnexpectedEof
  | FrameTooLarge
  | Utf8
  | UnknownPacket string i32
  | InvalidState
  | Compression
  | Io string
  | InvalidValue
  | UnsupportedComponents

text \<open>\<open>PartialEq\<close> as the source writes it: an \<open>Io\<close> error equals nothing, not even itself.\<close>

definition protocol_error_eq :: "protocol_error \<Rightarrow> protocol_error \<Rightarrow> bool" where
  "protocol_error_eq a b =
     (case a of
        VarIntTooLong \<Rightarrow> b = VarIntTooLong
      | UnexpectedEof \<Rightarrow> b = UnexpectedEof
      | FrameTooLarge \<Rightarrow> b = FrameTooLarge
      | Utf8 \<Rightarrow> b = Utf8
      | UnknownPacket s1 i1 \<Rightarrow>
          (case b of UnknownPacket s2 i2 \<Rightarrow> s1 = s2 \<and> i1 = i2 | _ \<Rightarrow> False)
      | InvalidState \<Rightarrow> b = InvalidState
      | Compression \<Rightarrow> b = Compression
      | InvalidValue \<Rightarrow> b = InvalidValue
      | UnsupportedComponents \<Rightarrow> b = UnsupportedComponents
      | Io _ \<Rightarrow> False)"

section \<open>Writing\<close>

lemma unat_drop_bit_7: "unat (drop_bit 7 (v :: 'w::len word)) = unat v div 128"
  by (simp only: unat_drop_bit_eq) (simp add: drop_bit_eq_div)

function varint_loop :: "'w::len word \<Rightarrow> u8 list \<Rightarrow> u8 list" where
  "varint_loop v buf =
     (let byte = ucast (v AND 0x7F) :: u8; v' = drop_bit 7 v
      in if v' \<noteq> 0 then varint_loop v' (buf @ [byte OR 0x80]) else buf @ [byte])"
  by pat_completeness auto
termination
proof (relation "measure (\<lambda>(v, buf). unat v)", goal_cases)
  case 1
  show ?case by simp
next
  case (2 v buf x xa)
  then have "unat v \<noteq> 0" by (auto simp: unat_eq_0)
  moreover from 2 have "unat xa = unat v div 128"
    by (simp only: unat_drop_bit_7)
  ultimately show ?case by simp
qed

declare varint_loop.simps [simp del]

definition write_varint :: "u8 list \<Rightarrow> i32 \<Rightarrow> u8 list" where
  "write_varint buf value = varint_loop (value :: u32) buf"

definition write_varlong :: "u8 list \<Rightarrow> i64 \<Rightarrow> u8 list" where
  "write_varlong buf value = varint_loop (value :: u64) buf"

section \<open>Reading\<close>

text \<open>
  \<open>read_varint_loop n i result data pos\<close> is the loop with \<open>n\<close> iterations left, at index \<open>i\<close>.
  The position advances past each byte that was read, also on the error paths.
\<close>

fun read_varint_loop ::
  "nat \<Rightarrow> nat \<Rightarrow> 'w::len word \<Rightarrow> u8 list \<Rightarrow> nat \<Rightarrow> (protocol_error + 'w word) \<times> nat" where
  "read_varint_loop 0 i result data pos = (Inl VarIntTooLong, pos)"
| "read_varint_loop (Suc n) i result data pos =
     (if pos < length data then
        (let byte = data ! pos;
             part = ucast (byte AND 0x7F);
             result' = result OR push_bit (7 * i) part
         in if byte AND 0x80 = 0 then (Inr result', pos + 1)
            else read_varint_loop n (i + 1) result' data (pos + 1))
      else (Inl UnexpectedEof, pos))"

definition read_varint :: "u8 list \<Rightarrow> nat \<Rightarrow> (protocol_error + i32) \<times> nat" where
  "read_varint data pos = read_varint_loop 5 0 0 data pos"

definition read_varlong :: "u8 list \<Rightarrow> nat \<Rightarrow> (protocol_error + i64) \<times> nat" where
  "read_varlong data pos = read_varint_loop 10 0 0 data pos"

section \<open>The bytes of an encoding\<close>

definition varint_bytes :: "'w::len word \<Rightarrow> u8 list" where
  "varint_bytes v = varint_loop v []"

lemma varint_loop_append: "varint_loop v (pre @ buf) = pre @ varint_loop v buf"
proof (induction v buf rule: varint_loop.induct)
  case (1 v buf)
  then show ?case
    by (subst (1 2) varint_loop.simps) (simp add: Let_def)
qed

lemma varint_loop_bytes: "varint_loop v buf = buf @ varint_bytes v"
  using varint_loop_append [of v buf "[]"] by (simp add: varint_bytes_def)

lemma varint_bytes_rec:
  "varint_bytes v =
     (if drop_bit 7 v = 0 then [ucast (v AND 0x7F)]
      else (ucast (v AND 0x7F) OR 0x80) # varint_bytes (drop_bit 7 v))"
proof -
  have "varint_bytes v = varint_loop v []" by (rule varint_bytes_def)
  also have "\<dots> = (if drop_bit 7 v = 0 then [ucast (v AND 0x7F)]
      else varint_loop (drop_bit 7 v) [ucast (v AND 0x7F) OR 0x80])"
    by (subst varint_loop.simps) (simp only: Let_def append_Nil if_not_P not_not split: if_split, blast)
  finally show ?thesis by (simp add: varint_loop_bytes)
qed

lemma write_varint_bytes [simp]: "write_varint buf v = buf @ varint_bytes v"
  by (simp add: write_varint_def varint_loop_bytes)

lemma write_varlong_bytes [simp]: "write_varlong buf v = buf @ varint_bytes v"
  by (simp add: write_varlong_def varint_loop_bytes)

lemma varint_bytes_nonempty [simp]: "varint_bytes v \<noteq> []"
  by (subst varint_bytes_rec) simp

lemma length_varint_bytes_le:
  "unat v < 2 ^ (7 * n) \<Longrightarrow> 0 < n \<Longrightarrow> length (varint_bytes v) \<le> n"
proof (induction n arbitrary: v)
  case 0
  then show ?case by simp
next
  case (Suc n)
  show ?case
  proof (cases "drop_bit 7 v = 0")
    case True
    then show ?thesis by (subst varint_bytes_rec) simp
  next
    case False
    have u: "unat (drop_bit 7 v) = unat v div 2 ^ 7"
      by (simp only: unat_drop_bit_7) simp
    have "unat v div 2 ^ 7 < 2 ^ (7 * n)"
      using Suc.prems(1) by (simp add: power_add mult.commute less_mult_imp_div_less)
    moreover have "n \<noteq> 0"
    proof
      assume "n = 0"
      with Suc.prems(1) have "unat (drop_bit 7 v) = 0" by (simp add: u)
      with False show False by (simp add: unat_eq_0)
    qed
    ultimately have "length (varint_bytes (drop_bit 7 v)) \<le> n"
      using Suc.IH [of "drop_bit 7 v"] u by simp
    with False show ?thesis by (subst varint_bytes_rec) simp
  qed
qed

lemma length_varint_bytes_i32: "length (varint_bytes (v :: i32)) \<le> 5"
  by (rule length_varint_bytes_le) (use unat_less_exp [of v] in simp_all)

lemma length_varint_bytes_i64: "length (varint_bytes (v :: i64)) \<le> 10"
  by (rule length_varint_bytes_le) (use unat_less_exp [of v] in simp_all)

section \<open>Round trip\<close>

lemma septet_mask: "(0x7F :: 'w::len word) = mask 7"
  by (simp add: mask_eq_exp_minus_1)

lemma bit_128: "bit (0x80 :: 'a::semiring_bits) n \<longleftrightarrow> possible_bit TYPE('a) n \<and> n = 7"
proof -
  have "(0x80 :: 'a) = 2 ^ 7" by simp
  then show ?thesis by (simp only: bit_exp_iff)
qed

lemma septet_part:
  assumes "8 \<le> LENGTH('w)"
  shows "ucast ((ucast (v AND 0x7F) :: u8) AND 0x7F) = (v AND 0x7F :: 'w::len word)"
    and "ucast (((ucast (v AND 0x7F) :: u8) OR 0x80) AND 0x7F) = (v AND 0x7F :: 'w word)"
proof -
  show "ucast ((ucast (v AND 0x7F) :: u8) AND 0x7F) = v AND 0x7F"
    by (rule bit_word_eqI) (use assms in \<open>auto simp: septet_mask bit_simps\<close>)
  show "ucast (((ucast (v AND 0x7F) :: u8) OR 0x80) AND 0x7F) = v AND 0x7F"
    by (rule bit_word_eqI) (use assms in \<open>auto simp: septet_mask bit_128 bit_simps\<close>)
qed

lemma septet_flag:
  "(ucast (v AND 0x7F) :: u8) AND 0x80 = 0"
  "((ucast (v AND 0x7F) :: u8) OR 0x80) AND 0x80 \<noteq> 0"
proof -
  show "(ucast (v AND 0x7F) :: u8) AND 0x80 = 0"
    by (rule bit_word_eqI) (auto simp: septet_mask bit_128 bit_simps)
  have "bit (((ucast (v AND 0x7F) :: u8) OR 0x80) AND 0x80) 7"
    by (simp add: bit_128 bit_simps)
  then show "((ucast (v AND 0x7F) :: u8) OR 0x80) AND 0x80 \<noteq> 0"
    by (metis bit_0_eq bot_apply bot_bool_def)
qed

lemma septet_join:
  "(result OR push_bit (7 * i) (v AND 0x7F)) OR push_bit (7 * (i + 1)) (drop_bit 7 v)
   = result OR push_bit (7 * i) (v :: 'w::len word)"
proof (rule bit_word_eqI)
  fix n
  assume n: "n < LENGTH('w)"
  have "7 + (n - (7 + 7 * i)) = n - 7 * i" if "7 * i + 7 \<le> n" using that by simp
  with n show "bit ((result OR push_bit (7 * i) (v AND 0x7F))
      OR push_bit (7 * (i + 1)) (drop_bit 7 v)) n = bit (result OR push_bit (7 * i) v) n"
    by (cases "7 * i + 7 \<le> n") (auto simp: septet_mask bit_simps)
qed

lemma septet_last: "drop_bit 7 v = 0 \<Longrightarrow> v AND 0x7F = (v :: 'w::len word)"
proof (rule bit_word_eqI)
  fix n
  assume a: "drop_bit 7 v = 0" and "n < LENGTH('w)"
  have "bit v n \<Longrightarrow> n < 7"
  proof (rule ccontr)
    assume "bit v n" "\<not> n < 7"
    then have "bit (drop_bit 7 v) (n - 7)" by (simp add: bit_simps)
    with a show False by simp
  qed
  with \<open>n < LENGTH('w)\<close> show "bit (v AND 0x7F) n = bit v n"
    by (auto simp: septet_mask bit_simps)
qed

lemma read_varint_loop_bytes:
  assumes w: "8 \<le> LENGTH('w::len)"
  shows "length (varint_bytes v) \<le> n \<Longrightarrow>
    read_varint_loop n i result (pre @ varint_bytes v @ post) (length pre)
    = (Inr (result OR push_bit (7 * i) (v :: 'w word)), length pre + length (varint_bytes v))"
proof (induction n arbitrary: v i result pre)
  case 0
  then show ?case by simp
next
  case (Suc n)
  show ?case
  proof (cases "drop_bit 7 v = 0")
    case True
    then have "varint_bytes v = [ucast (v AND 0x7F)]" by (subst varint_bytes_rec) simp
    then show ?thesis
      using Suc.prems septet_flag(1) [of v] septet_part(1) [OF w, of v]
      by (simp add: nth_append septet_last [OF True] Let_def)
  next
    case False
    let ?b = "ucast (v AND 0x7F) OR 0x80 :: u8"
    have e: "varint_bytes v = ?b # varint_bytes (drop_bit 7 v)"
      using False by (subst varint_bytes_rec) simp
    have "read_varint_loop n (i + 1) (result OR push_bit (7 * i) (v AND 0x7F))
            ((pre @ [?b]) @ varint_bytes (drop_bit 7 v) @ post) (length (pre @ [?b]))
          = (Inr (result OR push_bit (7 * i) v),
             length (pre @ [?b]) + length (varint_bytes (drop_bit 7 v)))"
      using Suc.IH [of "drop_bit 7 v" "i + 1" _ "pre @ [?b]"] Suc.prems e
      by (simp only: septet_join) (simp add: septet_join [simplified])
    then show ?thesis
      by (simp add: e nth_append septet_flag septet_part [OF w] Let_def)
  qed
qed

lemma read_varint_bytes:
  "read_varint (pre @ varint_bytes v @ post) (length pre)
   = (Inr v, length pre + length (varint_bytes v))"
  using read_varint_loop_bytes [of v 5 0 0 pre post] length_varint_bytes_i32 [of v]
  by (simp add: read_varint_def)

lemma read_varlong_bytes:
  "read_varlong (pre @ varint_bytes v @ post) (length pre)
   = (Inr v, length pre + length (varint_bytes v))"
  using read_varint_loop_bytes [of v 10 0 0 pre post] length_varint_bytes_i64 [of v]
  by (simp add: read_varlong_def)

section \<open>Reference encoding\<close>

text \<open>The textbook unsigned LEB128 of a number, which every write loop computes.\<close>

fun leb128 :: "nat \<Rightarrow> u8 list" where
  "leb128 n = (if n < 128 then [word_of_nat n]
               else word_of_nat (128 + n mod 128) # leb128 (n div 128))"

declare leb128.simps [simp del]

lemma ucast_septet: "(ucast (v AND 0x7F :: 'w::len word) :: u8) = word_of_nat (unat v mod 128)"
proof -
  have "unat (v AND 0x7F) = unat v mod 128"
    by (simp only: septet_mask take_bit_eq_mask [symmetric] unsigned_take_bit_eq)
       (simp add: take_bit_eq_mod)
  moreover have "word_of_nat (unat (v AND 0x7F)) = (ucast (v AND 0x7F) :: u8)"
    by (rule of_nat_unat)
  ultimately show ?thesis by simp
qed

lemma septet_cont: "(ucast (v AND 0x7F :: 'w::len word) :: u8) OR 0x80 = word_of_nat (128 + unat v mod 128)"
proof -
  have "(ucast (v AND 0x7F) :: u8) + 0x80 = ucast (v AND 0x7F) OR 0x80"
    by (rule disjunctive_add) (auto simp: septet_mask bit_128 bit_simps)
  then show ?thesis by (simp add: ucast_septet add.commute)
qed

lemma varint_bytes_leb128: "varint_bytes v = leb128 (unat (v :: 'w::len word))"
proof (induction "unat v" arbitrary: v rule: less_induct)
  case less
  have u: "unat (drop_bit 7 v) = unat v div 128" by (rule unat_drop_bit_7)
  show ?case
  proof (cases "drop_bit 7 v = 0")
    case True
    then have "unat v < 128" using u by (simp add: div_eq_0_iff)
    with True show ?thesis
      by (subst varint_bytes_rec, subst leb128.simps) (simp add: ucast_septet)
  next
    case False
    then have v: "\<not> unat v < 128" using u by (auto simp: unat_eq_0)
    then have "varint_bytes (drop_bit 7 v) = leb128 (unat v div 128)"
      using less [of "drop_bit 7 v"] u by simp
    with False v show ?thesis
      by (subst varint_bytes_rec, subst leb128.simps) (simp only: septet_cont if_False)
  qed
qed

end
