(* ===== verification/Byte_Buf.thy ===== *)
theory Byte_Buf
  imports Varint
begin

text \<open>
  The cursor-style byte buffer of \<open>protocol/byte_buf.rs\<close>: one definition per \<open>get_*\<close> and
  \<open>put_*\<close> method, as routines on the record of the underlying bytes and the read position.
\<close>

section \<open>The buffer\<close>

record byte_buffer =
  bb_buf :: "u8 list"
  bb_pos :: nat

type_synonym 'a io = "(byte_buffer, protocol_error, 'a) fallible"

definition MAX_STRING_LEN :: nat where
  "MAX_STRING_LEN = 32767"

definition bb_new :: "u8 list \<Rightarrow> byte_buffer" where
  "bb_new bytes = \<lparr>bb_buf = bytes, bb_pos = 0\<rparr>"

definition bb_with_capacity :: "nat \<Rightarrow> byte_buffer" where
  "bb_with_capacity cap = \<lparr>bb_buf = [], bb_pos = 0\<rparr>"

definition into_inner :: "byte_buffer \<Rightarrow> u8 list" where
  "into_inner b = bb_buf b"

definition remaining :: "byte_buffer \<Rightarrow> nat" where
  "remaining b = length (bb_buf b) - bb_pos b"

text \<open>\<open>slice.get(start..end)\<close>: the bytes of a range that lies inside the slice.\<close>

definition get_range :: "u8 list \<Rightarrow> nat \<Rightarrow> nat \<Rightarrow> u8 list option" where
  "get_range bytes start end' =
     (if start \<le> end' \<and> end' \<le> length bytes
      then Some (take (end' - start) (drop start bytes)) else None)"

section \<open>The read cursor\<close>

definition bb_peek :: "nat \<Rightarrow> u8 io" where
  "bb_peek i = (\<lambda>b. if i < length (bb_buf b) then (Inr (bb_buf b ! i), b)
                    else (Inl UnexpectedEof, b))"

definition get_u8 :: "u8 io" where
  "get_u8 = (\<lambda>b. bindE (bb_peek (bb_pos b)) (\<lambda>v. \<lambda>b. (Inr v, b\<lparr>bb_pos := bb_pos b + 1\<rparr>)) b)"

definition get_i8 :: "i8 io" where
  "get_i8 = get_u8"

text \<open>The loop \<open>for item in &mut arr { *item = self.get_u8()?; }\<close> over an array of \<open>n\<close> bytes.\<close>

fun get_array :: "nat \<Rightarrow> u8 list io" where
  "get_array 0 = ret []"
| "get_array (Suc n) = bindE get_u8 (\<lambda>b. bindE (get_array n) (\<lambda>bs. ret (b # bs)))"

definition get_u16 :: "u16 io" where
  "get_u16 = bindE get_u8 (\<lambda>b0. bindE get_u8 (\<lambda>b1. ret (from_be_bytes [b0, b1])))"

definition get_i16 :: "i16 io" where
  "get_i16 = bindE get_u8 (\<lambda>b0. bindE get_u8 (\<lambda>b1. ret (from_be_bytes [b0, b1])))"

definition get_i32 :: "i32 io" where
  "get_i32 = bindE (get_array 4) (\<lambda>arr. ret (from_be_bytes arr))"

definition get_i64 :: "i64 io" where
  "get_i64 = bindE (get_array 8) (\<lambda>arr. ret (from_be_bytes arr))"

definition get_f32 :: "f32 io" where
  "get_f32 = bindE (get_array 4) (\<lambda>arr. ret (from_be_bytes arr))"

definition get_f64 :: "f64 io" where
  "get_f64 = bindE (get_array 8) (\<lambda>arr. ret (from_be_bytes arr))"

definition get_bool :: "bool io" where
  "get_bool = bindE get_u8 (\<lambda>v. ret (v \<noteq> 0))"

text \<open>A \<open>Uuid\<close> is its 16 bytes.\<close>

type_synonym uuid = "u8 list"

definition get_uuid :: "uuid io" where
  "get_uuid = get_array 16"

definition get_varint :: "i32 io" where
  "get_varint = (\<lambda>b. let (r, p) = read_varint (bb_buf b) (bb_pos b) in (r, b\<lparr>bb_pos := p\<rparr>))"

definition get_varlong :: "i64 io" where
  "get_varlong = (\<lambda>b. let (r, p) = read_varlong (bb_buf b) (bb_pos b) in (r, b\<lparr>bb_pos := p\<rparr>))"

definition get_bytes :: "nat \<Rightarrow> u8 list io" where
  "get_bytes n = (\<lambda>b. let start = bb_pos b; end' = start + n in
     case get_range (bb_buf b) start end' of
       None \<Rightarrow> (Inl UnexpectedEof, b)
     | Some bytes \<Rightarrow> (Inr bytes, b\<lparr>bb_pos := end'\<rparr>))"

definition get_string :: "rstring io" where
  "get_string =
     bindE get_varint (\<lambda>len.
     bindE (ok_or (i32_to_usize len) UnexpectedEof) (\<lambda>len_usize.
     if len_usize > MAX_STRING_LEN then throw Utf8
     else bindE (get_bytes len_usize) (\<lambda>bytes.
       if utf8_valid bytes then ret bytes else throw Utf8)))"

definition get_position :: "(i32 \<times> i32 \<times> i32) io" where
  "get_position =
     bindE get_i64 (\<lambda>val.
       let x = ucast (signed_drop_bit 38 val);
           y = ucast (val AND 0xFFF);
           z = ucast (signed_drop_bit 38 (push_bit 26 val))
       in ret (x, y, z))"

section \<open>The write cursor\<close>

definition put_raw :: "u8 list \<Rightarrow> unit io" where
  "put_raw bs = (\<lambda>b. (Inr (), b\<lparr>bb_buf := bb_buf b @ bs\<rparr>))"

definition put_u8 :: "u8 \<Rightarrow> unit io" where "put_u8 v = put_raw [v]"
definition put_i8 :: "i8 \<Rightarrow> unit io" where "put_i8 v = put_raw [v]"
definition put_u16 :: "u16 \<Rightarrow> unit io" where "put_u16 v = put_raw (to_be_bytes 2 v)"
definition put_i16 :: "i16 \<Rightarrow> unit io" where "put_i16 v = put_raw (to_be_bytes 2 v)"
definition put_i32 :: "i32 \<Rightarrow> unit io" where "put_i32 v = put_raw (to_be_bytes 4 v)"
definition put_i64 :: "i64 \<Rightarrow> unit io" where "put_i64 v = put_raw (to_be_bytes 8 v)"
definition put_f32 :: "f32 \<Rightarrow> unit io" where "put_f32 v = put_raw (to_be_bytes 4 v)"
definition put_f64 :: "f64 \<Rightarrow> unit io" where "put_f64 v = put_raw (to_be_bytes 8 v)"

definition put_bool :: "bool \<Rightarrow> unit io" where
  "put_bool v = put_raw [if v then 1 else 0]"

definition put_uuid :: "uuid \<Rightarrow> unit io" where "put_uuid v = put_raw v"

definition put_varint :: "i32 \<Rightarrow> unit io" where
  "put_varint v = (\<lambda>b. (Inr (), b\<lparr>bb_buf := write_varint (bb_buf b) v\<rparr>))"

definition put_bytes :: "u8 list \<Rightarrow> unit io" where "put_bytes v = put_raw v"

definition put_varlong :: "i64 \<Rightarrow> unit io" where
  "put_varlong v = (\<lambda>b. (Inr (), b\<lparr>bb_buf := write_varlong (bb_buf b) v\<rparr>))"

definition put_string :: "rstring \<Rightarrow> unit io" where
  "put_string v = seqE (put_varint (usize_as_i32 (length v))) (put_raw v)"

definition pack_position :: "i32 \<Rightarrow> i32 \<Rightarrow> i32 \<Rightarrow> i64" where
  "pack_position x y z =
     (push_bit 38 (scast x AND 0x3FFFFFF) OR push_bit 12 (scast z AND 0x3FFFFFF))
     OR (scast y AND 0xFFF)"

definition put_position :: "i32 \<times> i32 \<times> i32 \<Rightarrow> unit io" where
  "put_position p = (case p of (x, y, z) \<Rightarrow> put_i64 (pack_position x y z))"

end
