(* ===== verification/Codec.thy ===== *)
theory Codec
  imports Byte_Buf
begin

text \<open>
  The contract of the wire format, and the calculus that proves it. \<open>carries w r v\<close> says that
  the writer \<open>w\<close> succeeds and that the reader \<open>r\<close>, started where \<open>w\<close> began to write, gives \<open>v\<close>
  back and stops exactly where \<open>w\<close> stopped, whatever precedes and follows. \<open>cursor_safe r\<close>
  says that on arbitrary bytes \<open>r\<close> leaves the buffer alone and keeps its cursor inside it.
  Both are closed under sequencing, so a packet's codec follows from its fields' in a few
  steps (the rule collections \<open>carries_rules\<close> and \<open>safe_rules\<close>). The locale \<open>packet_codec\<close>
  is the interface that every packet of the protocol provides.
\<close>

section \<open>Writers, readers and the codec relation\<close>

definition writes :: "unit io \<Rightarrow> u8 list \<Rightarrow> bool" where
  "writes w bs \<longleftrightarrow> (\<forall>b. w b = (Inr (), b\<lparr>bb_buf := bb_buf b @ bs\<rparr>))"

definition cursor :: "u8 list \<Rightarrow> u8 list \<Rightarrow> byte_buffer" where
  "cursor pre post = \<lparr>bb_buf = pre @ post, bb_pos = length pre\<rparr>"

definition reads :: "'a io \<Rightarrow> u8 list \<Rightarrow> 'a \<Rightarrow> bool" where
  "reads r bs v \<longleftrightarrow> (\<forall>pre post. r (cursor pre (bs @ post)) = (Inr v, cursor (pre @ bs) post))"

definition carries :: "unit io \<Rightarrow> 'a io \<Rightarrow> 'a \<Rightarrow> bool" where
  "carries w r v \<longleftrightarrow> (\<exists>bs. writes w bs \<and> reads r bs v)"

named_theorems carries_rules
named_theorems safe_rules

lemma carriesI: "writes w bs \<Longrightarrow> reads r bs v \<Longrightarrow> carries w r v"
  by (auto simp: carries_def)

lemma writes_bind: "writes w bs \<Longrightarrow> writes w' bs' \<Longrightarrow> writes (seqE w w') (bs @ bs')"
  by (simp add: writes_def bindE_def)

lemma reads_bind: "reads r bs v \<Longrightarrow> reads (f v) bs' u \<Longrightarrow> reads (bindE r f) (bs @ bs') u"
  by (simp add: reads_def bindE_def)

lemma writes_ret: "writes (ret ()) []"
  by (simp add: writes_def ret_def)

lemma writes_ret_Nil: "writes (ret ()) bs \<Longrightarrow> bs = []"
  unfolding writes_def ret_def by (drule spec [of _ "bb_new []"]) (simp add: bb_new_def)

lemma reads_ret: "reads (ret v) [] v"
  by (simp add: reads_def ret_def cursor_def)

lemma carries_ret [carries_rules]: "v = u \<Longrightarrow> carries (ret ()) (ret v) u"
  by (rule carriesI [OF writes_ret]) (simp add: reads_ret)

text \<open>The closing \<open>Ok(())\<close> of an encoder.\<close>

definition put_end :: "unit io" where
  "put_end = ret ()"

lemma carries_end [carries_rules]: "v = u \<Longrightarrow> carries put_end (ret v) u"
  unfolding put_end_def by (rule carries_ret)

lemma carries_bind [carries_rules]:
  "carries w r v \<Longrightarrow> carries w' (f v) u \<Longrightarrow> carries (seqE w w') (bindE r f) u"
  unfolding carries_def by (metis writes_bind reads_bind)

text \<open>A writer in tail position: the reader still has its constructor to apply.\<close>

lemma carries_tail:
  assumes "carries w r v" and "carries (ret ()) (f v) u"
  shows "carries w (bindE r f) u"
proof -
  from assms(1) obtain bs where "writes w bs" "reads r bs v" by (auto simp: carries_def)
  moreover from assms(2) have "reads (f v) [] u"
    by (auto simp: carries_def dest: writes_ret_Nil)
  ultimately show ?thesis
    using reads_bind [of r bs v f "[]" u] by (auto simp: carries_def)
qed

section \<open>Primitive fields\<close>

lemma writes_put_raw: "writes (put_raw bs) bs"
  by (simp add: writes_def put_raw_def)

lemma get_u8_cursor [simp]: "get_u8 (cursor pre (b # post)) = (Inr b, cursor (pre @ [b]) post)"
  by (simp add: get_u8_def bb_peek_def bindE_def cursor_def)

lemma reads_get_u8: "reads get_u8 [b] b"
  by (simp add: reads_def)

lemma reads_get_array: "reads (get_array (length bs)) bs bs"
proof (induction bs)
  case Nil
  show ?case by (simp add: reads_ret)
next
  case (Cons b bs)
  have "reads (get_array (length (b # bs))) ([b] @ bs @ []) (b # bs)"
    unfolding get_array.simps list.size add_0_right add_Suc_right
    by (rule reads_bind [OF reads_get_u8], rule reads_bind [OF Cons.IH], rule reads_ret)
  then show ?case by simp
qed

lemma reads_be:
  assumes "length bs = n" and "from_be_bytes bs = v"
  shows "reads (bindE (get_array n) (\<lambda>arr. ret (from_be_bytes arr))) bs v"
  using reads_bind [OF reads_get_array [of bs], of "\<lambda>arr. ret (from_be_bytes arr)" "[]" v]
    reads_ret [of v] assms by simp

lemma reads_be2:
  assumes "length bs = 2" and "from_be_bytes bs = v"
  shows "reads (bindE get_u8 (\<lambda>b0. bindE get_u8 (\<lambda>b1. ret (from_be_bytes [b0, b1])))) bs v"
proof -
  from assms(1) obtain a b where bs: "bs = [a, b]"
    by (metis (no_types) One_nat_def Suc_1 length_0_conv length_Suc_conv)
  have "reads (bindE get_u8 (\<lambda>b0. bindE get_u8 (\<lambda>b1. ret (from_be_bytes [b0, b1]))))
          ([a] @ [b] @ []) v"
    by (rule reads_bind [OF reads_get_u8], rule reads_bind [OF reads_get_u8])
       (use assms bs reads_ret in simp)
  then show ?thesis by (simp add: bs)
qed

lemma carries_u8 [carries_rules]: "carries (put_u8 v) get_u8 v"
  unfolding put_u8_def by (rule carriesI [OF writes_put_raw reads_get_u8])

lemma carries_i8 [carries_rules]: "carries (put_i8 v) get_i8 v"
  unfolding put_i8_def get_i8_def by (rule carriesI [OF writes_put_raw reads_get_u8])

lemma carries_u16 [carries_rules]: "carries (put_u16 v) get_u16 v"
  unfolding put_u16_def get_u16_def by (rule carriesI [OF writes_put_raw]) (simp add: reads_be2)

lemma carries_i16 [carries_rules]: "carries (put_i16 v) get_i16 v"
  unfolding put_i16_def get_i16_def by (rule carriesI [OF writes_put_raw]) (simp add: reads_be2)

lemma carries_i32 [carries_rules]: "carries (put_i32 v) get_i32 v"
  unfolding put_i32_def get_i32_def by (rule carriesI [OF writes_put_raw]) (simp add: reads_be)

lemma carries_i64 [carries_rules]: "carries (put_i64 v) get_i64 v"
  unfolding put_i64_def get_i64_def by (rule carriesI [OF writes_put_raw]) (simp add: reads_be)

lemma carries_f32 [carries_rules]: "carries (put_f32 v) get_f32 v"
  unfolding put_f32_def get_f32_def by (rule carriesI [OF writes_put_raw]) (simp add: reads_be)

lemma carries_f64 [carries_rules]: "carries (put_f64 v) get_f64 v"
  unfolding put_f64_def get_f64_def by (rule carriesI [OF writes_put_raw]) (simp add: reads_be)

lemma carries_bool [carries_rules]: "carries (put_bool v) get_bool v"
proof -
  have "reads get_bool ([if v then 1 else 0] @ []) v"
    unfolding get_bool_def by (rule reads_bind [OF reads_get_u8]) (simp add: reads_ret)
  then show ?thesis unfolding put_bool_def by (intro carriesI [OF writes_put_raw]) simp
qed

lemma carries_uuid [carries_rules]: "length v = 16 \<Longrightarrow> carries (put_uuid v) get_uuid v"
  unfolding put_uuid_def get_uuid_def
  using carriesI [OF writes_put_raw reads_get_array [of v]] by simp

lemma writes_put_varint: "writes (put_varint v) (varint_bytes v)"
  by (simp add: writes_def put_varint_def)

lemma reads_get_varint: "reads get_varint (varint_bytes v) v"
  by (simp add: reads_def get_varint_def cursor_def read_varint_bytes)

lemma carries_varint [carries_rules]: "carries (put_varint v) get_varint v"
  by (rule carriesI [OF writes_put_varint reads_get_varint])

lemma carries_varlong [carries_rules]: "carries (put_varlong v) get_varlong v"
  by (rule carriesI [of _ "varint_bytes v"])
     (simp_all add: writes_def reads_def put_varlong_def get_varlong_def cursor_def read_varlong_bytes)

lemma reads_get_bytes: "length bs = n \<Longrightarrow> reads (get_bytes n) bs bs"
  by (auto simp: reads_def get_bytes_def cursor_def get_range_def)

lemma carries_bytes [carries_rules]: "length v = n \<Longrightarrow> carries (put_bytes v) (get_bytes n) v"
  unfolding put_bytes_def by (intro carriesI [OF writes_put_raw] reads_get_bytes)

text \<open>The strings the protocol can carry: UTF-8 of at most \<open>MAX_STRING_LEN\<close> bytes.\<close>

definition wf_string :: "rstring \<Rightarrow> bool" where
  "wf_string s \<longleftrightarrow> utf8_valid s \<and> length s \<le> MAX_STRING_LEN"

lemma carries_string [carries_rules]:
  assumes "wf_string s"
  shows "carries (put_string s) get_string s"
proof -
  have len: "length s < 2 ^ 31" "length s \<le> MAX_STRING_LEN" and "utf8_valid s"
    using assms by (simp_all add: wf_string_def MAX_STRING_LEN_def)
  then have "reads (get_bytes (length s) :: rstring io) s s" by (simp add: reads_get_bytes)
  from reads_bind [OF this, of "\<lambda>bytes. if utf8_valid bytes then ret bytes else throw Utf8" "[]" s]
  have body: "reads (bindE (get_bytes (length s))
      (\<lambda>bytes. if utf8_valid bytes then ret bytes else throw Utf8)) s s"
    using \<open>utf8_valid s\<close> reads_ret [of s] by simp
  have "reads get_string (varint_bytes (usize_as_i32 (length s)) @ s) s"
    unfolding get_string_def
    by (rule reads_bind [OF reads_get_varint])
       (use len body in \<open>simp add: usize_as_i32_def not_less [symmetric]\<close>)
  then show ?thesis
    unfolding put_string_def
    by (intro carriesI [OF writes_bind [OF writes_put_varint writes_put_raw]])
qed

section \<open>Block positions\<close>

text \<open>
  A position packs x and z in 26 bits and y in 12 bits. The reader sign-extends x and z but
  not y, so the round trip holds for a y of 0 to 4095 and returns \<open>y AND 0xFFF\<close> in general.
\<close>

definition wf_position :: "i32 \<times> i32 \<times> i32 \<Rightarrow> bool" where
  "wf_position p \<longleftrightarrow> (case p of (x, y, z) \<Rightarrow>
     - (2 ^ 25) \<le> sint x \<and> sint x < 2 ^ 25 \<and> - (2 ^ 25) \<le> sint z \<and> sint z < 2 ^ 25 \<and>
     0 \<le> sint y \<and> sint y < 4096)"

lemma bit_i32_beyond_25:
  assumes "- (2 ^ 25) \<le> sint (x :: i32)" and "sint x < 2 ^ 25" and "25 \<le> n" and "n < 32"
  shows "bit x n = bit x 25"
proof -
  have "signed_take_bit 25 (sint x) = sint x"
    using assms(1,2) by (simp only: signed_take_bit_int_eq_self_iff)
  then have "bit (sint x) n = bit (signed_take_bit 25 (sint x)) n" by simp
  also have "\<dots> = bit (sint x) 25" using assms(3) by (simp add: bit_simps min_def)
  finally show ?thesis
    using assms(4) by (cases "n = 31") (simp_all add: bit_simps min_def)
qed

lemma masks: "(0x3FFFFFF :: i64) = mask 26" "(0xFFF :: i64) = mask 12" "(0xFFF :: i32) = mask 12"
  by (simp_all add: mask_eq_exp_minus_1)

lemma pack_position_x:
  assumes "- (2 ^ 25) \<le> sint x" and "sint x < 2 ^ 25"
  shows "ucast (signed_drop_bit 38 (pack_position x y z)) = x"
proof (rule bit_word_eqI)
  fix n
  assume "n < LENGTH(32)"
  then show "bit (ucast (signed_drop_bit 38 (pack_position x y z)) :: i32) n = bit x n"
    using bit_i32_beyond_25 [OF assms, of n]
    by (cases "n < 26") (auto simp: pack_position_def masks bit_simps min_def not_less)
qed

lemma pack_position_z:
  assumes "- (2 ^ 25) \<le> sint z" and "sint z < 2 ^ 25"
  shows "ucast (signed_drop_bit 38 (push_bit 26 (pack_position x y z))) = z"
proof (rule bit_word_eqI)
  fix n
  assume "n < LENGTH(32)"
  then show "bit (ucast (signed_drop_bit 38 (push_bit 26 (pack_position x y z))) :: i32) n = bit z n"
    using bit_i32_beyond_25 [OF assms, of n]
    by (cases "n < 26") (auto simp: pack_position_def masks bit_simps min_def not_less)
qed

lemma pack_position_y: "ucast (pack_position x y z AND 0xFFF) = y AND 0xFFF"
  by (rule bit_word_eqI) (auto simp: pack_position_def masks bit_simps min_def)

lemma reads_get_position:
  assumes "- (2 ^ 25) \<le> sint x" "sint x < 2 ^ 25" "- (2 ^ 25) \<le> sint z" "sint z < 2 ^ 25"
  shows "reads get_position (to_be_bytes 8 (pack_position x y z)) (x, y AND 0xFFF, z)"
proof -
  have "reads get_i64 (to_be_bytes 8 (pack_position x y z)) (pack_position x y z)"
    unfolding get_i64_def by (rule reads_be) simp_all
  from reads_bind [OF this] show ?thesis
    unfolding get_position_def
    by (metis (no_types, lifting) append_Nil2 assms pack_position_x pack_position_y pack_position_z reads_ret)
qed

lemma carries_position [carries_rules]:
  assumes "wf_position p"
  shows "carries (put_position p) get_position p"
proof -
  obtain x y z where p: "p = (x, y, z)" by (cases p)
  have "0 \<le> sint y" "sint y < 4096" using assms by (simp_all add: wf_position_def p)
  then have "uint y < 4096"
    using uint_lt2p [of y] by (simp add: sint_i32 split: if_splits)
  then have "y AND 0xFFF = y"
    by (simp add: masks flip: take_bit_eq_mask)
       (simp add: word_uint_eq_iff unsigned_take_bit_eq take_bit_int_eq_self)
  then show ?thesis
    using reads_get_position [of x z y] assms
    unfolding put_position_def put_i64_def p prod.case
    by (intro carriesI [OF writes_put_raw]) (simp add: wf_position_def p)
qed

section \<open>Optional fields and counted sequences\<close>

text \<open>
  The recurring idioms of the packet bodies: a presence flag before an optional field
  (\<open>if buf.get_bool()? { Some(..) } else { None }\<close>), and a VarInt count before the elements
  (\<open>let n = usize::try_from(buf.get_varint()?).map_err(|_| e)?; for _ in 0..n { .. }\<close>).
\<close>

definition get_opt :: "'a io \<Rightarrow> 'a option io" where
  "get_opt r = bindE get_bool (\<lambda>h. if h then bindE r (\<lambda>v. ret (Some v)) else ret None)"

definition put_opt :: "('a \<Rightarrow> unit io) \<Rightarrow> 'a option \<Rightarrow> unit io" where
  "put_opt w x = (case x of Some v \<Rightarrow> seqE (put_bool True) (w v) | None \<Rightarrow> put_bool False)"

definition get_counted :: "protocol_error \<Rightarrow> 'a io \<Rightarrow> 'a list io" where
  "get_counted e r = bindE get_varint (\<lambda>c. bindE (ok_or (i32_to_usize c) e) (\<lambda>n. get_n n r))"

definition put_counted :: "('a \<Rightarrow> unit io) \<Rightarrow> 'a list \<Rightarrow> unit io" where
  "put_counted w vs = seqE (put_varint (usize_as_i32 (length vs))) (put_each w vs)"

text \<open>The variant that refuses a count beyond \<open>i32\<close>.\<close>

definition put_counted_try :: "protocol_error \<Rightarrow> ('a \<Rightarrow> unit io) \<Rightarrow> 'a list \<Rightarrow> unit io" where
  "put_counted_try e w vs =
     bindE (ok_or (usize_to_i32 (length vs)) e) (\<lambda>n. seqE (put_varint n) (put_each w vs))"

text \<open>A length-prefixed byte section.\<close>

definition get_blob :: "protocol_error \<Rightarrow> u8 list io" where
  "get_blob e = bindE get_varint (\<lambda>c. bindE (ok_or (i32_to_usize c) e) (\<lambda>n. get_bytes n))"

definition put_blob :: "u8 list \<Rightarrow> unit io" where
  "put_blob bs = seqE (put_varint (usize_as_i32 (length bs))) (put_bytes bs)"

text \<open>\<open>read_byte_array\<close> and \<open>write_byte_array\<close>: the variant that refuses a length beyond \<open>i32\<close>.\<close>

definition get_byte_array :: "u8 list io" where
  "get_byte_array = get_blob UnexpectedEof"

definition put_byte_array :: "u8 list \<Rightarrow> unit io" where
  "put_byte_array bs =
     bindE (ok_or (usize_to_i32 (length bs)) UnexpectedEof) (\<lambda>n. seqE (put_varint n) (put_bytes bs))"

text \<open>\<open>read_varint_array\<close> and \<open>write_varint_array\<close>.\<close>

definition get_varint_array :: "'a io \<Rightarrow> 'a list io" where
  "get_varint_array r = get_counted UnexpectedEof r"

definition put_varint_array :: "('a \<Rightarrow> unit io) \<Rightarrow> 'a list \<Rightarrow> unit io" where
  "put_varint_array w vs = put_counted_try UnexpectedEof w vs"

text \<open>Three fields of one kind, for the coordinate triples.\<close>

definition get_triple :: "'a io \<Rightarrow> ('a \<times> 'a \<times> 'a) io" where
  "get_triple r = bindE r (\<lambda>x. bindE r (\<lambda>y. bindE r (\<lambda>z. ret (x, y, z))))"

definition put_triple :: "('a \<Rightarrow> unit io) \<Rightarrow> 'a \<times> 'a \<times> 'a \<Rightarrow> unit io" where
  "put_triple w t = (case t of (x, y, z) \<Rightarrow> seqE (w x) (seqE (w y) (w z)))"

lemma carries_opt [carries_rules]:
  assumes "\<And>v. x = Some v \<Longrightarrow> carries (w v) r v"
  shows "carries (put_opt w x) (get_opt r) x"
proof (cases x)
  case None
  have "carries (put_bool False) (get_opt r) None"
    unfolding get_opt_def by (rule carries_tail [OF carries_bool]) (simp add: carries_ret)
  with None show ?thesis by (simp add: put_opt_def)
next
  case (Some v)
  have "carries (w v) (bindE r (\<lambda>v. ret (Some v))) (Some v)"
    by (rule carries_tail [OF assms [OF Some]]) (simp add: carries_ret)
  then have "carries (seqE (put_bool True) (w v)) (get_opt r) (Some v)"
    unfolding get_opt_def by (intro carries_bind [OF carries_bool]) simp
  with Some show ?thesis by (simp add: put_opt_def)
qed

lemma carries_each:
  "(\<And>v. v \<in> set vs \<Longrightarrow> carries (w v) r v) \<Longrightarrow> carries (put_each w vs) (get_n (length vs) r) vs"
proof (induction vs)
  case Nil
  show ?case by (simp add: carries_ret)
next
  case (Cons v vs)
  have "carries (put_each w vs) (bindE (get_n (length vs) r) (\<lambda>vs. ret (v # vs))) (v # vs)"
    by (rule carries_tail [OF Cons.IH]) (simp_all add: Cons.prems carries_ret)
  moreover have "carries (w v) r v" by (simp add: Cons.prems)
  ultimately show ?case by (simp only: put_each.simps get_n.simps list.size add_0_right add_Suc_right)
      (rule carries_bind)
qed

lemma carries_counted [carries_rules]:
  assumes "length vs < 2 ^ 31" and "\<And>v. v \<in> set vs \<Longrightarrow> carries (w v) r v"
  shows "carries (put_counted w vs) (get_counted e r) vs"
  unfolding put_counted_def get_counted_def
  by (rule carries_bind [OF carries_varint]) (use assms in \<open>simp add: usize_as_i32_def carries_each\<close>)

lemma carries_counted_try [carries_rules]:
  assumes "length vs < 2 ^ 31" and "\<And>v. v \<in> set vs \<Longrightarrow> carries (w v) r v"
  shows "carries (put_counted_try e w vs) (get_counted e' r) vs"
  using carries_counted [of vs w r e'] assms
  by (simp add: put_counted_try_def put_counted_def usize_to_i32_def usize_as_i32_def)

lemma carries_blob [carries_rules]:
  assumes "length bs < 2 ^ 31"
  shows "carries (put_blob bs) (get_blob e) bs"
  unfolding put_blob_def get_blob_def
  by (rule carries_bind [OF carries_varint])
     (use assms in \<open>simp add: usize_as_i32_def carries_bytes\<close>)

lemma carries_byte_array [carries_rules]:
  assumes "length bs < 2 ^ 31"
  shows "carries (put_byte_array bs) get_byte_array bs"
  using carries_blob [OF assms, of UnexpectedEof] assms
  by (simp add: put_byte_array_def get_byte_array_def put_blob_def usize_to_i32_def usize_as_i32_def)

lemma carries_varint_array [carries_rules]:
  assumes "length vs < 2 ^ 31" and "\<And>v. v \<in> set vs \<Longrightarrow> carries (w v) r v"
  shows "carries (put_varint_array w vs) (get_varint_array r) vs"
  unfolding put_varint_array_def get_varint_array_def by (rule carries_counted_try [OF assms])

lemma carries_triple [carries_rules]:
  assumes "\<And>v. carries (w v) r v"
  shows "carries (put_triple w t) (get_triple r) t"
  unfolding put_triple_def get_triple_def
  by (cases t) (simp, intro carries_bind [OF assms] carries_tail [OF assms] carries_ret refl)

section \<open>Cursor safety\<close>

definition cursor_safe :: "'a io \<Rightarrow> bool" where
  "cursor_safe r \<longleftrightarrow> (\<forall>b. bb_pos b \<le> length (bb_buf b) \<longrightarrow>
     (let b' = snd (r b) in
       bb_buf b' = bb_buf b \<and> bb_pos b \<le> bb_pos b' \<and> bb_pos b' \<le> length (bb_buf b)))"

lemma cursor_safeD:
  assumes "cursor_safe r" and "bb_pos b \<le> length (bb_buf b)" and "r b = (x, b')"
  shows "bb_buf b' = bb_buf b" and "bb_pos b \<le> bb_pos b'" and "bb_pos b' \<le> length (bb_buf b')"
  using assms unfolding cursor_safe_def Let_def by (metis snd_conv)+

lemma safe_ret [safe_rules]: "cursor_safe (ret v)"
  by (simp add: cursor_safe_def ret_def)

lemma safe_throw [safe_rules]: "cursor_safe (throw e)"
  by (simp add: cursor_safe_def throw_def)

lemma safe_ok_or [safe_rules]: "cursor_safe (ok_or x e)"
  by (cases x) (simp_all add: safe_ret safe_throw)

lemma safe_bind [safe_rules]:
  assumes "cursor_safe r" and "\<And>v. cursor_safe (f v)"
  shows "cursor_safe (bindE r f)"
  unfolding cursor_safe_def Let_def
proof (intro allI impI)
  fix b :: byte_buffer
  assume b: "bb_pos b \<le> length (bb_buf b)"
  obtain x b1 where r: "r b = (x, b1)" by (cases "r b")
  note s1 = cursor_safeD [OF assms(1) b r]
  show "bb_buf (snd (bindE r f b)) = bb_buf b \<and> bb_pos b \<le> bb_pos (snd (bindE r f b))
      \<and> bb_pos (snd (bindE r f b)) \<le> length (bb_buf b)"
  proof (cases x)
    case (Inl e)
    with r s1 show ?thesis by (simp add: bindE_Inl)
  next
    case (Inr v)
    obtain y b2 where f: "f v b1 = (y, b2)" by (cases "f v b1")
    note s2 = cursor_safeD [OF assms(2) s1(3) f]
    from r Inr f s1 s2 show ?thesis by (simp add: bindE_Inr)
  qed
qed

lemma safe_if [safe_rules]:
  "(c \<Longrightarrow> cursor_safe r) \<Longrightarrow> (\<not> c \<Longrightarrow> cursor_safe r') \<Longrightarrow> cursor_safe (if c then r else r')"
  by simp

lemma safe_when [safe_rules]:
  "cursor_safe r \<Longrightarrow> cursor_safe r' \<Longrightarrow> cursor_safe (\<lambda>b. if c b then r b else r' b)"
  by (simp add: cursor_safe_def)

lemma safe_get_u8 [safe_rules]: "cursor_safe get_u8"
  by (auto simp: cursor_safe_def get_u8_def bb_peek_def bindE_def)

lemma safe_get_i8 [safe_rules]: "cursor_safe get_i8"
  unfolding get_i8_def by (rule safe_get_u8)

lemma safe_get_array [safe_rules]: "cursor_safe (get_array n)"
  by (induction n) (auto intro!: safe_rules)

lemma safe_fixed [safe_rules]:
  "cursor_safe get_u16" "cursor_safe get_i16" "cursor_safe get_i32" "cursor_safe get_i64"
  "cursor_safe get_f32" "cursor_safe get_f64" "cursor_safe get_bool" "cursor_safe get_uuid"
  unfolding get_u16_def get_i16_def get_i32_def get_i64_def get_f32_def get_f64_def get_bool_def
    get_uuid_def
  by (auto intro!: safe_rules)

lemma read_varint_loop_pos:
  "pos \<le> length data \<Longrightarrow> read_varint_loop n i res data pos = (r, p) \<Longrightarrow> pos \<le> p \<and> p \<le> length data"
  by (induction n i res data pos arbitrary: r p rule: read_varint_loop.induct)
     (fastforce simp: Let_def split: if_splits)+

lemma safe_cursor_fun:
  assumes "\<And>data pos r p. pos \<le> length data \<Longrightarrow> f data pos = (r, p) \<Longrightarrow> pos \<le> p \<and> p \<le> length data"
  shows "cursor_safe (\<lambda>b. let (r, p) = f (bb_buf b) (bb_pos b) in (r, b\<lparr>bb_pos := p\<rparr>))"
  unfolding cursor_safe_def
proof (intro allI impI)
  fix b :: byte_buffer
  assume b: "bb_pos b \<le> length (bb_buf b)"
  obtain r p where f: "f (bb_buf b) (bb_pos b) = (r, p)" by (cases "f (bb_buf b) (bb_pos b)")
  from assms [OF b f] show "let b' = snd (let (r, p) = f (bb_buf b) (bb_pos b) in (r, b\<lparr>bb_pos := p\<rparr>))
    in bb_buf b' = bb_buf b \<and> bb_pos b \<le> bb_pos b' \<and> bb_pos b' \<le> length (bb_buf b)"
    by (simp add: f)
qed

lemma safe_varint [safe_rules]: "cursor_safe get_varint" "cursor_safe get_varlong"
  unfolding get_varint_def get_varlong_def
  by (rule safe_cursor_fun, simp only: read_varint_def read_varlong_def, erule (1) read_varint_loop_pos)+

lemma safe_get_bytes [safe_rules]: "cursor_safe (get_bytes n)"
  by (auto simp: cursor_safe_def get_bytes_def get_range_def Let_def)

lemma safe_get_string [safe_rules]: "cursor_safe get_string"
  unfolding get_string_def by (auto intro!: safe_rules)

lemma safe_get_position [safe_rules]: "cursor_safe get_position"
  unfolding get_position_def Let_def by (auto intro!: safe_rules)

lemma safe_get_opt [safe_rules]: "cursor_safe r \<Longrightarrow> cursor_safe (get_opt r)"
  unfolding get_opt_def by (auto intro!: safe_rules)

lemma safe_get_n [safe_rules]: "cursor_safe r \<Longrightarrow> cursor_safe (get_n n r)"
  by (induction n) (auto intro!: safe_rules)

lemma safe_get_counted [safe_rules]: "cursor_safe r \<Longrightarrow> cursor_safe (get_counted e r)"
  unfolding get_counted_def by (auto intro!: safe_rules)

lemma safe_get_blob [safe_rules]: "cursor_safe (get_blob e)"
  unfolding get_blob_def by (auto intro!: safe_rules)

lemma safe_byte_array [safe_rules]: "cursor_safe get_byte_array"
  unfolding get_byte_array_def by (rule safe_get_blob)

lemma safe_varint_array [safe_rules]: "cursor_safe r \<Longrightarrow> cursor_safe (get_varint_array r)"
  unfolding get_varint_array_def by (rule safe_get_counted)

lemma safe_triple [safe_rules]: "cursor_safe r \<Longrightarrow> cursor_safe (get_triple r)"
  unfolding get_triple_def by (auto intro!: safe_rules)

section \<open>The last field of a body\<close>

text \<open>
  Some bodies end with a field that takes all remaining bytes. Their round trip holds where the
  body is decoded alone, as the dispatcher does: \<open>ends w r v\<close>.
\<close>

definition ends :: "unit io \<Rightarrow> 'a io \<Rightarrow> 'a \<Rightarrow> bool" where
  "ends w r v \<longleftrightarrow> (\<exists>bs. writes w bs \<and> (\<forall>pre. fst (r (cursor pre bs)) = Inr v))"

lemma carries_ends: "carries w r v \<Longrightarrow> ends w r v"
  unfolding carries_def ends_def reads_def by (metis append_Nil2 fst_conv)

lemma ends_bind: "carries w r v \<Longrightarrow> ends w' (f v) u \<Longrightarrow> ends (seqE w w') (bindE r f) u"
proof -
  assume "carries w r v" and "ends w' (f v) u"
  then obtain bs bs' where w: "writes w bs" "reads r bs v" "writes w' bs'"
    "\<And>pre. fst (f v (cursor pre bs')) = Inr u"
    by (auto simp: carries_def ends_def)
  have "fst (bindE r f (cursor pre (bs @ bs'))) = Inr u" for pre
    using w(2,4) by (simp add: reads_def bindE_def)
  with writes_bind [OF w(1,3)] show ?thesis by (auto simp: ends_def)
qed

lemma ends_last: "ends w r v \<Longrightarrow> f v = ret u \<Longrightarrow> ends w (bindE r f) u"
proof -
  assume "ends w r v" and f: "f v = ret u"
  then obtain bs where w: "writes w bs" "\<And>pre. fst (r (cursor pre bs)) = Inr v"
    by (auto simp: ends_def)
  have "fst (bindE r f (cursor pre bs)) = Inr u" for pre
    using w(2) [of pre] f by (cases "r (cursor pre bs)") (simp add: bindE_def ret_def)
  with w(1) show ?thesis by (auto simp: ends_def)
qed

section \<open>The interface of a packet\<close>

text \<open>The bytes a writer leaves in a fresh buffer (\<open>ByteBuffer::with_capacity\<close>, \<open>into_inner\<close>).\<close>

definition encoded :: "unit io \<Rightarrow> u8 list" where
  "encoded w = into_inner (snd (w (bb_with_capacity 64)))"

lemma writes_encoded: "writes w bs \<Longrightarrow> encoded w = bs"
  by (simp add: encoded_def writes_def into_inner_def bb_with_capacity_def)

lemma carries_encoded: "carries w r v \<Longrightarrow> writes w (encoded w) \<and> reads r (encoded w) v"
  using writes_encoded by (fastforce simp: carries_def)

locale stream_codec =
  fixes put_all :: "'p list \<Rightarrow> unit io"
    and get_all :: "nat \<Rightarrow> 'p list io"
    and wf :: "'p \<Rightarrow> bool"
  assumes stream: "list_all wf ps \<Longrightarrow> carries (put_all ps) (get_all (length ps)) ps"
    and stream_safe: "cursor_safe (get_all n)"

locale packet_codec =
  fixes encode :: "'p \<Rightarrow> unit io"
    and decode :: "'p io"
    and wf :: "'p \<Rightarrow> bool"
  assumes codec: "wf p \<Longrightarrow> carries (encode p) decode p"
    and decode_safe: "cursor_safe decode"
begin

lemma encode_ok: "wf p \<Longrightarrow> fst (encode p b) = Inr ()"
  using codec [of p] by (auto simp: carries_def writes_def)

lemma decode_encoded:
  "wf p \<Longrightarrow> decode (bb_new (encoded (encode p) @ rest))
     = (Inr p, \<lparr>bb_buf = encoded (encode p) @ rest, bb_pos = length (encoded (encode p))\<rparr>)"
  using carries_encoded [OF codec [of p]]
  by (auto simp: reads_def cursor_def bb_new_def dest: spec [of _ "[]"])

lemma encoded_prefix_free:
  assumes "wf p" and "wf q" and "encoded (encode p) @ r = encoded (encode q) @ r'"
  shows "p = q" and "r = r'"
proof -
  from assms(3) have "decode (bb_new (encoded (encode p) @ r))
      = decode (bb_new (encoded (encode q) @ r'))" by simp
  then have *: "p = q" "length (encoded (encode p)) = length (encoded (encode q))"
    by (simp_all add: decode_encoded assms(1,2))
  show "p = q" by (rule *)
  from assms(3) * show "r = r'" by simp
qed

lemma decode_in_bounds:
  "decode (bb_new bytes) = (r, b') \<Longrightarrow> bb_buf b' = bytes \<and> bb_pos b' \<le> length bytes"
  using cursor_safeD [OF decode_safe, of "bb_new bytes" r b'] by (auto simp: bb_new_def)

end

text \<open>The weaker contract of a body that is decoded alone.\<close>

locale body_codec =
  fixes encode :: "'p \<Rightarrow> unit io"
    and decode :: "'p io"
    and wf :: "'p \<Rightarrow> bool"
  assumes body: "wf p \<Longrightarrow> ends (encode p) decode p"
    and body_safe: "cursor_safe decode"
begin

lemma body_writes:
  assumes "wf p"
  shows "writes (encode p) (encoded (encode p))"
proof -
  obtain bs where "writes (encode p) bs" using body [OF assms] by (auto simp: ends_def)
  with writes_encoded [OF this] show ?thesis by simp
qed

lemma body_encode_ok: "wf p \<Longrightarrow> encode p b = (Inr (), b\<lparr>bb_buf := bb_buf b @ encoded (encode p)\<rparr>)"
  using body_writes [of p] by (simp add: writes_def)

lemma body_decode: "wf p \<Longrightarrow> fst (decode (bb_new (encoded (encode p)))) = Inr p"
proof -
  assume "wf p"
  then obtain bs where w: "writes (encode p) bs" "\<And>pre. fst (decode (cursor pre bs)) = Inr p"
    using body [of p] by (auto simp: ends_def)
  from w(2) [of "[]"] show ?thesis by (simp add: writes_encoded [OF w(1)] cursor_def bb_new_def)
qed

lemma body_injective:
  assumes "wf p" and "wf q" and "encoded (encode p) = encoded (encode q)"
  shows "p = q"
  using body_decode [OF assms(1)] body_decode [OF assms(2)] unfolding assms(3) by simp

lemma body_decode_in_bounds:
  "decode (bb_new bytes) = (r, b') \<Longrightarrow> bb_buf b' = bytes \<and> bb_pos b' \<le> length bytes"
  using cursor_safeD [OF body_safe, of "bb_new bytes" r b'] by (simp add: bb_new_def)

end

sublocale packet_codec \<subseteq> body: body_codec encode decode wf
  by unfold_locales (simp_all add: carries_ends codec decode_safe)

text \<open>A packet codec extends to sequences of packets, written one after the other.\<close>

sublocale packet_codec \<subseteq> seq: stream_codec "put_each encode" "\<lambda>n. get_n n decode" wf
  by unfold_locales
     (auto simp: list_all_iff intro!: carries_each codec safe_get_n decode_safe)

end
