(* ===== verification/Framing.thy ===== *)
theory Framing
  imports Codec
begin

text \<open>
  Frames (\<open>protocol/framing.rs\<close>): the length-prefixed frame, the compressed frame, and the
  bounded inflate loop. The zlib streams themselves are the crate flate2, which is not part
  of the repository: a deflater is an argument of type \<open>u8 list \<Rightarrow> u8 list option\<close> (\<open>None\<close> when
  the encoder reports an error), and an inflater is an argument that performs one
  \<open>Decompress::decompress\<close> call on the remaining input. \<open>usize\<close> is 64 bits wide.
\<close>

section \<open>Plain frames\<close>

definition MAX_FRAME :: nat where
  "MAX_FRAME = 2097152"

definition encode_frame :: "u8 list \<Rightarrow> u8 list \<Rightarrow> (protocol_error + unit) \<times> u8 list" where
  "encode_frame buf payload =
     (let len = length payload in
      if len > MAX_FRAME then (Inl FrameTooLarge, buf)
      else case usize_to_i32 len of
             None \<Rightarrow> (Inl FrameTooLarge, buf)
           | Some len_i32 \<Rightarrow> (Inr (), write_varint buf len_i32 @ payload))"

definition decode_frame :: "u8 list \<Rightarrow> nat \<Rightarrow> (protocol_error + u8 list) \<times> nat" where
  "decode_frame data pos =
     (case read_varint data pos of
        (Inl e, pos) \<Rightarrow> (Inl e, pos)
      | (Inr len, pos) \<Rightarrow>
          (case i32_to_usize len of
             None \<Rightarrow> (Inl FrameTooLarge, pos)
           | Some len_usize \<Rightarrow>
               if len_usize > MAX_FRAME then (Inl FrameTooLarge, pos)
               else (let start = pos; end' = start + len_usize in
                 case get_range data start end' of
                   None \<Rightarrow> (Inl UnexpectedEof, pos)
                 | Some payload \<Rightarrow> (Inr payload, end'))))"

section \<open>Compressed frames\<close>

definition write_usize_varint :: "u8 list \<Rightarrow> nat \<Rightarrow> u8 list" where
  "write_usize_varint buf value = varint_loop (word_of_nat value :: u64) buf"

fun varint_byte_len_loop :: "nat \<Rightarrow> nat \<Rightarrow> nat" where
  "varint_byte_len_loop len value =
     (if value \<noteq> 0 then varint_byte_len_loop (len + 1) (value div 128) else len)"

declare varint_byte_len_loop.simps [simp del]

definition varint_byte_len :: "nat \<Rightarrow> nat" where
  "varint_byte_len value = varint_byte_len_loop 1 (value div 128)"

definition deflate_zlib :: "(u8 list \<Rightarrow> u8 list option) \<Rightarrow> u8 list \<Rightarrow> u8 list" where
  "deflate_zlib deflater payload = (case deflater payload of None \<Rightarrow> [] | Some bs \<Rightarrow> bs)"

definition uncompressed_frame :: "u8 list \<Rightarrow> u8 list \<Rightarrow> u8 list" where
  "uncompressed_frame payload buf =
     (let body_len = varint_byte_len 0 + length payload
      in write_varint (write_usize_varint buf body_len) 0 @ payload)"

definition encode_frame_compressed ::
  "(u8 list \<Rightarrow> u8 list option) \<Rightarrow> u8 list \<Rightarrow> i32 \<Rightarrow> u8 list" where
  "encode_frame_compressed deflater payload threshold =
     (if sint threshold \<le> 0 then write_usize_varint [] (length payload) @ payload
      else let threshold_usize = (case i32_to_usize threshold of None \<Rightarrow> 0 | Some t \<Rightarrow> t) in
        if length payload < threshold_usize then uncompressed_frame payload []
        else let compressed = deflate_zlib deflater payload in
          if length compressed < length payload then
            (let payload_len = length payload;
                 body_len = varint_byte_len payload_len + length compressed;
                 buf = write_usize_varint [] body_len;
                 buf = write_varint buf (case usize_to_i32 payload_len of None \<Rightarrow> 0 | Some l \<Rightarrow> l)
             in buf @ compressed)
          else uncompressed_frame payload [])"

text \<open>
  One call of \<open>Decompress::decompress\<close>: \<open>None\<close> is a corrupt stream; otherwise the status, the
  bytes consumed and the bytes produced, beside the next state of the inflater.
\<close>

datatype zstatus = ZOk | ZBufError | ZStreamEnd

type_synonym 'z inflater = "'z \<Rightarrow> u8 list \<Rightarrow> (zstatus \<times> nat \<times> u8 list) option \<times> 'z"

function inflate_loop ::
  "'z inflater \<Rightarrow> u8 list \<Rightarrow> nat \<Rightarrow> 'z \<Rightarrow> nat \<Rightarrow> u8 list \<Rightarrow> protocol_error + u8 list" where
  "inflate_loop decompress data max_len d in_pos out =
     (if in_pos > length data then Inl Compression
      else case decompress d (drop in_pos data) of
        (None, d') \<Rightarrow> Inl Compression
      | (Some (status, consumed, produced), d') \<Rightarrow>
          if length produced > 4096 then Inl Compression
          else if length (out @ produced) > max_len then Inl FrameTooLarge
          else if status = ZStreamEnd then Inr (out @ produced)
          else if length produced = 0 \<and> consumed = 0 then Inl Compression
          else inflate_loop decompress data max_len d' (in_pos + consumed) (out @ produced))"
  by pat_completeness auto
termination
  by (relation "measure (\<lambda>(decompress, data, max_len, d, in_pos, out).
        (length data + 1 - in_pos) + (max_len + 1 - length out))")
     (auto simp del: length_greater_0_conv length_0_conv simp flip: length_0_conv)

declare inflate_loop.simps [simp del]

definition inflate_zlib ::
  "'z inflater \<Rightarrow> 'z \<Rightarrow> u8 list \<Rightarrow> nat \<Rightarrow> protocol_error + u8 list" where
  "inflate_zlib decompress d0 data max_len = inflate_loop decompress data max_len d0 0 []"

definition decode_frame_compressed ::
  "'z inflater \<Rightarrow> 'z \<Rightarrow> u8 list \<Rightarrow> nat \<Rightarrow> (protocol_error + u8 list) \<times> nat" where
  "decode_frame_compressed decompress d0 data pos =
     (case read_varint data pos of
        (Inl e, pos) \<Rightarrow> (Inl e, pos)
      | (Inr data_len, pos) \<Rightarrow>
          if data_len = 0 then
            (if pos \<le> length data then (Inr (drop pos data), length data)
             else (Inl UnexpectedEof, pos))
          else (case i32_to_usize data_len of
              None \<Rightarrow> (Inl Compression, pos)
            | Some data_len_usize \<Rightarrow>
                if data_len_usize > MAX_FRAME then (Inl FrameTooLarge, pos)
                else if pos \<le> length data then
                  (case inflate_zlib decompress d0 (drop pos data) MAX_FRAME of
                     Inl e \<Rightarrow> (Inl e, pos)
                   | Inr out \<Rightarrow> (Inr out, length data))
                else (Inl UnexpectedEof, pos)))"

section \<open>Lengths\<close>

lemma write_usize_varint_leb128:
  "n < 2 ^ 64 \<Longrightarrow> write_usize_varint buf n = buf @ leb128 n"
  by (simp add: write_usize_varint_def varint_loop_bytes varint_bytes_leb128 unat_of_nat
      take_bit_nat_eq_self)

lemma varint_i32_leb128: "n < 2 ^ 31 \<Longrightarrow> varint_bytes (word_of_nat n :: i32) = leb128 n"
  by (simp add: varint_bytes_leb128 unat_of_nat take_bit_nat_eq_self)

lemma varint_byte_len_loop_leb128:
  "varint_byte_len_loop len (n div 128) + 1 = len + length (leb128 n)"
proof (induction n arbitrary: len rule: leb128.induct)
  case (1 n)
  show ?case
  proof (cases "n < 128")
    case True
    then show ?thesis by (simp add: varint_byte_len_loop.simps leb128.simps [of n])
  next
    case False
    then have "n div 128 \<noteq> 0" by (simp add: div_eq_0_iff)
    then have "varint_byte_len_loop len (n div 128) = varint_byte_len_loop (len + 1) (n div 128 div 128)"
      by (subst varint_byte_len_loop.simps) (simp only: if_True not_False_eq_True simp_thms)
    with 1 [OF False, of "len + 1"] False show ?thesis by (simp add: leb128.simps [of n])
  qed
qed

lemma varint_byte_len_leb128: "varint_byte_len n = length (leb128 n)"
  using varint_byte_len_loop_leb128 [of 1 n] by (simp add: varint_byte_len_def)

lemma read_varint_leb128:
  "n < 2 ^ 31 \<Longrightarrow> read_varint (pre @ leb128 n @ post) (length pre)
     = (Inr (word_of_nat n), length pre + length (leb128 n))"
  using read_varint_bytes [of pre "word_of_nat n" post] by (simp add: varint_i32_leb128)

section \<open>Round trips\<close>

lemma encode_frame_ok:
  "length payload \<le> MAX_FRAME \<Longrightarrow>
     encode_frame buf payload = (Inr (), buf @ leb128 (length payload) @ payload)"
  by (simp add: encode_frame_def MAX_FRAME_def usize_to_i32_def varint_i32_leb128)

lemma decode_frame_prefix:
  assumes "length payload \<le> MAX_FRAME"
  shows "decode_frame (pre @ leb128 (length payload) @ payload @ post) (length pre)
     = (Inr payload, length pre + length (leb128 (length payload)) + length payload)"
proof -
  have l: "length payload < 2 ^ 31" using assms by (simp add: MAX_FRAME_def)
  show ?thesis
    using assms read_varint_leb128 [OF l, of pre "payload @ post"] l
    by (simp add: decode_frame_def get_range_def)
qed

lemma leb128_0: "leb128 0 = [0]"
  by (simp add: leb128.simps)

lemma uncompressed_frame_eq:
  "length payload < 2 ^ 63 \<Longrightarrow> uncompressed_frame payload [] = leb128 (1 + length payload) @ [0] @ payload"
  by (simp add: uncompressed_frame_def varint_byte_len_leb128 leb128_0 write_usize_varint_leb128
      varint_bytes_leb128)

lemma decode_compressed_raw:
  "decode_frame_compressed decompress d0 (pre @ 0 # payload) (length pre)
     = (Inr payload, length pre + 1 + length payload)"
proof -
  have "read_varint (pre @ 0 # payload) (length pre) = (Inr 0, length pre + 1)"
    using read_varint_leb128 [of 0 pre payload] by (simp add: leb128_0)
  then show ?thesis by (simp add: decode_frame_compressed_def)
qed

lemma decode_compressed_deflated:
  assumes "0 < n" and "n \<le> MAX_FRAME"
    and "inflate_zlib decompress d0 compressed MAX_FRAME = Inr out"
  shows "decode_frame_compressed decompress d0 (pre @ leb128 n @ compressed) (length pre)
     = (Inr out, length pre + length (leb128 n) + length compressed)"
proof -
  have n: "n < 2 ^ 31" using assms(2) by (simp add: MAX_FRAME_def)
  have "(word_of_nat n :: i32) \<noteq> 0"
    using assms(1) n by (simp add: word_of_nat_eq_0_iff nat_dvd_not_less)
  with n show ?thesis
    using assms read_varint_leb128 [OF n, of pre compressed]
    by (simp add: decode_frame_compressed_def)
qed

text \<open>The inflated output is bounded for every decompressor: no compression bomb gets through.\<close>

lemma inflate_loop_bound:
  "inflate_loop decompress data max_len d in_pos out = Inr res \<Longrightarrow> length res \<le> max_len"
proof (induction decompress data max_len d in_pos out rule: inflate_loop.induct)
  case (1 decompress data max_len d in_pos out)
  obtain r d' where step: "decompress d (drop in_pos data) = (r, d')" by fastforce
  from "1.prems" step obtain status consumed produced where r: "r = Some (status, consumed, produced)"
    by (subst (asm) inflate_loop.simps) (auto split: if_splits option.splits)
  show ?case
  proof (cases "status = ZStreamEnd")
    case True
    with "1.prems" step r show ?thesis
      by (subst (asm) inflate_loop.simps) (auto split: if_splits)
  next
    case False
    with "1.prems" step r have c: "\<not> length data < in_pos" "\<not> 4096 < length produced"
      "\<not> max_len < length (out @ produced)" "\<not> (length produced = 0 \<and> consumed = 0)"
      and rec: "inflate_loop decompress data max_len d' (in_pos + consumed) (out @ produced) = Inr res"
      by (subst (asm) inflate_loop.simps; auto split: if_splits)+
    show ?thesis
      by (rule "1.IH" [OF c(1) step [unfolded r, symmetric] refl refl refl c(2,3) False c(4) rec])
  qed
qed

end
