(* ===== verification/Connection.thy ===== *)
theory Connection
  imports Prelude
begin

text \<open>
  The protocol state machine of a connection (\<open>network/connection.rs\<close>): the states, the
  transition function and the connection record, and the step relation they define. The facts
  are about runs: a connection moves forward through the phases and can reach the play phase
  only through login and configuration.
\<close>

section \<open>States and transitions\<close>

datatype connection_state = Handshake | Status | Login | Configuration | Play

datatype connection_error = InvalidTransition connection_state connection_state

definition state_name :: "connection_state \<Rightarrow> string" where
  "state_name s =
     (case s of Handshake \<Rightarrow> ''Handshake'' | Status \<Rightarrow> ''Status'' | Login \<Rightarrow> ''Login''
      | Configuration \<Rightarrow> ''Configuration'' | Play \<Rightarrow> ''Play'')"

definition allowed :: "connection_state \<Rightarrow> connection_state \<Rightarrow> bool" where
  "allowed s next' =
     (case (s, next') of
        (Handshake, Status) \<Rightarrow> True
      | (Handshake, Login) \<Rightarrow> True
      | (Login, Configuration) \<Rightarrow> True
      | (Configuration, Play) \<Rightarrow> True
      | (Status, Login) \<Rightarrow> True
      | _ \<Rightarrow> False)"

definition transition :: "connection_state \<Rightarrow> connection_state \<Rightarrow> connection_error + connection_state" where
  "transition s next' = (if allowed s next' then Inr next' else Inl (InvalidTransition s next'))"

record connection =
  cn_id :: u32
  cn_state :: connection_state
  cn_address :: rstring
  cn_compression_enabled :: bool

definition connection_new :: "u32 \<Rightarrow> rstring \<Rightarrow> connection_state \<Rightarrow> connection" where
  "connection_new cid address s =
     \<lparr>cn_id = cid, cn_state = s, cn_address = address, cn_compression_enabled = False\<rparr>"

definition connection_transition :: "connection_state \<Rightarrow> (connection, connection_error, unit) fallible" where
  "connection_transition next' = (\<lambda>c.
     case transition (cn_state c) next' of
       Inl e \<Rightarrow> (Inl e, c)
     | Inr s \<Rightarrow> (Inr (), c\<lparr>cn_state := s\<rparr>))"

definition enable_compression :: "connection \<Rightarrow> connection" where
  "enable_compression c = c\<lparr>cn_compression_enabled := True\<rparr>"

section \<open>Runs\<close>

inductive conn_step :: "connection \<Rightarrow> connection \<Rightarrow> bool" where
  move: "connection_transition s c = (Inr (), c') \<Longrightarrow> conn_step c c'"
| compress: "conn_step c (enable_compression c)"

inductive_cases conn_stepE: "conn_step c c'"

inductive_simps conn_step_simps: "conn_step c c'"

definition reachable :: "connection \<Rightarrow> connection \<Rightarrow> bool" where
  "reachable = conn_step\<^sup>*\<^sup>*"

text \<open>The rank of a phase along the protocol; every accepted transition raises it.\<close>

definition rank :: "connection_state \<Rightarrow> nat" where
  "rank s = (case s of Handshake \<Rightarrow> 0 | Status \<Rightarrow> 1 | Login \<Rightarrow> 2 | Configuration \<Rightarrow> 3 | Play \<Rightarrow> 4)"

lemma allowed_rank: "allowed s t \<Longrightarrow> rank s < rank t"
  by (cases s; cases t) (simp_all add: allowed_def rank_def)

lemma transition_Inr [simp]: "transition s t = Inr u \<longleftrightarrow> allowed s t \<and> u = t"
  by (auto simp: transition_def)

lemma connection_transition_Inr:
  "connection_transition s c = (Inr (), c') \<longleftrightarrow> allowed (cn_state c) s \<and> c' = c\<lparr>cn_state := s\<rparr>"
  by (auto simp: connection_transition_def transition_def split: if_splits)

lemma connection_transition_failed:
  "connection_transition s c = (Inl e, c') \<Longrightarrow>
   c' = c \<and> e = InvalidTransition (cn_state c) s \<and> \<not> allowed (cn_state c) s"
  by (auto simp: connection_transition_def transition_def split: if_splits)

lemma conn_step_state: "conn_step c c' \<Longrightarrow> cn_state c' = cn_state c \<or> allowed (cn_state c) (cn_state c')"
  by (erule conn_stepE) (auto simp: connection_transition_Inr enable_compression_def)

lemma conn_step_identity: "conn_step c c' \<Longrightarrow> cn_id c' = cn_id c \<and> cn_address c' = cn_address c"
  by (erule conn_stepE) (auto simp: connection_transition_Inr enable_compression_def)

lemma conn_step_compression: "conn_step c c' \<Longrightarrow> cn_compression_enabled c \<Longrightarrow> cn_compression_enabled c'"
  by (erule conn_stepE) (auto simp: connection_transition_Inr enable_compression_def)

lemma reachable_rank: "reachable c c' \<Longrightarrow> rank (cn_state c) \<le> rank (cn_state c')"
  unfolding reachable_def
proof (induction rule: rtranclp_induct)
  case (step c' c'')
  then show ?case using conn_step_state [OF step(2)] allowed_rank by fastforce
qed simp

lemma reachable_identity: "reachable c c' \<Longrightarrow> cn_id c' = cn_id c \<and> cn_address c' = cn_address c"
  unfolding reachable_def by (induction rule: rtranclp_induct) (auto dest: conn_step_identity)

lemma reachable_compression:
  "reachable c c' \<Longrightarrow> cn_compression_enabled c \<Longrightarrow> cn_compression_enabled c'"
  unfolding reachable_def by (induction rule: rtranclp_induct) (auto dest: conn_step_compression)

lemma play_is_final: "reachable c c' \<Longrightarrow> cn_state c = Play \<Longrightarrow> cn_state c' = Play"
  using reachable_rank [of c c'] by (cases "cn_state c'") (simp_all add: rank_def)

text \<open>Whoever enters a phase was in the phase before it.\<close>

lemma reachable_enters:
  assumes "reachable c c'" and "cn_state c \<noteq> s" and "cn_state c' = s"
  shows "\<exists>d. reachable c d \<and> reachable d c' \<and> allowed (cn_state d) s"
  using assms(1) [unfolded reachable_def] assms(3)
proof (induction rule: rtranclp_induct)
  case base
  with assms(2) show ?case by simp
next
  case (step d e)
  show ?case
  proof (cases "cn_state d = s")
    case True
    then obtain d' where "reachable c d'" "reachable d' d" "allowed (cn_state d') s"
      using step.IH by blast
    moreover have "reachable d' e"
      using \<open>reachable d' d\<close> step.hyps(2) unfolding reachable_def by (rule rtranclp.rtrancl_into_rtrancl)
    ultimately show ?thesis by blast
  next
    case False
    then have "allowed (cn_state d) s" using conn_step_state [OF step.hyps(2)] step.prems by simp
    moreover have "reachable c d" "reachable d e"
      using step.hyps unfolding reachable_def by auto
    ultimately show ?thesis by blast
  qed
qed

lemma allowed_into:
  "allowed s Play \<Longrightarrow> s = Configuration" "allowed s Configuration \<Longrightarrow> s = Login"
  by (cases s; simp add: allowed_def)+

lemma play_through_login:
  assumes "reachable c c'" and "cn_state c = Handshake" and "cn_state c' = Play"
  shows "\<exists>l k. cn_state l = Login \<and> cn_state k = Configuration \<and>
           reachable c l \<and> reachable l k \<and> reachable k c'"
proof -
  obtain k where k: "reachable c k" "reachable k c'" "cn_state k = Configuration"
    using reachable_enters [OF assms(1), of Play] assms(2,3) allowed_into(1) by auto
  obtain l where "reachable c l" "reachable l k" "cn_state l = Login"
    using reachable_enters [OF k(1), of Configuration] k(3) assms(2) allowed_into(2) by auto
  with k show ?thesis by blast
qed

end
