(* ===== verification/Nbt.thy ===== *)
theory Nbt
  imports Codec
begin

text \<open>
  The NBT network format (\<open>protocol/nbt.rs\<close>). The writer appends to the byte vector it is
  given; the reader walks the input with a position. The mutual recursion of the reader
  (\<open>read_payload\<close>, \<open>read_list\<close>, \<open>read_compound\<close>) has no structural argument, so it takes
  fuel; running out is the outcome \<open>OutOfFuel\<close>, which is not an error of the code. The fuel
  the entry points pass is the input length plus two, and \<open>decode_fuel\<close> below shows that it
  never runs out.
\<close>

section \<open>Tags\<close>

datatype nbt_tag =
    NbtByte i8
  | NbtShort i16
  | NbtInt i32
  | NbtLong i64
  | NbtFloat f32
  | NbtDouble f64
  | NbtByteArray "u8 list"
  | NbtString rstring
  | NbtList "nbt_tag list"
  | NbtCompound "(rstring \<times> nbt_tag) list"
  | NbtIntArray "i32 list"
  | NbtLongArray "i64 list"

datatype nbt_error = NbtUnexpectedEof | NbtUnknownTagId u8 | NbtInvalidListType

datatype nbt_failure = NbtErr nbt_error | OutOfFuel

definition TAG_END :: u8 where "TAG_END = 0"
definition TAG_BYTE :: u8 where "TAG_BYTE = 1"
definition TAG_SHORT :: u8 where "TAG_SHORT = 2"
definition TAG_INT :: u8 where "TAG_INT = 3"
definition TAG_LONG :: u8 where "TAG_LONG = 4"
definition TAG_FLOAT :: u8 where "TAG_FLOAT = 5"
definition TAG_DOUBLE :: u8 where "TAG_DOUBLE = 6"
definition TAG_BYTE_ARRAY :: u8 where "TAG_BYTE_ARRAY = 7"
definition TAG_STRING :: u8 where "TAG_STRING = 8"
definition TAG_LIST :: u8 where "TAG_LIST = 9"
definition TAG_COMPOUND :: u8 where "TAG_COMPOUND = 10"
definition TAG_INT_ARRAY :: u8 where "TAG_INT_ARRAY = 11"
definition TAG_LONG_ARRAY :: u8 where "TAG_LONG_ARRAY = 12"
definition MAX_TAG_ID :: u8 where "MAX_TAG_ID = TAG_LONG_ARRAY"

lemmas tag_defs = TAG_END_def TAG_BYTE_def TAG_SHORT_def TAG_INT_def TAG_LONG_def TAG_FLOAT_def
  TAG_DOUBLE_def TAG_BYTE_ARRAY_def TAG_STRING_def TAG_LIST_def TAG_COMPOUND_def
  TAG_INT_ARRAY_def TAG_LONG_ARRAY_def MAX_TAG_ID_def

definition tag_id_of :: "nbt_tag \<Rightarrow> u8" where
  "tag_id_of tag =
     (case tag of
        NbtByte _ \<Rightarrow> TAG_BYTE
      | NbtShort _ \<Rightarrow> TAG_SHORT
      | NbtInt _ \<Rightarrow> TAG_INT
      | NbtLong _ \<Rightarrow> TAG_LONG
      | NbtFloat _ \<Rightarrow> TAG_FLOAT
      | NbtDouble _ \<Rightarrow> TAG_DOUBLE
      | NbtByteArray _ \<Rightarrow> TAG_BYTE_ARRAY
      | NbtString _ \<Rightarrow> TAG_STRING
      | NbtList _ \<Rightarrow> TAG_LIST
      | NbtCompound _ \<Rightarrow> TAG_COMPOUND
      | NbtIntArray _ \<Rightarrow> TAG_INT_ARRAY
      | NbtLongArray _ \<Rightarrow> TAG_LONG_ARRAY)"

section \<open>Writing\<close>

type_synonym nbt_writer = "(u8 list, nbt_error, unit) fallible"

definition push_bytes :: "u8 list \<Rightarrow> nbt_writer" where
  "push_bytes bs = (\<lambda>buf. (Inr (), buf @ bs))"

definition write_len :: "nat \<Rightarrow> nbt_writer" where
  "write_len len =
     bindE (ok_or (usize_to_i32 len) NbtUnexpectedEof) (\<lambda>len.
       (\<lambda>buf. (Inr (), write_varint buf len)))"

definition write_nbt_string :: "rstring \<Rightarrow> nbt_writer" where
  "write_nbt_string s = seqE (write_len (length s)) (push_bytes s)"

lemma size_in_list: "t \<in> set ts \<Longrightarrow> size t < Suc (size_list size ts)"
  by (intro le_imp_less_Suc size_list_estimation') auto

lemma size_in_entries:
  "e \<in> set es \<Longrightarrow> size (snd e) < Suc (size_list (size_prod (\<lambda>_. 0) size) es)"
proof -
  have "size (snd e) \<le> size_prod (\<lambda>_. 0) size e" by (cases e) simp
  moreover assume "e \<in> set es"
  ultimately show ?thesis by (intro le_imp_less_Suc size_list_estimation')
qed

function write_tag_payload :: "nbt_tag \<Rightarrow> nbt_writer"
  and write_compound_payload :: "nbt_tag \<Rightarrow> nbt_writer" where
  "write_tag_payload tag =
     (case tag of
        NbtByte v \<Rightarrow> push_bytes [v]
      | NbtShort v \<Rightarrow> push_bytes (to_be_bytes 2 v)
      | NbtInt v \<Rightarrow> push_bytes (to_be_bytes 4 v)
      | NbtLong v \<Rightarrow> push_bytes (to_be_bytes 8 v)
      | NbtFloat v \<Rightarrow> push_bytes (to_be_bytes 4 v)
      | NbtDouble v \<Rightarrow> push_bytes (to_be_bytes 8 v)
      | NbtByteArray v \<Rightarrow> seqE (write_len (length v)) (push_bytes v)
      | NbtString v \<Rightarrow> write_nbt_string v
      | NbtList items \<Rightarrow>
          seqE (push_bytes [case items of [] \<Rightarrow> TAG_END | t # _ \<Rightarrow> tag_id_of t])
            (seqE (write_len (length items)) (put_each write_tag_payload items))
      | NbtCompound _ \<Rightarrow> write_compound_payload tag
      | NbtIntArray v \<Rightarrow>
          seqE (write_len (length v)) (put_each (\<lambda>item. push_bytes (to_be_bytes 4 item)) v)
      | NbtLongArray v \<Rightarrow>
          seqE (write_len (length v)) (put_each (\<lambda>item. push_bytes (to_be_bytes 8 item)) v))"
| "write_compound_payload tag =
     (case tag of
        NbtCompound entries \<Rightarrow>
          seqE (put_each (\<lambda>entry.
                  seqE (push_bytes [tag_id_of (snd entry)])
                    (seqE (write_nbt_string (fst entry)) (write_tag_payload (snd entry)))) entries)
            (push_bytes [TAG_END])
      | _ \<Rightarrow> throw NbtInvalidListType)"
  by pat_completeness auto
termination
  by (relation "measures [\<lambda>x. case x of Inl t \<Rightarrow> size t | Inr t \<Rightarrow> size t,
                          \<lambda>x. case x of Inl t \<Rightarrow> 1 | Inr t \<Rightarrow> 0]")
     (simp_all add: size_in_list size_in_entries)

declare write_tag_payload.simps [simp del] write_compound_payload.simps [simp del]

definition encode_root :: "nbt_tag \<Rightarrow> nbt_error + u8 list" where
  "encode_root compound =
     (let buf = [] @ [TAG_COMPOUND]; buf = write_varint buf 0 in
      case write_compound_payload compound buf of
        (Inl e, _) \<Rightarrow> Inl e
      | (Inr _, buf) \<Rightarrow> Inr buf)"

definition encode_anonymous :: "nbt_tag \<Rightarrow> nbt_error + u8 list" where
  "encode_anonymous compound =
     (case write_compound_payload compound [] of
        (Inl e, _) \<Rightarrow> Inl e
      | (Inr _, buf) \<Rightarrow> Inr buf)"

section \<open>Reading\<close>

type_synonym 'a nbt_reader = "u8 list \<Rightarrow> (nat, nbt_failure, 'a) fallible"

definition nbt_u8 :: "u8 nbt_reader" where
  "nbt_u8 data = (\<lambda>pos. if pos < length data then (Inr (data ! pos), pos + 1)
                        else (Inl (NbtErr NbtUnexpectedEof), pos))"

definition read_exact :: "nat \<Rightarrow> u8 list nbt_reader" where
  "read_exact len data = (\<lambda>pos. let end' = pos + len in
     case get_range data pos end' of
       None \<Rightarrow> (Inl (NbtErr NbtUnexpectedEof), pos)
     | Some bytes \<Rightarrow> (Inr bytes, end'))"

definition read_be :: "nat \<Rightarrow> 'w::len word nbt_reader" where
  "read_be n data = bindE (read_exact n data) (\<lambda>bs. ret (from_be_bytes bs))"

definition read_len :: "nat nbt_reader" where
  "read_len data =
     bindE (map_err (\<lambda>_. NbtErr NbtUnexpectedEof) (read_varint data)) (\<lambda>len.
     bindE (ok_or (i32_to_usize len) (NbtErr NbtUnexpectedEof)) (\<lambda>len.
       (\<lambda>pos. let remaining = length data - pos in
          if len > remaining then (Inl (NbtErr NbtUnexpectedEof), pos) else (Inr len, pos))))"

definition read_nbt_string :: "rstring nbt_reader" where
  "read_nbt_string data =
     bindE (read_len data) (\<lambda>len.
     bindE (read_exact len data) (\<lambda>s.
       if utf8_valid s then ret s else throw (NbtErr NbtUnexpectedEof)))"

definition read_tag_id :: "u8 nbt_reader" where
  "read_tag_id data =
     bindE (nbt_u8 data) (\<lambda>id.
       if id = TAG_END \<or> id > MAX_TAG_ID then throw (NbtErr (NbtUnknownTagId id)) else ret id)"

fun read_payload :: "nat \<Rightarrow> u8 \<Rightarrow> nbt_tag nbt_reader"
  and read_list :: "nat \<Rightarrow> nbt_tag nbt_reader"
  and read_compound :: "nat \<Rightarrow> (rstring \<times> nbt_tag) list \<Rightarrow> nbt_tag nbt_reader" where
  "read_payload 0 tag_id data = throw OutOfFuel"
| "read_payload (Suc f) tag_id data =
     (if tag_id = TAG_BYTE then bindE (read_be 1 data) (\<lambda>v. ret (NbtByte v))
      else if tag_id = TAG_SHORT then bindE (read_be 2 data) (\<lambda>v. ret (NbtShort v))
      else if tag_id = TAG_INT then bindE (read_be 4 data) (\<lambda>v. ret (NbtInt v))
      else if tag_id = TAG_LONG then bindE (read_be 8 data) (\<lambda>v. ret (NbtLong v))
      else if tag_id = TAG_FLOAT then bindE (read_be 4 data) (\<lambda>v. ret (NbtFloat v))
      else if tag_id = TAG_DOUBLE then bindE (read_be 8 data) (\<lambda>v. ret (NbtDouble v))
      else if tag_id = TAG_BYTE_ARRAY then
        bindE (read_len data) (\<lambda>len. bindE (read_exact len data) (\<lambda>v. ret (NbtByteArray v)))
      else if tag_id = TAG_STRING then bindE (read_nbt_string data) (\<lambda>v. ret (NbtString v))
      else if tag_id = TAG_LIST then read_list f data
      else if tag_id = TAG_COMPOUND then read_compound f [] data
      else if tag_id = TAG_INT_ARRAY then
        bindE (read_len data) (\<lambda>len. bindE (get_n len (read_be 4 data)) (\<lambda>v. ret (NbtIntArray v)))
      else if tag_id = TAG_LONG_ARRAY then
        bindE (read_len data) (\<lambda>len. bindE (get_n len (read_be 8 data)) (\<lambda>v. ret (NbtLongArray v)))
      else throw (NbtErr (NbtUnknownTagId tag_id)))"
| "read_list 0 data = throw OutOfFuel"
| "read_list (Suc f) data =
     bindE (nbt_u8 data) (\<lambda>elem_type.
     bindE (read_len data) (\<lambda>len.
       if len = 0 then ret (NbtList [])
       else if elem_type = TAG_END then throw (NbtErr NbtInvalidListType)
       else if elem_type > MAX_TAG_ID then throw (NbtErr (NbtUnknownTagId elem_type))
       else bindE (get_n len (read_payload f elem_type data)) (\<lambda>items. ret (NbtList items))))"
| "read_compound 0 entries data = throw OutOfFuel"
| "read_compound (Suc f) entries data =
     bindE (nbt_u8 data) (\<lambda>id.
       if id = TAG_END then ret (NbtCompound entries)
       else if id > MAX_TAG_ID then throw (NbtErr (NbtUnknownTagId id))
       else bindE (read_nbt_string data) (\<lambda>name.
            bindE (read_payload f id data) (\<lambda>value.
              read_compound f (entries @ [(name, value)]) data)))"

definition decode_anonymous :: "u8 list \<Rightarrow> nbt_failure + (nbt_tag \<times> nat)" where
  "decode_anonymous bytes =
     (case read_compound (length bytes + 2) [] bytes 0 of
        (Inl e, _) \<Rightarrow> Inl e
      | (Inr tag, pos) \<Rightarrow> Inr (tag, pos))"

definition decode_root :: "u8 list \<Rightarrow> nbt_failure + (rstring \<times> nbt_tag)" where
  "decode_root bytes =
     fst (bindE (read_tag_id bytes) (\<lambda>tag_id.
          bindE (read_nbt_string bytes) (\<lambda>name.
          bindE (read_payload (length bytes + 2) tag_id bytes) (\<lambda>tag. ret (name, tag)))) 0)"

section \<open>Well-formed tags\<close>

text \<open>
  What the writer needs to produce a readable encoding: strings are UTF-8, every length fits
  an \<open>i32\<close>, and the elements of a list share one tag id (the contract the source names at
  \<open>write_tag_payload\<close>).
\<close>

fun wf_tag :: "nbt_tag \<Rightarrow> bool" where
  "wf_tag (NbtByte v) = True"
| "wf_tag (NbtShort v) = True"
| "wf_tag (NbtInt v) = True"
| "wf_tag (NbtLong v) = True"
| "wf_tag (NbtFloat v) = True"
| "wf_tag (NbtDouble v) = True"
| "wf_tag (NbtByteArray v) = (length v < 2 ^ 31)"
| "wf_tag (NbtString v) = (utf8_valid v \<and> length v < 2 ^ 31)"
| "wf_tag (NbtList items) = (length items < 2 ^ 31 \<and> list_all wf_tag items \<and>
     list_all (\<lambda>t. tag_id_of t = tag_id_of (hd items)) items)"
| "wf_tag (NbtCompound entries) =
     list_all (\<lambda>e. utf8_valid (fst e) \<and> length (fst e) < 2 ^ 31 \<and> wf_tag (snd e)) entries"
| "wf_tag (NbtIntArray v) = (length v < 2 ^ 31)"
| "wf_tag (NbtLongArray v) = (length v < 2 ^ 31)"

section \<open>Round trip\<close>

definition nwrites :: "nbt_writer \<Rightarrow> u8 list \<Rightarrow> bool" where
  "nwrites w bs \<longleftrightarrow> (\<forall>buf. w buf = (Inr (), buf @ bs))"

definition nreads :: "'a nbt_reader \<Rightarrow> u8 list \<Rightarrow> 'a \<Rightarrow> bool" where
  "nreads r bs v \<longleftrightarrow>
     (\<forall>pre post. r (pre @ bs @ post) (length pre) = (Inr v, length pre + length bs))"

lemma nwrites_push: "nwrites (push_bytes bs) bs"
  by (simp add: nwrites_def push_bytes_def)

lemma nwrites_bind: "nwrites w bs \<Longrightarrow> nwrites w' bs' \<Longrightarrow> nwrites (seqE w w') (bs @ bs')"
  by (simp add: nwrites_def bindE_def)

lemma nwrites_len: "n < 2 ^ 31 \<Longrightarrow> nwrites (write_len n) (varint_bytes (word_of_nat n :: i32))"
  by (simp add: nwrites_def write_len_def usize_to_i32_def)

lemma nwrites_each:
  "(\<And>v. v \<in> set vs \<Longrightarrow> nwrites (w v) (enc v)) \<Longrightarrow> nwrites (put_each w vs) (concat (map enc vs))"
proof (induction vs)
  case Nil
  show ?case by (simp add: nwrites_def ret_def)
next
  case (Cons v vs)
  then show ?case by (simp add: nwrites_bind)
qed

lemma nwrites_words:
  "nwrites (put_each (\<lambda>item. push_bytes (to_be_bytes n item)) vs) (concat (map (to_be_bytes n) vs))"
  by (rule nwrites_each) (rule nwrites_push)

lemma nreadsD: "nreads r bs v \<Longrightarrow> r (pre @ bs @ post) (length pre) = (Inr v, length pre + length bs)"
  by (simp add: nreads_def)

lemma nreads_bind:
  assumes "nreads r bs v" and "nreads (\<lambda>data. f data v) bs' u"
  shows "nreads (\<lambda>data. bindE (r data) (f data)) (bs @ bs') u"
  unfolding nreads_def
proof (intro allI)
  fix pre post :: "u8 list"
  have "r (pre @ bs @ (bs' @ post)) (length pre) = (Inr v, length pre + length bs)"
    using assms(1) by (rule nreadsD)
  moreover have "f ((pre @ bs) @ bs' @ post) v (length (pre @ bs))
      = (Inr u, length (pre @ bs) + length bs')"
    using assms(2) by (rule nreadsD)
  ultimately show "bindE (r (pre @ (bs @ bs') @ post)) (f (pre @ (bs @ bs') @ post)) (length pre)
      = (Inr u, length pre + length (bs @ bs'))"
    by (simp add: bindE_def)
qed

lemma nreads_ret: "v = u \<Longrightarrow> nreads (\<lambda>data. ret v) [] u"
  by (simp add: nreads_def ret_def)

lemma nreads_map:
  "nreads r bs v \<Longrightarrow> g v = u \<Longrightarrow> nreads (\<lambda>data. bindE (r data) (\<lambda>x. ret (g x))) bs u"
  using nreads_bind [of r bs v "\<lambda>data x. ret (g x)" "[]" u] by (simp add: nreads_ret)

lemma nreads_u8: "nreads nbt_u8 [b] b"
  by (simp add: nreads_def nbt_u8_def)

lemma nreads_exact: "length bs = n \<Longrightarrow> nreads (read_exact n) bs bs"
  by (auto simp: nreads_def read_exact_def get_range_def Let_def)

lemma nreads_be:
  "length bs = n \<Longrightarrow> from_be_bytes bs = v \<Longrightarrow> nreads (read_be n) bs v"
  unfolding read_be_def by (rule nreads_map [OF nreads_exact])

lemma nreads_len_bind:
  assumes "n < 2 ^ 31" and "n \<le> length bs" and "nreads (\<lambda>data. f data n) bs u"
  shows "nreads (\<lambda>data. bindE (read_len data) (f data)) (varint_bytes (word_of_nat n :: i32) @ bs) u"
  unfolding nreads_def
proof (intro allI)
  fix pre post :: "u8 list"
  let ?v = "varint_bytes (word_of_nat n :: i32)"
  have "read_varint (pre @ ?v @ (bs @ post)) (length pre)
      = (Inr (word_of_nat n), length pre + length ?v)"
    by (rule read_varint_bytes)
  then have "read_len (pre @ (?v @ bs) @ post) (length pre) = (Inr n, length pre + length ?v)"
    using assms(1,2) by (simp add: read_len_def map_err_def bindE_def ret_def)
  then show "bindE (read_len (pre @ (?v @ bs) @ post)) (f (pre @ (?v @ bs) @ post)) (length pre)
      = (Inr u, length pre + length (?v @ bs))"
    using nreadsD [OF assms(3), of "pre @ ?v" post] by (simp add: bindE_Inr add.assoc)
qed

lemma nreads_string:
  assumes "utf8_valid s" and "length s < 2 ^ 31"
  shows "nreads read_nbt_string (varint_bytes (word_of_nat (length s) :: i32) @ s) s"
proof -
  have "nreads (\<lambda>data. bindE (read_exact (length s) data)
          (\<lambda>s. if utf8_valid s then ret s else throw (NbtErr NbtUnexpectedEof))) (s @ []) s"
    by (rule nreads_bind [OF nreads_exact [OF refl]]) (simp add: assms(1) nreads_ret)
  then show ?thesis
    unfolding read_nbt_string_def using assms(2) by (intro nreads_len_bind) simp_all
qed

lemma nreads_n:
  "(\<And>v. v \<in> set vs \<Longrightarrow> nreads r (enc v) v) \<Longrightarrow>
   nreads (\<lambda>data. get_n (length vs) (r data)) (concat (map enc vs)) vs"
proof (induction vs)
  case Nil
  show ?case by (simp add: nreads_ret)
next
  case (Cons v vs)
  have "nreads (\<lambda>data. bindE (get_n (length vs) (r data)) (\<lambda>vs. ret (v # vs)))
          (concat (map enc vs)) (v # vs)"
    by (rule nreads_map [OF Cons.IH]) (simp_all add: Cons.prems)
  then show ?case
    by (simp only: list.size add_0_right add_Suc_right get_n.simps list.map concat.simps)
       (rule nreads_bind [OF Cons.prems], simp_all)
qed

lemma length_le_concat:
  "(\<And>v. v \<in> set vs \<Longrightarrow> enc v \<noteq> []) \<Longrightarrow> length vs \<le> length (concat (map enc vs))"
proof (induction vs)
  case (Cons v vs)
  then have "1 \<le> length (enc v)" by (simp add: Suc_le_eq)
  with Cons show ?case by fastforce
qed simp

text \<open>The bytes of a tag, and the fuel with which the reader takes them back.\<close>

definition tag_bytes :: "nbt_tag \<Rightarrow> u8 list \<Rightarrow> bool" where
  "tag_bytes t bs \<longleftrightarrow> bs \<noteq> [] \<and> nwrites (write_tag_payload t) bs \<and>
     (\<forall>f \<ge> length bs + 2. nreads (read_payload f (tag_id_of t)) bs t)"

definition compound_bytes :: "(rstring \<times> nbt_tag) list \<Rightarrow> u8 list \<Rightarrow> bool" where
  "compound_bytes es bs \<longleftrightarrow> bs \<noteq> [] \<and> nwrites (write_compound_payload (NbtCompound es)) bs \<and>
     (\<forall>f \<ge> length bs + 1. \<forall>acc. nreads (read_compound f acc) bs (NbtCompound (acc @ es)))"

lemma tag_bytesI:
  assumes "bs \<noteq> []" and "nwrites (write_tag_payload t) bs"
    and "\<And>f. length bs + 1 \<le> f \<Longrightarrow> nreads (read_payload (Suc f) (tag_id_of t)) bs t"
  shows "tag_bytes t bs"
  unfolding tag_bytes_def
proof (intro conjI allI impI assms(1,2))
  fix f
  assume "length bs + 2 \<le> f"
  then obtain g where "f = Suc g" "length bs + 1 \<le> g" by (cases f) auto
  with assms(3) show "nreads (read_payload f (tag_id_of t)) bs t" by simp
qed

lemma tag_id_of_range [simp]: "tag_id_of t \<noteq> 0" "\<not> 12 < tag_id_of t"
  by (cases t; simp add: tag_id_of_def tag_defs)+

definition write_entry :: "rstring \<times> nbt_tag \<Rightarrow> nbt_writer" where
  "write_entry e = seqE (push_bytes [tag_id_of (snd e)])
     (seqE (write_nbt_string (fst e)) (write_tag_payload (snd e)))"

lemma entries_bytes:
  "\<forall>e \<in> set es. utf8_valid (fst e) \<and> length (fst e) < 2 ^ 31 \<and> (\<exists>bs. tag_bytes (snd e) bs) \<Longrightarrow>
   \<exists>bs. nwrites (put_each write_entry es) bs \<and>
     (\<forall>f \<ge> length bs + 2. \<forall>acc. nreads (read_compound f acc) (bs @ [0]) (NbtCompound (acc @ es)))"
proof (induction es)
  case Nil
  have "nreads (read_compound f acc) [0] (NbtCompound (acc @ []))" if "2 \<le> f" for f acc
  proof -
    obtain g where f: "f = Suc g" using \<open>2 \<le> f\<close> by (cases f) auto
    have "nreads (read_compound f acc) ([0] @ []) (NbtCompound (acc @ []))"
      unfolding f read_compound.simps [abs_def]
      by (rule nreads_bind [OF nreads_u8]) (simp add: nreads_ret tag_defs)
    then show ?thesis by simp
  qed
  then show ?case by (intro exI [of _ "[]"]) (simp add: nwrites_def ret_def)
next
  case (Cons e es)
  from Cons obtain bs where bs: "nwrites (put_each write_entry es) bs"
    "\<And>f acc. length bs + 2 \<le> f \<Longrightarrow> nreads (read_compound f acc) (bs @ [0]) (NbtCompound (acc @ es))"
    by auto
  from Cons.prems obtain vb where vb: "tag_bytes (snd e) vb" by auto
  have name: "utf8_valid (fst e)" "length (fst e) < 2 ^ 31" using Cons.prems by auto
  define nb where "nb = varint_bytes (word_of_nat (length (fst e)) :: i32) @ fst e"
  define eb where "eb = [tag_id_of (snd e)] @ nb @ vb"
  have "nwrites (write_entry e) eb"
    unfolding write_entry_def eb_def nb_def write_nbt_string_def
    using vb name by (intro nwrites_bind nwrites_push nwrites_len) (auto simp: tag_bytes_def)
  then have w: "nwrites (put_each write_entry (e # es)) (eb @ bs)"
    by (simp add: nwrites_bind bs(1))
  have "nreads (read_compound f acc) ((eb @ bs) @ [0]) (NbtCompound (acc @ e # es))"
    if f: "length (eb @ bs) + 2 \<le> f" for f acc
  proof -
    obtain g where g: "f = Suc g" "length eb + length bs + 1 \<le> g" using f by (cases f) auto
    have len: "length vb + 2 \<le> length eb" "1 \<le> length eb"
      by (simp_all add: eb_def nb_def Suc_le_eq)
    then have v: "nreads (read_payload g (tag_id_of (snd e))) vb (snd e)"
      using vb g by (auto simp: tag_bytes_def)
    have c: "nreads (read_compound g (acc @ [(fst e, snd e)])) (bs @ [0])
        (NbtCompound (acc @ e # es))"
      using g len bs(2) [of g "acc @ [(fst e, snd e)]"] by simp
    have "nreads (\<lambda>data. bindE (read_nbt_string data) (\<lambda>name.
        bindE (read_payload g (tag_id_of (snd e)) data) (\<lambda>value.
          read_compound g (acc @ [(name, value)]) data)))
        (nb @ vb @ bs @ [0]) (NbtCompound (acc @ e # es))"
      unfolding nb_def
      by (rule nreads_bind [OF nreads_string [OF name]], rule nreads_bind [OF v], rule c)
    then have "nreads (read_compound f acc) ([tag_id_of (snd e)] @ (nb @ vb @ bs @ [0]))
        (NbtCompound (acc @ e # es))"
      unfolding g(1) read_compound.simps [abs_def]
      by (intro nreads_bind [OF nreads_u8])
         (simp add: tag_defs)
    then show ?thesis by (simp add: eb_def)
  qed
  with w show ?case by blast
qed

lemma compound_bytes_exists:
  assumes "\<forall>e \<in> set es. utf8_valid (fst e) \<and> length (fst e) < 2 ^ 31 \<and> (\<exists>bs. tag_bytes (snd e) bs)"
  shows "\<exists>bs. compound_bytes es bs"
proof -
  from entries_bytes [OF assms] obtain bs where bs: "nwrites (put_each write_entry es) bs"
    "\<And>f acc. length bs + 2 \<le> f \<Longrightarrow> nreads (read_compound f acc) (bs @ [0]) (NbtCompound (acc @ es))"
    by auto
  have "nwrites (write_compound_payload (NbtCompound es)) (bs @ [0])"
    by (subst write_compound_payload.simps)
       (use nwrites_bind [OF bs(1) nwrites_push [of "[0]"]] in
         \<open>simp add: tag_defs write_entry_def [abs_def]\<close>)
  with bs(2) have "compound_bytes es (bs @ [0])" by (simp add: compound_bytes_def)
  then show ?thesis ..
qed

lemma tag_bytes_fixed:
  assumes "write_tag_payload t = push_bytes bs" and "bs \<noteq> []"
    and "\<And>f. nreads (read_payload (Suc f) (tag_id_of t)) bs t"
  shows "\<exists>bs. tag_bytes t bs"
  using assms by (intro exI [of _ bs] tag_bytesI) (simp_all add: nwrites_push)

lemma to_be_bytes_nonempty [simp]: "0 < n \<Longrightarrow> to_be_bytes n w \<noteq> []"
  by (metis length_to_be_bytes length_0_conv less_numeral_extra(3))

lemmas read_tag_defs = tag_id_of_def tag_defs read_payload.simps [abs_def]

lemma from_be_bytes_single [simp]: "from_be_bytes [b] = (b :: u8)"
  by (simp add: from_be_bytes_def)

lemma tag_bytes_scalar:
  "\<exists>bs. tag_bytes (NbtByte b) bs" "\<exists>bs. tag_bytes (NbtShort s) bs" "\<exists>bs. tag_bytes (NbtInt i) bs"
  "\<exists>bs. tag_bytes (NbtLong l) bs" "\<exists>bs. tag_bytes (NbtFloat g) bs" "\<exists>bs. tag_bytes (NbtDouble d) bs"
  by (rule tag_bytes_fixed, simp add: write_tag_payload.simps, simp,
      simp add: read_tag_defs,
      rule nreads_map [OF nreads_be], simp_all)+

lemma tag_bytes_sized:
  assumes "write_tag_payload t = seqE (write_len n) w" and "nwrites w bs"
    and "n < 2 ^ 31" and "n \<le> length bs" and "nreads (\<lambda>data. g data n) bs t"
    and "\<And>f. read_payload (Suc f) (tag_id_of t) = (\<lambda>data. bindE (read_len data) (g data))"
  shows "\<exists>bs. tag_bytes t bs"
proof (intro exI tag_bytesI)
  show "nwrites (write_tag_payload t) (varint_bytes (word_of_nat n :: i32) @ bs)"
    unfolding assms(1) by (intro nwrites_bind nwrites_len assms)
  show "nreads (read_payload (Suc f) (tag_id_of t)) (varint_bytes (word_of_nat n :: i32) @ bs) t" for f
    unfolding assms(6) by (rule nreads_len_bind [where f = g, OF assms(3,4,5)])
qed simp

lemma tag_bytes_string:
  assumes "utf8_valid s" and "length s < 2 ^ 31"
  shows "\<exists>bs. tag_bytes (NbtString s) bs"
proof (rule tag_bytes_sized [where n = "length s" and w = "push_bytes s" and bs = s])
  show "write_tag_payload (NbtString s) = seqE (write_len (length s)) (push_bytes s)"
    by (simp add: write_tag_payload.simps write_nbt_string_def)
  show "read_payload (Suc f) (tag_id_of (NbtString s))
      = (\<lambda>data. bindE (read_len data) (\<lambda>len. bindE (bindE (read_exact len data)
         (\<lambda>s. if utf8_valid s then ret s else throw (NbtErr NbtUnexpectedEof)))
         (\<lambda>v. ret (NbtString v))))" for f
    by (simp add: read_tag_defs read_nbt_string_def bindE_assoc)
  have "nreads (\<lambda>data. bindE (read_exact (length s) data)
      (\<lambda>s. if utf8_valid s then ret s else throw (NbtErr NbtUnexpectedEof))) (s @ []) s"
    by (rule nreads_bind [OF nreads_exact [OF refl]]) (simp add: assms nreads_ret)
  then show "nreads (\<lambda>data. bindE (bindE (read_exact (length s) data)
         (\<lambda>s. if utf8_valid s then ret s else throw (NbtErr NbtUnexpectedEof)))
         (\<lambda>v. ret (NbtString v))) s (NbtString s)"
    by (intro nreads_map) simp_all
qed (use assms in \<open>simp_all add: nwrites_push\<close>)

lemma tag_bytes_byte_array: "length v < 2 ^ 31 \<Longrightarrow> \<exists>bs. tag_bytes (NbtByteArray v) bs"
  by (rule tag_bytes_sized [where w = "push_bytes v" and bs = v and n = "length v"])
     (simp_all add: write_tag_payload.simps read_tag_defs nwrites_push nreads_map [OF nreads_exact])

lemma length_concat_be [simp]: "length (concat (map (to_be_bytes n) vs)) = n * length vs"
  by (induction vs) simp_all

lemma tag_bytes_int_array: "length v < 2 ^ 31 \<Longrightarrow> \<exists>bs. tag_bytes (NbtIntArray v) bs"
  by (rule tag_bytes_sized [OF _ nwrites_words [of 4 v], where n = "length v"])
     (simp_all add: write_tag_payload.simps read_tag_defs
       nreads_map [OF nreads_n] nreads_be)

lemma tag_bytes_long_array: "length v < 2 ^ 31 \<Longrightarrow> \<exists>bs. tag_bytes (NbtLongArray v) bs"
  by (rule tag_bytes_sized [OF _ nwrites_words [of 8 v], where n = "length v"])
     (simp_all add: write_tag_payload.simps read_tag_defs
       nreads_map [OF nreads_n] nreads_be)

lemma tag_bytes_list:
  assumes "length ts < 2 ^ 31" and "\<forall>t \<in> set ts. \<exists>bs. tag_bytes t bs"
    and "\<forall>t \<in> set ts. tag_id_of t = tag_id_of (hd ts)"
  shows "\<exists>bs. tag_bytes (NbtList ts) bs"
proof -
  from assms(2) obtain enc where enc: "\<forall>t \<in> set ts. tag_bytes t (enc t)" by metis
  define id where "id = (case ts of [] \<Rightarrow> TAG_END | t # _ \<Rightarrow> tag_id_of t)"
  define lb where "lb = varint_bytes (word_of_nat (length ts) :: i32)"
  define items where "items = concat (map enc ts)"
  have n: "length ts \<le> length items"
    unfolding items_def using enc by (intro length_le_concat) (auto simp: tag_bytes_def)
  have w: "nwrites (write_tag_payload (NbtList ts)) ([id] @ lb @ items)"
    unfolding lb_def items_def using enc assms(1)
    by (simp only: write_tag_payload.simps [of "NbtList ts"] nbt_tag.case flip: id_def)
       (intro nwrites_bind nwrites_push nwrites_len nwrites_each, auto simp: tag_bytes_def)
  have "nreads (read_payload (Suc f) (tag_id_of (NbtList ts))) ([id] @ lb @ items) (NbtList ts)"
    if f: "length ([id] @ lb @ items) + 1 \<le> f" for f
  proof -
    obtain g where g: "f = Suc g" "length lb + length items + 1 \<le> g" using f by (cases f) auto
    have item: "length (enc t) \<le> length items" if "t \<in> set ts" for t
      using that unfolding items_def
      by (auto simp: length_concat comp_def intro: member_le_sum_list)
    have "1 \<le> length lb" by (simp add: lb_def Suc_le_eq)
    then have f2: "length (enc t) + 2 \<le> g" if "t \<in> set ts" for t
      using item [OF that] g(2) by linarith
    have "tag_id_of t = id" if "t \<in> set ts" for t
      using that assms(3) by (cases ts) (auto simp: id_def)
    then have "nreads (read_payload g id) (enc t) t" if "t \<in> set ts" for t
      using enc that f2 [OF that] unfolding tag_bytes_def by metis
    then have "nreads (\<lambda>data. bindE (get_n (length ts) (read_payload g id data))
        (\<lambda>items. ret (NbtList items))) items (NbtList ts)"
      unfolding items_def by (intro nreads_map [OF nreads_n]) simp_all
    moreover have "id \<noteq> 0 \<and> \<not> 12 < id" if "ts \<noteq> []"
      using that by (auto simp: id_def neq_Nil_conv)
    moreover have "items = []" if "ts = []" by (simp add: items_def that)
    ultimately have *: "nreads (\<lambda>data. bindE (read_len data) (\<lambda>len.
        if len = 0 then ret (NbtList [])
        else if id = TAG_END then throw (NbtErr NbtInvalidListType)
        else if id > MAX_TAG_ID then throw (NbtErr (NbtUnknownTagId id))
        else bindE (get_n len (read_payload g id data)) (\<lambda>items. ret (NbtList items))))
        (lb @ items) (NbtList ts)"
      unfolding lb_def using n assms(1)
      by (intro nreads_len_bind) (cases "ts = []"; simp add: tag_defs nreads_ret)+
    have "read_payload (Suc f) (tag_id_of (NbtList ts)) = read_list (Suc g)"
      by (rule ext) (simp add: read_tag_defs g(1) del: read_list.simps)
    moreover have "nreads (read_list (Suc g)) ([id] @ lb @ items) (NbtList ts)"
      unfolding read_list.simps [abs_def] by (rule nreads_bind [OF nreads_u8]) (rule *)
    ultimately show ?thesis by simp
  qed
  then have "tag_bytes (NbtList ts) ([id] @ lb @ items)"
    using tag_bytesI [OF _ w] by blast
  then show ?thesis ..
qed

lemma tag_bytes_compound:
  assumes "compound_bytes es bs"
  shows "tag_bytes (NbtCompound es) bs"
  using assms unfolding compound_bytes_def
  by (intro tag_bytesI) (auto simp: read_tag_defs write_tag_payload.simps [of "NbtCompound es"]
      dest!: spec [of _ "_ :: nat"] spec [of _ "[]"])

theorem tag_roundtrip: "wf_tag t \<Longrightarrow> \<exists>bs. tag_bytes t bs"
proof (induction t)
  case (NbtList ts)
  then show ?case by (intro tag_bytes_list) (auto simp: list_all_iff)
next
  case (NbtCompound es)
  then have "\<exists>bs. compound_bytes es bs"
    by (intro compound_bytes_exists) (fastforce simp: list_all_iff)
  then show ?case using tag_bytes_compound by blast
qed (simp_all add: tag_bytes_scalar tag_bytes_string tag_bytes_byte_array tag_bytes_int_array
      tag_bytes_long_array)

section \<open>Termination and bounds of the reader\<close>

text \<open>
  \<open>sound data m k pos\<close>: started at \<open>pos\<close>, the reader \<open>m\<close> does not run out of fuel, leaves
  its position inside the data and not before \<open>pos\<close>, and consumes \<open>k\<close> bytes when it succeeds.
\<close>

definition sound :: "u8 list \<Rightarrow> (nat, nbt_failure, 'a) fallible \<Rightarrow> nat \<Rightarrow> nat \<Rightarrow> bool" where
  "sound data m k pos \<longleftrightarrow> (case m pos of (r, pos') \<Rightarrow>
     r \<noteq> Inl OutOfFuel \<and> pos \<le> pos' \<and> pos' \<le> length data \<and>
     (case r of Inl _ \<Rightarrow> True | Inr _ \<Rightarrow> pos + k \<le> pos'))"

named_theorems sound_rules

lemma sound_ret [sound_rules]: "pos \<le> length data \<Longrightarrow> sound data (ret v) 0 pos"
  by (simp add: sound_def ret_def)

lemma sound_throw [sound_rules]: "pos \<le> length data \<Longrightarrow> sound data (throw (NbtErr e)) k pos"
  by (simp add: sound_def throw_def)

lemma sound_ok_or [sound_rules]: "pos \<le> length data \<Longrightarrow> sound data (ok_or x (NbtErr e)) 0 pos"
  by (cases x) (auto intro: sound_rules)

lemma sound_bind:
  assumes "sound data m k pos" and "j \<le> k + l"
    and "\<And>v pos'. pos + k \<le> pos' \<Longrightarrow> pos' \<le> length data \<Longrightarrow> sound data (f v) l pos'"
  shows "sound data (bindE m f) j pos"
proof -
  obtain r p where m: "m pos = (r, p)" by (cases "m pos")
  show ?thesis
  proof (cases r)
    case (Inl e)
    with assms(1) m show ?thesis by (simp add: sound_def bindE_Inl)
  next
    case (Inr v)
    with assms(1) m have p: "pos + k \<le> p" "p \<le> length data" by (simp_all add: sound_def)
    from assms(3) [OF p, of v] p assms(2) show ?thesis
      by (auto simp: sound_def bindE_def m Inr split: prod.splits sum.splits)
  qed
qed

lemma sound_weaken: "sound data m k pos \<Longrightarrow> j \<le> k \<Longrightarrow> sound data m j pos"
  by (auto simp: sound_def split: prod.splits sum.splits)

lemma sound_if:
  "(c \<Longrightarrow> sound data m k pos) \<Longrightarrow> (\<not> c \<Longrightarrow> sound data m' k pos) \<Longrightarrow>
   sound data (if c then m else m') k pos"
  by simp

lemma sound_u8 [sound_rules]: "pos \<le> length data \<Longrightarrow> sound data (nbt_u8 data) 1 pos"
  by (simp add: sound_def nbt_u8_def)

lemma sound_exact [sound_rules]: "pos \<le> length data \<Longrightarrow> sound data (read_exact n data) n pos"
  by (simp add: sound_def read_exact_def get_range_def Let_def)

lemma sound_be [sound_rules]: "pos \<le> length data \<Longrightarrow> sound data (read_be n data) n pos"
  unfolding read_be_def by (rule sound_bind [OF sound_exact, where l = 0]) (simp_all add: sound_ret)

lemma read_varint_loop_progress:
  "read_varint_loop n i res data pos = (Inr v, p) \<Longrightarrow> pos < p"
  by (induction n i res data pos rule: read_varint_loop.induct)
     (fastforce simp: Let_def split: if_splits)+

lemma sound_len [sound_rules]:
  assumes "pos \<le> length data"
  shows "sound data (read_len data) 1 pos"
  unfolding read_len_def
proof (rule sound_bind [where l = 0])
  obtain r p where v: "read_varint data pos = (r, p)" by (cases "read_varint data pos")
  have "pos \<le> p \<and> p \<le> length data"
    by (rule read_varint_loop_pos [OF assms v [unfolded read_varint_def]])
  moreover have "pos < p" if "r = Inr x" for x
    using v read_varint_loop_progress unfolding read_varint_def that by metis
  ultimately show "sound data (map_err (\<lambda>_. NbtErr NbtUnexpectedEof) (read_varint data)) 1 pos"
    by (auto simp: sound_def map_err_def v Suc_le_eq split: sum.splits)
next
  fix v :: i32 and p
  assume "p \<le> length data"
  then show "sound data (bindE (ok_or (i32_to_usize v) (NbtErr NbtUnexpectedEof)) (\<lambda>len pos.
      let remaining = length data - pos in
      if len > remaining then (Inl (NbtErr NbtUnexpectedEof), pos) else (Inr len, pos))) 0 p"
    by (cases "i32_to_usize v") (simp_all add: sound_def bindE_def ret_def throw_def Let_def)
qed simp

lemma sound_string [sound_rules]: "pos \<le> length data \<Longrightarrow> sound data (read_nbt_string data) 1 pos"
  unfolding read_nbt_string_def
  by (rule sound_bind [OF sound_len, where l = 0], simp, simp, rule sound_bind [OF sound_exact, where l = 0])
     (auto intro!: sound_if sound_rules)

lemma sound_n:
  "(\<And>pos'. pos \<le> pos' \<Longrightarrow> pos' \<le> length data \<Longrightarrow> sound data m 0 pos') \<Longrightarrow> pos \<le> length data \<Longrightarrow>
   sound data (get_n n m) 0 pos"
proof (induction n arbitrary: pos)
  case 0
  then show ?case by (simp add: sound_ret)
next
  case (Suc n)
  show ?case unfolding get_n.simps
  proof (rule sound_bind [where k = 0 and l = 0])
    show "sound data m 0 pos" using Suc.prems by simp
    fix v pos'
    assume p: "pos + 0 \<le> pos'" "pos' \<le> length data"
    then have "sound data (get_n n m) 0 pos'" using Suc by simp
    then show "sound data (bindE (get_n n m) (\<lambda>vs. ret (v # vs))) 0 pos'"
      by (rule sound_bind [where l = 0]) (simp_all add: sound_ret)
  qed simp
qed

lemma sound_map: "sound data m k pos \<Longrightarrow> sound data (bindE m (\<lambda>v. ret (g v))) 0 pos"
  by (rule sound_bind [where k = k and l = 0]) (simp_all add: sound_ret)

lemma reader_sound:
  "pos \<le> length data \<Longrightarrow> length data - pos + 2 \<le> f \<Longrightarrow> sound data (read_payload f tag data) 0 pos"
  "pos \<le> length data \<Longrightarrow> length data - pos + 1 \<le> f \<Longrightarrow> sound data (read_list f data) 0 pos"
  "pos \<le> length data \<Longrightarrow> length data - pos + 1 \<le> f \<Longrightarrow> sound data (read_compound f acc data) 0 pos"
proof (induction f tag data and f data and f acc data arbitrary: pos and pos and pos
    rule: read_payload_read_list_read_compound.induct)
  case (2 f tag_id data)
  have len: "sound data (bindE (read_len data) g) 0 pos"
    if "\<And>n p. p \<le> length data \<Longrightarrow> sound data (g n) 0 p" for g :: "nat \<Rightarrow> (nat, nbt_failure, nbt_tag) fallible"
    using 2(3) by (intro sound_bind [OF sound_len, where l = 0]) (simp_all add: that)
  have list: "tag_id = TAG_LIST \<Longrightarrow> sound data (read_list f data) 0 pos"
    and comp: "tag_id = TAG_COMPOUND \<Longrightarrow> sound data (read_compound f [] data) 0 pos"
    using 2 by (simp_all add: tag_defs)
  show ?case unfolding read_payload.simps
    by (intro sound_if len list comp sound_map [OF sound_be] sound_map [OF sound_string]
        sound_map [OF sound_exact] sound_map [OF sound_n] sound_weaken [OF sound_be] sound_throw
        2(3)) (assumption | simp)+
next
  case (4 f data)
  show ?case unfolding read_list.simps
  proof (rule sound_bind [OF sound_u8, where l = 0], rule 4(2), simp, rule sound_bind [OF sound_len, where l = 0])
    fix elem_type p n q
    assume p: "pos + 1 \<le> p" "p \<le> length data" and q: "p + 1 \<le> q" "q \<le> length data"
    have "sound data (get_n n (read_payload f elem_type data)) 0 q"
      if "elem_type \<noteq> TAG_END" "\<not> elem_type > MAX_TAG_ID" "n \<noteq> 0"
      by (rule sound_n [OF 4(1)]) (use p q that 4(2,3) in auto)
    then show "sound data (if n = 0 then ret (NbtList [])
       else if elem_type = TAG_END then throw (NbtErr NbtInvalidListType)
       else if elem_type > MAX_TAG_ID then throw (NbtErr (NbtUnknownTagId elem_type))
       else bindE (get_n n (read_payload f elem_type data)) (\<lambda>items. ret (NbtList items))) 0 q"
      using q by (intro sound_if sound_map) (auto intro: sound_ret sound_throw)
  qed simp_all
next
  case (6 f entries data)
  show ?case unfolding read_compound.simps
  proof (rule sound_bind [OF sound_u8, where l = 0], rule 6(3), simp, intro sound_if)
   fix tag p
    assume p: "pos + 1 \<le> p" "p \<le> length data" and id: "tag \<noteq> TAG_END" "\<not> tag > MAX_TAG_ID"
    show "sound data (bindE (read_nbt_string data) (\<lambda>name. bindE (read_payload f tag data)
        (\<lambda>value. read_compound f (entries @ [(name, value)]) data))) 0 p"
    proof (rule sound_bind [OF sound_string, where l = 0], rule p(2), simp,
        rule sound_bind [where k = 0 and l = 0])
      fix name q
      assume q: "p + 1 \<le> q" "q \<le> length data"
      show "sound data (read_payload f tag data) 0 q"
        using 6(1) [OF id] p q 6(4) by simp
      fix val r
      assume r: "q + 0 \<le> r" "r \<le> length data"
      show "sound data (read_compound f (entries @ [(name, val)]) data) 0 r"
        using 6(2) [OF id] p q r 6(4) by simp
    qed simp
  qed (auto intro: sound_ret sound_throw)
qed simp_all

section \<open>The entry points\<close>

lemma compound_encoding:
  assumes "wf_tag (NbtCompound es)"
  obtains bs where "encode_anonymous (NbtCompound es) = Inr bs"
    and "encode_root (NbtCompound es) = Inr (0x0A # 0 # bs)"
    and "nwrites (write_compound_payload (NbtCompound es)) bs"
    and "\<And>f acc. length bs + 1 \<le> f \<Longrightarrow> nreads (read_compound f acc) bs (NbtCompound (acc @ es))"
proof -
  have "\<exists>bs. compound_bytes es bs"
    using assms tag_roundtrip by (intro compound_bytes_exists) (auto simp: list_all_iff)
  then obtain bs where bs: "nwrites (write_compound_payload (NbtCompound es)) bs"
    "\<And>f acc. length bs + 1 \<le> f \<Longrightarrow> nreads (read_compound f acc) bs (NbtCompound (acc @ es))"
    by (auto simp: compound_bytes_def)
  have "varint_bytes (0 :: i32) = [0]" by (simp add: varint_bytes_def varint_loop.simps)
  with bs that [of bs] show ?thesis
    by (simp add: nwrites_def encode_anonymous_def encode_root_def tag_defs Let_def)
qed

lemma anonymous_roundtrip:
  assumes "wf_tag (NbtCompound es)"
  shows "\<exists>bs. encode_anonymous (NbtCompound es) = Inr bs \<and>
    (\<forall>rest. decode_anonymous (bs @ rest) = Inr (NbtCompound es, length bs))"
proof -
  obtain bs where bs: "encode_anonymous (NbtCompound es) = Inr bs"
    "\<And>f acc. length bs + 1 \<le> f \<Longrightarrow> nreads (read_compound f acc) bs (NbtCompound (acc @ es))"
    by (rule compound_encoding [OF assms]) blast
  have "read_compound (length (bs @ rest) + 2) [] (bs @ rest) 0 = (Inr (NbtCompound es), length bs)"
    for rest
    using nreadsD [OF bs(2) [of "length (bs @ rest) + 2" "[]"], of "[]" rest] by simp
  with bs(1) show ?thesis by (auto simp: decode_anonymous_def)
qed

lemma root_roundtrip:
  assumes "wf_tag (NbtCompound es)"
  shows "\<exists>bs. encode_root (NbtCompound es) = Inr bs \<and> decode_root bs = Inr ([], NbtCompound es)"
proof -
  obtain bs where bs: "encode_root (NbtCompound es) = Inr (0x0A # 0 # bs)"
    "\<And>f acc. length bs + 1 \<le> f \<Longrightarrow> nreads (read_compound f acc) bs (NbtCompound (acc @ es))"
    by (rule compound_encoding [OF assms]) blast
  have z: "varint_bytes (word_of_nat (length ([] :: rstring)) :: i32) @ [] = [0]"
    by (simp add: varint_bytes_def varint_loop.simps)
  have name: "nreads read_nbt_string [0] []"
    using nreads_string [of "[]"] unfolding z by simp
  let ?d = "0x0A # 0 # bs"
  have id: "read_tag_id ?d 0 = (Inr TAG_COMPOUND, 1)"
    by (simp add: read_tag_id_def nbt_u8_def bindE_def ret_def tag_defs)
  have nm: "read_nbt_string ?d 1 = (Inr [], 2)"
    using nreadsD [OF name, of "[0x0A]" bs] by simp
  have "read_compound (Suc (length bs + 2)) [] ?d 2 = (Inr (NbtCompound es), length ?d)"
    using nreadsD [OF bs(2) [of "Suc (length bs + 2)" "[]"], of "[0x0A, 0]" "[]"]
    by (simp add: numeral_2_eq_2 del: read_compound.simps)
  then have "read_payload (length ?d + 2) TAG_COMPOUND ?d 2 = (Inr (NbtCompound es), length ?d)"
    by (simp add: tag_defs del: read_compound.simps)
  then have "decode_root ?d = Inr ([], NbtCompound es)"
    by (simp only: decode_root_def bindE_def id nm ret_def prod.case sum.case fst_conv)
  with bs(1) show ?thesis by blast
qed

lemma decode_anonymous_total:
  "decode_anonymous bytes \<noteq> Inl OutOfFuel"
  "decode_anonymous bytes = Inr (tag, n) \<Longrightarrow> n \<le> length bytes"
  using reader_sound(3) [of 0 bytes "length bytes + 2" "[]"]
  by (auto simp: decode_anonymous_def sound_def split: prod.splits sum.splits)

lemma decode_root_total: "decode_root bytes \<noteq> Inl OutOfFuel"
proof -
  have "sound bytes (read_tag_id bytes) 1 0"
    unfolding read_tag_id_def
    by (rule sound_bind [OF sound_u8, where l = 0]) (auto intro!: sound_if sound_rules)
  then have "sound bytes (bindE (read_tag_id bytes) (\<lambda>tag_id. bindE (read_nbt_string bytes) (\<lambda>name.
      bindE (read_payload (length bytes + 2) tag_id bytes) (\<lambda>tag. ret (name, tag))))) 0 0"
    by (rule sound_bind [where l = 0], simp)
       (rule sound_bind [OF sound_string, where l = 0], assumption, simp,
        rule sound_map [OF reader_sound(1)], simp_all)
  then show ?thesis by (simp add: decode_root_def sound_def split: prod.splits)
qed

section \<open>Recursion depth\<close>

text \<open>
  The reader sets no limit on nesting. \<open>nested_lists n\<close> is a list payload of \<open>2 * n + 2\<close>
  bytes whose only element is a list, \<open>n\<close> levels deep: its recursion needs two calls per level,
  one for every byte of the input.
\<close>

fun nested_lists :: "nat \<Rightarrow> u8 list" where
  "nested_lists 0 = [0, 0]"
| "nested_lists (Suc n) = 9 # 1 # nested_lists n"

lemma length_nested_lists [simp]: "length (nested_lists n) = 2 * n + 2"
  by (induction n) simp_all

lemma get_n_1: "get_n 1 r = bindE r (\<lambda>v. ret [v])"
  by (simp only: One_nat_def get_n.simps bindE_ret)

lemma nested_lists_depth_at:
  "f \<le> 2 * n \<Longrightarrow> fst (read_list f (pre @ nested_lists n) (length pre)) = Inl OutOfFuel"
proof (induction n arbitrary: f pre)
  case 0
  then show ?case by (simp add: throw_def)
next
  case (Suc n)
  let ?d = "pre @ nested_lists (Suc n)"
  show ?case
  proof (cases f)
    case 0
    then show ?thesis by (simp add: throw_def)
  next
    case f: (Suc g)
    have one: "varint_bytes (1 :: i32) = [1]" by (simp add: varint_bytes_def varint_loop.simps)
    have "read_varint ?d (length pre + 1) = (Inr 1, length pre + 2)"
      using read_varint_bytes [of "pre @ [9]" 1 "nested_lists n"] by (simp add: one)
    then have len: "read_len ?d (length pre + 1) = (Inr 1, length pre + 2)"
      using i32_to_usize_of_nat [of 1]
      by (simp add: read_len_def map_err_def bindE_def ret_def Let_def)
    have id: "nbt_u8 ?d (length pre) = (Inr 9, length pre + 1)"
      by (simp add: nbt_u8_def)
    have "fst (read_payload g 9 ?d (length pre + 2)) = Inl OutOfFuel"
    proof (cases g)
      case 0
      then show ?thesis by (simp add: throw_def)
    next
      case (Suc h)
      have "fst (read_list h ((pre @ [9, 1]) @ nested_lists n) (length (pre @ [9, 1]))) = Inl OutOfFuel"
        using Suc.prems f Suc by (intro Suc.IH) simp
      then show ?thesis by (simp add: Suc tag_defs del: read_list.simps)
    qed
    then obtain p where p: "read_payload g 9 ?d (length pre + 2) = (Inl OutOfFuel, p)"
      by (metis prod.collapse)
    have "\<not> (12 :: u8) < 9" "(9 :: u8) \<noteq> 0" "(1 :: nat) \<noteq> 0" by simp_all
    then have "read_list f ?d (length pre) = (Inl OutOfFuel, p)"
      by (simp only: f read_list.simps bindE_def id len tag_defs prod.case sum.case if_False
          get_n_1 p)
    then show ?thesis by simp
  qed
qed

lemma nested_lists_depth: "f \<le> 2 * n + 1 \<Longrightarrow> fst (read_payload f TAG_LIST (nested_lists n) 0) = Inl OutOfFuel"
  using nested_lists_depth_at [of "f - 1" n "[]"]
  by (cases f) (simp_all add: throw_def tag_defs del: read_list.simps)

section \<open>Lists of mixed tags\<close>

text \<open>
  The reader types every element of a list by the id of the first, so a list that breaks the
  contract of equal ids is written without an error and read back as something else.
\<close>

definition mixed_list :: nbt_tag where
  "mixed_list = NbtCompound [([], NbtList [NbtByte 1, NbtShort 2])]"

lemma write_tag_simps:
  "write_tag_payload (NbtByte b) = push_bytes [b]"
  "write_tag_payload (NbtShort h) = push_bytes (to_be_bytes 2 h)"
  "write_tag_payload (NbtInt i) = push_bytes (to_be_bytes 4 i)"
  "write_tag_payload (NbtString s) = write_nbt_string s"
  "write_tag_payload (NbtList ts) =
     seqE (push_bytes [case ts of [] \<Rightarrow> TAG_END | t # _ \<Rightarrow> tag_id_of t])
       (seqE (write_len (length ts)) (put_each write_tag_payload ts))"
  "write_tag_payload (NbtCompound es) = write_compound_payload (NbtCompound es)"
  "write_compound_payload (NbtCompound es) =
     seqE (put_each write_entry es) (push_bytes [TAG_END])"
  by (simp_all add: write_tag_payload.simps)
     (subst write_compound_payload.simps, simp add: write_entry_def [abs_def])

lemma to_be_bytes_2: "to_be_bytes 2 w = [ucast (drop_bit 8 w), ucast w]"
  by (simp add: numeral_2_eq_2)

lemma mixed_list_encoding: "encode_anonymous mixed_list = Inr [9, 0, 1, 2, 1, 0, 2, 0]"
  by (simp add: mixed_list_def encode_anonymous_def write_tag_simps write_entry_def
      write_nbt_string_def write_len_def usize_to_i32_def bindE_def ret_def push_bytes_def
      varint_bytes_def varint_loop.simps tag_id_of_def tag_defs to_be_bytes_2)

lemma mixed_list_corrupts: "decode_anonymous [9, 0, 1, 2, 1, 0, 2, 0] \<noteq> Inr (mixed_list, 8)"
  by code_simp

end
