(* ===== verification/Text_Component.thy ===== *)
theory Text_Component
  imports Nbt
begin

text \<open>
  Text components (\<open>text_component.rs\<close>): the component tree, its styles and events, the NBT
  form written by \<open>to_nbt\<close> and read by \<open>from_nbt\<close>, and the plain text. The main result is
  that \<open>from_nbt\<close> undoes \<open>to_nbt\<close> on every component, and that the NBT of a component with
  valid strings is a tag the NBT codec transports.
\<close>

section \<open>Colours\<close>

text \<open>\<open>struct Color(pub u32)\<close>.\<close>

datatype color = Color u32

definition from_name :: "rstring \<Rightarrow> color option" where
  "from_name name = map_option (\<lambda>rgb. Color (0xFF000000 OR rgb))
     (map_of
       [(str ''black'', 0x000000), (str ''dark_blue'', 0x0000AA), (str ''dark_green'', 0x00AA00),
        (str ''dark_aqua'', 0x00AAAA), (str ''dark_red'', 0xAA0000), (str ''dark_purple'', 0xAA00AA),
        (str ''gold'', 0xFFAA00), (str ''gray'', 0xAAAAAA), (str ''dark_gray'', 0x555555),
        (str ''blue'', 0x5555FF), (str ''green'', 0x55FF55), (str ''aqua'', 0x55FFFF),
        (str ''red'', 0xFF5555), (str ''light_purple'', 0xFF55FF), (str ''yellow'', 0xFFFF55),
        (str ''white'', 0xFFFFFF)] name)"

definition color_to_nbt :: "color \<Rightarrow> nbt_tag" where
  "color_to_nbt c = (case c of Color v \<Rightarrow> NbtInt (from_be_bytes (to_be_bytes 4 v)))"

definition color_from_nbt :: "nbt_tag \<Rightarrow> nbt_error + color" where
  "color_from_nbt tag =
     (case tag of NbtInt i \<Rightarrow> Inr (Color (from_be_bytes (to_be_bytes 4 i)))
      | _ \<Rightarrow> Inl NbtInvalidListType)"

section \<open>Events and styles\<close>

datatype click_action = RunCommand | OpenUrl | SuggestCommand | ChangePage

datatype hover_action = ShowText | ShowEntity | ShowItem

definition click_code :: "click_action \<Rightarrow> i32" where
  "click_code a = (case a of RunCommand \<Rightarrow> 0 | OpenUrl \<Rightarrow> 1 | SuggestCommand \<Rightarrow> 2 | ChangePage \<Rightarrow> 3)"

definition click_from_code :: "i32 \<Rightarrow> click_action option" where
  "click_from_code code =
     (if code = 0 then Some RunCommand else if code = 1 then Some OpenUrl
      else if code = 2 then Some SuggestCommand else if code = 3 then Some ChangePage else None)"

definition hover_code :: "hover_action \<Rightarrow> i32" where
  "hover_code a = (case a of ShowText \<Rightarrow> 0 | ShowEntity \<Rightarrow> 1 | ShowItem \<Rightarrow> 2)"

definition hover_from_code :: "i32 \<Rightarrow> hover_action option" where
  "hover_from_code code =
     (if code = 0 then Some ShowText else if code = 1 then Some ShowEntity
      else if code = 2 then Some ShowItem else None)"

record click_event =
  ce_action :: click_action
  ce_value :: rstring

record hover_event =
  he_action :: hover_action
  he_value :: rstring

record style =
  st_color :: "u32 option"
  st_bold :: bool
  st_italic :: bool
  st_underlined :: bool
  st_strikethrough :: bool
  st_obfuscated :: bool
  st_insertion :: "rstring option"
  st_click_event :: "click_event option"
  st_hover_event :: "hover_event option"

definition style_default :: style where
  "style_default = \<lparr>st_color = None, st_bold = False, st_italic = False, st_underlined = False,
     st_strikethrough = False, st_obfuscated = False, st_insertion = None, st_click_event = None,
     st_hover_event = None\<rparr>"

definition with_color :: "u32 \<Rightarrow> style" where
  "with_color c = style_default\<lparr>st_color := Some c\<rparr>"

definition with_insertion :: "rstring \<Rightarrow> style" where
  "with_insertion insertion = style_default\<lparr>st_insertion := Some insertion\<rparr>"

section \<open>Components\<close>

datatype component =
    CompEmpty
  | CompText rstring style
  | CompTranslatable rstring "rstring option" "component list"
  | CompKeybind rstring
  | CompScoreboard rstring rstring
  | CompSelector rstring "rstring option"
  | CompNbt rstring bool "rstring option"
  | CompClickEvent click_action rstring
  | CompHoverEvent hover_action rstring

definition component_text :: "rstring \<Rightarrow> component" where
  "component_text s = CompText s style_default"

text \<open>An optional entry: pushed only when the field is present, or the flag is set.\<close>

definition push_some :: "rstring \<Rightarrow> ('a \<Rightarrow> nbt_tag) \<Rightarrow> 'a option \<Rightarrow> (rstring \<times> nbt_tag) list" where
  "push_some k f x = (case x of None \<Rightarrow> [] | Some v \<Rightarrow> [(k, f v)])"

definition push_flag :: "rstring \<Rightarrow> bool \<Rightarrow> (rstring \<times> nbt_tag) list" where
  "push_flag k b = (if b then [(k, NbtByte 1)] else [])"

definition event_compound :: "i32 \<Rightarrow> rstring \<Rightarrow> nbt_tag" where
  "event_compound code val = NbtCompound [(str ''action'', NbtInt code), (str ''value'', NbtString val)]"

definition text_entries :: "rstring \<Rightarrow> style \<Rightarrow> (rstring \<times> nbt_tag) list" where
  "text_entries s st =
     [(str ''text'', NbtString s)] @
     push_some (str ''color'') (\<lambda>c. NbtInt (from_be_bytes (to_be_bytes 4 c))) (st_color st) @
     push_flag (str ''italic'') (st_italic st) @
     push_flag (str ''bold'') (st_bold st) @
     push_flag (str ''underlined'') (st_underlined st) @
     push_flag (str ''strikethrough'') (st_strikethrough st) @
     push_flag (str ''obfuscated'') (st_obfuscated st) @
     push_some (str ''insertion'') NbtString (st_insertion st) @
     push_some (str ''click_event'') (\<lambda>ce. event_compound (click_code (ce_action ce)) (ce_value ce))
       (st_click_event st) @
     push_some (str ''hover_event'') (\<lambda>he. event_compound (hover_code (he_action he)) (he_value he))
       (st_hover_event st)"

fun to_nbt :: "component \<Rightarrow> nbt_tag" where
  "to_nbt CompEmpty = NbtCompound []"
| "to_nbt (CompText s st) = NbtCompound (text_entries s st)"
| "to_nbt (CompTranslatable key fallback args) = NbtCompound
     ([(str ''translate'', NbtString key)] @
      push_some (str ''fallback'') NbtString fallback @
      (if args = [] then [] else [(str ''with'', NbtList (map to_nbt args))]))"
| "to_nbt (CompKeybind key) = NbtCompound [(str ''keybind'', NbtString key)]"
| "to_nbt (CompScoreboard name objective) = NbtCompound
     [(str ''score'', NbtCompound [(str ''name'', NbtString name),
        (str ''objective'', NbtString objective)])]"
| "to_nbt (CompSelector pat separator) = NbtCompound
     ([(str ''selector'', NbtString pat)] @ push_some (str ''separator'') NbtString separator)"
| "to_nbt (CompNbt nbt_path interpret separator) = NbtCompound
     [(str ''nbt'', NbtCompound ([(str ''nbt_path'', NbtString nbt_path)] @
        push_flag (str ''interpret'') interpret @
        push_some (str ''separator'') NbtString separator))]"
| "to_nbt (CompClickEvent action val) =
     NbtCompound [(str ''click_event'', event_compound (click_code action) val)]"
| "to_nbt (CompHoverEvent action val) =
     NbtCompound [(str ''hover_event'', event_compound (hover_code action) val)]"

section \<open>Reading entries\<close>

type_synonym nbt_entries = "(rstring \<times> nbt_tag) list"

definition find_entry :: "nbt_entries \<Rightarrow> rstring \<Rightarrow> nbt_tag option" where
  "find_entry entries key = map_option snd (find (\<lambda>e. fst e = key) entries)"

definition has_entry :: "nbt_entries \<Rightarrow> rstring \<Rightarrow> bool" where
  "has_entry entries key = list_ex (\<lambda>e. fst e = key) entries"

definition entry_str :: "nbt_entries \<Rightarrow> rstring \<Rightarrow> nbt_error + rstring option" where
  "entry_str entries key =
     (case find_entry entries key of
        None \<Rightarrow> Inr None | Some (NbtString s) \<Rightarrow> Inr (Some s) | Some _ \<Rightarrow> Inl NbtInvalidListType)"

definition entry_int :: "nbt_entries \<Rightarrow> rstring \<Rightarrow> nbt_error + i32 option" where
  "entry_int entries key =
     (case find_entry entries key of
        None \<Rightarrow> Inr None | Some (NbtInt i) \<Rightarrow> Inr (Some i) | Some _ \<Rightarrow> Inl NbtInvalidListType)"

definition entry_byte :: "nbt_entries \<Rightarrow> rstring \<Rightarrow> nbt_error + i8 option" where
  "entry_byte entries key =
     (case find_entry entries key of
        None \<Rightarrow> Inr None | Some (NbtByte b) \<Rightarrow> Inr (Some b) | Some _ \<Rightarrow> Inl NbtInvalidListType)"

definition entry_compound :: "nbt_entries \<Rightarrow> rstring \<Rightarrow> nbt_error + nbt_entries option" where
  "entry_compound entries key =
     (case find_entry entries key of
        None \<Rightarrow> Inr None | Some (NbtCompound inner) \<Rightarrow> Inr (Some inner)
      | Some _ \<Rightarrow> Inl NbtInvalidListType)"

text \<open>A field that must be present: \<open>entry(..)?.ok_or(InvalidListType)?\<close>.\<close>

definition required :: "nbt_error + 'a option \<Rightarrow> nbt_error + 'a" where
  "required r = and_then r (\<lambda>x. some_or x NbtInvalidListType)"

definition flag_of :: "i8 option \<Rightarrow> bool" where
  "flag_of x = (case x of None \<Rightarrow> False | Some b \<Rightarrow> b \<noteq> 0)"

text \<open>The body shared by the event readers: action code, then value.\<close>

definition extract_click_event :: "nbt_entries \<Rightarrow> nbt_error + click_event option" where
  "extract_click_event entries =
     and_then (entry_compound entries (str ''click_event'')) (\<lambda>found.
       case found of
         None \<Rightarrow> Inr None
       | Some inner \<Rightarrow>
           and_then (required (entry_int inner (str ''action''))) (\<lambda>code.
           and_then (some_or (click_from_code code) NbtInvalidListType) (\<lambda>action.
           and_then (required (entry_str inner (str ''value''))) (\<lambda>val.
             Inr (Some \<lparr>ce_action = action, ce_value = val\<rparr>)))))"

definition extract_hover_event :: "nbt_entries \<Rightarrow> nbt_error + hover_event option" where
  "extract_hover_event entries =
     and_then (entry_compound entries (str ''hover_event'')) (\<lambda>found.
       case found of
         None \<Rightarrow> Inr None
       | Some inner \<Rightarrow>
           and_then (required (entry_int inner (str ''action''))) (\<lambda>code.
           and_then (some_or (hover_from_code code) NbtInvalidListType) (\<lambda>action.
           and_then (required (entry_str inner (str ''value''))) (\<lambda>val.
             Inr (Some \<lparr>he_action = action, he_value = val\<rparr>)))))"

lemma size_find_entry:
  "find_entry entries key = Some t \<Longrightarrow> size t < Suc (size_list (size_prod (\<lambda>_. 0) size) entries)"
proof -
  assume "find_entry entries key = Some t"
  then obtain i where "i < length entries" "t = snd (entries ! i)"
    by (auto simp: find_entry_def find_Some_iff) (metis snd_conv)
  then show ?thesis using size_in_entries [of "entries ! i" entries] by simp
qed

function from_nbt :: "nbt_tag \<Rightarrow> nbt_error + component"
  and entry_component_list :: "nbt_entries \<Rightarrow> rstring \<Rightarrow> nbt_error + component list option" where
  "from_nbt tag =
     (case tag of
        NbtCompound entries \<Rightarrow>
          if has_entry entries (str ''keybind'') then
            and_then (required (entry_str entries (str ''keybind''))) (\<lambda>key. Inr (CompKeybind key))
          else if has_entry entries (str ''score'') then
            and_then (required (entry_compound entries (str ''score''))) (\<lambda>inner.
            and_then (required (entry_str inner (str ''name''))) (\<lambda>name.
            and_then (required (entry_str inner (str ''objective''))) (\<lambda>objective.
              Inr (CompScoreboard name objective))))
          else if has_entry entries (str ''selector'') then
            and_then (required (entry_str entries (str ''selector''))) (\<lambda>pat.
            and_then (entry_str entries (str ''separator'')) (\<lambda>separator.
              Inr (CompSelector pat separator)))
          else if has_entry entries (str ''nbt'') then
            and_then (required (entry_compound entries (str ''nbt''))) (\<lambda>inner.
            and_then (required (entry_str inner (str ''nbt_path''))) (\<lambda>nbt_path.
            and_then (entry_byte inner (str ''interpret'')) (\<lambda>interpret.
            and_then (entry_str inner (str ''separator'')) (\<lambda>separator.
              Inr (CompNbt nbt_path (flag_of interpret) separator)))))
          else if has_entry entries (str ''click_event'') \<and> \<not> has_entry entries (str ''text'') then
            and_then (required (extract_click_event entries)) (\<lambda>ce.
              Inr (CompClickEvent (ce_action ce) (ce_value ce)))
          else if has_entry entries (str ''hover_event'') \<and> \<not> has_entry entries (str ''text'') then
            and_then (required (extract_hover_event entries)) (\<lambda>he.
              Inr (CompHoverEvent (he_action he) (he_value he)))
          else if has_entry entries (str ''translate'') then
            and_then (required (entry_str entries (str ''translate''))) (\<lambda>key.
            and_then (entry_str entries (str ''fallback'')) (\<lambda>fallback.
            and_then (entry_component_list entries (str ''with'')) (\<lambda>args.
              Inr (CompTranslatable key fallback (case args of None \<Rightarrow> [] | Some l \<Rightarrow> l)))))
          else if has_entry entries (str ''text'') then
            and_then (required (entry_str entries (str ''text''))) (\<lambda>s.
            and_then (entry_int entries (str ''color'')) (\<lambda>color.
            and_then (entry_byte entries (str ''bold'')) (\<lambda>bold.
            and_then (entry_byte entries (str ''italic'')) (\<lambda>italic.
            and_then (entry_byte entries (str ''underlined'')) (\<lambda>underlined.
            and_then (entry_byte entries (str ''strikethrough'')) (\<lambda>strikethrough.
            and_then (entry_byte entries (str ''obfuscated'')) (\<lambda>obfuscated.
            and_then (entry_str entries (str ''insertion'')) (\<lambda>insertion.
            and_then (extract_click_event entries) (\<lambda>click_event.
            and_then (extract_hover_event entries) (\<lambda>hover_event.
              Inr (CompText s
                \<lparr>st_color = map_option (\<lambda>c. from_be_bytes (to_be_bytes 4 c)) color,
                 st_bold = flag_of bold, st_italic = flag_of italic,
                 st_underlined = flag_of underlined, st_strikethrough = flag_of strikethrough,
                 st_obfuscated = flag_of obfuscated, st_insertion = insertion,
                 st_click_event = click_event, st_hover_event = hover_event\<rparr>)))))))))))
          else Inr CompEmpty
      | _ \<Rightarrow> Inl NbtInvalidListType)"
| "entry_component_list entries key =
     (case find_entry entries key of
        None \<Rightarrow> Inr None
      | Some (NbtList items) \<Rightarrow> and_then (try_each from_nbt items) (\<lambda>comps. Inr (Some comps))
      | Some _ \<Rightarrow> Inl NbtInvalidListType)"
  by pat_completeness auto
termination
  apply (relation "measure (\<lambda>x. case x of Inl t \<Rightarrow> 2 * size t
      | Inr (es, k) \<Rightarrow> 2 * size_list (size_prod (\<lambda>_. 0) size) es + 1)")
  apply simp_all
  subgoal by (drule size_find_entry, drule size_in_list) simp
  done

declare from_nbt.simps [simp del] entry_component_list.simps [simp del]

section \<open>Plain text\<close>

fun plain_text :: "component \<Rightarrow> rstring" where
  "plain_text CompEmpty = []"
| "plain_text (CompText s st) = s"
| "plain_text (CompTranslatable key fallback args) =
     (case fallback of Some fb \<Rightarrow> fb | None \<Rightarrow> key) @ concat (map plain_text args)"
| "plain_text (CompKeybind key) = str ''{key}''"
| "plain_text (CompScoreboard name objective) = name"
| "plain_text (CompSelector pat separator) = pat"
| "plain_text (CompNbt p i s) = []"
| "plain_text (CompClickEvent a v) = []"
| "plain_text (CompHoverEvent a v) = []"

text \<open>\<open>trait ComponentHolder\<close>, as \<open>Component\<close> implements it.\<close>

definition components :: "component \<Rightarrow> component list" where
  "components c = [c]"

definition copy_with_operator :: "component \<Rightarrow> (component \<Rightarrow> component) \<Rightarrow> component" where
  "copy_with_operator c op = op c"

section \<open>Round trip\<close>

lemma codes [simp]:
  "click_from_code (click_code a) = Some a" "hover_from_code (hover_code h) = Some h"
  by (cases a; simp add: click_code_def click_from_code_def)
     (cases h; simp add: hover_code_def hover_from_code_def)

lemma color_roundtrip: "color_from_nbt (color_to_nbt c) = Inr c"
  by (cases c) (simp add: color_to_nbt_def color_from_nbt_def)

lemma flag_of_simps [simp]: "flag_of None = False" "flag_of (Some 1) = True"
  by (simp_all add: flag_of_def)

lemma find_entry_simps [simp]:
  "find_entry [] k = None"
  "find_entry ((k', t) # es) k = (if k' = k then Some t else find_entry es k)"
  by (simp_all add: find_entry_def)

lemma find_entry_append [simp]:
  "find_entry (es @ es') k = (case find_entry es k of None \<Rightarrow> find_entry es' k | Some t \<Rightarrow> Some t)"
  by (induction es) (auto simp: find_entry_def)

lemma has_entry_find: "has_entry es k \<longleftrightarrow> find_entry es k \<noteq> None"
  by (induction es) (auto simp: has_entry_def find_entry_def)

lemma find_push_flag [simp]:
  "find_entry (push_flag k b) k' = (if b \<and> k = k' then Some (NbtByte 1) else None)"
  by (simp add: push_flag_def)

lemma find_push_some [simp]:
  "find_entry (push_some k f x) k' = (if k = k' then map_option f x else None)"
  by (cases x) (simp_all add: push_some_def)

lemmas entry_defs = entry_str_def entry_int_def entry_byte_def entry_compound_def required_def
  has_entry_find

lemma event_entries:
  "find_entry es (str ''click_event'') =
     map_option (\<lambda>ce. event_compound (click_code (ce_action ce)) (ce_value ce)) c \<Longrightarrow>
   extract_click_event es = Inr c"
  "find_entry es (str ''hover_event'') =
     map_option (\<lambda>he. event_compound (hover_code (he_action he)) (he_value he)) h \<Longrightarrow>
   extract_hover_event es = Inr h"
  by (cases c; simp add: extract_click_event_def entry_defs event_compound_def)
     (cases h; simp add: extract_hover_event_def entry_defs event_compound_def)

lemma find_text_entries:
  "find_entry (text_entries s st) (str ''keybind'') = None"
  "find_entry (text_entries s st) (str ''score'') = None"
  "find_entry (text_entries s st) (str ''selector'') = None"
  "find_entry (text_entries s st) (str ''nbt'') = None"
  "find_entry (text_entries s st) (str ''translate'') = None"
  "find_entry (text_entries s st) (str ''text'') = Some (NbtString s)"
  "find_entry (text_entries s st) (str ''color'') = map_option NbtInt (st_color st)"
  "find_entry (text_entries s st) (str ''italic'') = (if st_italic st then Some (NbtByte 1) else None)"
  "find_entry (text_entries s st) (str ''bold'') = (if st_bold st then Some (NbtByte 1) else None)"
  "find_entry (text_entries s st) (str ''underlined'') =
     (if st_underlined st then Some (NbtByte 1) else None)"
  "find_entry (text_entries s st) (str ''strikethrough'') =
     (if st_strikethrough st then Some (NbtByte 1) else None)"
  "find_entry (text_entries s st) (str ''obfuscated'') =
     (if st_obfuscated st then Some (NbtByte 1) else None)"
  "find_entry (text_entries s st) (str ''insertion'') = map_option NbtString (st_insertion st)"
  "find_entry (text_entries s st) (str ''click_event'') =
     map_option (\<lambda>ce. event_compound (click_code (ce_action ce)) (ce_value ce)) (st_click_event st)"
  "find_entry (text_entries s st) (str ''hover_event'') =
     map_option (\<lambda>he. event_compound (hover_code (he_action he)) (he_value he)) (st_hover_event st)"
  by (simp_all add: text_entries_def split: option.split)

lemma text_fields:
  "find_entry (text_entries s st) (str ''keybind'') = None"
  "find_entry (text_entries s st) (str ''score'') = None"
  "find_entry (text_entries s st) (str ''selector'') = None"
  "find_entry (text_entries s st) (str ''nbt'') = None"
  "find_entry (text_entries s st) (str ''translate'') = None"
  "find_entry (text_entries s st) (str ''text'') \<noteq> None"
  "entry_str (text_entries s st) (str ''text'') = Inr (Some s)"
  "entry_int (text_entries s st) (str ''color'') = Inr (st_color st)"
  "entry_byte (text_entries s st) (str ''italic'') = Inr (if st_italic st then Some 1 else None)"
  "entry_byte (text_entries s st) (str ''bold'') = Inr (if st_bold st then Some 1 else None)"
  "entry_byte (text_entries s st) (str ''underlined'') = Inr (if st_underlined st then Some 1 else None)"
  "entry_byte (text_entries s st) (str ''strikethrough'') =
     Inr (if st_strikethrough st then Some 1 else None)"
  "entry_byte (text_entries s st) (str ''obfuscated'') = Inr (if st_obfuscated st then Some 1 else None)"
  "entry_str (text_entries s st) (str ''insertion'') = Inr (st_insertion st)"
  "extract_click_event (text_entries s st) = Inr (st_click_event st)"
  "extract_hover_event (text_entries s st) = Inr (st_hover_event st)"
  by (simp_all add: find_text_entries entry_str_def entry_int_def entry_byte_def event_entries
      split: option.split)

lemma flag_if [simp]: "flag_of (if b then Some 1 else None) = b"
  by simp

lemma from_to_nbt: "from_nbt (to_nbt c) = Inr c"
proof (induction c)
  case (CompTranslatable key fallback args)
  then have "try_each from_nbt (map to_nbt args) = Inr args" by (intro try_each_map)
  then show ?case
    by (cases fallback; cases args)
       (simp_all add: from_nbt.simps entry_component_list.simps entry_defs push_some_def)
next
  case (CompNbt p i s)
  then show ?case by (cases s; cases i) (simp_all add: from_nbt.simps entry_defs)
next
  case (CompSelector p s)
  then show ?case by (cases s) (simp_all add: from_nbt.simps entry_defs)
next
  case (CompText s st)
  have "st = \<lparr>st_color = st_color st, st_bold = st_bold st, st_italic = st_italic st,
      st_underlined = st_underlined st, st_strikethrough = st_strikethrough st,
      st_obfuscated = st_obfuscated st, st_insertion = st_insertion st,
      st_click_event = st_click_event st, st_hover_event = st_hover_event st\<rparr>" by simp
  then show ?case
    by (simp add: from_nbt.simps required_def has_entry_find text_fields option.map_comp comp_def
        option.map_ident)
qed (simp_all add: from_nbt.simps entry_defs extract_click_event_def extract_hover_event_def
      event_compound_def)

section \<open>The NBT of a component is transportable\<close>

definition wf_str :: "rstring \<Rightarrow> bool" where
  "wf_str s \<longleftrightarrow> utf8_valid s \<and> length s < 2 ^ 31"

definition wf_opt :: "rstring option \<Rightarrow> bool" where
  "wf_opt x = (case x of None \<Rightarrow> True | Some s \<Rightarrow> wf_str s)"

definition wf_style :: "style \<Rightarrow> bool" where
  "wf_style st \<longleftrightarrow> wf_opt (st_insertion st) \<and>
     wf_opt (map_option ce_value (st_click_event st)) \<and> wf_opt (map_option he_value (st_hover_event st))"

fun wf_component :: "component \<Rightarrow> bool" where
  "wf_component CompEmpty = True"
| "wf_component (CompText s st) = (wf_str s \<and> wf_style st)"
| "wf_component (CompTranslatable key fallback args) =
     (wf_str key \<and> wf_opt fallback \<and> length args < 2 ^ 31 \<and> list_all wf_component args)"
| "wf_component (CompKeybind key) = wf_str key"
| "wf_component (CompScoreboard name objective) = (wf_str name \<and> wf_str objective)"
| "wf_component (CompSelector pat separator) = (wf_str pat \<and> wf_opt separator)"
| "wf_component (CompNbt nbt_path interpret separator) = (wf_str nbt_path \<and> wf_opt separator)"
| "wf_component (CompClickEvent action val) = wf_str val"
| "wf_component (CompHoverEvent action val) = wf_str val"

lemma wf_literal [simp]: "list_all (\<lambda>c. of_char c < (128 :: nat)) s \<Longrightarrow> utf8_valid (str s)"
proof (rule utf8_valid_ascii, rule ballI)
  fix b
  assume s: "list_all (\<lambda>c. of_char c < (128 :: nat)) s" and "b \<in> set (str s)"
  then obtain c where "b = word_of_nat (of_char c)" "of_char c < (128 :: nat)"
    by (auto simp: str_def list_all_iff)
  then show "b \<le> 0x7F" by (simp add: word_le_nat_alt unat_of_nat)
qed

lemma length_str [simp]: "length (str s) = length s"
  by (simp add: str_def)

definition wf_entry :: "rstring \<times> nbt_tag \<Rightarrow> bool" where
  "wf_entry e \<longleftrightarrow> utf8_valid (fst e) \<and> length (fst e) < 2 ^ 31 \<and> wf_tag (snd e)"

lemma wf_tag_compound [simp]: "wf_tag (NbtCompound es) = list_all wf_entry es"
  by (simp add: wf_entry_def [abs_def])

lemma wf_push [simp]:
  "list_all wf_entry (push_flag k b) \<longleftrightarrow> \<not> b \<or> utf8_valid k \<and> length k < 2 ^ 31"
  "list_all wf_entry (push_some k f x) \<longleftrightarrow>
     (case x of None \<Rightarrow> True | Some v \<Rightarrow> utf8_valid k \<and> length k < 2 ^ 31 \<and> wf_tag (f v))"
  by (simp add: push_flag_def wf_entry_def) (cases x; simp add: push_some_def wf_entry_def)

lemma wf_event [simp]: "wf_tag (event_compound code v) \<longleftrightarrow> wf_str v"
  by (auto simp: event_compound_def wf_entry_def wf_str_def)

declare wf_tag.simps(10) [simp del]

lemma tag_id_to_nbt [simp]: "tag_id_of (to_nbt c) = TAG_COMPOUND"
  by (cases c) (simp_all add: tag_id_of_def)

lemma wf_to_nbt: "wf_component c \<Longrightarrow> wf_tag (to_nbt c)"
proof (induction c)
  case (CompTranslatable key fallback args)
  have "list_all (\<lambda>t. tag_id_of t = tag_id_of (hd (map to_nbt args))) (map to_nbt args)"
    by (cases args) (auto simp: list_all_iff)
  moreover have "list_all wf_tag (map to_nbt args)"
    using CompTranslatable by (simp add: list_all_iff)
  ultimately show ?case
    using CompTranslatable.prems
    by (simp add: wf_entry_def wf_opt_def wf_str_def split: option.splits)
next
  case (CompText s st)
  then show ?case
    by (auto simp: text_entries_def wf_entry_def wf_opt_def wf_str_def wf_style_def
        split: option.splits)
qed (auto simp: wf_entry_def wf_opt_def wf_str_def split: option.splits)

lemma to_nbt_compound: "\<exists>es. to_nbt c = NbtCompound es"
  by (cases c) simp_all

end
