(* ===== verification/Keyed_Store.thy ===== *)
theory Keyed_Store
  imports Prelude
begin

text \<open>
  The contract of a keyed store: what a lookup returns after an insertion or a removal, on the
  states that satisfy the store's invariant. Several components of the server keep such a
  store (the component patch of an item, the sparse set of the entity storage, the client
  table); each interprets the locale. The client's result is a refinement: a store replays any
  sequence of insertions and removals as a partial map does.
\<close>

datatype ('k, 'v) store_op = Put 'k 'v | Del 'k

definition spec_op :: "('k, 'v) store_op \<Rightarrow> ('k \<rightharpoonup> 'v) \<Rightarrow> ('k \<rightharpoonup> 'v)" where
  "spec_op op m = (case op of Put k v \<Rightarrow> m(k \<mapsto> v) | Del k \<Rightarrow> m(k := None))"

definition run_op :: "('k \<Rightarrow> 'v \<Rightarrow> 's \<Rightarrow> 's) \<Rightarrow> ('k \<Rightarrow> 's \<Rightarrow> 's) \<Rightarrow> ('k, 'v) store_op \<Rightarrow> 's \<Rightarrow> 's" where
  "run_op put del op s = (case op of Put k v \<Rightarrow> put k v s | Del k \<Rightarrow> del k s)"

locale keyed_store =
  fixes get :: "'s \<Rightarrow> 'k \<Rightarrow> 'v option"
    and put :: "'k \<Rightarrow> 'v \<Rightarrow> 's \<Rightarrow> 's"
    and del :: "'k \<Rightarrow> 's \<Rightarrow> 's"
    and inv :: "'s \<Rightarrow> bool"
  assumes put_inv: "inv s \<Longrightarrow> inv (put k v s)"
    and del_inv: "inv s \<Longrightarrow> inv (del k s)"
    and get_put: "inv s \<Longrightarrow> get (put k v s) k' = (if k' = k then Some v else get s k')"
    and get_del: "inv s \<Longrightarrow> get (del k s) k' = (if k' = k then None else get s k')"
begin

lemma run_op_inv: "inv s \<Longrightarrow> inv (run_op put del op s)"
  by (cases op) (simp_all add: run_op_def put_inv del_inv)

lemma run_op_refines: "inv s \<Longrightarrow> get (run_op put del op s) = spec_op op (get s)"
  by (rule ext) (cases op; simp add: run_op_def spec_op_def get_put get_del)

lemma replay_inv: "inv s \<Longrightarrow> inv (fold (run_op put del) ops s)"
  by (induction ops arbitrary: s) (simp_all add: run_op_inv)

lemma replay_refines: "inv s \<Longrightarrow> get (fold (run_op put del) ops s) = fold spec_op ops (get s)"
  by (induction ops arbitrary: s) (simp_all add: run_op_inv run_op_refines)

lemma put_put: "inv s \<Longrightarrow> get (put k v (put k u s)) = get (put k v s)"
  by (rule ext) (simp add: get_put put_inv)

lemma put_commute:
  "inv s \<Longrightarrow> k \<noteq> k' \<Longrightarrow> get (put k v (put k' v' s)) = get (put k' v' (put k v s))"
  by (rule ext) (simp add: get_put put_inv)

lemma del_put: "inv s \<Longrightarrow> get s k = None \<Longrightarrow> get (del k (put k v s)) = get s"
  by (rule ext) (simp add: get_put get_del put_inv)

end

end
