(* ===== verification/Item_Stack.thy ===== *)
theory Item_Stack
  imports Text_Component Keyed_Store
begin

text \<open>
  Item stacks and their data component patches (\<open>item_stack.rs\<close>): the patch as an ordered list
  of Set and Remove entries with its lookup and update operations, the typed getters, the value
  codecs by component id, and the wire form of a stack.
\<close>

section \<open>Data\<close>

definition MAX_STACK :: u8 where "MAX_STACK = 64"

datatype item_rarity = Common | Uncommon | Rare | Epic

datatype component_value =
    CvMaxStackSize u32
  | CvMaxDamage u32
  | CvDamage u32
  | CvUnbreakable
  | CvMinimumAttackCharge f32
  | CvRarity item_rarity
  | CvByte i8
  | CvShort i16
  | CvLong i64
  | CvFloat f32
  | CvDouble f64
  | CvString rstring
  | CvBool bool
  | CvNbt nbt_tag
  | CvText component
  | CvTextList "component list"

datatype component_entry = CSet u32 component_value | CRemove u32

record item_components =
  ic_entries :: "component_entry list"

record item_stack =
  is_material :: u32
  is_amount :: u8
  is_components :: item_components

section \<open>The component patch\<close>

definition ic_EMPTY :: item_components where "ic_EMPTY = \<lparr>ic_entries = []\<rparr>"

definition ic_new :: item_components where "ic_new = \<lparr>ic_entries = []\<rparr>"

definition ic_is_empty :: "item_components \<Rightarrow> bool" where
  "ic_is_empty c \<longleftrightarrow> ic_entries c = []"

fun get_entry :: "component_entry list \<Rightarrow> u32 \<Rightarrow> component_value option" where
  "get_entry [] cid = None"
| "get_entry (CSet stored v # es) cid = (if stored = cid then Some v else get_entry es cid)"
| "get_entry (CRemove r # es) cid = get_entry es cid"

definition ic_get :: "item_components \<Rightarrow> u32 \<Rightarrow> component_value option" where
  "ic_get c cid = get_entry (ic_entries c) cid"

definition component_id :: "component_value \<Rightarrow> u32" where
  "component_id v =
     (case v of
        CvMaxStackSize _ \<Rightarrow> 1 | CvMaxDamage _ \<Rightarrow> 2 | CvDamage _ \<Rightarrow> 3 | CvUnbreakable \<Rightarrow> 4
      | CvMinimumAttackCharge _ \<Rightarrow> 7 | CvRarity _ \<Rightarrow> 12 | CvByte _ \<Rightarrow> 22 | CvShort _ \<Rightarrow> 45
      | CvLong _ \<Rightarrow> 76 | CvFloat _ \<Rightarrow> 50 | CvDouble _ \<Rightarrow> 77 | CvString _ \<Rightarrow> 10 | CvBool _ \<Rightarrow> 21
      | CvNbt _ \<Rightarrow> 0 | CvText _ \<Rightarrow> 6 | CvTextList _ \<Rightarrow> 11)"

fun set_entry :: "u32 \<Rightarrow> component_value \<Rightarrow> component_entry list \<Rightarrow> component_entry list" where
  "set_entry cid v [] = [CSet cid v]"
| "set_entry cid v (CSet stored w # es) =
     (if stored = cid then CSet stored v # es else CSet stored w # set_entry cid v es)"
| "set_entry cid v (CRemove r # es) = CRemove r # set_entry cid v es"

definition ic_set_at :: "u32 \<Rightarrow> component_value \<Rightarrow> item_components \<Rightarrow> item_components" where
  "ic_set_at cid v c = c\<lparr>ic_entries := set_entry cid v (ic_entries c)\<rparr>"

definition ic_set :: "component_value \<Rightarrow> item_components \<Rightarrow> item_components" where
  "ic_set v c = ic_set_at (component_id v) v c"

definition is_set_of :: "u32 \<Rightarrow> component_entry \<Rightarrow> bool" where
  "is_set_of cid e = (case e of CSet stored _ \<Rightarrow> stored = cid | CRemove _ \<Rightarrow> False)"

definition ic_remove :: "u32 \<Rightarrow> item_components \<Rightarrow> item_components" where
  "ic_remove cid c =
     (let es = filter (\<lambda>e. \<not> is_set_of cid e) (ic_entries c) in
      c\<lparr>ic_entries := if \<not> list_ex (\<lambda>e. e = CRemove cid) es then es @ [CRemove cid] else es\<rparr>)"

definition ic_max_stack_size :: "item_components \<Rightarrow> u32 option" where
  "ic_max_stack_size c = (case ic_get c 1 of Some (CvMaxStackSize v) \<Rightarrow> Some v | _ \<Rightarrow> None)"

definition ic_max_damage :: "item_components \<Rightarrow> u32 option" where
  "ic_max_damage c = (case ic_get c 2 of Some (CvMaxDamage v) \<Rightarrow> Some v | _ \<Rightarrow> None)"

definition ic_damage :: "item_components \<Rightarrow> u32 option" where
  "ic_damage c = (case ic_get c 3 of Some (CvDamage v) \<Rightarrow> Some v | _ \<Rightarrow> None)"

definition ic_is_unbreakable :: "item_components \<Rightarrow> bool" where
  "ic_is_unbreakable c = (case ic_get c 4 of Some CvUnbreakable \<Rightarrow> True | _ \<Rightarrow> False)"

definition ic_minimum_attack_charge :: "item_components \<Rightarrow> f32 option" where
  "ic_minimum_attack_charge c =
     (case ic_get c 7 of Some (CvMinimumAttackCharge v) \<Rightarrow> Some v | _ \<Rightarrow> None)"

definition ic_rarity :: "item_components \<Rightarrow> item_rarity option" where
  "ic_rarity c = (case ic_get c 12 of Some (CvRarity r) \<Rightarrow> Some r | _ \<Rightarrow> None)"

definition ic_custom_name :: "item_components \<Rightarrow> component option" where
  "ic_custom_name c = (case ic_get c 6 of Some (CvText t) \<Rightarrow> Some t | _ \<Rightarrow> None)"

definition ic_lore :: "item_components \<Rightarrow> component list option" where
  "ic_lore c = (case ic_get c 11 of Some (CvTextList l) \<Rightarrow> Some l | _ \<Rightarrow> None)"

definition ic_custom_data :: "item_components \<Rightarrow> nbt_tag option" where
  "ic_custom_data c = (case ic_get c 0 of Some (CvNbt t) \<Rightarrow> Some t | _ \<Rightarrow> None)"

definition ic_enchantments :: "item_components \<Rightarrow> nbt_tag option" where
  "ic_enchantments c = (case ic_get c 13 of Some (CvNbt t) \<Rightarrow> Some t | _ \<Rightarrow> None)"

section \<open>Stacks\<close>

definition AIR :: item_stack where
  "AIR = \<lparr>is_material = 0, is_amount = 0, is_components = ic_EMPTY\<rparr>"

definition is_air :: "item_stack \<Rightarrow> bool" where
  "is_air i \<longleftrightarrow> is_amount i = 0"

definition item_new :: "u32 \<Rightarrow> u8 \<Rightarrow> item_stack" where
  "item_new material amount =
     (if amount = 0 then AIR
      else \<lparr>is_material = material, is_amount = amount, is_components = ic_EMPTY\<rparr>)"

definition max_stack :: "item_stack \<Rightarrow> u8" where
  "max_stack i =
     (case ic_max_stack_size (is_components i) of
        None \<Rightarrow> MAX_STACK
      | Some v \<Rightarrow> if unat v < 256 then ucast v else MAX_STACK)"

section \<open>Value codecs\<close>

definition write_nbt_compound :: "nbt_tag \<Rightarrow> unit io" where
  "write_nbt_compound tag =
     (case encode_anonymous tag of
        Inl _ \<Rightarrow> throw InvalidValue
      | Inr bytes \<Rightarrow> seqE (put_u8 0x0A) (put_bytes bytes))"

definition read_nbt_compound :: "nbt_tag io" where
  "read_nbt_compound =
     bindE get_u8 (\<lambda>tag_id.
       if tag_id \<noteq> 0x0A then throw InvalidValue
       else (\<lambda>b.
         if bb_pos b > length (bb_buf b) then (Inl UnexpectedEof, b)
         else (case decode_anonymous (drop (bb_pos b) (bb_buf b)) of
             Inl (NbtErr NbtUnexpectedEof) \<Rightarrow> (Inl UnexpectedEof, b)
           | Inl _ \<Rightarrow> (Inl InvalidValue, b)
           | Inr (tag, consumed) \<Rightarrow> seqE (get_bytes consumed) (ret tag) b)))"

definition rarity_ordinal :: "item_rarity \<Rightarrow> i32" where
  "rarity_ordinal r = (case r of Common \<Rightarrow> 0 | Uncommon \<Rightarrow> 1 | Rare \<Rightarrow> 2 | Epic \<Rightarrow> 3)"

definition put_u32_varint :: "u32 \<Rightarrow> unit io" where
  "put_u32_varint n = bindE (ok_or (u32_to_i32 n) InvalidValue) put_varint"

definition get_u32_varint :: "u32 io" where
  "get_u32_varint = bindE get_varint (\<lambda>v. ok_or (i32_to_u32 v) InvalidValue)"

definition encode_value :: "u32 \<Rightarrow> component_value \<Rightarrow> unit io" where
  "encode_value cid v =
     (case v of
        CvMaxStackSize n \<Rightarrow> if cid = 1 then put_u32_varint n else throw InvalidValue
      | CvMaxDamage n \<Rightarrow> if cid = 2 then put_u32_varint n else throw InvalidValue
      | CvDamage n \<Rightarrow> if cid = 3 then put_u32_varint n else throw InvalidValue
      | CvUnbreakable \<Rightarrow> if cid = 4 then ret () else throw InvalidValue
      | CvMinimumAttackCharge f \<Rightarrow> if cid = 7 then put_f32 f else throw InvalidValue
      | CvRarity r \<Rightarrow> if cid = 12 then put_varint (rarity_ordinal r) else throw InvalidValue
      | CvByte b \<Rightarrow> if cid = 22 then put_i8 b else throw InvalidValue
      | CvShort s \<Rightarrow> if cid = 45 then put_i16 s else throw InvalidValue
      | CvLong l \<Rightarrow> if cid = 76 then put_i64 l else throw InvalidValue
      | CvFloat f \<Rightarrow> if cid = 50 then put_f32 f else throw InvalidValue
      | CvDouble d \<Rightarrow> if cid = 77 then put_f64 d else throw InvalidValue
      | CvString s \<Rightarrow> if cid = 10 then put_string s else throw InvalidValue
      | CvBool b \<Rightarrow> if cid = 21 then put_bool b else throw InvalidValue
      | CvNbt tag \<Rightarrow>
          if cid = 0 \<or> cid = 13 \<or> cid = 52 \<or> cid = 53 then write_nbt_compound tag else throw InvalidValue
      | CvText c \<Rightarrow> if cid = 6 then write_nbt_compound (to_nbt c) else throw InvalidValue
      | CvTextList l \<Rightarrow>
          if cid = 11 then put_counted_try InvalidValue (\<lambda>c. write_nbt_compound (to_nbt c)) l
          else throw InvalidValue)"

definition read_component :: "component io" where
  "read_component =
     bindE read_nbt_compound (\<lambda>tag.
       case from_nbt tag of Inl _ \<Rightarrow> throw InvalidValue | Inr c \<Rightarrow> ret c)"

definition decode_value :: "u32 \<Rightarrow> component_value io" where
  "decode_value cid =
     (if cid = 1 then bindE get_u32_varint (\<lambda>v. ret (CvMaxStackSize v))
      else if cid = 2 then bindE get_u32_varint (\<lambda>v. ret (CvMaxDamage v))
      else if cid = 3 then bindE get_u32_varint (\<lambda>v. ret (CvDamage v))
      else if cid = 4 then ret CvUnbreakable
      else if cid = 7 then bindE get_f32 (\<lambda>v. ret (CvMinimumAttackCharge v))
      else if cid = 12 then
        bindE get_varint (\<lambda>ord.
          if ord = 0 then ret (CvRarity Common) else if ord = 1 then ret (CvRarity Uncommon)
          else if ord = 2 then ret (CvRarity Rare) else if ord = 3 then ret (CvRarity Epic)
          else throw InvalidValue)
      else if cid = 0 \<or> cid = 13 \<or> cid = 52 \<or> cid = 53 then
        bindE read_nbt_compound (\<lambda>t. ret (CvNbt t))
      else if cid = 6 then bindE read_component (\<lambda>c. ret (CvText c))
      else if cid = 10 then bindE get_string (\<lambda>v. ret (CvString v))
      else if cid = 11 then
        bindE get_varint (\<lambda>count.
        bindE (ok_or (i32_to_usize count) InvalidValue) (\<lambda>count_usize.
          if count_usize > 256 then throw InvalidValue
          else bindE (get_n count_usize read_component) (\<lambda>l. ret (CvTextList l))))
      else if cid = 21 then bindE get_bool (\<lambda>v. ret (CvBool v))
      else if cid = 22 then bindE get_i8 (\<lambda>v. ret (CvByte v))
      else if cid = 45 then bindE get_i16 (\<lambda>v. ret (CvShort v))
      else if cid = 50 then bindE get_f32 (\<lambda>v. ret (CvFloat v))
      else if cid = 76 then bindE get_i64 (\<lambda>v. ret (CvLong v))
      else if cid = 77 then bindE get_f64 (\<lambda>v. ret (CvDouble v))
      else throw UnsupportedComponents)"

section \<open>The wire form of a stack\<close>

definition is_set :: "component_entry \<Rightarrow> bool" where
  "is_set e = (case e of CSet _ _ \<Rightarrow> True | CRemove _ \<Rightarrow> False)"

definition put_set_entry :: "component_entry \<Rightarrow> unit io" where
  "put_set_entry e =
     (case e of CSet cid v \<Rightarrow> seqE (put_u32_varint cid) (encode_value cid v) | CRemove _ \<Rightarrow> ret ())"

definition put_remove_entry :: "component_entry \<Rightarrow> unit io" where
  "put_remove_entry e = (case e of CSet _ _ \<Rightarrow> ret () | CRemove cid \<Rightarrow> put_u32_varint cid)"

definition encode_item_stack :: "item_stack \<Rightarrow> unit io" where
  "encode_item_stack item =
     (if is_air item then put_varint 0
      else
        seqE (put_varint (ucast (is_amount item)))
       (bindE (ok_or (u32_to_i32 (is_material item)) InvalidValue) (\<lambda>material.
        seqE (put_varint material)
       (let entries = ic_entries (is_components item);
            added = usize_as_i32 (length (filter is_set entries));
            removed = usize_as_i32 (length (filter (\<lambda>e. \<not> is_set e) entries)) in
        seqE (put_varint added)
       (seqE (put_varint removed)
       (seqE (put_each put_set_entry entries)
             (put_each put_remove_entry entries)))))))"

definition get_set_entry :: "component_entry io" where
  "get_set_entry = bindE get_u32_varint (\<lambda>cid. bindE (decode_value cid) (\<lambda>v. ret (CSet cid v)))"

definition get_remove_entry :: "component_entry io" where
  "get_remove_entry = bindE get_u32_varint (\<lambda>cid. ret (CRemove cid))"

text \<open>
  The test \<open>added + removed > 256\<close> is on \<open>i32\<close>: the sum wraps, as it does in a release build.
\<close>

definition decode_item_stack :: "item_stack io" where
  "decode_item_stack =
     bindE get_varint (\<lambda>count.
       if sint count \<le> 0 then ret AIR
       else
         bindE get_varint (\<lambda>material.
         bindE (ok_or (i32_to_u32 material) InvalidValue) (\<lambda>material.
         bindE get_varint (\<lambda>added.
         bindE get_varint (\<lambda>removed.
           if sint added < 0 \<or> sint removed < 0 \<or> sint (added + removed) > 256
           then throw InvalidValue
           else
             bindE (get_n (unat added) get_set_entry) (\<lambda>sets.
             bindE (get_n (unat removed) get_remove_entry) (\<lambda>removes.
               if sint count > 255 then throw InvalidValue
               else ret \<lparr>is_material = material, is_amount = ucast count,
                         is_components = \<lparr>ic_entries = sets @ removes\<rparr>\<rparr>)))))))"

section \<open>The patch is a keyed store\<close>

lemma get_set_entry [simp]:
  "get_entry (set_entry cid v es) k = (if k = cid then Some v else get_entry es k)"
  by (induction cid v es rule: set_entry.induct) auto

lemma is_set_of_simps [simp]:
  "is_set_of cid (CSet i v) \<longleftrightarrow> i = cid" "\<not> is_set_of cid (CRemove r)"
  by (simp_all add: is_set_of_def)

lemma get_entry_filter [simp]:
  "get_entry (filter (\<lambda>e. \<not> is_set_of cid e) es) k = (if k = cid then None else get_entry es k)"
proof (induction es)
  case (Cons e es)
  then show ?case by (cases e) auto
qed simp

lemma get_entry_snoc_remove [simp]: "get_entry (es @ [CRemove r]) k = get_entry es k"
  by (induction es k rule: get_entry.induct) auto

interpretation patch: keyed_store ic_get ic_set_at ic_remove "\<lambda>_. True"
  by unfold_locales (auto simp: ic_get_def ic_set_at_def ic_remove_def Let_def)

text \<open>The marker entries: after a removal the id is marked, and a later set leaves the mark.\<close>

lemma remove_marks: "CRemove cid \<in> set (ic_entries (ic_remove cid c))"
  by (auto simp: ic_remove_def Let_def list_ex_iff)

lemma set_entry_keeps_remove: "CRemove k \<in> set (set_entry cid v es) \<longleftrightarrow> CRemove k \<in> set es"
  by (induction cid v es rule: set_entry.induct) auto

text \<open>The patches the operations build hold each id at most once as a Set and once as a Remove.\<close>

definition set_ids :: "component_entry list \<Rightarrow> u32 list" where
  "set_ids es = concat (map (\<lambda>e. case e of CSet i _ \<Rightarrow> [i] | CRemove _ \<Rightarrow> []) es)"

definition remove_ids :: "component_entry list \<Rightarrow> u32 list" where
  "remove_ids es = concat (map (\<lambda>e. case e of CSet _ _ \<Rightarrow> [] | CRemove i \<Rightarrow> [i]) es)"

definition distinct_ids :: "item_components \<Rightarrow> bool" where
  "distinct_ids c \<longleftrightarrow> distinct (set_ids (ic_entries c)) \<and> distinct (remove_ids (ic_entries c))"

lemma ids_simps [simp]:
  "set_ids [] = []" "set_ids (CSet i v # es) = i # set_ids es" "set_ids (CRemove i # es) = set_ids es"
  "remove_ids [] = []" "remove_ids (CSet i v # es) = remove_ids es"
  "remove_ids (CRemove i # es) = i # remove_ids es"
  "set_ids (es @ es') = set_ids es @ set_ids es'"
  "remove_ids (es @ es') = remove_ids es @ remove_ids es'"
  by (simp_all add: set_ids_def remove_ids_def)

lemma set_ids_set_entry:
  "set_ids (set_entry cid v es) =
     (if cid \<in> set (set_ids es) then set_ids es else set_ids es @ [cid])"
  "remove_ids (set_entry cid v es) = remove_ids es"
  by (induction cid v es rule: set_entry.induct) auto

lemma ids_filter:
  "set_ids (filter (\<lambda>e. \<not> is_set_of cid e) es) = filter (\<lambda>i. i \<noteq> cid) (set_ids es)"
  "remove_ids (filter (\<lambda>e. \<not> is_set_of cid e) es) = remove_ids es"
  by (induction es) (auto simp: is_set_of_def split: component_entry.splits)

lemma mem_remove_ids: "CRemove cid \<in> set es \<longleftrightarrow> cid \<in> set (remove_ids es)"
  by (induction es) (auto simp: remove_ids_def split: component_entry.splits)

lemma distinct_ids_set_at: "distinct_ids c \<Longrightarrow> distinct_ids (ic_set_at cid v c)"
  by (simp add: distinct_ids_def ic_set_at_def set_ids_set_entry)

lemma distinct_ids_remove: "distinct_ids c \<Longrightarrow> distinct_ids (ic_remove cid c)"
  by (auto simp: distinct_ids_def ic_remove_def Let_def ids_filter list_ex_iff mem_remove_ids)

section \<open>Round trip of the value codecs\<close>

lemma carries_u32_varint [carries_rules]:
  "unat v < 2 ^ 31 \<Longrightarrow> carries (put_u32_varint v) get_u32_varint v"
  unfolding put_u32_varint_def get_u32_varint_def u32_to_i32_def i32_to_u32_nat
  by (simp, rule carries_tail [OF carries_varint]) (simp add: carries_ret)

lemma safe_u32_varint [safe_rules]: "cursor_safe get_u32_varint"
  unfolding get_u32_varint_def by (auto intro!: safe_rules)

lemma carries_nbt [carries_rules]:
  assumes "wf_tag (NbtCompound es)"
  shows "carries (write_nbt_compound (NbtCompound es)) read_nbt_compound (NbtCompound es)"
proof -
  obtain bs where bs: "encode_anonymous (NbtCompound es) = Inr bs"
    and dec: "\<And>rest. decode_anonymous (bs @ rest) = Inr (NbtCompound es, length bs)"
    using anonymous_roundtrip [OF assms] by auto
  have "writes (seqE (put_u8 0x0A) (put_bytes bs)) ([0x0A] @ bs)"
    unfolding put_u8_def put_bytes_def by (intro writes_bind writes_put_raw)
  then have w: "writes (write_nbt_compound (NbtCompound es)) ([0x0A] @ bs)"
    by (simp add: write_nbt_compound_def bs)
  have "read_nbt_compound (cursor pre (0x0A # bs @ post))
      = (Inr (NbtCompound es), cursor (pre @ 0x0A # bs) post)" for pre post
    using dec [of post]
    by (simp add: read_nbt_compound_def bindE_def cursor_def get_u8_def bb_peek_def get_bytes_def
        get_range_def ret_def Let_def)
  then have "reads read_nbt_compound ([0x0A] @ bs) (NbtCompound es)" by (simp add: reads_def)
  with w show ?thesis by (rule carriesI)
qed

lemma safe_nbt [safe_rules]: "cursor_safe read_nbt_compound"
  unfolding read_nbt_compound_def
proof (intro safe_bind safe_get_u8 safe_if safe_throw)
  show "cursor_safe (\<lambda>b. if bb_pos b > length (bb_buf b) then (Inl UnexpectedEof, b)
      else (case decode_anonymous (drop (bb_pos b) (bb_buf b)) of
          Inl (NbtErr NbtUnexpectedEof) \<Rightarrow> (Inl UnexpectedEof, b)
        | Inl _ \<Rightarrow> (Inl InvalidValue, b)
        | Inr (tag, consumed) \<Rightarrow> seqE (get_bytes consumed) (ret tag) b))"
    by (auto simp: cursor_safe_def bindE_def get_bytes_def get_range_def ret_def Let_def
        split: sum.splits nbt_failure.splits nbt_error.splits)
qed

lemma carries_component [carries_rules]:
  assumes "wf_component c"
  shows "carries (write_nbt_compound (to_nbt c)) read_component c"
proof -
  obtain es where es: "to_nbt c = NbtCompound es" using to_nbt_compound by blast
  have c: "from_nbt (NbtCompound es) = Inr c" using from_to_nbt [of c] by (simp add: es)
  have "carries (write_nbt_compound (NbtCompound es)) read_nbt_compound (NbtCompound es)"
    using wf_to_nbt [OF assms] unfolding es by (rule carries_nbt)
  then show ?thesis
    unfolding read_component_def es by (rule carries_tail) (simp add: c carries_ret)
qed

lemma safe_component [safe_rules]: "cursor_safe read_component"
  unfolding read_component_def
  by (rule safe_bind [OF safe_nbt]) (auto intro: safe_rules split: sum.split)

text \<open>A value with the id under which it is stored.\<close>

definition is_compound :: "nbt_tag \<Rightarrow> bool" where
  "is_compound t = (case t of NbtCompound _ \<Rightarrow> True | _ \<Rightarrow> False)"

definition wf_value :: "u32 \<Rightarrow> component_value \<Rightarrow> bool" where
  "wf_value cid v \<longleftrightarrow>
     (case v of
        CvMaxStackSize n \<Rightarrow> cid = 1 \<and> unat n < 2 ^ 31
      | CvMaxDamage n \<Rightarrow> cid = 2 \<and> unat n < 2 ^ 31
      | CvDamage n \<Rightarrow> cid = 3 \<and> unat n < 2 ^ 31
      | CvNbt t \<Rightarrow> (cid = 0 \<or> cid = 13 \<or> cid = 52 \<or> cid = 53) \<and> is_compound t \<and> wf_tag t
      | CvString s \<Rightarrow> cid = 10 \<and> wf_string s
      | CvText c \<Rightarrow> cid = 6 \<and> wf_component c
      | CvTextList l \<Rightarrow> cid = 11 \<and> length l \<le> 256 \<and> list_all wf_component l
      | _ \<Rightarrow> cid = component_id v)"

lemma carries_text_list:
  assumes "length l \<le> 256" and "list_all wf_component l"
  shows "carries (put_counted_try InvalidValue (\<lambda>c. write_nbt_compound (to_nbt c)) l)
     (decode_value 11) (CvTextList l)"
proof -
  have n: "length l < 2 ^ 31" using assms(1) by simp
  have "carries (put_each (\<lambda>c. write_nbt_compound (to_nbt c)) l) (get_n (length l) read_component) l"
    using assms(2) by (intro carries_each carries_component) (simp add: list_all_iff)
  then have "carries (put_each (\<lambda>c. write_nbt_compound (to_nbt c)) l)
      (bindE (get_n (length l) read_component) (\<lambda>l. ret (CvTextList l))) (CvTextList l)"
    by (rule carries_tail) (simp add: carries_ret)
  then have "carries (seqE (put_varint (word_of_nat (length l)))
      (put_each (\<lambda>c. write_nbt_compound (to_nbt c)) l)) (decode_value 11) (CvTextList l)"
    unfolding decode_value_def using n assms(1)
    by (simp, intro carries_bind [OF carries_varint]) simp
  then show ?thesis using n by (simp add: put_counted_try_def usize_to_i32_def)
qed

lemma carries_value [carries_rules]:
  assumes "wf_value cid v"
  shows "carries (encode_value cid v) (decode_value cid) v"
proof (cases v)
  case (CvTextList l)
  then show ?thesis using assms carries_text_list [of l] by (simp add: wf_value_def encode_value_def)
next
  case (CvRarity r)
  then show ?thesis using assms
    by (simp add: wf_value_def component_id_def encode_value_def decode_value_def)
       (rule carries_tail [OF carries_varint], cases r, simp_all add: rarity_ordinal_def carries_ret)
next
  case (CvNbt t)
  then obtain es where "t = NbtCompound es" using assms
    by (auto simp: wf_value_def is_compound_def split: nbt_tag.splits)
  with CvNbt assms show ?thesis
    by (auto simp: wf_value_def encode_value_def decode_value_def
        intro!: carries_tail [OF carries_nbt] carries_ret)
qed (use assms in \<open>auto simp: wf_value_def component_id_def encode_value_def decode_value_def carries_ret
      intro!: carries_tail [OF carries_u32_varint] carries_tail [OF carries_f32]
        carries_tail [OF carries_i8] carries_tail [OF carries_i16] carries_tail [OF carries_i64]
        carries_tail [OF carries_f64] carries_tail [OF carries_string] carries_tail [OF carries_bool]
        carries_tail [OF carries_component]\<close>)

lemma safe_value [safe_rules]: "cursor_safe (decode_value cid)"
  unfolding decode_value_def by (intro safe_rules)

section \<open>Round trip of a stack\<close>

text \<open>
  The wire holds the Set entries before the Remove entries, and nothing of an empty stack: what
  comes back is the stack in that normal form.
\<close>

definition norm_item :: "item_stack \<Rightarrow> item_stack" where
  "norm_item item =
     (if is_air item then AIR
      else item\<lparr>is_components := \<lparr>ic_entries =
        filter is_set (ic_entries (is_components item)) @
        filter (\<lambda>e. \<not> is_set e) (ic_entries (is_components item))\<rparr>\<rparr>)"

definition wf_entry_id :: "component_entry \<Rightarrow> bool" where
  "wf_entry_id e = (case e of CSet cid v \<Rightarrow> unat cid < 2 ^ 31 \<and> wf_value cid v | CRemove cid \<Rightarrow> unat cid < 2 ^ 31)"

definition wf_item :: "item_stack \<Rightarrow> bool" where
  "wf_item item \<longleftrightarrow> is_air item \<or>
     unat (is_material item) < 2 ^ 31 \<and> length (ic_entries (is_components item)) \<le> 256 \<and>
     list_all wf_entry_id (ic_entries (is_components item))"

lemma carries_filtered:
  assumes "\<And>e. e \<in> set es \<Longrightarrow> P e \<Longrightarrow> carries (w e) r e"
    and "\<And>e. e \<in> set es \<Longrightarrow> \<not> P e \<Longrightarrow> w e = ret ()"
  shows "carries (put_each w es) (get_n (length (filter P es)) r) (filter P es)"
  using assms
proof (induction es)
  case Nil
  show ?case by (simp add: carries_ret)
next
  case (Cons e es)
  then have ih: "carries (put_each w es) (get_n (length (filter P es)) r) (filter P es)" by simp
  show ?case
  proof (cases "P e")
    case True
    have "carries (put_each w es) (bindE (get_n (length (filter P es)) r) (\<lambda>vs. ret (e # vs)))
        (e # filter P es)"
      using ih by (rule carries_tail) (simp add: carries_ret)
    with True Cons.prems(1) [of e] show ?thesis by (simp add: carries_bind)
  next
    case False
    with ih Cons.prems(2) [of e] show ?thesis by simp
  qed
qed

lemma carries_set_entries:
  "list_all wf_entry_id es \<Longrightarrow>
   carries (put_each put_set_entry es) (get_n (length (filter is_set es)) get_set_entry) (filter is_set es)"
proof (rule carries_filtered)
  fix e
  assume "list_all wf_entry_id es" "e \<in> set es" "is_set e"
  then obtain cid v where "e = CSet cid v" "unat cid < 2 ^ 31" "wf_value cid v"
    by (auto simp: list_all_iff wf_entry_id_def is_set_def split: component_entry.splits)
  then show "carries (put_set_entry e) get_set_entry e"
    unfolding get_set_entry_def
    by (simp add: put_set_entry_def)
       (intro carries_bind [OF carries_u32_varint] carries_tail [OF carries_value] carries_ret, simp_all)
qed (simp add: is_set_def put_set_entry_def split: component_entry.splits)

lemma carries_remove_entries:
  "list_all wf_entry_id es \<Longrightarrow>
   carries (put_each put_remove_entry es) (get_n (length (filter (\<lambda>e. \<not> is_set e) es)) get_remove_entry)
     (filter (\<lambda>e. \<not> is_set e) es)"
proof (rule carries_filtered)
  fix e
  assume "list_all wf_entry_id es" "e \<in> set es" "\<not> is_set e"
  then obtain cid where "e = CRemove cid" "unat cid < 2 ^ 31"
    by (auto simp: list_all_iff wf_entry_id_def is_set_def split: component_entry.splits)
  then show "carries (put_remove_entry e) get_remove_entry e"
    unfolding get_remove_entry_def
    by (simp add: put_remove_entry_def)
       (intro carries_tail [OF carries_u32_varint] carries_ret, simp_all)
qed (simp add: is_set_def put_remove_entry_def split: component_entry.splits)

lemma sint_small: "n < 2 ^ 31 \<Longrightarrow> sint (word_of_nat n :: i32) = int n"
  by (simp add: signed_of_nat signed_take_bit_int_eq_self_iff)

lemma unat_small: "n < 2 ^ 31 \<Longrightarrow> unat (word_of_nat n :: i32) = n"
  by (simp add: unat_of_nat take_bit_nat_eq_self_iff)

lemma amount_word:
  fixes a :: u8
  shows "sint (ucast a :: i32) = int (unat a)" "ucast (ucast a :: i32) = a"
proof -
  have "unat a < 2 ^ 31" using unat_less_exp [of a] by simp
  moreover have "(ucast a :: i32) = word_of_nat (unat a)" by simp
  ultimately show "sint (ucast a :: i32) = int (unat a)" by (metis sint_small)
  show "ucast (ucast a :: i32) = a" by (rule bit_word_eqI) (auto simp: bit_simps)
qed

lemma carries_item [carries_rules]:
  assumes "wf_item item" and "norm_item item = item'"
  shows "carries (encode_item_stack item) decode_item_stack item'"
proof (cases "is_air item")
  case True
  then show ?thesis
    using assms(2) unfolding encode_item_stack_def decode_item_stack_def
    by (simp add: norm_item_def) (rule carries_tail [OF carries_varint], simp add: carries_ret)
next
  case False
  define es where "es = ic_entries (is_components item)"
  define sets where "sets = filter is_set es"
  define rems where "rems = filter (\<lambda>e. \<not> is_set e) es"
  have wf: "unat (is_material item) < 2 ^ 31" "list_all wf_entry_id es" "length es \<le> 256"
    using assms(1) False by (simp_all add: wf_item_def es_def)
  have n: "length sets + length rems \<le> 256"
    using wf(3) sum_length_filter_compl [of is_set es] by (simp add: sets_def rems_def)
  have a: "0 < unat (is_amount item)" "unat (is_amount item) < 256"
    using False unat_less_exp [of "is_amount item"] by (simp_all add: is_air_def unat_gt_0)
  have item': "item' = \<lparr>is_material = is_material item, is_amount = is_amount item,
      is_components = \<lparr>ic_entries = sets @ rems\<rparr>\<rparr>"
    using False assms(2) by (cases item) (auto simp: norm_item_def sets_def rems_def es_def)
  have "carries (put_each put_remove_entry es)
     (bindE (get_n (length rems) get_remove_entry) (\<lambda>removes.
       ret \<lparr>is_material = is_material item, is_amount = is_amount item,
            is_components = \<lparr>ic_entries = sets @ removes\<rparr>\<rparr>)) item'"
    unfolding rems_def
    by (rule carries_tail [OF carries_remove_entries [OF wf(2)]])
       (simp add: carries_ret item' rems_def)
  then have body: "carries (seqE (put_each put_set_entry es) (put_each put_remove_entry es))
     (bindE (get_n (length sets) get_set_entry) (\<lambda>sets. bindE (get_n (length rems) get_remove_entry)
       (\<lambda>removes. ret \<lparr>is_material = is_material item, is_amount = is_amount item,
            is_components = \<lparr>ic_entries = sets @ removes\<rparr>\<rparr>))) item'"
    unfolding sets_def by (intro carries_bind [OF carries_set_entries [OF wf(2)]]) (simp add: sets_def)
  have sum: "sint (word_of_nat (length sets) + word_of_nat (length rems) :: i32)
      = int (length sets + length rems)"
    using sint_small [of "length sets + length rems"] n by simp
  let ?c = "ucast (is_amount item) :: i32"
  have count: "\<not> sint ?c \<le> 0" "\<not> 255 < sint ?c"
    using a by (simp_all only: amount_word)
  have "carries (seqE (put_varint (word_of_nat (length sets))) (seqE (put_varint (word_of_nat (length rems)))
      (seqE (put_each put_set_entry es) (put_each put_remove_entry es))))
    (bindE get_varint (\<lambda>added. bindE get_varint (\<lambda>removed.
      if sint added < 0 \<or> sint removed < 0 \<or> sint (added + removed) > 256 then throw InvalidValue
      else bindE (get_n (unat added) get_set_entry) (\<lambda>sets.
        bindE (get_n (unat removed) get_remove_entry) (\<lambda>removes.
        if sint ?c > 255 then throw InvalidValue
        else ret \<lparr>is_material = is_material item, is_amount = ucast ?c,
             is_components = \<lparr>ic_entries = sets @ removes\<rparr>\<rparr>))))) item'"
    by (rule carries_bind [OF carries_varint], rule carries_bind [OF carries_varint])
       (use n sum count(2) body in \<open>simp add: sint_small unat_small amount_word(2)\<close>)
  note patch = this
  have "encode_item_stack item = seqE (put_varint ?c) (seqE (put_varint (is_material item))
      (seqE (put_varint (word_of_nat (length sets))) (seqE (put_varint (word_of_nat (length rems)))
        (seqE (put_each put_set_entry es) (put_each put_remove_entry es)))))"
    using False wf(1)
    by (simp add: encode_item_stack_def u32_to_i32_def usize_as_i32_def Let_def sets_def rems_def es_def)
  moreover have "carries \<dots> decode_item_stack item'"
    unfolding decode_item_stack_def
    by (rule carries_bind [OF carries_varint], simp only: count(1) if_False,
        rule carries_bind [OF carries_varint], simp only: i32_to_u32_nat wf(1) if_True ok_or_simps bindE_ret,
        rule patch)
  ultimately show ?thesis by simp
qed

lemma safe_item [safe_rules]: "cursor_safe decode_item_stack"
  unfolding decode_item_stack_def get_set_entry_def get_remove_entry_def
  by (intro safe_rules)

section \<open>The bound on the patch size\<close>

text \<open>
  The decoder refuses a patch of more than 256 entries by the sum of two \<open>i32\<close> counts. For
  counts whose sum stays below \<open>2 ^ 31\<close> this is the intended bound; two large counts wrap to
  a negative sum and pass.
\<close>

lemma patch_sum_exact:
  assumes "unat a + unat b < 2 ^ 31"
  shows "sint (a + b :: i32) = int (unat a + unat b)"
proof -
  have "a + b = word_of_nat (unat a + unat b)" by simp
  then show ?thesis by (metis assms sint_small)
qed

lemma patch_sum_wraps: "sint (0x7FFFFFFF + 0x7FFFFFFF :: i32) = - 2"
  by (simp add: sint_i32)

end
