(* ===== verification/Packets_Login.thy ===== *)
theory Packets_Login
  imports Item_Stack
begin

text \<open>
  The packets of the handshake, status, login and configuration phases
  (\<open>protocol/packets/handshake.rs\<close>, \<open>status.rs\<close>, \<open>login.rs\<close>, \<open>configuration.rs\<close>). Every packet has its
  record, its id, its decoder and encoder, the predicate of the values the wire can carry, and
  the interpretation of the packet contract on them.
\<close>

section \<open>Values the wire can carry\<close>

definition wf_uuid :: "uuid \<Rightarrow> bool" where
  "wf_uuid u \<longleftrightarrow> length u = 16"

definition wf_bytes :: "u8 list \<Rightarrow> bool" where
  "wf_bytes bs \<longleftrightarrow> length bs < 2 ^ 31"

definition wf_array :: "('a \<Rightarrow> bool) \<Rightarrow> 'a list \<Rightarrow> bool" where
  "wf_array ok vs \<longleftrightarrow> length vs < 2 ^ 31 \<and> list_all ok vs"

definition normal_item :: "item_stack \<Rightarrow> bool" where
  "normal_item i \<longleftrightarrow> wf_item i \<and> norm_item i = i"

lemmas packet_wf = wf_uuid_def wf_bytes_def wf_array_def normal_item_def list_all_iff

section \<open>Handshake\<close>

record intention =
  in_protocol_version :: i32
  in_server_address :: rstring
  in_port :: u16
  in_next_state :: i32
  in_forwarding :: "u8 list option"

definition intention_id :: i32 where "intention_id = 0x00"

text \<open>The forwarding blob is read only if bytes are left in the frame.\<close>

definition get_forwarding :: "u8 list option io" where
  "get_forwarding = (\<lambda>b.
     if remaining b > 0 then
       bindE get_varint (\<lambda>marker.
         if marker = 1 then bindE (get_blob UnexpectedEof) (\<lambda>blob. ret (Some blob)) else ret None) b
     else ret None b)"

definition put_forwarding :: "u8 list option \<Rightarrow> unit io" where
  "put_forwarding x =
     (case x of Some blob \<Rightarrow> seqE (put_varint 1) (put_blob blob) | None \<Rightarrow> ret ())"

definition intention_decode :: "intention io" where
  "intention_decode =
     bindE get_varint (\<lambda>protocol_version.
     bindE get_string (\<lambda>server_address.
     bindE get_u16 (\<lambda>port.
     bindE get_varint (\<lambda>next_state.
     bindE get_forwarding (\<lambda>forwarding.
     ret \<lparr>in_protocol_version = protocol_version, in_server_address = server_address,
          in_port = port, in_next_state = next_state, in_forwarding = forwarding\<rparr>)))))"

definition intention_encode :: "intention \<Rightarrow> unit io" where
  "intention_encode p =
    seqE (put_varint (in_protocol_version p))
    (seqE (put_string (in_server_address p))
    (seqE (put_u16 (in_port p))
    (seqE (put_varint (in_next_state p))
    (put_forwarding (in_forwarding p)))))"

definition wf_intention :: "intention \<Rightarrow> bool" where
  "wf_intention p \<longleftrightarrow> wf_string (in_server_address p) \<and> pred_option wf_bytes (in_forwarding p)"

lemma ends_forwarding:
  assumes "pred_option wf_bytes x"
  shows "ends (put_forwarding x) get_forwarding x"
proof (cases x)
  case None
  then show ?thesis
    using writes_ret by (auto simp: ends_def put_forwarding_def get_forwarding_def cursor_def
        remaining_def ret_def)
next
  case (Some blob)
  let ?r = "bindE get_varint (\<lambda>marker. if marker = 1
     then bindE (get_blob UnexpectedEof) (\<lambda>blob. ret (Some blob)) else ret None)"
  have "carries (put_blob blob) (get_blob UnexpectedEof) blob"
    using assms Some by (intro carries_blob) (simp add: wf_bytes_def)
  then obtain bs' where bs': "writes (put_blob blob) bs'" "reads (get_blob UnexpectedEof) bs' blob"
    by (auto simp: carries_def)
  define bs where "bs = varint_bytes (1 :: i32) @ bs'"
  have w: "writes (put_forwarding x) bs"
    using writes_bind [OF writes_put_varint bs'(1), of 1] by (simp add: Some put_forwarding_def bs_def)
  have "reads (bindE (get_blob UnexpectedEof) (\<lambda>blob. ret (Some blob))) (bs' @ []) (Some blob)"
    by (rule reads_bind [OF bs'(2)]) (rule reads_ret)
  then have "reads ?r bs (Some blob)"
    unfolding bs_def by (intro reads_bind [OF reads_get_varint]) simp
  then have "?r (cursor pre bs) = (Inr (Some blob), cursor (pre @ bs) [])" for pre
    unfolding reads_def by (metis append_Nil2)
  moreover have "remaining (cursor pre bs) > 0" for pre
    by (simp add: remaining_def cursor_def bs_def)
  ultimately have "fst (get_forwarding (cursor pre bs)) = Inr (Some blob)" for pre
    by (simp add: get_forwarding_def)
  with w Some show ?thesis by (auto simp: ends_def)
qed

lemma safe_forwarding [safe_rules]: "cursor_safe get_forwarding"
  unfolding get_forwarding_def by (intro safe_rules)

lemma intention_body: "wf_intention p \<Longrightarrow> ends (intention_encode p) intention_decode p"
  by (cases p)
     (auto simp: intention_encode_def intention_decode_def wf_intention_def
       intro!: ends_bind ends_last [OF ends_forwarding] carries_rules)

interpretation intention: body_codec intention_encode intention_decode wf_intention
  by (unfold_locales, rule intention_body, assumption, unfold intention_decode_def) (intro safe_rules)

section \<open>Status\<close>

datatype status_request = StatusRequest

lemma status_request_only [simp]: "StatusRequest = p"
  by (cases p) simp

definition status_request_id :: i32 where "status_request_id = 0x00"

definition status_request_decode :: "status_request io" where
  "status_request_decode =
     ret StatusRequest"

definition status_request_encode :: "status_request \<Rightarrow> unit io" where
  "status_request_encode p =
    put_end"

definition wf_status_request :: "status_request \<Rightarrow> bool" where
  "wf_status_request p \<longleftrightarrow> True"

interpretation status_request: packet_codec status_request_encode status_request_decode wf_status_request
  by unfold_locales
     (auto simp: status_request_encode_def status_request_decode_def wf_status_request_def packet_wf intro!: carries_rules safe_rules)

record ping =
  pg_payload :: i64

definition ping_id :: i32 where "ping_id = 0x01"

definition ping_decode :: "ping io" where
  "ping_decode =
     bindE get_i64 (\<lambda>payload.
     ret \<lparr>pg_payload = payload\<rparr>)"

definition ping_encode :: "ping \<Rightarrow> unit io" where
  "ping_encode p =
    seqE (put_i64 (pg_payload p)) put_end"

definition wf_ping :: "ping \<Rightarrow> bool" where
  "wf_ping p \<longleftrightarrow> True"

interpretation ping: packet_codec ping_encode ping_decode wf_ping
  by unfold_locales
     (auto simp: ping_encode_def ping_decode_def wf_ping_def packet_wf intro!: carries_rules safe_rules)

record status_response =
  sr_json :: rstring

definition status_response_id :: i32 where "status_response_id = 0x00"

definition status_response_decode :: "status_response io" where
  "status_response_decode =
     bindE get_string (\<lambda>json.
     ret \<lparr>sr_json = json\<rparr>)"

definition status_response_encode :: "status_response \<Rightarrow> unit io" where
  "status_response_encode p =
    seqE (put_string (sr_json p)) put_end"

definition wf_status_response :: "status_response \<Rightarrow> bool" where
  "wf_status_response p \<longleftrightarrow> wf_string (sr_json p)"

interpretation status_response: packet_codec status_response_encode status_response_decode wf_status_response
  by unfold_locales
     (auto simp: status_response_encode_def status_response_decode_def wf_status_response_def packet_wf intro!: carries_rules safe_rules)

record ping_response =
  pgr_payload :: i64

definition ping_response_id :: i32 where "ping_response_id = 0x01"

definition ping_response_decode :: "ping_response io" where
  "ping_response_decode =
     bindE get_i64 (\<lambda>payload.
     ret \<lparr>pgr_payload = payload\<rparr>)"

definition ping_response_encode :: "ping_response \<Rightarrow> unit io" where
  "ping_response_encode p =
    seqE (put_i64 (pgr_payload p)) put_end"

definition wf_ping_response :: "ping_response \<Rightarrow> bool" where
  "wf_ping_response p \<longleftrightarrow> True"

interpretation ping_response: packet_codec ping_response_encode ping_response_decode wf_ping_response
  by unfold_locales
     (auto simp: ping_response_encode_def ping_response_decode_def wf_ping_response_def packet_wf intro!: carries_rules safe_rules)

section \<open>Login\<close>

record hello =
  hello_name :: rstring
  hello_uuid :: "uuid option"

definition hello_id :: i32 where "hello_id = 0x00"

definition hello_decode :: "hello io" where
  "hello_decode =
     bindE get_string (\<lambda>name.
     bindE (get_opt get_uuid) (\<lambda>uuid.
     ret \<lparr>hello_name = name, hello_uuid = uuid\<rparr>))"

definition hello_encode :: "hello \<Rightarrow> unit io" where
  "hello_encode p =
    seqE (put_string (hello_name p))
    (seqE (put_opt put_uuid (hello_uuid p)) put_end)"

definition wf_hello :: "hello \<Rightarrow> bool" where
  "wf_hello p \<longleftrightarrow> wf_string (hello_name p) \<and> pred_option wf_uuid (hello_uuid p)"

interpretation hello: packet_codec hello_encode hello_decode wf_hello
  by unfold_locales
     (auto simp: hello_encode_def hello_decode_def wf_hello_def packet_wf intro!: carries_rules safe_rules)

record login_disconnect =
  ld_reason :: rstring

definition login_disconnect_id :: i32 where "login_disconnect_id = 0x00"

definition login_disconnect_decode :: "login_disconnect io" where
  "login_disconnect_decode =
     bindE get_string (\<lambda>reason.
     ret \<lparr>ld_reason = reason\<rparr>)"

definition login_disconnect_encode :: "login_disconnect \<Rightarrow> unit io" where
  "login_disconnect_encode p =
    seqE (put_string (ld_reason p)) put_end"

definition wf_login_disconnect :: "login_disconnect \<Rightarrow> bool" where
  "wf_login_disconnect p \<longleftrightarrow> wf_string (ld_reason p)"

interpretation login_disconnect: packet_codec login_disconnect_encode login_disconnect_decode wf_login_disconnect
  by unfold_locales
     (auto simp: login_disconnect_encode_def login_disconnect_decode_def wf_login_disconnect_def packet_wf intro!: carries_rules safe_rules)

record property =
  prop_name :: rstring
  prop_value :: rstring
  prop_signature :: "rstring option"

definition get_property :: "property io" where
  "get_property =
     bindE get_string (\<lambda>name.
     bindE get_string (\<lambda>val.
     bindE (get_opt get_string) (\<lambda>signature.
     ret \<lparr>prop_name = name, prop_value = val, prop_signature = signature\<rparr>)))"

definition put_property :: "property \<Rightarrow> unit io" where
  "put_property p =
    seqE (put_string (prop_name p))
    (seqE (put_string (prop_value p))
    (seqE (put_opt put_string (prop_signature p)) put_end))"

definition wf_property :: "property \<Rightarrow> bool" where
  "wf_property p \<longleftrightarrow> wf_string (prop_name p) \<and> wf_string (prop_value p) \<and>
     pred_option wf_string (prop_signature p)"

lemma carries_property [carries_rules]: "wf_property p \<Longrightarrow> carries (put_property p) get_property p"
  unfolding put_property_def get_property_def wf_property_def
  by (auto intro!: carries_rules)

lemma safe_property [safe_rules]: "cursor_safe get_property"
  unfolding get_property_def by (intro safe_rules)

record login_success =
  ls_uuid :: uuid
  ls_username :: rstring
  ls_properties :: "property list"

definition login_success_id :: i32 where "login_success_id = 0x02"

definition login_success_decode :: "login_success io" where
  "login_success_decode =
     bindE get_uuid (\<lambda>uuid.
     bindE get_string (\<lambda>username.
     bindE (get_counted UnexpectedEof get_property) (\<lambda>properties.
     ret \<lparr>ls_uuid = uuid, ls_username = username, ls_properties = properties\<rparr>)))"

definition login_success_encode :: "login_success \<Rightarrow> unit io" where
  "login_success_encode p =
    seqE (put_uuid (ls_uuid p))
    (seqE (put_string (ls_username p))
    (seqE (put_counted put_property (ls_properties p)) put_end))"

definition wf_login_success :: "login_success \<Rightarrow> bool" where
  "wf_login_success p \<longleftrightarrow> wf_uuid (ls_uuid p) \<and> wf_string (ls_username p) \<and>
     wf_array wf_property (ls_properties p)"

interpretation login_success: packet_codec login_success_encode login_success_decode wf_login_success
  by unfold_locales
     (auto simp: login_success_encode_def login_success_decode_def wf_login_success_def packet_wf intro!: carries_rules safe_rules)

record login_compression =
  lc_threshold :: i32

definition login_compression_id :: i32 where "login_compression_id = 0x03"

definition login_compression_decode :: "login_compression io" where
  "login_compression_decode =
     bindE get_varint (\<lambda>threshold.
     ret \<lparr>lc_threshold = threshold\<rparr>)"

definition login_compression_encode :: "login_compression \<Rightarrow> unit io" where
  "login_compression_encode p =
    seqE (put_varint (lc_threshold p)) put_end"

definition wf_login_compression :: "login_compression \<Rightarrow> bool" where
  "wf_login_compression p \<longleftrightarrow> True"

interpretation login_compression: packet_codec login_compression_encode login_compression_decode wf_login_compression
  by unfold_locales
     (auto simp: login_compression_encode_def login_compression_decode_def wf_login_compression_def packet_wf intro!: carries_rules safe_rules)

record login_challenge =
  lch_shared_secret :: "u8 list"
  lch_verify_token :: "u8 list"

definition login_challenge_id :: i32 where "login_challenge_id = 0x01"

definition login_challenge_decode :: "login_challenge io" where
  "login_challenge_decode =
     bindE (get_blob UnexpectedEof) (\<lambda>shared_secret.
     bindE (get_blob UnexpectedEof) (\<lambda>verify_token.
     ret \<lparr>lch_shared_secret = shared_secret, lch_verify_token = verify_token\<rparr>))"

definition login_challenge_encode :: "login_challenge \<Rightarrow> unit io" where
  "login_challenge_encode p =
    seqE (put_blob (lch_shared_secret p))
    (seqE (put_blob (lch_verify_token p)) put_end)"

definition wf_login_challenge :: "login_challenge \<Rightarrow> bool" where
  "wf_login_challenge p \<longleftrightarrow> wf_bytes (lch_shared_secret p) \<and> wf_bytes (lch_verify_token p)"

interpretation login_challenge: packet_codec login_challenge_encode login_challenge_decode wf_login_challenge
  by unfold_locales
     (auto simp: login_challenge_encode_def login_challenge_decode_def wf_login_challenge_def packet_wf intro!: carries_rules safe_rules)

record login_hello_response =
  lhr_public_key :: "u8 list"
  lhr_verify_token :: "u8 list"

definition login_hello_response_id :: i32 where "login_hello_response_id = 0x01"

definition login_hello_response_decode :: "login_hello_response io" where
  "login_hello_response_decode =
     bindE (get_blob UnexpectedEof) (\<lambda>public_key.
     bindE (get_blob UnexpectedEof) (\<lambda>verify_token.
     ret \<lparr>lhr_public_key = public_key, lhr_verify_token = verify_token\<rparr>))"

definition login_hello_response_encode :: "login_hello_response \<Rightarrow> unit io" where
  "login_hello_response_encode p =
    seqE (put_blob (lhr_public_key p))
    (seqE (put_blob (lhr_verify_token p)) put_end)"

definition wf_login_hello_response :: "login_hello_response \<Rightarrow> bool" where
  "wf_login_hello_response p \<longleftrightarrow> wf_bytes (lhr_public_key p) \<and> wf_bytes (lhr_verify_token p)"

interpretation login_hello_response: packet_codec login_hello_response_encode login_hello_response_decode wf_login_hello_response
  by unfold_locales
     (auto simp: login_hello_response_encode_def login_hello_response_decode_def wf_login_hello_response_def packet_wf intro!: carries_rules safe_rules)

section \<open>Configuration\<close>

text \<open>A registry entry. The reader rejects every entry that carries data.\<close>

record registry_entry =
  re_key :: rstring
  re_value :: "u8 list option"

definition read_opt_nbt :: "u8 list option io" where
  "read_opt_nbt = bindE get_bool (\<lambda>h. if \<not> h then ret None else throw UnexpectedEof)"

definition write_opt_nbt :: "u8 list option \<Rightarrow> unit io" where
  "write_opt_nbt x =
     (case x of Some bytes \<Rightarrow> seqE (put_bool True) (put_bytes bytes) | None \<Rightarrow> put_bool False)"

definition get_registry_entry :: "registry_entry io" where
  "get_registry_entry =
     bindE get_string (\<lambda>key. bindE read_opt_nbt (\<lambda>val. ret \<lparr>re_key = key, re_value = val\<rparr>))"

definition put_registry_entry :: "registry_entry \<Rightarrow> unit io" where
  "put_registry_entry e = seqE (put_string (re_key e)) (seqE (write_opt_nbt (re_value e)) put_end)"

definition wf_registry_entry :: "registry_entry \<Rightarrow> bool" where
  "wf_registry_entry e \<longleftrightarrow> wf_string (re_key e) \<and> re_value e = None"

lemma carries_opt_nbt [carries_rules]: "x = None \<Longrightarrow> carries (write_opt_nbt x) read_opt_nbt x"
  unfolding write_opt_nbt_def read_opt_nbt_def
  by (simp, rule carries_tail [OF carries_bool]) (simp add: carries_ret)

lemma safe_opt_nbt [safe_rules]: "cursor_safe read_opt_nbt"
  unfolding read_opt_nbt_def by (intro safe_rules)

lemma carries_registry_entry [carries_rules]:
  "wf_registry_entry e \<Longrightarrow> carries (put_registry_entry e) get_registry_entry e"
  unfolding put_registry_entry_def get_registry_entry_def wf_registry_entry_def
  by (auto intro!: carries_rules)

lemma safe_registry_entry [safe_rules]: "cursor_safe get_registry_entry"
  unfolding get_registry_entry_def by (intro safe_rules)

record registry_data =
  rd_registry_id :: rstring
  rd_entries :: "registry_entry list"

definition registry_data_id :: i32 where "registry_data_id = 0x07"

definition registry_data_decode :: "registry_data io" where
  "registry_data_decode =
     bindE get_string (\<lambda>registry_id.
     bindE (get_counted UnexpectedEof get_registry_entry) (\<lambda>entries.
     ret \<lparr>rd_registry_id = registry_id, rd_entries = entries\<rparr>))"

definition registry_data_encode :: "registry_data \<Rightarrow> unit io" where
  "registry_data_encode p =
    seqE (put_string (rd_registry_id p))
    (seqE (put_counted_try UnexpectedEof put_registry_entry (rd_entries p)) put_end)"

definition wf_registry_data :: "registry_data \<Rightarrow> bool" where
  "wf_registry_data p \<longleftrightarrow> wf_string (rd_registry_id p) \<and> wf_array wf_registry_entry (rd_entries p)"

interpretation registry_data: packet_codec registry_data_encode registry_data_decode wf_registry_data
  by unfold_locales
     (auto simp: registry_data_encode_def registry_data_decode_def wf_registry_data_def packet_wf intro!: carries_rules safe_rules)

record tag_entry =
  te_identifier :: rstring
  te_entries :: "i32 list"

record tag_registry =
  tr_registry :: rstring
  tr_tags :: "tag_entry list"

definition get_tag_entry :: "tag_entry io" where
  "get_tag_entry =
     bindE get_string (\<lambda>identifier.
     bindE (get_varint_array get_varint) (\<lambda>entries.
     ret \<lparr>te_identifier = identifier, te_entries = entries\<rparr>))"

definition put_tag_entry :: "tag_entry \<Rightarrow> unit io" where
  "put_tag_entry t =
    seqE (put_string (te_identifier t)) (seqE (put_varint_array put_varint (te_entries t)) put_end)"

definition get_tag_registry :: "tag_registry io" where
  "get_tag_registry =
     bindE get_string (\<lambda>registry.
     bindE (get_varint_array get_tag_entry) (\<lambda>tags.
     ret \<lparr>tr_registry = registry, tr_tags = tags\<rparr>))"

definition put_tag_registry :: "tag_registry \<Rightarrow> unit io" where
  "put_tag_registry r =
    seqE (put_string (tr_registry r)) (seqE (put_varint_array put_tag_entry (tr_tags r)) put_end)"

definition wf_tag_entry :: "tag_entry \<Rightarrow> bool" where
  "wf_tag_entry t \<longleftrightarrow> wf_string (te_identifier t) \<and> length (te_entries t) < 2 ^ 31"

definition wf_tag_registry :: "tag_registry \<Rightarrow> bool" where
  "wf_tag_registry r \<longleftrightarrow> wf_string (tr_registry r) \<and> wf_array wf_tag_entry (tr_tags r)"

lemma carries_tag_entry [carries_rules]:
  "wf_tag_entry t \<Longrightarrow> carries (put_tag_entry t) get_tag_entry t"
  unfolding put_tag_entry_def get_tag_entry_def wf_tag_entry_def by (auto intro!: carries_rules)

lemma carries_tag_registry [carries_rules]:
  "wf_tag_registry r \<Longrightarrow> carries (put_tag_registry r) get_tag_registry r"
  unfolding put_tag_registry_def get_tag_registry_def wf_tag_registry_def
  by (auto simp: packet_wf intro!: carries_rules)

lemma safe_tag_registry [safe_rules]: "cursor_safe get_tag_registry"
  unfolding get_tag_registry_def get_tag_entry_def by (intro safe_rules)

record update_tags =
  ut_registries :: "tag_registry list"

definition update_tags_id :: i32 where "update_tags_id = 0x0d"

definition update_tags_decode :: "update_tags io" where
  "update_tags_decode =
     bindE (get_varint_array get_tag_registry) (\<lambda>registries. ret \<lparr>ut_registries = registries\<rparr>)"

definition update_tags_encode :: "update_tags \<Rightarrow> unit io" where
  "update_tags_encode p = seqE (put_varint_array put_tag_registry (ut_registries p)) put_end"

definition wf_update_tags :: "update_tags \<Rightarrow> bool" where
  "wf_update_tags p \<longleftrightarrow> wf_array wf_tag_registry (ut_registries p)"

interpretation update_tags: packet_codec update_tags_encode update_tags_decode wf_update_tags
  by unfold_locales
     (auto simp: update_tags_encode_def update_tags_decode_def wf_update_tags_def packet_wf intro!: carries_rules safe_rules)

record feature_flags =
  ff_flags :: "rstring list"

definition feature_flags_id :: i32 where "feature_flags_id = 0x0c"

definition feature_flags_decode :: "feature_flags io" where
  "feature_flags_decode =
     bindE (get_varint_array get_string) (\<lambda>flags.
     ret \<lparr>ff_flags = flags\<rparr>)"

definition feature_flags_encode :: "feature_flags \<Rightarrow> unit io" where
  "feature_flags_encode p =
    seqE (put_varint_array put_string (ff_flags p)) put_end"

definition wf_feature_flags :: "feature_flags \<Rightarrow> bool" where
  "wf_feature_flags p \<longleftrightarrow> wf_array wf_string (ff_flags p)"

interpretation feature_flags: packet_codec feature_flags_encode feature_flags_decode wf_feature_flags
  by unfold_locales
     (auto simp: feature_flags_encode_def feature_flags_decode_def wf_feature_flags_def packet_wf intro!: carries_rules safe_rules)

datatype client_information = ClientInformation

lemma client_information_only [simp]: "ClientInformation = p"
  by (cases p) simp

definition client_information_id :: i32 where "client_information_id = 0x00"

definition client_information_decode :: "client_information io" where
  "client_information_decode =
     ret ClientInformation"

definition client_information_encode :: "client_information \<Rightarrow> unit io" where
  "client_information_encode p =
    put_end"

definition wf_client_information :: "client_information \<Rightarrow> bool" where
  "wf_client_information p \<longleftrightarrow> True"

interpretation client_information: packet_codec client_information_encode client_information_decode wf_client_information
  by unfold_locales
     (auto simp: client_information_encode_def client_information_decode_def wf_client_information_def packet_wf intro!: carries_rules safe_rules)

record plugin_message =
  pm_channel :: rstring
  pm_data :: "u8 list"

definition plugin_message_id :: i32 where "plugin_message_id = 0x02"

definition plugin_message_decode :: "plugin_message io" where
  "plugin_message_decode =
     bindE get_string (\<lambda>channel.
     bindE (get_blob UnexpectedEof) (\<lambda>data.
     ret \<lparr>pm_channel = channel, pm_data = data\<rparr>))"

definition plugin_message_encode :: "plugin_message \<Rightarrow> unit io" where
  "plugin_message_encode p =
    seqE (put_string (pm_channel p))
    (seqE (put_blob (pm_data p)) put_end)"

definition wf_plugin_message :: "plugin_message \<Rightarrow> bool" where
  "wf_plugin_message p \<longleftrightarrow> wf_string (pm_channel p) \<and> wf_bytes (pm_data p)"

interpretation plugin_message: packet_codec plugin_message_encode plugin_message_decode wf_plugin_message
  by unfold_locales
     (auto simp: plugin_message_encode_def plugin_message_decode_def wf_plugin_message_def packet_wf intro!: carries_rules safe_rules)

datatype finish_configuration_c2s = FinishConfigurationC2S

lemma finish_configuration_c2s_only [simp]: "FinishConfigurationC2S = p"
  by (cases p) simp

definition finish_configuration_c2s_id :: i32 where "finish_configuration_c2s_id = 0x03"

definition finish_configuration_c2s_decode :: "finish_configuration_c2s io" where
  "finish_configuration_c2s_decode =
     ret FinishConfigurationC2S"

definition finish_configuration_c2s_encode :: "finish_configuration_c2s \<Rightarrow> unit io" where
  "finish_configuration_c2s_encode p =
    put_end"

definition wf_finish_configuration_c2s :: "finish_configuration_c2s \<Rightarrow> bool" where
  "wf_finish_configuration_c2s p \<longleftrightarrow> True"

interpretation finish_configuration_c2s: packet_codec finish_configuration_c2s_encode finish_configuration_c2s_decode wf_finish_configuration_c2s
  by unfold_locales
     (auto simp: finish_configuration_c2s_encode_def finish_configuration_c2s_decode_def wf_finish_configuration_c2s_def packet_wf intro!: carries_rules safe_rules)

datatype finish_configuration_s2c = FinishConfigurationS2C

lemma finish_configuration_s2c_only [simp]: "FinishConfigurationS2C = p"
  by (cases p) simp

definition finish_configuration_s2c_id :: i32 where "finish_configuration_s2c_id = 0x03"

definition finish_configuration_s2c_decode :: "finish_configuration_s2c io" where
  "finish_configuration_s2c_decode =
     ret FinishConfigurationS2C"

definition finish_configuration_s2c_encode :: "finish_configuration_s2c \<Rightarrow> unit io" where
  "finish_configuration_s2c_encode p =
    put_end"

definition wf_finish_configuration_s2c :: "finish_configuration_s2c \<Rightarrow> bool" where
  "wf_finish_configuration_s2c p \<longleftrightarrow> True"

interpretation finish_configuration_s2c: packet_codec finish_configuration_s2c_encode finish_configuration_s2c_decode wf_finish_configuration_s2c
  by unfold_locales
     (auto simp: finish_configuration_s2c_encode_def finish_configuration_s2c_decode_def wf_finish_configuration_s2c_def packet_wf intro!: carries_rules safe_rules)

record config_disconnect =
  cd_reason :: rstring

definition config_disconnect_id :: i32 where "config_disconnect_id = 0x02"

definition config_disconnect_decode :: "config_disconnect io" where
  "config_disconnect_decode =
     bindE get_string (\<lambda>reason.
     ret \<lparr>cd_reason = reason\<rparr>)"

definition config_disconnect_encode :: "config_disconnect \<Rightarrow> unit io" where
  "config_disconnect_encode p =
    seqE (put_string (cd_reason p)) put_end"

definition wf_config_disconnect :: "config_disconnect \<Rightarrow> bool" where
  "wf_config_disconnect p \<longleftrightarrow> wf_string (cd_reason p)"

interpretation config_disconnect: packet_codec config_disconnect_encode config_disconnect_decode wf_config_disconnect
  by unfold_locales
     (auto simp: config_disconnect_encode_def config_disconnect_decode_def wf_config_disconnect_def packet_wf intro!: carries_rules safe_rules)

end
