(* ===== verification/Channel.thy ===== *)
theory Channel
  imports Main
begin

text \<open>
  The bounded channels between the tasks of the network and the game, of the crate tokio, as its documentation
  describes them: messages wait in the order in which they were sent, up to a capacity; \<open>try_send\<close> fails when
  that many are waiting (its callers drop the error, and the message with it), \<open>send\<close> waits until there
  is room. The locale \<open>bounded_channel\<close> is what the senders rely on.
\<close>

section \<open>Sending\<close>

definition try_send :: "nat \<Rightarrow> 'm \<Rightarrow> 'm list \<Rightarrow> 'm list" where
  "try_send capacity msg channel = (if length channel < capacity then channel @ [msg] else channel)"

text \<open>\<open>None\<close>: the sender waits.\<close>

definition send_wait :: "nat \<Rightarrow> 'm \<Rightarrow> 'm list \<Rightarrow> 'm list option" where
  "send_wait capacity msg channel = (if length channel < capacity then Some (channel @ [msg]) else None)"

section \<open>The contract\<close>

locale bounded_channel =
  fixes send :: "'m \<Rightarrow> 's \<Rightarrow> 's"
    and pending :: "'s \<Rightarrow> 'm list"
    and room :: "'s \<Rightarrow> nat"
  assumes taken: "0 < room s \<Longrightarrow> pending (send m s) = pending s @ [m] \<and> room s = Suc (room (send m s))"
    and lost: "room s = 0 \<Longrightarrow> pending (send m s) = pending s \<and> room (send m s) = 0"
begin

text \<open>One message, and then others: what is taken of all of them.\<close>

lemma send_step: "pending (send m s) @ take (room (send m s)) ms = pending s @ take (room s) (m # ms)"
  using taken [of s m] lost [of s m] by (cases "room s") auto

text \<open>Of a burst the channel takes the messages it has room for, which are the first ones.\<close>

lemma send_burst: "pending (fold send ms s) = pending s @ take (room s) ms"
proof (induction ms arbitrary: s)
  case (Cons m ms)
  then show ?case using send_step [of m s ms] by simp
qed simp

lemma send_all: "length ms \<le> room s \<Longrightarrow> pending (fold send ms s) = pending s @ ms"
  by (simp add: send_burst)

end

interpretation fifo: bounded_channel "try_send capacity" "\<lambda>channel. channel" "\<lambda>channel. capacity - length channel"
  for capacity :: nat
  by unfold_locales (auto simp: try_send_def)

lemma try_send_bounded: "length channel \<le> capacity \<Longrightarrow> length (try_send capacity msg channel) \<le> capacity"
  by (simp add: try_send_def)

end
