(* ===== verification/Listener.thy ===== *)
theory Listener
  imports Framing Connection Packets_Login Channel "HOL-Library.Sublist"
begin

text \<open>
  The reader side of the network (\<open>network/listener.rs\<close>): the accept loop, the reassembly of
  frames from the byte stream, the connection states the listener keeps to tag the frames, and
  the read task of a connection. Sockets and the tokio runtime are outside the repository: a read is
  an argument (\<open>read_result\<close>). The frames go to the game side through a bounded channel
  (\<open>sh_inbound\<close>) with \<open>try_send\<close>, so a frame that finds it full is lost without a trace; the end of a
  connection is sent with \<open>send\<close>, which waits. The facts are about the reassembly: which frames are reported does not
  depend on how the stream was cut into reads, and the tags follow the protocol phases.
\<close>

section \<open>State\<close>

datatype raw_frame =
    Packet (rf_conn_id: u32) (rf_state: connection_state) (rf_packet_id: i32) (rf_payload: "u8 list")
  | Closed u32

datatype outbound_message = Frame "u8 list" | EnableCompression | Close

text \<open>
  What all connections share: the id counter, the registered outbound senders, the connection
  states, and the channel to the game side with its capacity. \<open>sh_offered\<close> is a history variable that no
  operation reads: every frame for which a send was tried, whether the channel took it or not.
  \<open>reader\<close> is the state of one read task.
\<close>

record shared =
  sh_next_id :: u32
  sh_outbound :: "u32 set"
  sh_states :: "u32 \<rightharpoonup> connection_state"
  sh_capacity :: nat
  sh_inbound :: "raw_frame list"
  sh_offered :: "raw_frame list"

record reader =
  rd_conn_id :: u32
  rd_compression :: bool
  rd_read_buf :: "u8 list"

datatype read_result = ReadOk "u8 list" | ReadErr

section \<open>Accepting\<close>

text \<open>The channel to the game is the one of \<open>empty_bridge\<close> (\<open>network/bridge.rs\<close>); the one to the write task
  of a connection is made when it is accepted.\<close>

definition INBOUND_CAPACITY :: nat where
  "INBOUND_CAPACITY = 1024"

definition OUTBOUND_CAPACITY :: nat where
  "OUTBOUND_CAPACITY = 256"

definition listener_start :: shared where
  "listener_start =
     \<lparr>sh_next_id = 1, sh_outbound = {}, sh_states = Map.empty, sh_capacity = INBOUND_CAPACITY, sh_inbound = [],
      sh_offered = []\<rparr>"

definition accept :: "shared \<Rightarrow> reader \<times> shared" where
  "accept sh =
     (let conn_id = sh_next_id sh in
      (\<lparr>rd_conn_id = conn_id, rd_compression = False, rd_read_buf = []\<rparr>,
       sh\<lparr>sh_next_id := conn_id + 1,
          sh_outbound := insert conn_id (sh_outbound sh),
          sh_states := (sh_states sh)(conn_id \<mapsto> Handshake)\<rparr>))"

text \<open>\<open>inbound_tx.try_send(frame)\<close>, with the result dropped.\<close>

definition offer :: "raw_frame \<Rightarrow> shared \<Rightarrow> shared" where
  "offer f sh =
     sh\<lparr>sh_offered := sh_offered sh @ [f], sh_inbound := try_send (sh_capacity sh) f (sh_inbound sh)\<rparr>"

section \<open>Frame length\<close>

text \<open>\<open>frame_length_loop n i result data pos\<close>: \<open>n\<close> iterations left of \<open>for i in 0..5\<close>.\<close>

fun frame_length_loop :: "nat \<Rightarrow> nat \<Rightarrow> i32 \<Rightarrow> u8 list \<Rightarrow> nat \<Rightarrow> (nat \<times> nat) option" where
  "frame_length_loop 0 i result data pos = None"
| "frame_length_loop (Suc n) i result data pos =
     (if pos \<ge> length data then None
      else let byte = data ! pos;
               pos' = pos + 1;
               result' = result OR push_bit (7 * i) (ucast (byte AND 0x7F))
           in if byte AND 0x80 = 0
              then (case i32_to_usize result' of None \<Rightarrow> None | Some len \<Rightarrow> Some (len, pos'))
              else frame_length_loop n (i + 1) result' data pos')"

definition try_parse_frame_length :: "u8 list \<Rightarrow> (nat \<times> nat) option" where
  "try_parse_frame_length data = frame_length_loop 5 0 0 data 0"

section \<open>Connection states and reports\<close>

definition next_state :: "connection_state \<Rightarrow> i32 \<Rightarrow> u8 list \<Rightarrow> connection_state" where
  "next_state state packet_id body =
     (case state of
        Handshake \<Rightarrow>
          if packet_id = 0x00 then
            (case fst (intention_decode (bb_new body)) of
               Inr intention \<Rightarrow>
                 if in_next_state intention = 1 then Status
                 else if in_next_state intention = 2 then Login
                 else state
             | Inl _ \<Rightarrow> state)
          else state
      | Login \<Rightarrow> if packet_id = 0x03 then Configuration else state
      | Configuration \<Rightarrow> if packet_id = 0x03 then Play else state
      | _ \<Rightarrow> state)"

definition update_state ::
  "(u32 \<rightharpoonup> connection_state) \<Rightarrow> u32 \<Rightarrow> connection_state \<Rightarrow> i32 \<Rightarrow> u8 list \<Rightarrow> (u32 \<rightharpoonup> connection_state)" where
  "update_state cs conn_id state packet_id body =
     (let next' = next_state state packet_id body
      in if next' \<noteq> state then cs(conn_id \<mapsto> next') else cs)"

definition state_of :: "(u32 \<rightharpoonup> connection_state) \<Rightarrow> u32 \<Rightarrow> connection_state" where
  "state_of cs conn_id = (case cs conn_id of Some s \<Rightarrow> s | None \<Rightarrow> Handshake)"

definition process_frame ::
  "u32 \<Rightarrow> u8 list \<Rightarrow> shared \<Rightarrow> u8 list \<Rightarrow> nat \<Rightarrow> shared \<times> u8 list" where
  "process_frame conn_id frame sh read_buf total_len =
     (let state = state_of (sh_states sh) conn_id in
      case get_varint (bb_new frame) of
        (Inl _, fb) \<Rightarrow> (sh, drop total_len read_buf)
      | (Inr packet_id, fb) \<Rightarrow>
          (let body = drop (bb_pos fb) (bb_buf fb);
               states = update_state (sh_states sh) conn_id state packet_id body
           in (offer (Packet conn_id state packet_id body) (sh\<lparr>sh_states := states\<rparr>),
               drop total_len read_buf)))"

section \<open>The read task\<close>

text \<open>
  One turn of \<open>while progress\<close>: whether a frame was taken, and the state it leaves. A frame
  that announces future than \<open>MAX_FRAME\<close> bytes clears the buffer and leaves the loop.
\<close>

definition frame_turn :: "'z inflater \<Rightarrow> 'z \<Rightarrow> shared \<times> reader \<Rightarrow> bool \<times> shared \<times> reader" where
  "frame_turn decompress d0 = (\<lambda>(sh, r).
     let read_buf = rd_read_buf r in
     case try_parse_frame_length read_buf of
       None \<Rightarrow> (False, sh, r)
     | Some (payload_len, header_len) \<Rightarrow>
         if payload_len > MAX_FRAME then (False, sh, r\<lparr>rd_read_buf := []\<rparr>)
         else let total_len = header_len + payload_len in
           if length read_buf \<ge> total_len then
             (let frame = take (total_len - header_len) (drop header_len read_buf);
                  decoded = (if rd_compression r then
                      (case fst (decode_frame_compressed decompress d0 frame 0) of
                         Inl _ \<Rightarrow> None | Inr p \<Rightarrow> Some p)
                    else Some frame)
              in case decoded of
                   Some payload \<Rightarrow>
                     (let (sh', buf') = process_frame (rd_conn_id r) payload sh read_buf total_len
                      in (True, sh', r\<lparr>rd_read_buf := buf'\<rparr>))
                 | None \<Rightarrow> (True, sh, r\<lparr>rd_read_buf := drop total_len read_buf\<rparr>))
           else (False, sh, r))"

lemma frame_length_loop_pos: "frame_length_loop n i result data pos = Some (len, pos') \<Longrightarrow> pos < pos'"
proof (induction n arbitrary: i result pos)
  case (Suc n)
  then show ?case by (fastforce simp: Let_def split: if_splits option.splits)
qed simp

lemma frame_turn_shrinks:
  "frame_turn decompress d0 (sh, r) = (True, sh', r') \<Longrightarrow>
   length (rd_read_buf r') < length (rd_read_buf r)"
  using frame_length_loop_pos [of 5 0 0 "rd_read_buf r" 0]
  by (auto simp: frame_turn_def try_parse_frame_length_def process_frame_def Let_def
      split: option.splits if_splits prod.splits sum.splits)

function drain_frames :: "'z inflater \<Rightarrow> 'z \<Rightarrow> shared \<times> reader \<Rightarrow> shared \<times> reader" where
  "drain_frames decompress d0 st =
     (case frame_turn decompress d0 st of
        (progress, st') \<Rightarrow> if progress then drain_frames decompress d0 st' else st')"
  by pat_completeness auto
termination
proof (relation "measure (\<lambda>(decompress, d0, st). length (rd_read_buf (snd st)))", goal_cases)
  case (2 decompress d0 st x y)
  then show ?case by (cases st; cases y) (auto dest: frame_turn_shrinks [OF sym])
qed simp

declare drain_frames.simps [simp del]

text \<open>The end of a connection is reported with \<open>send\<close>: \<open>None\<close> while it waits for room.\<close>

definition close_connection :: "shared \<times> reader \<Rightarrow> shared option" where
  "close_connection = (\<lambda>(sh, r).
     let conn_id = rd_conn_id r in
     case send_wait (sh_capacity sh) (Closed conn_id) (sh_inbound sh) of
       None \<Rightarrow> None
     | Some channel \<Rightarrow>
         Some (sh\<lparr>sh_offered := sh_offered sh @ [Closed conn_id],
            sh_inbound := channel,
            sh_outbound := sh_outbound sh - {conn_id},
            sh_states := (sh_states sh)(conn_id := None)\<rparr>))"

text \<open>
  The read loop over the reads so far. \<open>Inr\<close>: the task waits for its next read; \<open>Inl\<close>: the
  stream ended (\<open>Ok(0)\<close> or an error), and the connection has been closed or waits for room to say so.
\<close>

fun read_task :: "'z inflater \<Rightarrow> 'z \<Rightarrow> shared \<times> reader \<Rightarrow> read_result list \<Rightarrow> shared option + shared \<times> reader" where
  "read_task decompress d0 st [] = Inr (drain_frames decompress d0 st)"
| "read_task decompress d0 st (res # rs) =
     (let (sh, r) = drain_frames decompress d0 st in
      case res of
        ReadErr \<Rightarrow> Inl (close_connection (sh, r))
      | ReadOk tmp \<Rightarrow>
          if tmp = [] then Inl (close_connection (sh, r))
          else read_task decompress d0 (sh, r\<lparr>rd_read_buf := rd_read_buf r @ tmp\<rparr>) rs)"

text \<open>One message taken by the write task: what it writes, the compression flag of the reader,
  and whether the task goes on.\<close>

definition write_message :: "outbound_message \<Rightarrow> bool \<Rightarrow> u8 list \<times> bool \<times> bool" where
  "write_message msg compression =
     (case msg of
        Frame bytes \<Rightarrow> (bytes, compression, True)
      | EnableCompression \<Rightarrow> ([], True, True)
      | Close \<Rightarrow> ([], compression, False))"

fun write_task :: "outbound_message list \<Rightarrow> bool \<Rightarrow> u8 list \<times> bool" where
  "write_task [] compression = ([], compression)"
| "write_task (msg # msgs) compression =
     (case write_message msg compression of
        (bytes, compression', go) \<Rightarrow>
          if go then (let (rest, c) = write_task msgs compression' in (bytes @ rest, c))
          else (bytes, compression'))"

section \<open>The channel to the game\<close>

lemma offer_simps [simp]:
  "sh_next_id (offer f sh) = sh_next_id sh" "sh_outbound (offer f sh) = sh_outbound sh"
  "sh_states (offer f sh) = sh_states sh" "sh_capacity (offer f sh) = sh_capacity sh"
  "sh_inbound (offer f sh) = try_send (sh_capacity sh) f (sh_inbound sh)"
  "sh_offered (offer f sh) = sh_offered sh @ [f]"
  by (simp_all add: offer_def)

interpretation inbound: bounded_channel offer sh_inbound "\<lambda>sh. sh_capacity sh - length (sh_inbound sh)"
  by unfold_locales (auto simp: try_send_def)

lemma close_connection_Some:
  "close_connection (sh, r) = Some sh' \<longleftrightarrow> length (sh_inbound sh) < sh_capacity sh \<and>
     sh' = sh\<lparr>sh_offered := sh_offered sh @ [Closed (rd_conn_id r)], sh_inbound := sh_inbound sh @ [Closed (rd_conn_id r)],
       sh_outbound := sh_outbound sh - {rd_conn_id r}, sh_states := (sh_states sh)(rd_conn_id r := None)\<rparr>"
  by (auto simp: close_connection_def send_wait_def Let_def)

section \<open>The effect of one frame\<close>

text \<open>The specification of the reader: the frames one by one, with no buffer and no reads.\<close>

definition report :: "u32 \<Rightarrow> u8 list \<Rightarrow> shared \<Rightarrow> shared" where
  "report conn_id payload sh = fst (process_frame conn_id payload sh [] 0)"

definition handle_frame :: "'z inflater \<Rightarrow> 'z \<Rightarrow> reader \<Rightarrow> u8 list \<Rightarrow> shared \<Rightarrow> shared" where
  "handle_frame decompress d0 r frame sh =
     (if rd_compression r then
        (case fst (decode_frame_compressed decompress d0 frame 0) of
           Inl _ \<Rightarrow> sh | Inr p \<Rightarrow> report (rd_conn_id r) p sh)
      else report (rd_conn_id r) frame sh)"

lemma process_frame_report:
  "process_frame conn_id frame sh buf total_len = (report conn_id frame sh, drop total_len buf)"
  by (simp add: report_def process_frame_def Let_def split: prod.split sum.split)

lemma report_varint:
  "report conn_id (varint_bytes k @ body) sh =
     offer (Packet conn_id (state_of (sh_states sh) conn_id) k body)
       (sh\<lparr>sh_states := update_state (sh_states sh) conn_id (state_of (sh_states sh) conn_id) k body\<rparr>)"
proof -
  have "get_varint (bb_new (varint_bytes k @ body))
      = (Inr k, \<lparr>bb_buf = varint_bytes k @ body, bb_pos = length (varint_bytes k)\<rparr>)"
    using read_varint_bytes [of "[]" k body] by (simp add: get_varint_def bb_new_def)
  then show ?thesis by (simp add: report_def process_frame_def Let_def)
qed

section \<open>Parsing a length\<close>

lemma frame_length_loop_read_varint:
  "frame_length_loop n i result data pos =
     (case read_varint_loop n i result data pos of
        (Inr v, p) \<Rightarrow> map_option (\<lambda>len. (len, p)) (i32_to_usize v)
      | (Inl _, _) \<Rightarrow> None)"
  by (induction n i result data pos rule: frame_length_loop.induct)
     (simp_all add: Let_def split: option.split)

lemma try_parse_read_varint:
  "try_parse_frame_length data =
     (case read_varint data 0 of
        (Inr v, p) \<Rightarrow> map_option (\<lambda>len. (len, p)) (i32_to_usize v)
      | (Inl _, _) \<Rightarrow> None)"
  by (simp only: try_parse_frame_length_def frame_length_loop_read_varint read_varint_def)

lemma try_parse_leb128:
  "n < 2 ^ 31 \<Longrightarrow> try_parse_frame_length (leb128 n @ post) = Some (n, length (leb128 n))"
  using read_varint_leb128 [of n "[]" post] by (simp add: try_parse_read_varint)

lemma frame_length_loop_append:
  "frame_length_loop n i result data pos = Some x \<Longrightarrow>
   frame_length_loop n i result (data @ future) pos = Some x"
  by (induction n i result data pos rule: frame_length_loop.induct)
     (auto simp: Let_def nth_append split: if_splits)

lemma try_parse_append:
  "try_parse_frame_length data = Some x \<Longrightarrow> try_parse_frame_length (data @ future) = Some x"
  unfolding try_parse_frame_length_def by (rule frame_length_loop_append)

section \<open>Reassembly\<close>

text \<open>A frame on the wire, which is what \<open>encode_frame\<close> writes.\<close>

definition wire :: "u8 list \<Rightarrow> u8 list" where
  "wire frame = snd (encode_frame [] frame)"

lemma wire_leb128: "length f \<le> MAX_FRAME \<Longrightarrow> wire f = leb128 (length f) @ f"
  by (simp add: wire_def encode_frame_ok)

lemma frame_turn_whole:
  assumes "length f \<le> MAX_FRAME"
  shows "frame_turn decompress d0 (sh, r\<lparr>rd_read_buf := wire f @ rest\<rparr>)
     = (True, handle_frame decompress d0 r f sh, r\<lparr>rd_read_buf := rest\<rparr>)"
proof -
  have "length f < 2 ^ 31" using assms by (simp add: MAX_FRAME_def)
  then have "try_parse_frame_length (wire f @ rest) = Some (length f, length (leb128 (length f)))"
    using assms by (simp add: wire_leb128 try_parse_leb128)
  then show ?thesis
    using assms
    by (simp add: frame_turn_def process_frame_report handle_frame_def wire_leb128
        split: sum.split)
qed

lemma frame_turn_partial:
  assumes "length f \<le> MAX_FRAME" and "buf @ future = wire f @ rest" and "length buf < length (wire f)"
  shows "frame_turn decompress d0 (sh, r\<lparr>rd_read_buf := buf\<rparr>) = (False, sh, r\<lparr>rd_read_buf := buf\<rparr>)"
proof (cases "try_parse_frame_length buf")
  case None
  then show ?thesis by (simp add: frame_turn_def)
next
  case (Some x)
  have "length f < 2 ^ 31" using assms(1) by (simp add: MAX_FRAME_def)
  then have "try_parse_frame_length (buf @ future) = Some (length f, length (leb128 (length f)))"
    using assms(1,2) by (simp add: wire_leb128 try_parse_leb128)
  with try_parse_append [OF Some, of future] have "x = (length f, length (leb128 (length f)))"
    by simp
  with Some assms(1,3) show ?thesis by (simp add: frame_turn_def wire_leb128)
qed

text \<open>Draining a prefix of a stream of frames handles some of them and keeps a prefix of the rest.\<close>

lemma drain_stream:
  assumes "\<forall>f \<in> set fs. length f \<le> MAX_FRAME" and "buf @ future = concat (map wire fs)"
  shows "\<exists>done todo rest. fs = done @ todo \<and> rest @ future = concat (map wire todo) \<and>
      (future = [] \<longrightarrow> todo = []) \<and>
      drain_frames decompress d0 (sh, r\<lparr>rd_read_buf := buf\<rparr>) =
        (fold (handle_frame decompress d0 r) done sh, r\<lparr>rd_read_buf := rest\<rparr>)"
  using assms
proof (induction fs arbitrary: buf sh)
  case Nil
  then have "try_parse_frame_length buf = None"
    by (simp add: try_parse_frame_length_def numeral_eq_Suc)
  then show ?case
    using Nil by (intro exI [of _ "[]"]) (simp add: drain_frames.simps frame_turn_def)
next
  case (Cons f fs)
  have f: "length f \<le> MAX_FRAME" and m: "buf @ future = wire f @ concat (map wire fs)"
    using Cons.prems by simp_all
  show ?case
  proof (cases "length buf < length (wire f)")
    case True
    with f m have "drain_frames decompress d0 (sh, r\<lparr>rd_read_buf := buf\<rparr>)
        = (sh, r\<lparr>rd_read_buf := buf\<rparr>)"
      by (subst drain_frames.simps) (simp add: frame_turn_partial)
    moreover from True m have "future \<noteq> []" by auto
    ultimately show ?thesis
      using Cons.prems(2) by (intro exI [of _ "[]"] exI [of _ "f # fs"] exI [of _ buf]) simp
  next
    case False
    then have "length (wire f) \<le> length buf" by simp
    with m have "buf = wire f @ drop (length (wire f)) buf"
      by (metis append_eq_append_conv_if append_take_drop_id)
    with m obtain buf' where b: "buf = wire f @ buf'" "buf' @ future = concat (map wire fs)"
      by (metis append.assoc same_append_eq)
    from Cons.IH [OF _ b(2), of "handle_frame decompress d0 r f sh"] Cons.prems(1)
    obtain don todo rest where "fs = don @ todo" "rest @ future = concat (map wire todo)"
      "future = [] \<longrightarrow> todo = []"
      "drain_frames decompress d0 (handle_frame decompress d0 r f sh, r\<lparr>rd_read_buf := buf'\<rparr>) =
        (fold (handle_frame decompress d0 r) don (handle_frame decompress d0 r f sh), r\<lparr>rd_read_buf := rest\<rparr>)"
      by auto
    then show ?thesis
      using frame_turn_whole [OF f, of decompress d0 sh buf' r] b(1)
      by (intro exI [of _ "f # don"] exI [of _ todo] exI [of _ rest])
         (simp add: drain_frames.simps [of decompress d0 "(sh, _)"])
  qed
qed

text \<open>Any way to cut a stream of frames into reads gives the same reports.\<close>

lemma read_task_stream:
  assumes "\<forall>f \<in> set fs. length f \<le> MAX_FRAME" and "\<forall>c \<in> set chunks. c \<noteq> []"
    and "buf @ concat chunks = concat (map wire fs)"
  shows "read_task decompress d0 (sh, r\<lparr>rd_read_buf := buf\<rparr>) (map ReadOk chunks)
     = Inr (fold (handle_frame decompress d0 r) fs sh, r\<lparr>rd_read_buf := []\<rparr>)"
  using assms
proof (induction chunks arbitrary: buf fs sh)
  case Nil
  then show ?case
    using drain_stream [of fs buf "[]" decompress d0 sh r] by auto
next
  case (Cons c chunks)
  obtain don todo rest where d: "fs = don @ todo" "rest @ c @ concat chunks = concat (map wire todo)"
    "drain_frames decompress d0 (sh, r\<lparr>rd_read_buf := buf\<rparr>) =
       (fold (handle_frame decompress d0 r) don sh, r\<lparr>rd_read_buf := rest\<rparr>)"
    using drain_stream [OF Cons.prems(1), of buf "concat (c # chunks)" decompress d0 sh r]
      Cons.prems(3) by auto
  have "read_task decompress d0 (fold (handle_frame decompress d0 r) don sh, r\<lparr>rd_read_buf := rest @ c\<rparr>)
      (map ReadOk chunks)
    = Inr (fold (handle_frame decompress d0 r) todo (fold (handle_frame decompress d0 r) don sh),
        r\<lparr>rd_read_buf := []\<rparr>)"
    by (rule Cons.IH) (use Cons.prems d in auto)
  then show ?case using d(1,3) Cons.prems(2) by simp
qed

section \<open>All connections together\<close>

text \<open>
  The tasks run concurrently. A step is one turn of a reader, one read, the write task setting
  the compression flag, an accepted connection or a closed one, or the game side taking a message out of
  the channel, in any order.
\<close>

record net =
  nt_shared :: shared
  nt_readers :: "u32 \<rightharpoonup> reader"

inductive net_step :: "'z inflater \<Rightarrow> 'z \<Rightarrow> net \<Rightarrow> net \<Rightarrow> bool" for decompress d0 where
  accepted: "accept (nt_shared n) = (r, sh) \<Longrightarrow>
    net_step decompress d0 n \<lparr>nt_shared = sh, nt_readers = (nt_readers n)(rd_conn_id r \<mapsto> r)\<rparr>"
| turned: "nt_readers n c = Some r \<Longrightarrow> frame_turn decompress d0 (nt_shared n, r) = (p, sh, r') \<Longrightarrow>
    net_step decompress d0 n \<lparr>nt_shared = sh, nt_readers = (nt_readers n)(c \<mapsto> r')\<rparr>"
| received: "nt_readers n c = Some r \<Longrightarrow> tmp \<noteq> [] \<Longrightarrow>
    net_step decompress d0 n
      (n\<lparr>nt_readers := (nt_readers n)(c \<mapsto> r\<lparr>rd_read_buf := rd_read_buf r @ tmp\<rparr>)\<rparr>)"
| flagged: "nt_readers n c = Some r \<Longrightarrow>
    net_step decompress d0 n (n\<lparr>nt_readers := (nt_readers n)(c \<mapsto> r\<lparr>rd_compression := True\<rparr>)\<rparr>)"
| closed: "nt_readers n c = Some r \<Longrightarrow> close_connection (nt_shared n, r) = Some sh \<Longrightarrow>
    net_step decompress d0 n \<lparr>nt_shared = sh, nt_readers = (nt_readers n)(c := None)\<rparr>"
| fetched: "sh_inbound (nt_shared n) = f # fs \<Longrightarrow>
    net_step decompress d0 n (n\<lparr>nt_shared := (nt_shared n)\<lparr>sh_inbound := fs\<rparr>\<rparr>)"

inductive_cases net_stepE: "net_step decompress d0 n n'"

definition net_start :: net where
  "net_start = \<lparr>nt_shared = listener_start, nt_readers = Map.empty\<rparr>"

text \<open>
  What must have been reported of a connection before it may be in a phase: the packet that
  takes it there.
\<close>

definition intends :: "u8 list \<Rightarrow> i32 \<Rightarrow> bool" where
  "intends body v =
     (case fst (intention_decode (bb_new body)) of Inr i \<Rightarrow> in_next_state i = v | Inl _ \<Rightarrow> False)"

definition justified :: "raw_frame list \<Rightarrow> u32 \<Rightarrow> connection_state \<Rightarrow> bool" where
  "justified log c s =
     (case s of
        Handshake \<Rightarrow> True
      | Status \<Rightarrow> \<exists>body. Packet c Handshake 0 body \<in> set log \<and> intends body 1
      | Login \<Rightarrow> \<exists>body. Packet c Handshake 0 body \<in> set log \<and> intends body 2
      | Configuration \<Rightarrow> \<exists>body. Packet c Login 3 body \<in> set log
      | Play \<Rightarrow> \<exists>body. Packet c Configuration 3 body \<in> set log)"

text \<open>Every report of the log is justified by the reports before it.\<close>

fun log_ok :: "raw_frame list \<Rightarrow> raw_frame list \<Rightarrow> bool" where
  "log_ok before [] = True"
| "log_ok before (f # fs) =
     ((case f of Packet c s k body \<Rightarrow> justified before c s | Closed c \<Rightarrow> True)
      \<and> log_ok (before @ [f]) fs)"

definition shared_ok :: "shared \<Rightarrow> bool" where
  "shared_ok sh \<longleftrightarrow>
     (\<forall>c. justified (sh_offered sh) c (state_of (sh_states sh) c)) \<and> log_ok [] (sh_offered sh)"

lemma justified_Handshake [simp]: "justified log c Handshake"
  by (simp add: justified_def)

lemma state_of_upd [simp]:
  "state_of (cs(c \<mapsto> s)) c' = (if c' = c then s else state_of cs c')"
  "state_of (cs(c := None)) c' = (if c' = c then Handshake else state_of cs c')"
  by (simp_all add: state_of_def)

lemma justified_mono: "justified log c s \<Longrightarrow> justified (log @ fs) c s"
  by (cases s) (auto simp: justified_def)

lemma log_ok_append: "log_ok before (xs @ ys) \<longleftrightarrow> log_ok before xs \<and> log_ok (before @ xs) ys"
  by (induction xs arbitrary: before) auto

lemma justified_next:
  assumes "justified log c s"
  shows "justified (log @ [Packet c s k body]) c (next_state s k body)"
proof (cases "next_state s k body = s")
  case True
  then show ?thesis using justified_mono [OF assms] by simp
next
  case False
  then show ?thesis
    by (cases s; cases "fst (intention_decode (bb_new body))")
       (auto simp: next_state_def justified_def intends_def intro!: exI [of _ body] split: if_splits)
qed

lemma state_of_update:
  "state_of (update_state cs c (state_of cs c) k body) c' =
     (if c' = c then next_state (state_of cs c) k body else state_of cs c')"
  by (auto simp: update_state_def Let_def)

lemma report_ok: "shared_ok sh \<Longrightarrow> shared_ok (report c payload sh)"
  unfolding report_def process_frame_def shared_ok_def
  by (auto simp: Let_def state_of_update log_ok_append justified_next justified_mono
      split: prod.split sum.split)

lemma frame_turn_ok:
  "frame_turn decompress d0 (sh, r) = (p, sh', r') \<Longrightarrow> shared_ok sh \<Longrightarrow> shared_ok sh'"
  by (auto simp: frame_turn_def process_frame_report Let_def report_ok
      split: option.splits if_splits sum.splits)

lemma net_step_ok: "net_step decompress d0 n n' \<Longrightarrow> shared_ok (nt_shared n) \<Longrightarrow> shared_ok (nt_shared n')"
proof (induction rule: net_step.induct)
  case (accepted n r sh)
  then show ?case
    by (auto simp: accept_def shared_ok_def Let_def)
next
  case (turned n c r p sh r')
  then show ?case by (simp add: frame_turn_ok)
next
  case (closed n c r sh)
  then show ?case
    by (auto simp: close_connection_Some shared_ok_def log_ok_append justified_mono)
next
  case (fetched n f fs)
  then show ?case by (simp add: shared_ok_def)
qed simp_all

lemma reachable_ok: "(net_step decompress d0)\<^sup>*\<^sup>* net_start n \<Longrightarrow> shared_ok (nt_shared n)"
proof (induction rule: rtranclp_induct)
  case base
  then show ?case
    by (simp add: net_start_def listener_start_def shared_ok_def state_of_def justified_def)
next
  case (step n n')
  then show ?case by (blast intro: net_step_ok)
qed

text \<open>The channel never holds more than its capacity, and holds only what was offered, in that order.\<close>

definition channel_ok :: "shared \<Rightarrow> bool" where
  "channel_ok sh \<longleftrightarrow> length (sh_inbound sh) \<le> sh_capacity sh \<and> subseq (sh_inbound sh) (sh_offered sh)"

lemma channel_ok_offer: "channel_ok sh \<Longrightarrow> channel_ok (offer f sh)"
  by (auto simp: channel_ok_def try_send_def intro: subseq_append_iff [THEN iffD2] list_emb_append2)

lemma report_channel_ok: "channel_ok sh \<Longrightarrow> channel_ok (report c payload sh)"
  using channel_ok_offer [of "sh\<lparr>sh_states := cs\<rparr>" for cs]
  by (auto simp: report_def process_frame_def Let_def channel_ok_def split: prod.split sum.split)

lemma frame_turn_channel_ok:
  "frame_turn decompress d0 (sh, r) = (p, sh', r') \<Longrightarrow> channel_ok sh \<Longrightarrow> channel_ok sh'"
  by (auto simp: frame_turn_def process_frame_report Let_def report_channel_ok
      split: option.splits if_splits sum.splits)

lemma reachable_channel_ok: "(net_step decompress d0)\<^sup>*\<^sup>* net_start n \<Longrightarrow> channel_ok (nt_shared n)"
proof (induction rule: rtranclp_induct)
  case base
  then show ?case by (simp add: net_start_def listener_start_def channel_ok_def)
next
  case (step n n')
  from step(2,3) show ?case
  proof (induction rule: net_step.induct)
    case (accepted n r sh)
    then show ?case by (auto simp: accept_def channel_ok_def Let_def)
  next
    case (turned n c r p sh r')
    then show ?case by (simp add: frame_turn_channel_ok)
  next
    case (closed n c r sh)
    then show ?case by (auto simp: close_connection_Some channel_ok_def)
  next
    case (fetched n f fs)
    then show ?case by (auto simp: channel_ok_def dest: subseq_Cons')
  qed simp_all
qed

lemma log_ok_split: "log_ok [] (xs @ Packet c s k body # ys) \<Longrightarrow> justified xs c s"
  by (simp add: log_ok_append)

text \<open>A packet tagged Play is preceded by the whole login of its connection.\<close>

lemma play_justified:
  assumes "log_ok [] log" and "log = xs @ Packet c Play k body # ys"
  shows "\<exists>a1 a2 a3 a4 hello ack fin. intends hello 2 \<and>
      xs = a1 @ Packet c Handshake 0 hello # a2 @ Packet c Login 3 ack # a3
             @ Packet c Configuration 3 fin # a4"
proof -
  obtain fin where "Packet c Configuration 3 fin \<in> set xs"
    using log_ok_split [of xs c Play k body ys] assms by (auto simp: justified_def)
  then obtain xs1 a4 where x: "xs = xs1 @ Packet c Configuration 3 fin # a4"
    by (auto dest: split_list)
  obtain ack where "Packet c Login 3 ack \<in> set xs1"
    using log_ok_split [of xs1 c Configuration 3 fin "a4 @ Packet c Play k body # ys"] assms x
    by (auto simp: justified_def)
  then obtain xs2 a3 where x1: "xs1 = xs2 @ Packet c Login 3 ack # a3"
    by (auto dest: split_list)
  obtain hello where h: "Packet c Handshake 0 hello \<in> set xs2" "intends hello 2"
    using log_ok_split [of xs2 c Login 3 ack
        "a3 @ Packet c Configuration 3 fin # a4 @ Packet c Play k body # ys"] assms x x1
    by (auto simp: justified_def)
  then obtain a1 a2 where "xs2 = a1 @ Packet c Handshake 0 hello # a2"
    by (auto dest: split_list)
  with x x1 h(2) show ?thesis by fastforce
qed

text \<open>The work on one connection leaves the phases and reports of the others alone.\<close>

definition reports_of :: "u32 \<Rightarrow> shared \<Rightarrow> raw_frame list" where
  "reports_of c sh = filter (\<lambda>f. case f of Packet c' _ _ _ \<Rightarrow> c' = c | Closed c' \<Rightarrow> c' = c) (sh_offered sh)"

lemma report_other:
  "c \<noteq> c' \<Longrightarrow> state_of (sh_states (report c' payload sh)) c = state_of (sh_states sh) c"
  "c \<noteq> c' \<Longrightarrow> reports_of c (report c' payload sh) = reports_of c sh"
  by (auto simp: report_def process_frame_def reports_of_def Let_def state_of_update
      split: prod.split sum.split)

lemma handle_frame_other:
  "c \<noteq> rd_conn_id r \<Longrightarrow>
     state_of (sh_states (handle_frame decompress d0 r f sh)) c = state_of (sh_states sh) c \<and>
     reports_of c (handle_frame decompress d0 r f sh) = reports_of c sh"
  by (auto simp: handle_frame_def report_other split: sum.split)

lemma frame_turn_other:
  "frame_turn decompress d0 (sh, r) = (p, sh', r') \<Longrightarrow> c \<noteq> rd_conn_id r \<Longrightarrow>
     state_of (sh_states sh') c = state_of (sh_states sh) c \<and> reports_of c sh' = reports_of c sh"
  by (auto simp: frame_turn_def process_frame_report Let_def report_other
      split: option.splits if_splits sum.splits)

text \<open>
  Five continuation bytes are no length: the read loop waits for more input forever, keeps every
  byte it is sent and reports nothing.
\<close>

lemma frame_length_loop_overlong:
  "n \<le> length bs \<Longrightarrow> \<forall>b \<in> set (take n bs). b AND 0x80 \<noteq> 0 \<Longrightarrow>
   frame_length_loop n i result (pre @ bs) (length pre) = None"
proof (induction n arbitrary: i result pre bs)
  case (Suc n)
  then obtain b bs' where bs: "bs = b # bs'" by (cases bs) auto
  have "frame_length_loop n (i + 1) res ((pre @ [b]) @ bs') (length (pre @ [b])) = None" for res
    using Suc.prems bs by (intro Suc.IH) auto
  then show ?case using Suc.prems bs by (simp add: Let_def nth_append)
qed simp

lemma overlong_wedges:
  assumes "5 \<le> length buf" and "\<forall>b \<in> set (take 5 buf). b AND 0x80 \<noteq> 0"
    and "\<forall>c \<in> set chunks. c \<noteq> []"
  shows "read_task decompress d0 (sh, r\<lparr>rd_read_buf := buf\<rparr>) (map ReadOk chunks)
     = Inr (sh, r\<lparr>rd_read_buf := buf @ concat chunks\<rparr>)"
  using assms
proof (induction chunks arbitrary: buf)
  have d: "drain_frames decompress d0 (sh, r\<lparr>rd_read_buf := buf\<rparr>) = (sh, r\<lparr>rd_read_buf := buf\<rparr>)"
    if "5 \<le> length buf" and "\<forall>b \<in> set (take 5 buf). b AND 0x80 \<noteq> 0" for buf
    using frame_length_loop_overlong [of 5 buf 0 0 "[]"] that
    by (subst drain_frames.simps) (simp add: frame_turn_def try_parse_frame_length_def)
  case Nil
  then show ?case by (simp add: d)
next
  case (Cons c chunks)
  have d: "drain_frames decompress d0 (sh, r\<lparr>rd_read_buf := buf\<rparr>) = (sh, r\<lparr>rd_read_buf := buf\<rparr>)"
    using frame_length_loop_overlong [of 5 buf 0 0 "[]"] Cons.prems
    by (subst drain_frames.simps) (simp add: frame_turn_def try_parse_frame_length_def)
  with Cons.IH [of "buf @ c"] Cons.prems show ?case by simp
qed

end
