(* ===== verification/Packets_Play_A.thy ===== *)
theory Packets_Play_A
  imports Packets_Login
begin

text \<open>
  Serverbound packets of the play phase, first part (\<open>protocol/packets/play.rs\<close>): movement,
  chat, keep-alive and the container packets. A body that holds item stacks requires them in
  the normal form the wire preserves.
\<close>

record teleport_confirm =
  tc_teleport_id :: i32

definition teleport_confirm_id :: i32 where "teleport_confirm_id = 0x00"

definition teleport_confirm_decode :: "teleport_confirm io" where
  "teleport_confirm_decode =
     bindE get_varint (\<lambda>teleport_id.
     ret \<lparr>tc_teleport_id = teleport_id\<rparr>)"

definition teleport_confirm_encode :: "teleport_confirm \<Rightarrow> unit io" where
  "teleport_confirm_encode p =
    seqE (put_varint (tc_teleport_id p)) put_end"

definition wf_teleport_confirm :: "teleport_confirm \<Rightarrow> bool" where
  "wf_teleport_confirm p \<longleftrightarrow> True"

interpretation teleport_confirm: packet_codec teleport_confirm_encode teleport_confirm_decode wf_teleport_confirm
  by unfold_locales
     (auto simp: teleport_confirm_encode_def teleport_confirm_decode_def wf_teleport_confirm_def packet_wf intro!: carries_rules safe_rules)

record chunk_batch_received =
  cbr_chunks_per_tick :: f32

definition chunk_batch_received_id :: i32 where "chunk_batch_received_id = 0x0a"

definition chunk_batch_received_decode :: "chunk_batch_received io" where
  "chunk_batch_received_decode =
     bindE get_f32 (\<lambda>chunks_per_tick.
     ret \<lparr>cbr_chunks_per_tick = chunks_per_tick\<rparr>)"

definition chunk_batch_received_encode :: "chunk_batch_received \<Rightarrow> unit io" where
  "chunk_batch_received_encode p =
    seqE (put_f32 (cbr_chunks_per_tick p)) put_end"

definition wf_chunk_batch_received :: "chunk_batch_received \<Rightarrow> bool" where
  "wf_chunk_batch_received p \<longleftrightarrow> True"

interpretation chunk_batch_received: packet_codec chunk_batch_received_encode chunk_batch_received_decode wf_chunk_batch_received
  by unfold_locales
     (auto simp: chunk_batch_received_encode_def chunk_batch_received_decode_def wf_chunk_batch_received_def packet_wf intro!: carries_rules safe_rules)

record client_status =
  status_action :: i32

definition client_status_id :: i32 where "client_status_id = 0x0b"

definition client_status_decode :: "client_status io" where
  "client_status_decode =
     bindE get_varint (\<lambda>action.
     ret \<lparr>status_action = action\<rparr>)"

definition client_status_encode :: "client_status \<Rightarrow> unit io" where
  "client_status_encode p =
    seqE (put_varint (status_action p)) put_end"

definition wf_client_status :: "client_status \<Rightarrow> bool" where
  "wf_client_status p \<longleftrightarrow> True"

interpretation client_status: packet_codec client_status_encode client_status_decode wf_client_status
  by unfold_locales
     (auto simp: client_status_encode_def client_status_decode_def wf_client_status_def packet_wf intro!: carries_rules safe_rules)

record client_command_chat =
  ccc_message :: rstring

definition client_command_chat_id :: i32 where "client_command_chat_id = 0x06"

definition client_command_chat_decode :: "client_command_chat io" where
  "client_command_chat_decode =
     bindE get_string (\<lambda>message.
     ret \<lparr>ccc_message = message\<rparr>)"

definition client_command_chat_encode :: "client_command_chat \<Rightarrow> unit io" where
  "client_command_chat_encode p =
    seqE (put_string (ccc_message p)) put_end"

definition wf_client_command_chat :: "client_command_chat \<Rightarrow> bool" where
  "wf_client_command_chat p \<longleftrightarrow> wf_string (ccc_message p)"

interpretation client_command_chat: packet_codec client_command_chat_encode client_command_chat_decode wf_client_command_chat
  by unfold_locales
     (auto simp: client_command_chat_encode_def client_command_chat_decode_def wf_client_command_chat_def packet_wf intro!: carries_rules safe_rules)

record client_signed_command_chat =
  cscc_message :: rstring

definition client_signed_command_chat_id :: i32 where "client_signed_command_chat_id = 0x07"

definition client_signed_command_chat_decode :: "client_signed_command_chat io" where
  "client_signed_command_chat_decode =
     bindE get_string (\<lambda>message.
     ret \<lparr>cscc_message = message\<rparr>)"

definition client_signed_command_chat_encode :: "client_signed_command_chat \<Rightarrow> unit io" where
  "client_signed_command_chat_encode p =
    seqE (put_string (cscc_message p)) put_end"

definition wf_client_signed_command_chat :: "client_signed_command_chat \<Rightarrow> bool" where
  "wf_client_signed_command_chat p \<longleftrightarrow> wf_string (cscc_message p)"

interpretation client_signed_command_chat: packet_codec client_signed_command_chat_encode client_signed_command_chat_decode wf_client_signed_command_chat
  by unfold_locales
     (auto simp: client_signed_command_chat_encode_def client_signed_command_chat_decode_def wf_client_signed_command_chat_def packet_wf intro!: carries_rules safe_rules)

record keep_alive =
  ka_keep_alive_id :: i64

definition keep_alive_id :: i32 where "keep_alive_id = 0x1b"

definition keep_alive_decode :: "keep_alive io" where
  "keep_alive_decode =
     bindE get_i64 (\<lambda>keep_alive_id.
     ret \<lparr>ka_keep_alive_id = keep_alive_id\<rparr>)"

definition keep_alive_encode :: "keep_alive \<Rightarrow> unit io" where
  "keep_alive_encode p =
    seqE (put_i64 (ka_keep_alive_id p)) put_end"

definition wf_keep_alive :: "keep_alive \<Rightarrow> bool" where
  "wf_keep_alive p \<longleftrightarrow> True"

interpretation keep_alive: packet_codec keep_alive_encode keep_alive_decode wf_keep_alive
  by unfold_locales
     (auto simp: keep_alive_encode_def keep_alive_decode_def wf_keep_alive_def packet_wf intro!: carries_rules safe_rules)

record player_position =
  pp_x :: f64
  pp_y :: f64
  pp_z :: f64
  pp_grounded :: bool

definition player_position_id :: i32 where "player_position_id = 0x1d"

definition player_position_decode :: "player_position io" where
  "player_position_decode =
     bindE get_f64 (\<lambda>x.
     bindE get_f64 (\<lambda>y.
     bindE get_f64 (\<lambda>z.
     bindE get_bool (\<lambda>grounded.
     ret \<lparr>pp_x = x, pp_y = y, pp_z = z, pp_grounded = grounded\<rparr>))))"

definition player_position_encode :: "player_position \<Rightarrow> unit io" where
  "player_position_encode p =
    seqE (put_f64 (pp_x p))
    (seqE (put_f64 (pp_y p))
    (seqE (put_f64 (pp_z p))
    (seqE (put_bool (pp_grounded p)) put_end)))"

definition wf_player_position :: "player_position \<Rightarrow> bool" where
  "wf_player_position p \<longleftrightarrow> True"

interpretation player_position: packet_codec player_position_encode player_position_decode wf_player_position
  by unfold_locales
     (auto simp: player_position_encode_def player_position_decode_def wf_player_position_def packet_wf intro!: carries_rules safe_rules)

record player_position_and_rotation =
  ppr_x :: f64
  ppr_y :: f64
  ppr_z :: f64
  ppr_yaw :: f32
  ppr_pitch :: f32
  ppr_grounded :: bool

definition player_position_and_rotation_id :: i32 where "player_position_and_rotation_id = 0x1e"

definition player_position_and_rotation_decode :: "player_position_and_rotation io" where
  "player_position_and_rotation_decode =
     bindE get_f64 (\<lambda>x.
     bindE get_f64 (\<lambda>y.
     bindE get_f64 (\<lambda>z.
     bindE get_f32 (\<lambda>yaw.
     bindE get_f32 (\<lambda>pitch.
     bindE get_bool (\<lambda>grounded.
     ret \<lparr>ppr_x = x, ppr_y = y, ppr_z = z, ppr_yaw = yaw, ppr_pitch = pitch,
        ppr_grounded = grounded\<rparr>))))))"

definition player_position_and_rotation_encode :: "player_position_and_rotation \<Rightarrow> unit io" where
  "player_position_and_rotation_encode p =
    seqE (put_f64 (ppr_x p))
    (seqE (put_f64 (ppr_y p))
    (seqE (put_f64 (ppr_z p))
    (seqE (put_f32 (ppr_yaw p))
    (seqE (put_f32 (ppr_pitch p))
    (seqE (put_bool (ppr_grounded p)) put_end)))))"

definition wf_player_position_and_rotation :: "player_position_and_rotation \<Rightarrow> bool" where
  "wf_player_position_and_rotation p \<longleftrightarrow> True"

interpretation player_position_and_rotation: packet_codec player_position_and_rotation_encode player_position_and_rotation_decode wf_player_position_and_rotation
  by unfold_locales
     (auto simp: player_position_and_rotation_encode_def player_position_and_rotation_decode_def wf_player_position_and_rotation_def packet_wf intro!: carries_rules safe_rules)

record look =
  look_yaw :: f32
  look_pitch :: f32
  look_on_ground :: bool

definition look_id :: i32 where "look_id = 0x1f"

definition look_decode :: "look io" where
  "look_decode =
     bindE get_f32 (\<lambda>yaw.
     bindE get_f32 (\<lambda>pitch.
     bindE get_bool (\<lambda>on_ground.
     ret \<lparr>look_yaw = yaw, look_pitch = pitch, look_on_ground = on_ground\<rparr>)))"

definition look_encode :: "look \<Rightarrow> unit io" where
  "look_encode p =
    seqE (put_f32 (look_yaw p))
    (seqE (put_f32 (look_pitch p))
    (seqE (put_bool (look_on_ground p)) put_end))"

definition wf_look :: "look \<Rightarrow> bool" where
  "wf_look p \<longleftrightarrow> True"

interpretation look: packet_codec look_encode look_decode wf_look
  by unfold_locales
     (auto simp: look_encode_def look_decode_def wf_look_def packet_wf intro!: carries_rules safe_rules)

record player_position_status =
  pps_flags :: u8

definition player_position_status_id :: i32 where "player_position_status_id = 0x20"

definition player_position_status_decode :: "player_position_status io" where
  "player_position_status_decode =
     bindE get_u8 (\<lambda>flags.
     ret \<lparr>pps_flags = flags\<rparr>)"

definition player_position_status_encode :: "player_position_status \<Rightarrow> unit io" where
  "player_position_status_encode p =
    seqE (put_u8 (pps_flags p)) put_end"

definition wf_player_position_status :: "player_position_status \<Rightarrow> bool" where
  "wf_player_position_status p \<longleftrightarrow> True"

interpretation player_position_status: packet_codec player_position_status_encode player_position_status_decode wf_player_position_status
  by unfold_locales
     (auto simp: player_position_status_encode_def player_position_status_decode_def wf_player_position_status_def packet_wf intro!: carries_rules safe_rules)

definition PPS_FLAG_ON_GROUND :: u8 where "PPS_FLAG_ON_GROUND = 0x01"
definition PPS_FLAG_HORIZONTAL_COLLISION :: u8 where "PPS_FLAG_HORIZONTAL_COLLISION = 0x02"

definition pps_new :: "bool \<Rightarrow> bool \<Rightarrow> player_position_status" where
  "pps_new on_ground horizontal_collision =
     (let flags = 0 :: u8;
          flags = (if on_ground then flags OR PPS_FLAG_ON_GROUND else flags);
          flags = (if horizontal_collision then flags OR PPS_FLAG_HORIZONTAL_COLLISION else flags)
      in \<lparr>pps_flags = flags\<rparr>)"

definition pps_on_ground :: "player_position_status \<Rightarrow> bool" where
  "pps_on_ground p \<longleftrightarrow> pps_flags p AND PPS_FLAG_ON_GROUND \<noteq> 0"

definition pps_horizontal_collision :: "player_position_status \<Rightarrow> bool" where
  "pps_horizontal_collision p \<longleftrightarrow> pps_flags p AND PPS_FLAG_HORIZONTAL_COLLISION \<noteq> 0"

lemma pps_flags_roundtrip:
  "pps_on_ground (pps_new g c) = g" "pps_horizontal_collision (pps_new g c) = c"
  by (cases g; cases c; simp add: pps_on_ground_def pps_horizontal_collision_def pps_new_def Let_def
      PPS_FLAG_ON_GROUND_def PPS_FLAG_HORIZONTAL_COLLISION_def)+

datatype player_loaded = PlayerLoaded

lemma player_loaded_only [simp]: "PlayerLoaded = p"
  by (cases p) simp

definition player_loaded_id :: i32 where "player_loaded_id = 0x2b"

definition player_loaded_decode :: "player_loaded io" where
  "player_loaded_decode =
     ret PlayerLoaded"

definition player_loaded_encode :: "player_loaded \<Rightarrow> unit io" where
  "player_loaded_encode p =
    put_end"

definition wf_player_loaded :: "player_loaded \<Rightarrow> bool" where
  "wf_player_loaded p \<longleftrightarrow> True"

interpretation player_loaded: packet_codec player_loaded_encode player_loaded_decode wf_player_loaded
  by unfold_locales
     (auto simp: player_loaded_encode_def player_loaded_decode_def wf_player_loaded_def packet_wf intro!: carries_rules safe_rules)

datatype click_mode = Pickup | QuickMove | Swap | Clone | Throw | QuickCraft | PickupAll

definition click_mode_from_i32 :: "i32 \<Rightarrow> click_mode option" where
  "click_mode_from_i32 v =
     (if v = 0 then Some Pickup else if v = 1 then Some QuickMove else if v = 2 then Some Swap
      else if v = 3 then Some Clone else if v = 4 then Some Throw else if v = 5 then Some QuickCraft
      else if v = 6 then Some PickupAll else None)"

definition click_mode_as_i32 :: "click_mode \<Rightarrow> i32" where
  "click_mode_as_i32 m =
     (case m of Pickup \<Rightarrow> 0 | QuickMove \<Rightarrow> 1 | Swap \<Rightarrow> 2 | Clone \<Rightarrow> 3 | Throw \<Rightarrow> 4
      | QuickCraft \<Rightarrow> 5 | PickupAll \<Rightarrow> 6)"

lemma click_mode_roundtrip: "click_mode_from_i32 (click_mode_as_i32 m) = Some m"
  by (cases m; simp add: click_mode_as_i32_def click_mode_from_i32_def)

lemma click_mode_from_i32_Some: "click_mode_from_i32 v = Some m \<Longrightarrow> v = click_mode_as_i32 m"
  by (auto simp: click_mode_as_i32_def click_mode_from_i32_def split: if_splits)

record click_container =
  cc_window_id :: i32
  cc_state_id :: i32
  cc_slot :: i16
  cc_button :: i8
  cc_mode :: i32
  cc_changed_slots :: "(i16 \<times> item_stack) list"
  cc_carried_item :: item_stack

definition click_container_id :: i32 where "click_container_id = 0x11"

definition get_changed_slot :: "(i16 \<times> item_stack) io" where
  "get_changed_slot = bindE get_i16 (\<lambda>s. bindE decode_item_stack (\<lambda>item. ret (s, item)))"

definition put_changed_slot :: "i16 \<times> item_stack \<Rightarrow> unit io" where
  "put_changed_slot c = seqE (put_i16 (fst c)) (seqE (encode_item_stack (snd c)) put_end)"

definition click_container_decode :: "click_container io" where
  "click_container_decode =
     bindE get_varint (\<lambda>window_id.
     bindE get_varint (\<lambda>state_id.
     bindE get_i16 (\<lambda>slot.
     bindE get_i8 (\<lambda>button.
     bindE get_varint (\<lambda>mode.
     bindE (get_counted InvalidValue get_changed_slot) (\<lambda>changed_slots.
     bindE decode_item_stack (\<lambda>carried_item.
     ret \<lparr>cc_window_id = window_id, cc_state_id = state_id, cc_slot = slot, cc_button = button,
        cc_mode = mode, cc_changed_slots = changed_slots, cc_carried_item = carried_item\<rparr>)))))))"

definition click_container_encode :: "click_container \<Rightarrow> unit io" where
  "click_container_encode p =
    seqE (put_varint (cc_window_id p))
    (seqE (put_varint (cc_state_id p))
    (seqE (put_i16 (cc_slot p))
    (seqE (put_i8 (cc_button p))
    (seqE (put_varint (cc_mode p))
    (seqE (put_counted_try InvalidValue put_changed_slot (cc_changed_slots p))
    (seqE (encode_item_stack (cc_carried_item p)) put_end))))))"

definition wf_click_container :: "click_container \<Rightarrow> bool" where
  "wf_click_container p \<longleftrightarrow> wf_array (\<lambda>c. normal_item (snd c)) (cc_changed_slots p) \<and>
     normal_item (cc_carried_item p)"

lemma carries_changed_slot [carries_rules]:
  "wf_item (snd c) \<Longrightarrow> norm_item (snd c) = snd c \<Longrightarrow> carries (put_changed_slot c) get_changed_slot c"
  unfolding put_changed_slot_def get_changed_slot_def
  by (cases c) (auto intro!: carries_rules)

lemma safe_changed_slot [safe_rules]: "cursor_safe get_changed_slot"
  unfolding get_changed_slot_def by (intro safe_rules)

interpretation click_container: packet_codec click_container_encode click_container_decode wf_click_container
  by unfold_locales
     (auto simp: click_container_encode_def click_container_decode_def wf_click_container_def packet_wf intro!: carries_rules safe_rules)

record close_container =
  clc_window_id :: i32

definition close_container_id :: i32 where "close_container_id = 0x12"

definition close_container_decode :: "close_container io" where
  "close_container_decode =
     bindE get_varint (\<lambda>window_id.
     ret \<lparr>clc_window_id = window_id\<rparr>)"

definition close_container_encode :: "close_container \<Rightarrow> unit io" where
  "close_container_encode p =
    seqE (put_varint (clc_window_id p)) put_end"

definition wf_close_container :: "close_container \<Rightarrow> bool" where
  "wf_close_container p \<longleftrightarrow> True"

interpretation close_container: packet_codec close_container_encode close_container_decode wf_close_container
  by unfold_locales
     (auto simp: close_container_encode_def close_container_decode_def wf_close_container_def packet_wf intro!: carries_rules safe_rules)

record client_held_item_change =
  chic_slot :: i16

definition client_held_item_change_id :: i32 where "client_held_item_change_id = 0x34"

definition client_held_item_change_decode :: "client_held_item_change io" where
  "client_held_item_change_decode =
     bindE get_i16 (\<lambda>slot.
     ret \<lparr>chic_slot = slot\<rparr>)"

definition client_held_item_change_encode :: "client_held_item_change \<Rightarrow> unit io" where
  "client_held_item_change_encode p =
    seqE (put_i16 (chic_slot p)) put_end"

definition wf_client_held_item_change :: "client_held_item_change \<Rightarrow> bool" where
  "wf_client_held_item_change p \<longleftrightarrow> True"

interpretation client_held_item_change: packet_codec client_held_item_change_encode client_held_item_change_decode wf_client_held_item_change
  by unfold_locales
     (auto simp: client_held_item_change_encode_def client_held_item_change_decode_def wf_client_held_item_change_def packet_wf intro!: carries_rules safe_rules)

record query_block_nbt =
  qbn_transaction_id :: i32
  qbn_block_position :: "i32 \<times> i32 \<times> i32"

definition query_block_nbt_id :: i32 where "query_block_nbt_id = 0x01"

definition query_block_nbt_decode :: "query_block_nbt io" where
  "query_block_nbt_decode =
     bindE get_varint (\<lambda>transaction_id.
     bindE get_position (\<lambda>block_position.
     ret \<lparr>qbn_transaction_id = transaction_id, qbn_block_position = block_position\<rparr>))"

definition query_block_nbt_encode :: "query_block_nbt \<Rightarrow> unit io" where
  "query_block_nbt_encode p =
    seqE (put_varint (qbn_transaction_id p))
    (seqE (put_position (qbn_block_position p)) put_end)"

definition wf_query_block_nbt :: "query_block_nbt \<Rightarrow> bool" where
  "wf_query_block_nbt p \<longleftrightarrow> wf_position (qbn_block_position p)"

interpretation query_block_nbt: packet_codec query_block_nbt_encode query_block_nbt_decode wf_query_block_nbt
  by unfold_locales
     (auto simp: query_block_nbt_encode_def query_block_nbt_decode_def wf_query_block_nbt_def packet_wf intro!: carries_rules safe_rules)

record select_bundle_item =
  sbi_slot :: i32
  sbi_selected_index :: i32

definition select_bundle_item_id :: i32 where "select_bundle_item_id = 0x02"

definition select_bundle_item_decode :: "select_bundle_item io" where
  "select_bundle_item_decode =
     bindE get_varint (\<lambda>slot.
     bindE get_varint (\<lambda>selected_index.
     ret \<lparr>sbi_slot = slot, sbi_selected_index = selected_index\<rparr>))"

definition select_bundle_item_encode :: "select_bundle_item \<Rightarrow> unit io" where
  "select_bundle_item_encode p =
    seqE (put_varint (sbi_slot p))
    (seqE (put_varint (sbi_selected_index p)) put_end)"

definition wf_select_bundle_item :: "select_bundle_item \<Rightarrow> bool" where
  "wf_select_bundle_item p \<longleftrightarrow> True"

interpretation select_bundle_item: packet_codec select_bundle_item_encode select_bundle_item_decode wf_select_bundle_item
  by unfold_locales
     (auto simp: select_bundle_item_encode_def select_bundle_item_decode_def wf_select_bundle_item_def packet_wf intro!: carries_rules safe_rules)

record change_difficulty =
  chd_difficulty :: i32
  chd_locked :: bool

definition change_difficulty_id :: i32 where "change_difficulty_id = 0x03"

definition change_difficulty_decode :: "change_difficulty io" where
  "change_difficulty_decode =
     bindE get_varint (\<lambda>difficulty.
     bindE get_bool (\<lambda>locked.
     ret \<lparr>chd_difficulty = difficulty, chd_locked = locked\<rparr>))"

definition change_difficulty_encode :: "change_difficulty \<Rightarrow> unit io" where
  "change_difficulty_encode p =
    seqE (put_varint (chd_difficulty p))
    (seqE (put_bool (chd_locked p)) put_end)"

definition wf_change_difficulty :: "change_difficulty \<Rightarrow> bool" where
  "wf_change_difficulty p \<longleftrightarrow> True"

interpretation change_difficulty: packet_codec change_difficulty_encode change_difficulty_decode wf_change_difficulty
  by unfold_locales
     (auto simp: change_difficulty_encode_def change_difficulty_decode_def wf_change_difficulty_def packet_wf intro!: carries_rules safe_rules)

record change_game_mode =
  cgm_gamemode :: i8

definition change_game_mode_id :: i32 where "change_game_mode_id = 0x04"

definition change_game_mode_decode :: "change_game_mode io" where
  "change_game_mode_decode =
     bindE get_i8 (\<lambda>gamemode.
     ret \<lparr>cgm_gamemode = gamemode\<rparr>)"

definition change_game_mode_encode :: "change_game_mode \<Rightarrow> unit io" where
  "change_game_mode_encode p =
    seqE (put_i8 (cgm_gamemode p)) put_end"

definition wf_change_game_mode :: "change_game_mode \<Rightarrow> bool" where
  "wf_change_game_mode p \<longleftrightarrow> True"

interpretation change_game_mode: packet_codec change_game_mode_encode change_game_mode_decode wf_change_game_mode
  by unfold_locales
     (auto simp: change_game_mode_encode_def change_game_mode_decode_def wf_change_game_mode_def packet_wf intro!: carries_rules safe_rules)

record chat_ack =
  ca_offset :: i32

definition chat_ack_id :: i32 where "chat_ack_id = 0x05"

definition chat_ack_decode :: "chat_ack io" where
  "chat_ack_decode =
     bindE get_varint (\<lambda>offset.
     ret \<lparr>ca_offset = offset\<rparr>)"

definition chat_ack_encode :: "chat_ack \<Rightarrow> unit io" where
  "chat_ack_encode p =
    seqE (put_varint (ca_offset p)) put_end"

definition wf_chat_ack :: "chat_ack \<Rightarrow> bool" where
  "wf_chat_ack p \<longleftrightarrow> True"

interpretation chat_ack: packet_codec chat_ack_encode chat_ack_decode wf_chat_ack
  by unfold_locales
     (auto simp: chat_ack_encode_def chat_ack_decode_def wf_chat_ack_def packet_wf intro!: carries_rules safe_rules)

record chat_message =
  cm_message :: rstring
  cm_timestamp :: i64
  cm_salt :: i64
  cm_signature :: "u8 list option"
  cm_ack_offset :: i32
  cm_ack_list :: "u8 list"
  cm_checksum :: i8

definition chat_message_id :: i32 where "chat_message_id = 0x08"

text \<open>A signature of another length than 256 is refused before anything of it is written.\<close>

definition put_signature :: "u8 list option \<Rightarrow> unit io" where
  "put_signature x =
     (case x of
        Some sig \<Rightarrow> if length sig \<noteq> 256 then throw InvalidValue
                     else seqE (put_bool True) (put_bytes sig)
      | None \<Rightarrow> put_bool False)"

definition chat_message_decode :: "chat_message io" where
  "chat_message_decode =
     bindE get_string (\<lambda>message.
     bindE get_i64 (\<lambda>timestamp.
     bindE get_i64 (\<lambda>salt.
     bindE (get_opt (get_bytes 256)) (\<lambda>signature.
     bindE get_varint (\<lambda>ack_offset.
     bindE (get_array 3) (\<lambda>ack_list.
     bindE get_i8 (\<lambda>checksum.
     ret \<lparr>cm_message = message, cm_timestamp = timestamp, cm_salt = salt, cm_signature = signature,
        cm_ack_offset = ack_offset, cm_ack_list = ack_list, cm_checksum = checksum\<rparr>)))))))"

definition chat_message_encode :: "chat_message \<Rightarrow> unit io" where
  "chat_message_encode p =
    seqE (put_string (cm_message p))
    (seqE (put_i64 (cm_timestamp p))
    (seqE (put_i64 (cm_salt p))
    (seqE (put_signature (cm_signature p))
    (seqE (put_varint (cm_ack_offset p))
    (seqE (put_bytes (cm_ack_list p))
    (seqE (put_i8 (cm_checksum p)) put_end))))))"

definition wf_chat_message :: "chat_message \<Rightarrow> bool" where
  "wf_chat_message p \<longleftrightarrow> wf_string (cm_message p) \<and>
     pred_option (\<lambda>sig. length sig = 256) (cm_signature p) \<and> length (cm_ack_list p) = 3"

lemma carries_signature [carries_rules]:
  assumes "pred_option (\<lambda>sig. length sig = 256) x"
  shows "carries (put_signature x) (get_opt (get_bytes 256)) x"
proof -
  have "carries (put_opt put_bytes x) (get_opt (get_bytes 256)) x"
    using assms by (intro carries_opt carries_bytes) auto
  moreover have "put_signature x = put_opt put_bytes x"
    using assms by (cases x) (simp_all add: put_signature_def put_opt_def)
  ultimately show ?thesis by simp
qed

lemma carries_array [carries_rules]: "length v = n \<Longrightarrow> carries (put_bytes v) (get_array n) v"
  unfolding put_bytes_def using reads_get_array [of v] by (auto intro!: carriesI [OF writes_put_raw])

interpretation chat_message: packet_codec chat_message_encode chat_message_decode wf_chat_message
  by unfold_locales
     (auto simp: chat_message_encode_def chat_message_decode_def wf_chat_message_def packet_wf intro!: carries_rules safe_rules)

record chat_session_update =
  csu_session_id :: uuid
  csu_expires_at :: i64
  csu_public_key :: "u8 list"
  csu_signature :: "u8 list"

definition chat_session_update_id :: i32 where "chat_session_update_id = 0x09"

definition chat_session_update_decode :: "chat_session_update io" where
  "chat_session_update_decode =
     bindE get_uuid (\<lambda>session_id.
     bindE get_i64 (\<lambda>expires_at.
     bindE get_byte_array (\<lambda>public_key.
     bindE get_byte_array (\<lambda>signature.
     ret \<lparr>csu_session_id = session_id, csu_expires_at = expires_at,
        csu_public_key = public_key, csu_signature = signature\<rparr>))))"

definition chat_session_update_encode :: "chat_session_update \<Rightarrow> unit io" where
  "chat_session_update_encode p =
    seqE (put_uuid (csu_session_id p))
    (seqE (put_i64 (csu_expires_at p))
    (seqE (put_byte_array (csu_public_key p))
    (seqE (put_byte_array (csu_signature p)) put_end)))"

definition wf_chat_session_update :: "chat_session_update \<Rightarrow> bool" where
  "wf_chat_session_update p \<longleftrightarrow> wf_uuid (csu_session_id p) \<and> wf_bytes (csu_public_key p) \<and>
     wf_bytes (csu_signature p)"

interpretation chat_session_update: packet_codec chat_session_update_encode chat_session_update_decode wf_chat_session_update
  by unfold_locales
     (auto simp: chat_session_update_encode_def chat_session_update_decode_def wf_chat_session_update_def packet_wf intro!: carries_rules safe_rules)

datatype tick_end = TickEnd

lemma tick_end_only [simp]: "TickEnd = p"
  by (cases p) simp

definition tick_end_id :: i32 where "tick_end_id = 0x0c"

definition tick_end_decode :: "tick_end io" where
  "tick_end_decode =
     ret TickEnd"

definition tick_end_encode :: "tick_end \<Rightarrow> unit io" where
  "tick_end_encode p =
    put_end"

definition wf_tick_end :: "tick_end \<Rightarrow> bool" where
  "wf_tick_end p \<longleftrightarrow> True"

interpretation tick_end: packet_codec tick_end_encode tick_end_decode wf_tick_end
  by unfold_locales
     (auto simp: tick_end_encode_def tick_end_decode_def wf_tick_end_def packet_wf intro!: carries_rules safe_rules)

record settings =
  set_locale :: rstring
  set_view_distance :: i8
  set_chat_mode :: i32
  set_chat_colors :: bool
  set_displayed_skin_parts :: i8
  set_main_hand :: i32
  set_enable_text_filtering :: bool
  set_allow_server_listings :: bool
  set_particle_setting :: i32

definition settings_id :: i32 where "settings_id = 0x0d"

definition settings_decode :: "settings io" where
  "settings_decode =
     bindE get_string (\<lambda>locale.
     bindE get_i8 (\<lambda>view_distance.
     bindE get_varint (\<lambda>chat_mode.
     bindE get_bool (\<lambda>chat_colors.
     bindE get_i8 (\<lambda>displayed_skin_parts.
     bindE get_varint (\<lambda>main_hand.
     bindE get_bool (\<lambda>enable_text_filtering.
     bindE get_bool (\<lambda>allow_server_listings.
     bindE get_varint (\<lambda>particle_setting.
     ret \<lparr>set_locale = locale, set_view_distance = view_distance,
        set_chat_mode = chat_mode, set_chat_colors = chat_colors,
        set_displayed_skin_parts = displayed_skin_parts, set_main_hand = main_hand,
        set_enable_text_filtering = enable_text_filtering,
        set_allow_server_listings = allow_server_listings,
        set_particle_setting = particle_setting\<rparr>)))))))))"

definition settings_encode :: "settings \<Rightarrow> unit io" where
  "settings_encode p =
    seqE (put_string (set_locale p))
    (seqE (put_i8 (set_view_distance p))
    (seqE (put_varint (set_chat_mode p))
    (seqE (put_bool (set_chat_colors p))
    (seqE (put_i8 (set_displayed_skin_parts p))
    (seqE (put_varint (set_main_hand p))
    (seqE (put_bool (set_enable_text_filtering p))
    (seqE (put_bool (set_allow_server_listings p))
    (seqE (put_varint (set_particle_setting p)) put_end))))))))"

definition wf_settings :: "settings \<Rightarrow> bool" where
  "wf_settings p \<longleftrightarrow> wf_string (set_locale p)"

interpretation settings: packet_codec settings_encode settings_decode wf_settings
  by unfold_locales
     (auto simp: settings_encode_def settings_decode_def wf_settings_def packet_wf intro!: carries_rules safe_rules)

record tab_complete =
  tabc_transaction_id :: i32
  tabc_text :: rstring

definition tab_complete_id :: i32 where "tab_complete_id = 0x0e"

definition tab_complete_decode :: "tab_complete io" where
  "tab_complete_decode =
     bindE get_varint (\<lambda>transaction_id.
     bindE get_string (\<lambda>txt.
     ret \<lparr>tabc_transaction_id = transaction_id, tabc_text = txt\<rparr>))"

definition tab_complete_encode :: "tab_complete \<Rightarrow> unit io" where
  "tab_complete_encode p =
    seqE (put_varint (tabc_transaction_id p))
    (seqE (put_string (tabc_text p)) put_end)"

definition wf_tab_complete :: "tab_complete \<Rightarrow> bool" where
  "wf_tab_complete p \<longleftrightarrow> wf_string (tabc_text p)"

interpretation tab_complete: packet_codec tab_complete_encode tab_complete_decode wf_tab_complete
  by unfold_locales
     (auto simp: tab_complete_encode_def tab_complete_decode_def wf_tab_complete_def packet_wf intro!: carries_rules safe_rules)

datatype configuration_ack = ConfigurationAck

lemma configuration_ack_only [simp]: "ConfigurationAck = p"
  by (cases p) simp

definition configuration_ack_id :: i32 where "configuration_ack_id = 0x0f"

definition configuration_ack_decode :: "configuration_ack io" where
  "configuration_ack_decode =
     ret ConfigurationAck"

definition configuration_ack_encode :: "configuration_ack \<Rightarrow> unit io" where
  "configuration_ack_encode p =
    put_end"

definition wf_configuration_ack :: "configuration_ack \<Rightarrow> bool" where
  "wf_configuration_ack p \<longleftrightarrow> True"

interpretation configuration_ack: packet_codec configuration_ack_encode configuration_ack_decode wf_configuration_ack
  by unfold_locales
     (auto simp: configuration_ack_encode_def configuration_ack_decode_def wf_configuration_ack_def packet_wf intro!: carries_rules safe_rules)

record click_window_button =
  cwb_window_id :: i32
  cwb_button_id :: i32

definition click_window_button_id :: i32 where "click_window_button_id = 0x10"

definition click_window_button_decode :: "click_window_button io" where
  "click_window_button_decode =
     bindE get_varint (\<lambda>window_id.
     bindE get_varint (\<lambda>button_id.
     ret \<lparr>cwb_window_id = window_id, cwb_button_id = button_id\<rparr>))"

definition click_window_button_encode :: "click_window_button \<Rightarrow> unit io" where
  "click_window_button_encode p =
    seqE (put_varint (cwb_window_id p))
    (seqE (put_varint (cwb_button_id p)) put_end)"

definition wf_click_window_button :: "click_window_button \<Rightarrow> bool" where
  "wf_click_window_button p \<longleftrightarrow> True"

interpretation click_window_button: packet_codec click_window_button_encode click_window_button_decode wf_click_window_button
  by unfold_locales
     (auto simp: click_window_button_encode_def click_window_button_decode_def wf_click_window_button_def packet_wf intro!: carries_rules safe_rules)

end
