(* ===== verification/Packets_Play_B.thy ===== *)
theory Packets_Play_B
  imports Packets_Play_A
begin

text \<open>
  Serverbound packets of the play phase, second part (\<open>protocol/packets/play.rs\<close>): from the
  window slot state to the command blocks.
\<close>

record window_slot_state =
  wss_slot :: i32
  wss_window_id :: i32
  wss_new_state :: bool

definition window_slot_state_id :: i32 where "window_slot_state_id = 0x13"

definition window_slot_state_decode :: "window_slot_state io" where
  "window_slot_state_decode =
     bindE get_varint (\<lambda>slot.
     bindE get_varint (\<lambda>window_id.
     bindE get_bool (\<lambda>new_state.
     ret \<lparr>wss_slot = slot, wss_window_id = window_id, wss_new_state = new_state\<rparr>)))"

definition window_slot_state_encode :: "window_slot_state \<Rightarrow> unit io" where
  "window_slot_state_encode p =
    seqE (put_varint (wss_slot p))
    (seqE (put_varint (wss_window_id p))
    (seqE (put_bool (wss_new_state p)) put_end))"

definition wf_window_slot_state :: "window_slot_state \<Rightarrow> bool" where
  "wf_window_slot_state p \<longleftrightarrow> True"

interpretation window_slot_state: packet_codec window_slot_state_encode window_slot_state_decode wf_window_slot_state
  by unfold_locales
     (auto simp: window_slot_state_encode_def window_slot_state_decode_def wf_window_slot_state_def packet_wf intro!: carries_rules safe_rules)

record cookie_response =
  cr_key :: rstring
  cr_value :: "(u8 list) option"

definition cookie_response_id :: i32 where "cookie_response_id = 0x14"

definition cookie_response_decode :: "cookie_response io" where
  "cookie_response_decode =
     bindE get_string (\<lambda>key.
     bindE (get_opt get_byte_array) (\<lambda>val.
     ret \<lparr>cr_key = key, cr_value = val\<rparr>))"

definition cookie_response_encode :: "cookie_response \<Rightarrow> unit io" where
  "cookie_response_encode p =
    seqE (put_string (cr_key p))
    (seqE (put_opt put_byte_array (cr_value p)) put_end)"

definition wf_cookie_response :: "cookie_response \<Rightarrow> bool" where
  "wf_cookie_response p \<longleftrightarrow> wf_string (cr_key p) \<and> pred_option wf_bytes (cr_value p)"

interpretation cookie_response: packet_codec cookie_response_encode cookie_response_decode wf_cookie_response
  by unfold_locales
     (auto simp: cookie_response_encode_def cookie_response_decode_def wf_cookie_response_def packet_wf intro!: carries_rules safe_rules)

record client_plugin_message =
  cpm_channel :: rstring
  cpm_data :: "u8 list"

definition client_plugin_message_id :: i32 where "client_plugin_message_id = 0x15"

text \<open>\<open>buf.get_bytes(buf.remaining())\<close>: the rest of the frame.\<close>

definition get_rest :: "u8 list io" where
  "get_rest = (\<lambda>b. get_bytes (remaining b) b)"

definition client_plugin_message_decode :: "client_plugin_message io" where
  "client_plugin_message_decode =
     bindE get_string (\<lambda>channel.
     bindE get_rest (\<lambda>data.
     ret \<lparr>cpm_channel = channel, cpm_data = data\<rparr>))"

definition client_plugin_message_encode :: "client_plugin_message \<Rightarrow> unit io" where
  "client_plugin_message_encode p =
    seqE (put_string (cpm_channel p)) (put_bytes (cpm_data p))"

definition wf_client_plugin_message :: "client_plugin_message \<Rightarrow> bool" where
  "wf_client_plugin_message p \<longleftrightarrow> wf_string (cpm_channel p)"

lemma ends_rest: "ends (put_bytes bs) get_rest bs"
  unfolding ends_def put_bytes_def
proof (intro exI conjI allI)
  show "writes (put_raw bs) bs" by (rule writes_put_raw)
  show "fst (get_rest (cursor pre bs)) = Inr bs" for pre
    by (simp add: get_rest_def get_bytes_def get_range_def remaining_def cursor_def Let_def)
qed

lemma safe_rest [safe_rules]: "cursor_safe get_rest"
  by (auto simp: cursor_safe_def get_rest_def get_bytes_def get_range_def Let_def)

lemma client_plugin_message_body:
  "wf_client_plugin_message p \<Longrightarrow> ends (client_plugin_message_encode p) client_plugin_message_decode p"
  by (cases p)
     (auto simp: client_plugin_message_encode_def client_plugin_message_decode_def
       wf_client_plugin_message_def intro!: ends_bind ends_last [OF ends_rest] carries_rules)

interpretation client_plugin_message:
  body_codec client_plugin_message_encode client_plugin_message_decode wf_client_plugin_message
  by (unfold_locales, rule client_plugin_message_body, assumption,
      unfold client_plugin_message_decode_def) (intro safe_rules)

record debug_subscription_request =
  dsr_subscriptions :: "i32 list"

definition debug_subscription_request_id :: i32 where "debug_subscription_request_id = 0x16"

definition debug_subscription_request_decode :: "debug_subscription_request io" where
  "debug_subscription_request_decode =
     bindE (get_varint_array get_varint) (\<lambda>subscriptions.
     ret \<lparr>dsr_subscriptions = subscriptions\<rparr>)"

definition debug_subscription_request_encode :: "debug_subscription_request \<Rightarrow> unit io" where
  "debug_subscription_request_encode p =
    seqE (put_varint_array put_varint (dsr_subscriptions p)) put_end"

definition wf_debug_subscription_request :: "debug_subscription_request \<Rightarrow> bool" where
  "wf_debug_subscription_request p \<longleftrightarrow> wf_array (\<lambda>_. True) (dsr_subscriptions p)"

interpretation debug_subscription_request: packet_codec debug_subscription_request_encode debug_subscription_request_decode wf_debug_subscription_request
  by unfold_locales
     (auto simp: debug_subscription_request_encode_def debug_subscription_request_decode_def wf_debug_subscription_request_def packet_wf intro!: carries_rules safe_rules)

record edit_book =
  eb_slot :: i32
  eb_pages :: "rstring list"
  eb_title :: "rstring option"

definition edit_book_id :: i32 where "edit_book_id = 0x17"

definition edit_book_decode :: "edit_book io" where
  "edit_book_decode =
     bindE get_varint (\<lambda>slot.
     bindE (get_varint_array get_string) (\<lambda>pages.
     bindE (get_opt get_string) (\<lambda>title.
     ret \<lparr>eb_slot = slot, eb_pages = pages, eb_title = title\<rparr>)))"

definition edit_book_encode :: "edit_book \<Rightarrow> unit io" where
  "edit_book_encode p =
    seqE (put_varint (eb_slot p))
    (seqE (put_varint_array put_string (eb_pages p))
    (seqE (put_opt put_string (eb_title p)) put_end))"

definition wf_edit_book :: "edit_book \<Rightarrow> bool" where
  "wf_edit_book p \<longleftrightarrow> wf_array wf_string (eb_pages p) \<and> pred_option wf_string (eb_title p)"

interpretation edit_book: packet_codec edit_book_encode edit_book_decode wf_edit_book
  by unfold_locales
     (auto simp: edit_book_encode_def edit_book_decode_def wf_edit_book_def packet_wf intro!: carries_rules safe_rules)

record query_entity_nbt =
  qen_transaction_id :: i32
  qen_entity_id :: i32

definition query_entity_nbt_id :: i32 where "query_entity_nbt_id = 0x18"

definition query_entity_nbt_decode :: "query_entity_nbt io" where
  "query_entity_nbt_decode =
     bindE get_varint (\<lambda>transaction_id.
     bindE get_varint (\<lambda>entity_id.
     ret \<lparr>qen_transaction_id = transaction_id, qen_entity_id = entity_id\<rparr>))"

definition query_entity_nbt_encode :: "query_entity_nbt \<Rightarrow> unit io" where
  "query_entity_nbt_encode p =
    seqE (put_varint (qen_transaction_id p))
    (seqE (put_varint (qen_entity_id p)) put_end)"

definition wf_query_entity_nbt :: "query_entity_nbt \<Rightarrow> bool" where
  "wf_query_entity_nbt p \<longleftrightarrow> True"

interpretation query_entity_nbt: packet_codec query_entity_nbt_encode query_entity_nbt_decode wf_query_entity_nbt
  by unfold_locales
     (auto simp: query_entity_nbt_encode_def query_entity_nbt_decode_def wf_query_entity_nbt_def packet_wf intro!: carries_rules safe_rules)

datatype interact_type = Interact i32 | Attack | InteractAt f32 f32 f32 i32

record interact_entity =
  ie_target_id :: i32
  ie_interact_type :: interact_type
  ie_sneaking :: bool

definition interact_entity_id :: i32 where "interact_entity_id = 0x19"

definition get_interact_type :: "interact_type io" where
  "get_interact_type =
     bindE get_varint (\<lambda>type_id.
       if type_id = 0 then bindE get_varint (\<lambda>hand. ret (Interact hand))
       else if type_id = 1 then ret Attack
       else if type_id = 2 then
         bindE get_f32 (\<lambda>target_x.
         bindE get_f32 (\<lambda>target_y.
         bindE get_f32 (\<lambda>target_z.
         bindE get_varint (\<lambda>hand.
         ret (InteractAt target_x target_y target_z hand)))))
       else throw InvalidValue)"

definition put_interact_type :: "interact_type \<Rightarrow> unit io" where
  "put_interact_type t =
     (case t of
        Interact hand \<Rightarrow> seqE (put_varint 0) (seqE (put_varint hand) put_end)
      | Attack \<Rightarrow> seqE (put_varint 1) put_end
      | InteractAt target_x target_y target_z hand \<Rightarrow>
          seqE (put_varint 2)
          (seqE (put_f32 target_x)
          (seqE (put_f32 target_y)
          (seqE (put_f32 target_z)
          (seqE (put_varint hand) put_end)))))"

definition interact_entity_decode :: "interact_entity io" where
  "interact_entity_decode =
     bindE get_varint (\<lambda>target_id.
     bindE get_interact_type (\<lambda>interact_type.
     bindE get_bool (\<lambda>sneaking.
     ret \<lparr>ie_target_id = target_id, ie_interact_type = interact_type, ie_sneaking = sneaking\<rparr>)))"

definition interact_entity_encode :: "interact_entity \<Rightarrow> unit io" where
  "interact_entity_encode p =
    seqE (put_varint (ie_target_id p))
    (seqE (put_interact_type (ie_interact_type p))
    (seqE (put_bool (ie_sneaking p)) put_end))"

definition wf_interact_entity :: "interact_entity \<Rightarrow> bool" where
  "wf_interact_entity p \<longleftrightarrow> True"

lemma carries_interact_type [carries_rules]: "carries (put_interact_type t) get_interact_type t"
  unfolding put_interact_type_def get_interact_type_def
  by (cases t) (auto intro!: carries_rules)

lemma safe_interact_type [safe_rules]: "cursor_safe get_interact_type"
  unfolding get_interact_type_def by (intro safe_rules)

interpretation interact_entity: packet_codec interact_entity_encode interact_entity_decode wf_interact_entity
  by unfold_locales
     (auto simp: interact_entity_encode_def interact_entity_decode_def wf_interact_entity_def packet_wf intro!: carries_rules safe_rules)

record generate_structure =
  gs_block_position :: "i32 \<times> i32 \<times> i32"
  gs_level :: i32
  gs_keep_jigsaws :: bool

definition generate_structure_id :: i32 where "generate_structure_id = 0x1a"

definition generate_structure_decode :: "generate_structure io" where
  "generate_structure_decode =
     bindE get_position (\<lambda>block_position.
     bindE get_varint (\<lambda>level.
     bindE get_bool (\<lambda>keep_jigsaws.
     ret \<lparr>gs_block_position = block_position, gs_level = level,
        gs_keep_jigsaws = keep_jigsaws\<rparr>)))"

definition generate_structure_encode :: "generate_structure \<Rightarrow> unit io" where
  "generate_structure_encode p =
    seqE (put_position (gs_block_position p))
    (seqE (put_varint (gs_level p))
    (seqE (put_bool (gs_keep_jigsaws p)) put_end))"

definition wf_generate_structure :: "generate_structure \<Rightarrow> bool" where
  "wf_generate_structure p \<longleftrightarrow> wf_position (gs_block_position p)"

interpretation generate_structure: packet_codec generate_structure_encode generate_structure_decode wf_generate_structure
  by unfold_locales
     (auto simp: generate_structure_encode_def generate_structure_decode_def wf_generate_structure_def packet_wf intro!: carries_rules safe_rules)

record lock_difficulty =
  lockd_locked :: bool

definition lock_difficulty_id :: i32 where "lock_difficulty_id = 0x1c"

definition lock_difficulty_decode :: "lock_difficulty io" where
  "lock_difficulty_decode =
     bindE get_bool (\<lambda>locked.
     ret \<lparr>lockd_locked = locked\<rparr>)"

definition lock_difficulty_encode :: "lock_difficulty \<Rightarrow> unit io" where
  "lock_difficulty_encode p =
    seqE (put_bool (lockd_locked p)) put_end"

definition wf_lock_difficulty :: "lock_difficulty \<Rightarrow> bool" where
  "wf_lock_difficulty p \<longleftrightarrow> True"

interpretation lock_difficulty: packet_codec lock_difficulty_encode lock_difficulty_decode wf_lock_difficulty
  by unfold_locales
     (auto simp: lock_difficulty_encode_def lock_difficulty_decode_def wf_lock_difficulty_def packet_wf intro!: carries_rules safe_rules)

record vehicle_move =
  vm_x :: f64
  vm_y :: f64
  vm_z :: f64
  vm_yaw :: f32
  vm_pitch :: f32
  vm_on_ground :: bool

definition vehicle_move_id :: i32 where "vehicle_move_id = 0x21"

definition vehicle_move_decode :: "vehicle_move io" where
  "vehicle_move_decode =
     bindE get_f64 (\<lambda>x.
     bindE get_f64 (\<lambda>y.
     bindE get_f64 (\<lambda>z.
     bindE get_f32 (\<lambda>yaw.
     bindE get_f32 (\<lambda>pitch.
     bindE get_bool (\<lambda>on_ground.
     ret \<lparr>vm_x = x, vm_y = y, vm_z = z, vm_yaw = yaw, vm_pitch = pitch,
        vm_on_ground = on_ground\<rparr>))))))"

definition vehicle_move_encode :: "vehicle_move \<Rightarrow> unit io" where
  "vehicle_move_encode p =
    seqE (put_f64 (vm_x p))
    (seqE (put_f64 (vm_y p))
    (seqE (put_f64 (vm_z p))
    (seqE (put_f32 (vm_yaw p))
    (seqE (put_f32 (vm_pitch p))
    (seqE (put_bool (vm_on_ground p)) put_end)))))"

definition wf_vehicle_move :: "vehicle_move \<Rightarrow> bool" where
  "wf_vehicle_move p \<longleftrightarrow> True"

interpretation vehicle_move: packet_codec vehicle_move_encode vehicle_move_decode wf_vehicle_move
  by unfold_locales
     (auto simp: vehicle_move_encode_def vehicle_move_decode_def wf_vehicle_move_def packet_wf intro!: carries_rules safe_rules)

record steer_boat =
  sb_left_paddle :: bool
  sb_right_paddle :: bool

definition steer_boat_id :: i32 where "steer_boat_id = 0x22"

definition steer_boat_decode :: "steer_boat io" where
  "steer_boat_decode =
     bindE get_bool (\<lambda>left_paddle.
     bindE get_bool (\<lambda>right_paddle.
     ret \<lparr>sb_left_paddle = left_paddle, sb_right_paddle = right_paddle\<rparr>))"

definition steer_boat_encode :: "steer_boat \<Rightarrow> unit io" where
  "steer_boat_encode p =
    seqE (put_bool (sb_left_paddle p))
    (seqE (put_bool (sb_right_paddle p)) put_end)"

definition wf_steer_boat :: "steer_boat \<Rightarrow> bool" where
  "wf_steer_boat p \<longleftrightarrow> True"

interpretation steer_boat: packet_codec steer_boat_encode steer_boat_decode wf_steer_boat
  by unfold_locales
     (auto simp: steer_boat_encode_def steer_boat_decode_def wf_steer_boat_def packet_wf intro!: carries_rules safe_rules)

record pick_item_from_block =
  pifb_pos :: "i32 \<times> i32 \<times> i32"
  pifb_include_data :: bool

definition pick_item_from_block_id :: i32 where "pick_item_from_block_id = 0x23"

definition pick_item_from_block_decode :: "pick_item_from_block io" where
  "pick_item_from_block_decode =
     bindE get_position (\<lambda>pos.
     bindE get_bool (\<lambda>include_data.
     ret \<lparr>pifb_pos = pos, pifb_include_data = include_data\<rparr>))"

definition pick_item_from_block_encode :: "pick_item_from_block \<Rightarrow> unit io" where
  "pick_item_from_block_encode p =
    seqE (put_position (pifb_pos p))
    (seqE (put_bool (pifb_include_data p)) put_end)"

definition wf_pick_item_from_block :: "pick_item_from_block \<Rightarrow> bool" where
  "wf_pick_item_from_block p \<longleftrightarrow> wf_position (pifb_pos p)"

interpretation pick_item_from_block: packet_codec pick_item_from_block_encode pick_item_from_block_decode wf_pick_item_from_block
  by unfold_locales
     (auto simp: pick_item_from_block_encode_def pick_item_from_block_decode_def wf_pick_item_from_block_def packet_wf intro!: carries_rules safe_rules)

record pick_item_from_entity =
  pife_entity_id :: i32
  pife_include_data :: bool

definition pick_item_from_entity_id :: i32 where "pick_item_from_entity_id = 0x24"

definition pick_item_from_entity_decode :: "pick_item_from_entity io" where
  "pick_item_from_entity_decode =
     bindE get_varint (\<lambda>entity_id.
     bindE get_bool (\<lambda>include_data.
     ret \<lparr>pife_entity_id = entity_id, pife_include_data = include_data\<rparr>))"

definition pick_item_from_entity_encode :: "pick_item_from_entity \<Rightarrow> unit io" where
  "pick_item_from_entity_encode p =
    seqE (put_varint (pife_entity_id p))
    (seqE (put_bool (pife_include_data p)) put_end)"

definition wf_pick_item_from_entity :: "pick_item_from_entity \<Rightarrow> bool" where
  "wf_pick_item_from_entity p \<longleftrightarrow> True"

interpretation pick_item_from_entity: packet_codec pick_item_from_entity_encode pick_item_from_entity_decode wf_pick_item_from_entity
  by unfold_locales
     (auto simp: pick_item_from_entity_encode_def pick_item_from_entity_decode_def wf_pick_item_from_entity_def packet_wf intro!: carries_rules safe_rules)

record ping_request =
  pingr_number :: i64

definition ping_request_id :: i32 where "ping_request_id = 0x25"

definition ping_request_decode :: "ping_request io" where
  "ping_request_decode =
     bindE get_i64 (\<lambda>number.
     ret \<lparr>pingr_number = number\<rparr>)"

definition ping_request_encode :: "ping_request \<Rightarrow> unit io" where
  "ping_request_encode p =
    seqE (put_i64 (pingr_number p)) put_end"

definition wf_ping_request :: "ping_request \<Rightarrow> bool" where
  "wf_ping_request p \<longleftrightarrow> True"

interpretation ping_request: packet_codec ping_request_encode ping_request_decode wf_ping_request
  by unfold_locales
     (auto simp: ping_request_encode_def ping_request_decode_def wf_ping_request_def packet_wf intro!: carries_rules safe_rules)

record place_recipe =
  plr_window_id :: i8
  plr_recipe_display_id :: i32
  plr_make_all :: bool

definition place_recipe_id :: i32 where "place_recipe_id = 0x26"

definition place_recipe_decode :: "place_recipe io" where
  "place_recipe_decode =
     bindE get_i8 (\<lambda>window_id.
     bindE get_varint (\<lambda>recipe_display_id.
     bindE get_bool (\<lambda>make_all.
     ret \<lparr>plr_window_id = window_id, plr_recipe_display_id = recipe_display_id,
        plr_make_all = make_all\<rparr>)))"

definition place_recipe_encode :: "place_recipe \<Rightarrow> unit io" where
  "place_recipe_encode p =
    seqE (put_i8 (plr_window_id p))
    (seqE (put_varint (plr_recipe_display_id p))
    (seqE (put_bool (plr_make_all p)) put_end))"

definition wf_place_recipe :: "place_recipe \<Rightarrow> bool" where
  "wf_place_recipe p \<longleftrightarrow> True"

interpretation place_recipe: packet_codec place_recipe_encode place_recipe_decode wf_place_recipe
  by unfold_locales
     (auto simp: place_recipe_encode_def place_recipe_decode_def wf_place_recipe_def packet_wf intro!: carries_rules safe_rules)

record player_abilities =
  pab_flags :: i8

definition player_abilities_id :: i32 where "player_abilities_id = 0x27"

definition player_abilities_decode :: "player_abilities io" where
  "player_abilities_decode =
     bindE get_i8 (\<lambda>flags.
     ret \<lparr>pab_flags = flags\<rparr>)"

definition player_abilities_encode :: "player_abilities \<Rightarrow> unit io" where
  "player_abilities_encode p =
    seqE (put_i8 (pab_flags p)) put_end"

definition wf_player_abilities :: "player_abilities \<Rightarrow> bool" where
  "wf_player_abilities p \<longleftrightarrow> True"

interpretation player_abilities: packet_codec player_abilities_encode player_abilities_decode wf_player_abilities
  by unfold_locales
     (auto simp: player_abilities_encode_def player_abilities_decode_def wf_player_abilities_def packet_wf intro!: carries_rules safe_rules)

record player_action =
  pact_status :: i32
  pact_block_position :: "i32 \<times> i32 \<times> i32"
  pact_block_face :: i8
  pact_sequence :: i32

definition player_action_id :: i32 where "player_action_id = 0x28"

definition player_action_decode :: "player_action io" where
  "player_action_decode =
     bindE get_varint (\<lambda>status.
     bindE get_position (\<lambda>block_position.
     bindE get_i8 (\<lambda>block_face.
     bindE get_varint (\<lambda>sequence.
     ret \<lparr>pact_status = status, pact_block_position = block_position,
        pact_block_face = block_face, pact_sequence = sequence\<rparr>))))"

definition player_action_encode :: "player_action \<Rightarrow> unit io" where
  "player_action_encode p =
    seqE (put_varint (pact_status p))
    (seqE (put_position (pact_block_position p))
    (seqE (put_i8 (pact_block_face p))
    (seqE (put_varint (pact_sequence p)) put_end)))"

definition wf_player_action :: "player_action \<Rightarrow> bool" where
  "wf_player_action p \<longleftrightarrow> wf_position (pact_block_position p)"

interpretation player_action: packet_codec player_action_encode player_action_decode wf_player_action
  by unfold_locales
     (auto simp: player_action_encode_def player_action_decode_def wf_player_action_def packet_wf intro!: carries_rules safe_rules)

record entity_action =
  ea_player_id :: i32
  ea_action :: i32
  ea_horse_jump_boost :: i32

definition entity_action_id :: i32 where "entity_action_id = 0x29"

definition entity_action_decode :: "entity_action io" where
  "entity_action_decode =
     bindE get_varint (\<lambda>player_id.
     bindE get_varint (\<lambda>action.
     bindE get_varint (\<lambda>horse_jump_boost.
     ret \<lparr>ea_player_id = player_id, ea_action = action,
        ea_horse_jump_boost = horse_jump_boost\<rparr>)))"

definition entity_action_encode :: "entity_action \<Rightarrow> unit io" where
  "entity_action_encode p =
    seqE (put_varint (ea_player_id p))
    (seqE (put_varint (ea_action p))
    (seqE (put_varint (ea_horse_jump_boost p)) put_end))"

definition wf_entity_action :: "entity_action \<Rightarrow> bool" where
  "wf_entity_action p \<longleftrightarrow> True"

interpretation entity_action: packet_codec entity_action_encode entity_action_decode wf_entity_action
  by unfold_locales
     (auto simp: entity_action_encode_def entity_action_decode_def wf_entity_action_def packet_wf intro!: carries_rules safe_rules)

record player_input =
  inp_flags :: i8

definition player_input_id :: i32 where "player_input_id = 0x2a"

definition player_input_decode :: "player_input io" where
  "player_input_decode =
     bindE get_i8 (\<lambda>flags.
     ret \<lparr>inp_flags = flags\<rparr>)"

definition player_input_encode :: "player_input \<Rightarrow> unit io" where
  "player_input_encode p =
    seqE (put_i8 (inp_flags p)) put_end"

definition wf_player_input :: "player_input \<Rightarrow> bool" where
  "wf_player_input p \<longleftrightarrow> True"

interpretation player_input: packet_codec player_input_encode player_input_decode wf_player_input
  by unfold_locales
     (auto simp: player_input_encode_def player_input_decode_def wf_player_input_def packet_wf intro!: carries_rules safe_rules)

definition FLAG_FORWARD :: i8 where "FLAG_FORWARD = 0x01"
definition FLAG_BACKWARD :: i8 where "FLAG_BACKWARD = 0x02"
definition FLAG_LEFT :: i8 where "FLAG_LEFT = 0x04"
definition FLAG_RIGHT :: i8 where "FLAG_RIGHT = 0x08"
definition FLAG_JUMP :: i8 where "FLAG_JUMP = 0x10"
definition FLAG_SHIFT :: i8 where "FLAG_SHIFT = 0x20"
definition FLAG_SPRINT :: i8 where "FLAG_SPRINT = 0x40"

definition or_flag :: "bool \<Rightarrow> i8 \<Rightarrow> i8 \<Rightarrow> i8" where
  "or_flag b flag flags = (if b then flags OR flag else flags)"

definition input_new :: "bool \<Rightarrow> bool \<Rightarrow> bool \<Rightarrow> bool \<Rightarrow> bool \<Rightarrow> bool \<Rightarrow> bool \<Rightarrow> player_input" where
  "input_new forward backward left right jump shift sprint =
     (let flags = 0 :: i8;
          flags = or_flag forward FLAG_FORWARD flags;
          flags = or_flag backward FLAG_BACKWARD flags;
          flags = or_flag left FLAG_LEFT flags;
          flags = or_flag right FLAG_RIGHT flags;
          flags = or_flag jump FLAG_JUMP flags;
          flags = or_flag shift FLAG_SHIFT flags;
          flags = or_flag sprint FLAG_SPRINT flags
      in \<lparr>inp_flags = flags\<rparr>)"

definition input_forward :: "player_input \<Rightarrow> bool" where
  "input_forward p \<longleftrightarrow> inp_flags p AND FLAG_FORWARD \<noteq> 0"

definition input_backward :: "player_input \<Rightarrow> bool" where
  "input_backward p \<longleftrightarrow> inp_flags p AND FLAG_BACKWARD \<noteq> 0"

definition input_left :: "player_input \<Rightarrow> bool" where
  "input_left p \<longleftrightarrow> inp_flags p AND FLAG_LEFT \<noteq> 0"

definition input_right :: "player_input \<Rightarrow> bool" where
  "input_right p \<longleftrightarrow> inp_flags p AND FLAG_RIGHT \<noteq> 0"

definition input_jump :: "player_input \<Rightarrow> bool" where
  "input_jump p \<longleftrightarrow> inp_flags p AND FLAG_JUMP \<noteq> 0"

definition input_shift :: "player_input \<Rightarrow> bool" where
  "input_shift p \<longleftrightarrow> inp_flags p AND FLAG_SHIFT \<noteq> 0"

definition input_sprint :: "player_input \<Rightarrow> bool" where
  "input_sprint p \<longleftrightarrow> inp_flags p AND FLAG_SPRINT \<noteq> 0"

lemmas flag_defs = FLAG_FORWARD_def FLAG_BACKWARD_def FLAG_LEFT_def FLAG_RIGHT_def FLAG_JUMP_def FLAG_SHIFT_def FLAG_SPRINT_def

lemmas input_defs = input_forward_def input_backward_def input_left_def input_right_def input_jump_def input_shift_def input_sprint_def

lemma bit_or_flag: "bit (or_flag b flag flags) n \<longleftrightarrow> b \<and> bit flag n \<or> bit flags n"
  by (auto simp: or_flag_def bit_or_iff)

lemma and_single_bit: "(w AND push_bit n (1 :: 'a::len word)) \<noteq> 0 \<longleftrightarrow> bit w n"
  by (simp add: and_exp_eq_0_iff_not_bit push_bit_eq_mult)

lemma flag_bits:
  "FLAG_FORWARD = push_bit 0 1"
  "FLAG_BACKWARD = push_bit 1 1"
  "FLAG_LEFT = push_bit 2 1"
  "FLAG_RIGHT = push_bit 3 1"
  "FLAG_JUMP = push_bit 4 1"
  "FLAG_SHIFT = push_bit 5 1"
  "FLAG_SPRINT = push_bit 6 1"
  by (simp_all add: flag_defs push_bit_eq_mult)

lemma input_flags_roundtrip:
  fixes f b l r j sh sp :: bool
  defines "i \<equiv> input_new f b l r j sh sp"
  shows "input_forward i = f" "input_backward i = b" "input_left i = l" "input_right i = r"
    "input_jump i = j" "input_shift i = sh" "input_sprint i = sp"
  unfolding i_def
  by (simp_all only: input_defs flag_bits and_single_bit)
     (simp_all add: input_new_def Let_def bit_or_flag flag_defs)

record pong =
  pon_id :: i32

definition pong_id :: i32 where "pong_id = 0x2c"

definition pong_decode :: "pong io" where
  "pong_decode =
     bindE get_i32 (\<lambda>pid.
     ret \<lparr>pon_id = pid\<rparr>)"

definition pong_encode :: "pong \<Rightarrow> unit io" where
  "pong_encode p =
    seqE (put_i32 (pon_id p)) put_end"

definition wf_pong :: "pong \<Rightarrow> bool" where
  "wf_pong p \<longleftrightarrow> True"

interpretation pong: packet_codec pong_encode pong_decode wf_pong
  by unfold_locales
     (auto simp: pong_encode_def pong_decode_def wf_pong_def packet_wf intro!: carries_rules safe_rules)

record set_recipe_book_state =
  srbs_book_type :: i32
  srbs_book_open :: bool
  srbs_filter_active :: bool

definition set_recipe_book_state_id :: i32 where "set_recipe_book_state_id = 0x2d"

definition set_recipe_book_state_decode :: "set_recipe_book_state io" where
  "set_recipe_book_state_decode =
     bindE get_varint (\<lambda>book_type.
     bindE get_bool (\<lambda>book_open.
     bindE get_bool (\<lambda>filter_active.
     ret \<lparr>srbs_book_type = book_type, srbs_book_open = book_open,
        srbs_filter_active = filter_active\<rparr>)))"

definition set_recipe_book_state_encode :: "set_recipe_book_state \<Rightarrow> unit io" where
  "set_recipe_book_state_encode p =
    seqE (put_varint (srbs_book_type p))
    (seqE (put_bool (srbs_book_open p))
    (seqE (put_bool (srbs_filter_active p)) put_end))"

definition wf_set_recipe_book_state :: "set_recipe_book_state \<Rightarrow> bool" where
  "wf_set_recipe_book_state p \<longleftrightarrow> True"

interpretation set_recipe_book_state: packet_codec set_recipe_book_state_encode set_recipe_book_state_decode wf_set_recipe_book_state
  by unfold_locales
     (auto simp: set_recipe_book_state_encode_def set_recipe_book_state_decode_def wf_set_recipe_book_state_def packet_wf intro!: carries_rules safe_rules)

record recipe_book_seen_recipe =
  rbsr_recipe_id :: i32

definition recipe_book_seen_recipe_id :: i32 where "recipe_book_seen_recipe_id = 0x2e"

definition recipe_book_seen_recipe_decode :: "recipe_book_seen_recipe io" where
  "recipe_book_seen_recipe_decode =
     bindE get_varint (\<lambda>recipe_id.
     ret \<lparr>rbsr_recipe_id = recipe_id\<rparr>)"

definition recipe_book_seen_recipe_encode :: "recipe_book_seen_recipe \<Rightarrow> unit io" where
  "recipe_book_seen_recipe_encode p =
    seqE (put_varint (rbsr_recipe_id p)) put_end"

definition wf_recipe_book_seen_recipe :: "recipe_book_seen_recipe \<Rightarrow> bool" where
  "wf_recipe_book_seen_recipe p \<longleftrightarrow> True"

interpretation recipe_book_seen_recipe: packet_codec recipe_book_seen_recipe_encode recipe_book_seen_recipe_decode wf_recipe_book_seen_recipe
  by unfold_locales
     (auto simp: recipe_book_seen_recipe_encode_def recipe_book_seen_recipe_decode_def wf_recipe_book_seen_recipe_def packet_wf intro!: carries_rules safe_rules)

record name_item =
  ni_item_name :: rstring

definition name_item_id :: i32 where "name_item_id = 0x2f"

definition name_item_decode :: "name_item io" where
  "name_item_decode =
     bindE get_string (\<lambda>item_name.
     ret \<lparr>ni_item_name = item_name\<rparr>)"

definition name_item_encode :: "name_item \<Rightarrow> unit io" where
  "name_item_encode p =
    seqE (put_string (ni_item_name p)) put_end"

definition wf_name_item :: "name_item \<Rightarrow> bool" where
  "wf_name_item p \<longleftrightarrow> wf_string (ni_item_name p)"

interpretation name_item: packet_codec name_item_encode name_item_decode wf_name_item
  by unfold_locales
     (auto simp: name_item_encode_def name_item_decode_def wf_name_item_def packet_wf intro!: carries_rules safe_rules)

record resource_pack_status =
  rps_id :: uuid
  rps_status :: i32

definition resource_pack_status_id :: i32 where "resource_pack_status_id = 0x30"

definition resource_pack_status_decode :: "resource_pack_status io" where
  "resource_pack_status_decode =
     bindE get_uuid (\<lambda>pid.
     bindE get_varint (\<lambda>status.
     ret \<lparr>rps_id = pid, rps_status = status\<rparr>))"

definition resource_pack_status_encode :: "resource_pack_status \<Rightarrow> unit io" where
  "resource_pack_status_encode p =
    seqE (put_uuid (rps_id p))
    (seqE (put_varint (rps_status p)) put_end)"

definition wf_resource_pack_status :: "resource_pack_status \<Rightarrow> bool" where
  "wf_resource_pack_status p \<longleftrightarrow> wf_uuid (rps_id p)"

interpretation resource_pack_status: packet_codec resource_pack_status_encode resource_pack_status_decode wf_resource_pack_status
  by unfold_locales
     (auto simp: resource_pack_status_encode_def resource_pack_status_decode_def wf_resource_pack_status_def packet_wf intro!: carries_rules safe_rules)

end
