(* ===== verification/Packets_Play_C.thy ===== *)
theory Packets_Play_C
  imports Packets_Play_B
begin

text \<open>
  Serverbound packets of the play phase, third part (\<open>protocol/packets/play.rs\<close>): from the
  advancement tab to the custom click action, and the clientbound confirmation of the held slot.
\<close>

record advancement_tab =
  at_action :: i32
  at_tab_identifier :: "rstring option"

definition advancement_tab_id :: i32 where "advancement_tab_id = 0x31"

definition advancement_tab_decode :: "advancement_tab io" where
  "advancement_tab_decode =
     bindE get_varint (\<lambda>action.
     bindE (if action = 0 then bindE get_string (\<lambda>s. ret (Some s)) else ret None) (\<lambda>tab_identifier.
     ret \<lparr>at_action = action, at_tab_identifier = tab_identifier\<rparr>))"

definition advancement_tab_encode :: "advancement_tab \<Rightarrow> unit io" where
  "advancement_tab_encode p =
    seqE (put_varint (at_action p))
    (if at_action p = 0 then
       (case at_tab_identifier p of
          Some t \<Rightarrow> seqE (put_string t) put_end
        | None \<Rightarrow> throw InvalidValue)
     else put_end)"

definition wf_advancement_tab :: "advancement_tab \<Rightarrow> bool" where
  "wf_advancement_tab p \<longleftrightarrow>
     (case at_tab_identifier p of Some t \<Rightarrow> at_action p = 0 \<and> wf_string t | None \<Rightarrow> at_action p \<noteq> 0)"

lemma carries_advancement_tab:
  assumes "wf_advancement_tab p"
  shows "carries (advancement_tab_encode p) advancement_tab_decode p"
proof (cases "at_tab_identifier p")
  case None
  with assms show ?thesis
    unfolding advancement_tab_encode_def advancement_tab_decode_def
    by (intro carries_bind [OF carries_varint])
       (cases p, simp add: wf_advancement_tab_def carries_end)
next
  case (Some t)
  with assms have t: "at_action p = 0" "wf_string t" by (simp_all add: wf_advancement_tab_def)
  have "carries (seqE (put_string t) put_end)
      (bindE get_string (\<lambda>s. ret \<lparr>at_action = at_action p, at_tab_identifier = Some s\<rparr>)) p"
    by (rule carries_bind [OF carries_string [OF t(2)]], rule carries_end) (cases p, use Some in simp)
  with t Some show ?thesis
    unfolding advancement_tab_encode_def advancement_tab_decode_def
    by (intro carries_bind [OF carries_varint]) (simp add: bindE_assoc)
qed

interpretation advancement_tab: packet_codec advancement_tab_encode advancement_tab_decode wf_advancement_tab
  by (unfold_locales, rule carries_advancement_tab, assumption, unfold advancement_tab_decode_def)
     (intro safe_rules)

record select_trade =
  st_selected_slot :: i32

definition select_trade_id :: i32 where "select_trade_id = 0x32"

definition select_trade_decode :: "select_trade io" where
  "select_trade_decode =
     bindE get_varint (\<lambda>selected_slot.
     ret \<lparr>st_selected_slot = selected_slot\<rparr>)"

definition select_trade_encode :: "select_trade \<Rightarrow> unit io" where
  "select_trade_encode p =
    seqE (put_varint (st_selected_slot p)) put_end"

definition wf_select_trade :: "select_trade \<Rightarrow> bool" where
  "wf_select_trade p \<longleftrightarrow> True"

interpretation select_trade: packet_codec select_trade_encode select_trade_decode wf_select_trade
  by unfold_locales
     (auto simp: select_trade_encode_def select_trade_decode_def wf_select_trade_def packet_wf intro!: carries_rules safe_rules)

record set_beacon_effect =
  sbe_primary_effect :: "i32 option"
  sbe_secondary_effect :: "i32 option"

definition set_beacon_effect_id :: i32 where "set_beacon_effect_id = 0x33"

definition set_beacon_effect_decode :: "set_beacon_effect io" where
  "set_beacon_effect_decode =
     bindE (get_opt get_varint) (\<lambda>primary_effect.
     bindE (get_opt get_varint) (\<lambda>secondary_effect.
     ret \<lparr>sbe_primary_effect = primary_effect,
        sbe_secondary_effect = secondary_effect\<rparr>))"

definition set_beacon_effect_encode :: "set_beacon_effect \<Rightarrow> unit io" where
  "set_beacon_effect_encode p =
    seqE (put_opt put_varint (sbe_primary_effect p))
    (seqE (put_opt put_varint (sbe_secondary_effect p)) put_end)"

definition wf_set_beacon_effect :: "set_beacon_effect \<Rightarrow> bool" where
  "wf_set_beacon_effect p \<longleftrightarrow> True"

interpretation set_beacon_effect: packet_codec set_beacon_effect_encode set_beacon_effect_decode wf_set_beacon_effect
  by unfold_locales
     (auto simp: set_beacon_effect_encode_def set_beacon_effect_decode_def wf_set_beacon_effect_def packet_wf intro!: carries_rules safe_rules)

record update_command_block =
  ucb_block_position :: "i32 \<times> i32 \<times> i32"
  ucb_command :: rstring
  ucb_mode :: i32
  ucb_flags :: i8

definition update_command_block_id :: i32 where "update_command_block_id = 0x35"

definition update_command_block_decode :: "update_command_block io" where
  "update_command_block_decode =
     bindE get_position (\<lambda>block_position.
     bindE get_string (\<lambda>command.
     bindE get_varint (\<lambda>mode.
     bindE get_i8 (\<lambda>flags.
     ret \<lparr>ucb_block_position = block_position, ucb_command = command, ucb_mode = mode,
        ucb_flags = flags\<rparr>))))"

definition update_command_block_encode :: "update_command_block \<Rightarrow> unit io" where
  "update_command_block_encode p =
    seqE (put_position (ucb_block_position p))
    (seqE (put_string (ucb_command p))
    (seqE (put_varint (ucb_mode p))
    (seqE (put_i8 (ucb_flags p)) put_end)))"

definition wf_update_command_block :: "update_command_block \<Rightarrow> bool" where
  "wf_update_command_block p \<longleftrightarrow> wf_position (ucb_block_position p) \<and> wf_string (ucb_command p)"

interpretation update_command_block: packet_codec update_command_block_encode update_command_block_decode wf_update_command_block
  by unfold_locales
     (auto simp: update_command_block_encode_def update_command_block_decode_def wf_update_command_block_def packet_wf intro!: carries_rules safe_rules)

record update_command_block_minecart =
  ucbm_entity_id :: i32
  ucbm_command :: rstring
  ucbm_track_output :: bool

definition update_command_block_minecart_id :: i32 where "update_command_block_minecart_id = 0x36"

definition update_command_block_minecart_decode :: "update_command_block_minecart io" where
  "update_command_block_minecart_decode =
     bindE get_varint (\<lambda>entity_id.
     bindE get_string (\<lambda>command.
     bindE get_bool (\<lambda>track_output.
     ret \<lparr>ucbm_entity_id = entity_id, ucbm_command = command,
        ucbm_track_output = track_output\<rparr>)))"

definition update_command_block_minecart_encode :: "update_command_block_minecart \<Rightarrow> unit io" where
  "update_command_block_minecart_encode p =
    seqE (put_varint (ucbm_entity_id p))
    (seqE (put_string (ucbm_command p))
    (seqE (put_bool (ucbm_track_output p)) put_end))"

definition wf_update_command_block_minecart :: "update_command_block_minecart \<Rightarrow> bool" where
  "wf_update_command_block_minecart p \<longleftrightarrow> wf_string (ucbm_command p)"

interpretation update_command_block_minecart: packet_codec update_command_block_minecart_encode update_command_block_minecart_decode wf_update_command_block_minecart
  by unfold_locales
     (auto simp: update_command_block_minecart_encode_def update_command_block_minecart_decode_def wf_update_command_block_minecart_def packet_wf intro!: carries_rules safe_rules)

record creative_inventory_action =
  cia_slot :: i16
  cia_item :: item_stack

definition creative_inventory_action_id :: i32 where "creative_inventory_action_id = 0x37"

definition creative_inventory_action_decode :: "creative_inventory_action io" where
  "creative_inventory_action_decode =
     bindE get_i16 (\<lambda>slot.
     bindE decode_item_stack (\<lambda>item.
     ret \<lparr>cia_slot = slot, cia_item = item\<rparr>))"

definition creative_inventory_action_encode :: "creative_inventory_action \<Rightarrow> unit io" where
  "creative_inventory_action_encode p =
    seqE (put_i16 (cia_slot p))
    (seqE (encode_item_stack (cia_item p)) put_end)"

definition wf_creative_inventory_action :: "creative_inventory_action \<Rightarrow> bool" where
  "wf_creative_inventory_action p \<longleftrightarrow> normal_item (cia_item p)"

interpretation creative_inventory_action: packet_codec creative_inventory_action_encode creative_inventory_action_decode wf_creative_inventory_action
  by unfold_locales
     (auto simp: creative_inventory_action_encode_def creative_inventory_action_decode_def wf_creative_inventory_action_def packet_wf intro!: carries_rules safe_rules)

record update_jigsaw_block =
  ujb_location :: "i32 \<times> i32 \<times> i32"
  ujb_name :: rstring
  ujb_target :: rstring
  ujb_pool :: rstring
  ujb_final_state :: rstring
  ujb_joint_type :: rstring
  ujb_selection_priority :: i32
  ujb_placement_priority :: i32

definition update_jigsaw_block_id :: i32 where "update_jigsaw_block_id = 0x38"

definition update_jigsaw_block_decode :: "update_jigsaw_block io" where
  "update_jigsaw_block_decode =
     bindE get_position (\<lambda>location.
     bindE get_string (\<lambda>name.
     bindE get_string (\<lambda>target.
     bindE get_string (\<lambda>pool.
     bindE get_string (\<lambda>final_state.
     bindE get_string (\<lambda>joint_type.
     bindE get_varint (\<lambda>selection_priority.
     bindE get_varint (\<lambda>placement_priority.
     ret \<lparr>ujb_location = location, ujb_name = name, ujb_target = target, ujb_pool = pool,
        ujb_final_state = final_state, ujb_joint_type = joint_type,
        ujb_selection_priority = selection_priority,
        ujb_placement_priority = placement_priority\<rparr>))))))))"

definition update_jigsaw_block_encode :: "update_jigsaw_block \<Rightarrow> unit io" where
  "update_jigsaw_block_encode p =
    seqE (put_position (ujb_location p))
    (seqE (put_string (ujb_name p))
    (seqE (put_string (ujb_target p))
    (seqE (put_string (ujb_pool p))
    (seqE (put_string (ujb_final_state p))
    (seqE (put_string (ujb_joint_type p))
    (seqE (put_varint (ujb_selection_priority p))
    (seqE (put_varint (ujb_placement_priority p)) put_end)))))))"

definition wf_update_jigsaw_block :: "update_jigsaw_block \<Rightarrow> bool" where
  "wf_update_jigsaw_block p \<longleftrightarrow> wf_position (ujb_location p) \<and> wf_string (ujb_name p) \<and>
     wf_string (ujb_target p) \<and> wf_string (ujb_pool p) \<and>
     wf_string (ujb_final_state p) \<and> wf_string (ujb_joint_type p)"

interpretation update_jigsaw_block: packet_codec update_jigsaw_block_encode update_jigsaw_block_decode wf_update_jigsaw_block
  by unfold_locales
     (auto simp: update_jigsaw_block_encode_def update_jigsaw_block_decode_def wf_update_jigsaw_block_def packet_wf intro!: carries_rules safe_rules)

record update_structure_block =
  usb_location :: "i32 \<times> i32 \<times> i32"
  usb_action :: i32
  usb_mode :: i32
  usb_name :: rstring
  usb_offset :: "i8 \<times> i8 \<times> i8"
  usb_size :: "i8 \<times> i8 \<times> i8"
  usb_mirror :: i32
  usb_rotation :: i32
  usb_metadata :: rstring
  usb_integrity :: f32
  usb_seed :: i64
  usb_flags :: i8

definition update_structure_block_id :: i32 where "update_structure_block_id = 0x39"

definition update_structure_block_decode :: "update_structure_block io" where
  "update_structure_block_decode =
     bindE get_position (\<lambda>location.
     bindE get_varint (\<lambda>action.
     bindE get_varint (\<lambda>mode.
     bindE get_string (\<lambda>name.
     bindE (get_triple get_i8) (\<lambda>offset.
     bindE (get_triple get_i8) (\<lambda>size.
     bindE get_varint (\<lambda>mirror.
     bindE get_varint (\<lambda>rotation.
     bindE get_string (\<lambda>metadata.
     bindE get_f32 (\<lambda>integrity.
     bindE get_i64 (\<lambda>seed.
     bindE get_i8 (\<lambda>flags.
     ret \<lparr>usb_location = location, usb_action = action, usb_mode = mode, usb_name = name,
        usb_offset = offset, usb_size = size, usb_mirror = mirror, usb_rotation = rotation,
        usb_metadata = metadata, usb_integrity = integrity, usb_seed = seed,
        usb_flags = flags\<rparr>))))))))))))"

definition update_structure_block_encode :: "update_structure_block \<Rightarrow> unit io" where
  "update_structure_block_encode p =
    seqE (put_position (usb_location p))
    (seqE (put_varint (usb_action p))
    (seqE (put_varint (usb_mode p))
    (seqE (put_string (usb_name p))
    (seqE (put_triple put_i8 (usb_offset p))
    (seqE (put_triple put_i8 (usb_size p))
    (seqE (put_varint (usb_mirror p))
    (seqE (put_varint (usb_rotation p))
    (seqE (put_string (usb_metadata p))
    (seqE (put_f32 (usb_integrity p))
    (seqE (put_i64 (usb_seed p))
    (seqE (put_i8 (usb_flags p)) put_end)))))))))))"

definition wf_update_structure_block :: "update_structure_block \<Rightarrow> bool" where
  "wf_update_structure_block p \<longleftrightarrow> wf_position (usb_location p) \<and> wf_string (usb_name p) \<and>
     wf_string (usb_metadata p)"

interpretation update_structure_block: packet_codec update_structure_block_encode update_structure_block_decode wf_update_structure_block
  by unfold_locales
     (auto simp: update_structure_block_encode_def update_structure_block_decode_def wf_update_structure_block_def packet_wf intro!: carries_rules safe_rules)

record set_test_block =
  stb_block_position :: "i32 \<times> i32 \<times> i32"
  stb_mode :: i32
  stb_message :: rstring

definition set_test_block_id :: i32 where "set_test_block_id = 0x3a"

definition set_test_block_decode :: "set_test_block io" where
  "set_test_block_decode =
     bindE get_position (\<lambda>block_position.
     bindE get_varint (\<lambda>mode.
     bindE get_string (\<lambda>message.
     ret \<lparr>stb_block_position = block_position, stb_mode = mode,
        stb_message = message\<rparr>)))"

definition set_test_block_encode :: "set_test_block \<Rightarrow> unit io" where
  "set_test_block_encode p =
    seqE (put_position (stb_block_position p))
    (seqE (put_varint (stb_mode p))
    (seqE (put_string (stb_message p)) put_end))"

definition wf_set_test_block :: "set_test_block \<Rightarrow> bool" where
  "wf_set_test_block p \<longleftrightarrow> wf_position (stb_block_position p) \<and> wf_string (stb_message p)"

interpretation set_test_block: packet_codec set_test_block_encode set_test_block_decode wf_set_test_block
  by unfold_locales
     (auto simp: set_test_block_encode_def set_test_block_decode_def wf_set_test_block_def packet_wf intro!: carries_rules safe_rules)

record update_sign =
  us_block_position :: "i32 \<times> i32 \<times> i32"
  us_is_front_text :: bool
  us_lines :: "rstring list"

definition update_sign_id :: i32 where "update_sign_id = 0x3b"

definition update_sign_decode :: "update_sign io" where
  "update_sign_decode =
     bindE get_position (\<lambda>block_position.
     bindE get_bool (\<lambda>is_front_text.
     bindE (get_n 4 get_string) (\<lambda>lines.
     ret \<lparr>us_block_position = block_position, us_is_front_text = is_front_text, us_lines = lines\<rparr>)))"

definition update_sign_encode :: "update_sign \<Rightarrow> unit io" where
  "update_sign_encode p =
    (if length (us_lines p) \<noteq> 4 then throw InvalidValue
     else
       seqE (put_position (us_block_position p))
       (seqE (put_bool (us_is_front_text p))
       (seqE (put_each put_string (us_lines p)) put_end)))"

definition wf_update_sign :: "update_sign \<Rightarrow> bool" where
  "wf_update_sign p \<longleftrightarrow> wf_position (us_block_position p) \<and> length (us_lines p) = 4 \<and>
     list_all wf_string (us_lines p)"

lemma carries_lines [carries_rules]:
  "length vs = n \<Longrightarrow> list_all wf_string vs \<Longrightarrow> carries (put_each put_string vs) (get_n n get_string) vs"
  using carries_each [of vs put_string get_string] carries_string by (auto simp: list_all_iff)

interpretation update_sign: packet_codec update_sign_encode update_sign_decode wf_update_sign
  by unfold_locales
     (auto simp: update_sign_encode_def update_sign_decode_def wf_update_sign_def
       intro!: carries_rules safe_rules)

record animation =
  anim_hand :: i32

definition animation_id :: i32 where "animation_id = 0x3c"

definition animation_decode :: "animation io" where
  "animation_decode =
     bindE get_varint (\<lambda>hand.
     ret \<lparr>anim_hand = hand\<rparr>)"

definition animation_encode :: "animation \<Rightarrow> unit io" where
  "animation_encode p =
    seqE (put_varint (anim_hand p)) put_end"

definition wf_animation :: "animation \<Rightarrow> bool" where
  "wf_animation p \<longleftrightarrow> True"

interpretation animation: packet_codec animation_encode animation_decode wf_animation
  by unfold_locales
     (auto simp: animation_encode_def animation_decode_def wf_animation_def packet_wf intro!: carries_rules safe_rules)

record spectate =
  spec_target :: uuid

definition spectate_id :: i32 where "spectate_id = 0x3d"

definition spectate_decode :: "spectate io" where
  "spectate_decode =
     bindE get_uuid (\<lambda>target.
     ret \<lparr>spec_target = target\<rparr>)"

definition spectate_encode :: "spectate \<Rightarrow> unit io" where
  "spectate_encode p =
    seqE (put_uuid (spec_target p)) put_end"

definition wf_spectate :: "spectate \<Rightarrow> bool" where
  "wf_spectate p \<longleftrightarrow> wf_uuid (spec_target p)"

interpretation spectate: packet_codec spectate_encode spectate_decode wf_spectate
  by unfold_locales
     (auto simp: spectate_encode_def spectate_decode_def wf_spectate_def packet_wf intro!: carries_rules safe_rules)

record test_instance_block_action_data =
  tid_test :: "rstring option"
  tid_size :: "i32 \<times> i32 \<times> i32"
  tid_rotation :: i32
  tid_ignore_entities :: bool
  tid_status :: i32
  tid_error_message :: "u8 list option"

record test_instance_block_action =
  tia_block_position :: "i32 \<times> i32 \<times> i32"
  tia_action :: i32
  tia_data :: test_instance_block_action_data

definition test_instance_block_action_id :: i32 where "test_instance_block_action_id = 0x3e"

text \<open>
  The error message is the raw NBT, its leading \<open>0x0A\<close> included. The reader takes the whole rest
  of the frame and keeps the bytes the NBT decoder consumed.
\<close>

definition get_error_message :: "u8 list option io" where
  "get_error_message =
     bindE get_bool (\<lambda>h.
       if h then
         bindE get_u8 (\<lambda>tag_id.
           if tag_id \<noteq> 0x0A then throw InvalidValue
           else bindE get_rest (\<lambda>rest.
             case decode_anonymous rest of
               Inl _ \<Rightarrow> throw UnexpectedEof
             | Inr (_, consumed) \<Rightarrow> ret (Some (0x0A # take consumed rest))))
       else ret None)"

definition put_error_message :: "u8 list option \<Rightarrow> unit io" where
  "put_error_message x = put_opt put_bytes x"

definition test_instance_block_action_decode :: "test_instance_block_action io" where
  "test_instance_block_action_decode =
     bindE get_position (\<lambda>block_position.
     bindE get_varint (\<lambda>action.
     bindE (get_opt get_string) (\<lambda>test.
     bindE (get_triple get_varint) (\<lambda>size.
     bindE get_varint (\<lambda>rotation.
     bindE get_bool (\<lambda>ignore_entities.
     bindE get_varint (\<lambda>status.
     bindE get_error_message (\<lambda>error_message.
     ret \<lparr>tia_block_position = block_position, tia_action = action,
        tia_data = \<lparr>tid_test = test, tid_size = size, tid_rotation = rotation,
          tid_ignore_entities = ignore_entities, tid_status = status,
          tid_error_message = error_message\<rparr>\<rparr>))))))))"

definition test_instance_block_action_encode :: "test_instance_block_action \<Rightarrow> unit io" where
  "test_instance_block_action_encode p =
    seqE (put_position (tia_block_position p))
    (seqE (put_varint (tia_action p))
    (seqE (put_opt put_string (tid_test (tia_data p)))
    (seqE (put_triple put_varint (tid_size (tia_data p)))
    (seqE (put_varint (tid_rotation (tia_data p)))
    (seqE (put_bool (tid_ignore_entities (tia_data p)))
    (seqE (put_varint (tid_status (tia_data p)))
    (put_error_message (tid_error_message (tia_data p)))))))))"

definition wf_error_message :: "u8 list option \<Rightarrow> bool" where
  "wf_error_message x \<longleftrightarrow>
     (case x of
        None \<Rightarrow> True
      | Some raw \<Rightarrow> (case raw of
            [] \<Rightarrow> False
          | b # nbt \<Rightarrow> b = 0x0A \<and>
              (case decode_anonymous nbt of Inl _ \<Rightarrow> False | Inr (_, consumed) \<Rightarrow> consumed = length nbt)))"

definition wf_test_instance_block_action :: "test_instance_block_action \<Rightarrow> bool" where
  "wf_test_instance_block_action p \<longleftrightarrow> wf_position (tia_block_position p) \<and>
     pred_option wf_string (tid_test (tia_data p)) \<and> wf_error_message (tid_error_message (tia_data p))"

lemma ends_error_message:
  assumes "wf_error_message x"
  shows "ends (put_error_message x) get_error_message x"
proof (cases x)
  case None
  have "carries (put_bool False) get_error_message None"
    unfolding get_error_message_def by (rule carries_tail [OF carries_bool]) (simp add: carries_ret)
  with None show ?thesis by (simp add: put_error_message_def put_opt_def carries_ends)
next
  case (Some raw)
  with assms obtain nbt tag where raw: "raw = 0x0A # nbt" "decode_anonymous nbt = Inr (tag, length nbt)"
    by (auto simp: wf_error_message_def split: list.splits sum.splits)
  have "writes (seqE (put_bool True) (put_bytes raw)) ([1] @ raw)"
    unfolding put_bool_def put_bytes_def by (rule writes_bind) (simp_all add: writes_put_raw)
  moreover have "fst (get_error_message (cursor pre ([1] @ raw))) = Inr (Some raw)" for pre
  proof -
    have rest: "get_rest (cursor (pre @ [1, 0x0A]) nbt) = (Inr nbt, cursor (pre @ [1, 0x0A] @ nbt) [])"
      by (simp add: get_rest_def get_bytes_def get_range_def remaining_def cursor_def Let_def)
    show ?thesis
      by (simp add: get_error_message_def get_bool_def bindE_def ret_def raw rest)
  qed
  ultimately show ?thesis by (auto simp: ends_def Some put_error_message_def put_opt_def)
qed

lemma safe_error_message [safe_rules]: "cursor_safe get_error_message"
  unfolding get_error_message_def
  by (intro safe_bind safe_rest safe_if safe_rules) (auto intro: safe_rules split: sum.split)

lemma test_instance_block_action_body:
  "wf_test_instance_block_action p \<Longrightarrow>
   ends (test_instance_block_action_encode p) test_instance_block_action_decode p"
  by (cases p, cases "tia_data p")
     (auto simp: test_instance_block_action_encode_def test_instance_block_action_decode_def
       wf_test_instance_block_action_def intro!: ends_bind ends_last [OF ends_error_message] carries_rules)

interpretation test_instance_block_action:
  body_codec test_instance_block_action_encode test_instance_block_action_decode
    wf_test_instance_block_action
  by (unfold_locales, rule test_instance_block_action_body, assumption,
      unfold test_instance_block_action_decode_def) (intro safe_rules)

record player_block_placement =
  pbp_hand :: i32
  pbp_block_position :: "i32 \<times> i32 \<times> i32"
  pbp_block_face :: i32
  pbp_cursor_position_x :: f32
  pbp_cursor_position_y :: f32
  pbp_cursor_position_z :: f32
  pbp_inside_block :: bool
  pbp_hit_world_border :: bool
  pbp_sequence :: i32

definition player_block_placement_id :: i32 where "player_block_placement_id = 0x3f"

definition player_block_placement_decode :: "player_block_placement io" where
  "player_block_placement_decode =
     bindE get_varint (\<lambda>hand.
     bindE get_position (\<lambda>block_position.
     bindE get_varint (\<lambda>block_face.
     bindE get_f32 (\<lambda>cursor_position_x.
     bindE get_f32 (\<lambda>cursor_position_y.
     bindE get_f32 (\<lambda>cursor_position_z.
     bindE get_bool (\<lambda>inside_block.
     bindE get_bool (\<lambda>hit_world_border.
     bindE get_varint (\<lambda>sequence.
     ret \<lparr>pbp_hand = hand, pbp_block_position = block_position,
        pbp_block_face = block_face, pbp_cursor_position_x = cursor_position_x,
        pbp_cursor_position_y = cursor_position_y, pbp_cursor_position_z = cursor_position_z,
        pbp_inside_block = inside_block, pbp_hit_world_border = hit_world_border,
        pbp_sequence = sequence\<rparr>)))))))))"

definition player_block_placement_encode :: "player_block_placement \<Rightarrow> unit io" where
  "player_block_placement_encode p =
    seqE (put_varint (pbp_hand p))
    (seqE (put_position (pbp_block_position p))
    (seqE (put_varint (pbp_block_face p))
    (seqE (put_f32 (pbp_cursor_position_x p))
    (seqE (put_f32 (pbp_cursor_position_y p))
    (seqE (put_f32 (pbp_cursor_position_z p))
    (seqE (put_bool (pbp_inside_block p))
    (seqE (put_bool (pbp_hit_world_border p))
    (seqE (put_varint (pbp_sequence p)) put_end))))))))"

definition wf_player_block_placement :: "player_block_placement \<Rightarrow> bool" where
  "wf_player_block_placement p \<longleftrightarrow> wf_position (pbp_block_position p)"

interpretation player_block_placement: packet_codec player_block_placement_encode player_block_placement_decode wf_player_block_placement
  by unfold_locales
     (auto simp: player_block_placement_encode_def player_block_placement_decode_def wf_player_block_placement_def packet_wf intro!: carries_rules safe_rules)

record use_item =
  ui_hand :: i32
  ui_sequence :: i32
  ui_yaw :: f32
  ui_pitch :: f32

definition use_item_id :: i32 where "use_item_id = 0x40"

definition use_item_decode :: "use_item io" where
  "use_item_decode =
     bindE get_varint (\<lambda>hand.
     bindE get_varint (\<lambda>sequence.
     bindE get_f32 (\<lambda>yaw.
     bindE get_f32 (\<lambda>pitch.
     ret \<lparr>ui_hand = hand, ui_sequence = sequence, ui_yaw = yaw, ui_pitch = pitch\<rparr>))))"

definition use_item_encode :: "use_item \<Rightarrow> unit io" where
  "use_item_encode p =
    seqE (put_varint (ui_hand p))
    (seqE (put_varint (ui_sequence p))
    (seqE (put_f32 (ui_yaw p))
    (seqE (put_f32 (ui_pitch p)) put_end)))"

definition wf_use_item :: "use_item \<Rightarrow> bool" where
  "wf_use_item p \<longleftrightarrow> True"

interpretation use_item: packet_codec use_item_encode use_item_decode wf_use_item
  by unfold_locales
     (auto simp: use_item_encode_def use_item_decode_def wf_use_item_def packet_wf intro!: carries_rules safe_rules)

record custom_click_action =
  ccla_key :: rstring
  ccla_payload :: "u8 list"

definition custom_click_action_id :: i32 where "custom_click_action_id = 0x41"

definition custom_click_action_decode :: "custom_click_action io" where
  "custom_click_action_decode =
     bindE get_string (\<lambda>key.
     bindE get_byte_array (\<lambda>payload.
     ret \<lparr>ccla_key = key, ccla_payload = payload\<rparr>))"

definition custom_click_action_encode :: "custom_click_action \<Rightarrow> unit io" where
  "custom_click_action_encode p =
    seqE (put_string (ccla_key p))
    (seqE (put_byte_array (ccla_payload p)) put_end)"

definition wf_custom_click_action :: "custom_click_action \<Rightarrow> bool" where
  "wf_custom_click_action p \<longleftrightarrow> wf_string (ccla_key p) \<and> wf_bytes (ccla_payload p)"

interpretation custom_click_action: packet_codec custom_click_action_encode custom_click_action_decode wf_custom_click_action
  by unfold_locales
     (auto simp: custom_click_action_encode_def custom_click_action_decode_def wf_custom_click_action_def packet_wf intro!: carries_rules safe_rules)

record held_item_change =
  hic_slot :: i8

definition held_item_change_id :: i32 where "held_item_change_id = 0x67"

definition held_item_change_decode :: "held_item_change io" where
  "held_item_change_decode =
     bindE get_i8 (\<lambda>slot.
     ret \<lparr>hic_slot = slot\<rparr>)"

definition held_item_change_encode :: "held_item_change \<Rightarrow> unit io" where
  "held_item_change_encode p =
    seqE (put_i8 (hic_slot p)) put_end"

definition wf_held_item_change :: "held_item_change \<Rightarrow> bool" where
  "wf_held_item_change p \<longleftrightarrow> True"

interpretation held_item_change: packet_codec held_item_change_encode held_item_change_decode wf_held_item_change
  by unfold_locales
     (auto simp: held_item_change_encode_def held_item_change_decode_def wf_held_item_change_def packet_wf intro!: carries_rules safe_rules)

end
