(* ===== verification/Dispatch.thy ===== *)
theory Dispatch
  imports Packets_Play_C Connection
begin

text \<open>
  The dispatcher (\<open>protocol/dispatch.rs\<close>) and the union of the serverbound packets
  (\<open>InboundPacket\<close> in \<open>protocol/packets/mod.rs\<close>). The play phase matches on 66 packet ids; the
  match is the table \<open>play_table\<close>. The clients side of the theory is what a well-behaved peer
  sends: for every serverbound packet the phase, the id and the body.
\<close>

section \<open>Inbound packets\<close>

datatype (plugins only: code) inbound_packet =
    InIntention intention
  | InStatusRequest
  | InPing ping
  | InHello hello
  | InLoginChallenge login_challenge
  | InClientInformation client_information
  | InLoginAcknowledged
  | InFinishConfiguration
  | InTeleportConfirm teleport_confirm
  | InClickContainer click_container
  | InCloseContainer close_container
  | InHeldItemChange client_held_item_change
  | InChunkBatchReceived chunk_batch_received
  | InClientStatus client_status
  | InClientCommandChat client_command_chat
  | InClientSignedCommandChat client_signed_command_chat
  | InKeepAlive keep_alive
  | InPlayerPosition player_position
  | InPlayerPositionAndRotation player_position_and_rotation
  | InLook look
  | InPlayerPositionStatus player_position_status
  | InPlayerLoaded player_loaded
  | InQueryBlockNbt query_block_nbt
  | InSelectBundleItem select_bundle_item
  | InChangeDifficulty change_difficulty
  | InChangeGameMode change_game_mode
  | InChatAck chat_ack
  | InChatMessage chat_message
  | InChatSessionUpdate chat_session_update
  | InTickEnd tick_end
  | InSettings settings
  | InTabComplete tab_complete
  | InConfigurationAck configuration_ack
  | InClickWindowButton click_window_button
  | InWindowSlotState window_slot_state
  | InCookieResponse cookie_response
  | InClientPluginMessage client_plugin_message
  | InDebugSubscriptionRequest debug_subscription_request
  | InEditBook edit_book
  | InQueryEntityNbt query_entity_nbt
  | InInteractEntity interact_entity
  | InGenerateStructure generate_structure
  | InLockDifficulty lock_difficulty
  | InVehicleMove vehicle_move
  | InSteerBoat steer_boat
  | InPickItemFromBlock pick_item_from_block
  | InPickItemFromEntity pick_item_from_entity
  | InPingRequest ping_request
  | InPlaceRecipe place_recipe
  | InPlayerAbilities player_abilities
  | InPlayerAction player_action
  | InEntityAction entity_action
  | InInput player_input
  | InPong pong
  | InSetRecipeBookState set_recipe_book_state
  | InRecipeBookSeenRecipe recipe_book_seen_recipe
  | InNameItem name_item
  | InResourcePackStatus resource_pack_status
  | InAdvancementTab advancement_tab
  | InSelectTrade select_trade
  | InSetBeaconEffect set_beacon_effect
  | InUpdateCommandBlock update_command_block
  | InUpdateCommandBlockMinecart update_command_block_minecart
  | InCreativeInventoryAction creative_inventory_action
  | InUpdateJigsawBlock update_jigsaw_block
  | InUpdateStructureBlock update_structure_block
  | InSetTestBlock set_test_block
  | InUpdateSign update_sign
  | InAnimation animation
  | InSpectate spectate
  | InTestInstanceBlockAction test_instance_block_action
  | InPlayerBlockPlacement player_block_placement
  | InUseItem use_item
  | InCustomClickAction custom_click_action
  | InIgnored i32

section \<open>Dispatch\<close>

definition arm :: "('a \<Rightarrow> inbound_packet) \<Rightarrow> 'a io \<Rightarrow> inbound_packet io" where
  "arm wrap decode = bindE decode (\<lambda>p. ret (wrap p))"

definition play_table :: "(i32 \<times> inbound_packet io) list" where
  "play_table =
    [(0x00, arm InTeleportConfirm teleport_confirm_decode),
     (0x11, arm InClickContainer click_container_decode),
     (0x12, arm InCloseContainer close_container_decode),
     (0x34, arm InHeldItemChange client_held_item_change_decode),
     (0x0a, arm InChunkBatchReceived chunk_batch_received_decode),
     (0x0b, arm InClientStatus client_status_decode),
     (0x06, arm InClientCommandChat client_command_chat_decode),
     (0x07, arm InClientSignedCommandChat client_signed_command_chat_decode),
     (0x1b, arm InKeepAlive keep_alive_decode),
     (0x1d, arm InPlayerPosition player_position_decode),
     (0x1e, arm InPlayerPositionAndRotation player_position_and_rotation_decode),
     (0x1f, arm InLook look_decode),
     (0x20, arm InPlayerPositionStatus player_position_status_decode),
     (0x2b, arm InPlayerLoaded player_loaded_decode),
     (0x01, arm InQueryBlockNbt query_block_nbt_decode),
     (0x02, arm InSelectBundleItem select_bundle_item_decode),
     (0x03, arm InChangeDifficulty change_difficulty_decode),
     (0x04, arm InChangeGameMode change_game_mode_decode),
     (0x05, arm InChatAck chat_ack_decode),
     (0x08, arm InChatMessage chat_message_decode),
     (0x09, arm InChatSessionUpdate chat_session_update_decode),
     (0x0c, arm InTickEnd tick_end_decode),
     (0x0d, arm InSettings settings_decode),
     (0x0e, arm InTabComplete tab_complete_decode),
     (0x0f, arm InConfigurationAck configuration_ack_decode),
     (0x10, arm InClickWindowButton click_window_button_decode),
     (0x13, arm InWindowSlotState window_slot_state_decode),
     (0x14, arm InCookieResponse cookie_response_decode),
     (0x15, arm InClientPluginMessage client_plugin_message_decode),
     (0x16, arm InDebugSubscriptionRequest debug_subscription_request_decode),
     (0x17, arm InEditBook edit_book_decode),
     (0x18, arm InQueryEntityNbt query_entity_nbt_decode),
     (0x19, arm InInteractEntity interact_entity_decode),
     (0x1a, arm InGenerateStructure generate_structure_decode),
     (0x1c, arm InLockDifficulty lock_difficulty_decode),
     (0x21, arm InVehicleMove vehicle_move_decode),
     (0x22, arm InSteerBoat steer_boat_decode),
     (0x23, arm InPickItemFromBlock pick_item_from_block_decode),
     (0x24, arm InPickItemFromEntity pick_item_from_entity_decode),
     (0x25, arm InPingRequest ping_request_decode),
     (0x26, arm InPlaceRecipe place_recipe_decode),
     (0x27, arm InPlayerAbilities player_abilities_decode),
     (0x28, arm InPlayerAction player_action_decode),
     (0x29, arm InEntityAction entity_action_decode),
     (0x2a, arm InInput player_input_decode),
     (0x2c, arm InPong pong_decode),
     (0x2d, arm InSetRecipeBookState set_recipe_book_state_decode),
     (0x2e, arm InRecipeBookSeenRecipe recipe_book_seen_recipe_decode),
     (0x2f, arm InNameItem name_item_decode),
     (0x30, arm InResourcePackStatus resource_pack_status_decode),
     (0x31, arm InAdvancementTab advancement_tab_decode),
     (0x32, arm InSelectTrade select_trade_decode),
     (0x33, arm InSetBeaconEffect set_beacon_effect_decode),
     (0x35, arm InUpdateCommandBlock update_command_block_decode),
     (0x36, arm InUpdateCommandBlockMinecart update_command_block_minecart_decode),
     (0x37, arm InCreativeInventoryAction creative_inventory_action_decode),
     (0x38, arm InUpdateJigsawBlock update_jigsaw_block_decode),
     (0x39, arm InUpdateStructureBlock update_structure_block_decode),
     (0x3a, arm InSetTestBlock set_test_block_decode),
     (0x3b, arm InUpdateSign update_sign_decode),
     (0x3c, arm InAnimation animation_decode),
     (0x3d, arm InSpectate spectate_decode),
     (0x3e, arm InTestInstanceBlockAction test_instance_block_action_decode),
     (0x3f, arm InPlayerBlockPlacement player_block_placement_decode),
     (0x40, arm InUseItem use_item_decode),
     (0x41, arm InCustomClickAction custom_click_action_decode)]"

definition unknown :: "connection_state \<Rightarrow> i32 \<Rightarrow> protocol_error + inbound_packet" where
  "unknown s packet_id = Inl (UnknownPacket (state_name s) packet_id)"

definition dispatch :: "connection_state \<Rightarrow> i32 \<Rightarrow> u8 list \<Rightarrow> protocol_error + inbound_packet" where
  "dispatch s packet_id payload =
     (let buf = bb_new payload in
      case s of
        Handshake \<Rightarrow>
          if packet_id = 0x00 then fst (arm InIntention intention_decode buf)
          else unknown s packet_id
      | Status \<Rightarrow>
          if packet_id = 0x00 then Inr InStatusRequest
          else if packet_id = 0x01 then fst (arm InPing ping_decode buf)
          else unknown s packet_id
      | Login \<Rightarrow>
          if packet_id = 0x00 then fst (arm InHello hello_decode buf)
          else if packet_id = 0x01 then fst (arm InLoginChallenge login_challenge_decode buf)
          else if packet_id = 0x02 then Inr (InIgnored packet_id)
          else if packet_id = 0x03 then Inr InLoginAcknowledged
          else unknown s packet_id
      | Configuration \<Rightarrow>
          if packet_id = 0x00 then Inr (InClientInformation ClientInformation)
          else if packet_id \<in> {0x01, 0x02, 0x04, 0x05, 0x06} then Inr (InIgnored packet_id)
          else if packet_id = 0x03 then Inr InFinishConfiguration
          else unknown s packet_id
      | Play \<Rightarrow>
          (case map_of play_table packet_id of
             Some decode \<Rightarrow> fst (decode buf)
           | None \<Rightarrow> Inr (InIgnored packet_id)))"

text \<open>\<open>encode_clientbound\<close>: packet id and body; an encoding error gives an empty payload.\<close>

definition encode_clientbound :: "i32 \<Rightarrow> unit io \<Rightarrow> u8 list" where
  "encode_clientbound packet_id encode =
     (case seqE (put_varint packet_id) encode (bb_with_capacity 64) of
        (Inr _, buf) \<Rightarrow> into_inner buf
      | (Inl _, _) \<Rightarrow> [])"

section \<open>What a peer sends\<close>

text \<open>Phase, id and encoder of a serverbound packet, and the packets the wire can carry.\<close>

definition sent :: "inbound_packet \<Rightarrow> connection_state \<times> i32 \<times> unit io" where
  "sent p =
     (case p of
        InIntention q \<Rightarrow> (Handshake, intention_id, intention_encode q)
      | InStatusRequest \<Rightarrow> (Status, status_request_id, status_request_encode StatusRequest)
      | InPing q \<Rightarrow> (Status, ping_id, ping_encode q)
      | InHello q \<Rightarrow> (Login, hello_id, hello_encode q)
      | InLoginChallenge q \<Rightarrow> (Login, login_challenge_id, login_challenge_encode q)
      | InClientInformation q \<Rightarrow> (Configuration, client_information_id, client_information_encode q)
      | InLoginAcknowledged \<Rightarrow> (Login, 0x03, put_end)
      | InFinishConfiguration \<Rightarrow>
          (Configuration, finish_configuration_c2s_id, finish_configuration_c2s_encode FinishConfigurationC2S)
      | InTeleportConfirm q \<Rightarrow> (Play, teleport_confirm_id, teleport_confirm_encode q)
      | InClickContainer q \<Rightarrow> (Play, click_container_id, click_container_encode q)
      | InCloseContainer q \<Rightarrow> (Play, close_container_id, close_container_encode q)
      | InHeldItemChange q \<Rightarrow> (Play, client_held_item_change_id, client_held_item_change_encode q)
      | InChunkBatchReceived q \<Rightarrow> (Play, chunk_batch_received_id, chunk_batch_received_encode q)
      | InClientStatus q \<Rightarrow> (Play, client_status_id, client_status_encode q)
      | InClientCommandChat q \<Rightarrow> (Play, client_command_chat_id, client_command_chat_encode q)
      | InClientSignedCommandChat q \<Rightarrow> (Play, client_signed_command_chat_id, client_signed_command_chat_encode q)
      | InKeepAlive q \<Rightarrow> (Play, keep_alive_id, keep_alive_encode q)
      | InPlayerPosition q \<Rightarrow> (Play, player_position_id, player_position_encode q)
      | InPlayerPositionAndRotation q \<Rightarrow> (Play, player_position_and_rotation_id, player_position_and_rotation_encode q)
      | InLook q \<Rightarrow> (Play, look_id, look_encode q)
      | InPlayerPositionStatus q \<Rightarrow> (Play, player_position_status_id, player_position_status_encode q)
      | InPlayerLoaded q \<Rightarrow> (Play, player_loaded_id, player_loaded_encode q)
      | InQueryBlockNbt q \<Rightarrow> (Play, query_block_nbt_id, query_block_nbt_encode q)
      | InSelectBundleItem q \<Rightarrow> (Play, select_bundle_item_id, select_bundle_item_encode q)
      | InChangeDifficulty q \<Rightarrow> (Play, change_difficulty_id, change_difficulty_encode q)
      | InChangeGameMode q \<Rightarrow> (Play, change_game_mode_id, change_game_mode_encode q)
      | InChatAck q \<Rightarrow> (Play, chat_ack_id, chat_ack_encode q)
      | InChatMessage q \<Rightarrow> (Play, chat_message_id, chat_message_encode q)
      | InChatSessionUpdate q \<Rightarrow> (Play, chat_session_update_id, chat_session_update_encode q)
      | InTickEnd q \<Rightarrow> (Play, tick_end_id, tick_end_encode q)
      | InSettings q \<Rightarrow> (Play, settings_id, settings_encode q)
      | InTabComplete q \<Rightarrow> (Play, tab_complete_id, tab_complete_encode q)
      | InConfigurationAck q \<Rightarrow> (Play, configuration_ack_id, configuration_ack_encode q)
      | InClickWindowButton q \<Rightarrow> (Play, click_window_button_id, click_window_button_encode q)
      | InWindowSlotState q \<Rightarrow> (Play, window_slot_state_id, window_slot_state_encode q)
      | InCookieResponse q \<Rightarrow> (Play, cookie_response_id, cookie_response_encode q)
      | InClientPluginMessage q \<Rightarrow> (Play, client_plugin_message_id, client_plugin_message_encode q)
      | InDebugSubscriptionRequest q \<Rightarrow> (Play, debug_subscription_request_id, debug_subscription_request_encode q)
      | InEditBook q \<Rightarrow> (Play, edit_book_id, edit_book_encode q)
      | InQueryEntityNbt q \<Rightarrow> (Play, query_entity_nbt_id, query_entity_nbt_encode q)
      | InInteractEntity q \<Rightarrow> (Play, interact_entity_id, interact_entity_encode q)
      | InGenerateStructure q \<Rightarrow> (Play, generate_structure_id, generate_structure_encode q)
      | InLockDifficulty q \<Rightarrow> (Play, lock_difficulty_id, lock_difficulty_encode q)
      | InVehicleMove q \<Rightarrow> (Play, vehicle_move_id, vehicle_move_encode q)
      | InSteerBoat q \<Rightarrow> (Play, steer_boat_id, steer_boat_encode q)
      | InPickItemFromBlock q \<Rightarrow> (Play, pick_item_from_block_id, pick_item_from_block_encode q)
      | InPickItemFromEntity q \<Rightarrow> (Play, pick_item_from_entity_id, pick_item_from_entity_encode q)
      | InPingRequest q \<Rightarrow> (Play, ping_request_id, ping_request_encode q)
      | InPlaceRecipe q \<Rightarrow> (Play, place_recipe_id, place_recipe_encode q)
      | InPlayerAbilities q \<Rightarrow> (Play, player_abilities_id, player_abilities_encode q)
      | InPlayerAction q \<Rightarrow> (Play, player_action_id, player_action_encode q)
      | InEntityAction q \<Rightarrow> (Play, entity_action_id, entity_action_encode q)
      | InInput q \<Rightarrow> (Play, player_input_id, player_input_encode q)
      | InPong q \<Rightarrow> (Play, pong_id, pong_encode q)
      | InSetRecipeBookState q \<Rightarrow> (Play, set_recipe_book_state_id, set_recipe_book_state_encode q)
      | InRecipeBookSeenRecipe q \<Rightarrow> (Play, recipe_book_seen_recipe_id, recipe_book_seen_recipe_encode q)
      | InNameItem q \<Rightarrow> (Play, name_item_id, name_item_encode q)
      | InResourcePackStatus q \<Rightarrow> (Play, resource_pack_status_id, resource_pack_status_encode q)
      | InAdvancementTab q \<Rightarrow> (Play, advancement_tab_id, advancement_tab_encode q)
      | InSelectTrade q \<Rightarrow> (Play, select_trade_id, select_trade_encode q)
      | InSetBeaconEffect q \<Rightarrow> (Play, set_beacon_effect_id, set_beacon_effect_encode q)
      | InUpdateCommandBlock q \<Rightarrow> (Play, update_command_block_id, update_command_block_encode q)
      | InUpdateCommandBlockMinecart q \<Rightarrow> (Play, update_command_block_minecart_id, update_command_block_minecart_encode q)
      | InCreativeInventoryAction q \<Rightarrow> (Play, creative_inventory_action_id, creative_inventory_action_encode q)
      | InUpdateJigsawBlock q \<Rightarrow> (Play, update_jigsaw_block_id, update_jigsaw_block_encode q)
      | InUpdateStructureBlock q \<Rightarrow> (Play, update_structure_block_id, update_structure_block_encode q)
      | InSetTestBlock q \<Rightarrow> (Play, set_test_block_id, set_test_block_encode q)
      | InUpdateSign q \<Rightarrow> (Play, update_sign_id, update_sign_encode q)
      | InAnimation q \<Rightarrow> (Play, animation_id, animation_encode q)
      | InSpectate q \<Rightarrow> (Play, spectate_id, spectate_encode q)
      | InTestInstanceBlockAction q \<Rightarrow> (Play, test_instance_block_action_id, test_instance_block_action_encode q)
      | InPlayerBlockPlacement q \<Rightarrow> (Play, player_block_placement_id, player_block_placement_encode q)
      | InUseItem q \<Rightarrow> (Play, use_item_id, use_item_encode q)
      | InCustomClickAction q \<Rightarrow> (Play, custom_click_action_id, custom_click_action_encode q)
      | InIgnored k \<Rightarrow> (Play, k, put_end))"

definition wf_inbound :: "inbound_packet \<Rightarrow> bool" where
  "wf_inbound p \<longleftrightarrow>
     (case p of
        InIntention q \<Rightarrow> wf_intention q
      | InStatusRequest \<Rightarrow> True
      | InPing q \<Rightarrow> wf_ping q
      | InHello q \<Rightarrow> wf_hello q
      | InLoginChallenge q \<Rightarrow> wf_login_challenge q
      | InClientInformation q \<Rightarrow> True
      | InLoginAcknowledged \<Rightarrow> True
      | InFinishConfiguration \<Rightarrow> True
      | InTeleportConfirm q \<Rightarrow> wf_teleport_confirm q
      | InClickContainer q \<Rightarrow> wf_click_container q
      | InCloseContainer q \<Rightarrow> wf_close_container q
      | InHeldItemChange q \<Rightarrow> wf_client_held_item_change q
      | InChunkBatchReceived q \<Rightarrow> wf_chunk_batch_received q
      | InClientStatus q \<Rightarrow> wf_client_status q
      | InClientCommandChat q \<Rightarrow> wf_client_command_chat q
      | InClientSignedCommandChat q \<Rightarrow> wf_client_signed_command_chat q
      | InKeepAlive q \<Rightarrow> wf_keep_alive q
      | InPlayerPosition q \<Rightarrow> wf_player_position q
      | InPlayerPositionAndRotation q \<Rightarrow> wf_player_position_and_rotation q
      | InLook q \<Rightarrow> wf_look q
      | InPlayerPositionStatus q \<Rightarrow> wf_player_position_status q
      | InPlayerLoaded q \<Rightarrow> wf_player_loaded q
      | InQueryBlockNbt q \<Rightarrow> wf_query_block_nbt q
      | InSelectBundleItem q \<Rightarrow> wf_select_bundle_item q
      | InChangeDifficulty q \<Rightarrow> wf_change_difficulty q
      | InChangeGameMode q \<Rightarrow> wf_change_game_mode q
      | InChatAck q \<Rightarrow> wf_chat_ack q
      | InChatMessage q \<Rightarrow> wf_chat_message q
      | InChatSessionUpdate q \<Rightarrow> wf_chat_session_update q
      | InTickEnd q \<Rightarrow> wf_tick_end q
      | InSettings q \<Rightarrow> wf_settings q
      | InTabComplete q \<Rightarrow> wf_tab_complete q
      | InConfigurationAck q \<Rightarrow> wf_configuration_ack q
      | InClickWindowButton q \<Rightarrow> wf_click_window_button q
      | InWindowSlotState q \<Rightarrow> wf_window_slot_state q
      | InCookieResponse q \<Rightarrow> wf_cookie_response q
      | InClientPluginMessage q \<Rightarrow> wf_client_plugin_message q
      | InDebugSubscriptionRequest q \<Rightarrow> wf_debug_subscription_request q
      | InEditBook q \<Rightarrow> wf_edit_book q
      | InQueryEntityNbt q \<Rightarrow> wf_query_entity_nbt q
      | InInteractEntity q \<Rightarrow> wf_interact_entity q
      | InGenerateStructure q \<Rightarrow> wf_generate_structure q
      | InLockDifficulty q \<Rightarrow> wf_lock_difficulty q
      | InVehicleMove q \<Rightarrow> wf_vehicle_move q
      | InSteerBoat q \<Rightarrow> wf_steer_boat q
      | InPickItemFromBlock q \<Rightarrow> wf_pick_item_from_block q
      | InPickItemFromEntity q \<Rightarrow> wf_pick_item_from_entity q
      | InPingRequest q \<Rightarrow> wf_ping_request q
      | InPlaceRecipe q \<Rightarrow> wf_place_recipe q
      | InPlayerAbilities q \<Rightarrow> wf_player_abilities q
      | InPlayerAction q \<Rightarrow> wf_player_action q
      | InEntityAction q \<Rightarrow> wf_entity_action q
      | InInput q \<Rightarrow> wf_player_input q
      | InPong q \<Rightarrow> wf_pong q
      | InSetRecipeBookState q \<Rightarrow> wf_set_recipe_book_state q
      | InRecipeBookSeenRecipe q \<Rightarrow> wf_recipe_book_seen_recipe q
      | InNameItem q \<Rightarrow> wf_name_item q
      | InResourcePackStatus q \<Rightarrow> wf_resource_pack_status q
      | InAdvancementTab q \<Rightarrow> wf_advancement_tab q
      | InSelectTrade q \<Rightarrow> wf_select_trade q
      | InSetBeaconEffect q \<Rightarrow> wf_set_beacon_effect q
      | InUpdateCommandBlock q \<Rightarrow> wf_update_command_block q
      | InUpdateCommandBlockMinecart q \<Rightarrow> wf_update_command_block_minecart q
      | InCreativeInventoryAction q \<Rightarrow> wf_creative_inventory_action q
      | InUpdateJigsawBlock q \<Rightarrow> wf_update_jigsaw_block q
      | InUpdateStructureBlock q \<Rightarrow> wf_update_structure_block q
      | InSetTestBlock q \<Rightarrow> wf_set_test_block q
      | InUpdateSign q \<Rightarrow> wf_update_sign q
      | InAnimation q \<Rightarrow> wf_animation q
      | InSpectate q \<Rightarrow> wf_spectate q
      | InTestInstanceBlockAction q \<Rightarrow> wf_test_instance_block_action q
      | InPlayerBlockPlacement q \<Rightarrow> wf_player_block_placement q
      | InUseItem q \<Rightarrow> wf_use_item q
      | InCustomClickAction q \<Rightarrow> wf_custom_click_action q
      | InIgnored k \<Rightarrow> k \<notin> fst ` set play_table)"

section \<open>The table\<close>

lemma play_table_keys: "map fst play_table = [0x00, 0x11, 0x12, 0x34, 0x0a, 0x0b, 0x06, 0x07, 0x1b, 0x1d, 0x1e, 0x1f, 0x20, 0x2b, 0x01, 0x02, 0x03, 0x04, 0x05, 0x08, 0x09, 0x0c, 0x0d, 0x0e, 0x0f, 0x10, 0x13, 0x14, 0x15, 0x16, 0x17, 0x18, 0x19, 0x1a, 0x1c, 0x21, 0x22, 0x23, 0x24, 0x25, 0x26, 0x27, 0x28, 0x29, 0x2a, 0x2c, 0x2d, 0x2e, 0x2f, 0x30, 0x31, 0x32, 0x33, 0x35, 0x36, 0x37, 0x38, 0x39, 0x3a, 0x3b, 0x3c, 0x3d, 0x3e, 0x3f, 0x40, 0x41]"
  by (simp add: play_table_def)

lemma play_table_distinct: "distinct (map fst play_table)"
  by (simp add: play_table_keys)

lemma play_lookup: "(k, decode) \<in> set play_table \<Longrightarrow> map_of play_table k = Some decode"
  using play_table_distinct by (rule map_of_is_SomeI)

lemmas play_ids = teleport_confirm_id_def click_container_id_def close_container_id_def client_held_item_change_id_def chunk_batch_received_id_def client_status_id_def client_command_chat_id_def client_signed_command_chat_id_def keep_alive_id_def player_position_id_def player_position_and_rotation_id_def look_id_def player_position_status_id_def player_loaded_id_def query_block_nbt_id_def select_bundle_item_id_def change_difficulty_id_def change_game_mode_id_def chat_ack_id_def chat_message_id_def chat_session_update_id_def tick_end_id_def settings_id_def tab_complete_id_def configuration_ack_id_def click_window_button_id_def window_slot_state_id_def cookie_response_id_def client_plugin_message_id_def debug_subscription_request_id_def edit_book_id_def query_entity_nbt_id_def interact_entity_id_def generate_structure_id_def lock_difficulty_id_def vehicle_move_id_def steer_boat_id_def pick_item_from_block_id_def pick_item_from_entity_id_def ping_request_id_def place_recipe_id_def player_abilities_id_def player_action_id_def entity_action_id_def player_input_id_def pong_id_def set_recipe_book_state_id_def recipe_book_seen_recipe_id_def name_item_id_def resource_pack_status_id_def advancement_tab_id_def select_trade_id_def set_beacon_effect_id_def update_command_block_id_def update_command_block_minecart_id_def creative_inventory_action_id_def update_jigsaw_block_id_def update_structure_block_id_def set_test_block_id_def update_sign_id_def animation_id_def spectate_id_def test_instance_block_action_id_def player_block_placement_id_def use_item_id_def custom_click_action_id_def

lemma play_arms:
  "(teleport_confirm_id, arm InTeleportConfirm teleport_confirm_decode) \<in> set play_table"
  "(click_container_id, arm InClickContainer click_container_decode) \<in> set play_table"
  "(close_container_id, arm InCloseContainer close_container_decode) \<in> set play_table"
  "(client_held_item_change_id, arm InHeldItemChange client_held_item_change_decode) \<in> set play_table"
  "(chunk_batch_received_id, arm InChunkBatchReceived chunk_batch_received_decode) \<in> set play_table"
  "(client_status_id, arm InClientStatus client_status_decode) \<in> set play_table"
  "(client_command_chat_id, arm InClientCommandChat client_command_chat_decode) \<in> set play_table"
  "(client_signed_command_chat_id, arm InClientSignedCommandChat client_signed_command_chat_decode) \<in> set play_table"
  "(keep_alive_id, arm InKeepAlive keep_alive_decode) \<in> set play_table"
  "(player_position_id, arm InPlayerPosition player_position_decode) \<in> set play_table"
  "(player_position_and_rotation_id, arm InPlayerPositionAndRotation player_position_and_rotation_decode) \<in> set play_table"
  "(look_id, arm InLook look_decode) \<in> set play_table"
  "(player_position_status_id, arm InPlayerPositionStatus player_position_status_decode) \<in> set play_table"
  "(player_loaded_id, arm InPlayerLoaded player_loaded_decode) \<in> set play_table"
  "(query_block_nbt_id, arm InQueryBlockNbt query_block_nbt_decode) \<in> set play_table"
  "(select_bundle_item_id, arm InSelectBundleItem select_bundle_item_decode) \<in> set play_table"
  "(change_difficulty_id, arm InChangeDifficulty change_difficulty_decode) \<in> set play_table"
  "(change_game_mode_id, arm InChangeGameMode change_game_mode_decode) \<in> set play_table"
  "(chat_ack_id, arm InChatAck chat_ack_decode) \<in> set play_table"
  "(chat_message_id, arm InChatMessage chat_message_decode) \<in> set play_table"
  "(chat_session_update_id, arm InChatSessionUpdate chat_session_update_decode) \<in> set play_table"
  "(tick_end_id, arm InTickEnd tick_end_decode) \<in> set play_table"
  "(settings_id, arm InSettings settings_decode) \<in> set play_table"
  "(tab_complete_id, arm InTabComplete tab_complete_decode) \<in> set play_table"
  "(configuration_ack_id, arm InConfigurationAck configuration_ack_decode) \<in> set play_table"
  "(click_window_button_id, arm InClickWindowButton click_window_button_decode) \<in> set play_table"
  "(window_slot_state_id, arm InWindowSlotState window_slot_state_decode) \<in> set play_table"
  "(cookie_response_id, arm InCookieResponse cookie_response_decode) \<in> set play_table"
  "(client_plugin_message_id, arm InClientPluginMessage client_plugin_message_decode) \<in> set play_table"
  "(debug_subscription_request_id, arm InDebugSubscriptionRequest debug_subscription_request_decode) \<in> set play_table"
  "(edit_book_id, arm InEditBook edit_book_decode) \<in> set play_table"
  "(query_entity_nbt_id, arm InQueryEntityNbt query_entity_nbt_decode) \<in> set play_table"
  "(interact_entity_id, arm InInteractEntity interact_entity_decode) \<in> set play_table"
  "(generate_structure_id, arm InGenerateStructure generate_structure_decode) \<in> set play_table"
  "(lock_difficulty_id, arm InLockDifficulty lock_difficulty_decode) \<in> set play_table"
  "(vehicle_move_id, arm InVehicleMove vehicle_move_decode) \<in> set play_table"
  "(steer_boat_id, arm InSteerBoat steer_boat_decode) \<in> set play_table"
  "(pick_item_from_block_id, arm InPickItemFromBlock pick_item_from_block_decode) \<in> set play_table"
  "(pick_item_from_entity_id, arm InPickItemFromEntity pick_item_from_entity_decode) \<in> set play_table"
  "(ping_request_id, arm InPingRequest ping_request_decode) \<in> set play_table"
  "(place_recipe_id, arm InPlaceRecipe place_recipe_decode) \<in> set play_table"
  "(player_abilities_id, arm InPlayerAbilities player_abilities_decode) \<in> set play_table"
  "(player_action_id, arm InPlayerAction player_action_decode) \<in> set play_table"
  "(entity_action_id, arm InEntityAction entity_action_decode) \<in> set play_table"
  "(player_input_id, arm InInput player_input_decode) \<in> set play_table"
  "(pong_id, arm InPong pong_decode) \<in> set play_table"
  "(set_recipe_book_state_id, arm InSetRecipeBookState set_recipe_book_state_decode) \<in> set play_table"
  "(recipe_book_seen_recipe_id, arm InRecipeBookSeenRecipe recipe_book_seen_recipe_decode) \<in> set play_table"
  "(name_item_id, arm InNameItem name_item_decode) \<in> set play_table"
  "(resource_pack_status_id, arm InResourcePackStatus resource_pack_status_decode) \<in> set play_table"
  "(advancement_tab_id, arm InAdvancementTab advancement_tab_decode) \<in> set play_table"
  "(select_trade_id, arm InSelectTrade select_trade_decode) \<in> set play_table"
  "(set_beacon_effect_id, arm InSetBeaconEffect set_beacon_effect_decode) \<in> set play_table"
  "(update_command_block_id, arm InUpdateCommandBlock update_command_block_decode) \<in> set play_table"
  "(update_command_block_minecart_id, arm InUpdateCommandBlockMinecart update_command_block_minecart_decode) \<in> set play_table"
  "(creative_inventory_action_id, arm InCreativeInventoryAction creative_inventory_action_decode) \<in> set play_table"
  "(update_jigsaw_block_id, arm InUpdateJigsawBlock update_jigsaw_block_decode) \<in> set play_table"
  "(update_structure_block_id, arm InUpdateStructureBlock update_structure_block_decode) \<in> set play_table"
  "(set_test_block_id, arm InSetTestBlock set_test_block_decode) \<in> set play_table"
  "(update_sign_id, arm InUpdateSign update_sign_decode) \<in> set play_table"
  "(animation_id, arm InAnimation animation_decode) \<in> set play_table"
  "(spectate_id, arm InSpectate spectate_decode) \<in> set play_table"
  "(test_instance_block_action_id, arm InTestInstanceBlockAction test_instance_block_action_decode) \<in> set play_table"
  "(player_block_placement_id, arm InPlayerBlockPlacement player_block_placement_decode) \<in> set play_table"
  "(use_item_id, arm InUseItem use_item_decode) \<in> set play_table"
  "(custom_click_action_id, arm InCustomClickAction custom_click_action_decode) \<in> set play_table"
  by (simp_all add: play_table_def play_ids)

lemma dispatch_play:
  "(k, arm wrap decode) \<in> set play_table \<Longrightarrow> fst (decode (bb_new payload)) = Inr p \<Longrightarrow>
   dispatch Play k payload = Inr (wrap p)"
  by (cases "decode (bb_new payload)")
     (simp add: dispatch_def play_lookup arm_def bindE_def ret_def)

lemma arm_fst: "fst (decode b) = Inr p \<Longrightarrow> fst (arm wrap decode b) = Inr (wrap p)"
  by (cases "decode b") (simp add: arm_def bindE_def ret_def)

section \<open>Every serverbound packet arrives\<close>

lemmas body_decodes =
  intention.body_decode ping.body.body_decode hello.body.body_decode login_challenge.body.body_decode
  teleport_confirm.body.body_decode
  click_container.body.body_decode
  close_container.body.body_decode
  client_held_item_change.body.body_decode
  chunk_batch_received.body.body_decode
  client_status.body.body_decode
  client_command_chat.body.body_decode
  client_signed_command_chat.body.body_decode
  keep_alive.body.body_decode
  player_position.body.body_decode
  player_position_and_rotation.body.body_decode
  look.body.body_decode
  player_position_status.body.body_decode
  player_loaded.body.body_decode
  query_block_nbt.body.body_decode
  select_bundle_item.body.body_decode
  change_difficulty.body.body_decode
  change_game_mode.body.body_decode
  chat_ack.body.body_decode
  chat_message.body.body_decode
  chat_session_update.body.body_decode
  tick_end.body.body_decode
  settings.body.body_decode
  tab_complete.body.body_decode
  configuration_ack.body.body_decode
  click_window_button.body.body_decode
  window_slot_state.body.body_decode
  cookie_response.body.body_decode
  client_plugin_message.body_decode
  debug_subscription_request.body.body_decode
  edit_book.body.body_decode
  query_entity_nbt.body.body_decode
  interact_entity.body.body_decode
  generate_structure.body.body_decode
  lock_difficulty.body.body_decode
  vehicle_move.body.body_decode
  steer_boat.body.body_decode
  pick_item_from_block.body.body_decode
  pick_item_from_entity.body.body_decode
  ping_request.body.body_decode
  place_recipe.body.body_decode
  player_abilities.body.body_decode
  player_action.body.body_decode
  entity_action.body.body_decode
  player_input.body.body_decode
  pong.body.body_decode
  set_recipe_book_state.body.body_decode
  recipe_book_seen_recipe.body.body_decode
  name_item.body.body_decode
  resource_pack_status.body.body_decode
  advancement_tab.body.body_decode
  select_trade.body.body_decode
  set_beacon_effect.body.body_decode
  update_command_block.body.body_decode
  update_command_block_minecart.body.body_decode
  creative_inventory_action.body.body_decode
  update_jigsaw_block.body.body_decode
  update_structure_block.body.body_decode
  set_test_block.body.body_decode
  update_sign.body.body_decode
  animation.body.body_decode
  spectate.body.body_decode
  test_instance_block_action.body_decode
  player_block_placement.body.body_decode
  use_item.body.body_decode
  custom_click_action.body.body_decode

lemmas play_dispatches = play_arms [THEN dispatch_play]

lemma early_dispatches:
  "fst (intention_decode (bb_new payload)) = Inr i \<Longrightarrow>
   dispatch Handshake intention_id payload = Inr (InIntention i)"
  "dispatch Status status_request_id payload = Inr InStatusRequest"
  "fst (ping_decode (bb_new payload)) = Inr g \<Longrightarrow> dispatch Status ping_id payload = Inr (InPing g)"
  "fst (hello_decode (bb_new payload)) = Inr h \<Longrightarrow> dispatch Login hello_id payload = Inr (InHello h)"
  "fst (login_challenge_decode (bb_new payload)) = Inr l \<Longrightarrow>
   dispatch Login login_challenge_id payload = Inr (InLoginChallenge l)"
  "dispatch Login 0x03 payload = Inr InLoginAcknowledged"
  "dispatch Configuration client_information_id payload = Inr (InClientInformation c)"
  "dispatch Configuration finish_configuration_c2s_id payload = Inr InFinishConfiguration"
  by (simp_all add: dispatch_def arm_fst intention_id_def ping_id_def hello_id_def
      login_challenge_id_def status_request_id_def client_information_id_def
      finish_configuration_c2s_id_def)

lemma dispatch_ignored: "k \<notin> fst ` set play_table \<Longrightarrow> dispatch Play k payload = Inr (InIgnored k)"
  by (simp add: dispatch_def map_of_eq_None_iff [THEN iffD2])

lemma dispatch_sent:
  assumes "wf_inbound p" and "sent p = (s, k, encode)"
  shows "dispatch s k (encoded encode) = Inr p"
  using assms
  by (cases p) (auto simp: wf_inbound_def sent_def body_decodes play_dispatches early_dispatches
      dispatch_ignored)

lemma dispatch_injective:
  assumes "wf_inbound p" and "wf_inbound q"
    and "sent p = (s, k, e)" and "sent q = (s, k, e')" and "encoded e = encoded e'"
  shows "p = q"
  using dispatch_sent [OF assms(1,3)] dispatch_sent [OF assms(2,4)] assms(5) by simp

text \<open>What the dispatcher can answer on arbitrary bytes.\<close>

lemma dispatch_play_error:
  "dispatch Play k payload = Inl e \<Longrightarrow> k \<in> fst ` set play_table"
  using dispatch_ignored [of k payload] by auto

lemma dispatch_unknown:
  "s \<noteq> Play \<Longrightarrow> k \<notin> {0, 1, 2, 3, 4, 5, 6} \<Longrightarrow>
   dispatch s k payload = Inl (UnknownPacket (state_name s) k)"
  by (cases s) (simp_all add: dispatch_def unknown_def)

end
