(* ===== verification/Client_Network.thy ===== *)
theory Client_Network
  imports Framing Listener Dispatch
begin

text \<open>
  The sending side of the network (\<open>network/client.rs\<close>): the two queues of a connection, the
  table of connections, broadcasting, and the flush at the end of a tick, which frames the
  queued packets and batches the normal ones up to the MTU threshold. The messages go to the bounded
  channel of the connection with \<open>try_send\<close>: what finds it full is lost, since the code ignores the
  result and clears the queues. The deflater of flate2 is an argument.
\<close>

section \<open>State\<close>

datatype priority = Urgent | Normal

text \<open>The chunk credits are floats, carried as bit patterns (9.0 and 1.0).\<close>

record chunk_sender =
  cs_pending_chunk_count :: f32
  cs_target_chunks_per_tick :: f32
  cs_outstanding_batches :: u32

definition chunk_sender_new :: chunk_sender where
  "chunk_sender_new =
     \<lparr>cs_pending_chunk_count = 0x41100000, cs_target_chunks_per_tick = 0x3F800000,
      cs_outstanding_batches = 0\<rparr>"

record client_network =
  nw_urgent_queue :: "u8 list list"
  nw_normal_queue :: "u8 list list"
  nw_write_buffer :: "u8 list"
  nw_mtu_threshold :: nat
  nw_urgent_window_ticks :: u8
  nw_chunk_sender :: chunk_sender
  nw_compression_enabled :: bool
  nw_compression_threshold :: i32

definition client_network_new :: client_network where
  "client_network_new =
     \<lparr>nw_urgent_queue = [], nw_normal_queue = [], nw_write_buffer = [],
      nw_mtu_threshold = 1400, nw_urgent_window_ticks = 0,
      nw_chunk_sender = chunk_sender_new,
      nw_compression_enabled = False, nw_compression_threshold = 0\<rparr>"

record client_networks =
  nws_clients :: "u32 \<rightharpoonup> client_network"
  nws_command_inbox :: "(u32 \<times> rstring) list"
  nws_packet_inbox :: "(u32 \<times> inbound_packet) list"
  nws_compression_threshold :: i32

definition client_networks_default :: client_networks where
  "client_networks_default =
     \<lparr>nws_clients = Map.empty, nws_command_inbox = [], nws_packet_inbox = [],
      nws_compression_threshold = 256\<rparr>"

definition with_compression_threshold :: "i32 \<Rightarrow> client_networks" where
  "with_compression_threshold threshold =
     client_networks_default\<lparr>nws_compression_threshold := threshold\<rparr>"

section \<open>Operations\<close>

definition enqueue :: "u8 list \<Rightarrow> priority \<Rightarrow> client_network \<Rightarrow> client_network" where
  "enqueue bytes priority c =
     (case priority of
        Urgent \<Rightarrow> c\<lparr>nw_urgent_queue := nw_urgent_queue c @ [bytes]\<rparr>
      | Normal \<Rightarrow> c\<lparr>nw_normal_queue := nw_normal_queue c @ [bytes]\<rparr>)"

definition clear_queues :: "client_network \<Rightarrow> client_network" where
  "clear_queues c =
     (let c = c\<lparr>nw_urgent_queue := [], nw_normal_queue := [], nw_write_buffer := []\<rparr>
      in if nw_urgent_window_ticks c > 0
         then c\<lparr>nw_urgent_window_ticks := nw_urgent_window_ticks c - 1\<rparr> else c)"

definition networks_insert :: "u32 \<Rightarrow> client_networks \<Rightarrow> client_networks" where
  "networks_insert conn_id cs =
     (let client = (case nws_clients cs conn_id of Some c \<Rightarrow> c | None \<Rightarrow> client_network_new)
      in cs\<lparr>nws_clients := (nws_clients cs)
              (conn_id \<mapsto> client\<lparr>nw_compression_threshold := nws_compression_threshold cs\<rparr>)\<rparr>)"

definition networks_remove :: "u32 \<Rightarrow> client_networks \<Rightarrow> client_networks" where
  "networks_remove conn_id cs = cs\<lparr>nws_clients := (nws_clients cs)(conn_id := None)\<rparr>"

definition frame_bytes ::
  "(u8 list \<Rightarrow> u8 list option) \<Rightarrow> u8 list \<Rightarrow> bool \<Rightarrow> i32 \<Rightarrow> u8 list option" where
  "frame_bytes deflater payload compression_enabled threshold =
     (if length payload > MAX_FRAME then None
      else if compression_enabled then Some (encode_frame_compressed deflater payload threshold)
      else (case encode_frame [] payload of
              (Inl _, _) \<Rightarrow> None
            | (Inr _, frame) \<Rightarrow> Some frame))"

definition effective :: "priority \<Rightarrow> client_network \<Rightarrow> priority" where
  "effective priority client =
     (if priority = Normal \<and> nw_urgent_window_ticks client > 0 then Urgent else priority)"

definition enqueue_packet :: "u32 \<Rightarrow> u8 list \<Rightarrow> priority \<Rightarrow> client_networks \<Rightarrow> client_networks" where
  "enqueue_packet conn_id bytes priority cs =
     (case nws_clients cs conn_id of
        Some client \<Rightarrow>
          cs\<lparr>nws_clients := (nws_clients cs)
               (conn_id \<mapsto> enqueue bytes (effective priority client) client)\<rparr>
      | None \<Rightarrow> cs)"

fun broadcast :: "u32 list \<Rightarrow> u8 list \<Rightarrow> priority \<Rightarrow> client_networks \<Rightarrow> client_networks" where
  "broadcast [] bytes priority cs = cs"
| "broadcast (conn_id # targets) bytes priority cs =
     broadcast targets bytes priority
       (case nws_clients cs conn_id of
          Some client \<Rightarrow>
            cs\<lparr>nws_clients := (nws_clients cs)
                 (conn_id \<mapsto> enqueue bytes (effective priority client) client)\<rparr>
        | None \<Rightarrow> cs)"

section \<open>The flush\<close>

text \<open>The loops over the urgent and the normal queue; the value is the list of messages for which \<open>try_send\<close>
  is called, in order.\<close>

fun flush_urgent :: "(u8 list \<Rightarrow> u8 list option) \<Rightarrow> client_network \<Rightarrow> u8 list list \<Rightarrow> outbound_message list" where
  "flush_urgent deflater client [] = []"
| "flush_urgent deflater client (bytes # queue) =
     (case frame_bytes deflater bytes (nw_compression_enabled client) (nw_compression_threshold client) of
        Some frame \<Rightarrow> Frame frame # flush_urgent deflater client queue
      | None \<Rightarrow> flush_urgent deflater client queue)"

fun flush_normal ::
  "(u8 list \<Rightarrow> u8 list option) \<Rightarrow> client_network \<Rightarrow> u8 list list \<Rightarrow> u8 list \<Rightarrow> outbound_message list" where
  "flush_normal deflater client [] buf = (if buf \<noteq> [] then [Frame buf] else [])"
| "flush_normal deflater client (bytes # queue) buf =
     (case frame_bytes deflater bytes (nw_compression_enabled client) (nw_compression_threshold client) of
        Some frame \<Rightarrow>
          if buf \<noteq> [] \<and> length buf + length frame \<ge> nw_mtu_threshold client
          then Frame buf # flush_normal deflater client queue frame
          else flush_normal deflater client queue (buf @ frame)
      | None \<Rightarrow> flush_normal deflater client queue buf)"

definition flush_client :: "(u8 list \<Rightarrow> u8 list option) \<Rightarrow> client_network \<Rightarrow> outbound_message list" where
  "flush_client deflater client =
     flush_urgent deflater client (nw_urgent_queue client)
     @ flush_normal deflater client (nw_normal_queue client) []"

text \<open>The flush on the channels of the connections, given by what waits in them. Each connection has its
  own channel, so the order in which the table is visited cannot be observed.\<close>

definition flush_into ::
  "(u8 list \<Rightarrow> u8 list option) \<Rightarrow> client_network \<Rightarrow> outbound_message list \<Rightarrow> outbound_message list" where
  "flush_into deflater client channel = fold (try_send OUTBOUND_CAPACITY) (flush_client deflater client) channel"

definition flush_all ::
  "(u8 list \<Rightarrow> u8 list option) \<Rightarrow> client_networks \<Rightarrow> (u32 \<rightharpoonup> outbound_message list) \<Rightarrow>
   (u32 \<rightharpoonup> outbound_message list)" where
  "flush_all deflater clients outbound = (\<lambda>conn_id.
     case nws_clients clients conn_id of
       None \<Rightarrow> outbound conn_id
     | Some client \<Rightarrow> map_option (flush_into deflater client) (outbound conn_id))"

section \<open>Queues\<close>

lemma enqueue_simps [simp]:
  "nw_urgent_queue (enqueue b p c) = (if p = Urgent then nw_urgent_queue c @ [b] else nw_urgent_queue c)"
  "nw_normal_queue (enqueue b p c) = (if p = Normal then nw_normal_queue c @ [b] else nw_normal_queue c)"
  "nw_urgent_window_ticks (enqueue b p c) = nw_urgent_window_ticks c"
  "nw_mtu_threshold (enqueue b p c) = nw_mtu_threshold c"
  "nw_compression_enabled (enqueue b p c) = nw_compression_enabled c"
  "nw_compression_threshold (enqueue b p c) = nw_compression_threshold c"
  by (cases p; simp add: enqueue_def)+

lemma effective_enqueue [simp]: "effective p (enqueue b q c) = effective p c"
  by (simp add: effective_def)

lemma enqueue_packet_other:
  "k \<noteq> conn_id \<Longrightarrow> nws_clients (enqueue_packet conn_id b p cs) k = nws_clients cs k"
  by (simp add: enqueue_packet_def split: option.split)

lemma enqueue_packet_at:
  "nws_clients (enqueue_packet conn_id b p cs) conn_id =
     map_option (\<lambda>c. enqueue b (effective p c) c) (nws_clients cs conn_id)"
  by (simp add: enqueue_packet_def split: option.split)

lemma broadcast_fold:
  "broadcast targets b p cs = fold (\<lambda>k. enqueue_packet k b p) targets cs"
  by (induction targets arbitrary: cs) (simp_all add: enqueue_packet_def)

lemma broadcast_at:
  "distinct targets \<Longrightarrow> nws_clients (broadcast targets b p cs) k =
     (if k \<in> set targets then map_option (\<lambda>c. enqueue b (effective p c) c) (nws_clients cs k)
      else nws_clients cs k)"
proof (induction targets arbitrary: cs)
  case (Cons t ts)
  then show ?case
    by (cases "k = t")
       (simp_all add: broadcast_fold enqueue_packet_at enqueue_packet_other)
qed simp

section \<open>What a flush sends\<close>

text \<open>The bytes of a message, and the frames of a queue.\<close>

definition message_bytes :: "outbound_message \<Rightarrow> u8 list" where
  "message_bytes msg = (case msg of Frame bytes \<Rightarrow> bytes | _ \<Rightarrow> [])"

lemma message_bytes_Frame [simp]: "message_bytes (Frame b) = b"
  by (simp add: message_bytes_def)

definition frames :: "(u8 list \<Rightarrow> u8 list option) \<Rightarrow> client_network \<Rightarrow> u8 list list \<Rightarrow> u8 list list" where
  "frames deflater client queue =
     List.map_filter (\<lambda>bytes. frame_bytes deflater bytes (nw_compression_enabled client)
       (nw_compression_threshold client)) queue"

lemma frames_simps [simp]:
  "frames deflater client [] = []"
  "frames deflater client (b # bs) =
     (case frame_bytes deflater b (nw_compression_enabled client) (nw_compression_threshold client) of
        Some f \<Rightarrow> f # frames deflater client bs | None \<Rightarrow> frames deflater client bs)"
  by (simp_all add: frames_def map_filter_simps split: option.split)

lemma flush_urgent_frames: "flush_urgent deflater client q = map Frame (frames deflater client q)"
  by (induction q) (simp_all split: option.split)

lemma flush_normal_bytes:
  "concat (map message_bytes (flush_normal deflater client q buf)) = buf @ concat (frames deflater client q)"
  by (induction deflater client q buf rule: flush_normal.induct)
     (auto simp: message_bytes_def split: option.split)

text \<open>The channel takes the first messages, as many as it has room for.\<close>

lemma flush_into_take:
  "flush_into deflater client channel =
     channel @ take (OUTBOUND_CAPACITY - length channel) (flush_client deflater client)"
  by (simp add: flush_into_def fifo.send_burst)

text \<open>Every message of a flush carries whole frames, so a prefix of the messages carries a prefix of the
  frames.\<close>

lemma flush_normal_prefix:
  "buf = concat fs \<Longrightarrow>
   \<exists>n. concat (map message_bytes (take k (flush_normal deflater client q buf))) = concat (take n (fs @ frames deflater client q))"
proof (induction deflater client q buf arbitrary: fs k rule: flush_normal.induct)
  case (1 deflater client buf)
  then show ?case
    by (cases k) (auto simp: message_bytes_def intro: exI [of _ 0] exI [of _ "length fs"])
next
  case (2 deflater client bytes queue buf)
  show ?case
  proof (cases "frame_bytes deflater bytes (nw_compression_enabled client) (nw_compression_threshold client)")
    case None
    with "2.IH"(1) [OF None "2.prems", of k] show ?thesis by (simp del: take_append)
  next
    case (Some frame)
    show ?thesis
    proof (cases "buf \<noteq> [] \<and> length buf + length frame \<ge> nw_mtu_threshold client")
      case False
      have "buf @ frame = concat (fs @ [frame])" using "2.prems" by simp
      from "2.IH"(3) [OF Some False this, of k] False Some show ?thesis
        by (auto simp del: take_append)
    next
      case True
      show ?thesis
      proof (cases k)
        case 0
        then show ?thesis by (intro exI [of _ 0]) simp
      next
        case (Suc k')
        obtain n where "concat (map message_bytes (take k' (flush_normal deflater client queue frame)))
            = concat (take n ([frame] @ frames deflater client queue))"
          using "2.IH"(2) [OF Some True, of "[frame]" k'] by auto
        then show ?thesis
          using True Some Suc "2.prems"
          by (intro exI [of _ "length fs + n"]) simp
      qed
    qed
  qed
qed

lemma flush_client_prefix:
  "\<exists>n. concat (map message_bytes (take k (flush_client deflater client))) =
     concat (take n (frames deflater client (nw_urgent_queue client) @ frames deflater client (nw_normal_queue client)))"
proof (cases "k \<le> length (frames deflater client (nw_urgent_queue client))")
  case True
  then show ?thesis
    by (intro exI [of _ k]) (simp add: flush_client_def flush_urgent_frames take_map comp_def)
next
  case False
  let ?u = "frames deflater client (nw_urgent_queue client)"
  obtain n where "concat (map message_bytes (take (k - length ?u) (flush_normal deflater client (nw_normal_queue client) [])))
      = concat (take n (frames deflater client (nw_normal_queue client)))"
    using flush_normal_prefix [of "[]" "[]"] by force
  with False show ?thesis
    by (intro exI [of _ "length ?u + n"])
       (simp add: flush_client_def flush_urgent_frames comp_def)
qed

lemma flush_client_bytes:
  "concat (map message_bytes (flush_client deflater client)) =
     concat (frames deflater client (nw_urgent_queue client))
     @ concat (frames deflater client (nw_normal_queue client))"
  by (simp add: flush_client_def flush_urgent_frames flush_normal_bytes)
     (simp add: message_bytes_def comp_def)

lemma write_task_frames: "write_task (map Frame bs) compression = (concat bs, compression)"
  by (induction bs) (simp_all add: write_message_def)

lemma flush_client_messages: "flush_client deflater client = map Frame (map message_bytes (flush_client deflater client))"
proof -
  have "msg \<in> set (flush_normal deflater client q buf) \<Longrightarrow> \<exists>b. msg = Frame b" for msg q buf
    by (induction deflater client q buf rule: flush_normal.induct) (auto split: option.splits if_splits)
  then have "\<forall>msg \<in> set (flush_client deflater client). Frame (message_bytes msg) = msg"
    by (fastforce simp: flush_client_def flush_urgent_frames message_bytes_def)
  then show ?thesis by (simp add: map_idI)
qed

text \<open>A batch stays below the threshold unless it is a single frame.\<close>

lemma flush_normal_mtu:
  assumes "buf = [] \<or> length buf < nw_mtu_threshold client \<or> buf \<in> S"
    and "set (frames deflater client q) \<subseteq> S"
    and "Frame b \<in> set (flush_normal deflater client q buf)"
  shows "length b < nw_mtu_threshold client \<or> b \<in> S"
  using assms
proof (induction deflater client q buf rule: flush_normal.induct)
  case (1 deflater client buf)
  then show ?case by (auto split: if_splits)
next
  case (2 deflater client bytes queue buf)
  show ?case
  proof (cases "frame_bytes deflater bytes (nw_compression_enabled client) (nw_compression_threshold client)")
    case None
    with 2 show ?thesis by auto
  next
    case (Some frame)
    show ?thesis
    proof (cases "buf \<noteq> [] \<and> length buf + length frame \<ge> nw_mtu_threshold client")
      case True
      with 2 Some show ?thesis by auto
    next
      case False
      with 2 Some show ?thesis by auto
    qed
  qed
qed

lemma frame_bytes_plain:
  "length payload \<le> MAX_FRAME \<Longrightarrow> frame_bytes deflater payload False threshold = Some (wire payload)"
  by (simp add: frame_bytes_def wire_def encode_frame_ok)

lemma frames_plain:
  assumes "\<not> nw_compression_enabled client"
  shows "frames deflater client q = map wire (filter (\<lambda>f. length f \<le> MAX_FRAME) q)"
proof (induction q)
  case (Cons f q)
  then show ?case
    using assms by (cases "length f \<le> MAX_FRAME") (simp_all add: frame_bytes_plain, simp add: frame_bytes_def)
qed simp

section \<open>The urgent window\<close>

lemma clear_queues_simps [simp]:
  "nw_urgent_queue (clear_queues c) = []" "nw_normal_queue (clear_queues c) = []"
  "nw_mtu_threshold (clear_queues c) = nw_mtu_threshold c"
  "nw_compression_enabled (clear_queues c) = nw_compression_enabled c"
  "nw_compression_threshold (clear_queues c) = nw_compression_threshold c"
  by (simp_all add: clear_queues_def Let_def)

lemma clear_queues_window:
  "unat (nw_urgent_window_ticks (clear_queues c)) = unat (nw_urgent_window_ticks c) - 1"
proof (cases "nw_urgent_window_ticks c > 0")
  case True
  then have "nw_urgent_window_ticks c \<noteq> 0" by auto
  with True show ?thesis by (simp add: clear_queues_def unat_minus_one)
next
  case False
  then show ?thesis by (simp add: clear_queues_def word_gt_0)
qed

lemma window_runs_out:
  "unat (nw_urgent_window_ticks ((clear_queues ^^ n) c)) = unat (nw_urgent_window_ticks c) - n"
  by (induction n) (simp_all add: clear_queues_window)

end
