(* ===== verification/Velocity.thy ===== *)
theory Velocity
  imports Packets_Login
begin

text \<open>
  The player identity forwarded by a Velocity proxy (\<open>protocol/velocity.rs\<close>): the check of the
  signed blob at the end of the handshake. HMAC-SHA256 is the crate hmac and the clock is the
  operating system's; both are arguments. \<open>new_mac\<close> makes a MAC from a key, \<open>verify\<close> checks a
  signature of some data, and \<open>now\<close> is the time in milliseconds, \<open>None\<close> for a clock before the
  epoch. The integers are those of a release build, where arithmetic wraps.
\<close>

section \<open>Definitions\<close>

definition MAX_SKEW :: i64 where
  "MAX_SKEW = 5000"

datatype velocity_error = Malformed | BadSignature | Expired

record forwarded_identity =
  fi_uuid :: uuid
  fi_name :: rstring
  fi_properties :: "property list"
  fi_timestamp :: i64

text \<open>\<open>i64::abs\<close>, whose result for the least value is that value.\<close>

definition abs_i64 :: "i64 \<Rightarrow> i64" where
  "abs_i64 v = (if sint v < 0 then - v else v)"

definition too_old :: "i64 \<Rightarrow> i64 \<Rightarrow> bool" where
  "too_old now timestamp \<longleftrightarrow> sint (abs_i64 (now - timestamp)) > sint MAX_SKEW"

text \<open>The fields of the payload, in the order they are read.\<close>

definition get_identity :: "forwarded_identity io" where
  "get_identity =
     bindE get_uuid (\<lambda>uuid.
     bindE get_string (\<lambda>name.
     bindE get_i64 (\<lambda>timestamp.
     bindE (get_counted InvalidValue get_property) (\<lambda>properties.
     ret \<lparr>fi_uuid = uuid, fi_name = name, fi_properties = properties, fi_timestamp = timestamp\<rparr>))))"

text \<open>Every error of the buffer becomes \<open>Malformed\<close>.\<close>

definition verify_forwarding ::
  "(u8 list \<Rightarrow> 'm option) \<Rightarrow> ('m \<Rightarrow> u8 list \<Rightarrow> u8 list \<Rightarrow> bool) \<Rightarrow> i64 option \<Rightarrow>
   u8 list \<Rightarrow> u8 list \<Rightarrow> velocity_error + forwarded_identity" where
  "verify_forwarding new_mac verify clock secret blob =
     fst (bindE (map_err (\<lambda>_. Malformed) get_u8) (\<lambda>version.
       if version \<noteq> 1 then throw Malformed
       else bindE (map_err (\<lambda>_. Malformed) (get_bytes 32)) (\<lambda>signature. \<lambda>buf.
         let payload = drop (bb_pos buf) (bb_buf buf);
             data = version # payload
         in case new_mac secret of
              None \<Rightarrow> (Inl Malformed, buf)
            | Some mac \<Rightarrow>
                if \<not> verify mac data signature then (Inl BadSignature, buf)
                else (case fst (get_identity (bb_new payload)) of
                    Inl _ \<Rightarrow> (Inl Malformed, buf)
                  | Inr identity \<Rightarrow>
                      (case clock of
                         None \<Rightarrow> (Inl Malformed, buf)
                       | Some now \<Rightarrow>
                           if too_old now (fi_timestamp identity) then (Inl Expired, buf)
                           else (Inr identity, buf))))) (bb_new blob))"

section \<open>The proxy's side\<close>

definition put_identity :: "forwarded_identity \<Rightarrow> unit io" where
  "put_identity i =
     seqE (put_uuid (fi_uuid i)) (seqE (put_string (fi_name i)) (seqE (put_i64 (fi_timestamp i))
       (put_counted put_property (fi_properties i))))"

definition wf_identity :: "forwarded_identity \<Rightarrow> bool" where
  "wf_identity i \<longleftrightarrow> length (fi_uuid i) = 16 \<and> wf_string (fi_name i) \<and>
     length (fi_properties i) < 2 ^ 31 \<and> list_all wf_property (fi_properties i)"

definition forwarding_blob :: "forwarded_identity \<Rightarrow> u8 list \<Rightarrow> u8 list" where
  "forwarding_blob i signature = 1 # signature @ encoded (put_identity i)"

section \<open>Facts\<close>

text \<open>What acceptance means: the layout, the signature over version and payload, the identity the
  payload holds, and the clock.\<close>

lemma verify_forwarding_sound:
  assumes "verify_forwarding new_mac verify clock secret blob = Inr i"
  shows "\<exists>signature payload mac now. blob = 1 # signature @ payload \<and> length signature = 32 \<and>
     new_mac secret = Some mac \<and> verify mac (1 # payload) signature \<and>
     fst (get_identity (bb_new payload)) = Inr i \<and> clock = Some now \<and> \<not> too_old now (fi_timestamp i)"
proof -
  obtain v rest where b: "blob = v # rest"
    using assms by (cases blob) (auto simp: verify_forwarding_def bindE_def map_err_def get_u8_def
        bb_peek_def bb_new_def)
  have v: "v = 1" and l: "32 \<le> length rest"
    using assms b
    by (auto simp: verify_forwarding_def bindE_def map_err_def get_u8_def bb_peek_def bb_new_def
        get_bytes_def get_range_def throw_def Let_def split: if_splits)
  have "verify_forwarding new_mac verify clock secret (1 # rest) =
      (case new_mac secret of None \<Rightarrow> Inl Malformed
       | Some mac \<Rightarrow> if \<not> verify mac (1 # drop 32 rest) (take 32 rest) then Inl BadSignature
         else (case fst (get_identity (bb_new (drop 32 rest))) of Inl _ \<Rightarrow> Inl Malformed
           | Inr i \<Rightarrow> (case clock of None \<Rightarrow> Inl Malformed
             | Some now \<Rightarrow> if too_old now (fi_timestamp i) then Inl Expired else Inr i)))"
    using l
    by (simp add: verify_forwarding_def bindE_def map_err_def get_u8_def bb_peek_def bb_new_def
        get_bytes_def get_range_def Let_def split: option.split sum.split)
  with assms show ?thesis
    by (intro exI [of _ "take 32 rest"] exI [of _ "drop 32 rest"])
       (use l in \<open>auto simp: b v split: option.splits if_splits sum.splits\<close>)
qed

text \<open>And what the proxy signs within the time window is accepted, as the same identity.\<close>

lemma carries_identity: "wf_identity i \<Longrightarrow> carries (put_identity i) get_identity i"
  unfolding put_identity_def get_identity_def wf_identity_def
  by (auto simp: list_all_iff intro!: carries_bind [OF carries_uuid] carries_bind [OF carries_string]
      carries_bind [OF carries_i64] carries_tail [OF carries_counted] carries_property carries_ret)

lemma get_identity_encoded:
  "wf_identity i \<Longrightarrow> fst (get_identity (bb_new (encoded (put_identity i) @ rest))) = Inr i"
  using carries_encoded [OF carries_identity [of i]]
  by (auto simp: reads_def cursor_def bb_new_def dest: spec [of _ "[]"])

lemma verify_forwarding_complete:
  assumes "wf_identity i" and "length signature = 32" and "new_mac secret = Some mac"
    and "verify mac (1 # encoded (put_identity i)) signature"
    and "\<not> too_old now (fi_timestamp i)"
  shows "verify_forwarding new_mac verify (Some now) secret (forwarding_blob i signature) = Inr i"
  using assms get_identity_encoded [OF assms(1), of "[]"]
  by (simp add: verify_forwarding_def forwarding_blob_def bindE_def map_err_def get_u8_def bb_peek_def
      bb_new_def get_bytes_def get_range_def Let_def)

text \<open>A blob with a signature the MAC does not verify is refused whatever it holds.\<close>

lemma verify_forwarding_forged:
  assumes "length signature = 32" and "new_mac secret = Some mac" and "\<not> verify mac (1 # payload) signature"
  shows "verify_forwarding new_mac verify clock secret (1 # signature @ payload) = Inl BadSignature"
  using assms
  by (simp add: verify_forwarding_def bindE_def map_err_def get_u8_def bb_peek_def
      bb_new_def get_bytes_def get_range_def Let_def)

text \<open>The window: exact unless the difference is the least \<open>i64\<close>, which the code takes for fresh.\<close>

lemma too_old_wraps: "\<not> too_old now (now - 0x8000000000000000)"
  by (simp add: too_old_def abs_i64_def MAX_SKEW_def)

lemma sint_diff_i64:
  assumes "\<bar>sint a - sint b\<bar> < 2 ^ 63"
  shows "sint (a - b :: i64) = sint a - sint b"
proof -
  have "sint (a - b) = signed_take_bit (LENGTH(64) - 1) (sint a - sint b)"
    by (rule sint_word_ariths)
  then show ?thesis using assms by (auto simp: signed_take_bit_int_eq_self_iff)
qed

lemma too_old_exact:
  assumes "\<bar>sint now - sint t\<bar> < 2 ^ 63"
  shows "too_old now t \<longleftrightarrow> \<bar>sint now - sint t\<bar> > 5000"
proof -
  have d: "sint (now - t) = sint now - sint t" by (rule sint_diff_i64 [OF assms])
  then have "sint (- (now - t)) = - (sint now - sint t)" if "sint (now - t) < 0"
    using sint_diff_i64 [of 0 "now - t"] assms that by simp
  with d show ?thesis by (auto simp: too_old_def abs_i64_def MAX_SKEW_def)
qed

end
