(* ===== verification/Handle_Pool.thy ===== *)
theory Handle_Pool
  imports Prelude
begin

text \<open>
  The contract of an allocator of handles. \<open>live\<close> is the set of handles that are valid now,
  \<open>used\<close> the set of handles that have been valid at some time, \<open>room k\<close> the states in which
  another handle of kind \<open>k\<close> can be had. The client's result is about whole runs: no handle is
  issued twice, and a handle that was freed stays dead.
\<close>

datatype ('k, 'h) pool_op = Alloc 'k | Free 'h

fun pool_run ::
  "('k \<Rightarrow> 's \<Rightarrow> ('h \<times> 's) option) \<Rightarrow> ('h \<Rightarrow> 's \<Rightarrow> bool \<times> 's) \<Rightarrow> ('k, 'h) pool_op list \<Rightarrow> 's \<Rightarrow>
   ('h list \<times> 's) option" where
  "pool_run alloc free [] s = Some ([], s)"
| "pool_run alloc free (Alloc k # ops) s =
     (case alloc k s of
        None \<Rightarrow> None
      | Some (h, s') \<Rightarrow> map_option (\<lambda>(hs, t). (h # hs, t)) (pool_run alloc free ops s'))"
| "pool_run alloc free (Free h # ops) s = pool_run alloc free ops (snd (free h s))"

text \<open>There is room at every allocation of a run.\<close>

fun pool_room ::
  "('k \<Rightarrow> 's \<Rightarrow> ('h \<times> 's) option) \<Rightarrow> ('h \<Rightarrow> 's \<Rightarrow> bool \<times> 's) \<Rightarrow> ('k \<Rightarrow> 's \<Rightarrow> bool) \<Rightarrow>
   ('k, 'h) pool_op list \<Rightarrow> 's \<Rightarrow> bool" where
  "pool_room alloc free room [] s = True"
| "pool_room alloc free room (Alloc k # ops) s =
     (room k s \<and> (case alloc k s of None \<Rightarrow> False | Some (h, s') \<Rightarrow> pool_room alloc free room ops s'))"
| "pool_room alloc free room (Free h # ops) s = pool_room alloc free room ops (snd (free h s))"

locale handle_pool =
  fixes alloc :: "'k \<Rightarrow> 's \<Rightarrow> ('h \<times> 's) option"
    and free :: "'h \<Rightarrow> 's \<Rightarrow> bool \<times> 's"
    and live :: "'s \<Rightarrow> 'h set"
    and used :: "'s \<Rightarrow> 'h set"
    and inv :: "'s \<Rightarrow> bool"
    and room :: "'k \<Rightarrow> 's \<Rightarrow> bool"
  assumes live_used: "inv s \<Longrightarrow> live s \<subseteq> used s"
    and alloc_some: "inv s \<Longrightarrow> room k s \<Longrightarrow> alloc k s \<noteq> None"
    and alloc_inv: "inv s \<Longrightarrow> room k s \<Longrightarrow> alloc k s = Some (h, s') \<Longrightarrow> inv s'"
    and alloc_fresh: "inv s \<Longrightarrow> room k s \<Longrightarrow> alloc k s = Some (h, s') \<Longrightarrow> h \<notin> used s"
    and alloc_live: "inv s \<Longrightarrow> room k s \<Longrightarrow> alloc k s = Some (h, s') \<Longrightarrow> live s' = insert h (live s)"
    and alloc_used: "inv s \<Longrightarrow> room k s \<Longrightarrow> alloc k s = Some (h, s') \<Longrightarrow> used s' = insert h (used s)"
    and free_inv: "inv s \<Longrightarrow> inv (snd (free h s))"
    and free_result: "inv s \<Longrightarrow> fst (free h s) \<longleftrightarrow> h \<in> live s"
    and free_live: "inv s \<Longrightarrow> live (snd (free h s)) = live s - {h}"
    and free_used: "inv s \<Longrightarrow> used (snd (free h s)) = used s"
begin

lemma run_issues:
  assumes "inv s" and "pool_room alloc free room ops s"
  shows "\<exists>hs t. pool_run alloc free ops s = Some (hs, t) \<and> inv t \<and> distinct hs \<and>
     set hs \<inter> used s = {} \<and> used t = used s \<union> set hs \<and> live t \<subseteq> live s \<union> set hs"
  using assms
proof (induction ops arbitrary: s)
  case (Cons op ops)
  show ?case
  proof (cases op)
    case (Alloc k)
    with Cons.prems obtain h s' where a: "alloc k s = Some (h, s')" and r: "room k s"
      and ok: "pool_room alloc free room ops s'"
      by (auto split: option.splits)
    note facts = alloc_inv [OF Cons.prems(1) r a] alloc_fresh [OF Cons.prems(1) r a]
      alloc_live [OF Cons.prems(1) r a] alloc_used [OF Cons.prems(1) r a]
    obtain hs t where "pool_run alloc free ops s' = Some (hs, t)" "inv t" "distinct hs"
      "set hs \<inter> used s' = {}" "used t = used s' \<union> set hs" "live t \<subseteq> live s' \<union> set hs"
      using Cons.IH [OF facts(1) ok] by blast
    with a facts Alloc show ?thesis by (intro exI [of _ "h # hs"] exI [of _ t]) auto
  next
    case (Free h)
    obtain hs t where "pool_run alloc free ops (snd (free h s)) = Some (hs, t)" "inv t" "distinct hs"
      "set hs \<inter> used (snd (free h s)) = {}" "used t = used (snd (free h s)) \<union> set hs"
      "live t \<subseteq> live (snd (free h s)) \<union> set hs"
      using Cons.IH [OF free_inv [OF Cons.prems(1), of h]] Cons.prems(2) Free by force
    with Free show ?thesis
      by (intro exI [of _ hs] exI [of _ t])
         (auto simp: free_used [OF Cons.prems(1)] free_live [OF Cons.prems(1)])
  qed
qed simp

lemma freed_stays_dead:
  assumes "inv s" and "h \<in> live s" and "pool_room alloc free room (Free h # ops) s"
  shows "\<exists>hs t. pool_run alloc free (Free h # ops) s = Some (hs, t) \<and> h \<notin> live t \<and> h \<notin> set hs"
proof -
  have u: "h \<in> used s" using live_used [OF assms(1)] assms(2) by blast
  obtain hs t where "pool_run alloc free ops (snd (free h s)) = Some (hs, t)"
    "set hs \<inter> used s = {}" "live t \<subseteq> live s - {h} \<union> set hs"
    using run_issues [OF free_inv [OF assms(1)], of ops h] assms(3)
    by (auto simp: free_used [OF assms(1)] free_live [OF assms(1)])
  with u show ?thesis by (intro exI [of _ hs] exI [of _ t]) auto
qed

lemma free_twice: "inv s \<Longrightarrow> fst (free h (snd (free h s))) = False"
  by (simp add: free_result free_inv free_live)

end

end
