(* ===== verification/Entity_Arena.thy ===== *)
theory Entity_Arena
  imports Handle_Pool
begin

text \<open>
  Entity handles and the slot allocator (\<open>particlemc-framework-ecs/src/entity.rs\<close>): a handle packs
  a type id, a generation and a slot into 64 bits; an arena per type hands out slots and raises
  the generation of a slot when it is reused, so that old handles become stale. The contract of
  such an allocator is the locale \<open>handle_pool\<close>, interpreted on the arena. The definitions are
  those of a release build, where the generation is not checked against its 24 bits.
\<close>

section \<open>Handles\<close>

type_synonym entity = u64

definition from_parts :: "u8 \<Rightarrow> u32 \<Rightarrow> u32 \<Rightarrow> entity" where
  "from_parts kind generation slot =
     (push_bit 56 (ucast kind) OR push_bit 32 (ucast generation)) OR ucast slot"

definition entity_type_id :: "entity \<Rightarrow> u8" where
  "entity_type_id e = ucast (drop_bit 56 e)"

definition entity_generation :: "entity \<Rightarrow> u32" where
  "entity_generation e = ucast (drop_bit 32 e AND 0xFFFFFF)"

definition entity_slot :: "entity \<Rightarrow> u32" where
  "entity_slot e = ucast (e AND 0xFFFFFFFF)"

definition PLACEHOLDER :: entity where
  "PLACEHOLDER = from_parts 0 0 0"

definition from_raw_u32 :: "u32 \<Rightarrow> entity" where
  "from_raw_u32 slot = from_parts 0 0 slot"

definition MAX_GENERATION :: u32 where
  "MAX_GENERATION = 0xFFFFFF"

section \<open>The arena of one type\<close>

record slot_state =
  sl_generation :: u32
  sl_occupied :: bool

text \<open>The free stack grows at its end.\<close>

record type_arena =
  ta_slots :: "slot_state list"
  ta_free :: "u32 list"
  ta_len :: nat

definition type_arena_new :: type_arena where
  "type_arena_new = \<lparr>ta_slots = [], ta_free = [], ta_len = 0\<rparr>"

definition saturating_succ :: "u32 \<Rightarrow> u32" where
  "saturating_succ g = (if g = - 1 then g else g + 1)"

text \<open>\<open>None\<close> is the panic of \<open>unreachable!\<close>.\<close>

definition type_allocate :: "u8 \<Rightarrow> type_arena \<Rightarrow> (entity \<times> type_arena) option" where
  "type_allocate kind a =
     (if ta_free a \<noteq> [] then
        (let slot = last (ta_free a); idx = unat slot in
         if idx < length (ta_slots a) then
           (let generation = saturating_succ (sl_generation (ta_slots a ! idx)) in
            Some (from_parts kind generation slot,
              a\<lparr>ta_free := butlast (ta_free a),
                ta_slots := (ta_slots a)[idx := \<lparr>sl_generation = generation, sl_occupied = True\<rparr>],
                ta_len := ta_len a + 1\<rparr>))
         else None)
      else
        (let idx = length (ta_slots a);
             slot = (if idx < 2 ^ 32 then word_of_nat idx else - 1)
         in Some (from_parts kind 0 slot,
              a\<lparr>ta_slots := ta_slots a @ [\<lparr>sl_generation = 0, sl_occupied = True\<rparr>],
                ta_len := ta_len a + 1\<rparr>)))"

definition type_deallocate :: "entity \<Rightarrow> type_arena \<Rightarrow> bool \<times> type_arena" where
  "type_deallocate e a =
     (let idx = unat (entity_slot e) in
      if idx < length (ta_slots a) then
        (let state = ta_slots a ! idx in
         if \<not> sl_occupied state \<or> sl_generation state \<noteq> entity_generation e then (False, a)
         else (True, a\<lparr>ta_slots := (ta_slots a)[idx := state\<lparr>sl_occupied := False\<rparr>],
                       ta_free := ta_free a @ [entity_slot e],
                       ta_len := ta_len a - 1\<rparr>))
      else (False, a))"

definition type_is_alive :: "entity \<Rightarrow> type_arena \<Rightarrow> bool" where
  "type_is_alive e a =
     (let idx = unat (entity_slot e) in
      idx < length (ta_slots a) \<and> sl_occupied (ta_slots a ! idx) \<and>
      sl_generation (ta_slots a ! idx) = entity_generation e)"

section \<open>The arena of all types\<close>

type_synonym entity_arena = "u8 \<rightharpoonup> type_arena"

definition arena_new :: entity_arena where
  "arena_new = Map.empty"

definition arena_of :: "u8 \<Rightarrow> entity_arena \<Rightarrow> type_arena" where
  "arena_of kind t = (case t kind of Some a \<Rightarrow> a | None \<Rightarrow> type_arena_new)"

definition arena_allocate :: "u8 \<Rightarrow> entity_arena \<Rightarrow> (entity \<times> entity_arena) option" where
  "arena_allocate kind t =
     (case type_allocate kind (arena_of kind t) of
        None \<Rightarrow> None
      | Some (e, a) \<Rightarrow> Some (e, t(kind \<mapsto> a)))"

definition arena_deallocate :: "entity \<Rightarrow> entity_arena \<Rightarrow> bool \<times> entity_arena" where
  "arena_deallocate e t =
     (case t (entity_type_id e) of
        Some a \<Rightarrow> (let (ok, a') = type_deallocate e a in (ok, t(entity_type_id e \<mapsto> a')))
      | None \<Rightarrow> (False, t))"

definition arena_is_alive :: "entity \<Rightarrow> entity_arena \<Rightarrow> bool" where
  "arena_is_alive e t =
     (case t (entity_type_id e) of Some a \<Rightarrow> type_is_alive e a | None \<Rightarrow> False)"

text \<open>\<open>Vec::swap_remove\<close> at the first occurrence: the last element takes its place.\<close>

definition swap_remove :: "nat \<Rightarrow> 'a list \<Rightarrow> 'a list" where
  "swap_remove i xs = (if i + 1 = length xs then butlast xs else butlast (xs[i := last xs]))"

fun position_from :: "nat \<Rightarrow> 'a \<Rightarrow> 'a list \<Rightarrow> nat option" where
  "position_from i x [] = None"
| "position_from i x (y # ys) = (if y = x then Some i else position_from (i + 1) x ys)"

definition allocate_exact :: "u8 \<Rightarrow> entity \<Rightarrow> entity_arena \<Rightarrow> entity option \<times> entity_arena" where
  "allocate_exact kind e t =
     (if entity_type_id e \<noteq> kind then (None, t)
      else let a = arena_of kind t; slot = entity_slot e; idx = unat slot;
               grown = ta_slots a @ replicate (idx + 1 - length (ta_slots a))
                 \<lparr>sl_generation = 0, sl_occupied = False\<rparr>
           in if idx < length (ta_slots a) \<and> sl_occupied (ta_slots a ! idx) then (None, t(kind \<mapsto> a))
              else let free = (case position_from 0 slot (ta_free a) of
                         Some pos \<Rightarrow> swap_remove pos (ta_free a) | None \<Rightarrow> ta_free a)
                   in (Some e, t(kind \<mapsto> a\<lparr>ta_slots := grown[idx :=
                         \<lparr>sl_generation = entity_generation e, sl_occupied = True\<rparr>],
                       ta_free := free, ta_len := ta_len a + 1\<rparr>)))"

text \<open>The number of live entities over all types (\<open>HashMap::values\<close> summed).\<close>

definition arena_len :: "entity_arena \<Rightarrow> nat" where
  "arena_len t = sum_list (map (\<lambda>k. ta_len (arena_of k t)) (map word_of_nat [0..<256]))"

definition arena_is_empty :: "entity_arena \<Rightarrow> bool" where
  "arena_is_empty t \<longleftrightarrow> arena_len t = 0"

section \<open>The parts of a handle\<close>

lemma entity_masks: "(0xFFFFFF :: u64) = mask 24" "(0xFFFFFFFF :: u64) = mask 32" "(0xFFFFFF :: u32) = mask 24"
  by (simp_all add: mask_eq_exp_minus_1)

lemma generation_bits: "g \<le> MAX_GENERATION \<Longrightarrow> bit g n \<Longrightarrow> n < 24"
proof -
  assume "g \<le> MAX_GENERATION" and b: "bit g n"
  then have "unat g < 2 ^ 24" by (simp add: MAX_GENERATION_def word_le_nat_alt)
  then have "unat (take_bit 24 g) = unat g"
    by (simp only: unsigned_take_bit_eq take_bit_nat_eq_self)
  then have "take_bit 24 g = g" by (simp add: word_unat_eq_iff)
  with b show "n < 24" by (metis bit_take_bit_iff)
qed

lemma type_id_from_parts:
  assumes "g \<le> MAX_GENERATION"
  shows "entity_type_id (from_parts k g s) = k"
proof (rule bit_word_eqI)
  fix n
  assume "n < LENGTH(8)"
  then show "bit (entity_type_id (from_parts k g s)) n = bit k n"
    using generation_bits [OF assms, of "24 + n"]
    by (auto simp: add.commute [of n] entity_type_id_def from_parts_def bit_simps dest: bit_imp_le_length)
qed

lemma generation_from_parts:
  assumes "g \<le> MAX_GENERATION"
  shows "entity_generation (from_parts k g s) = g"
proof (rule bit_word_eqI)
  fix n
  assume "n < LENGTH(32)"
  then show "bit (entity_generation (from_parts k g s)) n = bit g n"
    using generation_bits [OF assms, of n]
    by (auto simp: entity_generation_def from_parts_def entity_masks bit_simps dest: bit_imp_le_length)
qed

lemma slot_from_parts: "entity_slot (from_parts k g s) = s"
  by (rule bit_word_eqI) (auto simp: entity_slot_def from_parts_def entity_masks bit_simps)

lemma from_parts_of: "from_parts (entity_type_id e) (entity_generation e) (entity_slot e) = e"
proof (rule bit_word_eqI)
  fix n
  assume "n < LENGTH(64)"
  then show "bit (from_parts (entity_type_id e) (entity_generation e) (entity_slot e)) n = bit e n"
    by (cases "n < 32"; cases "n < 56")
       (auto simp: from_parts_def entity_type_id_def entity_generation_def entity_slot_def
          entity_masks bit_simps)
qed

lemma generation_le_max: "entity_generation e \<le> MAX_GENERATION"
proof -
  have "entity_generation e = take_bit 24 (entity_generation e)"
    by (rule bit_word_eqI) (auto simp: entity_generation_def entity_masks bit_simps)
  then show ?thesis
    by (metis MAX_GENERATION_def and_mask_less' entity_masks(3) take_bit_eq_mask word_and_le1)
qed

lemma entity_eqI:
  "entity_type_id e = entity_type_id f \<Longrightarrow> entity_generation e = entity_generation f \<Longrightarrow>
   entity_slot e = entity_slot f \<Longrightarrow> e = f"
  by (metis from_parts_of)

text \<open>The first generation beyond 24 bits changes the type id.\<close>

lemma generation_overflow: "entity_type_id (from_parts 0 (MAX_GENERATION + 1) s) = 1"
proof (rule bit_word_eqI)
  fix n
  assume "n < LENGTH(8)"
  then show "bit (entity_type_id (from_parts 0 (MAX_GENERATION + 1) s)) n = bit (1 :: u8) n"
    using bit_exp_iff [of 24 "n + 24", where 'a = "32 word"]
    by (auto simp: entity_type_id_def from_parts_def MAX_GENERATION_def bit_simps dest: bit_imp_le_length)
qed

section \<open>The invariant of an arena\<close>

definition occupied_at :: "type_arena \<Rightarrow> nat \<Rightarrow> bool" where
  "occupied_at a i \<longleftrightarrow> i < length (ta_slots a) \<and> sl_occupied (ta_slots a ! i)"

definition vacant_at :: "type_arena \<Rightarrow> nat \<Rightarrow> bool" where
  "vacant_at a i \<longleftrightarrow> i < length (ta_slots a) \<and> \<not> sl_occupied (ta_slots a ! i)"

definition occupied_count :: "type_arena \<Rightarrow> nat" where
  "occupied_count a = length (filter sl_occupied (ta_slots a))"

definition type_ok :: "type_arena \<Rightarrow> bool" where
  "type_ok a \<longleftrightarrow>
     distinct (ta_free a) \<and> (\<forall>s \<in> set (ta_free a). vacant_at a (unat s)) \<and>
     ta_len a = occupied_count a \<and> length (ta_slots a) \<le> 2 ^ 32 \<and>
     (\<forall>st \<in> set (ta_slots a). sl_generation st \<le> MAX_GENERATION)"

text \<open>Nothing leaks: every vacant slot can be reused.\<close>

definition no_leak :: "type_arena \<Rightarrow> bool" where
  "no_leak a \<longleftrightarrow> (\<forall>i. vacant_at a i \<longrightarrow> i \<in> unat ` set (ta_free a))"

definition type_room :: "type_arena \<Rightarrow> bool" where
  "type_room a \<longleftrightarrow>
     (if ta_free a = [] then length (ta_slots a) < 2 ^ 32
      else sl_generation (ta_slots a ! unat (last (ta_free a))) < MAX_GENERATION)"

lemma type_ok_new [simp]: "type_ok type_arena_new" "no_leak type_arena_new" "type_room type_arena_new"
  by (simp_all add: type_ok_def type_arena_new_def occupied_count_def no_leak_def vacant_at_def
      type_room_def)

lemma count_update:
  "i < length xs \<Longrightarrow> length (filter P (xs[i := x])) + (if P (xs ! i) then 1 else 0)
     = length (filter P xs) + (if P x then 1 else (0 :: nat))"
proof (induction xs arbitrary: i)
  case (Cons y ys)
  then show ?case by (cases i) auto
qed simp

lemma last_in_free: "ta_free a \<noteq> [] \<Longrightarrow> last (ta_free a) \<in> set (ta_free a)"
  by simp

lemma in_butlast_distinct: "distinct xs \<Longrightarrow> x \<in> set (butlast xs) \<Longrightarrow> x \<noteq> last xs"
  by (cases xs rule: rev_cases) auto

lemma set_butlast_last: "xs \<noteq> [] \<Longrightarrow> set xs = insert (last xs) (set (butlast xs))"
  by (cases xs rule: rev_cases) auto

lemma unat_of_nat_32: "n < 2 ^ 32 \<Longrightarrow> unat (word_of_nat n :: u32) = n"
  by (simp add: unat_of_nat take_bit_nat_eq_self_iff)

text \<open>An allocation that reuses a slot, and one that makes a new slot.\<close>

lemma type_allocate_reuse:
  assumes "type_ok a" and "ta_free a \<noteq> []" and "type_room a"
  defines "s \<equiv> last (ta_free a)"
  defines "g \<equiv> sl_generation (ta_slots a ! unat s) + 1"
  shows "type_allocate k a = Some (from_parts k g s,
      a\<lparr>ta_free := butlast (ta_free a),
        ta_slots := (ta_slots a)[unat s := \<lparr>sl_generation = g, sl_occupied = True\<rparr>],
        ta_len := ta_len a + 1\<rparr>)"
    and "vacant_at a (unat s)" and "g \<le> MAX_GENERATION"
    and "sl_generation (ta_slots a ! unat s) < g"
proof -
  have lt: "sl_generation (ta_slots a ! unat s) < MAX_GENERATION"
    using assms(2,3) by (simp add: type_room_def s_def)
  then have n: "sl_generation (ta_slots a ! unat s) \<noteq> - 1"
    by (metis leD word_n1_ge)
  have succ: "unat g = Suc (unat (sl_generation (ta_slots a ! unat s)))"
    using unatSuc [of "sl_generation (ta_slots a ! unat s)"] n
    by (auto simp: g_def add.commute [of _ 1] add_eq_0_iff)
  show v: "vacant_at a (unat s)"
    using assms(1,2) by (simp add: type_ok_def s_def)
  show "g \<le> MAX_GENERATION" using lt unfolding g_def by (rule inc_le)
  show "sl_generation (ta_slots a ! unat s) < g"
    using succ by (simp add: word_less_nat_alt)
  show "type_allocate k a = Some (from_parts k g s,
      a\<lparr>ta_free := butlast (ta_free a),
        ta_slots := (ta_slots a)[unat s := \<lparr>sl_generation = g, sl_occupied = True\<rparr>],
        ta_len := ta_len a + 1\<rparr>)"
    using v assms(2) n
    by (simp add: type_allocate_def s_def g_def Let_def vacant_at_def saturating_succ_def)
qed

lemma type_allocate_new:
  assumes "ta_free a = []" and "length (ta_slots a) < 2 ^ 32"
  shows "type_allocate k a = Some (from_parts k 0 (word_of_nat (length (ta_slots a))),
      a\<lparr>ta_slots := ta_slots a @ [\<lparr>sl_generation = 0, sl_occupied = True\<rparr>], ta_len := ta_len a + 1\<rparr>)"
  using assms by (simp add: type_allocate_def Let_def)

lemma type_deallocate_yes:
  assumes "occupied_at a (unat (entity_slot e))"
    and "sl_generation (ta_slots a ! unat (entity_slot e)) = entity_generation e"
  shows "type_deallocate e a = (True,
      a\<lparr>ta_slots := (ta_slots a)[unat (entity_slot e) :=
           (ta_slots a ! unat (entity_slot e))\<lparr>sl_occupied := False\<rparr>],
        ta_free := ta_free a @ [entity_slot e], ta_len := ta_len a - 1\<rparr>)"
  using assms by (simp add: type_deallocate_def occupied_at_def Let_def)

lemma type_deallocate_no: "\<not> type_is_alive e a \<Longrightarrow> type_deallocate e a = (False, a)"
  by (auto simp: type_deallocate_def type_is_alive_def Let_def)

lemma type_alive_iff:
  "type_is_alive e a \<longleftrightarrow> occupied_at a (unat (entity_slot e)) \<and>
     sl_generation (ta_slots a ! unat (entity_slot e)) = entity_generation e"
  by (auto simp: type_is_alive_def occupied_at_def Let_def)

text \<open>Every operation keeps the invariant.\<close>

lemma type_ok_free_append:
  assumes "type_ok a" and "occupied_at a (unat s)"
  shows "type_ok (a\<lparr>ta_slots := (ta_slots a)[unat s := (ta_slots a ! unat s)\<lparr>sl_occupied := False\<rparr>],
        ta_free := ta_free a @ [s], ta_len := ta_len a - 1\<rparr>)"
proof -
  have "s \<notin> set (ta_free a)"
    using assms by (auto simp: type_ok_def vacant_at_def occupied_at_def)
  moreover have "unat r \<noteq> unat s" if "r \<in> set (ta_free a)" for r
    using that assms by (auto simp: type_ok_def vacant_at_def occupied_at_def)
  moreover have "ta_len a = Suc (occupied_count
      (a\<lparr>ta_slots := (ta_slots a)[unat s := (ta_slots a ! unat s)\<lparr>sl_occupied := False\<rparr>]\<rparr>))"
    using assms count_update [of "unat s" "ta_slots a" sl_occupied
        "(ta_slots a ! unat s)\<lparr>sl_occupied := False\<rparr>"]
    by (simp add: type_ok_def occupied_count_def occupied_at_def)
  ultimately show ?thesis
    using assms set_update_subset_insert [of "ta_slots a" "unat s" "(ta_slots a ! unat s)\<lparr>sl_occupied := False\<rparr>"]
    by (auto simp: type_ok_def vacant_at_def occupied_at_def occupied_count_def nth_list_update)
qed

lemma type_ok_reuse:
  assumes "type_ok a" and "ta_free a \<noteq> []" and "g \<le> MAX_GENERATION"
  shows "type_ok (a\<lparr>ta_free := butlast (ta_free a),
        ta_slots := (ta_slots a)[unat (last (ta_free a)) := \<lparr>sl_generation = g, sl_occupied = True\<rparr>],
        ta_len := ta_len a + 1\<rparr>)"
proof -
  let ?s = "last (ta_free a)" and ?st = "\<lparr>sl_generation = g, sl_occupied = True\<rparr>"
  have v: "vacant_at a (unat ?s)" using assms by (simp add: type_ok_def)
  have "\<forall>r \<in> set (butlast (ta_free a)). unat (last (ta_free a)) \<noteq> unat r"
    using in_butlast_distinct [of "ta_free a"] assms(1)
    by (metis type_ok_def word_unat_eq_iff)
  moreover have "vacant_at a (unat r)" if "r \<in> set (butlast (ta_free a))" for r
    using in_set_butlastD [OF that] assms(1) by (auto simp: type_ok_def)
  moreover have "occupied_count (a\<lparr>ta_slots := (ta_slots a)[unat ?s := ?st]\<rparr>) = ta_len a + 1"
    using assms v count_update [of "unat ?s" "ta_slots a" sl_occupied ?st]
    by (simp add: type_ok_def occupied_count_def vacant_at_def)
  ultimately show ?thesis
    using assms set_update_subset_insert [of "ta_slots a" "unat ?s" ?st]
    by (auto simp: type_ok_def vacant_at_def occupied_count_def distinct_butlast nth_list_update)
qed

lemma type_ok_grow:
  assumes "type_ok a" and "ta_free a = []" and "length (ta_slots a) < 2 ^ 32"
  shows "type_ok (a\<lparr>ta_slots := ta_slots a @ [\<lparr>sl_generation = 0, sl_occupied = True\<rparr>],
      ta_len := ta_len a + 1\<rparr>)"
  using assms by (auto simp: type_ok_def vacant_at_def occupied_count_def)

section \<open>The arena meets the contract\<close>

definition arena_ok :: "entity_arena \<Rightarrow> bool" where
  "arena_ok t \<longleftrightarrow> (\<forall>k a. t k = Some a \<longrightarrow> type_ok a)"

definition arena_room :: "u8 \<Rightarrow> entity_arena \<Rightarrow> bool" where
  "arena_room k t \<longleftrightarrow> type_room (arena_of k t)"

definition live_handles :: "entity_arena \<Rightarrow> entity set" where
  "live_handles t = {e. arena_is_alive e t}"

definition used_handles :: "entity_arena \<Rightarrow> entity set" where
  "used_handles t =
     {e. let a = arena_of (entity_type_id e) t; i = unat (entity_slot e)
         in i < length (ta_slots a) \<and> entity_generation e \<le> sl_generation (ta_slots a ! i)}"

lemma alive_in_arena: "arena_is_alive e t \<longleftrightarrow> type_is_alive e (arena_of (entity_type_id e) t)"
  by (auto simp: arena_is_alive_def arena_of_def type_is_alive_def type_arena_new_def split: option.splits)

lemma arena_ok_of: "arena_ok t \<Longrightarrow> type_ok (arena_of k t)"
  by (auto simp: arena_ok_def arena_of_def split: option.splits)

lemma arena_of_update: "arena_of k (t(j \<mapsto> a)) = (if k = j then a else arena_of k t)"
  by (simp add: arena_of_def)

lemma arena_ok_update: "arena_ok t \<Longrightarrow> type_ok a \<Longrightarrow> arena_ok (t(k \<mapsto> a))"
  by (simp add: arena_ok_def)

lemma live_in_used: "live_handles t \<subseteq> used_handles t"
  by (auto simp: live_handles_def used_handles_def alive_in_arena type_is_alive_def Let_def)

text \<open>What one allocation does, whichever way the slot is found.\<close>

lemma type_allocate_cases:
  assumes "type_ok a" and "type_room a" and "type_allocate k a = Some (e, a')"
  obtains s g where "e = from_parts k g s" and "g \<le> MAX_GENERATION" and "type_ok a'"
    and "ta_slots a' ! unat s = \<lparr>sl_generation = g, sl_occupied = True\<rparr>"
    and "unat s < length (ta_slots a')" and "length (ta_slots a) \<le> length (ta_slots a')"
    and "\<And>i. i \<noteq> unat s \<Longrightarrow> i < length (ta_slots a') \<Longrightarrow>
           i < length (ta_slots a) \<and> ta_slots a' ! i = ta_slots a ! i"
    and "unat s < length (ta_slots a) \<Longrightarrow>
           \<not> sl_occupied (ta_slots a ! unat s) \<and> g = sl_generation (ta_slots a ! unat s) + 1 \<and>
           sl_generation (ta_slots a ! unat s) < g"
    and "length (ta_slots a) \<le> unat s \<Longrightarrow> g = 0"
proof (cases "ta_free a = []")
  case True
  with assms(2) have n: "length (ta_slots a) < 2 ^ 32" by (simp add: type_room_def)
  note r = type_allocate_new [OF True n, of k]
  show thesis
    by (rule that [of 0 "word_of_nat (length (ta_slots a))"])
       (use r n assms(3) type_ok_grow [OF assms(1) True n] unat_of_nat_32 [OF n] in
         \<open>auto simp: nth_append MAX_GENERATION_def\<close>)
next
  case False
  note r = type_allocate_reuse [OF assms(1) False assms(2)]
  show thesis
    by (rule that [of "sl_generation (ta_slots a ! unat (last (ta_free a))) + 1" "last (ta_free a)"])
       (use r(1) [of k] r(2-4) assms(3) type_ok_reuse [OF assms(1) False r(3)] in
         \<open>auto simp: vacant_at_def\<close>)
qed

lemma arena_allocate_some:
  assumes "arena_ok t" and "arena_room k t"
  shows "arena_allocate k t \<noteq> None"
proof -
  let ?a = "arena_of k t"
  have "type_allocate k ?a \<noteq> None"
    using type_allocate_new [of ?a k] type_allocate_reuse(1) [OF arena_ok_of [OF assms(1)], of k k] assms(2)
    by (cases "ta_free ?a = []") (auto simp: arena_room_def type_room_def)
  then show ?thesis by (auto simp: arena_allocate_def)
qed

lemma less_succ_iff: "(x :: u32) < x + 1 \<Longrightarrow> f < x + 1 \<longleftrightarrow> f \<le> x"
  by (meson inc_le leD le_less_trans not_le)

lemma arena_allocate_step:
  assumes "arena_ok t" and "arena_room k t" and "arena_allocate k t = Some (e, t')"
  shows "arena_ok t' \<and> e \<notin> used_handles t \<and> live_handles t' = insert e (live_handles t) \<and>
    used_handles t' = insert e (used_handles t)"
proof -
  obtain a' where al: "type_allocate k (arena_of k t) = Some (e, a')" and t': "t' = t(k \<mapsto> a')"
    using assms(3) by (auto simp: arena_allocate_def split: option.splits)
  obtain s g where e: "e = from_parts k g s" and g: "g \<le> MAX_GENERATION" and ok: "type_ok a'"
    and at: "ta_slots a' ! unat s = \<lparr>sl_generation = g, sl_occupied = True\<rparr>"
    and b: "unat s < length (ta_slots a')" and le: "length (ta_slots (arena_of k t)) \<le> length (ta_slots a')"
    and other: "\<And>i. i \<noteq> unat s \<Longrightarrow> i < length (ta_slots a') \<Longrightarrow>
           i < length (ta_slots (arena_of k t)) \<and> ta_slots a' ! i = ta_slots (arena_of k t) ! i"
    and old: "unat s < length (ta_slots (arena_of k t)) \<Longrightarrow>
           \<not> sl_occupied (ta_slots (arena_of k t) ! unat s) \<and>
           g = sl_generation (ta_slots (arena_of k t) ! unat s) + 1 \<and>
           sl_generation (ta_slots (arena_of k t) ! unat s) < g"
    and new: "length (ta_slots (arena_of k t)) \<le> unat s \<Longrightarrow> g = 0"
    using type_allocate_cases [OF arena_ok_of [OF assms(1)] _ al] assms(2)
    unfolding arena_room_def by blast
  note parts = type_id_from_parts [OF g, of k s] generation_from_parts [OF g, of k s]
    slot_from_parts [of k g s]
  have is_e: "f = e" if "entity_type_id f = k" "unat (entity_slot f) = unat s" "entity_generation f = g" for f
    using that parts by (intro entity_eqI) (simp_all add: e word_unat_eq_iff)
  have fresh: "e \<notin> used_handles t"
    using old by (auto simp: used_handles_def parts e Let_def)
  have live: "f \<in> live_handles t' \<longleftrightarrow> f = e \<or> f \<in> live_handles t" for f
  proof (cases "entity_type_id f = k")
    case True
    show ?thesis
    proof (cases "unat (entity_slot f) = unat s")
      case same: True
      then have "f \<notin> live_handles t"
        using True old by (auto simp: live_handles_def alive_in_arena type_alive_iff occupied_at_def)
      moreover have "f \<in> live_handles t' \<longleftrightarrow> entity_generation f = g"
        using True same at b
        by (auto simp: live_handles_def alive_in_arena type_alive_iff occupied_at_def t' arena_of_update)
      ultimately show ?thesis using is_e [OF True same] parts e by auto
    next
      case False
      then have "f \<noteq> e" using parts e by auto
      with False True other [OF False] le show ?thesis
        by (auto simp: live_handles_def alive_in_arena type_alive_iff occupied_at_def t' arena_of_update)
    qed
  next
    case False
    then show ?thesis using parts e by (auto simp: live_handles_def alive_in_arena t' arena_of_update)
  qed
  have used: "f \<in> used_handles t' \<longleftrightarrow> f = e \<or> f \<in> used_handles t" for f
  proof (cases "entity_type_id f = k")
    case True
    show ?thesis
    proof (cases "unat (entity_slot f) = unat s")
      case same: True
      have "f \<in> used_handles t' \<longleftrightarrow> entity_generation f \<le> g"
        using True same at b by (auto simp: used_handles_def t' arena_of_update Let_def)
      moreover have "f \<in> used_handles t \<longleftrightarrow> entity_generation f < g"
        using True same old new less_succ_iff
        by (cases "unat s < length (ta_slots (arena_of k t))") (auto simp: used_handles_def Let_def)
      ultimately show ?thesis using is_e [OF True same] parts e by auto
    next
      case False
      then have "f \<noteq> e" using parts e by auto
      with False True other [OF False] le show ?thesis
        by (auto simp: used_handles_def t' arena_of_update Let_def)
    qed
  next
    case False
    then show ?thesis using parts e by (auto simp: used_handles_def t' arena_of_update Let_def)
  qed
  show ?thesis
    using arena_ok_update [OF assms(1) ok, of k] fresh live used unfolding t' by blast
qed

lemma generation_kept:
  "sl_generation (xs[i := (xs ! i)\<lparr>sl_occupied := b\<rparr>] ! j) = sl_generation (xs ! j)"
  by (cases "i < length xs"; cases "i = j") (auto simp: list_update_beyond)

lemma arena_deallocate_step:
  assumes "arena_ok t" and "arena_deallocate e t = (ok, t')"
  shows "arena_ok t' \<and> (ok \<longleftrightarrow> e \<in> live_handles t) \<and> live_handles t' = live_handles t - {e} \<and>
    used_handles t' = used_handles t"
proof (cases "arena_is_alive e t")
  case False
  then have "ok = False \<and> t' = t"
    using assms(2) type_deallocate_no [of e]
    by (auto simp: arena_deallocate_def arena_is_alive_def map_upd_triv split: option.splits)
  with False assms(1) show ?thesis by (auto simp: live_handles_def)
next
  case True
  let ?k = "entity_type_id e" and ?i = "unat (entity_slot e)"
  obtain a where a: "t ?k = Some a" and al: "type_is_alive e a"
    using True by (auto simp: arena_is_alive_def split: option.splits)
  then have ao: "arena_of ?k t = a" by (simp add: arena_of_def)
  have occ: "occupied_at a ?i" and gen: "sl_generation (ta_slots a ! ?i) = entity_generation e"
    using al by (auto simp: type_alive_iff)
  define a' where "a' = a\<lparr>ta_slots := (ta_slots a)[?i := (ta_slots a ! ?i)\<lparr>sl_occupied := False\<rparr>],
        ta_free := ta_free a @ [entity_slot e], ta_len := ta_len a - 1\<rparr>"
  have t': "t' = t(?k \<mapsto> a')" and ok: "ok"
    using assms(2) a type_deallocate_yes [OF occ gen]
    by (auto simp: arena_deallocate_def a'_def)
  have "type_ok a'"
    unfolding a'_def using arena_ok_of [OF assms(1), of ?k] ao by (intro type_ok_free_append) (auto simp: occ)
  then have "arena_ok t'" unfolding t' by (rule arena_ok_update [OF assms(1)])
  moreover have "f \<in> live_handles t' \<longleftrightarrow> f \<in> live_handles t \<and> f \<noteq> e" for f
  proof (cases "entity_type_id f = ?k \<and> unat (entity_slot f) = ?i")
    case same: True
    then have "f \<notin> live_handles t'"
      using occ by (auto simp: live_handles_def alive_in_arena type_alive_iff occupied_at_def t'
          arena_of_update a'_def)
    moreover have "f = e" if "f \<in> live_handles t"
      using that same gen ao
      by (intro entity_eqI) (auto simp: live_handles_def alive_in_arena type_alive_iff word_unat_eq_iff)
    ultimately show ?thesis by blast
  next
    case other: False
    then have "f \<noteq> e" by auto
    with other ao show ?thesis
      by (auto simp: live_handles_def alive_in_arena type_alive_iff occupied_at_def t' arena_of_update a'_def)
  qed
  moreover have "used_handles t' = used_handles t"
    using ao by (auto simp: used_handles_def t' arena_of_update a'_def generation_kept Let_def)
  ultimately show ?thesis using ok True by (auto simp: live_handles_def)
qed

interpretation arena: handle_pool arena_allocate arena_deallocate live_handles used_handles
  arena_ok arena_room
proof unfold_locales
  fix h s
  assume "arena_ok s"
  note step = arena_deallocate_step [OF this prod.collapse [symmetric], of h]
  show "arena_ok (snd (arena_deallocate h s))"
    and "fst (arena_deallocate h s) \<longleftrightarrow> h \<in> live_handles s"
    and "live_handles (snd (arena_deallocate h s)) = live_handles s - {h}"
    and "used_handles (snd (arena_deallocate h s)) = used_handles s"
    using step by blast+
qed (use live_in_used arena_allocate_some arena_allocate_step in blast)+

section \<open>Where the contract ends\<close>

text \<open>A slot whose generation is the largest one: the next handle has another type id.\<close>

definition worn_arena :: entity_arena where
  "worn_arena = [0 \<mapsto> \<lparr>ta_slots = [\<lparr>sl_generation = MAX_GENERATION, sl_occupied = False\<rparr>],
     ta_free = [0], ta_len = 0\<rparr>]"

lemma worn_arena_ok: "arena_ok worn_arena"
  by (auto simp: arena_ok_def worn_arena_def type_ok_def vacant_at_def occupied_count_def split: if_splits)

lemma worn_allocation:
  "\<exists>t. arena_allocate 0 worn_arena = Some (from_parts 1 0 0, t) \<and> \<not> arena_is_alive (from_parts 1 0 0) t"
proof -
  have e: "from_parts 0 0x1000000 0 = from_parts 1 0 0" by (simp add: from_parts_def)
  have "arena_allocate 0 worn_arena = Some (from_parts 1 0 0, worn_arena(0 \<mapsto>
      \<lparr>ta_slots = [\<lparr>sl_generation = 0x1000000, sl_occupied = True\<rparr>], ta_free = [], ta_len = 1\<rparr>))"
    by (simp add: arena_allocate_def arena_of_def worn_arena_def type_allocate_def saturating_succ_def
        MAX_GENERATION_def e)
  then show ?thesis
    by (auto simp: arena_is_alive_def worn_arena_def type_id_from_parts MAX_GENERATION_def)
qed

text \<open>Placing a handle exactly: the slots skipped over are in no free list, and a handle that was
  freed can be made live again.\<close>

lemma exact_leaks:
  "case allocate_exact 0 (from_parts 0 0 1) arena_new of (r, t) \<Rightarrow>
     r = Some (from_parts 0 0 1) \<and> \<not> no_leak (arena_of 0 t)"
proof -
  have parts: "entity_slot (from_parts 0 0 1) = 1" "entity_type_id (from_parts 0 0 1) = 0"
    "entity_generation (from_parts 0 0 1) = 0"
    by (simp_all add: slot_from_parts type_id_from_parts generation_from_parts MAX_GENERATION_def)
  have two: "replicate 2 x = [x, x]" for x :: slot_state by (simp add: numeral_2_eq_2)
  show ?thesis
    by (auto simp: parts two allocate_exact_def arena_of_def arena_new_def type_arena_new_def no_leak_def
        vacant_at_def intro!: exI [of _ 0])
qed

lemma exact_revives:
  "case allocate_exact 0 (from_parts 0 0 0) arena_new of (r, t) \<Rightarrow>
     (case arena_deallocate (from_parts 0 0 0) t of (ok, t') \<Rightarrow>
       ok \<and> (case allocate_exact 0 (from_parts 0 0 0) t' of (r', u) \<Rightarrow> arena_is_alive (from_parts 0 0 0) u))"
proof -
  have "entity_slot (from_parts 0 0 0) = 0" "entity_type_id (from_parts 0 0 0) = 0"
    "entity_generation (from_parts 0 0 0) = 0"
    by (simp_all add: slot_from_parts type_id_from_parts generation_from_parts MAX_GENERATION_def)
  then show ?thesis
    by (simp add: allocate_exact_def arena_of_def arena_new_def type_arena_new_def arena_deallocate_def
        type_deallocate_def arena_is_alive_def type_is_alive_def swap_remove_def)
qed

text \<open>Placing a handle where the slot is free keeps the counters and the free list right.\<close>

lemma set_swap_remove:
  assumes "distinct xs" and "i < length xs"
  shows "set (swap_remove i xs) = set xs - {xs ! i} \<and> distinct (swap_remove i xs)"
proof (cases "i + 1 = length xs")
  case True
  with assms show ?thesis
    by (cases xs rule: rev_cases) (auto simp: swap_remove_def)
next
  case False
  obtain ys y where xs: "xs = ys @ [y]" using assms(2) by (cases xs rule: rev_cases) auto
  with False assms have i: "i < length ys" by simp
  then have "swap_remove i xs = ys[i := y]"
    by (simp add: swap_remove_def xs list_update_append1)
  moreover have "y \<notin> set ys" "distinct ys" using assms(1) xs by auto
  ultimately show ?thesis
    using i by (auto simp: xs nth_append distinct_list_update set_update_distinct)
qed

lemma position_from_some:
  "position_from k x xs = Some i \<Longrightarrow> \<exists>j. i = k + j \<and> j < length xs \<and> xs ! j = x"
proof (induction xs arbitrary: k)
  case (Cons y ys)
  show ?case
  proof (cases "y = x")
    case False
    with Cons obtain j where "i = Suc k + j \<and> j < length ys \<and> ys ! j = x" by fastforce
    then show ?thesis by (intro exI [of _ "Suc j"]) simp
  qed (use Cons.prems in auto)
qed simp

lemma position_from_none: "position_from k x xs = None \<Longrightarrow> x \<notin> set xs"
  by (induction xs arbitrary: k) (auto split: if_splits)

text \<open>What is left of the free list when the slot is taken out of it.\<close>

lemma free_without:
  assumes "distinct xs"
    and "ys = (case position_from 0 s xs of Some pos \<Rightarrow> swap_remove pos xs | None \<Rightarrow> xs)"
  shows "set ys = set xs - {s} \<and> distinct ys"
proof (cases "position_from 0 s xs")
  case None
  with assms position_from_none [OF None] show ?thesis by simp
next
  case (Some i)
  with assms position_from_some [OF Some] set_swap_remove [OF assms(1), of i] show ?thesis by simp
qed

lemma exact_keeps_ok:
  assumes "arena_ok t" and "allocate_exact k e t = (Some e', t')"
  shows "arena_ok t' \<and> e' = e \<and> arena_is_alive e t'"
proof -
  define a where "a = arena_of k t"
  define i where "i = unat (entity_slot e)"
  define xs where "xs = ta_slots a @ replicate (i + 1 - length (ta_slots a))
      \<lparr>sl_generation = 0, sl_occupied = False\<rparr>"
  define fr where "fr = (case position_from 0 (entity_slot e) (ta_free a) of
      Some pos \<Rightarrow> swap_remove pos (ta_free a) | None \<Rightarrow> ta_free a)"
  define st where "st = \<lparr>sl_generation = entity_generation e, sl_occupied = True\<rparr>"
  have k: "entity_type_id e = k" and free: "\<not> (i < length (ta_slots a) \<and> sl_occupied (ta_slots a ! i))"
    and e: "e' = e" and t': "t' = t(k \<mapsto> a\<lparr>ta_slots := xs[i := st], ta_free := fr, ta_len := ta_len a + 1\<rparr>)"
    using assms(2) unfolding allocate_exact_def Let_def fr_def st_def xs_def i_def a_def
    by (auto split: if_splits)
  have ok: "type_ok a" unfolding a_def by (rule arena_ok_of [OF assms(1)])
  have i: "i < length xs" by (auto simp: xs_def)
  have vac: "\<not> sl_occupied (xs ! i)"
    using free i by (auto simp: xs_def nth_append)
  have count: "length (filter sl_occupied (xs[i := st])) = ta_len a + 1"
    using count_update [OF i, of sl_occupied st] vac ok
    by (simp add: st_def xs_def type_ok_def occupied_count_def)
  have fr: "set fr = set (ta_free a) - {entity_slot e}" "distinct fr"
    using free_without [of "ta_free a" fr "entity_slot e"] ok by (simp_all add: fr_def type_ok_def)
  have kept: "vacant_at (a\<lparr>ta_slots := xs[i := st]\<rparr>) (unat r)" if "r \<in> set fr" for r
  proof -
    have "unat r \<noteq> i" using that fr(1) by (auto simp: i_def word_unat_eq_iff)
    moreover have "vacant_at a (unat r)" using that fr(1) ok by (auto simp: type_ok_def)
    ultimately show ?thesis by (auto simp: vacant_at_def xs_def nth_append)
  qed
  have "i < 2 ^ 32" using unsigned_less [of "entity_slot e"] by (simp add: i_def)
  then have len: "length (xs[i := st]) \<le> 2 ^ 32" using ok by (auto simp: xs_def type_ok_def)
  have gen: "sl_generation x \<le> MAX_GENERATION" if "x \<in> set (xs[i := st])" for x
  proof -
    have "x = st \<or> x \<in> set xs" using that set_update_subset_insert by fastforce
    then show ?thesis
      using ok generation_le_max [of e] by (auto simp: st_def xs_def type_ok_def split: if_splits)
  qed
  have "type_ok (a\<lparr>ta_slots := xs[i := st], ta_free := fr, ta_len := ta_len a + 1\<rparr>)"
    using fr(2) kept count len gen by (simp add: type_ok_def vacant_at_def occupied_count_def)
  then have "arena_ok t'" unfolding t' by (rule arena_ok_update [OF assms(1)])
  moreover have "arena_is_alive e t'"
    using i by (simp add: arena_is_alive_def k t' type_is_alive_def Let_def st_def flip: i_def)
  ultimately show ?thesis using e by simp
qed

end
