(* ===== verification/Connection_Manager.thy ===== *)
theory Connection_Manager
  imports Connection Velocity Entity_Arena Keyed_Store
begin

text \<open>
  The table of the connections the game side knows (\<open>resource/connection_manager.rs\<close>) and the search
  for the connection of an entity (\<open>connection_of\<close> of \<open>system/entity_sync.rs\<close>). The hash map is a
  partial map; its iteration order is an argument where the code depends on it. The fields of the
  optional feature \<open>online-auth\<close> are left out: it is off in the default build.
\<close>

section \<open>State\<close>

type_synonym world_id = u32

text \<open>A socket address is only stored and handed on.\<close>

type_synonym socket_addr = "u8 list"

record connection_runtime =
  rt_entity :: "entity option"
  rt_state :: connection_state
  rt_addr :: "socket_addr option"
  rt_forwarded :: "forwarded_identity option"
  rt_compression_enabled :: bool
  rt_world_id :: world_id
  rt_uuid :: "uuid option"
  rt_username :: "rstring option"
  rt_view_distance :: u8

definition runtime_new :: "connection_state \<Rightarrow> socket_addr option \<Rightarrow> connection_runtime" where
  "runtime_new state addr =
     \<lparr>rt_entity = None, rt_state = state, rt_addr = addr, rt_forwarded = None,
      rt_compression_enabled = False, rt_world_id = 0, rt_uuid = None, rt_username = None,
      rt_view_distance = 10\<rparr>"

definition runtime_enable_compression :: "connection_runtime \<Rightarrow> connection_runtime" where
  "runtime_enable_compression rt = rt\<lparr>rt_compression_enabled := True\<rparr>"

definition set_view_distance :: "u8 \<Rightarrow> connection_runtime \<Rightarrow> connection_runtime" where
  "set_view_distance d rt = rt\<lparr>rt_view_distance := d\<rparr>"

type_synonym connection_manager = "u32 \<rightharpoonup> connection_runtime"

section \<open>Operations\<close>

text \<open>Opening keeps the record of a connection that is already there.\<close>

definition manager_open :: "u32 \<Rightarrow> socket_addr option \<Rightarrow> connection_manager \<Rightarrow> connection_manager" where
  "manager_open conn_id addr m =
     (case m conn_id of Some _ \<Rightarrow> m | None \<Rightarrow> m(conn_id \<mapsto> runtime_new Handshake addr))"

definition manager_close :: "u32 \<Rightarrow> connection_manager \<Rightarrow> connection_manager" where
  "manager_close conn_id m = m(conn_id := None)"

text \<open>Changing a record through the reference the code holds.\<close>

definition manager_update ::
  "u32 \<Rightarrow> (connection_runtime \<Rightarrow> connection_runtime) \<Rightarrow> connection_manager \<Rightarrow> connection_manager" where
  "manager_update conn_id f m = (case m conn_id of Some rt \<Rightarrow> m(conn_id \<mapsto> f rt) | None \<Rightarrow> m)"

definition entity_of :: "connection_manager \<Rightarrow> u32 \<Rightarrow> entity option" where
  "entity_of m conn_id = Option.bind (m conn_id) rt_entity"

definition active_count :: "connection_manager \<Rightarrow> nat" where
  "active_count m = card (dom m)"

text \<open>The first connection, in the order of the iteration, that is bound to the entity.\<close>

definition connection_of :: "u32 list \<Rightarrow> connection_manager \<Rightarrow> entity \<Rightarrow> u32 option" where
  "connection_of order m e = find (\<lambda>c. entity_of m c = Some e) order"

section \<open>The laws of the table\<close>

definition manager_put :: "u32 \<Rightarrow> connection_runtime \<Rightarrow> connection_manager \<Rightarrow> connection_manager" where
  "manager_put conn_id rt m = manager_update conn_id (\<lambda>_. rt) (manager_open conn_id None m)"

interpretation manager: keyed_store "\<lambda>m c. m c" manager_put manager_close "\<lambda>_. True"
  by unfold_locales
     (auto simp: manager_put_def manager_update_def manager_open_def manager_close_def split: option.splits)

lemma manager_update_at [simp]:
  "manager_update c f m d = (if d = c then map_option f (m c) else m d)"
  by (auto simp: manager_update_def split: option.splits)

lemma manager_open_at [simp]:
  "manager_open c a m d = (if d = c \<and> m c = None then Some (runtime_new Handshake a) else m d)"
  by (auto simp: manager_open_def split: option.splits)

lemma manager_close_at [simp]: "manager_close c m d = (if d = c then None else m d)"
  by (simp add: manager_close_def)

lemma active_count_close: "finite (dom m) \<Longrightarrow> m c \<noteq> None \<Longrightarrow> active_count (manager_close c m) = active_count m - 1"
  by (auto simp: active_count_def manager_close_def card_Diff_singleton domIff)

text \<open>The search finds the one connection of an entity when no other is bound to it.\<close>

definition bound_once :: "connection_manager \<Rightarrow> bool" where
  "bound_once m \<longleftrightarrow> (\<forall>c d e. entity_of m c = Some e \<longrightarrow> entity_of m d = Some e \<longrightarrow> c = d)"

lemma connection_of_entity:
  assumes "bound_once m" and "set order = dom m" and "entity_of m c = Some e"
  shows "connection_of order m e = Some c"
proof -
  have "c \<in> set order" using assms(2,3) by (auto simp: entity_of_def split: Option.bind_splits)
  then obtain d where d: "connection_of order m e = Some d"
    using assms(3) by (cases "connection_of order m e") (auto simp: connection_of_def find_None_iff)
  then have "entity_of m d = Some e" by (auto simp: connection_of_def find_Some_iff)
  then show ?thesis using assms(1,3) d by (auto simp: bound_once_def)
qed

text \<open>An entity number alone does not say which world it lives in: with two worlds the search
  can answer with the connection of a player in the other one.\<close>

lemma connection_of_ambiguous:
  assumes "c \<noteq> d" and "entity_of m c = Some e" and "entity_of m d = Some e" and "set order = {c, d}"
  shows "connection_of (c # order) m e = Some c" "connection_of (d # order) m e = Some d"
  using assms by (auto simp: connection_of_def)

end
