(* ===== verification/Containers.thy ===== *)
theory Containers
  imports Item_Stack
begin

text \<open>
  Containers (\<open>inventory/types.rs\<close>): the trait \<open>Inventory\<close> is the locale \<open>slot_store\<close>, the general
  implementation \<open>AbstractInventory\<close> and the block containers built from it. A slot outside the
  container reads as air and is not written; writing an item that is not air marks its slot as
  dirty. The saturating arithmetic of \<open>u8\<close> that the amounts use is here too.
\<close>

section \<open>Saturating arithmetic\<close>

definition sat_sub :: "u8 \<Rightarrow> u8 \<Rightarrow> u8" where
  "sat_sub a b = (if b \<le> a then a - b else 0)"

definition sat_add :: "u8 \<Rightarrow> u8 \<Rightarrow> u8" where
  "sat_add a b = (if unat a + unat b < 256 then a + b else 255)"

definition usize_to_u8 :: "nat \<Rightarrow> u8 option" where
  "usize_to_u8 n = (if n < 256 then Some (word_of_nat n) else None)"

lemma unat_sat_sub [simp]: "unat (sat_sub a b) = unat a - unat b"
  by (auto simp: sat_sub_def word_le_nat_alt unat_sub)

lemma unat_add_u8: "unat (a :: u8) + unat b < 256 \<Longrightarrow> unat (a + b) = unat a + unat b"
  by (simp add: unat_word_ariths)

lemma unat_sat_add [simp]: "unat (sat_add a b) = min 255 (unat a + unat b)"
  by (auto simp: sat_add_def unat_add_u8)

lemma unat_min_u8 [simp]: "unat (min a b :: u8) = min (unat a) (unat b)"
  by (auto simp: min_def word_le_nat_alt)

lemma u8_eq_0_iff: "(a :: u8) = 0 \<longleftrightarrow> unat a = 0"
  by (simp add: word_unat_eq_iff)

lemma unat_u8_max: "unat (a :: u8) \<le> 255"
  using unat_less_exp [of a] by simp

lemma unat_u8_of_nat: "n < 256 \<Longrightarrow> unat (word_of_nat n :: u8) = n"
  by (simp add: unat_of_nat take_bit_nat_eq_self_iff)

section \<open>What a slot holds\<close>

text \<open>The number of items of a material in a stack and in the first slots of a container.\<close>

definition held :: "u32 \<Rightarrow> item_stack \<Rightarrow> nat" where
  "held m x = (if is_material x = m then unat (is_amount x) else 0)"

definition stored :: "(nat \<Rightarrow> 's \<Rightarrow> item_stack) \<Rightarrow> nat \<Rightarrow> u32 \<Rightarrow> 's \<Rightarrow> nat" where
  "stored get n m s = (\<Sum>i < n. held m (get i s))"

lemma is_air_amount: "is_air x \<longleftrightarrow> unat (is_amount x) = 0"
  by (simp add: is_air_def word_unat_eq_iff)

lemma held_air [simp]: "is_air x \<Longrightarrow> held m x = 0" "held m AIR = 0"
  by (simp_all add: held_def is_air_def AIR_def)

lemma is_air_AIR [simp]: "is_air AIR"
  by (simp add: is_air_def AIR_def)

lemma held_update [simp]: "held m (x\<lparr>is_amount := n\<rparr>) = (if is_material x = m then unat n else 0)"
  by (simp add: held_def)

lemma held_new [simp]: "held m (item_new k n) = (if k = m then unat n else 0)"
  by (simp add: held_def item_new_def AIR_def)

lemma is_air_new [simp]: "is_air (item_new k n) \<longleftrightarrow> n = 0"
  by (simp add: is_air_def item_new_def AIR_def)

section \<open>The trait\<close>

locale slot_store =
  fixes size_of :: "'s \<Rightarrow> nat"
    and get :: "nat \<Rightarrow> 's \<Rightarrow> item_stack"
    and put :: "nat \<Rightarrow> item_stack \<Rightarrow> 's \<Rightarrow> 's"
    and dirty :: "'s \<Rightarrow> u8 set"
    and clear_dirty :: "'s \<Rightarrow> 's"
    and inv :: "'s \<Rightarrow> bool"
  assumes put_inv: "inv s \<Longrightarrow> inv (put i x s)"
    and put_size: "inv s \<Longrightarrow> size_of (put i x s) = size_of s"
    and get_out: "inv s \<Longrightarrow> size_of s \<le> i \<Longrightarrow> get i s = AIR"
    and get_put: "inv s \<Longrightarrow> get j (put i x s) = (if j = i \<and> i < size_of s then x else get j s)"
    and dirty_put: "inv s \<Longrightarrow> dirty (put i x s) =
      (if i < size_of s \<and> i < 256 \<and> \<not> is_air x then insert (word_of_nat i) (dirty s) else dirty s)"
    and clear_inv: "inv s \<Longrightarrow> inv (clear_dirty s)"
    and clear_size: "inv s \<Longrightarrow> size_of (clear_dirty s) = size_of s"
    and clear_get: "inv s \<Longrightarrow> get i (clear_dirty s) = get i s"
    and clear_empty: "inv s \<Longrightarrow> dirty (clear_dirty s) = {}"
begin

lemma put_out: "inv s \<Longrightarrow> size_of s \<le> i \<Longrightarrow> get j (put i x s) = get j s"
  by (simp add: get_put)

lemma stored_put:
  assumes "inv s" and "i < n" and "n \<le> size_of s"
  shows "stored get n m (put i x s) + held m (get i s) = stored get n m s + held m x"
proof -
  have rest: "(\<Sum>j \<in> {..<n} - {i}. held m (get j (put i x s))) = (\<Sum>j \<in> {..<n} - {i}. held m (get j s))"
    using assms by (intro sum.cong) (auto simp: get_put)
  have "stored get n m (put i x s) = held m x + (\<Sum>j \<in> {..<n} - {i}. held m (get j s))"
    using assms rest by (simp add: stored_def sum.remove [of _ i] get_put)
  moreover have "stored get n m s = held m (get i s) + (\<Sum>j \<in> {..<n} - {i}. held m (get j s))"
    using assms by (simp add: stored_def sum.remove [of _ i])
  ultimately show ?thesis by simp
qed

lemma held_le_stored: "i < n \<Longrightarrow> held m (get i s) \<le> stored get n m s"
  unfolding stored_def by (rule member_le_sum) auto

text \<open>After any writes a slot is as it was, or marked as dirty, or air.\<close>

lemma changes_are_dirty:
  assumes "inv s" and "size_of s \<le> 256"
  shows "inv (fold (\<lambda>(i, x). put i x) ws s) \<and> size_of (fold (\<lambda>(i, x). put i x) ws s) = size_of s \<and>
    dirty s \<subseteq> dirty (fold (\<lambda>(i, x). put i x) ws s) \<and>
    (get j (fold (\<lambda>(i, x). put i x) ws s) = get j s \<or>
     is_air (get j (fold (\<lambda>(i, x). put i x) ws s)) \<or>
     word_of_nat j \<in> dirty (fold (\<lambda>(i, x). put i x) ws s))"
  using assms
proof (induction ws arbitrary: s)
  case (Cons w ws)
  obtain i x where w: "w = (i, x)" by (cases w)
  have "inv (put i x s)" "size_of (put i x s) = size_of s" "dirty s \<subseteq> dirty (put i x s)"
    using Cons.prems by (auto simp: put_inv put_size dirty_put)
  moreover have "get j (put i x s) = get j s \<or> is_air (get j (put i x s)) \<or>
      word_of_nat j \<in> dirty (put i x s)"
    using Cons.prems by (auto simp: get_put dirty_put)
  ultimately show ?case
    using Cons.IH [of "put i x s"] Cons.prems by (auto simp: w)
qed simp

lemma cleared_get: "inv s \<Longrightarrow> stored get n m (clear_dirty s) = stored get n m s"
  by (simp add: stored_def clear_get)

end

section \<open>AbstractInventory\<close>

record abstract_inventory =
  ab_slots :: "item_stack list"
  ab_dirty :: "u8 set"
  ab_size :: nat

definition ab_new :: "nat \<Rightarrow> abstract_inventory" where
  "ab_new n = \<lparr>ab_slots = replicate n AIR, ab_dirty = {}, ab_size = n\<rparr>"

definition ab_get_item :: "nat \<Rightarrow> abstract_inventory \<Rightarrow> item_stack" where
  "ab_get_item slot s = (if slot < length (ab_slots s) then ab_slots s ! slot else AIR)"

definition ab_set_item :: "nat \<Rightarrow> item_stack \<Rightarrow> abstract_inventory \<Rightarrow> abstract_inventory" where
  "ab_set_item slot x s =
     (if slot < length (ab_slots s) then
        (let s' = s\<lparr>ab_slots := (ab_slots s)[slot := x]\<rparr> in
         if \<not> is_air x then
           (case usize_to_u8 slot of
              Some idx \<Rightarrow> s'\<lparr>ab_dirty := insert idx (ab_dirty s')\<rparr>
            | None \<Rightarrow> s')
         else s')
      else s)"

definition ab_clear_dirty :: "abstract_inventory \<Rightarrow> abstract_inventory" where
  "ab_clear_dirty s = s\<lparr>ab_dirty := {}\<rparr>"

definition ab_ok :: "abstract_inventory \<Rightarrow> bool" where
  "ab_ok s \<longleftrightarrow> length (ab_slots s) = ab_size s"

lemma ab_new_ok: "ab_ok (ab_new n)" "ab_size (ab_new n) = n" "ab_get_item i (ab_new n) = AIR"
  by (simp_all add: ab_ok_def ab_new_def ab_get_item_def)

interpretation ab: slot_store ab_size ab_get_item ab_set_item ab_dirty ab_clear_dirty ab_ok
  by unfold_locales
    (auto simp: ab_ok_def ab_get_item_def ab_set_item_def ab_clear_dirty_def usize_to_u8_def Let_def
      nth_list_update split: option.splits)

section \<open>The block containers\<close>

record chest_inventory =
  ch_inner :: abstract_inventory

definition chest_new :: "nat \<Rightarrow> chest_inventory" where
  "chest_new n = \<lparr>ch_inner = ab_new n\<rparr>"

record furnace_inventory =
  fu_inner :: abstract_inventory
  fu_burn_time :: u32
  fu_cook_time :: u32

definition furnace_new :: furnace_inventory where
  "furnace_new = \<lparr>fu_inner = ab_new 3, fu_burn_time = 0, fu_cook_time = 0\<rparr>"

definition furnace_set_burn_time :: "u32 \<Rightarrow> furnace_inventory \<Rightarrow> furnace_inventory" where
  "furnace_set_burn_time t f = f\<lparr>fu_burn_time := t\<rparr>"

definition furnace_set_cook_time :: "u32 \<Rightarrow> furnace_inventory \<Rightarrow> furnace_inventory" where
  "furnace_set_cook_time t f = f\<lparr>fu_cook_time := t\<rparr>"

definition furnace_get_item :: "nat \<Rightarrow> furnace_inventory \<Rightarrow> item_stack" where
  "furnace_get_item slot f = ab_get_item slot (fu_inner f)"

definition furnace_set_item :: "nat \<Rightarrow> item_stack \<Rightarrow> furnace_inventory \<Rightarrow> furnace_inventory" where
  "furnace_set_item slot x f = f\<lparr>fu_inner := ab_set_item slot x (fu_inner f)\<rparr>"

definition furnace_clear_dirty :: "furnace_inventory \<Rightarrow> furnace_inventory" where
  "furnace_clear_dirty f = f\<lparr>fu_inner := ab_clear_dirty (fu_inner f)\<rparr>"

record anvil_inventory =
  an_inner :: abstract_inventory
  an_repair_cost :: u32

definition anvil_new :: anvil_inventory where
  "anvil_new = \<lparr>an_inner = ab_new 3, an_repair_cost = 0\<rparr>"

definition anvil_set_repair_cost :: "u32 \<Rightarrow> anvil_inventory \<Rightarrow> anvil_inventory" where
  "anvil_set_repair_cost c a = a\<lparr>an_repair_cost := c\<rparr>"

record beacon_inventory =
  be_inner :: abstract_inventory

definition beacon_new :: beacon_inventory where
  "beacon_new = \<lparr>be_inner = ab_new 1\<rparr>"

record brewing_stand_inventory =
  br_inner :: abstract_inventory

definition brewing_stand_new :: brewing_stand_inventory where
  "brewing_stand_new = \<lparr>br_inner = ab_new 4\<rparr>"

record enchantment_table_inventory =
  en_inner :: abstract_inventory
  en_enchantment_seed :: u32

definition enchantment_table_new :: enchantment_table_inventory where
  "enchantment_table_new = \<lparr>en_inner = ab_new 2, en_enchantment_seed = 0\<rparr>"

definition enchantment_table_set_seed ::
  "u32 \<Rightarrow> enchantment_table_inventory \<Rightarrow> enchantment_table_inventory" where
  "enchantment_table_set_seed v t = t\<lparr>en_enchantment_seed := v\<rparr>"

record villager_inventory =
  vi_inner :: abstract_inventory
  vi_merchant_level :: u32

definition villager_new :: villager_inventory where
  "villager_new = \<lparr>vi_inner = ab_new 3, vi_merchant_level = 0\<rparr>"

definition villager_set_merchant_level :: "u32 \<Rightarrow> villager_inventory \<Rightarrow> villager_inventory" where
  "villager_set_merchant_level l v = v\<lparr>vi_merchant_level := l\<rparr>"

datatype container_type =
    CtChest nat | CtFurnace | CtAnvil | CtBeacon | CtBrewingStand | CtEnchantmentTable | CtVillager

definition container_type_size :: "container_type \<Rightarrow> nat" where
  "container_type_size c =
     (case c of CtChest n \<Rightarrow> n | CtFurnace \<Rightarrow> 3 | CtAnvil \<Rightarrow> 3 | CtBeacon \<Rightarrow> 1 | CtBrewingStand \<Rightarrow> 4
      | CtEnchantmentTable \<Rightarrow> 2 | CtVillager \<Rightarrow> 3)"

text \<open>The container that is made for a type has the size of the type.\<close>

definition container_inner :: "container_type \<Rightarrow> abstract_inventory" where
  "container_inner c =
     (case c of CtChest n \<Rightarrow> ch_inner (chest_new n) | CtFurnace \<Rightarrow> fu_inner furnace_new
      | CtAnvil \<Rightarrow> an_inner anvil_new | CtBeacon \<Rightarrow> be_inner beacon_new
      | CtBrewingStand \<Rightarrow> br_inner brewing_stand_new
      | CtEnchantmentTable \<Rightarrow> en_inner enchantment_table_new | CtVillager \<Rightarrow> vi_inner villager_new)"

lemma container_sizes: "ab_size (container_inner c) = container_type_size c \<and> ab_ok (container_inner c)"
  by (cases c)
    (simp_all add: container_inner_def container_type_size_def chest_new_def furnace_new_def
      anvil_new_def beacon_new_def brewing_stand_new_def enchantment_table_new_def villager_new_def
      ab_new_ok)

interpretation furnace: slot_store "\<lambda>f. ab_size (fu_inner f)" furnace_get_item furnace_set_item
  "\<lambda>f. ab_dirty (fu_inner f)" furnace_clear_dirty "\<lambda>f. ab_ok (fu_inner f)"
  by unfold_locales
    (simp_all add: furnace_get_item_def furnace_set_item_def furnace_clear_dirty_def ab.put_inv
      ab.put_size ab.get_out ab.get_put ab.dirty_put ab.clear_inv ab.clear_size ab.clear_get
      ab.clear_empty)

lemma furnace_progress_kept:
  "fu_burn_time (furnace_set_item i x f) = fu_burn_time f"
  "fu_cook_time (furnace_set_item i x f) = fu_cook_time f"
  "furnace_get_item i (furnace_set_burn_time t f) = furnace_get_item i f"
  by (simp_all add: furnace_set_item_def furnace_get_item_def furnace_set_burn_time_def)

end
