(* ===== verification/Player_Inventory.thy ===== *)
theory Player_Inventory
  imports Containers
begin

text \<open>
  The inventory of a player (\<open>component/inventory.rs\<close>): 46 slots and the item on the cursor, the
  seven ways to click on a slot with the drag that spreads the cursor over several clicks, and the
  operations of the game: adding and consuming items, choosing the held slot, closing the window.
  The two numberings of the slots are kept apart as in the code: a window slot is what the client
  sends, an internal slot indexes the list.
\<close>

section \<open>State\<close>

datatype game_mode = Creative | Survival | Adventure | Spectator

record quick_craft_state =
  qc_stage :: u8
  qc_targets :: "u8 list"
  qc_snapshot :: "item_stack list"

definition qc_default :: quick_craft_state where
  "qc_default = \<lparr>qc_stage = 0, qc_targets = [], qc_snapshot = []\<rparr>"

record player_inventory =
  pi_slots :: "item_stack list"
  pi_cursor :: item_stack
  pi_held_slot :: u8
  pi_dirty :: "u8 set"
  pi_full_sync :: bool
  pi_game_mode :: game_mode
  pi_quick_craft :: quick_craft_state
  pi_crafting_result_pending :: "item_stack option"

definition pi_new :: player_inventory where
  "pi_new = \<lparr>pi_slots = replicate 46 AIR, pi_cursor = AIR, pi_held_slot = 0, pi_dirty = {},
     pi_full_sync = True, pi_game_mode = Survival, pi_quick_craft = qc_default,
     pi_crafting_result_pending = None\<rparr>"

definition mark_full_sync :: "player_inventory \<Rightarrow> player_inventory" where
  "mark_full_sync s = s\<lparr>pi_full_sync := True\<rparr>"

definition set_game_mode :: "game_mode \<Rightarrow> player_inventory \<Rightarrow> player_inventory" where
  "set_game_mode mode s = s\<lparr>pi_game_mode := mode\<rparr>"

definition is_creative :: "player_inventory \<Rightarrow> bool" where
  "is_creative s \<longleftrightarrow> pi_game_mode s = Creative"

definition pi_get :: "nat \<Rightarrow> player_inventory \<Rightarrow> item_stack" where
  "pi_get slot s = (if slot < length (pi_slots s) then pi_slots s ! slot else AIR)"

definition pi_set :: "nat \<Rightarrow> item_stack \<Rightarrow> player_inventory \<Rightarrow> player_inventory" where
  "pi_set slot x s =
     (if slot < length (pi_slots s) then
        (let s' = s\<lparr>pi_slots := (pi_slots s)[slot := x]\<rparr> in
         if \<not> is_air x then
           (case usize_to_u8 slot of
              Some idx \<Rightarrow> s'\<lparr>pi_dirty := insert idx (pi_dirty s')\<rparr>
            | None \<Rightarrow> s')
         else s')
      else s)"

definition pi_clear_dirty :: "player_inventory \<Rightarrow> player_inventory" where
  "pi_clear_dirty s = s\<lparr>pi_dirty := {}\<rparr>"

section \<open>Slot numbers\<close>

definition convert_minestom_slot_to_window_slot :: "i32 \<Rightarrow> i32" where
  "convert_minestom_slot_to_window_slot slot =
     (if 0 \<le> sint slot \<and> sint slot \<le> 8 then slot + 36
      else if 9 \<le> sint slot \<and> sint slot \<le> 35 then slot
      else if 36 \<le> sint slot \<and> sint slot \<le> 40 then slot - 36
      else if 41 \<le> sint slot \<and> sint slot \<le> 44 then slot - 36
      else if sint slot = 45 then 45
      else slot)"

definition window_slot_to_minestom_slot :: "i32 \<Rightarrow> i32" where
  "window_slot_to_minestom_slot w =
     (if 0 \<le> sint w \<and> sint w \<le> 8 then w + 36
      else if 9 \<le> sint w \<and> sint w \<le> 35 then w
      else if 36 \<le> sint w \<and> sint w \<le> 44 then w - 36
      else 45)"

definition CLICK_PICKUP :: i32 where "CLICK_PICKUP = 0"
definition CLICK_QUICK_MOVE :: i32 where "CLICK_QUICK_MOVE = 1"
definition CLICK_SWAP :: i32 where "CLICK_SWAP = 2"
definition CLICK_CLONE :: i32 where "CLICK_CLONE = 3"
definition CLICK_THROW :: i32 where "CLICK_THROW = 4"
definition CLICK_QUICK_CRAFT :: i32 where "CLICK_QUICK_CRAFT = 5"
definition CLICK_PICKUP_ALL :: i32 where "CLICK_PICKUP_ALL = 6"
definition CRAFTING_RESULT_SLOT :: i32 where "CRAFTING_RESULT_SLOT = 40"

lemmas click_modes = CLICK_PICKUP_def CLICK_QUICK_MOVE_def CLICK_SWAP_def CLICK_CLONE_def
  CLICK_THROW_def CLICK_QUICK_CRAFT_def CLICK_PICKUP_ALL_def

section \<open>The click modes\<close>

text \<open>The stack itself, or air when nothing is left of it.\<close>

definition or_air :: "item_stack \<Rightarrow> item_stack" where
  "or_air x = (if is_amount x = 0 then AIR else x)"

definition half_up :: "u8 \<Rightarrow> u8" where
  "half_up a = word_of_nat ((unat a + 1) div 2)"

definition click_pickup :: "nat \<Rightarrow> i8 \<Rightarrow> player_inventory \<Rightarrow> bool \<times> player_inventory" where
  "click_pickup slot button s =
     (let slot_stack = pi_get slot s; cursor = pi_cursor s in
      if button = 0 then
        (if is_air cursor then
           (if is_air slot_stack then (False, s)
            else (True, pi_set slot AIR (s\<lparr>pi_cursor := slot_stack\<rparr>)))
         else if is_air slot_stack \<or> is_material slot_stack = is_material cursor then
           (let space = sat_sub (max_stack slot_stack) (is_amount slot_stack);
                to_move = min space (is_amount cursor) in
            if to_move = 0 then (False, s)
            else
              (let new_slot = item_new (is_material cursor) (sat_add (is_amount slot_stack) to_move);
                   new_cursor = cursor\<lparr>is_amount := sat_sub (is_amount cursor) to_move\<rparr>
               in (True, (pi_set slot new_slot s)\<lparr>pi_cursor := or_air new_cursor\<rparr>)))
         else (True, pi_set slot cursor (s\<lparr>pi_cursor := slot_stack\<rparr>)))
      else if button = 1 then
        (if is_air cursor then
           (if is_air slot_stack then (False, s)
            else
              (let half = half_up (is_amount slot_stack);
                   new_slot = slot_stack\<lparr>is_amount := sat_sub (is_amount slot_stack) half\<rparr>
               in (True, pi_set slot (or_air new_slot)
                     (s\<lparr>pi_cursor := item_new (is_material slot_stack) half\<rparr>))))
         else if is_air slot_stack \<or> is_material slot_stack = is_material cursor then
           (if is_amount slot_stack < max_stack slot_stack \<and> 0 < is_amount cursor then
              (let new_slot = item_new (is_material cursor) (sat_add (is_amount slot_stack) 1);
                   new_cursor = cursor\<lparr>is_amount := sat_sub (is_amount cursor) 1\<rparr>
               in (True, (pi_set slot new_slot s)\<lparr>pi_cursor := or_air new_cursor\<rparr>))
            else (False, s))
         else (True, pi_set slot cursor (s\<lparr>pi_cursor := slot_stack\<rparr>)))
      else (False, s))"

text \<open>The two passes of a shift click: onto equal stacks, then into the first free slot.\<close>

fun quick_move_merge ::
  "item_stack \<Rightarrow> nat list \<Rightarrow> u8 \<Rightarrow> player_inventory \<Rightarrow> u8 \<times> player_inventory" where
  "quick_move_merge stack [] todo s = (todo, s)"
| "quick_move_merge stack (d # ds) todo s =
     (if todo = 0 then (todo, s)
      else
        (let dstack = pi_get d s in
         if \<not> is_air dstack \<and> is_material dstack = is_material stack \<and>
            is_amount dstack < max_stack stack
         then
           (let space = max_stack stack - is_amount dstack;
                move_amt = min space todo;
                ns = dstack\<lparr>is_amount := sat_add (is_amount dstack) move_amt\<rparr>
            in quick_move_merge stack ds (sat_sub todo move_amt) (pi_set d ns s))
         else quick_move_merge stack ds todo s))"

fun quick_move_fill ::
  "item_stack \<Rightarrow> nat list \<Rightarrow> u8 \<Rightarrow> player_inventory \<Rightarrow> u8 \<times> player_inventory" where
  "quick_move_fill stack [] todo s = (todo, s)"
| "quick_move_fill stack (d # ds) todo s =
     (if todo = 0 then (todo, s)
      else if is_air (pi_get d s) then
        quick_move_fill stack ds 0 (pi_set d (item_new (is_material stack) todo) s)
      else quick_move_fill stack ds todo s)"

definition quick_move_dest :: "nat \<Rightarrow> nat list option" where
  "quick_move_dest slot =
     (if slot \<le> 8 then Some [9..<36] else if 9 \<le> slot \<and> slot \<le> 35 then Some [0..<9] else None)"

definition click_quick_move :: "nat \<Rightarrow> player_inventory \<Rightarrow> bool \<times> player_inventory" where
  "click_quick_move slot s =
     (let stack = pi_get slot s in
      if is_air stack then (False, s)
      else
        (case quick_move_dest slot of
           None \<Rightarrow> (False, s)
         | Some dest \<Rightarrow>
             (let (rem1, s1) = quick_move_merge stack dest (is_amount stack) s;
                  (rem2, s2) = (if 0 < rem1 then quick_move_fill stack dest rem1 s1 else (rem1, s1));
                  s3 = (if rem2 = 0 then pi_set slot AIR s2
                        else pi_set slot (item_new (is_material stack) rem2) s2)
              in (rem2 \<noteq> is_amount stack, s3))))"

definition click_swap :: "nat \<Rightarrow> i8 \<Rightarrow> player_inventory \<Rightarrow> bool \<times> player_inventory" where
  "click_swap slot button s =
     (if 0 \<le> sint button \<and> sint button \<le> 8 then
        (let hotbar = unat button; a = pi_get slot s; b = pi_get hotbar s
         in (True, pi_set hotbar a (pi_set slot b s)))
      else (False, s))"

definition click_throw :: "nat \<Rightarrow> i8 \<Rightarrow> player_inventory \<Rightarrow> bool \<times> player_inventory" where
  "click_throw slot button s =
     (let stack = pi_get slot s in
      if is_air stack then (False, s)
      else if button = 0 then (True, pi_set slot AIR s)
      else if button = 1 then
        (let ns = stack\<lparr>is_amount := sat_sub (is_amount stack) 1\<rparr> in (True, pi_set slot (or_air ns) s))
      else (False, s))"

fun pickup_all_loop ::
  "u32 \<Rightarrow> nat list \<Rightarrow> u8 \<Rightarrow> bool \<Rightarrow> player_inventory \<Rightarrow> u8 \<times> bool \<times> player_inventory" where
  "pickup_all_loop material [] space changed s = (space, changed, s)"
| "pickup_all_loop material (i # is) space changed s =
     (if space = 0 then (space, changed, s)
      else
        (let stack = pi_get i s in
         if is_air stack \<or> is_material stack \<noteq> material then pickup_all_loop material is space changed s
         else
           (let take_n = min (is_amount stack) space;
                ns = stack\<lparr>is_amount := sat_sub (is_amount stack) take_n\<rparr>
            in pickup_all_loop material is (sat_sub space take_n) True (pi_set i (or_air ns) s))))"

definition click_pickup_all :: "player_inventory \<Rightarrow> bool \<times> player_inventory" where
  "click_pickup_all s =
     (let cursor = pi_cursor s in
      if is_air cursor \<or> max_stack cursor \<le> is_amount cursor then (False, s)
      else
        (case pickup_all_loop (is_material cursor) [0..<46]
            (sat_sub (max_stack cursor) (is_amount cursor)) False s of
           (space, changed, s') \<Rightarrow>
             (changed,
              if changed then s'\<lparr>pi_cursor := cursor\<lparr>is_amount := max_stack cursor - space\<rparr>\<rparr> else s')))"

definition click_clone :: "nat \<Rightarrow> i8 \<Rightarrow> player_inventory \<Rightarrow> bool \<times> player_inventory" where
  "click_clone slot button s =
     (if button \<noteq> 0 then (False, s)
      else if \<not> is_creative s then (False, s)
      else let stack = pi_get slot s in
        if is_air stack then (False, s) else (True, s\<lparr>pi_cursor := stack\<rparr>))"

section \<open>The drag\<close>

definition quick_craft_active :: "player_inventory \<Rightarrow> bool" where
  "quick_craft_active s \<longleftrightarrow> qc_targets (pi_quick_craft s) \<noteq> []"

definition quick_craft_start :: "nat \<Rightarrow> player_inventory \<Rightarrow> bool \<times> player_inventory" where
  "quick_craft_start slot s =
     (if is_air (pi_cursor s) then (False, s)
      else
        (case usize_to_u8 slot of
           None \<Rightarrow> (False, s)
         | Some slot_u8 \<Rightarrow>
             (True, s\<lparr>pi_quick_craft :=
                \<lparr>qc_stage = 0, qc_targets = [slot_u8], qc_snapshot = [pi_get slot s]\<rparr>\<rparr>)))"

definition quick_craft_add_target :: "nat \<Rightarrow> player_inventory \<Rightarrow> bool \<times> player_inventory" where
  "quick_craft_add_target slot s =
     (case usize_to_u8 slot of
        None \<Rightarrow> (False, s)
      | Some slot_u8 \<Rightarrow>
          (let q = pi_quick_craft s in
           if slot_u8 \<in> set (qc_targets q) then (False, s)
           else (True, s\<lparr>pi_quick_craft := q\<lparr>qc_targets := qc_targets q @ [slot_u8],
                    qc_snapshot := qc_snapshot q @ [pi_get slot s]\<rparr>\<rparr>)))"

fun spread_loop ::
  "u32 \<Rightarrow> u8 list \<Rightarrow> u8 \<Rightarrow> bool \<Rightarrow> player_inventory \<Rightarrow> u8 \<times> bool \<times> player_inventory" where
  "spread_loop material [] todo changed s = (todo, changed, s)"
| "spread_loop material (t # ts) todo changed s =
     (if todo = 0 then (todo, changed, s)
      else
        (let idx = unat t; stack = pi_get idx s in
         if \<not> is_air stack \<and> is_material stack \<noteq> material then
           spread_loop material ts todo changed s
         else
           (let space = sat_sub (max_stack stack) (is_amount stack); add = min space todo in
            if add = 0 then spread_loop material ts todo changed s
            else
              (let ns = (if is_air stack then item_new material add
                         else stack\<lparr>is_amount := sat_add (is_amount stack) add\<rparr>)
               in spread_loop material ts (sat_sub todo add) True (pi_set idx ns s)))))"

definition quick_craft_spread :: "u8 \<Rightarrow> player_inventory \<Rightarrow> bool \<times> player_inventory" where
  "quick_craft_spread amount s =
     (if is_air (pi_cursor s) \<or> amount = 0 then (False, s)
      else
        (case spread_loop (is_material (pi_cursor s)) (qc_targets (pi_quick_craft s)) amount False s of
           (todo, changed, s') \<Rightarrow>
             (changed,
              if changed then
                (let new_amount = sat_sub (is_amount (pi_cursor s')) (amount - todo) in
                 s'\<lparr>pi_cursor := if new_amount = 0 then AIR
                     else (pi_cursor s')\<lparr>is_amount := new_amount\<rparr>\<rparr>)
              else s')))"

definition set_qc_stage :: "u8 \<Rightarrow> player_inventory \<Rightarrow> player_inventory" where
  "set_qc_stage n s = s\<lparr>pi_quick_craft := (pi_quick_craft s)\<lparr>qc_stage := n\<rparr>\<rparr>"

definition quick_craft_place_all :: "nat \<Rightarrow> player_inventory \<Rightarrow> bool \<times> player_inventory" where
  "quick_craft_place_all slot s =
     (if \<not> quick_craft_active s then (False, s)
      else let s' = set_qc_stage 1 (snd (quick_craft_add_target slot s))
           in quick_craft_spread (is_amount (pi_cursor s')) s')"

definition quick_craft_place_half :: "nat \<Rightarrow> player_inventory \<Rightarrow> bool \<times> player_inventory" where
  "quick_craft_place_half slot s =
     (if \<not> quick_craft_active s then (False, s)
      else let s' = set_qc_stage 2 (snd (quick_craft_add_target slot s))
           in quick_craft_spread (half_up (is_amount (pi_cursor s'))) s')"

definition quick_craft_continue :: "nat \<Rightarrow> player_inventory \<Rightarrow> bool \<times> player_inventory" where
  "quick_craft_continue slot s =
     (if \<not> quick_craft_active s then (False, s)
      else let s' = set_qc_stage 3 (snd (quick_craft_add_target slot s));
               (changed, t) = quick_craft_spread (is_amount (pi_cursor s')) s'
           in (changed, t\<lparr>pi_quick_craft := qc_default\<rparr>))"

definition click_quick_craft :: "nat \<Rightarrow> i8 \<Rightarrow> player_inventory \<Rightarrow> bool \<times> player_inventory" where
  "click_quick_craft slot button s =
     (if button = 0 then quick_craft_start slot s
      else if button = 1 then quick_craft_place_all slot s
      else if button = 2 then quick_craft_place_half slot s
      else if button = 3 then quick_craft_continue slot s
      else (False, s))"

definition cancel_quick_craft :: "player_inventory \<Rightarrow> bool \<times> player_inventory" where
  "cancel_quick_craft s =
     (if \<not> quick_craft_active s then (False, s)
      else (True, (fold (\<lambda>(t, x). pi_set (unat t) x)
                     (zip (qc_targets (pi_quick_craft s)) (qc_snapshot (pi_quick_craft s))) s)
              \<lparr>pi_quick_craft := qc_default\<rparr>))"

section \<open>The operations\<close>

definition click_slot :: "nat \<Rightarrow> i8 \<Rightarrow> i32 \<Rightarrow> player_inventory \<Rightarrow> bool \<times> player_inventory" where
  "click_slot slot button mode s =
     (if mode = CLICK_PICKUP then click_pickup slot button s
      else if mode = CLICK_QUICK_MOVE then click_quick_move slot s
      else if mode = CLICK_SWAP then click_swap slot button s
      else if mode = CLICK_CLONE then click_clone slot button s
      else if mode = CLICK_THROW then click_throw slot button s
      else if mode = CLICK_QUICK_CRAFT then click_quick_craft slot button s
      else if mode = CLICK_PICKUP_ALL then click_pickup_all s
      else (False, s))"

definition apply_click :: "i32 \<Rightarrow> i8 \<Rightarrow> i32 \<Rightarrow> player_inventory \<Rightarrow> bool \<times> player_inventory" where
  "apply_click window_slot button mode s =
     (if \<not> (0 \<le> sint window_slot \<and> sint window_slot \<le> 45) then (False, s)
      else
        (case i32_to_usize (window_slot_to_minestom_slot window_slot) of
           None \<Rightarrow> (False, s)
         | Some slot \<Rightarrow>
             (let (cancelled, s1) = (if mode \<noteq> CLICK_QUICK_CRAFT \<and> quick_craft_active s
                                     then cancel_quick_craft s else (False, s));
                  (click_changed, s2) = click_slot slot button mode s1;
                  changed = (cancelled \<or> click_changed)
              in (changed, if changed then mark_full_sync s2 else s2))))"

definition drop_cursor :: "player_inventory \<Rightarrow> bool \<times> player_inventory" where
  "drop_cursor s =
     (let (changed, s1) = (if quick_craft_active s then cancel_quick_craft s else (False, s)) in
      if is_air (pi_cursor s1) then (changed, s1)
      else (True, mark_full_sync (s1\<lparr>pi_cursor := AIR\<rparr>)))"

definition set_held_slot :: "u8 \<Rightarrow> player_inventory \<Rightarrow> bool \<times> player_inventory" where
  "set_held_slot slot s = (if slot \<le> 8 then (True, s\<lparr>pi_held_slot := slot\<rparr>) else (False, s))"

definition consume_item :: "u8 \<Rightarrow> player_inventory \<Rightarrow> bool \<times> player_inventory" where
  "consume_item slot s =
     (if 46 \<le> unat slot then (False, s)
      else let stack = pi_get (unat slot) s in
        if is_air stack then (False, s)
        else if 1 < is_amount stack then
          (True, pi_set (unat slot) (stack\<lparr>is_amount := sat_sub (is_amount stack) 1\<rparr>) s)
        else (True, pi_set (unat slot) AIR s))"

text \<open>The code's derived \<open>PartialEq\<close> of components: floats compare as numbers, so one that is not a
  number differs from itself and the two zeros are equal.\<close>

definition f32_is_nan :: "f32 \<Rightarrow> bool" where
  "f32_is_nan w \<longleftrightarrow> 0x7F800000 < w AND 0x7FFFFFFF"

definition f32_eq :: "f32 \<Rightarrow> f32 \<Rightarrow> bool" where
  "f32_eq a b \<longleftrightarrow> \<not> f32_is_nan a \<and> \<not> f32_is_nan b \<and> (a = b \<or> (a OR b) AND 0x7FFFFFFF = 0)"

definition f64_is_nan :: "f64 \<Rightarrow> bool" where
  "f64_is_nan w \<longleftrightarrow> 0x7FF0000000000000 < w AND 0x7FFFFFFFFFFFFFFF"

definition f64_eq :: "f64 \<Rightarrow> f64 \<Rightarrow> bool" where
  "f64_eq a b \<longleftrightarrow> \<not> f64_is_nan a \<and> \<not> f64_is_nan b \<and> (a = b \<or> (a OR b) AND 0x7FFFFFFFFFFFFFFF = 0)"

fun nbt_eq :: "nbt_tag \<Rightarrow> nbt_tag \<Rightarrow> bool"
  and nbts_eq :: "nbt_tag list \<Rightarrow> nbt_tag list \<Rightarrow> bool"
  and nbt_fields_eq :: "(rstring \<times> nbt_tag) list \<Rightarrow> (rstring \<times> nbt_tag) list \<Rightarrow> bool" where
  "nbt_eq (NbtFloat a) t = (case t of NbtFloat b \<Rightarrow> f32_eq a b | _ \<Rightarrow> False)"
| "nbt_eq (NbtDouble a) t = (case t of NbtDouble b \<Rightarrow> f64_eq a b | _ \<Rightarrow> False)"
| "nbt_eq (NbtList xs) t = (case t of NbtList ys \<Rightarrow> nbts_eq xs ys | _ \<Rightarrow> False)"
| "nbt_eq (NbtCompound xs) t = (case t of NbtCompound ys \<Rightarrow> nbt_fields_eq xs ys | _ \<Rightarrow> False)"
| "nbt_eq (NbtByte a) t = (t = NbtByte a)"
| "nbt_eq (NbtShort a) t = (t = NbtShort a)"
| "nbt_eq (NbtInt a) t = (t = NbtInt a)"
| "nbt_eq (NbtLong a) t = (t = NbtLong a)"
| "nbt_eq (NbtByteArray a) t = (t = NbtByteArray a)"
| "nbt_eq (NbtString a) t = (t = NbtString a)"
| "nbt_eq (NbtIntArray a) t = (t = NbtIntArray a)"
| "nbt_eq (NbtLongArray a) t = (t = NbtLongArray a)"
| "nbts_eq [] ys = (ys = [])"
| "nbts_eq (x # xs) ys = (case ys of y # ys' \<Rightarrow> nbt_eq x y \<and> nbts_eq xs ys' | [] \<Rightarrow> False)"
| "nbt_fields_eq [] ys = (ys = [])"
| "nbt_fields_eq ((k, x) # xs) ys =
     (case ys of (l, y) # ys' \<Rightarrow> k = l \<and> nbt_eq x y \<and> nbt_fields_eq xs ys' | [] \<Rightarrow> False)"

definition value_eq :: "component_value \<Rightarrow> component_value \<Rightarrow> bool" where
  "value_eq v w =
     (case (v, w) of
        (CvMinimumAttackCharge a, CvMinimumAttackCharge b) \<Rightarrow> f32_eq a b
      | (CvFloat a, CvFloat b) \<Rightarrow> f32_eq a b
      | (CvDouble a, CvDouble b) \<Rightarrow> f64_eq a b
      | (CvNbt a, CvNbt b) \<Rightarrow> nbt_eq a b
      | _ \<Rightarrow> v = w)"

definition entry_eq :: "component_entry \<Rightarrow> component_entry \<Rightarrow> bool" where
  "entry_eq e f =
     (case (e, f) of (CSet i v, CSet j w) \<Rightarrow> i = j \<and> value_eq v w | _ \<Rightarrow> e = f)"

definition components_eq :: "item_components \<Rightarrow> item_components \<Rightarrow> bool" where
  "components_eq c d = list_all2 entry_eq (ic_entries c) (ic_entries d)"

text \<open>Adding an item: onto equal stacks, then into empty slots.\<close>

fun add_merge :: "nat list \<Rightarrow> item_stack \<Rightarrow> player_inventory \<Rightarrow> item_stack \<times> player_inventory" where
  "add_merge [] todo s = (todo, s)"
| "add_merge (i # is) todo s =
     (if is_air todo then (todo, s)
      else
        (let stack = pi_get i s in
         if is_air stack then add_merge is todo s
         else if is_material stack = is_material todo \<and>
                 components_eq (is_components stack) (is_components todo) then
           (let space = sat_sub (max_stack stack) (is_amount stack) in
            if 0 < space then
              (let move_amt = min space (is_amount todo);
                   ns = stack\<lparr>is_amount := sat_add (is_amount stack) move_amt\<rparr>
               in add_merge is (todo\<lparr>is_amount := sat_sub (is_amount todo) move_amt\<rparr>) (pi_set i ns s))
            else add_merge is todo s)
         else add_merge is todo s))"

fun add_fill :: "nat list \<Rightarrow> item_stack \<Rightarrow> player_inventory \<Rightarrow> item_stack \<times> player_inventory" where
  "add_fill [] todo s = (todo, s)"
| "add_fill (i # is) todo s =
     (if is_air todo then (todo, s)
      else if is_air (pi_get i s) then
        (let move_amt = min (max_stack todo) (is_amount todo)
         in add_fill is (todo\<lparr>is_amount := sat_sub (is_amount todo) move_amt\<rparr>)
              (pi_set i (todo\<lparr>is_amount := move_amt\<rparr>) s))
      else add_fill is todo s)"

definition add_item :: "item_stack \<Rightarrow> player_inventory \<Rightarrow> item_stack \<times> player_inventory" where
  "add_item item s =
     (if is_air item then (AIR, s)
      else
        (let (r1, s1) = add_merge [0..<46] item s;
             (r2, s2) = add_fill [0..<46] r1 s1
         in (if is_air r2 then AIR else r2, s2)))"

section \<open>The inventory as a store of slots\<close>

definition drag_wf :: "quick_craft_state \<Rightarrow> bool" where
  "drag_wf q \<longleftrightarrow> length (qc_snapshot q) = length (qc_targets q) \<and> distinct (qc_targets q) \<and>
     (\<forall>t \<in> set (qc_targets q). unat t < 46)"

definition pi_ok :: "player_inventory \<Rightarrow> bool" where
  "pi_ok s \<longleftrightarrow> length (pi_slots s) = 46 \<and> drag_wf (pi_quick_craft s)"

definition pi_size :: "player_inventory \<Rightarrow> nat" where
  "pi_size s = 46"

lemma pi_set_fields [simp]:
  "pi_cursor (pi_set i x s) = pi_cursor s"
  "pi_held_slot (pi_set i x s) = pi_held_slot s"
  "pi_full_sync (pi_set i x s) = pi_full_sync s"
  "pi_game_mode (pi_set i x s) = pi_game_mode s"
  "pi_quick_craft (pi_set i x s) = pi_quick_craft s"
  "pi_crafting_result_pending (pi_set i x s) = pi_crafting_result_pending s"
  "length (pi_slots (pi_set i x s)) = length (pi_slots s)"
  by (simp_all add: pi_set_def Let_def split: option.splits)

lemma pi_get_fields [simp]:
  "pi_get i (s\<lparr>pi_cursor := c\<rparr>) = pi_get i s"
  "pi_get i (s\<lparr>pi_held_slot := h\<rparr>) = pi_get i s"
  "pi_get i (s\<lparr>pi_full_sync := b\<rparr>) = pi_get i s"
  "pi_get i (s\<lparr>pi_quick_craft := q\<rparr>) = pi_get i s"
  by (simp_all add: pi_get_def)

lemma pi_ok_fields [simp]:
  "pi_ok (s\<lparr>pi_cursor := c\<rparr>) = pi_ok s"
  "pi_ok (s\<lparr>pi_held_slot := h\<rparr>) = pi_ok s"
  "pi_ok (s\<lparr>pi_full_sync := b\<rparr>) = pi_ok s"
  "pi_ok (pi_set i x s) = pi_ok s"
  by (simp_all add: pi_ok_def)

interpretation pi: slot_store pi_size pi_get pi_set pi_dirty pi_clear_dirty pi_ok
  by unfold_locales
    (auto simp: pi_ok_def pi_size_def pi_get_def pi_set_def pi_clear_dirty_def usize_to_u8_def
      Let_def nth_list_update split: option.splits)

abbreviation slots_total :: "u32 \<Rightarrow> player_inventory \<Rightarrow> nat" where
  "slots_total \<equiv> stored pi_get 46"

text \<open>The items of a material that the player has, in the slots and on the cursor.\<close>

definition total_items :: "u32 \<Rightarrow> player_inventory \<Rightarrow> nat" where
  "total_items m s = slots_total m s + held m (pi_cursor s)"

lemma slots_total_fields [simp]:
  "slots_total m (s\<lparr>pi_cursor := c\<rparr>) = slots_total m s"
  "slots_total m (s\<lparr>pi_full_sync := b\<rparr>) = slots_total m s"
  "slots_total m (s\<lparr>pi_quick_craft := q\<rparr>) = slots_total m s"
  by (simp_all add: stored_def)

lemma slots_total_set:
  "pi_ok s \<Longrightarrow> i < 46 \<Longrightarrow>
   slots_total m (pi_set i x s) + held m (pi_get i s) = slots_total m s + held m x"
  by (rule pi.stored_put) (simp_all add: pi_size_def)

lemma held_get_le: "i < 46 \<Longrightarrow> held m (pi_get i s) \<le> slots_total m s"
  by (rule pi.held_le_stored)

lemma get_set: "pi_ok s \<Longrightarrow> pi_get j (pi_set i x s) = (if j = i \<and> i < 46 then x else pi_get j s)"
  using pi.get_put [of s j i x] by (simp add: pi_size_def)

lemma get_other: "pi_ok s \<Longrightarrow> j \<noteq> i \<Longrightarrow> pi_get j (pi_set i x s) = pi_get j s"
  by (simp add: get_set)

lemma held_or_air [simp]: "held m (or_air x) = held m x"
  by (simp add: or_air_def held_def AIR_def)

lemma half_up_nat: "unat (half_up a) = (unat a + 1) div 2"
proof -
  have "(unat a + 1) div 2 < 256" using unat_u8_max [of a] by simp
  then show ?thesis unfolding half_up_def by (rule unat_u8_of_nat)
qed

section \<open>What a click does to the number of items\<close>

text \<open>\<open>conserves\<close>: the result keeps the invariant, the drag, the mode and the total of each material.\<close>

definition conserves :: "player_inventory \<Rightarrow> player_inventory \<Rightarrow> bool" where
  "conserves s t \<longleftrightarrow> pi_ok t \<and> pi_quick_craft t = pi_quick_craft s \<and>
     pi_game_mode t = pi_game_mode s \<and> (\<forall>m. total_items m t = total_items m s)"

lemma conserves_refl [simp]: "pi_ok s \<Longrightarrow> conserves s s"
  by (simp add: conserves_def)

lemma conserves_move:
  assumes "pi_ok s" and "i < 46"
    and "\<And>m. held m x + held m c = held m (pi_get i s) + held m (pi_cursor s)"
  shows "conserves s (pi_set i x (s\<lparr>pi_cursor := c\<rparr>))"
    and "conserves s ((pi_set i x s)\<lparr>pi_cursor := c\<rparr>)"
proof -
  have "total_items m (pi_set i x (s\<lparr>pi_cursor := c\<rparr>)) = total_items m s"
    and "total_items m ((pi_set i x s)\<lparr>pi_cursor := c\<rparr>) = total_items m s" for m
    using slots_total_set [of "s\<lparr>pi_cursor := c\<rparr>" i m x] slots_total_set [of s i m x] assms(1,2)
      assms(3) [of m]
    by (auto simp: total_items_def)
  then show "conserves s (pi_set i x (s\<lparr>pi_cursor := c\<rparr>))"
    and "conserves s ((pi_set i x s)\<lparr>pi_cursor := c\<rparr>)"
    using assms(1) by (simp_all add: conserves_def)
qed

lemma conserves_place:
  assumes "pi_ok s" and "slot < 46"
    and "is_air (pi_get slot s) \<or> is_material (pi_get slot s) = is_material (pi_cursor s)"
    and "unat n \<le> unat (is_amount (pi_cursor s))" and "unat (is_amount (pi_get slot s)) + unat n \<le> 255"
  shows "conserves s ((pi_set slot
      (item_new (is_material (pi_cursor s)) (sat_add (is_amount (pi_get slot s)) n)) s)
      \<lparr>pi_cursor := or_air ((pi_cursor s)\<lparr>is_amount := sat_sub (is_amount (pi_cursor s)) n\<rparr>)\<rparr>)"
  by (rule conserves_move(2) [OF assms(1,2)]) (use assms(3-5) in \<open>auto simp: held_def [of _ "pi_get slot s"] held_def [of _ "pi_cursor s"] is_air_amount\<close>)

lemma conserves_take_half:
  assumes "pi_ok s" and "slot < 46" and "is_air (pi_cursor s)" and "k = is_material (pi_get slot s)"
  shows "conserves s (pi_set slot
      (or_air ((pi_get slot s)\<lparr>is_amount := sat_sub (is_amount (pi_get slot s)) (half_up (is_amount (pi_get slot s)))\<rparr>))
      (s\<lparr>pi_cursor := item_new k (half_up (is_amount (pi_get slot s)))\<rparr>))"
  by (rule conserves_move(1) [OF assms(1,2)])
    (use assms(3,4) in \<open>simp add: half_up_nat held_def [of _ "pi_get slot s"]\<close>)

lemma place_room:
  "unat (is_amount x) + min (unat (max_stack x) - unat (is_amount x)) n \<le> 255"
  using unat_u8_max [of "max_stack x"] unat_u8_max [of "is_amount x"] by simp

lemma place_one:
  assumes "is_amount x < max_stack x"
  shows "unat (is_amount x) + unat (1 :: u8) \<le> 255"
  using assms unat_u8_max [of "max_stack x"] by (simp add: word_less_nat_alt)

lemma pickup_conserves:
  assumes "pi_ok s" and "slot < 46"
  shows "conserves s (snd (click_pickup slot button s))"
proof -
  let ?x = "pi_get slot s" and ?c = "pi_cursor s"
  have swap: "conserves s (pi_set slot ?c (s\<lparr>pi_cursor := ?x\<rparr>))"
    by (rule conserves_move(1) [OF assms]) simp
  have take_all: "conserves s (pi_set slot AIR (s\<lparr>pi_cursor := ?x\<rparr>))" if "is_air ?c"
    by (rule conserves_move(1) [OF assms]) (simp add: that)
  have all: "unat (min (sat_sub (max_stack ?x) (is_amount ?x)) (is_amount ?c)) \<le> unat (is_amount ?c)"
    "unat (is_amount ?x) + unat (min (sat_sub (max_stack ?x) (is_amount ?x)) (is_amount ?c)) \<le> 255"
    using place_room [of ?x] by simp_all
  have one: "unat (1 :: u8) \<le> unat (is_amount ?c)" if "0 < is_amount ?c"
    using that by (simp add: word_less_nat_alt Suc_le_eq)
  show ?thesis
    using swap take_all conserves_take_half [OF assms] conserves_place [OF assms _ all]
      conserves_place [OF assms _ one place_one] assms(1)
    by (cases "is_air ?c") (simp_all add: click_pickup_def Let_def)
qed

lemma air_set_ok [simp]: "pi_ok s \<Longrightarrow> pi_ok (snd (click_clone slot button s))"
  by (simp add: click_clone_def Let_def)

lemma sint_i8: "sint (v :: i8) = uint v \<or> sint v = uint v - 256"
proof -
  have s: "sint v = (uint v + 128) mod 256 - 128"
    by (simp add: sint_uint signed_take_bit_eq_take_bit_shift take_bit_eq_mod)
  have b: "0 \<le> uint v" "uint v < 256" using uint_lt2p [of v] by simp_all
  show ?thesis
  proof (cases "uint v < 128")
    case False
    have "(uint v + 128) mod 256 = (uint v - 128 + 256) mod 256"
      by (rule arg_cong [where f = "\<lambda>x. x mod 256"]) linarith
    also have "\<dots> = (uint v - 128) mod 256" by (rule mod_add_self2)
    also have "\<dots> = uint v - 128" using b False by (intro mod_pos_pos_trivial) linarith+
    finally show ?thesis using s False by simp
  qed (use s b in simp)
qed

lemma swap_conserves:
  assumes "pi_ok s" and "slot < 46"
  shows "conserves s (snd (click_swap slot button s))"
proof (cases "0 \<le> sint button \<and> sint button \<le> 8")
  case True
  define h where "h = unat button"
  have u: "uint button < 256" using uint_lt2p [of button] by simp
  have lo: "0 \<le> sint button" and hi: "sint button \<le> 8" using True by blast+
  have "uint button \<le> 8"
  proof (rule disjE [OF sint_i8 [of button]])
    assume "sint button = uint button"
    with hi show ?thesis by linarith
  next
    assume "sint button = uint button - 256"
    with lo u show ?thesis by linarith
  qed
  then have h: "h < 46" using uint_nat [of button] unfolding h_def by linarith
  have "slots_total m (pi_set h (pi_get slot s) (pi_set slot (pi_get h s) s)) = slots_total m s" for m
  proof -
    have "pi_get h (pi_set slot (pi_get h s) s) = pi_get h s" using assms(1) by (simp add: get_set)
    then show ?thesis
      using slots_total_set [OF assms, of m "pi_get h s"]
        slots_total_set [of "pi_set slot (pi_get h s) s" h m "pi_get slot s"] assms(1) h
      by simp
  qed
  then show ?thesis
    using True assms(1) by (simp add: click_swap_def conserves_def total_items_def Let_def h_def)
next
  case False
  then show ?thesis using assms by (auto simp: click_swap_def)
qed

text \<open>A shift click: what leaves the slot arrives in the others.\<close>

lemma merge_moves:
  assumes "pi_ok s" and "\<forall>d \<in> set ds. d < 46 \<and> d \<noteq> slot"
    and "quick_move_merge stack ds r s = (r', t)"
  shows "pi_ok t \<and> pi_quick_craft t = pi_quick_craft s \<and> pi_game_mode t = pi_game_mode s \<and>
    pi_cursor t = pi_cursor s \<and> pi_get slot t = pi_get slot s \<and> unat r' \<le> unat r \<and>
    slots_total m t + (if is_material stack = m then unat r' else 0)
      = slots_total m s + (if is_material stack = m then unat r else 0)"
  using assms
proof (induction ds arbitrary: r s)
  case (Cons d ds)
  define x where "x = pi_get d s"
  define n where "n = min (max_stack stack - is_amount x) r"
  show ?case
  proof (cases "r \<noteq> 0 \<and> \<not> is_air x \<and> is_material x = is_material stack \<and> is_amount x < max_stack stack")
    case True
    have "unat (max_stack stack - is_amount x) = unat (max_stack stack) - unat (is_amount x)"
      using True by (simp add: unat_sub word_less_nat_alt word_le_nat_alt)
    then have n: "unat n \<le> unat r" "unat (is_amount x) + unat n \<le> 255"
      using place_room [of stack] unat_u8_max [of "max_stack stack"] True
      by (auto simp: n_def word_less_nat_alt)
    define s1 where "s1 = pi_set d (x\<lparr>is_amount := sat_add (is_amount x) n\<rparr>) s"
    have d: "d < 46" "slot \<noteq> d" using Cons.prems(2) by auto
    have eq: "quick_move_merge stack ds (sat_sub r n) s1 = (r', t)"
      using Cons.prems(3) True by (simp add: Let_def x_def n_def s1_def)
    note ih = Cons.IH [OF _ _ eq]
    have "slots_total m s1 + held m x = slots_total m s + held m (x\<lparr>is_amount := sat_add (is_amount x) n\<rparr>)"
      unfolding s1_def x_def by (rule slots_total_set [OF Cons.prems(1) d(1)])
    then show ?thesis
      using ih Cons.prems(1,2) n True d by (auto simp: s1_def held_def get_set)
  next
    case False
    then show ?thesis
      using Cons.prems Cons.IH [of s r] by (auto simp: Let_def x_def split: if_splits)
  qed
qed simp

lemma fill_moves:
  assumes "pi_ok s" and "\<forall>d \<in> set ds. d < 46 \<and> d \<noteq> slot"
    and "quick_move_fill stack ds r s = (r', t)"
  shows "pi_ok t \<and> pi_quick_craft t = pi_quick_craft s \<and> pi_game_mode t = pi_game_mode s \<and>
    pi_cursor t = pi_cursor s \<and> pi_get slot t = pi_get slot s \<and> unat r' \<le> unat r \<and>
    slots_total m t + (if is_material stack = m then unat r' else 0)
      = slots_total m s + (if is_material stack = m then unat r else 0)"
  using assms
proof (induction ds arbitrary: r s)
  case (Cons d ds)
  show ?case
  proof (cases "r \<noteq> 0 \<and> is_air (pi_get d s)")
    case True
    define s1 where "s1 = pi_set d (item_new (is_material stack) r) s"
    have d: "d < 46" "slot \<noteq> d" using Cons.prems(2) by auto
    have eq: "quick_move_fill stack ds 0 s1 = (r', t)"
      using Cons.prems(3) True by (simp add: s1_def)
    have "slots_total m s1 + held m (pi_get d s) = slots_total m s + held m (item_new (is_material stack) r)"
      unfolding s1_def by (rule slots_total_set [OF Cons.prems(1) d(1)])
    then show ?thesis
      using Cons.IH [OF _ _ eq] Cons.prems(1,2) True d by (auto simp: s1_def get_set)
  next
    case False
    then show ?thesis
      using Cons.prems Cons.IH [of s r] by (auto split: if_splits)
  qed
qed simp

lemma quick_move_conserves:
  assumes "pi_ok s" and "slot < 46"
  shows "conserves s (snd (click_quick_move slot s))"
proof (cases "is_air (pi_get slot s) \<or> quick_move_dest slot = None")
  case True
  then show ?thesis using assms by (auto simp: click_quick_move_def Let_def)
next
  case False
  define x where "x = pi_get slot s"
  obtain dest where dest: "quick_move_dest slot = Some dest" using False by auto
  have ds: "\<forall>d \<in> set dest. d < 46 \<and> d \<noteq> slot"
    using dest by (auto simp: quick_move_dest_def split: if_splits)
  obtain r1 s1 where m: "quick_move_merge x dest (is_amount x) s = (r1, s1)" by (metis surj_pair)
  obtain r2 s2 where f: "(if 0 < r1 then quick_move_fill x dest r1 s1 else (r1, s1)) = (r2, s2)"
    by (metis surj_pair)
  note mm = merge_moves [OF assms(1) ds m]
  have s1: "pi_ok s1" using mm by blast
  have ff: "pi_ok s2 \<and> pi_quick_craft s2 = pi_quick_craft s1 \<and> pi_game_mode s2 = pi_game_mode s1 \<and>
    pi_cursor s2 = pi_cursor s1 \<and> pi_get slot s2 = pi_get slot s1 \<and>
    slots_total k s2 + (if is_material x = k then unat r2 else 0)
      = slots_total k s1 + (if is_material x = k then unat r1 else 0)" for k
    using f fill_moves [OF s1 ds, of x r1 r2 s2 k] s1 by (auto split: if_splits)
  have res: "snd (click_quick_move slot s) = pi_set slot (item_new (is_material x) r2) s2"
    using False dest m f by (cases "0 < r1") (auto simp: click_quick_move_def Let_def x_def item_new_def)
  have "slots_total k (pi_set slot (item_new (is_material x) r2) s2) = slots_total k s" for k
    using slots_total_set [of s2 slot k "item_new (is_material x) r2"] ff [of k] mm [of k] assms(2)
    by (cases "is_material x = k") (auto simp: held_def [of _ x] simp flip: x_def)
  then show ?thesis
    unfolding res using ff mm by (simp add: conserves_def total_items_def)
qed

lemma throw_loses:
  assumes "pi_ok s" and "slot < 46"
  shows "pi_ok (snd (click_throw slot button s)) \<and>
    pi_quick_craft (snd (click_throw slot button s)) = pi_quick_craft s \<and>
    pi_game_mode (snd (click_throw slot button s)) = pi_game_mode s \<and>
    total_items m (snd (click_throw slot button s)) \<le> total_items m s"
  using assms slots_total_set [OF assms, of m AIR]
    slots_total_set [OF assms, of m "or_air ((pi_get slot s)\<lparr>is_amount := sat_sub (is_amount (pi_get slot s)) 1\<rparr>)"]
  by (auto simp: click_throw_def Let_def total_items_def held_def [of m "pi_get slot s"] split: if_splits)

lemma pickup_loop_moves:
  assumes "pi_ok s" and "\<forall>i \<in> set is. i < 46"
    and "pickup_all_loop k is space ch s = (space', ch', t)"
  shows "pi_ok t \<and> pi_quick_craft t = pi_quick_craft s \<and> pi_game_mode t = pi_game_mode s \<and>
    pi_cursor t = pi_cursor s \<and> unat space' \<le> unat space \<and> (ch' \<or> t = s) \<and> (ch \<longrightarrow> ch') \<and>
    slots_total m t + (if k = m then unat space - unat space' else 0) = slots_total m s"
  using assms
proof (induction "is" arbitrary: space ch s)
  case (Cons i "is")
  define x where "x = pi_get i s"
  define n where "n = min (is_amount x) space"
  show ?case
  proof (cases "space \<noteq> 0 \<and> \<not> is_air x \<and> is_material x = k")
    case True
    define s1 where "s1 = pi_set i (or_air (x\<lparr>is_amount := sat_sub (is_amount x) n\<rparr>)) s"
    have i: "i < 46" using Cons.prems(2) by simp
    have eq: "pickup_all_loop k is (sat_sub space n) True s1 = (space', ch', t)"
      using Cons.prems(3) True by (simp add: Let_def x_def n_def s1_def)
    have "slots_total m s1 + held m x = slots_total m s + held m (or_air (x\<lparr>is_amount := sat_sub (is_amount x) n\<rparr>))"
      unfolding s1_def x_def by (rule slots_total_set [OF Cons.prems(1) i])
    moreover have "unat n \<le> unat space" "unat n \<le> unat (is_amount x)" by (simp_all add: n_def)
    ultimately show ?thesis
      using Cons.IH [OF _ _ eq] Cons.prems(1,2) True by (auto simp: s1_def held_def [of m x])
  next
    case False
    then show ?thesis
      using Cons.prems Cons.IH [of s space ch] by (auto simp: Let_def x_def split: if_splits)
  qed
qed simp

lemma pickup_all_conserves:
  assumes "pi_ok s"
  shows "conserves s (snd (click_pickup_all s))"
proof (cases "is_air (pi_cursor s) \<or> max_stack (pi_cursor s) \<le> is_amount (pi_cursor s)")
  case True
  then show ?thesis using assms by (simp add: click_pickup_all_def Let_def)
next
  case False
  let ?c = "pi_cursor s"
  define space where "space = sat_sub (max_stack ?c) (is_amount ?c)"
  obtain space' ch t where l: "pickup_all_loop (is_material ?c) [0..<46] space False s = (space', ch, t)"
    by (metis surj_pair)
  have all: "\<forall>i \<in> set [0..<46]. i < (46 :: nat)" by simp
  note mv = pickup_loop_moves [OF assms all l]
  have sp: "unat space = unat (max_stack ?c) - unat (is_amount ?c)" "unat (is_amount ?c) < unat (max_stack ?c)"
    using False by (simp_all add: space_def word_le_nat_alt)
  have "unat space' \<le> unat space" using mv by blast
  then have "unat space' \<le> unat (max_stack ?c)" using sp(1) by linarith
  then have am: "unat (max_stack ?c - space') = unat (max_stack ?c) - unat space'"
    by (simp add: unat_sub word_le_nat_alt)
  have res: "snd (click_pickup_all s) =
      (if ch then t\<lparr>pi_cursor := ?c\<lparr>is_amount := max_stack ?c - space'\<rparr>\<rparr> else t)"
    using False l by (simp add: click_pickup_all_def Let_def space_def)
  show ?thesis
  proof (cases ch)
    case True
    have "total_items m (t\<lparr>pi_cursor := ?c\<lparr>is_amount := max_stack ?c - space'\<rparr>\<rparr>) = total_items m s" for m
      using mv [of m] sp am by (auto simp: total_items_def held_def [of m ?c])
    then show ?thesis using True mv by (simp add: res conserves_def)
  next
    case False
    with mv assms show ?thesis by (simp add: res)
  qed
qed

section \<open>The drag\<close>

text \<open>Every target holds at least what its snapshot holds.\<close>

definition drag_le :: "player_inventory \<Rightarrow> bool" where
  "drag_le s \<longleftrightarrow> (\<forall>(t, x) \<in> set (zip (qc_targets (pi_quick_craft s)) (qc_snapshot (pi_quick_craft s))).
     \<forall>m. held m x \<le> held m (pi_get (unat t) s))"

lemma spread_moves:
  assumes "pi_ok s" and "\<forall>t \<in> set ts. unat t < 46" and "spread_loop k ts r ch s = (r', ch', u)"
  shows "pi_ok u \<and> pi_quick_craft u = pi_quick_craft s \<and> pi_game_mode u = pi_game_mode s \<and>
    pi_cursor u = pi_cursor s \<and> unat r' \<le> unat r \<and> (ch' \<or> u = s) \<and> (ch \<longrightarrow> ch') \<and>
    slots_total m u = slots_total m s + (if k = m then unat r - unat r' else 0) \<and>
    (\<forall>j m. held m (pi_get j s) \<le> held m (pi_get j u))"
  using assms
proof (induction ts arbitrary: r ch s)
  case (Cons t ts)
  define x where "x = pi_get (unat t) s"
  define n where "n = min (sat_sub (max_stack x) (is_amount x)) r"
  show ?case
  proof (cases "r \<noteq> 0 \<and> (is_air x \<or> is_material x = k) \<and> n \<noteq> 0")
    case True
    define y where "y = (if is_air x then item_new k n else x\<lparr>is_amount := sat_add (is_amount x) n\<rparr>)"
    define s1 where "s1 = pi_set (unat t) y s"
    have t: "unat t < 46" using Cons.prems(2) by simp
    have n: "unat n \<le> unat r" "unat (is_amount x) + unat n \<le> 255"
      using place_room [of x "unat r"] by (simp_all add: n_def)
    have eq: "spread_loop k ts (sat_sub r n) True s1 = (r', ch', u)"
      using Cons.prems(3) True by (auto simp: Let_def x_def n_def s1_def y_def)
    have "slots_total m s1 + held m x = slots_total m s + held m y"
      unfolding s1_def x_def by (rule slots_total_set [OF Cons.prems(1) t])
    moreover have y: "held m y = held m x + (if k = m then unat n else 0)" for m
      using True n by (auto simp: y_def held_def [of m x] is_air_amount)
    moreover have ok: "pi_ok s1" using Cons.prems(1) by (simp add: s1_def)
    moreover have "held m (pi_get j s) \<le> held m (pi_get j u)" for j m
    proof -
      have "held m (pi_get j s) \<le> held m (pi_get j s1)"
        using y [of m] Cons.prems(1) by (auto simp: s1_def get_set x_def)
      also have "\<dots> \<le> held m (pi_get j u)"
        using Cons.IH [OF ok _ eq] Cons.prems(2) by simp
      finally show ?thesis .
    qed
    ultimately show ?thesis
      using Cons.IH [OF ok _ eq] Cons.prems(2) n
      by (auto simp: s1_def)
  next
    case False
    then show ?thesis
      using Cons.prems Cons.IH [of s r ch] by (auto simp: Let_def x_def n_def split: if_splits)
  qed
qed simp

text \<open>A step of the drag keeps the total and lets the slots only grow.\<close>

lemma spread_conserves:
  assumes "pi_ok s" and "drag_le s" and "unat a \<le> unat (is_amount (pi_cursor s))"
  defines "t \<equiv> snd (quick_craft_spread a s)"
  shows "conserves s t" and "drag_le t"
proof -
  have "conserves s t \<and> drag_le t"
  proof (cases "is_air (pi_cursor s) \<or> a = 0")
    case True
    then show ?thesis using assms by (simp add: t_def quick_craft_spread_def)
  next
    case False
    let ?c = "pi_cursor s"
    obtain r ch u where l: "spread_loop (is_material ?c) (qc_targets (pi_quick_craft s)) a False s = (r, ch, u)"
      by (metis surj_pair)
    have ts: "\<forall>t \<in> set (qc_targets (pi_quick_craft s)). unat t < 46"
      using assms(1) by (simp add: pi_ok_def drag_wf_def)
    note mv = spread_moves [OF assms(1) ts l]
    have dl: "drag_le u" using assms(2) mv by (fastforce simp: drag_le_def intro: order_trans)
    show ?thesis
    proof (cases ch)
      case True
      have ar: "unat (a - r) = unat a - unat r" using mv by (simp add: unat_sub word_le_nat_alt)
      define n where "n = sat_sub (is_amount ?c) (a - r)"
      have res: "t = u\<lparr>pi_cursor := if n = 0 then AIR else ?c\<lparr>is_amount := n\<rparr>\<rparr>"
        using False l True mv by (simp add: t_def quick_craft_spread_def Let_def n_def)
      have "total_items m t = total_items m s" for m
        using mv [of m] ar assms(3)
        by (auto simp: res total_items_def held_def [of m ?c] n_def u8_eq_0_iff)
      moreover have "drag_le t" using dl by (simp add: drag_le_def res)
      ultimately show ?thesis using mv by (simp add: conserves_def res)
    next
      case False': False
      with False l have "t = u" by (simp add: t_def quick_craft_spread_def)
      moreover have "u = s" using mv False' by blast
      ultimately show ?thesis using assms by simp
    qed
  qed
  then show "conserves s t" and "drag_le t" by simp_all
qed

lemma drag_empty [simp]: "drag_wf qc_default" "qc_targets qc_default = []"
  by (simp_all add: drag_wf_def qc_default_def)

lemma quick_craft_ok [simp]: "pi_ok s \<Longrightarrow> drag_wf q \<Longrightarrow> pi_ok (s\<lparr>pi_quick_craft := q\<rparr>)"
  by (simp add: pi_ok_def)

lemma stage_fields [simp]:
  "pi_ok (set_qc_stage n s) = pi_ok s" "drag_le (set_qc_stage n s) = drag_le s"
  "pi_cursor (set_qc_stage n s) = pi_cursor s" "pi_game_mode (set_qc_stage n s) = pi_game_mode s"
  "total_items m (set_qc_stage n s) = total_items m s" "pi_get i (set_qc_stage n s) = pi_get i s"
  by (simp_all add: set_qc_stage_def pi_ok_def drag_wf_def drag_le_def total_items_def)

text \<open>\<open>drag_ok\<close> is the invariant of the clicks.\<close>

definition drag_ok :: "player_inventory \<Rightarrow> bool" where
  "drag_ok s \<longleftrightarrow> pi_ok s \<and> drag_le s"

lemma drag_ok_idle: "pi_ok s \<Longrightarrow> \<not> quick_craft_active s \<Longrightarrow> drag_ok s"
  by (simp add: drag_ok_def drag_le_def quick_craft_active_def)

lemma usize_to_u8_slot: "slot < 46 \<Longrightarrow> usize_to_u8 slot = Some (word_of_nat slot) \<and> unat (word_of_nat slot :: u8) = slot"
  by (simp add: usize_to_u8_def unat_u8_of_nat)

lemma start_ok:
  assumes "drag_ok s" and "slot < 46"
  defines "t \<equiv> snd (quick_craft_start slot s)"
  shows "drag_ok t \<and> pi_game_mode t = pi_game_mode s \<and> total_items m t = total_items m s"
  using assms usize_to_u8_slot [OF assms(2)]
  by (auto simp: quick_craft_start_def drag_ok_def drag_le_def drag_wf_def total_items_def)

lemma add_target_ok:
  assumes "drag_ok s" and "slot < 46"
  defines "t \<equiv> snd (quick_craft_add_target slot s)"
  shows "drag_ok t \<and> pi_game_mode t = pi_game_mode s \<and> pi_cursor t = pi_cursor s \<and>
    total_items m t = total_items m s"
proof (cases "word_of_nat slot \<in> set (qc_targets (pi_quick_craft s))")
  case True
  then show ?thesis
    using assms usize_to_u8_slot [OF assms(2)] by (simp add: quick_craft_add_target_def Let_def)
next
  case False
  let ?q = "pi_quick_craft s"
  have t: "t = s\<lparr>pi_quick_craft := ?q\<lparr>qc_targets := qc_targets ?q @ [word_of_nat slot],
      qc_snapshot := qc_snapshot ?q @ [pi_get slot s]\<rparr>\<rparr>"
    using False usize_to_u8_slot [OF assms(2)] by (simp add: t_def quick_craft_add_target_def Let_def)
  have len: "length (qc_snapshot ?q) = length (qc_targets ?q)"
    using assms(1) by (simp add: drag_ok_def pi_ok_def drag_wf_def)
  have "drag_wf (pi_quick_craft t)"
    using assms(1) False usize_to_u8_slot [OF assms(2)] assms(2)
    by (auto simp: t drag_ok_def pi_ok_def drag_wf_def)
  moreover have "drag_le t"
    using assms(1) usize_to_u8_slot [OF assms(2)] len by (auto simp: t drag_ok_def drag_le_def)
  ultimately show ?thesis
    using assms(1) by (simp add: t drag_ok_def pi_ok_def total_items_def)
qed

lemma drag_step_ok:
  assumes "drag_ok s" and "slot < 46" and "\<And>a. unat (f a) \<le> unat a"
    and s': "s' = set_qc_stage n (snd (quick_craft_add_target slot s))"
    and t: "t = snd (quick_craft_spread (f (is_amount (pi_cursor s'))) s')"
  shows "drag_ok t \<and> pi_game_mode t = pi_game_mode s \<and> (\<forall>m. total_items m t = total_items m s)"
proof -
  note add = add_target_ok [OF assms(1,2)]
  have "pi_ok s'" "drag_le s'" using add by (simp_all add: s' drag_ok_def)
  note sp = spread_conserves [OF this, of "f (is_amount (pi_cursor s'))", OF assms(3), folded t]
  have "\<forall>m. total_items m s' = total_items m s" "pi_game_mode s' = pi_game_mode s"
    using add by (simp_all add: s')
  with sp show ?thesis by (simp add: conserves_def drag_ok_def)
qed

lemma quick_craft_conserves:
  fixes button :: i8
  assumes "drag_ok s" and "slot < 46"
  defines "t \<equiv> snd (click_quick_craft slot button s)"
  shows "drag_ok t \<and> pi_game_mode t = pi_game_mode s \<and> (\<forall>m. total_items m t = total_items m s)"
proof -
  have "unat (half_up a) \<le> unat a" for a
    using half_up_nat [of a] by linarith
  note half = drag_step_ok [where f = half_up and n = 2, OF assms(1,2) this refl refl]
  have all: "drag_ok u \<and> pi_game_mode u = pi_game_mode s \<and> (\<forall>m. total_items m u = total_items m s)"
    if "u = snd (quick_craft_spread (is_amount (pi_cursor s')) s')"
      "s' = set_qc_stage n (snd (quick_craft_add_target slot s))" for n s' u
    by (rule drag_step_ok [where f = "\<lambda>a. a", OF assms(1,2) order_refl that(2,1)])
  have settle: "drag_ok (u\<lparr>pi_quick_craft := qc_default\<rparr>) \<and> total_items m (u\<lparr>pi_quick_craft := qc_default\<rparr>) = total_items m u"
    if "drag_ok u" for m u
    using that by (simp add: drag_ok_def drag_le_def total_items_def)
  show ?thesis
    unfolding t_def click_quick_craft_def quick_craft_place_all_def quick_craft_place_half_def
      quick_craft_continue_def Let_def
    using start_ok [OF assms(1,2)] half all [OF refl refl, of 1] all [OF refl refl, of 3] settle assms(1)
    by (simp add: case_prod_beta)
qed

text \<open>Cancelling puts the snapshot back: the slots can only lose.\<close>

lemma rollback_loses:
  assumes "pi_ok s" and "\<forall>(t, x) \<in> set ps. unat t < 46 \<and> (\<forall>m. held m x \<le> held m (pi_get (unat t) s))"
    and "distinct (map fst ps)"
  defines "u \<equiv> fold (\<lambda>(t, x). pi_set (unat t) x) ps s"
  shows "pi_ok u \<and> pi_game_mode u = pi_game_mode s \<and> pi_cursor u = pi_cursor s \<and>
    slots_total m u \<le> slots_total m s"
  using assms(1-3) unfolding u_def
proof (induction ps arbitrary: s)
  case (Cons p ps)
  obtain t x where p: "p = (t, x)" by (cases p)
  let ?s1 = "pi_set (unat t) x s"
  have t: "unat t < 46" "held m x \<le> held m (pi_get (unat t) s)" for m
    using Cons.prems(2) by (auto simp: p)
  have ok: "pi_ok ?s1" using Cons.prems(1) by simp
  have other: "unat r \<noteq> unat t" if "(r, y) \<in> set ps" for r y
    using Cons.prems(3) that by (force simp: p word_unat_eq_iff)
  have "\<forall>(r, y) \<in> set ps. unat r < 46 \<and> (\<forall>m. held m y \<le> held m (pi_get (unat r) ?s1))"
    using Cons.prems(1,2) other by (fastforce simp: get_set)
  moreover have "distinct (map fst ps)" using Cons.prems(3) by simp
  ultimately have "pi_ok (fold (\<lambda>(t, x). pi_set (unat t) x) ps ?s1) \<and>
      pi_game_mode (fold (\<lambda>(t, x). pi_set (unat t) x) ps ?s1) = pi_game_mode ?s1 \<and>
      pi_cursor (fold (\<lambda>(t, x). pi_set (unat t) x) ps ?s1) = pi_cursor ?s1 \<and>
      slots_total m (fold (\<lambda>(t, x). pi_set (unat t) x) ps ?s1) \<le> slots_total m ?s1"
    by (rule Cons.IH [OF ok])
  moreover have "slots_total m ?s1 \<le> slots_total m s"
    using slots_total_set [OF Cons.prems(1) t(1), of m x] t(2) [of m] by linarith
  ultimately show ?case by (simp add: p)
qed simp

lemma cancel_loses:
  assumes "drag_ok s"
  defines "t \<equiv> snd (cancel_quick_craft s)"
  shows "pi_ok t \<and> pi_game_mode t = pi_game_mode s \<and> \<not> quick_craft_active t \<and>
    total_items m t \<le> total_items m s"
proof (cases "quick_craft_active s")
  case False
  then show ?thesis using assms by (simp add: cancel_quick_craft_def drag_ok_def)
next
  case True
  let ?q = "pi_quick_craft s"
  let ?ps = "zip (qc_targets ?q) (qc_snapshot ?q)"
  have wf: "drag_wf ?q" using assms(1) by (simp add: drag_ok_def pi_ok_def)
  have "\<forall>(t, x) \<in> set ?ps. unat t < 46 \<and> (\<forall>m. held m x \<le> held m (pi_get (unat t) s))"
    using assms(1) wf by (auto simp: drag_ok_def drag_le_def drag_wf_def dest: set_zip_leftD)
  moreover have "distinct (map fst ?ps)" using wf by (simp add: drag_wf_def)
  ultimately show ?thesis
    using rollback_loses [of s ?ps m] assms(1) True
    by (simp add: t_def cancel_quick_craft_def quick_craft_active_def total_items_def drag_ok_def)
qed

section \<open>Slot numbers\<close>

text \<open>Both conversions as functions of the number, and their values on the 46 slots.\<close>

definition window_of :: "nat \<Rightarrow> nat" where
  "window_of n = (if n \<le> 8 then n + 36 else if n \<le> 35 then n else if n \<le> 44 then n - 36 else n)"

definition internal_of :: "nat \<Rightarrow> nat" where
  "internal_of n = (if n \<le> 8 then n + 36 else if n \<le> 35 then n else if n \<le> 44 then n - 36 else 45)"

lemma slot_cases: "n \<le> 45 \<Longrightarrow> n \<in> set [0..<46]"
  by simp

lemma convert_of_nat:
  assumes "n \<le> 45"
  shows "convert_minestom_slot_to_window_slot (word_of_nat n) = word_of_nat (window_of n)"
    and "window_slot_to_minestom_slot (word_of_nat n) = word_of_nat (internal_of n)"
proof -
  have "\<forall>n \<in> set [0..<46]. convert_minestom_slot_to_window_slot (word_of_nat n) = word_of_nat (window_of n) \<and>
      window_slot_to_minestom_slot (word_of_nat n) = word_of_nat (internal_of n)"
    by code_simp
  with slot_cases [OF assms] show "convert_minestom_slot_to_window_slot (word_of_nat n) = word_of_nat (window_of n)"
    and "window_slot_to_minestom_slot (word_of_nat n) = word_of_nat (internal_of n)" by blast+
qed

lemma slots_inverse:
  "n \<le> 45 \<Longrightarrow> internal_of (window_of n) = n" "n \<le> 45 \<Longrightarrow> window_of (internal_of n) = n"
  "n \<le> 45 \<Longrightarrow> internal_of n \<le> 45" "n \<le> 45 \<Longrightarrow> window_of n \<le> 45"
  by (auto simp: window_of_def internal_of_def)

lemma window_slot_nat:
  assumes "0 \<le> sint (w :: i32)" and "sint w \<le> 45"
  obtains n where "n \<le> 45" and "w = word_of_nat n"
proof -
  have "i32_to_usize w = Some (unat w)" using assms(1) by (simp add: i32_to_usize_def)
  then have "unat w < 2 ^ 31" by (rule i32_to_usize_bound)
  moreover have "sint (word_of_nat n :: i32) = int n" if "n < 2 ^ 31" for n
    using that by (simp add: signed_of_nat signed_take_bit_int_eq_self_iff)
  moreover have "word_of_nat (unat w) = w" by simp
  ultimately have "sint w = int (unat w)" by metis
  with assms(2) have "int (unat w) \<le> int 45" by (simp only: of_nat_numeral)
  then have "unat w \<le> 45" by (simp only: of_nat_le_iff)
  then show thesis by (intro that [of "unat w"]) simp_all
qed

lemma click_slot_number:
  assumes "0 \<le> sint (w :: i32)" and "sint w \<le> 45"
  obtains slot where "slot < 46" and "i32_to_usize (window_slot_to_minestom_slot w) = Some slot"
proof -
  obtain n where n: "n \<le> 45" "w = word_of_nat n" by (rule window_slot_nat [OF assms])
  have b: "internal_of n \<le> 45" by (rule slots_inverse(3) [OF n(1)])
  then have "i32_to_usize (word_of_nat (internal_of n)) = Some (internal_of n)"
    by (simp add: i32_to_usize_nat unat_of_nat take_bit_nat_eq_self_iff)
  with b show thesis
    by (intro that [of "internal_of n"]) (simp_all add: n(2) convert_of_nat(2) [OF n(1)])
qed

section \<open>A click, and any number of clicks\<close>

lemma click_slot_cases:
  fixes button :: i8 and m :: u32
  assumes "drag_ok s" and "slot < 46" and "mode = CLICK_QUICK_CRAFT \<or> \<not> quick_craft_active s"
    and "\<not> is_creative s"
  defines "t \<equiv> snd (click_slot slot button mode s)"
  shows "drag_ok t \<and> pi_game_mode t = pi_game_mode s \<and> total_items m t \<le> total_items m s \<and>
    (mode \<noteq> CLICK_THROW \<longrightarrow> total_items m t = total_items m s)"
proof (cases "mode = CLICK_QUICK_CRAFT")
  case True
  then show ?thesis
    using quick_craft_conserves [OF assms(1,2)] by (simp add: t_def click_slot_def click_modes)
next
  case False
  have ok: "pi_ok s" using assms(1) by (simp add: drag_ok_def)
  have idle: "\<not> quick_craft_active s" using assms(3) False by simp
  have ci: "drag_ok u" if "conserves s u" for u
    using that idle by (intro drag_ok_idle) (auto simp: conserves_def quick_craft_active_def)
  have good: ?thesis if "conserves s t"
    using that ci by (simp add: conserves_def)
  have clone: "snd (click_clone slot button s) = s"
    using assms(4) by (simp add: click_clone_def Let_def)
  have throw: "drag_ok (snd (click_throw slot button s)) \<and>
      pi_game_mode (snd (click_throw slot button s)) = pi_game_mode s \<and>
      total_items m (snd (click_throw slot button s)) \<le> total_items m s"
    using throw_loses [OF ok assms(2), of button m] idle
    by (auto intro!: drag_ok_idle simp: quick_craft_active_def)
  consider "mode = CLICK_PICKUP" | "mode = CLICK_QUICK_MOVE" | "mode = CLICK_SWAP" | "mode = CLICK_CLONE"
    | "mode = CLICK_THROW" | "mode = CLICK_PICKUP_ALL"
    | (other) "mode \<notin> {CLICK_PICKUP, CLICK_QUICK_MOVE, CLICK_SWAP, CLICK_CLONE, CLICK_THROW, CLICK_PICKUP_ALL}"
    by blast
  then show ?thesis
  proof cases
    case 1
    then show ?thesis using pickup_conserves [OF ok assms(2)] by (intro good) (simp add: t_def click_slot_def)
  next
    case 2
    then show ?thesis
      using quick_move_conserves [OF ok assms(2)] by (intro good) (simp add: t_def click_slot_def click_modes)
  next
    case 3
    then show ?thesis
      using swap_conserves [OF ok assms(2)] by (intro good) (simp add: t_def click_slot_def click_modes)
  next
    case 4
    then show ?thesis using clone ok by (intro good) (simp add: t_def click_slot_def click_modes)
  next
    case 5
    then show ?thesis using throw by (simp add: t_def click_slot_def click_modes)
  next
    case 6
    then show ?thesis
      using pickup_all_conserves [OF ok] by (intro good) (simp add: t_def click_slot_def click_modes)
  next
    case other
    then show ?thesis using False ok by (intro good) (simp add: t_def click_slot_def)
  qed
qed

lemma sync_mark_fields [simp]:
  "drag_ok (mark_full_sync s) = drag_ok s" "pi_game_mode (mark_full_sync s) = pi_game_mode s"
  "total_items m (mark_full_sync s) = total_items m s"
  by (simp_all add: mark_full_sync_def drag_ok_def drag_le_def total_items_def)

lemma click_never_gains:
  fixes button :: i8 and w mode :: i32 and m :: u32
  assumes "drag_ok s" and "\<not> is_creative s"
  defines "t \<equiv> snd (apply_click w button mode s)"
  shows "drag_ok t \<and> pi_game_mode t = pi_game_mode s \<and> total_items m t \<le> total_items m s \<and>
    (\<not> quick_craft_active s \<and> mode \<noteq> CLICK_THROW \<or> mode = CLICK_QUICK_CRAFT \<longrightarrow>
      total_items m t = total_items m s)"
proof (cases "0 \<le> sint w \<and> sint w \<le> 45")
  case False
  then show ?thesis using assms by (simp add: apply_click_def)
next
  case True
  obtain slot where slot: "slot < 46" "i32_to_usize (window_slot_to_minestom_slot w) = Some slot"
    using True click_slot_number by blast
  define s1 where "s1 = (if mode \<noteq> CLICK_QUICK_CRAFT \<and> quick_craft_active s
      then snd (cancel_quick_craft s) else s)"
  have s1: "drag_ok s1" "pi_game_mode s1 = pi_game_mode s" "total_items m s1 \<le> total_items m s"
    "mode = CLICK_QUICK_CRAFT \<or> \<not> quick_craft_active s1"
    "mode = CLICK_QUICK_CRAFT \<or> \<not> quick_craft_active s \<Longrightarrow> s1 = s"
    using cancel_loses [OF assms(1), of m] assms(1) by (auto simp: s1_def drag_ok_idle)
  then have nc: "\<not> is_creative s1" using assms(2) by (simp add: is_creative_def)
  obtain c s2 where s2: "click_slot slot button mode s1 = (c, s2)" by (metis surj_pair)
  note cl = click_slot_cases [OF s1(1) slot(1) s1(4) nc, of button m, unfolded s2]
  have "t = mark_full_sync s2 \<or> t = s2"
    using True slot(2) s2 by (auto simp: t_def apply_click_def Let_def s1_def case_prod_beta split: if_splits)
  moreover have "CLICK_THROW \<noteq> CLICK_QUICK_CRAFT" by (simp add: click_modes)
  ultimately show ?thesis using cl s1 by auto
qed

text \<open>A sequence of clicks: window slot, button and mode of each.\<close>

definition run_clicks :: "(i32 \<times> i8 \<times> i32) list \<Rightarrow> player_inventory \<Rightarrow> player_inventory" where
  "run_clicks cs s = fold (\<lambda>(w, b, m) s. snd (apply_click w b m s)) cs s"

lemma clicks_never_gain:
  "drag_ok s \<Longrightarrow> \<not> is_creative s \<Longrightarrow>
   drag_ok (run_clicks cs s) \<and> total_items m (run_clicks cs s) \<le> total_items m s"
proof (induction cs arbitrary: s)
  case (Cons c cs)
  obtain w b k where c: "c = (w, b, k)" by (metis surj_pair)
  let ?t = "snd (apply_click w b k s)"
  note step = click_never_gains [OF Cons.prems, of w b k m]
  then have "\<not> is_creative ?t" using Cons.prems(2) by (simp add: is_creative_def)
  with step Cons.IH [of ?t] show ?case by (auto simp: run_clicks_def c)
qed (simp add: run_clicks_def)

section \<open>Adding and consuming\<close>

lemma merge_adds:
  assumes "pi_ok s" and "\<forall>i \<in> set is. i < 46" and "add_merge is todo s = (todo', t)"
  shows "pi_ok t \<and> pi_cursor t = pi_cursor s \<and> is_material todo' = is_material todo \<and>
    is_components todo' = is_components todo \<and>
    slots_total m t + held m todo' = slots_total m s + held m todo"
  using assms
proof (induction "is" arbitrary: todo s)
  case (Cons i "is")
  define x where "x = pi_get i s"
  define n where "n = min (sat_sub (max_stack x) (is_amount x)) (is_amount todo)"
  show ?case
  proof (cases "\<not> is_air todo \<and> \<not> is_air x \<and> is_material x = is_material todo \<and>
      components_eq (is_components x) (is_components todo) \<and> 0 < sat_sub (max_stack x) (is_amount x)")
    case True
    let ?todo = "todo\<lparr>is_amount := sat_sub (is_amount todo) n\<rparr>"
    define s1 where "s1 = pi_set i (x\<lparr>is_amount := sat_add (is_amount x) n\<rparr>) s"
    have i: "i < 46" using Cons.prems(2) by simp
    have n: "unat n \<le> unat (is_amount todo)" "unat (is_amount x) + unat n \<le> 255"
      using place_room [of x "unat (is_amount todo)"] by (simp_all add: n_def)
    have eq: "add_merge is ?todo s1 = (todo', t)"
      using Cons.prems(3) True by (simp add: Let_def x_def n_def s1_def)
    have ok: "pi_ok s1" using Cons.prems(1) by (simp add: s1_def)
    have "slots_total m s1 + held m x = slots_total m s + held m (x\<lparr>is_amount := sat_add (is_amount x) n\<rparr>)"
      unfolding s1_def x_def by (rule slots_total_set [OF Cons.prems(1) i])
    then have "slots_total m s1 + held m ?todo = slots_total m s + held m todo"
      using True n by (auto simp: held_def [of m x] held_def [of m todo] split: if_splits)
    then show ?thesis
      using Cons.IH [OF ok _ eq] Cons.prems(2) by (simp add: s1_def)
  next
    case False
    then have "add_merge (i # is) todo s = (if is_air todo then (todo, s) else add_merge is todo s)"
      by (auto simp: Let_def x_def)
    then show ?thesis
      using Cons.prems Cons.IH [of s todo] by (auto split: if_splits)
  qed
qed simp

lemma fill_adds:
  assumes "pi_ok s" and "\<forall>i \<in> set is. i < 46" and "add_fill is todo s = (todo', t)"
  shows "pi_ok t \<and> pi_cursor t = pi_cursor s \<and> is_material todo' = is_material todo \<and>
    slots_total m t + held m todo' = slots_total m s + held m todo"
  using assms
proof (induction "is" arbitrary: todo s)
  case (Cons i "is")
  define n where "n = min (max_stack todo) (is_amount todo)"
  show ?case
  proof (cases "\<not> is_air todo \<and> is_air (pi_get i s)")
    case True
    let ?todo = "todo\<lparr>is_amount := sat_sub (is_amount todo) n\<rparr>"
    define s1 where "s1 = pi_set i (todo\<lparr>is_amount := n\<rparr>) s"
    have i: "i < 46" using Cons.prems(2) by simp
    have n: "unat n \<le> unat (is_amount todo)" by (simp add: n_def)
    have eq: "add_fill is ?todo s1 = (todo', t)"
      using Cons.prems(3) True by (simp add: Let_def n_def s1_def)
    have ok: "pi_ok s1" using Cons.prems(1) by (simp add: s1_def)
    have "slots_total m s1 + held m (pi_get i s) = slots_total m s + held m (todo\<lparr>is_amount := n\<rparr>)"
      unfolding s1_def by (rule slots_total_set [OF Cons.prems(1) i])
    then have "slots_total m s1 + held m ?todo = slots_total m s + held m todo"
      using True n by (auto simp: held_def [of m todo] split: if_splits)
    then show ?thesis
      using Cons.IH [OF ok _ eq] Cons.prems(2) by (simp add: s1_def)
  next
    case False
    then show ?thesis
      using Cons.prems Cons.IH [of s todo] by (auto split: if_splits)
  qed
qed simp

lemma add_conserves:
  assumes "pi_ok s" and "add_item item s = (left, t)"
  shows "pi_ok t \<and> pi_cursor t = pi_cursor s \<and>
    slots_total m t + held m left = slots_total m s + held m item"
proof (cases "is_air item")
  case True
  then show ?thesis using assms by (auto simp: add_item_def)
next
  case False
  obtain r1 s1 where m: "add_merge [0..<46] item s = (r1, s1)" by (metis surj_pair)
  obtain r2 s2 where f: "add_fill [0..<46] r1 s1 = (r2, s2)" by (metis surj_pair)
  have b: "\<forall>i \<in> set [0..<46]. i < (46 :: nat)" by simp
  note mm = merge_adds [OF assms(1) b m, of m]
  have "pi_ok s1" using mm by blast
  note ff = fill_adds [OF this b f, of m]
  have "t = s2" "left = (if is_air r2 then AIR else r2)"
    using assms(2) False m f by (simp_all add: add_item_def split: if_splits)
  then show ?thesis using mm ff by auto
qed

lemma consume_takes_one:
  assumes "pi_ok s"
  shows "(case consume_item slot s of (ok, t) \<Rightarrow>
    (ok \<longleftrightarrow> \<not> is_air (pi_get (unat slot) s) \<and> unat slot < 46) \<and> (\<not> ok \<longrightarrow> t = s) \<and>
    (ok \<longrightarrow> slots_total m t + (if is_material (pi_get (unat slot) s) = m then 1 else 0) = slots_total m s))"
proof (cases "unat slot < 46 \<and> \<not> is_air (pi_get (unat slot) s)")
  case False
  then show ?thesis by (auto simp: consume_item_def Let_def not_le)
next
  case True
  let ?x = "pi_get (unat slot) s"
  have "unat (is_amount ?x) \<noteq> 0" using True by (simp add: is_air_amount)
  moreover have "1 < is_amount ?x \<longleftrightarrow> 1 < unat (is_amount ?x)" by (simp add: word_less_nat_alt)
  moreover note slots_total_set [OF assms, of "unat slot" m AIR]
    slots_total_set [OF assms, of "unat slot" m "?x\<lparr>is_amount := sat_sub (is_amount ?x) 1\<rparr>"]
  ultimately show ?thesis
    using True by (auto simp: consume_item_def Let_def held_def [of m ?x] split: if_splits)
qed

end
