(* ===== verification/Component_Storage.thy ===== *)
theory Component_Storage
  imports Entity_Arena Keyed_Store
begin

text \<open>
  The two storages of components (\<open>ecs/storage/sparse_set.rs\<close>, \<open>ecs/storage/soa.rs\<close>) behind the interface
  of a column (\<open>ecs/storage/mod.rs\<close>): a sparse set indexed by the slot of the entity, which interprets
  \<open>keyed_store\<close>, and a dense list aligned with the entities of an archetype. The code reaches the values
  through \<open>UnsafeCell\<close>; what it reads and writes there is the list of the model. Capacities have no
  effect on the values.
\<close>

section \<open>Sparse sets\<close>

record 'v sparse_set =
  ss_values :: "'v option list"
  ss_count :: nat

definition sparse_new :: "'v sparse_set" where
  "sparse_new = \<lparr>ss_values = [], ss_count = 0\<rparr>"

definition sparse_insert :: "nat \<Rightarrow> 'v \<Rightarrow> 'v sparse_set \<Rightarrow> 'v sparse_set" where
  "sparse_insert slot v s =
     (let values = ss_values s @ replicate (slot + 1 - length (ss_values s)) None
      in \<lparr>ss_values = values[slot := Some v],
          ss_count = (if values ! slot = None then ss_count s + 1 else ss_count s)\<rparr>)"

definition sparse_remove :: "nat \<Rightarrow> 'v sparse_set \<Rightarrow> 'v option \<times> 'v sparse_set" where
  "sparse_remove slot s =
     (if slot < length (ss_values s) then
        (let old = ss_values s ! slot
         in (old, \<lparr>ss_values = (ss_values s)[slot := None],
                   ss_count = (if old \<noteq> None then ss_count s - 1 else ss_count s)\<rparr>))
      else (None, s))"

definition sparse_get :: "nat \<Rightarrow> 'v sparse_set \<Rightarrow> 'v option" where
  "sparse_get slot s = (if slot < length (ss_values s) then ss_values s ! slot else None)"

definition sparse_len :: "'v sparse_set \<Rightarrow> nat" where
  "sparse_len s = ss_count s"

definition sparse_is_empty :: "'v sparse_set \<Rightarrow> bool" where
  "sparse_is_empty s \<longleftrightarrow> ss_count s = 0"

text \<open>The values in the order of the slots.\<close>

definition sparse_iter :: "'v sparse_set \<Rightarrow> 'v list" where
  "sparse_iter s = concat (map (\<lambda>x. case x of Some v \<Rightarrow> [v] | None \<Rightarrow> []) (ss_values s))"

text \<open>The counter counts the occupied slots.\<close>

definition sparse_ok :: "'v sparse_set \<Rightarrow> bool" where
  "sparse_ok s \<longleftrightarrow> ss_count s = length (filter (\<lambda>x. x \<noteq> None) (ss_values s))"

lemma filter_count_pos: "i < length xs \<Longrightarrow> P (xs ! i) \<Longrightarrow> 0 < length (filter P xs)"
  by (auto simp: filter_empty_conv)

lemma sparse_new_ok [simp]: "sparse_ok sparse_new" "sparse_get k sparse_new = None"
  by (simp_all add: sparse_ok_def sparse_new_def sparse_get_def)

lemma sparse_insert_ok: 
  assumes "sparse_ok s"
  shows "sparse_ok (sparse_insert slot v s)"
proof -
  let ?vs = "ss_values s @ replicate (slot + 1 - length (ss_values s)) None"
  have "length (filter (\<lambda>x. x \<noteq> None) ?vs) = ss_count s" using assms by (simp add: sparse_ok_def)
  moreover have "slot < length ?vs" by simp
  ultimately show ?thesis
    using count_update [of slot ?vs "\<lambda>x. x \<noteq> None" "Some v"]
    by (auto simp: sparse_insert_def sparse_ok_def Let_def split: if_splits)
qed

lemma sparse_remove_ok:
  assumes "sparse_ok s"
  shows "sparse_ok (snd (sparse_remove slot s))"
proof (cases "slot < length (ss_values s)")
  case True
  then show ?thesis
    using assms count_update [OF True, of "\<lambda>x. x \<noteq> None" None] filter_count_pos [OF True, of "\<lambda>x. x \<noteq> None"]
    by (auto simp: sparse_remove_def sparse_ok_def Let_def split: if_splits)
qed (use assms in \<open>simp add: sparse_remove_def\<close>)

lemma sparse_get_insert: "sparse_get k (sparse_insert slot v s) = (if k = slot then Some v else sparse_get k s)"
  by (auto simp: sparse_get_def sparse_insert_def Let_def nth_append nth_list_update)

lemma sparse_get_remove: "sparse_get k (snd (sparse_remove slot s)) = (if k = slot then None else sparse_get k s)"
  by (auto simp: sparse_get_def sparse_remove_def Let_def nth_list_update)

lemma sparse_removed: "fst (sparse_remove slot s) = sparse_get slot s"
  by (simp add: sparse_remove_def sparse_get_def Let_def)

interpretation sparse: keyed_store "\<lambda>s k. sparse_get k s" sparse_insert "\<lambda>k s. snd (sparse_remove k s)" sparse_ok
  by unfold_locales (simp_all add: sparse_insert_ok sparse_remove_ok sparse_get_insert sparse_get_remove)

lemma sparse_len_iter: "sparse_ok s \<Longrightarrow> length (sparse_iter s) = sparse_len s"
proof -
  have "length (concat (map (\<lambda>x. case x of Some v \<Rightarrow> [v] | None \<Rightarrow> []) xs)) = length (filter (\<lambda>x. x \<noteq> None) xs)" for xs
    by (induction xs) (auto split: option.splits)
  then show "sparse_ok s \<Longrightarrow> length (sparse_iter s) = sparse_len s"
    by (simp add: sparse_iter_def sparse_len_def sparse_ok_def)
qed

section \<open>Dense columns\<close>

definition soa_with_defaults :: "nat \<Rightarrow> 'v \<Rightarrow> 'v list" where
  "soa_with_defaults n d = replicate n d"

definition soa_get :: "nat \<Rightarrow> 'v list \<Rightarrow> 'v option" where
  "soa_get i xs = (if i < length xs then Some (xs ! i) else None)"

text \<open>Writing past the end is a panic of the code; the invariant of the world rules it out.\<close>

definition soa_set :: "nat \<Rightarrow> 'v \<Rightarrow> 'v list \<Rightarrow> 'v list" where
  "soa_set i v xs = xs[i := v]"

definition soa_take :: "'v \<Rightarrow> nat \<Rightarrow> 'v list \<Rightarrow> 'v option \<times> 'v list" where
  "soa_take d i xs = (if i < length xs then (Some (xs ! i), xs[i := d]) else (None, xs))"

section \<open>Columns\<close>

datatype 'v column = SoA "'v list" | Sparse "'v sparse_set"

text \<open>The default value of the component is an argument, as the type of the column is in the code.\<close>

definition push_default :: "'v \<Rightarrow> 'v column \<Rightarrow> 'v column" where
  "push_default d col = (case col of SoA xs \<Rightarrow> SoA (xs @ [d]) | Sparse s \<Rightarrow> Sparse s)"

definition on_despawn :: "nat \<Rightarrow> nat \<Rightarrow> 'v column \<Rightarrow> 'v column" where
  "on_despawn index slot col =
     (case col of SoA xs \<Rightarrow> SoA (swap_remove index xs) | Sparse s \<Rightarrow> Sparse (snd (sparse_remove slot s)))"

definition take_at :: "'v \<Rightarrow> nat \<Rightarrow> 'v column \<Rightarrow> 'v option \<times> 'v column" where
  "take_at d index col =
     (case col of SoA xs \<Rightarrow> (let (old, xs') = soa_take d index xs in (old, SoA xs')) | Sparse s \<Rightarrow> (None, Sparse s))"

definition take_slot :: "nat \<Rightarrow> 'v column \<Rightarrow> 'v option \<times> 'v column" where
  "take_slot slot col =
     (case col of SoA xs \<Rightarrow> (None, SoA xs) | Sparse s \<Rightarrow> (let (old, s') = sparse_remove slot s in (old, Sparse s')))"

definition column_is_sparse :: "'v column \<Rightarrow> bool" where
  "column_is_sparse col = (case col of SoA _ \<Rightarrow> False | Sparse _ \<Rightarrow> True)"

definition insert_at :: "nat \<Rightarrow> 'v \<Rightarrow> 'v column \<Rightarrow> bool \<times> 'v column" where
  "insert_at index v col =
     (case col of
        SoA xs \<Rightarrow> if index < length xs then (True, SoA (xs[index := v])) else (False, SoA xs)
      | Sparse s \<Rightarrow> (True, Sparse (sparse_insert index v s)))"

text \<open>\<open>Vec::swap_remove\<close>: the last element takes the place of the removed one.\<close>

lemma length_swap_remove: "i < length xs \<Longrightarrow> length (swap_remove i xs) = length xs - 1"
  by (simp add: swap_remove_def)

lemma nth_swap_remove:
  "i < length xs \<Longrightarrow> j < length xs - 1 \<Longrightarrow> swap_remove i xs ! j = (if j = i then last xs else xs ! j)"
  by (auto simp: swap_remove_def nth_butlast)

lemma last_nth_iff:
  assumes "distinct xs" and "i < length xs"
  shows "last xs = xs ! i \<longleftrightarrow> i = length xs - 1"
proof -
  have "last xs = xs ! (length xs - 1)" using assms(2) by (intro last_conv_nth) auto
  moreover have "length xs - 1 < length xs" using assms(2) by linarith
  ultimately show ?thesis using nth_eq_iff_index_eq [OF assms(1) _ assms(2)] by metis
qed

end
