(* ===== verification/Ecs_World.thy ===== *)
theory Ecs_World
  imports Component_Storage
begin

text \<open>
  The world of the entity-component system (\<open>ecs/world.rs\<close>): archetypes with their list of entities and
  their columns, the index from an entity to its place, and the operations that create, change, look up
  and destroy. A component type is its id; whether it is stored sparsely and its default value are the
  argument \<open>rg\<close>. \<open>None\<close> is a panic of the code. The main results: the index, the lists and the columns
  stay aligned, and each operation touches the components of its own entity only, although destroying an
  entity moves another one to its place.
\<close>

section \<open>State\<close>

type_synonym component_id = u16
type_synonym archetype_id = u16

record 'v component_registry =
  rg_sparse :: "component_id \<Rightarrow> bool"
  rg_default :: "component_id \<Rightarrow> 'v"

record archetype_def =
  df_id :: archetype_id
  df_component_ids :: "component_id list"
  df_entity_kind :: u8

definition has_component :: "archetype_def \<Rightarrow> component_id \<Rightarrow> bool" where
  "has_component d c \<longleftrightarrow> c \<in> set (df_component_ids d)"

record 'v archetype_storage =
  st_def :: archetype_def
  st_slots :: "entity list"
  st_columns :: "component_id \<rightharpoonup> 'v column"

record 'v world =
  w_entities :: entity_arena
  w_archetypes :: "archetype_id \<rightharpoonup> 'v archetype_storage"
  w_index :: "entity \<rightharpoonup> archetype_id \<times> nat"
  w_empty :: "u8 \<rightharpoonup> archetype_id"
  w_counter :: u16

datatype entity_error = NotFound | Despawned | ComponentMismatch

definition world_new :: "'v world" where
  "world_new = \<lparr>w_entities = arena_new, w_archetypes = Map.empty, w_index = Map.empty, w_empty = Map.empty,
     w_counter = 0x8000\<rparr>"

definition empty_storage :: "archetype_def \<Rightarrow> 'v archetype_storage" where
  "empty_storage d = \<lparr>st_def = d, st_slots = [], st_columns = Map.empty\<rparr>"

section \<open>Creating entities\<close>

definition register_archetype :: "archetype_def \<Rightarrow> 'v world \<Rightarrow> 'v world" where
  "register_archetype d w = w\<lparr>w_archetypes := (w_archetypes w)(df_id d \<mapsto> empty_storage d)\<rparr>"

text \<open>What \<open>spawn\<close> and \<open>spawn_exact\<close> do with the new handle.\<close>

definition place :: "'v component_registry \<Rightarrow> archetype_id \<Rightarrow> 'v archetype_storage \<Rightarrow> entity \<Rightarrow> 'v world \<Rightarrow> 'v world" where
  "place rg arch st e w =
     (let st' = st\<lparr>st_columns := (\<lambda>c. map_option (push_default (rg_default rg c)) (st_columns st c)),
                   st_slots := st_slots st @ [e]\<rparr>
      in w\<lparr>w_archetypes := (w_archetypes w)(arch \<mapsto> st'),
           w_index := (w_index w)(e \<mapsto> (arch, length (st_slots st)))\<rparr>)"

definition spawn :: "'v component_registry \<Rightarrow> archetype_id \<Rightarrow> 'v world \<Rightarrow> (entity \<times> 'v world) option" where
  "spawn rg arch w =
     (case w_archetypes w arch of
        None \<Rightarrow> None
      | Some st \<Rightarrow>
          (case arena_allocate (df_entity_kind (st_def st)) (w_entities w) of
             None \<Rightarrow> None
           | Some (e, arena) \<Rightarrow> Some (e, place rg arch st e (w\<lparr>w_entities := arena\<rparr>))))"

definition spawn_empty_with :: "'v component_registry \<Rightarrow> u8 \<Rightarrow> 'v world \<Rightarrow> (entity \<times> 'v world) option" where
  "spawn_empty_with rg kind w =
     (case w_empty w kind of
        Some arch \<Rightarrow> spawn rg arch w
      | None \<Rightarrow>
          (let arch = w_counter w;
               d = \<lparr>df_id = arch, df_component_ids = [], df_entity_kind = kind\<rparr>;
               w' = w\<lparr>w_counter := w_counter w + 1, w_archetypes := (w_archetypes w)(arch \<mapsto> empty_storage d),
                      w_empty := (w_empty w)(kind \<mapsto> arch)\<rparr>
           in spawn rg arch w'))"

definition spawn_exact ::
  "'v component_registry \<Rightarrow> archetype_id \<Rightarrow> entity \<Rightarrow> 'v world \<Rightarrow> (entity \<times> 'v world) option" where
  "spawn_exact rg arch e w =
     (case w_archetypes w arch of
        None \<Rightarrow> None
      | Some st \<Rightarrow>
          (let kind = df_entity_kind (st_def st) in
           case allocate_exact kind e (w_entities w) of
             (Some placed, arena) \<Rightarrow> Some (placed, place rg arch st placed (w\<lparr>w_entities := arena\<rparr>))
           | (None, arena) \<Rightarrow>
               (case arena_allocate kind arena of
                  None \<Rightarrow> None
                | Some (e', arena') \<Rightarrow> Some (e', place rg arch st e' (w\<lparr>w_entities := arena'\<rparr>)))))"

section \<open>Destroying entities\<close>

definition despawn :: "entity \<Rightarrow> 'v world \<Rightarrow> bool \<times> 'v world" where
  "despawn e w =
     (case w_index w e of
        None \<Rightarrow> (False, w)
      | Some (arch, idx) \<Rightarrow>
          (case w_archetypes w arch of
             None \<Rightarrow> (False, w)
           | Some st \<Rightarrow>
               (let slots = swap_remove idx (st_slots st);
                    columns = (\<lambda>c. map_option (on_despawn idx (unat (entity_slot e))) (st_columns st c));
                    index = (w_index w)(e := None);
                    index' = (if idx < length slots then index(slots ! idx \<mapsto> (arch, idx)) else index)
                in (True, w\<lparr>w_archetypes := (w_archetypes w)(arch \<mapsto> st\<lparr>st_slots := slots, st_columns := columns\<rparr>),
                            w_index := index', w_entities := snd (arena_deallocate e (w_entities w))\<rparr>))))"

section \<open>Components\<close>

definition contains :: "entity \<Rightarrow> 'v world \<Rightarrow> bool" where
  "contains e w = arena_is_alive e (w_entities w)"

text \<open>The place of an entity that is alive.\<close>

definition located :: "entity \<Rightarrow> 'v world \<Rightarrow> (archetype_id \<times> nat \<times> 'v archetype_storage) option" where
  "located e w =
     (if \<not> arena_is_alive e (w_entities w) then None
      else (case w_index w e of
              None \<Rightarrow> None
            | Some (arch, idx) \<Rightarrow>
                (case w_archetypes w arch of None \<Rightarrow> None | Some st \<Rightarrow> Some (arch, idx, st))))"

definition set_column :: "archetype_id \<Rightarrow> 'v archetype_storage \<Rightarrow> component_id \<Rightarrow> 'v column \<Rightarrow> 'v world \<Rightarrow> 'v world" where
  "set_column arch st c col w =
     w\<lparr>w_archetypes := (w_archetypes w)(arch \<mapsto> st\<lparr>st_columns := (st_columns st)(c \<mapsto> col)\<rparr>)\<rparr>"

definition insert_component ::
  "'v component_registry \<Rightarrow> entity \<Rightarrow> component_id \<Rightarrow> 'v \<Rightarrow> 'v world \<Rightarrow> entity_error + 'v world" where
  "insert_component rg e c v w =
     (case located e w of
        None \<Rightarrow> Inl NotFound
      | Some (arch, idx, st) \<Rightarrow>
          if rg_sparse rg c then
            (case (case st_columns st c of Some col \<Rightarrow> col | None \<Rightarrow> Sparse sparse_new) of
               Sparse s \<Rightarrow> Inr (set_column arch st c (Sparse (sparse_insert (unat (entity_slot e)) v s)) w)
             | SoA _ \<Rightarrow> Inl ComponentMismatch)
          else if \<not> has_component (st_def st) c then Inl ComponentMismatch
          else
            (case (case st_columns st c of
                     Some col \<Rightarrow> col
                   | None \<Rightarrow> SoA (soa_with_defaults (length (st_slots st)) (rg_default rg c))) of
               SoA xs \<Rightarrow> Inr (set_column arch st c (SoA (soa_set idx v xs)) w)
             | Sparse _ \<Rightarrow> Inl ComponentMismatch))"

definition remove_component ::
  "'v component_registry \<Rightarrow> entity \<Rightarrow> component_id \<Rightarrow> 'v world \<Rightarrow> 'v option \<times> 'v world" where
  "remove_component rg e c w =
     (case located e w of
        None \<Rightarrow> (None, w)
      | Some (arch, idx, st) \<Rightarrow>
          (case st_columns st c of
             None \<Rightarrow> (None, w)
           | Some col \<Rightarrow>
               (case (if rg_sparse rg c then take_slot (unat (entity_slot e)) col
                      else take_at (rg_default rg c) idx col) of
                  (old, col') \<Rightarrow> (old, set_column arch st c col' w))))"

definition column_get :: "bool \<Rightarrow> nat \<Rightarrow> nat \<Rightarrow> 'v column \<Rightarrow> 'v option" where
  "column_get sparse idx slot col =
     (case col of
        Sparse s \<Rightarrow> if sparse then sparse_get slot s else None
      | SoA xs \<Rightarrow> if sparse then None else soa_get idx xs)"

definition get_component :: "'v component_registry \<Rightarrow> entity \<Rightarrow> component_id \<Rightarrow> 'v world \<Rightarrow> 'v option" where
  "get_component rg e c w =
     (case located e w of
        None \<Rightarrow> None
      | Some (arch, idx, st) \<Rightarrow>
          (case st_columns st c of
             None \<Rightarrow> None
           | Some col \<Rightarrow> column_get (rg_sparse rg c) idx (unat (entity_slot e)) col))"

text \<open>Changing a component through the reference that \<open>get_mut\<close> gives.\<close>

definition column_modify :: "bool \<Rightarrow> nat \<Rightarrow> nat \<Rightarrow> ('v \<Rightarrow> 'v) \<Rightarrow> 'v column \<Rightarrow> 'v column" where
  "column_modify sparse idx slot f col =
     (case col of
        Sparse s \<Rightarrow>
          if sparse then
            (case sparse_get slot s of
               None \<Rightarrow> col
             | Some v \<Rightarrow> Sparse (s\<lparr>ss_values := (ss_values s)[slot := Some (f v)]\<rparr>))
          else col
      | SoA xs \<Rightarrow> if sparse then col else if idx < length xs then SoA (xs[idx := f (xs ! idx)]) else col)"

definition modify_component ::
  "'v component_registry \<Rightarrow> entity \<Rightarrow> component_id \<Rightarrow> ('v \<Rightarrow> 'v) \<Rightarrow> 'v world \<Rightarrow> 'v world" where
  "modify_component rg e c f w =
     (case located e w of
        None \<Rightarrow> w
      | Some (arch, idx, st) \<Rightarrow>
          (case st_columns st c of
             None \<Rightarrow> w
           | Some col \<Rightarrow>
               set_column arch st c (column_modify (rg_sparse rg c) idx (unat (entity_slot e)) f col) w))"

definition insert_any :: "entity \<Rightarrow> component_id \<Rightarrow> 'v \<Rightarrow> 'v world \<Rightarrow> entity_error + 'v world" where
  "insert_any e c v w =
     (case located e w of
        None \<Rightarrow> Inl NotFound
      | Some (arch, idx, st) \<Rightarrow>
          (case st_columns st c of
             None \<Rightarrow> Inl ComponentMismatch
           | Some col \<Rightarrow>
               (case insert_at (if column_is_sparse col then unat (entity_slot e) else idx) v col of
                  (True, col') \<Rightarrow> Inr (set_column arch st c col' w)
                | (False, _) \<Rightarrow> Inl ComponentMismatch)))"

definition entity_count :: "'v world \<Rightarrow> nat" where
  "entity_count w = card (dom (w_index w))"

definition entity_archetype :: "'v world \<Rightarrow> entity \<Rightarrow> archetype_id option" where
  "entity_archetype w e = map_option fst (w_index w e)"

section \<open>The invariant\<close>

definition indexed :: "'v world \<Rightarrow> bool" where
  "indexed w \<longleftrightarrow>
     (\<forall>e a i. w_index w e = Some (a, i) \<longrightarrow>
        (\<exists>st. w_archetypes w a = Some st \<and> i < length (st_slots st) \<and> st_slots st ! i = e \<and>
              entity_type_id e = df_entity_kind (st_def st))) \<and>
     (\<forall>a st i. w_archetypes w a = Some st \<longrightarrow> i < length (st_slots st) \<longrightarrow>
        w_index w (st_slots st ! i) = Some (a, i))"

definition column_ok :: "'v component_registry \<Rightarrow> 'v archetype_storage \<Rightarrow> component_id \<Rightarrow> 'v column \<Rightarrow> bool" where
  "column_ok rg st c col \<longleftrightarrow>
     (case col of
        SoA xs \<Rightarrow> \<not> rg_sparse rg c \<and> has_component (st_def st) c \<and> length xs = length (st_slots st)
      | Sparse s \<Rightarrow> rg_sparse rg c \<and> sparse_ok s \<and>
          (\<forall>k. sparse_get k s \<noteq> None \<longrightarrow> k \<in> (unat \<circ> entity_slot) ` set (st_slots st)))"

definition storage_ok :: "'v component_registry \<Rightarrow> 'v archetype_storage \<Rightarrow> bool" where
  "storage_ok rg st \<longleftrightarrow> (\<forall>c col. st_columns st c = Some col \<longrightarrow> column_ok rg st c col)"

definition world_ok :: "'v component_registry \<Rightarrow> 'v world \<Rightarrow> bool" where
  "world_ok rg w \<longleftrightarrow> arena_ok (w_entities w) \<and> indexed w \<and>
     (\<forall>e. w_index w e \<noteq> None \<longleftrightarrow> arena_is_alive e (w_entities w)) \<and>
     (\<forall>a st. w_archetypes w a = Some st \<longrightarrow> storage_ok rg st) \<and>
     (\<forall>k a. w_empty w k = Some a \<longrightarrow> (\<exists>st. w_archetypes w a = Some st \<and> df_entity_kind (st_def st) = k))"

lemma world_new_ok: "world_ok rg world_new"
  by (simp add: world_ok_def world_new_def arena_ok_def arena_new_def indexed_def arena_is_alive_def)

lemma world_okD:
  assumes "world_ok rg w"
  shows "arena_ok (w_entities w)" "indexed w" "w_index w e \<noteq> None \<longleftrightarrow> arena_is_alive e (w_entities w)"
    "w_archetypes w a = Some st \<Longrightarrow> storage_ok rg st"
    "w_empty w k = Some b \<Longrightarrow> \<exists>st. w_archetypes w b = Some st \<and> df_entity_kind (st_def st) = k"
  using assms unfolding world_ok_def by blast+

lemma world_okI:
  assumes "arena_ok (w_entities w)" and "indexed w"
    and "\<And>e. w_index w e \<noteq> None \<longleftrightarrow> arena_is_alive e (w_entities w)"
    and "\<And>a st. w_archetypes w a = Some st \<Longrightarrow> storage_ok rg st"
    and "\<And>k b. w_empty w k = Some b \<Longrightarrow> \<exists>st. w_archetypes w b = Some st \<and> df_entity_kind (st_def st) = k"
  shows "world_ok rg w"
  using assms unfolding world_ok_def by blast

lemma indexedI:
  assumes "\<And>e a i. w_index w e = Some (a, i) \<Longrightarrow> \<exists>st. w_archetypes w a = Some st \<and> i < length (st_slots st) \<and>
      st_slots st ! i = e \<and> entity_type_id e = df_entity_kind (st_def st)"
    and "\<And>a st i. w_archetypes w a = Some st \<Longrightarrow> i < length (st_slots st) \<Longrightarrow> w_index w (st_slots st ! i) = Some (a, i)"
  shows "indexed w"
  using assms unfolding indexed_def by blast

lemma index_place:
  assumes "indexed w" and "w_index w e = Some (a, i)"
  obtains st where "w_archetypes w a = Some st" and "i < length (st_slots st)" and "st_slots st ! i = e"
    and "entity_type_id e = df_entity_kind (st_def st)"
  using assms unfolding indexed_def by blast

lemma index_place_ex:
  assumes "indexed w" and "w_index w e = Some (a, i)"
  shows "\<exists>st. w_archetypes w a = Some st \<and> i < length (st_slots st) \<and> st_slots st ! i = e \<and>
    entity_type_id e = df_entity_kind (st_def st)"
  using assms unfolding indexed_def by blast

lemma place_index:
  "indexed w \<Longrightarrow> w_archetypes w a = Some st \<Longrightarrow> i < length (st_slots st) \<Longrightarrow> w_index w (st_slots st ! i) = Some (a, i)"
  unfolding indexed_def by blast

lemma slot_in_index:
  assumes "indexed w" and "w_archetypes w a = Some st" and "e \<in> set (st_slots st)"
  shows "\<exists>i. i < length (st_slots st) \<and> st_slots st ! i = e \<and> w_index w e = Some (a, i)"
  using assms by (metis in_set_conv_nth place_index)

lemma slots_distinct:
  assumes "indexed w" and "w_archetypes w a = Some st"
  shows "distinct (st_slots st)"
  using place_index [OF assms] by (auto simp: distinct_conv_nth) (metis option.inject prod.inject)

lemma alive_same_slot:
  assumes "arena_is_alive e t" and "arena_is_alive f t" and "entity_type_id e = entity_type_id f"
    and "entity_slot e = entity_slot f"
  shows "e = f"
  using assms by (intro entity_eqI) (auto simp: arena_is_alive_def type_is_alive_def Let_def split: option.splits)

section \<open>Looking up\<close>

lemma located_alive:
  assumes "world_ok rg w" and "w_index w e = Some (a, i)" and "w_archetypes w a = Some st"
  shows "located e w = Some (a, i, st)"
  using assms world_okD(3) [OF assms(1), of e] by (simp add: located_def)

lemma located_dead: "world_ok rg w \<Longrightarrow> w_index w e = None \<Longrightarrow> located e w = None"
  using world_okD(3) [of rg w e] by (simp add: located_def)

definition column_value :: "nat \<Rightarrow> entity \<Rightarrow> 'v column \<Rightarrow> 'v option" where
  "column_value i e col =
     (case col of SoA xs \<Rightarrow> Some (xs ! i) | Sparse s \<Rightarrow> sparse_get (unat (entity_slot e)) s)"

lemma get_alive:
  assumes "world_ok rg w" and "w_index w e = Some (a, i)" and "w_archetypes w a = Some st"
  shows "get_component rg e c w = Option.bind (st_columns st c) (column_value i e)"
proof (cases "st_columns st c")
  case None
  then show ?thesis using located_alive [OF assms] by (simp add: get_component_def)
next
  case (Some col)
  have ok: "column_ok rg st c col"
    using world_okD(4) [OF assms(1,3)] Some by (simp add: storage_ok_def)
  have "i < length (st_slots st)" using index_place [OF world_okD(2) [OF assms(1)] assms(2)] assms(3) by auto
  then show ?thesis
    using located_alive [OF assms] Some ok
    by (cases col) (auto simp: get_component_def column_get_def column_ok_def column_value_def soa_get_def)
qed

lemma get_dead: "world_ok rg w \<Longrightarrow> w_index w e = None \<Longrightarrow> get_component rg e c w = None"
  using located_dead [of rg w e] by (simp add: get_component_def)

section \<open>Writing a column\<close>

lemma column_ok_columns [simp]: "column_ok rg (st\<lparr>st_columns := m\<rparr>) c col = column_ok rg st c col"
  by (cases col) (simp_all add: column_ok_def)

lemma set_column_ok:
  assumes "world_ok rg w" and "w_archetypes w a = Some st" and "column_ok rg st c col"
  shows "world_ok rg (set_column a st c col w)"
proof -
  let ?st = "st\<lparr>st_columns := (st_columns st)(c \<mapsto> col)\<rparr>"
  have "storage_ok rg st" using world_okD(4) [OF assms(1,2)] .
  then have "storage_ok rg ?st"
    using assms(3) by (auto simp: storage_ok_def)
  moreover have "indexed (set_column a st c col w)"
  proof (rule indexedI)
    fix e b i assume "w_index (set_column a st c col w) e = Some (b, i)"
    then have e: "w_index w e = Some (b, i)" by (simp add: set_column_def)
    show "\<exists>sb. w_archetypes (set_column a st c col w) b = Some sb \<and> i < length (st_slots sb) \<and>
        st_slots sb ! i = e \<and> entity_type_id e = df_entity_kind (st_def sb)"
      using index_place_ex [OF world_okD(2) [OF assms(1)] e] assms(2)
      by (cases "b = a") (auto simp: set_column_def)
  next
    fix b sb i
    assume "w_archetypes (set_column a st c col w) b = Some sb" and i: "i < length (st_slots sb)"
    then obtain s0 where "w_archetypes w b = Some s0" "st_slots s0 = st_slots sb"
      using assms(2) by (auto simp: set_column_def split: if_splits)
    then show "w_index (set_column a st c col w) (st_slots sb ! i) = Some (b, i)"
      using place_index [OF world_okD(2) [OF assms(1)], of b s0 i] i by (simp add: set_column_def)
  qed
  moreover have "\<exists>st'. w_archetypes (set_column a st c col w) b = Some st' \<and> df_entity_kind (st_def st') = k"
    if "w_empty w k = Some b" for k b
    using world_okD(5) [OF assms(1) that] assms(2) by (auto simp: set_column_def)
  ultimately show ?thesis
    using world_okD(1,3,4) [OF assms(1)]
    by (intro world_okI) (auto simp: set_column_def split: if_splits)
qed

lemma set_column_simps [simp]:
  "w_index (set_column a st c col w) = w_index w" "w_entities (set_column a st c col w) = w_entities w"
  "w_empty (set_column a st c col w) = w_empty w"
  by (simp_all add: set_column_def)

lemma get_set_column:
  assumes "world_ok rg w" and "w_archetypes w a = Some st" and "column_ok rg st c col"
  shows "get_component rg f d (set_column a st c col w) =
    (case w_index w f of
       Some (b, i) \<Rightarrow> if b = a \<and> d = c then column_value i f col else get_component rg f d w
     | None \<Rightarrow> None)"
proof (cases "w_index w f")
  case None
  then show ?thesis
    using get_dead [OF set_column_ok [OF assms], of f d] by (simp add: set_column_def)
next
  case (Some p)
  obtain b i where p: "p = (b, i)" by (cases p)
  obtain sb where sb: "w_archetypes w b = Some sb"
    using index_place [OF world_okD(2) [OF assms(1)]] Some p by metis
  have idx: "w_index (set_column a st c col w) f = Some (b, i)" using Some p by (simp add: set_column_def)
  have arch: "w_archetypes (set_column a st c col w) b =
      Some (if b = a then st\<lparr>st_columns := (st_columns st)(c \<mapsto> col)\<rparr> else sb)"
    using sb by (simp add: set_column_def)
  show ?thesis
    using get_alive [OF set_column_ok [OF assms] idx arch, of d] get_alive [OF assms(1) _ sb, of f i d] Some p sb assms(2)
    by auto
qed

section \<open>Inserting and removing components\<close>

lemma locatedD:
  assumes "world_ok rg w" and "located e w = Some (a, i, st)"
  shows "w_index w e = Some (a, i)" "w_archetypes w a = Some st" "i < length (st_slots st)" "st_slots st ! i = e"
    "e \<in> set (st_slots st)" "entity_type_id e = df_entity_kind (st_def st)" "arena_is_alive e (w_entities w)"
proof -
  show 1: "w_index w e = Some (a, i)" and 2: "w_archetypes w a = Some st" and "arena_is_alive e (w_entities w)"
    using assms(2) by (auto simp: located_def split: if_splits option.splits)
  obtain st' where "w_archetypes w a = Some st'" "i < length (st_slots st')" "st_slots st' ! i = e"
    "entity_type_id e = df_entity_kind (st_def st')"
    by (rule index_place [OF world_okD(2) [OF assms(1)] 1])
  then show "i < length (st_slots st)" "st_slots st ! i = e" "e \<in> set (st_slots st)"
    "entity_type_id e = df_entity_kind (st_def st)"
    using 2 by auto
qed

text \<open>Entities of one archetype have different slots.\<close>

lemma slots_differ:
  assumes "world_ok rg w" and "w_archetypes w a = Some st" and "e \<in> set (st_slots st)" and "f \<in> set (st_slots st)"
    and "entity_slot e = entity_slot f"
  shows "e = f"
proof -
  obtain i j where i: "w_index w e = Some (a, i)" and j: "w_index w f = Some (a, j)"
    using slot_in_index [OF world_okD(2) [OF assms(1)] assms(2)] assms(3,4) by metis
  have "arena_is_alive e (w_entities w)" "arena_is_alive f (w_entities w)"
    using world_okD(3) [OF assms(1)] i j by auto
  moreover have "entity_type_id e = entity_type_id f"
    using index_place [OF world_okD(2) [OF assms(1)] i] index_place [OF world_okD(2) [OF assms(1)] j] assms(2)
    by (metis option.inject)
  ultimately show ?thesis using alive_same_slot assms(5) by blast
qed

lemma index_in_slots:
  assumes "world_ok rg w" and "w_index w f = Some (a, j)" and "w_archetypes w a = Some st"
  shows "j < length (st_slots st)" "st_slots st ! j = f" "f \<in> set (st_slots st)"
    "entity_type_id f = df_entity_kind (st_def st)"
  using index_place [OF world_okD(2) [OF assms(1)] assms(2)] assms(3) by (metis option.inject nth_mem)+

text \<open>What an insertion may do to the others: nothing for sparse components; a dense column that is made
  on the way gives the entities of the archetype the default value.\<close>

definition spared :: "'v component_registry \<Rightarrow> component_id \<Rightarrow> 'v option \<Rightarrow> 'v option \<Rightarrow> bool" where
  "spared rg c old new \<longleftrightarrow> new = old \<or> \<not> rg_sparse rg c \<and> old = None \<and> new = Some (rg_default rg c)"

lemma insert_sparse:
  assumes "world_ok rg w" and "located e w = Some (a, i, st)" and "rg_sparse rg c"
  obtains w' where "insert_component rg e c v w = Inr w'" and "world_ok rg w'" and "get_component rg e c w' = Some v"
    and "w_index w' = w_index w" and "w_entities w' = w_entities w" and "w_empty w' = w_empty w"
    and "\<And>f d. f \<noteq> e \<or> d \<noteq> c \<Longrightarrow> get_component rg f d w' = get_component rg f d w"
proof -
  note loc = locatedD [OF assms(1,2)]
  obtain s where s: "(case st_columns st c of Some col \<Rightarrow> col | None \<Rightarrow> Sparse sparse_new) = Sparse s" "sparse_ok s"
    "\<And>k. sparse_get k s \<noteq> None \<Longrightarrow> k \<in> (unat \<circ> entity_slot) ` set (st_slots st)"
    "\<And>k. sparse_get k s = Option.bind (st_columns st c) (\<lambda>col. case col of SoA _ \<Rightarrow> None | Sparse s \<Rightarrow> sparse_get k s)"
  proof (cases "st_columns st c")
    case None
    then show thesis by (intro that [of sparse_new]) simp_all
  next
    case (Some col)
    then have "column_ok rg st c col" using world_okD(4) [OF assms(1) loc(2)] by (simp add: storage_ok_def)
    then show thesis using Some assms(3) by (cases col) (auto simp: column_ok_def intro!: that)
  qed
  have colok: "st_columns st c = Some col \<Longrightarrow> column_ok rg st c col" for col
    using world_okD(4) [OF assms(1) loc(2)] by (simp add: storage_ok_def)
  let ?col = "Sparse (sparse_insert (unat (entity_slot e)) v s)"
  let ?w = "set_column a st c ?col w"
  have ok: "column_ok rg st c ?col"
    using s loc(5) assms(3) by (auto simp: column_ok_def sparse_insert_ok sparse_get_insert)
  note get = get_set_column [OF assms(1) loc(2) ok]
  have "get_component rg f d ?w = get_component rg f d w" if "f \<noteq> e \<or> d \<noteq> c" for f d
  proof (cases "w_index w f")
    case None
    then show ?thesis using get [of f d] get_dead [OF assms(1)] by simp
  next
    case (Some p)
    obtain b j where p: "p = (b, j)" by (cases p)
    show ?thesis
    proof (cases "b = a \<and> d = c")
      case True
      have f: "f \<in> set (st_slots st)" using index_in_slots [OF assms(1) _ loc(2)] Some p True by auto
      then have "unat (entity_slot f) \<noteq> unat (entity_slot e)"
        using slots_differ [OF assms(1) loc(2) f loc(5)] that True by (auto simp: word_unat_eq_iff)
      moreover have "get_component rg f c w = sparse_get (unat (entity_slot f)) s"
        using get_alive [OF assms(1) _ loc(2), of f j c] Some p True s(4) [of "unat (entity_slot f)"] colok
        by (cases "st_columns st c") (auto simp: column_value_def column_ok_def assms(3) split: column.splits)
      ultimately show ?thesis using get [of f d] Some p True by (simp add: column_value_def sparse_get_insert)
    qed (use get [of f d] Some p in auto)
  qed
  moreover have "get_component rg e c ?w = Some v"
    using get [of e c] loc(1) by (simp add: column_value_def sparse_get_insert)
  moreover have "insert_component rg e c v w = Inr ?w"
    using assms(2,3) s(1) by (simp add: insert_component_def)
  ultimately show thesis
    using set_column_ok [OF assms(1) loc(2) ok] by (intro that [of ?w]) simp_all
qed

lemma insert_dense:
  assumes "world_ok rg w" and "located e w = Some (a, i, st)" and "\<not> rg_sparse rg c" and "has_component (st_def st) c"
  obtains w' where "insert_component rg e c v w = Inr w'" and "world_ok rg w'" and "get_component rg e c w' = Some v"
    and "w_index w' = w_index w" and "w_entities w' = w_entities w" and "w_empty w' = w_empty w"
    and "\<And>f d. f \<noteq> e \<or> d \<noteq> c \<Longrightarrow> spared rg d (get_component rg f d w) (get_component rg f d w')"
proof -
  note loc = locatedD [OF assms(1,2)]
  obtain xs where xs: "(case st_columns st c of Some col \<Rightarrow> col
      | None \<Rightarrow> SoA (soa_with_defaults (length (st_slots st)) (rg_default rg c))) = SoA xs" "length xs = length (st_slots st)"
    "\<And>j. j < length xs \<Longrightarrow> st_columns st c = None \<and> xs ! j = rg_default rg c \<or> st_columns st c = Some (SoA xs)"
  proof (cases "st_columns st c")
    case None
    show thesis
      by (rule that [of "replicate (length (st_slots st)) (rg_default rg c)"]) (simp_all add: None soa_with_defaults_def)
  next
    case (Some col)
    then have "column_ok rg st c col" using world_okD(4) [OF assms(1) loc(2)] by (simp add: storage_ok_def)
    then show thesis using Some assms(3) by (cases col) (auto simp: column_ok_def intro!: that)
  qed
  let ?col = "SoA (soa_set i v xs)"
  let ?w = "set_column a st c ?col w"
  have ok: "column_ok rg st c ?col"
    using xs(2) assms(3,4) by (simp add: column_ok_def soa_set_def)
  note get = get_set_column [OF assms(1) loc(2) ok]
  have "spared rg d (get_component rg f d w) (get_component rg f d ?w)" if "f \<noteq> e \<or> d \<noteq> c" for f d
  proof (cases "w_index w f")
    case None
    then show ?thesis using get [of f d] get_dead [OF assms(1)] by (simp add: spared_def)
  next
    case (Some p)
    obtain b j where p: "p = (b, j)" by (cases p)
    show ?thesis
    proof (cases "b = a \<and> d = c")
      case True
      have f: "j < length (st_slots st)" "st_slots st ! j = f"
        using index_in_slots [OF assms(1) _ loc(2)] Some p True by auto
      then have "j \<noteq> i" using that True loc(4) by auto
      then show ?thesis
        using get [of f d] Some p True get_alive [OF assms(1) _ loc(2), of f j c] xs(3) [of j] f(1) xs(2) assms(3)
        by (auto simp: spared_def column_value_def soa_set_def)
    qed (use get [of f d] Some p in \<open>auto simp: spared_def\<close>)
  qed
  moreover have "get_component rg e c ?w = Some v"
    using get [of e c] loc(1,3) xs(2) by (simp add: column_value_def soa_set_def)
  moreover have "insert_component rg e c v w = Inr ?w"
    using assms(2-4) xs(1) by (simp add: insert_component_def)
  ultimately show thesis
    using set_column_ok [OF assms(1) loc(2) ok] by (intro that [of ?w]) simp_all
qed

text \<open>An insertion succeeds exactly for an entity that is alive, with a dense component only if its
  archetype has it.\<close>

lemma insert_law:
  assumes "world_ok rg w" and "insert_component rg e c v w = Inr w'"
  shows "world_ok rg w' \<and> get_component rg e c w' = Some v \<and> w_index w' = w_index w \<and> w_entities w' = w_entities w \<and>
    w_empty w' = w_empty w \<and> (\<forall>f d. f \<noteq> e \<or> d \<noteq> c \<longrightarrow> spared rg d (get_component rg f d w) (get_component rg f d w'))"
proof -
  obtain a i st where l: "located e w = Some (a, i, st)"
    using assms(2) by (auto simp: insert_component_def split: option.splits)
  show ?thesis
  proof (cases "rg_sparse rg c")
    case True
    show ?thesis by (rule insert_sparse [OF assms(1) l True, of v]) (use assms(2) in \<open>auto simp: spared_def\<close>)
  next
    case False
    have h: "has_component (st_def st) c" using assms(2) l False by (auto simp: insert_component_def split: if_splits)
    show ?thesis by (rule insert_dense [OF assms(1) l False h, of v]) (use assms(2) in auto)
  qed
qed

text \<open>Replacing a column by one that agrees on the other entities touches one component of one entity.\<close>

lemma write_law:
  assumes "world_ok rg w" and "located e w = Some (a, i, st)" and "st_columns st c = Some col"
    and "column_ok rg st c col'"
    and "\<And>j f. j \<noteq> i \<Longrightarrow> j < length (st_slots st) \<Longrightarrow> entity_slot f \<noteq> entity_slot e \<Longrightarrow>
      column_value j f col' = column_value j f col"
  shows "world_ok rg (set_column a st c col' w) \<and>
    (\<forall>f d. get_component rg f d (set_column a st c col' w) =
       (if f = e \<and> d = c then column_value i e col' else get_component rg f d w))"
proof -
  note loc = locatedD [OF assms(1,2)]
  note get = get_set_column [OF assms(1) loc(2) assms(4)]
  have "get_component rg f d (set_column a st c col' w) =
      (if f = e \<and> d = c then column_value i e col' else get_component rg f d w)" for f d
  proof (cases "w_index w f")
    case None
    then show ?thesis using get [of f d] get_dead [OF assms(1), of f d] loc(1) by auto
  next
    case (Some p)
    obtain b j where p: "p = (b, j)" by (cases p)
    show ?thesis
    proof (cases "b = a \<and> d = c \<and> f \<noteq> e")
      case True
      have f: "j < length (st_slots st)" "st_slots st ! j = f" "f \<in> set (st_slots st)"
        using index_in_slots [OF assms(1) _ loc(2)] Some p True by auto
      have "j \<noteq> i" using f True loc(4) by auto
      moreover have "entity_slot f \<noteq> entity_slot e" using slots_differ [OF assms(1) loc(2) f(3) loc(5)] True by blast
      ultimately show ?thesis
        using get [of f d] Some p True get_alive [OF assms(1) _ loc(2), of f j c] assms(3,5) f(1) by simp
    next
      case False
      then show ?thesis using get [of f d] Some p loc(1) by (cases "f = e \<and> d = c") auto
    qed
  qed
  then show ?thesis using set_column_ok [OF assms(1) loc(2) assms(4)] by blast
qed

lemma remove_law:
  assumes "world_ok rg w" and "remove_component rg e c w = (old, w')"
  shows "world_ok rg w' \<and> old = get_component rg e c w \<and> w_index w' = w_index w \<and> w_entities w' = w_entities w \<and>
    w_empty w' = w_empty w \<and>
    (\<forall>f d. get_component rg f d w' =
       (if f = e \<and> d = c \<and> old \<noteq> None then (if rg_sparse rg c then None else Some (rg_default rg c))
        else get_component rg f d w))"
proof (cases "located e w")
  case None
  then show ?thesis using assms by (auto simp: remove_component_def get_component_def)
next
  case (Some p)
  obtain a i st where l: "located e w = Some (a, i, st)" using Some by (cases p) auto
  note loc = locatedD [OF assms(1) l]
  show ?thesis
  proof (cases "st_columns st c")
    case None
    then show ?thesis using assms l by (auto simp: remove_component_def get_component_def)
  next
    case col: (Some col)
    have cok: "column_ok rg st c col" using world_okD(4) [OF assms(1) loc(2)] col by (simp add: storage_ok_def)
    define col' where "col' = (case col of SoA xs \<Rightarrow> SoA (xs[i := rg_default rg c])
      | Sparse s \<Rightarrow> Sparse (snd (sparse_remove (unat (entity_slot e)) s)))"
    have rm: "(if rg_sparse rg c then take_slot (unat (entity_slot e)) col else take_at (rg_default rg c) i col)
        = (column_value i e col, col')"
      using cok loc(3)
      by (cases col) (auto simp: column_ok_def take_slot_def take_at_def soa_take_def col'_def column_value_def
          sparse_removed [symmetric] split: prod.splits)
    have ok: "column_ok rg st c col'"
      using cok by (cases col) (auto simp: column_ok_def col'_def sparse_remove_ok sparse_get_remove)
    have w': "w' = set_column a st c col' w" and old: "old = column_value i e col"
      using assms(2) l col rm by (auto simp: remove_component_def)
    have oldget: "old = get_component rg e c w" using get_alive [OF assms(1) loc(1,2), of c] col old by simp
    have keep: "column_value j f col' = column_value j f col" if "j \<noteq> i" "entity_slot f \<noteq> entity_slot e" for j f
      using that by (cases col) (auto simp: col'_def column_value_def sparse_get_remove word_unat_eq_iff)
    have new: "column_value i e col' = (if rg_sparse rg c then None else Some (rg_default rg c))"
      using cok loc(3) by (cases col) (auto simp: col'_def column_value_def column_ok_def sparse_get_remove)
    have "rg_sparse rg c" if "old = None" using that old cok by (cases col) (auto simp: column_value_def column_ok_def)
    then show ?thesis using write_law [OF assms(1) l col ok keep] oldget new unfolding w' by auto
  qed
qed

lemma modify_law:
  assumes "world_ok rg w"
  shows "world_ok rg (modify_component rg e c g w) \<and> w_index (modify_component rg e c g w) = w_index w \<and>
    w_entities (modify_component rg e c g w) = w_entities w \<and>
    (\<forall>f d. get_component rg f d (modify_component rg e c g w) =
       (if f = e \<and> d = c then map_option g (get_component rg e c w) else get_component rg f d w))"
proof (cases "located e w")
  case None
  then show ?thesis using assms by (auto simp: modify_component_def get_component_def)
next
  case (Some p)
  obtain a i st where l: "located e w = Some (a, i, st)" using Some by (cases p) auto
  note loc = locatedD [OF assms l]
  show ?thesis
  proof (cases "st_columns st c")
    case None
    then show ?thesis using assms l by (auto simp: modify_component_def get_component_def)
  next
    case col: (Some col)
    let ?s = "unat (entity_slot e)"
    have cok: "column_ok rg st c col" using world_okD(4) [OF assms loc(2)] col by (simp add: storage_ok_def)
    define col' where "col' = column_modify (rg_sparse rg c) i ?s g col"
    have facts: "column_ok rg st c col' \<and> column_value i e col' = map_option g (column_value i e col) \<and>
      (\<forall>j f. j \<noteq> i \<longrightarrow> entity_slot f \<noteq> entity_slot e \<longrightarrow> column_value j f col' = column_value j f col)"
    proof (cases col)
      case (SoA xs)
      then show ?thesis using cok loc(3) by (auto simp: col'_def column_modify_def column_ok_def column_value_def)
    next
      case (Sparse s)
      show ?thesis
      proof (cases "sparse_get ?s s")
        case None
        then show ?thesis using Sparse cok by (auto simp: col'_def column_modify_def column_ok_def column_value_def)
      next
        case (Some v)
        then have v: "?s < length (ss_values s)" "ss_values s ! ?s = Some v" by (auto simp: sparse_get_def split: if_splits)
        let ?t = "s\<lparr>ss_values := (ss_values s)[?s := Some (g v)]\<rparr>"
        have "?t = sparse_insert ?s (g v) s" using v by (simp add: sparse_insert_def Let_def)
        then have "col' = Sparse (sparse_insert ?s (g v) s)"
          using Sparse Some cok by (simp add: col'_def column_modify_def column_ok_def)
        then show ?thesis
          using Sparse Some cok loc(5)
          by (auto simp: column_ok_def column_value_def sparse_insert_ok sparse_get_insert word_unat_eq_iff)
      qed
    qed
    have "modify_component rg e c g w = set_column a st c col' w"
      using l col by (simp add: modify_component_def col'_def)
    then show ?thesis
      using write_law [OF assms l col] facts get_alive [OF assms loc(1,2), of c] col by auto
  qed
qed

lemma insert_any_law:
  assumes "world_ok rg w" and "insert_any e c v w = Inr w'"
  shows "world_ok rg w' \<and> w_index w' = w_index w \<and> w_entities w' = w_entities w \<and> w_empty w' = w_empty w \<and>
    (\<forall>f d. get_component rg f d w' = (if f = e \<and> d = c then Some v else get_component rg f d w))"
proof -
  obtain a i st col where l: "located e w = Some (a, i, st)" and col: "st_columns st c = Some col"
    using assms(2) by (auto simp: insert_any_def split: option.splits)
  note loc = locatedD [OF assms(1) l]
  let ?s = "unat (entity_slot e)"
  have cok: "column_ok rg st c col" using world_okD(4) [OF assms(1) loc(2)] col by (simp add: storage_ok_def)
  define col' where "col' = snd (insert_at (if column_is_sparse col then ?s else i) v col)"
  have w': "w' = set_column a st c col' w"
    using assms(2) l col by (auto simp: insert_any_def col'_def split: prod.splits bool.splits)
  have facts: "column_ok rg st c col' \<and> column_value i e col' = Some v \<and>
      (\<forall>j f. j \<noteq> i \<longrightarrow> entity_slot f \<noteq> entity_slot e \<longrightarrow> column_value j f col' = column_value j f col)"
    using cok loc(3,5)
    by (cases col) (auto simp: col'_def insert_at_def column_is_sparse_def column_ok_def column_value_def
        sparse_insert_ok sparse_get_insert word_unat_eq_iff)
  show ?thesis using write_law [OF assms(1) l col] facts unfolding w' by auto
qed

section \<open>Creating\<close>

lemma allocate_facts:
  assumes "arena_ok t" and "arena_room k t" and "arena_allocate k t = Some (e, t')"
  shows "arena_ok t'" "\<not> arena_is_alive e t" "arena_is_alive f t' \<longleftrightarrow> arena_is_alive f t \<or> f = e" "entity_type_id e = k"
proof -
  note step = arena_allocate_step [OF assms]
  show "arena_ok t'" using step by blast
  show "\<not> arena_is_alive e t" using step live_in_used [of t] by (auto simp: live_handles_def)
  show "arena_is_alive f t' \<longleftrightarrow> arena_is_alive f t \<or> f = e" using step by (auto simp: live_handles_def set_eq_iff)
  obtain a' where "type_allocate k (arena_of k t) = Some (e, a')"
    using assms(3) by (auto simp: arena_allocate_def split: option.splits)
  then obtain g s where "e = from_parts k g s" "g \<le> MAX_GENERATION"
    using type_allocate_cases [OF arena_ok_of [OF assms(1)]] assms(2) unfolding arena_room_def by metis
  then show "entity_type_id e = k" by (simp add: type_id_from_parts)
qed

lemma push_default_column:
  "column_ok rg st c col \<Longrightarrow>
   column_ok rg (st\<lparr>st_columns := cols, st_slots := st_slots st @ [e]\<rparr>) c (push_default (rg_default rg c) col)"
  by (cases col) (auto simp: column_ok_def push_default_def)

lemma place_law:
  assumes "world_ok rg w" and "w_archetypes w a = Some st" and "w_index w e = None"
    and "entity_type_id e = df_entity_kind (st_def st)" and "arena_ok arena"
    and "\<And>f. arena_is_alive f arena \<longleftrightarrow> arena_is_alive f (w_entities w) \<or> f = e"
  defines "w' \<equiv> place rg a st e (w\<lparr>w_entities := arena\<rparr>)"
  shows "world_ok rg w' \<and> arena_is_alive e (w_entities w') \<and> w_index w' = (w_index w)(e \<mapsto> (a, length (st_slots st))) \<and>
    (\<forall>f c. f \<noteq> e \<longrightarrow> get_component rg f c w' = get_component rg f c w) \<and>
    (\<forall>c. rg_sparse rg c \<longrightarrow> get_component rg e c w' = None)"
proof -
  let ?n = "length (st_slots st)"
  define st' where "st' = st\<lparr>st_columns := (\<lambda>c. map_option (push_default (rg_default rg c)) (st_columns st c)),
      st_slots := st_slots st @ [e]\<rparr>"
  have arch: "w_archetypes w' = (w_archetypes w)(a \<mapsto> st')" and index: "w_index w' = (w_index w)(e \<mapsto> (a, ?n))"
    and ent: "w_entities w' = arena" and emp: "w_empty w' = w_empty w"
    by (simp_all add: w'_def place_def st'_def Let_def)
  have slots: "st_slots st' = st_slots st @ [e]" "st_def st' = st_def st" by (simp_all add: st'_def)
  have ix: "indexed w" using world_okD(2) [OF assms(1)] .
  have new: "e \<notin> set (st_slots sb)" if "w_archetypes w b = Some sb" for b sb
    using slot_in_index [OF ix that, of e] assms(3) by auto
  have "indexed w'"
    proof (rule indexedI)
    fix f b i assume f: "w_index w' f = Some (b, i)"
    show "\<exists>sb. w_archetypes w' b = Some sb \<and> i < length (st_slots sb) \<and> st_slots sb ! i = f \<and>
        entity_type_id f = df_entity_kind (st_def sb)"
    proof (cases "f = e")
      case True
      then show ?thesis using f assms(4) by (auto simp: index arch slots)
    next
      case False
      then obtain sb where "w_archetypes w b = Some sb" "i < length (st_slots sb)" "st_slots sb ! i = f"
        "entity_type_id f = df_entity_kind (st_def sb)"
        using f index_place [OF ix, of f b i] by (auto simp: index)
      then show ?thesis using assms(2) by (auto simp: arch slots nth_append)
    qed
  next
    fix b sb i assume sb: "w_archetypes w' b = Some sb" and i: "i < length (st_slots sb)"
    show "w_index w' (st_slots sb ! i) = Some (b, i)"
    proof (cases "b = a")
      case True
      then have s: "sb = st'" using sb by (simp add: arch)
      show ?thesis
      proof (cases "i < ?n")
        case True
        then show ?thesis
          using place_index [OF ix assms(2) True] new [OF assms(2)] s \<open>b = a\<close>
          by (auto simp: slots nth_append index)
      next
        case False
        then have "i = ?n" using i s by (simp add: slots)
        then show ?thesis using s \<open>b = a\<close> by (simp add: slots index)
      qed
    next
      case False
      then have b: "w_archetypes w b = Some sb" using sb by (simp add: arch)
      then have "st_slots sb ! i \<noteq> e" using new [OF b] nth_mem [OF i] by metis
      then show ?thesis using place_index [OF ix b i] by (simp add: index)
    qed
  qed
  moreover have "w_index w' f \<noteq> None \<longleftrightarrow> arena_is_alive f (w_entities w')" for f
    using world_okD(3) [OF assms(1), of f] assms(6) [of f] by (cases "f = e") (simp_all add: index ent)
  moreover have "storage_ok rg st'"
    unfolding storage_ok_def
  proof (intro allI impI)
    fix c col assume "st_columns st' c = Some col"
    then obtain col0 where col0: "st_columns st c = Some col0" "col = push_default (rg_default rg c) col0"
      by (auto simp: st'_def)
    then have "column_ok rg st c col0" using world_okD(4) [OF assms(1,2)] by (simp add: storage_ok_def)
    then show "column_ok rg st' c col" unfolding col0(2) st'_def by (rule push_default_column)
  qed
  moreover have "\<exists>sb. w_archetypes w' b = Some sb \<and> df_entity_kind (st_def sb) = k" if "w_empty w' k = Some b" for k b
    using world_okD(5) [OF assms(1), of k b] assms(2) that by (auto simp: emp arch slots)
  ultimately have ok: "world_ok rg w'"
    using world_okD(4) [OF assms(1)] assms(5) by (intro world_okI) (auto simp: arch ent split: if_splits)
  have other: "get_component rg f c w' = get_component rg f c w" if "f \<noteq> e" for f c
  proof (cases "w_index w f")
    case None
    then show ?thesis using get_dead [OF ok, of f c] get_dead [OF assms(1), of f c] that by (simp add: index)
  next
    case (Some p)
    obtain b j where p: "p = (b, j)" by (cases p)
    then have jw: "w_index w f = Some (b, j)" and jw': "w_index w' f = Some (b, j)" using Some that by (simp_all add: index)
    obtain sb where sb: "w_archetypes w b = Some sb" "j < length (st_slots sb)"
      using index_place [OF ix jw] by blast
    show ?thesis
    proof (cases "b = a")
      case True
      have "Option.bind (st_columns st' c) (column_value j f) = Option.bind (st_columns st c) (column_value j f)"
      proof (cases "st_columns st c")
        case (Some col)
        then have "column_ok rg st c col" using world_okD(4) [OF assms(1,2)] by (simp add: storage_ok_def)
        then show ?thesis using Some sb True assms(2)
          by (cases col) (auto simp: st'_def push_default_def column_value_def nth_append column_ok_def)
      qed (simp add: st'_def)
      then show ?thesis
        using get_alive [OF ok jw', of st' c] get_alive [OF assms(1) jw sb(1), of c] True sb assms(2)
        by (simp add: arch)
    next
      case False
      then show ?thesis
        using get_alive [OF ok jw', of sb c] get_alive [OF assms(1) jw sb(1), of c] sb by (simp add: arch)
    qed
  qed
  have fresh: "get_component rg e c w' = None" if sp: "rg_sparse rg c" for c
  proof (cases "st_columns st c")
    case None
    then show ?thesis using get_alive [OF ok, of e a ?n st' c] by (simp add: index arch st'_def)
  next
    case (Some col)
    then have cok: "column_ok rg st c col" using world_okD(4) [OF assms(1,2)] by (simp add: storage_ok_def)
    then obtain s where col: "col = Sparse s" using sp by (cases col) (auto simp: column_ok_def)
    have "sparse_get (unat (entity_slot e)) s = None"
    proof (rule ccontr)
      assume "sparse_get (unat (entity_slot e)) s \<noteq> None"
      then obtain f where f: "f \<in> set (st_slots st)" "entity_slot f = entity_slot e"
        using cok by (auto simp: column_ok_def col word_unat_eq_iff)
      then obtain j where j: "w_index w f = Some (a, j)" using slot_in_index [OF ix assms(2)] by blast
      have "arena_is_alive f arena" using world_okD(3) [OF assms(1), of f] j assms(6) by auto
      moreover have "entity_type_id f = entity_type_id e"
        using index_in_slots(4) [OF assms(1) j assms(2)] assms(4) by simp
      ultimately have "f = e" using alive_same_slot f(2) assms(6) by blast
      then show False using j assms(3) by simp
    qed
    then show ?thesis using get_alive [OF ok, of e a ?n st' c] Some col
      by (simp add: index arch st'_def push_default_def column_value_def)
  qed
  show ?thesis using ok other fresh index assms(6) by (auto simp: ent)
qed

lemma spawn_law:
  assumes "world_ok rg w" and "w_archetypes w a = Some st" and "arena_room (df_entity_kind (st_def st)) (w_entities w)"
  obtains e w' where "spawn rg a w = Some (e, w')" and "world_ok rg w'" and "contains e w'" and "\<not> contains e w"
    and "\<And>f c. f \<noteq> e \<Longrightarrow> get_component rg f c w' = get_component rg f c w"
    and "\<And>c. rg_sparse rg c \<Longrightarrow> get_component rg e c w' = None"
    and "\<And>f. contains f w' \<longleftrightarrow> contains f w \<or> f = e"
proof -
  note ok = world_okD(1) [OF assms(1)]
  obtain e t where al: "arena_allocate (df_entity_kind (st_def st)) (w_entities w) = Some (e, t)"
    using arena_allocate_some [OF ok assms(3)] by auto
  note facts = allocate_facts [OF ok assms(3) al]
  have "w_index w e = None" using world_okD(3) [OF assms(1), of e] facts(2) by blast
  note law = place_law [OF assms(1,2) this facts(4,1,3)]
  have "w_entities (place rg a st e (w\<lparr>w_entities := t\<rparr>)) = t" by (simp add: place_def Let_def)
  then show thesis
    using that [of e "place rg a st e (w\<lparr>w_entities := t\<rparr>)"] law facts(2,3) assms(2) al
    by (simp add: spawn_def contains_def)
qed

text \<open>An empty archetype can be made when the counter has not run into the registered ids.\<close>

definition empty_room :: "u8 \<Rightarrow> 'v world \<Rightarrow> bool" where
  "empty_room k w \<longleftrightarrow> arena_room k (w_entities w) \<and> (w_empty w k = None \<longrightarrow> w_archetypes w (w_counter w) = None)"

lemma new_archetype_ok:
  fixes n :: u16
  assumes "world_ok rg w" and "w_archetypes w (df_id d) = None"
    and "m = w_empty w \<or> m = (w_empty w)(df_entity_kind d \<mapsto> df_id d)"
  defines "w' \<equiv> w\<lparr>w_counter := n, w_archetypes := (w_archetypes w)(df_id d \<mapsto> empty_storage d), w_empty := m\<rparr>"
  shows "world_ok rg w' \<and> (\<forall>f c. get_component rg f c w' = get_component rg f c w)"
proof -
  have arch: "w_archetypes w' = (w_archetypes w)(df_id d \<mapsto> empty_storage d)" and index: "w_index w' = w_index w"
    and ent: "w_entities w' = w_entities w" and emp: "w_empty w' = m"
    by (simp_all add: w'_def)
  have ix: "indexed w" using world_okD(2) [OF assms(1)] .
  have keep: "b \<noteq> df_id d" if "w_index w f = Some (b, i)" for f b i
    using index_place_ex [OF ix that] assms(2) by auto
  have "indexed w'"
  proof (rule indexedI)
    fix e a i assume "w_index w' e = Some (a, i)"
    then have e: "w_index w e = Some (a, i)" by (simp add: index)
    show "\<exists>st. w_archetypes w' a = Some st \<and> i < length (st_slots st) \<and> st_slots st ! i = e \<and>
        entity_type_id e = df_entity_kind (st_def st)"
      using index_place_ex [OF ix e] keep [OF e] by (auto simp: arch)
  next
    fix a st i assume "w_archetypes w' a = Some st" and i: "i < length (st_slots st)"
    then have "w_archetypes w a = Some st" by (auto simp: arch empty_storage_def split: if_splits)
    then show "w_index w' (st_slots st ! i) = Some (a, i)" using place_index [OF ix _ i] by (simp add: index)
  qed
  moreover have "storage_ok rg (empty_storage d)" by (simp add: storage_ok_def empty_storage_def)
  moreover have "\<exists>st. w_archetypes w' b = Some st \<and> df_entity_kind (st_def st) = k" if mk: "m k = Some b" for k b
  proof (cases "m = (w_empty w)(df_entity_kind d \<mapsto> df_id d) \<and> k = df_entity_kind d")
    case True
    then have "b = df_id d" using mk by simp
    then show ?thesis using True by (simp add: arch empty_storage_def)
  next
    case False
    then have "w_empty w k = Some b" using mk assms(3) by (auto split: if_splits)
    then obtain st where "w_archetypes w b = Some st" "df_entity_kind (st_def st) = k"
      using world_okD(5) [OF assms(1), of k b] by auto
    moreover have "b \<noteq> df_id d" using calculation assms(2) by auto
    ultimately show ?thesis by (simp add: arch)
  qed
  moreover have "storage_ok rg st" if "w_archetypes w' a = Some st" for a st
    using that calculation(2) world_okD(4) [OF assms(1)] by (simp add: arch split: if_splits)
  moreover have "(w_index w' e \<noteq> None) = arena_is_alive e (w_entities w')" for e
    unfolding index ent by (rule world_okD(3) [OF assms(1)])
  moreover have "arena_ok (w_entities w')" unfolding ent by (rule world_okD(1) [OF assms(1)])
  ultimately have ok: "world_ok rg w'" by (intro world_okI) (simp_all only: emp)
  have "get_component rg f c w' = get_component rg f c w" for f c
  proof (cases "w_index w f")
    case None
    then show ?thesis using get_dead [OF ok, of f c] get_dead [OF assms(1), of f c] by (simp add: index)
  next
    case (Some p)
    obtain b i where p: "w_index w f = Some (b, i)" using Some by (cases p) auto
    obtain sb where sb: "w_archetypes w b = Some sb" using index_place [OF ix p] by blast
    have ab: "w_archetypes w' b = Some sb" using sb keep [OF p] by (simp add: arch)
    show ?thesis using get_alive [OF ok _ ab, of f i c] get_alive [OF assms(1) p sb, of c] p by (simp add: index)
  qed
  then show ?thesis using ok by blast
qed

lemma spawn_empty_law:
  assumes "world_ok rg w" and "empty_room k w"
  obtains e w' where "spawn_empty_with rg k w = Some (e, w')" and "world_ok rg w'" and "contains e w'" and "\<not> contains e w"
    and "\<And>f c. f \<noteq> e \<Longrightarrow> get_component rg f c w' = get_component rg f c w"
    and "\<And>c. rg_sparse rg c \<Longrightarrow> get_component rg e c w' = None"
    and "\<And>f. contains f w' \<longleftrightarrow> contains f w \<or> f = e"
proof (cases "w_empty w k")
  case (Some a)
  then obtain st where st: "w_archetypes w a = Some st" "df_entity_kind (st_def st) = k"
    using world_okD(5) [OF assms(1)] by blast
  have room: "arena_room (df_entity_kind (st_def st)) (w_entities w)" using assms(2) st by (simp add: empty_room_def)
  show thesis by (rule spawn_law [OF assms(1) st(1) room]) (use that Some in \<open>auto simp: spawn_empty_with_def\<close>)
next
  case None
  define d where "d = \<lparr>df_id = w_counter w, df_component_ids = [], df_entity_kind = k\<rparr>"
  define w1 where "w1 = w\<lparr>w_counter := w_counter w + 1, w_archetypes := (w_archetypes w)(df_id d \<mapsto> empty_storage d),
      w_empty := (w_empty w)(k \<mapsto> df_id d)\<rparr>"
  have "w_archetypes w (df_id d) = None" using assms(2) None by (simp add: empty_room_def d_def)
  note new = new_archetype_ok [OF assms(1) this disjI2 [OF refl], of "w_counter w + 1"]
  have w1: "world_ok rg w1" "\<And>f c. get_component rg f c w1 = get_component rg f c w"
    using new by (simp_all add: w1_def d_def)
  have arch: "w_archetypes w1 (w_counter w) = Some (empty_storage d)" by (simp add: w1_def d_def)
  have room: "arena_room (df_entity_kind (st_def (empty_storage d))) (w_entities w1)"
    using assms(2) by (simp add: empty_room_def empty_storage_def d_def w1_def)
  have sp: "spawn_empty_with rg k w = spawn rg (w_counter w) w1"
    by (simp add: spawn_empty_with_def None w1_def d_def Let_def)
  have c: "contains f w1 = contains f w" for f by (simp add: contains_def w1_def)
  show thesis
    by (rule spawn_law [OF w1(1) arch room]) (use that sp w1(2) c in \<open>auto\<close>)
qed

section \<open>Destroying\<close>

lemma deallocate_facts:
  assumes "arena_ok t" and "arena_is_alive e t"
  shows "arena_ok (snd (arena_deallocate e t))"
    and "arena_is_alive f (snd (arena_deallocate e t)) \<longleftrightarrow> arena_is_alive f t \<and> f \<noteq> e"
  using arena_deallocate_step [OF assms(1) prod.collapse [symmetric], of e] by (auto simp: live_handles_def set_eq_iff)

text \<open>After the exchange with the last element every other entity is where the index says.\<close>

lemma despawn_index:
  assumes "world_ok rg w" and "w_index w e = Some (a, i)" and "w_archetypes w a = Some st"
  shows "w_index (snd (despawn e w)) =
    (\<lambda>f. if f = e then None else if f = last (st_slots st) then Some (a, i) else w_index w f)"
proof -
  note in_slots = index_in_slots [OF assms]
  have d: "distinct (st_slots st)" by (rule slots_distinct [OF world_okD(2) [OF assms(1)] assms(3)])
  have ne: "st_slots st \<noteq> []" using in_slots(1) by auto
  have last: "last (st_slots st) = e \<longleftrightarrow> i = length (st_slots st) - 1"
    using last_nth_iff [OF d in_slots(1)] unfolding in_slots(2) .
  have "w_index (snd (despawn e w)) =
      (if i < length (st_slots st) - 1 then (w_index w)(e := None, last (st_slots st) \<mapsto> (a, i))
       else (w_index w)(e := None))"
    using nth_swap_remove [OF in_slots(1), of i] length_swap_remove [OF in_slots(1)]
    by (simp add: despawn_def assms Let_def)
  moreover have "i < length (st_slots st) - 1 \<longleftrightarrow> last (st_slots st) \<noteq> e" using last in_slots(1) by linarith
  ultimately show ?thesis by (auto simp: fun_eq_iff)
qed

lemma on_despawn_column:
  assumes "world_ok rg w" and "w_index w e = Some (a, i)" and "w_archetypes w a = Some st" and "column_ok rg st c col"
  shows "column_ok rg (st\<lparr>st_slots := swap_remove i (st_slots st), st_columns := cols\<rparr>) c
      (on_despawn i (unat (entity_slot e)) col)"
proof (cases col)
  case (SoA xs)
  then show ?thesis
    using assms(4) index_in_slots(1) [OF assms(1-3)] by (auto simp: column_ok_def on_despawn_def length_swap_remove)
next
  case (Sparse s)
  note in_slots = index_in_slots [OF assms(1-3)]
  have "k \<in> (unat \<circ> entity_slot) ` set (swap_remove i (st_slots st))"
    if k: "sparse_get k (snd (sparse_remove (unat (entity_slot e)) s)) \<noteq> None" for k
  proof -
    have ne: "k \<noteq> unat (entity_slot e)" "sparse_get k s \<noteq> None" using k by (auto simp: sparse_get_remove split: if_splits)
    then obtain f where f: "f \<in> set (st_slots st)" "k = unat (entity_slot f)"
      using assms(4) Sparse by (auto simp: column_ok_def)
    then have "f \<noteq> e" using ne by auto
    then have "f \<in> set (swap_remove i (st_slots st))"
      using f set_swap_remove [OF slots_distinct [OF world_okD(2) [OF assms(1)] assms(3)] in_slots(1)] in_slots(2) by auto
    then show ?thesis using f by auto
  qed
  then show ?thesis
    using assms(4) Sparse by (simp add: column_ok_def on_despawn_def sparse_remove_ok)
qed

lemma despawn_law:
  assumes "world_ok rg w" and "w_index w e = Some (a, i)"
  shows "fst (despawn e w) \<and> world_ok rg (snd (despawn e w)) \<and>
    (\<forall>f. contains f (snd (despawn e w)) \<longleftrightarrow> contains f w \<and> f \<noteq> e) \<and>
    (\<forall>f c. get_component rg f c (snd (despawn e w)) = (if f = e then None else get_component rg f c w))"
proof -
  note ix = world_okD(2) [OF assms(1)]
  obtain st where st: "w_archetypes w a = Some st" using index_place_ex [OF ix assms(2)] by blast
  note in_slots = index_in_slots [OF assms(1,2) st]
  define w' where "w' = snd (despawn e w)"
  define slots where "slots = swap_remove i (st_slots st)"
  let ?n = "length (st_slots st)"
  let ?m = "last (st_slots st)"
  let ?s = "unat (entity_slot e)"
  define st' where "st' = st\<lparr>st_slots := slots,
      st_columns := (\<lambda>c. map_option (on_despawn i ?s) (st_columns st c))\<rparr>"
  have arch: "w_archetypes w' = (w_archetypes w)(a \<mapsto> st')" and emp: "w_empty w' = w_empty w"
    and ent: "w_entities w' = snd (arena_deallocate e (w_entities w))" and yes: "fst (despawn e w)"
    using assms(2) st by (simp_all add: w'_def despawn_def Let_def st'_def slots_def)
  note index = despawn_index [OF assms st, folded w'_def]
  have d: "distinct (st_slots st)" by (rule slots_distinct [OF ix st])
  have ne: "st_slots st \<noteq> []" using in_slots(1) by auto
  have m: "?m = st_slots st ! (?n - 1)" by (rule last_conv_nth [OF ne])
  have ln: "length slots = ?n - 1" using in_slots(1) by (simp add: slots_def length_swap_remove)
  have nth: "slots ! j = (if j = i then ?m else st_slots st ! j)" if "j < ?n - 1" for j
    using nth_swap_remove [OF in_slots(1) that] by (simp add: slots_def)
  have mi: "w_index w ?m = Some (a, ?n - 1)" using place_index [OF ix st, of "?n - 1"] in_slots(1) by (simp add: m)
  have me: "?m = e \<longleftrightarrow> i = ?n - 1" using last_nth_iff [OF d in_slots(1)] unfolding in_slots(2) .
  have moved: "w_index w' f = Some (a, if f = ?m then i else j)" "(if f = ?m then i else j) < ?n - 1"
    "slots ! (if f = ?m then i else j) = f" "j < ?n" "f = ?m \<longleftrightarrow> j = ?n - 1"
    if "w_index w f = Some (a, j)" "f \<noteq> e" for f j
  proof -
    note fj = index_in_slots [OF assms(1) that(1) st]
    show "j < ?n" by (rule fj(1))
    show fm: "f = ?m \<longleftrightarrow> j = ?n - 1" using last_nth_iff [OF d fj(1)] unfolding fj(2) by blast
    show "w_index w' f = Some (a, if f = ?m then i else j)" using that by (simp add: index)
    show lt: "(if f = ?m then i else j) < ?n - 1"
    proof (cases "f = ?m")
      case True
      then have "i \<noteq> ?n - 1" using me that(2) by blast
      then show ?thesis using True in_slots(1) by simp
    next
      case False
      then have "j \<noteq> ?n - 1" using fm by blast
      then show ?thesis using False fj(1) by simp
    qed
    have "j \<noteq> i" using that(2) fj(2) in_slots(2) by auto
    then show "slots ! (if f = ?m then i else j) = f" using nth [OF lt] fj(2) by auto
  qed
  have other: "w_index w' f = Some (b, j)" if "w_index w f = Some (b, j)" "b \<noteq> a" for f b j
    using that assms(2) mi by (auto simp: index)
  have "indexed w'"
  proof (rule indexedI)
    fix f b j assume f: "w_index w' f = Some (b, j)"
    then have fe: "f \<noteq> e" by (auto simp: index)
    show "\<exists>sb. w_archetypes w' b = Some sb \<and> j < length (st_slots sb) \<and> st_slots sb ! j = f \<and>
        entity_type_id f = df_entity_kind (st_def sb)"
    proof (cases "w_index w f")
      case None
      then show ?thesis using f mi fe by (auto simp: index split: if_splits)
    next
      case (Some p)
      obtain b0 j0 where p: "p = (b0, j0)" by (cases p)
      show ?thesis
      proof (cases "b0 = a")
        case True
        note mv = moved [OF Some [unfolded p True] fe]
        have bj: "b = a" "j = (if f = ?m then i else j0)" using mv(1) f by auto
        show ?thesis
          using mv(2,3) ln index_in_slots(4) [OF assms(1) Some [unfolded p True] st]
          unfolding bj arch by (simp add: st'_def)
      next
        case False
        then have bj: "b = b0" "j = j0" using other [OF Some [unfolded p]] f by auto
        show ?thesis using index_place_ex [OF ix Some [unfolded p]] False unfolding bj arch by auto
      qed
    qed
  next
    fix b sb j assume sb: "w_archetypes w' b = Some sb" and j: "j < length (st_slots sb)"
    show "w_index w' (st_slots sb ! j) = Some (b, j)"
    proof (cases "b = a")
      case True
      then have s: "sb = st'" using sb by (simp add: arch)
      then have jn: "j < ?n - 1" using j ln by (simp add: st'_def)
      let ?j = "if j = i then ?n - 1 else j"
      have jj: "?j < ?n" "?j \<noteq> i" using jn by auto
      have "slots ! j = st_slots st ! ?j" using nth [OF jn] m by auto
      moreover have "st_slots st ! ?j \<noteq> e" using nth_eq_iff_index_eq [OF d jj(1) in_slots(1)] jj(2) in_slots(2) by auto
      ultimately have "w_index w' (slots ! j) = Some (a, if slots ! j = ?m then i else ?j)"
        using moved(1) [OF place_index [OF ix st jj(1)]] by simp
      moreover have "slots ! j = ?m \<longleftrightarrow> j = i"
        using nth [OF jn] nth_eq_iff_index_eq [OF d, of j "?n - 1"] jn m by auto
      ultimately show ?thesis using s True by (auto simp: st'_def)
    next
      case False
      then have "w_archetypes w b = Some sb" using sb by (simp add: arch)
      then show ?thesis using other [OF place_index [OF ix _ j]] False by blast
    qed
  qed
  moreover have alive: "arena_is_alive e (w_entities w)" using world_okD(3) [OF assms(1), of e] assms(2) by simp
  note dl = deallocate_facts [OF world_okD(1) [OF assms(1)] alive]
  have "(w_index w' f \<noteq> None) = arena_is_alive f (w_entities w')" for f
    using world_okD(3) [OF assms(1), of f] mi by (auto simp: ent dl(2) index)
  moreover have "storage_ok rg st'"
    unfolding storage_ok_def
  proof (intro allI impI)
    fix c col assume "st_columns st' c = Some col"
    then obtain col0 where col0: "st_columns st c = Some col0" "col = on_despawn i ?s col0" by (auto simp: st'_def)
    then have "column_ok rg st c col0" using world_okD(4) [OF assms(1) st] by (simp add: storage_ok_def)
    then show "column_ok rg st' c col"
      unfolding col0(2) st'_def slots_def by (rule on_despawn_column [OF assms st])
  qed
  moreover have "\<exists>sb. w_archetypes w' b = Some sb \<and> df_entity_kind (st_def sb) = k" if "w_empty w' k = Some b" for k b
    using world_okD(5) [OF assms(1), of k b] st that by (auto simp: emp arch st'_def)
  ultimately have ok: "world_ok rg w'"
    using world_okD(4) [OF assms(1)] dl(1) by (intro world_okI) (auto simp: arch ent split: if_splits)
  have get: "get_component rg f c w' = (if f = e then None else get_component rg f c w)" for f c
  proof (cases "f = e \<or> w_index w f = None")
    case True
    then have "w_index w' f = None" using mi by (auto simp: index)
    then show ?thesis using True get_dead [OF ok, of f c] get_dead [OF assms(1), of f c] by auto
  next
    case False
    then obtain b j where f: "w_index w f = Some (b, j)" "f \<noteq> e" by auto
    show ?thesis
    proof (cases "b = a")
      case True
      note mv = moved [OF f(1) [unfolded True] f(2)]
      let ?j = "if f = ?m then i else j"
      note fj = index_in_slots [OF assms(1) f(1) [unfolded True] st]
      have "Option.bind (st_columns st' c) (column_value ?j f) = Option.bind (st_columns st c) (column_value j f)"
      proof (cases "st_columns st c")
        case (Some col)
        then have cok: "column_ok rg st c col" using world_okD(4) [OF assms(1) st] by (simp add: storage_ok_def)
        have "column_value ?j f (on_despawn i ?s col) = column_value j f col"
        proof (cases col)
          case (SoA xs)
          then have lx: "length xs = ?n" using cok by (simp add: column_ok_def)
          have "swap_remove i xs ! ?j = xs ! j"
          proof (cases "f = ?m")
            case True
            have "j = ?n - 1" using True mv(5) by blast
            then have "last xs = xs ! j" using lx in_slots(1) last_conv_nth [of xs] by (cases xs) auto
            then show ?thesis using nth_swap_remove [of i xs ?j] True mv(2) lx in_slots(1) by simp
          next
            case False
            have "j \<noteq> i" using f(2) fj(2) in_slots(2) by auto
            then show ?thesis using nth_swap_remove [of i xs ?j] False mv(2) lx in_slots(1) by simp
          qed
          then show ?thesis using SoA by (simp add: column_value_def on_despawn_def)
        next
          case (Sparse s)
          have "unat (entity_slot f) \<noteq> ?s"
            using slots_differ [OF assms(1) st fj(3) in_slots(3)] f(2) by (auto simp: word_unat_eq_iff)
          then show ?thesis using Sparse by (simp add: column_value_def on_despawn_def sparse_get_remove)
        qed
        then show ?thesis using Some by (simp add: st'_def)
      qed (simp add: st'_def)
      then show ?thesis
        using get_alive [OF ok mv(1), of st' c] get_alive [OF assms(1) f(1) [unfolded True] st, of c] f(2)
        by (simp add: arch)
    next
      case False
      obtain sb where sb: "w_archetypes w b = Some sb" using index_place_ex [OF ix f(1)] by blast
      then show ?thesis
        using get_alive [OF ok other [OF f(1) False], of sb c] get_alive [OF assms(1) f(1) sb, of c] f(2) False
        by (simp add: arch)
    qed
  qed
  show ?thesis using yes ok get unfolding w'_def [symmetric] by (simp add: contains_def ent dl(2))
qed

lemma despawn_dead: "world_ok rg w \<Longrightarrow> \<not> contains e w \<Longrightarrow> despawn e w = (False, w)"
  using world_okD(3) [of rg w e] by (cases "w_index w e") (auto simp: despawn_def contains_def)

end
