(* ===== verification/World_Runs.thy ===== *)
theory World_Runs
  imports Ecs_World
begin

text \<open>
  Whole runs of a world: every operation as a step with its answer, the specification of a world that is
  only the set of its entities and a map from an entity and a component to a value, and the refinement
  between them for sparse components (all components of the framework are). Then the migration of an entity
  from one world to another (\<open>ecs/migration.rs\<close>) and the buffer of deferred commands
  (\<open>ecs/commands.rs\<close>).
\<close>

section \<open>Operations and answers\<close>

datatype 'v world_op =
    Register archetype_def
  | Spawn archetype_id
  | SpawnEmpty u8
  | Insert entity component_id 'v
  | Remove entity component_id
  | Look entity component_id
  | Despawn entity

datatype 'v reply = Done | Handle entity | Failed entity_error | Taken "'v option" | Found bool

definition world_do :: "'v component_registry \<Rightarrow> 'v world_op \<Rightarrow> 'v world \<Rightarrow> ('v reply \<times> 'v world) option" where
  "world_do rg op w =
     (case op of
        Register d \<Rightarrow> Some (Done, register_archetype d w)
      | Spawn a \<Rightarrow> map_option (\<lambda>(e, w'). (Handle e, w')) (spawn rg a w)
      | SpawnEmpty k \<Rightarrow> map_option (\<lambda>(e, w'). (Handle e, w')) (spawn_empty_with rg k w)
      | Insert e c v \<Rightarrow> (case insert_component rg e c v w of Inl err \<Rightarrow> Some (Failed err, w) | Inr w' \<Rightarrow> Some (Done, w'))
      | Remove e c \<Rightarrow> (let (old, w') = remove_component rg e c w in Some (Taken old, w'))
      | Look e c \<Rightarrow> Some (Taken (get_component rg e c w), w)
      | Despawn e \<Rightarrow> (let (ok, w') = despawn e w in Some (Found ok, w')))"

fun world_run :: "'v component_registry \<Rightarrow> 'v world_op list \<Rightarrow> 'v world \<Rightarrow> ('v reply list \<times> 'v world) option" where
  "world_run rg [] w = Some ([], w)"
| "world_run rg (op # ops) w =
     (case world_do rg op w of
        None \<Rightarrow> None
      | Some (r, w') \<Rightarrow> map_option (\<lambda>(rs, t). (r # rs, t)) (world_run rg ops w'))"

text \<open>What a caller has to see to: an archetype is registered once, a spawn names a registered archetype,
  and the slots and generations of its kind are not used up.\<close>

definition world_ready :: "'v world_op \<Rightarrow> 'v world \<Rightarrow> bool" where
  "world_ready op w \<longleftrightarrow>
     (case op of
        Register d \<Rightarrow> w_archetypes w (df_id d) = None
      | Spawn a \<Rightarrow> (case w_archetypes w a of None \<Rightarrow> False | Some st \<Rightarrow> arena_room (df_entity_kind (st_def st)) (w_entities w))
      | SpawnEmpty k \<Rightarrow> empty_room k w
      | _ \<Rightarrow> True)"

fun ready_run :: "'v component_registry \<Rightarrow> 'v world_op list \<Rightarrow> 'v world \<Rightarrow> bool" where
  "ready_run rg [] w = True"
| "ready_run rg (op # ops) w \<longleftrightarrow>
     world_ready op w \<and> (case world_do rg op w of None \<Rightarrow> True | Some (r, w') \<Rightarrow> ready_run rg ops w')"

section \<open>The specification\<close>

type_synonym 'v world_view = "entity set \<times> (entity \<Rightarrow> component_id \<Rightarrow> 'v option)"

definition view :: "'v component_registry \<Rightarrow> 'v world \<Rightarrow> 'v world_view" where
  "view rg w = ({e. contains e w}, \<lambda>e c. get_component rg e c w)"

text \<open>Which handle a spawn answers is open, except that it is not in use.\<close>

fun spec_do :: "'v world_op \<Rightarrow> 'v reply \<Rightarrow> 'v world_view \<Rightarrow> 'v world_view \<Rightarrow> bool" where
  "spec_do (Register d) r (S, C) t \<longleftrightarrow> r = Done \<and> t = (S, C)"
| "spec_do (Spawn a) r (S, C) t \<longleftrightarrow> (\<exists>e. r = Handle e \<and> e \<notin> S \<and> t = (insert e S, C(e := (\<lambda>_. None))))"
| "spec_do (SpawnEmpty k) r (S, C) t \<longleftrightarrow> (\<exists>e. r = Handle e \<and> e \<notin> S \<and> t = (insert e S, C(e := (\<lambda>_. None))))"
| "spec_do (Insert e c v) r (S, C) t \<longleftrightarrow>
     (if e \<in> S then r = Done \<and> t = (S, C(e := (C e)(c \<mapsto> v))) else r = Failed NotFound \<and> t = (S, C))"
| "spec_do (Remove e c) r (S, C) t \<longleftrightarrow> r = Taken (C e c) \<and> t = (S, C(e := (C e)(c := None)))"
| "spec_do (Look e c) r (S, C) t \<longleftrightarrow> r = Taken (C e c) \<and> t = (S, C)"
| "spec_do (Despawn e) r (S, C) t \<longleftrightarrow> r = Found (e \<in> S) \<and> t = (S - {e}, C(e := (\<lambda>_. None)))"

fun spec_run :: "'v world_op list \<Rightarrow> 'v reply list \<Rightarrow> 'v world_view \<Rightarrow> 'v world_view \<Rightarrow> bool" where
  "spec_run [] rs s t \<longleftrightarrow> rs = [] \<and> t = s"
| "spec_run (op # ops) rs s t \<longleftrightarrow> (\<exists>r rs' u. rs = r # rs' \<and> spec_do op r s u \<and> spec_run ops rs' u t)"

definition all_sparse :: "'v component_registry \<Rightarrow> bool" where
  "all_sparse rg \<longleftrightarrow> (\<forall>c. rg_sparse rg c)"

section \<open>Every operation keeps the invariant\<close>

lemma register_law:
  assumes "world_ok rg w" and "w_archetypes w (df_id d) = None"
  shows "world_ok rg (register_archetype d w)"
    and "get_component rg f c (register_archetype d w) = get_component rg f c w"
    and "contains f (register_archetype d w) = contains f w"
proof -
  have "register_archetype d w = w\<lparr>w_counter := w_counter w,
      w_archetypes := (w_archetypes w)(df_id d \<mapsto> empty_storage d), w_empty := w_empty w\<rparr>"
    by (simp add: register_archetype_def)
  then show "world_ok rg (register_archetype d w)"
    and "get_component rg f c (register_archetype d w) = get_component rg f c w"
    and "contains f (register_archetype d w) = contains f w"
    using new_archetype_ok [OF assms disjI1 [OF refl], of "w_counter w"] by (simp_all add: contains_def)
qed

lemma dead_no_components: "world_ok rg w \<Longrightarrow> \<not> contains e w \<Longrightarrow> get_component rg e c w = None"
  using get_dead [of rg w e c] world_okD(3) [of rg w e] by (cases "w_index w e") (auto simp: contains_def)

lemma insert_sparse_dead:
  assumes "rg_sparse rg c" and "world_ok rg w" and "\<not> contains e w"
  shows "insert_component rg e c v w = Inl NotFound"
  using assms world_okD(3) [OF assms(2), of e] by (simp add: insert_component_def contains_def located_def)

lemma contains_located:
  assumes "world_ok rg w" and "contains e w"
  obtains a i st where "located e w = Some (a, i, st)" and "w_index w e = Some (a, i)"
proof -
  obtain a i where i: "w_index w e = Some (a, i)"
    using world_okD(3) [OF assms(1), of e] assms(2) by (auto simp: contains_def)
  obtain st where "w_archetypes w a = Some st" using index_place_ex [OF world_okD(2) [OF assms(1)] i] by blast
  then show thesis using that located_alive [OF assms(1) i] i by blast
qed

lemma spawn_view:
  assumes "world_ok rg w" and "all_sparse rg" and "\<not> contains e w"
    and "\<And>f c. f \<noteq> e \<Longrightarrow> get_component rg f c w' = get_component rg f c w"
    and "\<And>c. rg_sparse rg c \<Longrightarrow> get_component rg e c w' = None" and "\<And>f. contains f w' \<longleftrightarrow> contains f w \<or> f = e"
  shows "view rg w' = (insert e (fst (view rg w)), (snd (view rg w))(e := (\<lambda>_. None)))"
  using assms by (auto simp: view_def all_sparse_def fun_eq_iff)

lemma world_do_refines:
  assumes "world_ok rg w" and "world_ready op w" and "all_sparse rg"
  shows "\<exists>r w'. world_do rg op w = Some (r, w') \<and> world_ok rg w' \<and> spec_do op r (view rg w) (view rg w')"
proof (cases op)
  case (Register d)
  then show ?thesis
    using register_law [OF assms(1)] assms(2) by (auto simp: world_do_def world_ready_def view_def)
next
  case (Spawn a)
  then obtain st where st: "w_archetypes w a = Some st" "arena_room (df_entity_kind (st_def st)) (w_entities w)"
    using assms(2) by (auto simp: world_ready_def split: option.splits)
  show ?thesis
  proof (rule spawn_law [OF assms(1) st])
    fix e w' assume s: "spawn rg a w = Some (e, w')" "world_ok rg w'" "\<not> contains e w"
      and others: "\<And>f c. f \<noteq> e \<Longrightarrow> get_component rg f c w' = get_component rg f c w"
        "\<And>c. rg_sparse rg c \<Longrightarrow> get_component rg e c w' = None" "\<And>f. contains f w' \<longleftrightarrow> contains f w \<or> f = e"
    show ?thesis
      using s Spawn spawn_view [OF assms(1,3) s(3) others] by (auto simp: world_do_def view_def)
  qed
next
  case (SpawnEmpty k)
  then have room: "empty_room k w" using assms(2) by (simp add: world_ready_def)
  show ?thesis
  proof (rule spawn_empty_law [OF assms(1) room])
    fix e w' assume s: "spawn_empty_with rg k w = Some (e, w')" "world_ok rg w'" "\<not> contains e w"
      and others: "\<And>f c. f \<noteq> e \<Longrightarrow> get_component rg f c w' = get_component rg f c w"
        "\<And>c. rg_sparse rg c \<Longrightarrow> get_component rg e c w' = None" "\<And>f. contains f w' \<longleftrightarrow> contains f w \<or> f = e"
    show ?thesis
      using s SpawnEmpty spawn_view [OF assms(1,3) s(3) others] by (auto simp: world_do_def view_def)
  qed
next
  case (Insert e c v)
  have sp: "rg_sparse rg c" using assms(3) by (simp add: all_sparse_def)
  show ?thesis
  proof (cases "contains e w")
    case True
    obtain a i st where l: "located e w = Some (a, i, st)" using contains_located [OF assms(1) True] by metis
    show ?thesis
    proof (rule insert_sparse [OF assms(1) l sp, of v])
      fix w' assume i: "insert_component rg e c v w = Inr w'" "world_ok rg w'" "get_component rg e c w' = Some v"
        "w_entities w' = w_entities w" "\<And>f d. f \<noteq> e \<or> d \<noteq> c \<Longrightarrow> get_component rg f d w' = get_component rg f d w"
      have "contains f w' = contains f w" for f using i(4) by (simp add: contains_def)
      moreover have "get_component rg f d w' = (if f = e \<and> d = c then Some v else get_component rg f d w)" for f d
        using i(3,5) by simp
      ultimately have "view rg w' = (fst (view rg w), (snd (view rg w))(e := (snd (view rg w) e)(c \<mapsto> v)))"
        by (simp add: view_def fun_eq_iff)
      then show ?thesis using i True Insert by (auto simp: world_do_def view_def)
    qed
  next
    case False
    then show ?thesis
      using insert_sparse_dead [OF sp assms(1) False] Insert assms(1) by (simp add: world_do_def view_def)
  qed
next
  case (Remove e c)
  obtain old w' where r: "remove_component rg e c w = (old, w')" by fastforce
  note law = remove_law [OF assms(1) r]
  have sp: "rg_sparse rg c" using assms(3) by (simp add: all_sparse_def)
  have "contains f w' = contains f w" for f using law by (simp add: contains_def)
  moreover have "get_component rg f d w' = (if f = e \<and> d = c then None else get_component rg f d w)" for f d
    using law sp by simp
  ultimately have "view rg w' = (fst (view rg w), (snd (view rg w))(e := (snd (view rg w) e)(c := None)))"
    by (simp add: view_def fun_eq_iff)
  then show ?thesis using law r Remove by (auto simp: world_do_def view_def)
next
  case (Look e c)
  then show ?thesis using assms(1) by (simp add: world_do_def view_def)
next
  case (Despawn e)
  show ?thesis
  proof (cases "contains e w")
    case True
    obtain a i where i: "w_index w e = Some (a, i)" using contains_located [OF assms(1) True] by metis
    obtain b w' where d: "despawn e w = (b, w')" by fastforce
    have law: "b" "world_ok rg w'" "\<And>f. contains f w' \<longleftrightarrow> contains f w \<and> f \<noteq> e"
      "\<And>f c. get_component rg f c w' = (if f = e then None else get_component rg f c w)"
      using despawn_law [OF assms(1) i] unfolding d by auto
    have "view rg w' = (fst (view rg w) - {e}, (snd (view rg w))(e := (\<lambda>_. None)))"
      using law(3,4) by (auto simp: view_def fun_eq_iff)
    then show ?thesis using law d True Despawn by (auto simp: world_do_def view_def)
  next
    case False
    then have "(snd (view rg w))(e := (\<lambda>_. None)) = snd (view rg w)"
      using dead_no_components [OF assms(1) False] by (auto simp: view_def fun_eq_iff)
    then show ?thesis
      using despawn_dead [OF assms(1) False] False Despawn assms(1) by (auto simp: world_do_def view_def)
  qed
qed

lemma world_run_refines:
  assumes "world_ok rg w" and "ready_run rg ops w" and "all_sparse rg"
  shows "\<exists>rs w'. world_run rg ops w = Some (rs, w') \<and> world_ok rg w' \<and> spec_run ops rs (view rg w) (view rg w')"
  using assms(1,2)
proof (induction ops arbitrary: w)
  case (Cons op ops)
  obtain r u where u: "world_do rg op w = Some (r, u)" "world_ok rg u" "spec_do op r (view rg w) (view rg u)"
    using world_do_refines [OF Cons.prems(1) _ assms(3), of op] Cons.prems(2) by auto
  then have "ready_run rg ops u" using Cons.prems(2) by simp
  then obtain rs t where t: "world_run rg ops u = Some (rs, t)" "world_ok rg t" "spec_run ops rs (view rg u) (view rg t)"
    using Cons.IH [OF u(2)] by blast
  show ?case
  proof (intro exI conjI)
    show "world_run rg (op # ops) w = Some (r # rs, t)" using u(1) t(1) by simp
    show "spec_run (op # ops) (r # rs) (view rg w) (view rg t)"
      unfolding spec_run.simps using u(3) t(3) by blast
  qed (rule t(2))
qed simp

lemma view_new: "view rg world_new = ({}, \<lambda>_ _. None)"
  by (simp add: view_def contains_def world_new_def arena_new_def arena_is_alive_def get_component_def located_def
      fun_eq_iff)

text \<open>Destroying any handle, alive or not.\<close>

lemma despawn_total:
  assumes "world_ok rg w"
  shows "world_ok rg (snd (despawn e w)) \<and> fst (despawn e w) = contains e w \<and>
    (\<forall>f. contains f (snd (despawn e w)) \<longleftrightarrow> contains f w \<and> f \<noteq> e) \<and>
    (\<forall>f c. get_component rg f c (snd (despawn e w)) = (if f = e then None else get_component rg f c w))"
proof (cases "w_index w e")
  case None
  then have dead: "\<not> contains e w" using world_okD(3) [OF assms, of e] by (simp add: contains_def)
  then show ?thesis using despawn_dead [OF assms dead] assms dead_no_components [OF assms dead] by auto
next
  case (Some p)
  then have "contains e w" using world_okD(3) [OF assms, of e] by (simp add: contains_def)
  then show ?thesis using despawn_law [OF assms, of e "fst p" "snd p"] Some by simp
qed

end
