(* ===== verification/Deferred_Commands.thy ===== *)
theory Deferred_Commands
  imports World_Runs
begin

text \<open>
  The buffer of deferred commands (\<open>ecs/commands.rs\<close>) and bundles (\<open>ecs/world.rs\<close>). Systems queue
  commands; at the start of a tick the buffer runs them in order against the world. An entity that a queued
  spawn will make is known by a token until then. The result: running the buffer is running the commands at
  once, whatever the tokens are, because the handle of a queued spawn borrows the buffer until its last
  command is queued.
\<close>

section \<open>Bundles\<close>

definition put_all :: "'v component_registry \<Rightarrow> entity \<Rightarrow> (component_id \<times> 'v) list \<Rightarrow> 'v world \<Rightarrow> 'v world" where
  "put_all rg e = fold (\<lambda>(c, v) w. case insert_component rg e c v w of Inl _ \<Rightarrow> w | Inr w' \<Rightarrow> w')"

definition bundle_spawn ::
  "'v component_registry \<Rightarrow> (component_id \<times> 'v) list \<Rightarrow> 'v world \<Rightarrow> (entity \<times> 'v world) option" where
  "bundle_spawn rg bundle w =
     (case spawn_empty_with rg 0 w of None \<Rightarrow> None | Some (e, w') \<Rightarrow> Some (e, put_all rg e bundle w'))"

section \<open>The buffer\<close>

datatype target = Token u32 | Known entity

datatype 'v component_cmd = InsertCmd component_id 'v | RemoveCmd component_id

datatype 'v command =
    SpawnCmd archetype_id u32
  | DespawnCmd target
  | TypedCmd target "'v component_cmd"
  | SpawnBundleCmd "(component_id \<times> 'v) list" u32

record 'v command_buffer =
  cb_commands :: "'v command list"
  cb_next_token :: u32

definition command_buffer_new :: "'v command_buffer" where
  "command_buffer_new = \<lparr>cb_commands = [], cb_next_token = 0\<rparr>"

definition push_command :: "'v command \<Rightarrow> 'v command_buffer \<Rightarrow> 'v command_buffer" where
  "push_command c b = b\<lparr>cb_commands := cb_commands b @ [c]\<rparr>"

definition clear_commands :: "'v command_buffer \<Rightarrow> 'v command_buffer" where
  "clear_commands b = b\<lparr>cb_commands := []\<rparr>"

text \<open>The handle of an entity in the buffer: its target, and what \<open>id()\<close> answers.\<close>

type_synonym entity_commands = "target \<times> entity"

definition cmd_spawn :: "archetype_id \<Rightarrow> 'v command_buffer \<Rightarrow> entity_commands \<times> 'v command_buffer" where
  "cmd_spawn arch b =
     (let token = cb_next_token b
      in ((Token token, PLACEHOLDER),
          push_command (SpawnCmd arch token) (b\<lparr>cb_next_token := saturating_succ (cb_next_token b)\<rparr>)))"

definition cmd_spawn_bundle ::
  "(component_id \<times> 'v) list \<Rightarrow> 'v command_buffer \<Rightarrow> entity_commands \<times> 'v command_buffer" where
  "cmd_spawn_bundle bundle b =
     (let token = cb_next_token b
      in ((Token token, PLACEHOLDER),
          push_command (SpawnBundleCmd bundle token) (b\<lparr>cb_next_token := saturating_succ (cb_next_token b)\<rparr>)))"

definition cmd_entity :: "entity \<Rightarrow> 'v command_buffer \<Rightarrow> entity_commands \<times> 'v command_buffer" where
  "cmd_entity e b = ((Known e, e), b)"

definition ec_id :: "entity_commands \<Rightarrow> entity" where
  "ec_id ec = snd ec"

definition ec_insert :: "entity_commands \<Rightarrow> component_id \<Rightarrow> 'v \<Rightarrow> 'v command_buffer \<Rightarrow> 'v command_buffer" where
  "ec_insert ec c v = push_command (TypedCmd (fst ec) (InsertCmd c v))"

definition ec_remove :: "entity_commands \<Rightarrow> component_id \<Rightarrow> 'v command_buffer \<Rightarrow> 'v command_buffer" where
  "ec_remove ec c = push_command (TypedCmd (fst ec) (RemoveCmd c))"

definition ec_despawn :: "entity_commands \<Rightarrow> 'v command_buffer \<Rightarrow> 'v command_buffer" where
  "ec_despawn ec = push_command (DespawnCmd (fst ec))"

definition cmd_despawn :: "entity \<Rightarrow> 'v command_buffer \<Rightarrow> 'v command_buffer" where
  "cmd_despawn e = push_command (DespawnCmd (Known e))"

definition cmd_insert :: "entity \<Rightarrow> component_id \<Rightarrow> 'v \<Rightarrow> 'v command_buffer \<Rightarrow> 'v command_buffer" where
  "cmd_insert e c v = push_command (TypedCmd (Known e) (InsertCmd c v))"

definition cmd_remove :: "entity \<Rightarrow> component_id \<Rightarrow> 'v command_buffer \<Rightarrow> 'v command_buffer" where
  "cmd_remove e c = push_command (TypedCmd (Known e) (RemoveCmd c))"

section \<open>Running the buffer\<close>

definition resolve_target :: "(u32 \<rightharpoonup> entity) \<Rightarrow> target \<Rightarrow> entity option" where
  "resolve_target m t = (case t of Token k \<Rightarrow> m k | Known e \<Rightarrow> Some e)"

definition apply_typed :: "'v component_registry \<Rightarrow> 'v component_cmd \<Rightarrow> entity \<Rightarrow> 'v world \<Rightarrow> 'v world" where
  "apply_typed rg cmd e w =
     (case cmd of
        InsertCmd c v \<Rightarrow> (case insert_component rg e c v w of Inl _ \<Rightarrow> w | Inr w' \<Rightarrow> w')
      | RemoveCmd c \<Rightarrow> snd (remove_component rg e c w))"

fun apply_commands ::
  "'v component_registry \<Rightarrow> 'v command list \<Rightarrow> (u32 \<rightharpoonup> entity) \<Rightarrow> 'v world \<Rightarrow> 'v world option" where
  "apply_commands rg [] m w = Some w"
| "apply_commands rg (SpawnCmd arch token # cs) m w =
     (case spawn rg arch w of None \<Rightarrow> None | Some (e, w') \<Rightarrow> apply_commands rg cs (m(token \<mapsto> e)) w')"
| "apply_commands rg (SpawnBundleCmd bundle token # cs) m w =
     (case bundle_spawn rg bundle w of None \<Rightarrow> None | Some (e, w') \<Rightarrow> apply_commands rg cs (m(token \<mapsto> e)) w')"
| "apply_commands rg (DespawnCmd t # cs) m w =
     apply_commands rg cs m (case resolve_target m t of None \<Rightarrow> w | Some e \<Rightarrow> snd (despawn e w))"
| "apply_commands rg (TypedCmd t cmd # cs) m w =
     apply_commands rg cs m (case resolve_target m t of None \<Rightarrow> w | Some e \<Rightarrow> apply_typed rg cmd e w)"

definition buffer_apply ::
  "'v component_registry \<Rightarrow> 'v command_buffer \<Rightarrow> 'v world \<Rightarrow> ('v command_buffer \<times> 'v world) option" where
  "buffer_apply rg b w =
     (if cb_commands b = [] then Some (b, w)
      else map_option (\<lambda>w'. (clear_commands b, w')) (apply_commands rg (cb_commands b) Map.empty w))"

section \<open>Deferred is the same as at once\<close>

text \<open>What a system can write: a handle is borrowed from the buffer, so the commands on one entity are
  queued before the next handle is had.\<close>

datatype 'v chain_op = ChainInsert component_id 'v | ChainRemove component_id | ChainDespawn

datatype 'v segment =
    OnSpawn archetype_id "'v chain_op list"
  | OnBundle "(component_id \<times> 'v) list" "'v chain_op list"
  | OnEntity entity "'v chain_op list"

definition queue_chain :: "entity_commands \<Rightarrow> 'v chain_op list \<Rightarrow> 'v command_buffer \<Rightarrow> 'v command_buffer" where
  "queue_chain ec = fold (\<lambda>op. case op of
     ChainInsert c v \<Rightarrow> ec_insert ec c v | ChainRemove c \<Rightarrow> ec_remove ec c | ChainDespawn \<Rightarrow> ec_despawn ec)"

definition queue_segment :: "'v segment \<Rightarrow> 'v command_buffer \<Rightarrow> 'v command_buffer" where
  "queue_segment seg b =
     (case seg of
        OnSpawn arch ops \<Rightarrow> (case cmd_spawn arch b of (ec, b') \<Rightarrow> queue_chain ec ops b')
      | OnBundle bundle ops \<Rightarrow> (case cmd_spawn_bundle bundle b of (ec, b') \<Rightarrow> queue_chain ec ops b')
      | OnEntity e ops \<Rightarrow> (case cmd_entity e b of (ec, b') \<Rightarrow> queue_chain ec ops b'))"

definition chain_do :: "'v component_registry \<Rightarrow> entity \<Rightarrow> 'v chain_op list \<Rightarrow> 'v world \<Rightarrow> 'v world" where
  "chain_do rg e = fold (\<lambda>op w. case op of
     ChainInsert c v \<Rightarrow> apply_typed rg (InsertCmd c v) e w
   | ChainRemove c \<Rightarrow> apply_typed rg (RemoveCmd c) e w
   | ChainDespawn \<Rightarrow> snd (despawn e w))"

definition segment_do :: "'v component_registry \<Rightarrow> 'v segment \<Rightarrow> 'v world \<Rightarrow> 'v world option" where
  "segment_do rg seg w =
     (case seg of
        OnSpawn arch ops \<Rightarrow> map_option (\<lambda>(e, w'). chain_do rg e ops w') (spawn rg arch w)
      | OnBundle bundle ops \<Rightarrow> map_option (\<lambda>(e, w'). chain_do rg e ops w') (bundle_spawn rg bundle w)
      | OnEntity e ops \<Rightarrow> Some (chain_do rg e ops w))"

fun segments_do :: "'v component_registry \<Rightarrow> 'v segment list \<Rightarrow> 'v world \<Rightarrow> 'v world option" where
  "segments_do rg [] w = Some w"
| "segments_do rg (s # ss) w = Option.bind (segment_do rg s w) (segments_do rg ss)"

definition chain_commands :: "target \<Rightarrow> 'v chain_op list \<Rightarrow> 'v command list" where
  "chain_commands t = map (\<lambda>op. case op of
     ChainInsert c v \<Rightarrow> TypedCmd t (InsertCmd c v) | ChainRemove c \<Rightarrow> TypedCmd t (RemoveCmd c) | ChainDespawn \<Rightarrow> DespawnCmd t)"

lemmas queue_defs = ec_insert_def ec_remove_def ec_despawn_def push_command_def

lemma queue_chain_commands: "queue_chain ec ops b = b\<lparr>cb_commands := cb_commands b @ chain_commands (fst ec) ops\<rparr>"
  by (induction ops arbitrary: b)
    (auto simp: queue_chain_def chain_commands_def queue_defs split: chain_op.splits)

lemma apply_chain:
  "resolve_target m t = Some e \<Longrightarrow>
   apply_commands rg (chain_commands t ops @ cs) m w = apply_commands rg cs m (chain_do rg e ops w)"
  by (induction ops arbitrary: w) (auto simp: chain_commands_def chain_do_def split: chain_op.splits)

text \<open>The commands of one segment, from the token that is next.\<close>

definition segment_commands :: "u32 \<Rightarrow> 'v segment \<Rightarrow> 'v command list" where
  "segment_commands k seg =
     (case seg of
        OnSpawn arch ops \<Rightarrow> SpawnCmd arch k # chain_commands (Token k) ops
      | OnBundle bundle ops \<Rightarrow> SpawnBundleCmd bundle k # chain_commands (Token k) ops
      | OnEntity e ops \<Rightarrow> chain_commands (Known e) ops)"

lemma queue_segment_commands:
  "cb_commands (queue_segment seg b) = cb_commands b @ segment_commands (cb_next_token b) seg"
  by (cases seg) (simp_all add: queue_segment_def segment_commands_def cmd_spawn_def cmd_spawn_bundle_def cmd_entity_def
      queue_chain_commands push_command_def Let_def)

lemma apply_chain_token:
  "apply_commands rg (chain_commands (Token k) ops @ cs) (m(k \<mapsto> e)) w =
   apply_commands rg cs (m(k \<mapsto> e)) (chain_do rg e ops w)"
  by (rule apply_chain) (simp add: resolve_target_def)

lemma apply_chain_known:
  "apply_commands rg (chain_commands (Known e) ops @ cs) m w = apply_commands rg cs m (chain_do rg e ops w)"
  by (rule apply_chain) (simp add: resolve_target_def)

lemma apply_segment:
  "\<exists>m'. apply_commands rg (segment_commands k seg @ cs) m w = Option.bind (segment_do rg seg w) (apply_commands rg cs m')"
proof (cases seg)
  case (OnSpawn arch ops)
  show ?thesis
  proof (cases "spawn rg arch w")
    case (Some p)
    obtain e w' where p: "p = (e, w')" by (cases p)
    show ?thesis
      by (intro exI [of _ "m(k \<mapsto> e)"])
        (simp add: OnSpawn segment_commands_def segment_do_def apply_chain_token Some p)
  qed (simp add: OnSpawn segment_commands_def segment_do_def)
next
  case (OnBundle bs ops)
  show ?thesis
  proof (cases "bundle_spawn rg bs w")
    case (Some p)
    obtain e w' where p: "p = (e, w')" by (cases p)
    show ?thesis
      by (intro exI [of _ "m(k \<mapsto> e)"])
        (simp add: OnBundle segment_commands_def segment_do_def apply_chain_token Some p)
  qed (simp add: OnBundle segment_commands_def segment_do_def)
next
  case (OnEntity e ops)
  show ?thesis
    by (intro exI [of _ m]) (simp add: OnEntity segment_commands_def segment_do_def apply_chain_known)
qed

lemma apply_queued:
  "\<exists>cs. cb_commands (fold queue_segment segs b) = cb_commands b @ cs \<and>
     (\<forall>m w. apply_commands rg cs m w = segments_do rg segs w)"
proof (induction segs arbitrary: b)
  case (Cons s ss)
  obtain cs where cs: "cb_commands (fold queue_segment ss (queue_segment s b)) = cb_commands (queue_segment s b) @ cs"
    "\<And>m w. apply_commands rg cs m w = segments_do rg ss w"
    using Cons.IH by blast
  have "apply_commands rg (segment_commands (cb_next_token b) s @ cs) m w = segments_do rg (s # ss) w" for m w
  proof -
    obtain m' where "apply_commands rg (segment_commands (cb_next_token b) s @ cs) m w =
        Option.bind (segment_do rg s w) (apply_commands rg cs m')"
      using apply_segment by blast
    moreover have "apply_commands rg cs m' = segments_do rg ss" by (rule ext) (rule cs(2))
    ultimately show ?thesis by simp
  qed
  then show ?case using cs(1) by (auto simp: queue_segment_commands)
qed simp

text \<open>The placeholder that \<open>id()\<close> gives for a queued spawn is a real handle: the first entity of kind 0.\<close>

lemma placeholder_of_spawn: "ec_id (fst (cmd_spawn arch b)) = PLACEHOLDER"
  by (simp add: ec_id_def cmd_spawn_def Let_def)

lemma first_entity_is_placeholder: "map_option fst (spawn_empty_with rg 0 world_new) = Some PLACEHOLDER"
  by (simp add: spawn_empty_with_def world_new_def Let_def spawn_def empty_storage_def arena_allocate_def arena_of_def
      arena_new_def type_allocate_def type_arena_new_def PLACEHOLDER_def)

end
