(* ===== verification/Registry_Sync.thy ===== *)
theory Registry_Sync
  imports Text_Component Packets_Login "HOL-Library.List_Lexorder" "HOL-Library.Multiset"
begin

text \<open>
  The registries and tags that the server sends during the configuration phase
  (\<open>resource/registries/nbt.rs\<close>): the conversion of TOML values to NBT, one packet per registry, and the
  packet of the tags. A TOML table is the list of its entries in the order the library iterates; a date is
  its printed form; the printed form of a float is the argument \<open>show_float\<close>, a function of the standard
  library. A hash map is the list of its entries in the order of an iteration.
\<close>

section \<open>Numbers as text\<close>

fun decimal :: "nat \<Rightarrow> rstring" where
  "decimal n = (if n < 10 then [word_of_nat (48 + n)] else decimal (n div 10) @ [word_of_nat (48 + n mod 10)])"

declare decimal.simps [simp del]

definition show_int :: "int \<Rightarrow> rstring" where
  "show_int i = (if i < 0 then str ''-'' @ decimal (nat (- i)) else decimal (nat i))"

lemma decimal_ascii: "b \<in> set (decimal n) \<Longrightarrow> b \<le> 0x7F"
proof (induction n rule: decimal.induct)
  case (1 n)
  have d: "m < 10 \<Longrightarrow> (word_of_nat (48 + m) :: u8) \<le> 0x7F" for m
    by (simp only: word_le_nat_alt unsigned_of_nat take_bit_eq_mod) simp
  show ?case using 1 d [of n] d [of "n mod 10"] by (subst (asm) (2) decimal.simps) (auto split: if_splits)
qed

lemma length_decimal: "n < 10 ^ k \<Longrightarrow> 0 < k \<Longrightarrow> length (decimal n) \<le> k"
proof (induction k arbitrary: n)
  case (Suc k)
  show ?case
  proof (cases "n < 10")
    case True
    then show ?thesis by (subst decimal.simps) simp
  next
    case False
    then have "n div 10 < 10 ^ k" "0 < k" using Suc.prems by (cases k; simp)+
    then show ?thesis using False Suc.IH [of "n div 10"] by (subst decimal.simps) simp
  qed
qed simp

lemma decimal_valid: "utf8_valid (decimal n)"
  by (rule utf8_valid_ascii) (auto dest: decimal_ascii)

lemma show_int_ok:
  assumes "\<bar>i\<bar> < 10 ^ 20"
  shows "utf8_valid (show_int i)" "length (show_int i) \<le> 21"
proof -
  have "nat i < 10 ^ 20" "nat (- i) < 10 ^ 20" using assms by (simp_all add: nat_less_iff)
  then show "length (show_int i) \<le> 21"
    using length_decimal [of "nat i" 20] length_decimal [of "nat (- i)" 20] by (auto simp: show_int_def str_def)
  show "utf8_valid (show_int i)"
    by (rule utf8_valid_ascii) (auto simp: show_int_def str_def dest: decimal_ascii)
qed

section \<open>From TOML to NBT\<close>

datatype toml = TomlString rstring | TomlInteger i64 | TomlFloat f64 | TomlBoolean bool | TomlDatetime rstring
  | TomlArray "toml list" | TomlTable "(rstring \<times> toml) list"

definition counted :: "string \<Rightarrow> nat \<Rightarrow> rstring" where
  "counted what n = str what @ str ''('' @ decimal n @ str '')''"

definition tag_to_string :: "(f64 \<Rightarrow> rstring) \<Rightarrow> (f32 \<Rightarrow> rstring) \<Rightarrow> nbt_tag \<Rightarrow> rstring" where
  "tag_to_string show_double show_float tag =
     (case tag of
        NbtByte v \<Rightarrow> show_int (sint v)
      | NbtShort v \<Rightarrow> show_int (sint v)
      | NbtInt v \<Rightarrow> show_int (sint v)
      | NbtLong v \<Rightarrow> show_int (sint v)
      | NbtFloat v \<Rightarrow> show_float v
      | NbtDouble v \<Rightarrow> show_double v
      | NbtString v \<Rightarrow> v
      | NbtByteArray vs \<Rightarrow> counted ''byte_array'' (length vs)
      | NbtList vs \<Rightarrow> counted ''list'' (length vs)
      | NbtCompound vs \<Rightarrow> counted ''compound'' (length vs)
      | NbtIntArray vs \<Rightarrow> counted ''int_array'' (length vs)
      | NbtLongArray vs \<Rightarrow> counted ''long_array'' (length vs))"

text \<open>The discriminant of a tag is its constructor, which \<open>tag_id_of\<close> tells.\<close>

definition tags_to_list :: "(f64 \<Rightarrow> rstring) \<Rightarrow> (f32 \<Rightarrow> rstring) \<Rightarrow> nbt_tag list \<Rightarrow> nbt_tag" where
  "tags_to_list show_double show_float tags =
     (case tags of
        [] \<Rightarrow> NbtList []
      | t # _ \<Rightarrow>
          if list_all (\<lambda>u. tag_id_of u = tag_id_of t) tags then NbtList tags
          else NbtList (map (\<lambda>u. NbtString (tag_to_string show_double show_float u)) tags))"

fun toml_value_to_nbt :: "(f64 \<Rightarrow> rstring) \<Rightarrow> (f32 \<Rightarrow> rstring) \<Rightarrow> toml \<Rightarrow> nbt_tag" where
  "toml_value_to_nbt sd sf (TomlString s) = NbtString s"
| "toml_value_to_nbt sd sf (TomlInteger n) =
     (if - (2 ^ 31) \<le> sint n \<and> sint n < 2 ^ 31 then NbtInt (word_of_int (sint n)) else NbtLong n)"
| "toml_value_to_nbt sd sf (TomlFloat x) = NbtDouble x"
| "toml_value_to_nbt sd sf (TomlBoolean b) = NbtByte (if b then 1 else 0)"
| "toml_value_to_nbt sd sf (TomlArray vs) = tags_to_list sd sf (map (toml_value_to_nbt sd sf) vs)"
| "toml_value_to_nbt sd sf (TomlTable es) = NbtCompound (map (\<lambda>(k, v). (k, toml_value_to_nbt sd sf v)) es)"
| "toml_value_to_nbt sd sf (TomlDatetime d) = NbtString d"

definition registry_compound :: "(f64 \<Rightarrow> rstring) \<Rightarrow> (f32 \<Rightarrow> rstring) \<Rightarrow> toml \<Rightarrow> nbt_tag" where
  "registry_compound sd sf v =
     (case toml_value_to_nbt sd sf v of
        NbtCompound es \<Rightarrow> NbtCompound (filter (\<lambda>(k, _). k \<noteq> str ''name'' \<and> k \<noteq> str ''id'') es)
      | _ \<Rightarrow> NbtCompound [])"

section \<open>Registries\<close>

record snapshot_registry =
  sr_registry_id :: rstring
  sr_entries :: "(rstring \<times> toml) list"

definition registry_packet_entry ::
  "(f64 \<Rightarrow> rstring) \<Rightarrow> (f32 \<Rightarrow> rstring) \<Rightarrow> rstring \<times> toml \<Rightarrow> registry_entry option" where
  "registry_packet_entry sd sf e =
     (case encode_anonymous (registry_compound sd sf (snd e)) of
        Inl _ \<Rightarrow> None
      | Inr bytes \<Rightarrow> Some \<lparr>re_key = fst e, re_value = Some bytes\<rparr>)"

definition registry_data_packets ::
  "(f64 \<Rightarrow> rstring) \<Rightarrow> (f32 \<Rightarrow> rstring) \<Rightarrow> snapshot_registry list \<Rightarrow> registry_data list" where
  "registry_data_packets sd sf snapshot = List.map_filter (\<lambda>r.
     if sr_entries r = [] then None
     else Some \<lparr>rd_registry_id = sr_registry_id r,
                rd_entries = List.map_filter (registry_packet_entry sd sf) (sr_entries r)\<rparr>) snapshot"

section \<open>Tags\<close>

type_synonym tag_table = "(rstring \<times> rstring list) list"

definition starts_hash :: "rstring \<Rightarrow> bool" where
  "starts_hash s \<longleftrightarrow> take 1 s = str ''#''"

definition member_names :: "tag_table \<Rightarrow> rstring list" where
  "member_names tags = remdups (sort (filter (\<lambda>v. \<not> starts_hash v) (concat (map snd tags))))"

definition build_member_id_map :: "tag_table \<Rightarrow> rstring \<rightharpoonup> i32" where
  "build_member_id_map tags =
     map_of (map (\<lambda>(i, n). (n, word_of_nat i)) (filter (\<lambda>(i, n). i < 2 ^ 31) (enumerate 0 (member_names tags))))"

definition update_tags_packet :: "tag_table \<Rightarrow> update_tags" where
  "update_tags_packet tags =
     (let ids = build_member_id_map tags;
          entries = map (\<lambda>(name, vs). \<lparr>te_identifier = name,
                      te_entries = List.map_filter ids (filter (\<lambda>v. \<not> starts_hash v) vs)\<rparr>) tags
      in \<lparr>ut_registries = [\<lparr>tr_registry = str ''minecraft:block'', tr_tags = sort_key te_identifier entries\<rparr>]\<rparr>)"

section \<open>The values can be read back\<close>

text \<open>Strings and counts within the range of the format.\<close>

fun toml_ok :: "toml \<Rightarrow> bool" where
  "toml_ok (TomlString s) = (utf8_valid s \<and> length s < 2 ^ 31)"
| "toml_ok (TomlInteger n) = True"
| "toml_ok (TomlFloat x) = True"
| "toml_ok (TomlBoolean b) = True"
| "toml_ok (TomlDatetime d) = (utf8_valid d \<and> length d < 2 ^ 31)"
| "toml_ok (TomlArray vs) = (length vs < 2 ^ 31 \<and> list_all toml_ok vs)"
| "toml_ok (TomlTable es) = (length es < 2 ^ 31 \<and> list_all (\<lambda>e. utf8_valid (fst e) \<and> length (fst e) < 2 ^ 31 \<and> toml_ok (snd e)) es)"

definition show_ok :: "('a \<Rightarrow> rstring) \<Rightarrow> bool" where
  "show_ok sh \<longleftrightarrow> (\<forall>x. utf8_valid (sh x) \<and> length (sh x) < 2 ^ 31)"

text \<open>The tags that TOML values become.\<close>

fun small_tag :: "nbt_tag \<Rightarrow> bool" where
  "small_tag (NbtString v) = (utf8_valid v \<and> length v < 2 ^ 31)"
| "small_tag (NbtList vs) = (length vs < 2 ^ 31)"
| "small_tag (NbtCompound vs) = (length vs < 2 ^ 31)"
| "small_tag (NbtByteArray vs) = (length vs < 2 ^ 31)"
| "small_tag (NbtIntArray vs) = (length vs < 2 ^ 31)"
| "small_tag (NbtLongArray vs) = (length vs < 2 ^ 31)"
| "small_tag _ = True"

lemma counted_ok:
  assumes "n < 2 ^ 31" and "what \<in> {''byte_array'', ''list'', ''compound'', ''int_array'', ''long_array''}"
  shows "utf8_valid (counted what n) \<and> length (counted what n) < 2 ^ 31"
proof -
  have "n < 10 ^ 10" using assms(1) by simp
  then have "length (decimal n) \<le> 10" by (rule length_decimal) simp
  moreover have "length (str what) \<le> 10" "\<forall>b \<in> set (str what). b \<le> 0x7F" using assms(2) by (auto simp: str_def)
  ultimately show ?thesis
    by (auto simp: counted_def str_def intro!: utf8_valid_ascii dest: decimal_ascii)
qed

lemma show_word_ok: "utf8_valid (show_int (sint (w :: 'a::len word))) \<and> length (show_int (sint w)) < 2 ^ 31"
  if "LENGTH('a) \<le> 64"
proof -
  have "\<bar>sint w\<bar> \<le> 2 ^ (LENGTH('a) - 1)" using sint_ge [of w] sint_lt [of w] by linarith
  also have "\<dots> \<le> (2 :: int) ^ 63" using that by (intro power_increasing) simp_all
  finally have "\<bar>sint w\<bar> < 10 ^ 20" by simp
  from show_int_ok [OF this] show ?thesis by simp
qed

lemma tag_to_string_ok:
  assumes "small_tag t" and "show_ok sd" and "show_ok sf"
  shows "utf8_valid (tag_to_string sd sf t) \<and> length (tag_to_string sd sf t) < 2 ^ 31"
proof (cases t)
  case (NbtByte v)
  then show ?thesis using show_word_ok [of v] by (simp add: tag_to_string_def)
next
  case (NbtShort v)
  then show ?thesis using show_word_ok [of v] by (simp add: tag_to_string_def)
next
  case (NbtInt v)
  then show ?thesis using show_word_ok [of v] by (simp add: tag_to_string_def)
next
  case (NbtLong v)
  then show ?thesis using show_word_ok [of v] by (simp add: tag_to_string_def)
qed (use assms counted_ok in \<open>simp_all add: tag_to_string_def show_ok_def\<close>)

lemma toml_to_wf:
  assumes "show_ok sd" and "show_ok sf" and "toml_ok v"
  shows "wf_tag (toml_value_to_nbt sd sf v) \<and> small_tag (toml_value_to_nbt sd sf v)"
  using assms(3)
proof (induction v)
  case (TomlArray vs)
  let ?ts = "map (toml_value_to_nbt sd sf) vs"
  have ts: "\<forall>t \<in> set ?ts. wf_tag t \<and> small_tag t" using TomlArray by (auto simp: list_all_iff)
  have len: "length ?ts < 2 ^ 31" using TomlArray.prems by simp
  show ?case
  proof (cases ?ts)
    case (Cons t us)
    show ?thesis
    proof (cases "list_all (\<lambda>u. tag_id_of u = tag_id_of t) ?ts")
      case True
      then show ?thesis using ts len Cons by (simp add: tags_to_list_def list_all_iff)
    next
      case False
      then have l: "toml_value_to_nbt sd sf (TomlArray vs) = NbtList (map (\<lambda>u. NbtString (tag_to_string sd sf u)) ?ts)"
        using Cons by (simp add: tags_to_list_def)
      show ?thesis
        unfolding l using ts len tag_to_string_ok [OF _ assms(1,2)] Cons
        by (auto simp: list_all_iff tag_id_of_def)
    qed
  qed (simp add: tags_to_list_def)
next
  case (TomlTable es)
  have "wf_tag (toml_value_to_nbt sd sf (snd e))" if "e \<in> set es" for e
    using TomlTable.IH [OF that, of "snd e"] TomlTable.prems that by (cases e) (auto simp: list_all_iff)
  then have "wf_tag (toml_value_to_nbt sd sf v)" if "(k, v) \<in> set es" for k v using that by fastforce
  moreover have "utf8_valid k \<and> length k < 2 ^ 31" if "(k, v) \<in> set es" for k v
    using TomlTable.prems that by (fastforce simp: list_all_iff)
  ultimately have "list_all wf_entry (map (\<lambda>(k, v). (k, toml_value_to_nbt sd sf v)) es)"
    by (fastforce simp: list_all_iff wf_entry_def)
  then show ?case using TomlTable.prems by simp
qed auto

lemma registry_compound_wf:
  assumes "show_ok sd" and "show_ok sf" and "toml_ok v"
  shows "\<exists>es. registry_compound sd sf v = NbtCompound es \<and> wf_tag (NbtCompound es)"
  using toml_to_wf [OF assms] by (cases "toml_value_to_nbt sd sf v") (auto simp: registry_compound_def list_all_iff)

definition snapshot_ok :: "snapshot_registry list \<Rightarrow> bool" where
  "snapshot_ok snap \<longleftrightarrow> (\<forall>r \<in> set snap. \<forall>e \<in> set (sr_entries r). toml_ok (snd e))"

lemma registry_entry_readable:
  assumes "show_ok sd" and "show_ok sf" and "toml_ok (snd e)"
  shows "\<exists>bytes. registry_packet_entry sd sf e = Some \<lparr>re_key = fst e, re_value = Some bytes\<rparr> \<and>
    decode_anonymous bytes = Inr (registry_compound sd sf (snd e), length bytes)"
proof -
  obtain es where es: "registry_compound sd sf (snd e) = NbtCompound es" "wf_tag (NbtCompound es)"
    using registry_compound_wf [OF assms] by blast
  obtain bs where "encode_anonymous (NbtCompound es) = Inr bs"
      "\<And>rest. decode_anonymous (bs @ rest) = Inr (NbtCompound es, length bs)"
    using anonymous_roundtrip [OF es(2)] by blast
  then show ?thesis using es(1) by (simp add: registry_packet_entry_def) (metis append_Nil2)
qed

text \<open>No registry with entries and no entry is left out, and each carries its compound.\<close>

definition entry_read :: "registry_entry \<Rightarrow> nbt_failure + (nbt_tag \<times> nat)" where
  "entry_read e = (case re_value e of None \<Rightarrow> Inl OutOfFuel | Some bytes \<Rightarrow> decode_anonymous bytes)"

lemma map_filter_total: "\<forall>x \<in> set xs. f x \<noteq> None \<Longrightarrow> List.map_filter f xs = map (\<lambda>x. the (f x)) xs"
  by (induction xs) (auto simp: List.map_filter_simps)

lemma registry_packets_complete:
  assumes "show_ok sd" and "show_ok sf" and "snapshot_ok snap"
  shows "map (\<lambda>p. (rd_registry_id p, map (\<lambda>e. (re_key e, map_sum id fst (entry_read e))) (rd_entries p)))
      (registry_data_packets sd sf snap) =
    map (\<lambda>r. (sr_registry_id r, map (\<lambda>e. (fst e, Inr (registry_compound sd sf (snd e)))) (sr_entries r)))
      (filter (\<lambda>r. sr_entries r \<noteq> []) snap)"
proof -
  have entries: "map (\<lambda>e. (re_key e, map_sum id fst (entry_read e))) (List.map_filter (registry_packet_entry sd sf) es) =
      map (\<lambda>e. (fst e, Inr (registry_compound sd sf (snd e)))) es" if "\<forall>e \<in> set es. toml_ok (snd e)" for es
  proof -
    have r: "\<exists>bytes. registry_packet_entry sd sf e = Some \<lparr>re_key = fst e, re_value = Some bytes\<rparr> \<and>
        decode_anonymous bytes = Inr (registry_compound sd sf (snd e), length bytes)" if "e \<in> set es" for e
      using registry_entry_readable [OF assms(1,2)] \<open>\<forall>e \<in> set es. toml_ok (snd e)\<close> that by blast
    then have "List.map_filter (registry_packet_entry sd sf) es = map (\<lambda>e. the (registry_packet_entry sd sf e)) es"
      by (intro map_filter_total) auto
    moreover have "map (\<lambda>e. (re_key e, map_sum id fst (entry_read e))) (map (\<lambda>e. the (registry_packet_entry sd sf e)) es) =
        map (\<lambda>e. (fst e, Inr (registry_compound sd sf (snd e)))) es"
      unfolding map_map
    proof (rule map_cong [OF refl])
      fix e assume "e \<in> set es"
      from r [OF this] show "((\<lambda>e. (re_key e, map_sum id fst (entry_read e))) \<circ> (\<lambda>e. the (registry_packet_entry sd sf e))) e =
          (fst e, Inr (registry_compound sd sf (snd e)))"
        by (auto simp: entry_read_def)
    qed
    ultimately show ?thesis by simp
  qed
  show ?thesis
    using assms(3)
    by (induction snap) (auto simp: registry_data_packets_def List.map_filter_simps snapshot_ok_def entries)
qed

section \<open>The order of the hash map does not matter\<close>

lemma sort_key_unique:
  assumes "mset xs = mset ys" and "inj_on f (set xs)"
  shows "sort_key f xs = sort_key f ys"
  using assms by (intro sort_key_inj_key_eq) simp_all

lemma member_names_perm: "mset tags = mset tags' \<Longrightarrow> member_names tags = member_names tags'"
proof -
  assume m: "mset tags = mset tags'"
  have "mset (concat (map snd tags)) = mset (concat (map snd tags'))"
    by (simp only: mset_concat mset_map image_mset.compositionality m flip: sum_mset_sum_list)
  then have "mset (filter (\<lambda>v. \<not> starts_hash v) (concat (map snd tags))) =
      mset (filter (\<lambda>v. \<not> starts_hash v) (concat (map snd tags')))"
    by (simp only: mset_filter)
  from sort_key_unique [OF this, of "\<lambda>x. x"] show ?thesis by (simp add: member_names_def)
qed

lemma update_tags_deterministic:
  assumes "mset tags = mset tags'" and "distinct (map fst tags)"
  shows "update_tags_packet tags = update_tags_packet tags'"
proof -
  let ?f = "\<lambda>(name, vs). \<lparr>te_identifier = name,
    te_entries = List.map_filter (build_member_id_map tags) (filter (\<lambda>v. \<not> starts_hash v) vs)\<rparr>"
  have ids: "build_member_id_map tags' = build_member_id_map tags"
    using member_names_perm [OF assms(1)] by (simp add: build_member_id_map_def)
  have "inj_on te_identifier (set (map ?f tags))"
    using assms(2) by (fastforce simp: inj_on_def distinct_map split: prod.splits)
  moreover have "mset (map ?f tags) = mset (map ?f tags')" using assms(1) by simp
  ultimately have "sort_key te_identifier (map ?f tags) = sort_key te_identifier (map ?f tags')"
    by (intro sort_key_unique)
  then show ?thesis unfolding update_tags_packet_def Let_def ids by simp
qed

end
