(* ===== verification/Client_Codec.thy ===== *)
theory Client_Codec
  imports Packets_Play_B
begin

text \<open>
  What the clientbound packets share (\<open>protocol/packets/play.rs\<close>): pairs, text components and the place of
  an optional NBT value.
\<close>

text \<open>Two values one after the other.\<close>

definition get_pair :: "'a io \<Rightarrow> 'b io \<Rightarrow> ('a \<times> 'b) io" where
  "get_pair r q = bindE r (\<lambda>x. bindE q (\<lambda>y. ret (x, y)))"

definition put_pair :: "('a \<Rightarrow> unit io) \<Rightarrow> ('b \<Rightarrow> unit io) \<Rightarrow> 'a \<times> 'b \<Rightarrow> unit io" where
  "put_pair w u p = seqE (w (fst p)) (u (snd p))"

definition pair_wf :: "('a \<Rightarrow> bool) \<Rightarrow> ('b \<Rightarrow> bool) \<Rightarrow> 'a \<times> 'b \<Rightarrow> bool" where
  "pair_wf P Q p \<longleftrightarrow> P (fst p) \<and> Q (snd p)"

declare pair_wf_def [simp]

lemma carries_pair [carries_rules]:
  "carries (w (fst p)) r (fst p) \<Longrightarrow> carries (u (snd p)) q (snd p) \<Longrightarrow> carries (put_pair w u p) (get_pair r q) p"
  unfolding put_pair_def get_pair_def
  by (rule carries_bind, assumption, rule carries_tail, assumption) (simp add: carries_ret)

lemma safe_pair [safe_rules]: "cursor_safe r \<Longrightarrow> cursor_safe q \<Longrightarrow> cursor_safe (get_pair r q)"
  unfolding get_pair_def by (intro safe_rules)

text \<open>A text component: the compound tag and the NBT payload.\<close>

definition encode_component :: "component \<Rightarrow> unit io" where
  "encode_component c =
     (case encode_anonymous (to_nbt c) of
        Inl _ \<Rightarrow> throw UnexpectedEof
      | Inr nbt \<Rightarrow> seqE (put_u8 0x0A) (put_bytes nbt))"

definition decode_component :: "component io" where
  "decode_component =
     bindE get_u8 (\<lambda>tag_id.
       if tag_id \<noteq> 0x0A then throw InvalidValue
       else (\<lambda>b.
         if bb_pos b > length (bb_buf b) then (Inl UnexpectedEof, b)
         else (case decode_anonymous (drop (bb_pos b) (bb_buf b)) of
             Inl _ \<Rightarrow> (Inl UnexpectedEof, b)
           | Inr (tag, consumed) \<Rightarrow> seqE (get_bytes consumed)
               (case from_nbt tag of Inl _ \<Rightarrow> throw InvalidValue | Inr c \<Rightarrow> ret c) b)))"

lemma if_fun: "(if P then f else g) x = (if P then f x else g x)"
  by simp

lemma text_read_agrees:
  assumes "read_component b = (Inr c, b')"
  shows "decode_component b = (Inr c, b')"
proof -
  obtain tag b1 where n: "read_nbt_compound b = (Inr tag, b1)" and f: "from_nbt tag = Inr c" and b1: "b1 = b'"
    using assms
    by (auto simp: read_component_def bindE_def throw_def ret_def split: prod.splits sum.splits)
  obtain v b2 where u: "get_u8 b = (Inr v, b2)"
    using n by (auto simp: read_nbt_compound_def bindE_def split: prod.splits sum.splits)
  have v: "v = 0x0A"
    using n u by (auto simp: read_nbt_compound_def bindE_def if_fun throw_def split: if_splits)
  obtain n' where d: "decode_anonymous (drop (bb_pos b2) (bb_buf b2)) = Inr (tag, n')"
    and g: "get_bytes n' b2 = (Inr (drop (bb_pos b2) (take (bb_pos b2 + n') (bb_buf b2))), b1) \<or>
      (\<exists>w. get_bytes n' b2 = (Inr w, b1))" and l: "\<not> length (bb_buf b2) < bb_pos b2"
    using n u v
    by (auto simp: read_nbt_compound_def bindE_def if_fun ret_def
        split: prod.splits sum.splits if_splits nbt_failure.splits nbt_error.splits)
  then show ?thesis
    using u v f b1 by (auto simp: decode_component_def bindE_def if_fun ret_def)
qed

lemma carries_text [carries_rules]:
  assumes "wf_component c"
  shows "carries (encode_component c) decode_component c"
proof -
  obtain bs where w: "writes (write_nbt_compound (to_nbt c)) bs" and r: "reads read_component bs c"
    using carries_component [OF assms] by (auto simp: carries_def)
  have "writes (encode_component c) bs"
    using w by (auto simp: encode_component_def write_nbt_compound_def writes_def bindE_def put_end_def ret_def
        throw_def split: sum.splits)
  moreover have "reads decode_component bs c"
    using r text_read_agrees unfolding reads_def by metis
  ultimately show ?thesis by (auto simp: carries_def)
qed

lemma safe_text [safe_rules]: "cursor_safe decode_component"
  unfolding decode_component_def
proof (intro safe_bind safe_get_u8 safe_if safe_throw)
  show "cursor_safe (\<lambda>b. if bb_pos b > length (bb_buf b) then (Inl UnexpectedEof, b)
      else (case decode_anonymous (drop (bb_pos b) (bb_buf b)) of
          Inl _ \<Rightarrow> (Inl UnexpectedEof, b)
        | Inr (tag, consumed) \<Rightarrow> seqE (get_bytes consumed)
            (case from_nbt tag of Inl _ \<Rightarrow> throw InvalidValue | Inr c \<Rightarrow> ret c) b))"
    by (auto simp: cursor_safe_def bindE_def get_bytes_def get_range_def ret_def throw_def Let_def
        split: sum.splits)
qed

text \<open>The place of an optional NBT value: only its absence can be read back.\<close>

definition read_opt_nbt :: "u8 list option io" where
  "read_opt_nbt = bindE get_bool (\<lambda>b. if \<not> b then ret None else throw UnexpectedEof)"

definition write_opt_nbt :: "u8 list option \<Rightarrow> unit io" where
  "write_opt_nbt d = (case d of Some bs \<Rightarrow> seqE (put_bool True) (put_bytes bs) | None \<Rightarrow> put_bool False)"

lemma carries_play_opt_nbt [carries_rules]: "Option.is_none d \<Longrightarrow> carries (write_opt_nbt d) read_opt_nbt d"
  unfolding write_opt_nbt_def read_opt_nbt_def
  by (cases d) (auto intro!: carries_tail [OF carries_bool] carries_ret)

lemma safe_play_opt_nbt [safe_rules]: "cursor_safe read_opt_nbt"
  unfolding read_opt_nbt_def by (intro safe_rules)


section \<open>Reading until a step says stop\<close>

text \<open>A step gives an element or nothing and says whether to go on. The fuel is one more than the
  bytes that are left, enough because every step consumes a byte.\<close>

fun read_while :: "nat \<Rightarrow> ('a option \<times> bool) io \<Rightarrow> 'a list io" where
  "read_while 0 step = throw UnexpectedEof"
| "read_while (Suc n) step =
     bindE step (\<lambda>(x, go).
       if go then bindE (read_while n step) (\<lambda>xs. ret (case x of Some v \<Rightarrow> v # xs | None \<Rightarrow> xs))
       else ret (case x of Some v \<Rightarrow> [v] | None \<Rightarrow> []))"

definition get_while :: "('a option \<times> bool) io \<Rightarrow> 'a list io" where
  "get_while step = (\<lambda>b. read_while (remaining b + 1) step b)"

definition consuming :: "'a io \<Rightarrow> bool" where
  "consuming r \<longleftrightarrow> cursor_safe r \<and>
     (\<forall>b v b'. bb_pos b \<le> length (bb_buf b) \<longrightarrow> r b = (Inr v, b') \<longrightarrow> bb_pos b < bb_pos b')"

lemma consuming_u8: "consuming get_u8"
proof -
  have "bb_pos b < bb_pos b'" if "get_u8 b = (Inr v, b')" for b v b'
    using that by (auto simp: get_u8_def bb_peek_def bindE_def ret_def throw_def split: if_splits prod.splits sum.splits)
  then show ?thesis by (auto simp: consuming_def safe_get_u8)
qed

lemma consuming_bind:
  assumes "consuming r" and "\<And>v. cursor_safe (f v)"
  shows "consuming (bindE r f)"
proof -
  have "bb_pos b < bb_pos b'" if ok: "bb_pos b \<le> length (bb_buf b)" and run: "bindE r f b = (Inr v, b')" for b v b'
  proof -
    obtain u b1 where r: "r b = (Inr u, b1)" and f: "f u b1 = (Inr v, b')"
      using run by (auto simp: bindE_def split: prod.splits sum.splits)
    have "bb_pos b < bb_pos b1" using assms(1) ok r by (auto simp: consuming_def)
    moreover have "bb_pos b1 \<le> length (bb_buf b1)"
      using assms(1) ok r by (auto simp: consuming_def cursor_safe_def Let_def dest!: spec [of _ b])
    then have "bb_pos b1 \<le> bb_pos b'"
      using assms(2) [of u] f by (auto simp: cursor_safe_def Let_def dest!: spec [of _ b1])
    ultimately show ?thesis by simp
  qed
  then show ?thesis using assms by (auto simp: consuming_def intro: safe_bind)
qed

lemma read_while_fuel:
  assumes "consuming step" and "bb_pos b \<le> length (bb_buf b)" and "remaining b < n" and "remaining b < m"
  shows "read_while n step b = read_while m step b"
  using assms(2-4)
proof (induction n arbitrary: m b)
  case (Suc n)
  obtain k where m: "m = Suc k" using Suc.prems(3) by (cases m) auto
  show ?case
  proof (cases "step b")
    case (Pair r b1)
    show ?thesis
    proof (cases r)
      case (Inr v)
      obtain x go where v: "v = (x, go)" by (cases v)
      have s: "bb_buf b1 = bb_buf b" "bb_pos b1 \<le> length (bb_buf b1)" "bb_pos b < bb_pos b1"
        using assms(1) Suc.prems(1) Pair Inr
        by (auto simp: consuming_def cursor_safe_def Let_def dest!: spec [of _ b])
      then have "remaining b1 < remaining b" using Suc.prems(1) by (simp add: remaining_def)
      then have "read_while n step b1 = read_while k step b1"
        using Suc.IH [of b1 k] Suc.prems(2,3) s(2) m by simp
      then show ?thesis by (simp add: m bindE_def Pair Inr v)
    qed (simp add: m bindE_def Pair)
  qed
qed simp

lemma safe_read_while: "cursor_safe step \<Longrightarrow> cursor_safe (read_while n step)"
  by (induction n) (auto intro!: safe_rules split: prod.split)

lemma safe_while [safe_rules]:
  assumes "cursor_safe step"
  shows "cursor_safe (get_while step)"
  using safe_read_while [OF assms] unfolding get_while_def cursor_safe_def by blast

text \<open>A writer that the loop reads back at every fuel from some point on is read back by \<open>get_while\<close>.\<close>

lemma carries_while:
  assumes "consuming step" and "\<And>n. N \<le> n \<Longrightarrow> carries w (read_while n step) vs"
  shows "carries w (get_while step) vs"
proof -
  obtain bs where w: "writes w bs" using assms(2) [of N] by (auto simp: carries_def)
  have unique: "bs' = bs" if "writes w bs'" for bs'
    using w that unfolding writes_def by (auto dest!: spec [of _ "bb_new []"] simp: bb_new_def)
  have r: "reads (read_while n step) bs vs" if "N \<le> n" for n
    using assms(2) [OF that] unique by (auto simp: carries_def)
  have "get_while step (cursor pre (bs @ post)) = (Inr vs, cursor (pre @ bs) post)" for pre post
  proof -
    let ?b = "cursor pre (bs @ post)"
    have "read_while (remaining ?b + 1) step ?b = read_while (max N (remaining ?b + 1)) step ?b"
      by (rule read_while_fuel [OF assms(1)]) (auto simp: cursor_def)
    also have "\<dots> = (Inr vs, cursor (pre @ bs) post)"
      using r [of "max N (remaining ?b + 1)"] by (simp add: reads_def)
    finally show ?thesis by (simp add: get_while_def)
  qed
  then show ?thesis using w by (auto simp: carries_def reads_def)
qed

section \<open>Fields that are there when a flag says so\<close>

definition get_when :: "bool \<Rightarrow> 'a io \<Rightarrow> 'a option io" where
  "get_when c r = (if c then bindE r (\<lambda>v. ret (Some v)) else ret None)"

definition put_when :: "('a \<Rightarrow> unit io) \<Rightarrow> 'a option \<Rightarrow> unit io" where
  "put_when w x = (case x of Some v \<Rightarrow> w v | None \<Rightarrow> ret ())"

lemma carries_when [carries_rules]:
  assumes "c = (x \<noteq> None)" and "\<And>v. x = Some v \<Longrightarrow> carries (w v) r v"
  shows "carries (put_when w x) (get_when c r) x"
  using assms
  by (cases x) (auto simp: get_when_def put_when_def intro!: carries_ret intro: carries_tail)

lemma safe_when' [safe_rules]: "cursor_safe r \<Longrightarrow> cursor_safe (get_when c r)"
  unfolding get_when_def by (intro safe_rules)

lemma put_opt_when: "put_opt w x = seqE (put_bool (x \<noteq> None)) (put_when w x)"
  by (cases x) (auto simp: put_opt_def put_when_def bindE_def ret_def put_bool_def put_u8_def put_raw_def)

section \<open>A text in a compound tag\<close>

definition text_field :: "nbt_tag \<Rightarrow> rstring" where
  "text_field tag =
     (case tag of
        NbtCompound entries \<Rightarrow>
          (case find (\<lambda>(k, _). k = str ''text'') entries of Some (_, NbtString s) \<Rightarrow> s | _ \<Rightarrow> [])
      | _ \<Rightarrow> [])"

definition text_compound :: "rstring \<Rightarrow> nbt_tag" where
  "text_compound s = NbtCompound [(str ''text'', NbtString s)]"

definition wf_text :: "rstring \<Rightarrow> bool" where
  "wf_text s \<longleftrightarrow> wf_tag (text_compound s)"

lemma text_field_compound: "text_field (text_compound s) = s"
  by (simp add: text_field_def text_compound_def)

lemma text_encoding:
  assumes "wf_text s"
  obtains bs where "encode_anonymous (text_compound s) = Inr bs"
    and "\<And>rest. decode_anonymous (bs @ rest) = Inr (text_compound s, length bs)"
  using anonymous_roundtrip assms unfolding wf_text_def text_compound_def by blast

lemma get_rest_cursor: "get_rest (cursor pre bs) = (Inr bs, cursor (pre @ bs) [])"
  by (simp add: get_rest_def get_bytes_def get_range_def remaining_def cursor_def Let_def)


end
