(* ===== verification/Packets_Client_A.thy ===== *)
theory Packets_Client_A
  imports Client_Codec
begin

text \<open>
  Clientbound packets of the play phase, first part (\<open>protocol/packets/play.rs\<close>): entities, effects and
  attributes, blocks, light, sounds, tags and time. A packet is a record; its decoder reads the fields in the
  order of the wire, and each is an interpretation of \<open>packet_codec\<close>: what was encoded decodes to the same
  packet at any place of a stream, and nothing is read beyond it. \<open>wf_\<close> says which packets the code can
  carry: strings within the limit, lists whose length fits the count, coordinates that fit 26 and 12 bits.
\<close>

record system_chat_packet =
  scp_message :: rstring
  scp_overlay :: bool

definition system_chat_packet_id :: i32 where "system_chat_packet_id = 0x77"

text \<open>The last byte is the flag; what is before it is the compound.\<close>

definition get_text_before_last :: "rstring io" where
  "get_text_before_last = (\<lambda>b.
     if remaining b < 1 then (Inl UnexpectedEof, b)
     else bindE (get_bytes (remaining b - 1)) (\<lambda>nbt.
       case decode_anonymous nbt of
         Inl _ \<Rightarrow> throw UnexpectedEof
       | Inr (tag, _) \<Rightarrow> ret (text_field tag)) b)"

definition system_chat_packet_decode :: "system_chat_packet io" where
  "system_chat_packet_decode =
     bindE get_u8 (\<lambda>tag_id.
     if tag_id \<noteq> 0x0A then throw UnexpectedEof
     else bindE get_text_before_last (\<lambda>message.
     bindE get_bool (\<lambda>overlay.
     ret \<lparr>scp_message = message, scp_overlay = overlay\<rparr>)))"

definition system_chat_packet_encode :: "system_chat_packet \<Rightarrow> unit io" where
  "system_chat_packet_encode p =
    (case encode_anonymous (text_compound (scp_message p)) of
       Inl _ \<Rightarrow> throw UnexpectedEof
     | Inr nbt \<Rightarrow> seqE (put_u8 0x0A) (seqE (put_bytes nbt) (seqE (put_bool (scp_overlay p)) put_end)))"

definition wf_system_chat_packet :: "system_chat_packet \<Rightarrow> bool" where
  "wf_system_chat_packet p \<longleftrightarrow> wf_text (scp_message p)"

lemma system_chat_packet_body:
  assumes "wf_system_chat_packet p"
  shows "ends (system_chat_packet_encode p) system_chat_packet_decode p"
proof -
  obtain bs where enc: "encode_anonymous (text_compound (scp_message p)) = Inr bs"
    and dec: "\<And>rest. decode_anonymous (bs @ rest) = Inr (text_compound (scp_message p), length bs)"
    using text_encoding assms unfolding wf_system_chat_packet_def by blast
  let ?f = "[if scp_overlay p then 1 else 0] :: u8 list"
  have "writes (system_chat_packet_encode p) ([0x0A] @ bs @ ?f)"
    unfolding system_chat_packet_encode_def enc sum.case put_u8_def put_bytes_def put_bool_def put_end_def
    using writes_bind [OF writes_put_raw writes_ret]
    by (intro writes_bind writes_put_raw) simp
  moreover have "fst (system_chat_packet_decode (cursor pre ([0x0A] @ bs @ ?f))) = Inr p" for pre
  proof -
    have rem: "remaining (cursor (pre @ [0x0A]) (bs @ ?f)) = length bs + 1"
      by (simp add: remaining_def cursor_def)
    have "reads (get_bytes (length bs)) bs bs" by (rule reads_get_bytes) simp
    then have "get_bytes (length bs) (cursor (pre @ [0x0A]) (bs @ ?f)) = (Inr bs, cursor ((pre @ [0x0A]) @ bs) ?f)"
      by (simp only: reads_def)
    then have "get_text_before_last (cursor (pre @ [0x0A]) (bs @ ?f))
        = (Inr (scp_message p), cursor ((pre @ [0x0A]) @ bs) ?f)"
      using dec [of "[]"] rem
      by (simp add: get_text_before_last_def bindE_def ret_def text_field_compound)
    then show ?thesis
      by (simp add: system_chat_packet_decode_def bindE_def get_bool_def ret_def)
  qed
  ultimately show ?thesis by (auto simp: ends_def)
qed

lemma safe_text_before_last [safe_rules]: "cursor_safe get_text_before_last"
  by (auto simp: cursor_safe_def get_text_before_last_def bindE_def get_bytes_def get_range_def ret_def
      throw_def remaining_def Let_def split: sum.splits)

interpretation system_chat_packet: body_codec system_chat_packet_encode system_chat_packet_decode
    wf_system_chat_packet
  by (unfold_locales, rule system_chat_packet_body, assumption, unfold system_chat_packet_decode_def)
     (intro safe_rules)

record spawn_entity =
  se_entity_id :: i32
  se_object_uuid :: uuid
  se_entity_type :: i32
  se_x :: f64
  se_y :: f64
  se_z :: f64
  se_velocity :: "i16 \<times> i16 \<times> i16"
  se_pitch :: i8
  se_yaw :: i8
  se_head_pitch :: i8
  se_object_data :: i32

definition spawn_entity_id :: i32 where "spawn_entity_id = 0x01"

definition spawn_entity_decode :: "spawn_entity io" where
  "spawn_entity_decode =
     bindE get_varint (\<lambda>entity_id.
     bindE get_uuid (\<lambda>object_uuid.
     bindE get_varint (\<lambda>entity_type.
     bindE get_f64 (\<lambda>x.
     bindE get_f64 (\<lambda>y.
     bindE get_f64 (\<lambda>z.
     bindE (get_triple get_i16) (\<lambda>velocity.
     bindE get_i8 (\<lambda>pitch.
     bindE get_i8 (\<lambda>yaw.
     bindE get_i8 (\<lambda>head_pitch.
     bindE get_varint (\<lambda>object_data.
     ret \<lparr>se_entity_id = entity_id, se_object_uuid = object_uuid,
        se_entity_type = entity_type, se_x = x, se_y = y, se_z = z, se_velocity = velocity,
        se_pitch = pitch, se_yaw = yaw, se_head_pitch = head_pitch,
        se_object_data = object_data\<rparr>)))))))))))"

definition spawn_entity_encode :: "spawn_entity \<Rightarrow> unit io" where
  "spawn_entity_encode p =
    seqE (put_varint (se_entity_id p))
    (seqE (put_uuid (se_object_uuid p))
    (seqE (put_varint (se_entity_type p))
    (seqE (put_f64 (se_x p))
    (seqE (put_f64 (se_y p))
    (seqE (put_f64 (se_z p))
    (seqE (put_triple put_i16 (se_velocity p))
    (seqE (put_i8 (se_pitch p))
    (seqE (put_i8 (se_yaw p))
    (seqE (put_i8 (se_head_pitch p))
    (seqE (put_varint (se_object_data p)) put_end))))))))))"

definition wf_spawn_entity :: "spawn_entity \<Rightarrow> bool" where
  "wf_spawn_entity p \<longleftrightarrow> wf_uuid (se_object_uuid p)"

interpretation spawn_entity: packet_codec spawn_entity_encode spawn_entity_decode wf_spawn_entity
  by unfold_locales
     (auto simp: spawn_entity_encode_def spawn_entity_decode_def wf_spawn_entity_def packet_wf intro!: carries_rules safe_rules)

record position_cb =
  pc_teleport_id :: i32
  pc_x :: f64
  pc_y :: f64
  pc_z :: f64
  pc_dx :: f64
  pc_dy :: f64
  pc_dz :: f64
  pc_yaw :: f32
  pc_pitch :: f32
  pc_flags :: u8

definition position_cb_id :: i32 where "position_cb_id = 0x46"

definition position_cb_decode :: "position_cb io" where
  "position_cb_decode =
     bindE get_varint (\<lambda>teleport_id.
     bindE get_f64 (\<lambda>x.
     bindE get_f64 (\<lambda>y.
     bindE get_f64 (\<lambda>z.
     bindE get_f64 (\<lambda>dx.
     bindE get_f64 (\<lambda>dy.
     bindE get_f64 (\<lambda>dz.
     bindE get_f32 (\<lambda>yaw.
     bindE get_f32 (\<lambda>pitch.
     bindE get_u8 (\<lambda>flags.
     ret \<lparr>pc_teleport_id = teleport_id, pc_x = x, pc_y = y, pc_z = z, pc_dx = dx,
        pc_dy = dy, pc_dz = dz, pc_yaw = yaw, pc_pitch = pitch, pc_flags = flags\<rparr>))))))))))"

definition position_cb_encode :: "position_cb \<Rightarrow> unit io" where
  "position_cb_encode p =
    seqE (put_varint (pc_teleport_id p))
    (seqE (put_f64 (pc_x p))
    (seqE (put_f64 (pc_y p))
    (seqE (put_f64 (pc_z p))
    (seqE (put_f64 (pc_dx p))
    (seqE (put_f64 (pc_dy p))
    (seqE (put_f64 (pc_dz p))
    (seqE (put_f32 (pc_yaw p))
    (seqE (put_f32 (pc_pitch p))
    (seqE (put_u8 (pc_flags p)) put_end)))))))))"

definition wf_position_cb :: "position_cb \<Rightarrow> bool" where
  "wf_position_cb p \<longleftrightarrow> True"

interpretation position_cb: packet_codec position_cb_encode position_cb_decode wf_position_cb
  by unfold_locales
     (auto simp: position_cb_encode_def position_cb_decode_def wf_position_cb_def packet_wf intro!: carries_rules safe_rules)

record update_health =
  uh_health :: f32
  uh_food :: i32
  uh_food_saturation :: f32

definition update_health_id :: i32 where "update_health_id = 0x66"

definition update_health_decode :: "update_health io" where
  "update_health_decode =
     bindE get_f32 (\<lambda>health.
     bindE get_varint (\<lambda>food.
     bindE get_f32 (\<lambda>food_saturation.
     ret \<lparr>uh_health = health, uh_food = food, uh_food_saturation = food_saturation\<rparr>)))"

definition update_health_encode :: "update_health \<Rightarrow> unit io" where
  "update_health_encode p =
    seqE (put_f32 (uh_health p))
    (seqE (put_varint (uh_food p))
    (seqE (put_f32 (uh_food_saturation p)) put_end))"

definition wf_update_health :: "update_health \<Rightarrow> bool" where
  "wf_update_health p \<longleftrightarrow> True"

interpretation update_health: packet_codec update_health_encode update_health_decode wf_update_health
  by unfold_locales
     (auto simp: update_health_encode_def update_health_decode_def wf_update_health_def packet_wf intro!: carries_rules safe_rules)

record player_info =
  plin_uuid :: uuid
  plin_name :: rstring
  plin_properties :: "property list"

definition player_info_id :: i32 where "player_info_id = 0x44"

definition ACTION_ADD_PLAYER :: i32 where "ACTION_ADD_PLAYER = 0x01"

definition player_info_decode :: "player_info io" where
  "player_info_decode =
     bindE get_varint (\<lambda>actions.
     bindE get_varint (\<lambda>count.
     bindE (ok_or (i32_to_usize count) UnexpectedEof) (\<lambda>n.
     if n = 0 then throw UnexpectedEof
     else bindE get_uuid (\<lambda>uuid.
     bindE get_string (\<lambda>name.
     bindE (get_counted UnexpectedEof get_property) (\<lambda>properties.
     ret \<lparr>plin_uuid = uuid, plin_name = name, plin_properties = properties\<rparr>))))))"

definition player_info_encode :: "player_info \<Rightarrow> unit io" where
  "player_info_encode p =
    seqE (put_varint ACTION_ADD_PLAYER)
    (seqE (put_varint 1)
    (seqE (put_uuid (plin_uuid p))
    (seqE (put_string (plin_name p))
    (seqE (put_counted_try UnexpectedEof put_property (plin_properties p)) put_end))))"

definition wf_player_info :: "player_info \<Rightarrow> bool" where
  "wf_player_info p \<longleftrightarrow> wf_uuid (plin_uuid p) \<and> wf_string (plin_name p) \<and> wf_array wf_property (plin_properties p)"

lemma i32_to_usize_1: "i32_to_usize 1 = Some 1"
  using i32_to_usize_of_nat [of 1] by simp

interpretation player_info: packet_codec player_info_encode player_info_decode wf_player_info
proof
  fix p
  assume wf: "wf_player_info p"
  have rest: "carries (seqE (put_uuid (plin_uuid p)) (seqE (put_string (plin_name p))
        (seqE (put_counted_try UnexpectedEof put_property (plin_properties p)) put_end)))
      (bindE (ok_or (i32_to_usize 1) UnexpectedEof) (\<lambda>n.
         if n = 0 then throw UnexpectedEof
         else bindE get_uuid (\<lambda>uuid. bindE get_string (\<lambda>name.
           bindE (get_counted UnexpectedEof get_property) (\<lambda>properties.
           ret \<lparr>plin_uuid = uuid, plin_name = name, plin_properties = properties\<rparr>))))) p"
    using wf
    by (auto simp: i32_to_usize_1 wf_player_info_def packet_wf intro!: carries_rules)
  show "carries (player_info_encode p) player_info_decode p"
    unfolding player_info_encode_def player_info_decode_def
    by (rule carries_bind [OF carries_varint], rule carries_bind [OF carries_varint], rule rest)
qed (auto simp: player_info_decode_def intro!: safe_rules)

record game_state_change =
  gsc_event :: i32
  gsc_data :: f32

definition game_state_change_id :: i32 where "game_state_change_id = 0x26"

definition game_state_change_decode :: "game_state_change io" where
  "game_state_change_decode =
     bindE get_varint (\<lambda>event.
     bindE get_f32 (\<lambda>data.
     ret \<lparr>gsc_event = event, gsc_data = data\<rparr>))"

definition game_state_change_encode :: "game_state_change \<Rightarrow> unit io" where
  "game_state_change_encode p =
    seqE (put_varint (gsc_event p))
    (seqE (put_f32 (gsc_data p)) put_end)"

definition wf_game_state_change :: "game_state_change \<Rightarrow> bool" where
  "wf_game_state_change p \<longleftrightarrow> True"

interpretation game_state_change: packet_codec game_state_change_encode game_state_change_decode wf_game_state_change
  by unfold_locales
     (auto simp: game_state_change_encode_def game_state_change_decode_def wf_game_state_change_def packet_wf intro!: carries_rules safe_rules)

record player_remove =
  pr_players :: "uuid list"

definition player_remove_id :: i32 where "player_remove_id = 0x43"

definition player_remove_decode :: "player_remove io" where
  "player_remove_decode =
     bindE (get_varint_array get_uuid) (\<lambda>players.
     ret \<lparr>pr_players = players\<rparr>)"

definition player_remove_encode :: "player_remove \<Rightarrow> unit io" where
  "player_remove_encode p =
    seqE (put_varint_array put_uuid (pr_players p)) put_end"

definition wf_player_remove :: "player_remove \<Rightarrow> bool" where
  "wf_player_remove p \<longleftrightarrow> wf_array wf_uuid (pr_players p)"

interpretation player_remove: packet_codec player_remove_encode player_remove_decode wf_player_remove
  by unfold_locales
     (auto simp: player_remove_encode_def player_remove_decode_def wf_player_remove_def packet_wf intro!: carries_rules safe_rules)

record entity_teleport =
  et_entity_id :: i32
  et_x :: f64
  et_y :: f64
  et_z :: f64
  et_yaw :: i8
  et_pitch :: i8
  et_on_ground :: bool

definition entity_teleport_id :: i32 where "entity_teleport_id = 0x7b"

definition entity_teleport_decode :: "entity_teleport io" where
  "entity_teleport_decode =
     bindE get_varint (\<lambda>entity_id.
     bindE get_f64 (\<lambda>x.
     bindE get_f64 (\<lambda>y.
     bindE get_f64 (\<lambda>z.
     bindE get_i8 (\<lambda>yaw.
     bindE get_i8 (\<lambda>pitch.
     bindE get_bool (\<lambda>on_ground.
     ret \<lparr>et_entity_id = entity_id, et_x = x, et_y = y, et_z = z, et_yaw = yaw,
        et_pitch = pitch, et_on_ground = on_ground\<rparr>)))))))"

definition entity_teleport_encode :: "entity_teleport \<Rightarrow> unit io" where
  "entity_teleport_encode p =
    seqE (put_varint (et_entity_id p))
    (seqE (put_f64 (et_x p))
    (seqE (put_f64 (et_y p))
    (seqE (put_f64 (et_z p))
    (seqE (put_i8 (et_yaw p))
    (seqE (put_i8 (et_pitch p))
    (seqE (put_bool (et_on_ground p)) put_end))))))"

definition wf_entity_teleport :: "entity_teleport \<Rightarrow> bool" where
  "wf_entity_teleport p \<longleftrightarrow> True"

interpretation entity_teleport: packet_codec entity_teleport_encode entity_teleport_decode wf_entity_teleport
  by unfold_locales
     (auto simp: entity_teleport_encode_def entity_teleport_decode_def wf_entity_teleport_def packet_wf intro!: carries_rules safe_rules)

record rel_entity_move =
  rem_entity_id :: i32
  rem_d_x :: i16
  rem_d_y :: i16
  rem_d_z :: i16
  rem_on_ground :: bool

definition rel_entity_move_id :: i32 where "rel_entity_move_id = 0x33"

definition rel_entity_move_decode :: "rel_entity_move io" where
  "rel_entity_move_decode =
     bindE get_varint (\<lambda>entity_id.
     bindE get_i16 (\<lambda>d_x.
     bindE get_i16 (\<lambda>d_y.
     bindE get_i16 (\<lambda>d_z.
     bindE get_bool (\<lambda>on_ground.
     ret \<lparr>rem_entity_id = entity_id, rem_d_x = d_x, rem_d_y = d_y, rem_d_z = d_z,
        rem_on_ground = on_ground\<rparr>)))))"

definition rel_entity_move_encode :: "rel_entity_move \<Rightarrow> unit io" where
  "rel_entity_move_encode p =
    seqE (put_varint (rem_entity_id p))
    (seqE (put_i16 (rem_d_x p))
    (seqE (put_i16 (rem_d_y p))
    (seqE (put_i16 (rem_d_z p))
    (seqE (put_bool (rem_on_ground p)) put_end))))"

definition wf_rel_entity_move :: "rel_entity_move \<Rightarrow> bool" where
  "wf_rel_entity_move p \<longleftrightarrow> True"

interpretation rel_entity_move: packet_codec rel_entity_move_encode rel_entity_move_decode wf_rel_entity_move
  by unfold_locales
     (auto simp: rel_entity_move_encode_def rel_entity_move_decode_def wf_rel_entity_move_def packet_wf intro!: carries_rules safe_rules)

datatype entity_metadata_value =
    MetaByte u8
  | MetaVarInt i32
  | MetaFloat f32
  | MetaString rstring
  | MetaBool bool

definition METADATA_TYPE_BYTE :: i32 where "METADATA_TYPE_BYTE = 0"
definition METADATA_TYPE_VARINT :: i32 where "METADATA_TYPE_VARINT = 1"
definition METADATA_TYPE_FLOAT :: i32 where "METADATA_TYPE_FLOAT = 2"
definition METADATA_TYPE_STRING :: i32 where "METADATA_TYPE_STRING = 3"
definition METADATA_TYPE_BOOLEAN :: i32 where "METADATA_TYPE_BOOLEAN = 7"
definition METADATA_TERMINATOR :: u8 where "METADATA_TERMINATOR = 0xFF"

lemmas metadata_types = METADATA_TYPE_BYTE_def METADATA_TYPE_VARINT_def METADATA_TYPE_FLOAT_def
  METADATA_TYPE_STRING_def METADATA_TYPE_BOOLEAN_def

record entity_meta_data =
  emd_entity_id :: i32
  emd_entries :: "(u8 \<times> entity_metadata_value) list"
  emd_has_metadata :: bool

definition entity_meta_data_id :: i32 where "entity_meta_data_id = 0x61"

definition get_metadata_value :: "entity_metadata_value io" where
  "get_metadata_value =
     bindE get_varint (\<lambda>ty.
       if ty = METADATA_TYPE_BYTE then bindE get_i8 (\<lambda>raw. ret (MetaByte raw))
       else if ty = METADATA_TYPE_VARINT then bindE get_varint (\<lambda>v. ret (MetaVarInt v))
       else if ty = METADATA_TYPE_FLOAT then bindE get_f32 (\<lambda>v. ret (MetaFloat v))
       else if ty = METADATA_TYPE_STRING then bindE get_string (\<lambda>v. ret (MetaString v))
       else if ty = METADATA_TYPE_BOOLEAN then bindE get_bool (\<lambda>v. ret (MetaBool v))
       else throw UnexpectedEof)"

definition put_metadata_value :: "entity_metadata_value \<Rightarrow> unit io" where
  "put_metadata_value m =
     (case m of
        MetaByte v \<Rightarrow> seqE (put_varint METADATA_TYPE_BYTE) (put_i8 v)
      | MetaVarInt v \<Rightarrow> seqE (put_varint METADATA_TYPE_VARINT) (put_varint v)
      | MetaFloat v \<Rightarrow> seqE (put_varint METADATA_TYPE_FLOAT) (put_f32 v)
      | MetaString v \<Rightarrow> seqE (put_varint METADATA_TYPE_STRING) (put_string v)
      | MetaBool v \<Rightarrow> seqE (put_varint METADATA_TYPE_BOOLEAN) (put_bool v))"

definition metadata_step :: "((u8 \<times> entity_metadata_value) option \<times> bool) io" where
  "metadata_step =
     bindE get_u8 (\<lambda>index.
       if index = METADATA_TERMINATOR then ret (None, False)
       else bindE get_metadata_value (\<lambda>v. ret (Some (index, v), True)))"

fun put_metadata :: "(u8 \<times> entity_metadata_value) list \<Rightarrow> unit io" where
  "put_metadata [] = put_u8 METADATA_TERMINATOR"
| "put_metadata ((index, m) # es) =
     seqE (put_u8 index) (seqE (put_metadata_value m) (put_metadata es))"

definition entity_meta_data_decode :: "entity_meta_data io" where
  "entity_meta_data_decode =
     bindE get_varint (\<lambda>entity_id.
     bindE (get_while metadata_step) (\<lambda>entries.
     bindE get_bool (\<lambda>has_metadata.
     ret \<lparr>emd_entity_id = entity_id, emd_entries = entries, emd_has_metadata = has_metadata\<rparr>)))"

definition entity_meta_data_encode :: "entity_meta_data \<Rightarrow> unit io" where
  "entity_meta_data_encode p =
    seqE (put_varint (emd_entity_id p))
    (seqE (put_metadata (emd_entries p))
    (seqE (put_bool (emd_has_metadata p)) put_end))"

definition wf_entity_meta_data :: "entity_meta_data \<Rightarrow> bool" where
  "wf_entity_meta_data p \<longleftrightarrow> list_all (\<lambda>(index, m). index \<noteq> METADATA_TERMINATOR \<and>
       (case m of MetaString v \<Rightarrow> wf_string v | _ \<Rightarrow> True)) (emd_entries p)"

lemma carries_metadata_value:
  "(case m of MetaString v \<Rightarrow> wf_string v | _ \<Rightarrow> True) \<Longrightarrow>
   carries (put_metadata_value m) get_metadata_value m"
  by (cases m)
     (simp_all add: put_metadata_value_def get_metadata_value_def,
      (rule carries_bind [OF carries_varint], simp add: metadata_types,
       rule carries_tail, (rule carries_rules, simp?), rule carries_ret, simp)+)

lemma safe_metadata_value: "cursor_safe get_metadata_value"
  unfolding get_metadata_value_def by (intro safe_rules)

lemma consuming_metadata: "consuming metadata_step"
  unfolding metadata_step_def
  by (intro consuming_bind consuming_u8 safe_if safe_bind safe_metadata_value safe_ret)

lemma carries_metadata_loop:
  "list_all (\<lambda>(index, m). index \<noteq> METADATA_TERMINATOR \<and>
     (case m of MetaString v \<Rightarrow> wf_string v | _ \<Rightarrow> True)) es \<Longrightarrow> length es < n \<Longrightarrow>
   carries (put_metadata es) (read_while n metadata_step) es"
proof (induction es arbitrary: n)
  case Nil
  then obtain k where n: "n = Suc k" by (cases n) auto
  have "carries (put_u8 METADATA_TERMINATOR) metadata_step (None, False)"
    unfolding metadata_step_def by (rule carries_tail [OF carries_u8]) (simp add: carries_ret)
  then show ?case unfolding n put_metadata.simps read_while.simps
    by (rule carries_tail) (simp add: carries_ret)
next
  case (Cons e es)
  obtain index m where e: "e = (index, m)" by (cases e)
  obtain k where n: "n = Suc k" "length es < k" using Cons.prems(2) by (cases n) auto
  have ih: "carries (put_metadata es) (read_while k metadata_step) es"
    using Cons.IH [OF _ n(2)] Cons.prems(1) by simp
  have m: "carries (put_metadata_value m) get_metadata_value m" and i: "index \<noteq> METADATA_TERMINATOR"
    using Cons.prems(1) carries_metadata_value by (auto simp: e)
  have "carries (seqE (put_u8 index) (put_metadata_value m)) metadata_step (Some (index, m), True)"
    unfolding metadata_step_def
    by (rule carries_bind [OF carries_u8]) (simp add: i, rule carries_tail [OF m], simp add: carries_ret)
  then have "carries (seqE (seqE (put_u8 index) (put_metadata_value m)) (put_metadata es))
      (read_while n metadata_step) (e # es)"
    unfolding n(1) read_while.simps e
    by (rule carries_bind) (simp, rule carries_tail [OF ih], simp add: carries_ret)
  then show ?case by (simp add: e bindE_assoc)
qed

lemma carries_metadata [carries_rules]:
  "list_all (\<lambda>(index, m). index \<noteq> METADATA_TERMINATOR \<and>
     (case m of MetaString v \<Rightarrow> wf_string v | _ \<Rightarrow> True)) es \<Longrightarrow>
   carries (put_metadata es) (get_while metadata_step) es"
  by (rule carries_while [OF consuming_metadata, where N = "Suc (length es)"])
     (simp add: carries_metadata_loop)

lemma safe_metadata [safe_rules]: "cursor_safe metadata_step"
  using consuming_metadata by (simp add: consuming_def)

interpretation entity_meta_data: packet_codec entity_meta_data_encode entity_meta_data_decode wf_entity_meta_data
  by unfold_locales
     (auto simp: entity_meta_data_encode_def entity_meta_data_decode_def wf_entity_meta_data_def
       intro!: carries_rules safe_rules)

record destroy_entities =
  de_entity_ids :: "i32 list"

definition destroy_entities_id :: i32 where "destroy_entities_id = 0x4b"

definition destroy_entities_decode :: "destroy_entities io" where
  "destroy_entities_decode =
     bindE (get_varint_array get_varint) (\<lambda>entity_ids.
     ret \<lparr>de_entity_ids = entity_ids\<rparr>)"

definition destroy_entities_encode :: "destroy_entities \<Rightarrow> unit io" where
  "destroy_entities_encode p =
    seqE (put_varint_array put_varint (de_entity_ids p)) put_end"

definition wf_destroy_entities :: "destroy_entities \<Rightarrow> bool" where
  "wf_destroy_entities p \<longleftrightarrow> wf_array (\<lambda>_. True) (de_entity_ids p)"

interpretation destroy_entities: packet_codec destroy_entities_encode destroy_entities_decode wf_destroy_entities
  by unfold_locales
     (auto simp: destroy_entities_encode_def destroy_entities_decode_def wf_destroy_entities_def packet_wf intro!: carries_rules safe_rules)

record entity_animation =
  ea_entity_id :: i32
  ea_animation :: u8

definition entity_animation_id :: i32 where "entity_animation_id = 0x02"

definition entity_animation_decode :: "entity_animation io" where
  "entity_animation_decode =
     bindE get_varint (\<lambda>entity_id.
     bindE get_u8 (\<lambda>animation.
     ret \<lparr>ea_entity_id = entity_id, ea_animation = animation\<rparr>))"

definition entity_animation_encode :: "entity_animation \<Rightarrow> unit io" where
  "entity_animation_encode p =
    seqE (put_varint (ea_entity_id p))
    (seqE (put_u8 (ea_animation p)) put_end)"

definition wf_entity_animation :: "entity_animation \<Rightarrow> bool" where
  "wf_entity_animation p \<longleftrightarrow> True"

interpretation entity_animation: packet_codec entity_animation_encode entity_animation_decode wf_entity_animation
  by unfold_locales
     (auto simp: entity_animation_encode_def entity_animation_decode_def wf_entity_animation_def packet_wf intro!: carries_rules safe_rules)

record hit_animation =
  ha_entity_id :: i32
  ha_yaw :: f32

definition hit_animation_id :: i32 where "hit_animation_id = 0x29"

definition hit_animation_decode :: "hit_animation io" where
  "hit_animation_decode =
     bindE get_varint (\<lambda>entity_id.
     bindE get_f32 (\<lambda>yaw.
     ret \<lparr>ha_entity_id = entity_id, ha_yaw = yaw\<rparr>))"

definition hit_animation_encode :: "hit_animation \<Rightarrow> unit io" where
  "hit_animation_encode p =
    seqE (put_varint (ha_entity_id p))
    (seqE (put_f32 (ha_yaw p)) put_end)"

definition wf_hit_animation :: "hit_animation \<Rightarrow> bool" where
  "wf_hit_animation p \<longleftrightarrow> True"

interpretation hit_animation: packet_codec hit_animation_encode hit_animation_decode wf_hit_animation
  by unfold_locales
     (auto simp: hit_animation_encode_def hit_animation_decode_def wf_hit_animation_def packet_wf intro!: carries_rules safe_rules)

record entity_status =
  es_entity_id :: i32
  es_status :: i8

definition entity_status_id :: i32 where "entity_status_id = 0x22"

definition entity_status_decode :: "entity_status io" where
  "entity_status_decode =
     bindE get_i32 (\<lambda>entity_id.
     bindE get_i8 (\<lambda>status.
     ret \<lparr>es_entity_id = entity_id, es_status = status\<rparr>))"

definition entity_status_encode :: "entity_status \<Rightarrow> unit io" where
  "entity_status_encode p =
    seqE (put_i32 (es_entity_id p))
    (seqE (put_i8 (es_status p)) put_end)"

definition wf_entity_status :: "entity_status \<Rightarrow> bool" where
  "wf_entity_status p \<longleftrightarrow> True"

interpretation entity_status: packet_codec entity_status_encode entity_status_decode wf_entity_status
  by unfold_locales
     (auto simp: entity_status_encode_def entity_status_decode_def wf_entity_status_def packet_wf intro!: carries_rules safe_rules)

record entity_position_sync =
  eps_entity_id :: i32
  eps_x :: f64
  eps_y :: f64
  eps_z :: f64
  eps_d_x :: f64
  eps_d_y :: f64
  eps_d_z :: f64
  eps_yaw :: f32
  eps_pitch :: f32
  eps_on_ground :: bool

definition entity_position_sync_id :: i32 where "entity_position_sync_id = 0x23"

definition entity_position_sync_decode :: "entity_position_sync io" where
  "entity_position_sync_decode =
     bindE get_varint (\<lambda>entity_id.
     bindE get_f64 (\<lambda>x.
     bindE get_f64 (\<lambda>y.
     bindE get_f64 (\<lambda>z.
     bindE get_f64 (\<lambda>d_x.
     bindE get_f64 (\<lambda>d_y.
     bindE get_f64 (\<lambda>d_z.
     bindE get_f32 (\<lambda>yaw.
     bindE get_f32 (\<lambda>pitch.
     bindE get_bool (\<lambda>on_ground.
     ret \<lparr>eps_entity_id = entity_id, eps_x = x, eps_y = y, eps_z = z, eps_d_x = d_x,
        eps_d_y = d_y, eps_d_z = d_z, eps_yaw = yaw, eps_pitch = pitch,
        eps_on_ground = on_ground\<rparr>))))))))))"

definition entity_position_sync_encode :: "entity_position_sync \<Rightarrow> unit io" where
  "entity_position_sync_encode p =
    seqE (put_varint (eps_entity_id p))
    (seqE (put_f64 (eps_x p))
    (seqE (put_f64 (eps_y p))
    (seqE (put_f64 (eps_z p))
    (seqE (put_f64 (eps_d_x p))
    (seqE (put_f64 (eps_d_y p))
    (seqE (put_f64 (eps_d_z p))
    (seqE (put_f32 (eps_yaw p))
    (seqE (put_f32 (eps_pitch p))
    (seqE (put_bool (eps_on_ground p)) put_end)))))))))"

definition wf_entity_position_sync :: "entity_position_sync \<Rightarrow> bool" where
  "wf_entity_position_sync p \<longleftrightarrow> True"

interpretation entity_position_sync: packet_codec entity_position_sync_encode entity_position_sync_decode wf_entity_position_sync
  by unfold_locales
     (auto simp: entity_position_sync_encode_def entity_position_sync_decode_def wf_entity_position_sync_def packet_wf intro!: carries_rules safe_rules)

record entity_position =
  ep_entity_id :: i32
  ep_d_x :: i16
  ep_d_y :: i16
  ep_d_z :: i16
  ep_on_ground :: bool

definition entity_position_id :: i32 where "entity_position_id = 0x33"

definition entity_position_decode :: "entity_position io" where
  "entity_position_decode =
     bindE get_varint (\<lambda>entity_id.
     bindE get_i16 (\<lambda>d_x.
     bindE get_i16 (\<lambda>d_y.
     bindE get_i16 (\<lambda>d_z.
     bindE get_bool (\<lambda>on_ground.
     ret \<lparr>ep_entity_id = entity_id, ep_d_x = d_x, ep_d_y = d_y, ep_d_z = d_z,
        ep_on_ground = on_ground\<rparr>)))))"

definition entity_position_encode :: "entity_position \<Rightarrow> unit io" where
  "entity_position_encode p =
    seqE (put_varint (ep_entity_id p))
    (seqE (put_i16 (ep_d_x p))
    (seqE (put_i16 (ep_d_y p))
    (seqE (put_i16 (ep_d_z p))
    (seqE (put_bool (ep_on_ground p)) put_end))))"

definition wf_entity_position :: "entity_position \<Rightarrow> bool" where
  "wf_entity_position p \<longleftrightarrow> True"

interpretation entity_position: packet_codec entity_position_encode entity_position_decode wf_entity_position
  by unfold_locales
     (auto simp: entity_position_encode_def entity_position_decode_def wf_entity_position_def packet_wf intro!: carries_rules safe_rules)

record entity_position_and_rotation =
  epar_entity_id :: i32
  epar_d_x :: i16
  epar_d_y :: i16
  epar_d_z :: i16
  epar_yaw :: i8
  epar_pitch :: i8
  epar_on_ground :: bool

definition entity_position_and_rotation_id :: i32 where "entity_position_and_rotation_id = 0x34"

definition entity_position_and_rotation_decode :: "entity_position_and_rotation io" where
  "entity_position_and_rotation_decode =
     bindE get_varint (\<lambda>entity_id.
     bindE get_i16 (\<lambda>d_x.
     bindE get_i16 (\<lambda>d_y.
     bindE get_i16 (\<lambda>d_z.
     bindE get_i8 (\<lambda>yaw.
     bindE get_i8 (\<lambda>pitch.
     bindE get_bool (\<lambda>on_ground.
     ret \<lparr>epar_entity_id = entity_id, epar_d_x = d_x, epar_d_y = d_y, epar_d_z = d_z,
        epar_yaw = yaw, epar_pitch = pitch, epar_on_ground = on_ground\<rparr>)))))))"

definition entity_position_and_rotation_encode :: "entity_position_and_rotation \<Rightarrow> unit io" where
  "entity_position_and_rotation_encode p =
    seqE (put_varint (epar_entity_id p))
    (seqE (put_i16 (epar_d_x p))
    (seqE (put_i16 (epar_d_y p))
    (seqE (put_i16 (epar_d_z p))
    (seqE (put_i8 (epar_yaw p))
    (seqE (put_i8 (epar_pitch p))
    (seqE (put_bool (epar_on_ground p)) put_end))))))"

definition wf_entity_position_and_rotation :: "entity_position_and_rotation \<Rightarrow> bool" where
  "wf_entity_position_and_rotation p \<longleftrightarrow> True"

interpretation entity_position_and_rotation: packet_codec entity_position_and_rotation_encode entity_position_and_rotation_decode wf_entity_position_and_rotation
  by unfold_locales
     (auto simp: entity_position_and_rotation_encode_def entity_position_and_rotation_decode_def wf_entity_position_and_rotation_def packet_wf intro!: carries_rules safe_rules)

record entity_rotation =
  er_entity_id :: i32
  er_yaw :: i8
  er_pitch :: i8
  er_on_ground :: bool

definition entity_rotation_id :: i32 where "entity_rotation_id = 0x36"

definition entity_rotation_decode :: "entity_rotation io" where
  "entity_rotation_decode =
     bindE get_varint (\<lambda>entity_id.
     bindE get_i8 (\<lambda>yaw.
     bindE get_i8 (\<lambda>pitch.
     bindE get_bool (\<lambda>on_ground.
     ret \<lparr>er_entity_id = entity_id, er_yaw = yaw, er_pitch = pitch,
        er_on_ground = on_ground\<rparr>))))"

definition entity_rotation_encode :: "entity_rotation \<Rightarrow> unit io" where
  "entity_rotation_encode p =
    seqE (put_varint (er_entity_id p))
    (seqE (put_i8 (er_yaw p))
    (seqE (put_i8 (er_pitch p))
    (seqE (put_bool (er_on_ground p)) put_end)))"

definition wf_entity_rotation :: "entity_rotation \<Rightarrow> bool" where
  "wf_entity_rotation p \<longleftrightarrow> True"

interpretation entity_rotation: packet_codec entity_rotation_encode entity_rotation_decode wf_entity_rotation
  by unfold_locales
     (auto simp: entity_rotation_encode_def entity_rotation_decode_def wf_entity_rotation_def packet_wf intro!: carries_rules safe_rules)

record attach_entity =
  ae_attached_entity_id :: i32
  ae_holding_entity_id :: i32

definition attach_entity_id :: i32 where "attach_entity_id = 0x62"

definition attach_entity_decode :: "attach_entity io" where
  "attach_entity_decode =
     bindE get_i32 (\<lambda>attached_entity_id.
     bindE get_i32 (\<lambda>holding_entity_id.
     ret \<lparr>ae_attached_entity_id = attached_entity_id,
        ae_holding_entity_id = holding_entity_id\<rparr>))"

definition attach_entity_encode :: "attach_entity \<Rightarrow> unit io" where
  "attach_entity_encode p =
    seqE (put_i32 (ae_attached_entity_id p))
    (seqE (put_i32 (ae_holding_entity_id p)) put_end)"

definition wf_attach_entity :: "attach_entity \<Rightarrow> bool" where
  "wf_attach_entity p \<longleftrightarrow> True"

interpretation attach_entity: packet_codec attach_entity_encode attach_entity_decode wf_attach_entity
  by unfold_locales
     (auto simp: attach_entity_encode_def attach_entity_decode_def wf_attach_entity_def packet_wf intro!: carries_rules safe_rules)

record set_passengers =
  sp_entity_id :: i32
  sp_passengers :: "i32 list"

definition set_passengers_id :: i32 where "set_passengers_id = 0x69"

definition set_passengers_decode :: "set_passengers io" where
  "set_passengers_decode =
     bindE get_varint (\<lambda>entity_id.
     bindE (get_varint_array get_varint) (\<lambda>passengers.
     ret \<lparr>sp_entity_id = entity_id, sp_passengers = passengers\<rparr>))"

definition set_passengers_encode :: "set_passengers \<Rightarrow> unit io" where
  "set_passengers_encode p =
    seqE (put_varint (sp_entity_id p))
    (seqE (put_varint_array put_varint (sp_passengers p)) put_end)"

definition wf_set_passengers :: "set_passengers \<Rightarrow> bool" where
  "wf_set_passengers p \<longleftrightarrow> wf_array (\<lambda>_. True) (sp_passengers p)"

interpretation set_passengers: packet_codec set_passengers_encode set_passengers_decode wf_set_passengers
  by unfold_locales
     (auto simp: set_passengers_encode_def set_passengers_decode_def wf_set_passengers_def packet_wf intro!: carries_rules safe_rules)

record entity_head_look =
  ehl_entity_id :: i32
  ehl_head_yaw :: i8

definition entity_head_look_id :: i32 where "entity_head_look_id = 0x51"

definition entity_head_look_decode :: "entity_head_look io" where
  "entity_head_look_decode =
     bindE get_varint (\<lambda>entity_id.
     bindE get_i8 (\<lambda>head_yaw.
     ret \<lparr>ehl_entity_id = entity_id, ehl_head_yaw = head_yaw\<rparr>))"

definition entity_head_look_encode :: "entity_head_look \<Rightarrow> unit io" where
  "entity_head_look_encode p =
    seqE (put_varint (ehl_entity_id p))
    (seqE (put_i8 (ehl_head_yaw p)) put_end)"

definition wf_entity_head_look :: "entity_head_look \<Rightarrow> bool" where
  "wf_entity_head_look p \<longleftrightarrow> True"

interpretation entity_head_look: packet_codec entity_head_look_encode entity_head_look_decode wf_entity_head_look
  by unfold_locales
     (auto simp: entity_head_look_encode_def entity_head_look_decode_def wf_entity_head_look_def packet_wf intro!: carries_rules safe_rules)

record collect_item =
  ci_collected_entity_id :: i32
  ci_collector_entity_id :: i32
  ci_pickup_count :: i32

definition collect_item_id :: i32 where "collect_item_id = 0x7a"

definition collect_item_decode :: "collect_item io" where
  "collect_item_decode =
     bindE get_varint (\<lambda>collected_entity_id.
     bindE get_varint (\<lambda>collector_entity_id.
     bindE get_varint (\<lambda>pickup_count.
     ret \<lparr>ci_collected_entity_id = collected_entity_id,
        ci_collector_entity_id = collector_entity_id, ci_pickup_count = pickup_count\<rparr>)))"

definition collect_item_encode :: "collect_item \<Rightarrow> unit io" where
  "collect_item_encode p =
    seqE (put_varint (ci_collected_entity_id p))
    (seqE (put_varint (ci_collector_entity_id p))
    (seqE (put_varint (ci_pickup_count p)) put_end))"

definition wf_collect_item :: "collect_item \<Rightarrow> bool" where
  "wf_collect_item p \<longleftrightarrow> True"

interpretation collect_item: packet_codec collect_item_encode collect_item_decode wf_collect_item
  by unfold_locales
     (auto simp: collect_item_encode_def collect_item_decode_def wf_collect_item_def packet_wf intro!: carries_rules safe_rules)

record remove_entity_effect =
  ree_entity_id :: i32
  ree_effect_id :: i32

definition remove_entity_effect_id :: i32 where "remove_entity_effect_id = 0x4c"

definition remove_entity_effect_decode :: "remove_entity_effect io" where
  "remove_entity_effect_decode =
     bindE get_varint (\<lambda>entity_id.
     bindE get_varint (\<lambda>effect_id.
     ret \<lparr>ree_entity_id = entity_id, ree_effect_id = effect_id\<rparr>))"

definition remove_entity_effect_encode :: "remove_entity_effect \<Rightarrow> unit io" where
  "remove_entity_effect_encode p =
    seqE (put_varint (ree_entity_id p))
    (seqE (put_varint (ree_effect_id p)) put_end)"

definition wf_remove_entity_effect :: "remove_entity_effect \<Rightarrow> bool" where
  "wf_remove_entity_effect p \<longleftrightarrow> True"

interpretation remove_entity_effect: packet_codec remove_entity_effect_encode remove_entity_effect_decode wf_remove_entity_effect
  by unfold_locales
     (auto simp: remove_entity_effect_encode_def remove_entity_effect_decode_def wf_remove_entity_effect_def packet_wf intro!: carries_rules safe_rules)

record entity_effect =
  ee_entity_id :: i32
  ee_effect_id :: i32
  ee_amplifier :: i32
  ee_duration :: i32
  ee_flags :: u8

definition entity_effect_id :: i32 where "entity_effect_id = 0x82"

definition entity_effect_decode :: "entity_effect io" where
  "entity_effect_decode =
     bindE get_varint (\<lambda>entity_id.
     bindE get_varint (\<lambda>effect_id.
     bindE get_varint (\<lambda>amplifier.
     bindE get_varint (\<lambda>duration.
     bindE get_u8 (\<lambda>flags.
     ret \<lparr>ee_entity_id = entity_id, ee_effect_id = effect_id, ee_amplifier = amplifier,
        ee_duration = duration, ee_flags = flags\<rparr>)))))"

definition entity_effect_encode :: "entity_effect \<Rightarrow> unit io" where
  "entity_effect_encode p =
    seqE (put_varint (ee_entity_id p))
    (seqE (put_varint (ee_effect_id p))
    (seqE (put_varint (ee_amplifier p))
    (seqE (put_varint (ee_duration p))
    (seqE (put_u8 (ee_flags p)) put_end))))"

definition wf_entity_effect :: "entity_effect \<Rightarrow> bool" where
  "wf_entity_effect p \<longleftrightarrow> True"

interpretation entity_effect: packet_codec entity_effect_encode entity_effect_decode wf_entity_effect
  by unfold_locales
     (auto simp: entity_effect_encode_def entity_effect_decode_def wf_entity_effect_def packet_wf intro!: carries_rules safe_rules)

record attribute_modifier =
  am_modifier_id :: rstring
  am_amount :: f64
  am_operation :: i32

definition get_attribute_modifier :: "attribute_modifier io" where
  "get_attribute_modifier =
     bindE get_string (\<lambda>modifier_id.
     bindE get_f64 (\<lambda>amount.
     bindE get_varint (\<lambda>operation.
     ret \<lparr>am_modifier_id = modifier_id, am_amount = amount,
        am_operation = operation\<rparr>)))"

definition put_attribute_modifier :: "attribute_modifier \<Rightarrow> unit io" where
  "put_attribute_modifier p =
    seqE (put_string (am_modifier_id p))
    (seqE (put_f64 (am_amount p))
    (seqE (put_varint (am_operation p)) put_end))"

definition wf_attribute_modifier :: "attribute_modifier \<Rightarrow> bool" where
  "wf_attribute_modifier p \<longleftrightarrow> wf_string (am_modifier_id p)"

lemma carries_attribute_modifier [carries_rules]: "wf_attribute_modifier p \<Longrightarrow> carries (put_attribute_modifier p) get_attribute_modifier p"
  by (auto simp: put_attribute_modifier_def get_attribute_modifier_def wf_attribute_modifier_def packet_wf intro!: carries_rules)

lemma safe_attribute_modifier [safe_rules]: "cursor_safe get_attribute_modifier"
  unfolding get_attribute_modifier_def by (intro safe_rules)

record attribute_property =
  ap_attribute_id :: i32
  ap_value :: f64
  ap_modifiers :: "attribute_modifier list"

definition get_attribute_property :: "attribute_property io" where
  "get_attribute_property =
     bindE get_varint (\<lambda>attribute_id.
     bindE get_f64 (\<lambda>value.
     bindE (get_varint_array get_attribute_modifier) (\<lambda>modifiers.
     ret \<lparr>ap_attribute_id = attribute_id, ap_value = value,
        ap_modifiers = modifiers\<rparr>)))"

definition put_attribute_property :: "attribute_property \<Rightarrow> unit io" where
  "put_attribute_property p =
    seqE (put_varint (ap_attribute_id p))
    (seqE (put_f64 (ap_value p))
    (seqE (put_varint_array put_attribute_modifier (ap_modifiers p)) put_end))"

definition wf_attribute_property :: "attribute_property \<Rightarrow> bool" where
  "wf_attribute_property p \<longleftrightarrow> wf_array wf_attribute_modifier (ap_modifiers p)"

lemma carries_attribute_property [carries_rules]: "wf_attribute_property p \<Longrightarrow> carries (put_attribute_property p) get_attribute_property p"
  by (auto simp: put_attribute_property_def get_attribute_property_def wf_attribute_property_def packet_wf intro!: carries_rules)

lemma safe_attribute_property [safe_rules]: "cursor_safe get_attribute_property"
  unfolding get_attribute_property_def by (intro safe_rules)

record entity_attributes =
  enat_entity_id :: i32
  enat_properties :: "attribute_property list"

definition entity_attributes_id :: i32 where "entity_attributes_id = 0x81"

definition entity_attributes_decode :: "entity_attributes io" where
  "entity_attributes_decode =
     bindE get_varint (\<lambda>entity_id.
     bindE (get_varint_array get_attribute_property) (\<lambda>properties.
     ret \<lparr>enat_entity_id = entity_id, enat_properties = properties\<rparr>))"

definition entity_attributes_encode :: "entity_attributes \<Rightarrow> unit io" where
  "entity_attributes_encode p =
    seqE (put_varint (enat_entity_id p))
    (seqE (put_varint_array put_attribute_property (enat_properties p)) put_end)"

definition wf_entity_attributes :: "entity_attributes \<Rightarrow> bool" where
  "wf_entity_attributes p \<longleftrightarrow> wf_array wf_attribute_property (enat_properties p)"

interpretation entity_attributes: packet_codec entity_attributes_encode entity_attributes_decode wf_entity_attributes
  by unfold_locales
     (auto simp: entity_attributes_encode_def entity_attributes_decode_def wf_entity_attributes_def packet_wf intro!: carries_rules safe_rules)

record set_experience =
  seex_experience_bar :: f32
  seex_level :: i32
  seex_total_experience :: i32

definition set_experience_id :: i32 where "set_experience_id = 0x65"

definition set_experience_decode :: "set_experience io" where
  "set_experience_decode =
     bindE get_f32 (\<lambda>experience_bar.
     bindE get_varint (\<lambda>level.
     bindE get_varint (\<lambda>total_experience.
     ret \<lparr>seex_experience_bar = experience_bar, seex_level = level,
        seex_total_experience = total_experience\<rparr>)))"

definition set_experience_encode :: "set_experience \<Rightarrow> unit io" where
  "set_experience_encode p =
    seqE (put_f32 (seex_experience_bar p))
    (seqE (put_varint (seex_level p))
    (seqE (put_varint (seex_total_experience p)) put_end))"

definition wf_set_experience :: "set_experience \<Rightarrow> bool" where
  "wf_set_experience p \<longleftrightarrow> True"

interpretation set_experience: packet_codec set_experience_encode set_experience_decode wf_set_experience
  by unfold_locales
     (auto simp: set_experience_encode_def set_experience_decode_def wf_set_experience_def packet_wf intro!: carries_rules safe_rules)

record set_player_inventory_slot =
  spis_slot :: i32
  spis_item :: item_stack

definition set_player_inventory_slot_id :: i32 where "set_player_inventory_slot_id = 0x6a"

definition set_player_inventory_slot_decode :: "set_player_inventory_slot io" where
  "set_player_inventory_slot_decode =
     bindE get_varint (\<lambda>slot.
     bindE decode_item_stack (\<lambda>item.
     ret \<lparr>spis_slot = slot, spis_item = item\<rparr>))"

definition set_player_inventory_slot_encode :: "set_player_inventory_slot \<Rightarrow> unit io" where
  "set_player_inventory_slot_encode p =
    seqE (put_varint (spis_slot p))
    (seqE (encode_item_stack (spis_item p)) put_end)"

definition wf_set_player_inventory_slot :: "set_player_inventory_slot \<Rightarrow> bool" where
  "wf_set_player_inventory_slot p \<longleftrightarrow> normal_item (spis_item p)"

interpretation set_player_inventory_slot: packet_codec set_player_inventory_slot_encode set_player_inventory_slot_decode wf_set_player_inventory_slot
  by unfold_locales
     (auto simp: set_player_inventory_slot_encode_def set_player_inventory_slot_decode_def wf_set_player_inventory_slot_def packet_wf intro!: carries_rules safe_rules)

record damage_event =
  daev_target_entity_id :: i32
  daev_damage_type_id :: i32
  daev_source_cause_id :: i32
  daev_source_direct_id :: i32
  daev_source_position :: "(f64 \<times> f64 \<times> f64) option"

definition damage_event_id :: i32 where "damage_event_id = 0x19"

definition damage_event_decode :: "damage_event io" where
  "damage_event_decode =
     bindE get_varint (\<lambda>target_entity_id.
     bindE get_varint (\<lambda>damage_type_id.
     bindE get_varint (\<lambda>source_cause_id.
     bindE get_varint (\<lambda>source_direct_id.
     bindE (get_opt (get_triple get_f64)) (\<lambda>source_position.
     ret \<lparr>daev_target_entity_id = target_entity_id, daev_damage_type_id = damage_type_id,
        daev_source_cause_id = source_cause_id, daev_source_direct_id = source_direct_id,
        daev_source_position = source_position\<rparr>)))))"

definition damage_event_encode :: "damage_event \<Rightarrow> unit io" where
  "damage_event_encode p =
    seqE (put_varint (daev_target_entity_id p))
    (seqE (put_varint (daev_damage_type_id p))
    (seqE (put_varint (daev_source_cause_id p))
    (seqE (put_varint (daev_source_direct_id p))
    (seqE (put_opt (put_triple put_f64) (daev_source_position p)) put_end))))"

definition wf_damage_event :: "damage_event \<Rightarrow> bool" where
  "wf_damage_event p \<longleftrightarrow> True"

interpretation damage_event: packet_codec damage_event_encode damage_event_decode wf_damage_event
  by unfold_locales
     (auto simp: damage_event_encode_def damage_event_decode_def wf_damage_event_def packet_wf intro!: carries_rules safe_rules)

record block_change =
  bc_block_position :: "i32 \<times> i32 \<times> i32"
  bc_block_state :: i32

definition block_change_id :: i32 where "block_change_id = 0x08"

definition block_change_decode :: "block_change io" where
  "block_change_decode =
     bindE get_position (\<lambda>block_position.
     bindE get_varint (\<lambda>block_state.
     ret \<lparr>bc_block_position = block_position, bc_block_state = block_state\<rparr>))"

definition block_change_encode :: "block_change \<Rightarrow> unit io" where
  "block_change_encode p =
    seqE (put_position (bc_block_position p))
    (seqE (put_varint (bc_block_state p)) put_end)"

definition wf_block_change :: "block_change \<Rightarrow> bool" where
  "wf_block_change p \<longleftrightarrow> wf_position (bc_block_position p)"

interpretation block_change: packet_codec block_change_encode block_change_decode wf_block_change
  by unfold_locales
     (auto simp: block_change_encode_def block_change_decode_def wf_block_change_def packet_wf intro!: carries_rules safe_rules)

record multi_block_change =
  mbc_chunk_section_position :: i64
  mbc_blocks :: "i64 list"

definition multi_block_change_id :: i32 where "multi_block_change_id = 0x52"

definition multi_block_change_decode :: "multi_block_change io" where
  "multi_block_change_decode =
     bindE get_i64 (\<lambda>chunk_section_position.
     bindE (get_varint_array get_i64) (\<lambda>blocks.
     ret \<lparr>mbc_chunk_section_position = chunk_section_position, mbc_blocks = blocks\<rparr>))"

definition multi_block_change_encode :: "multi_block_change \<Rightarrow> unit io" where
  "multi_block_change_encode p =
    seqE (put_i64 (mbc_chunk_section_position p))
    (seqE (put_varint_array put_i64 (mbc_blocks p)) put_end)"

definition wf_multi_block_change :: "multi_block_change \<Rightarrow> bool" where
  "wf_multi_block_change p \<longleftrightarrow> wf_array (\<lambda>_. True) (mbc_blocks p)"

interpretation multi_block_change: packet_codec multi_block_change_encode multi_block_change_decode wf_multi_block_change
  by unfold_locales
     (auto simp: multi_block_change_encode_def multi_block_change_decode_def wf_multi_block_change_def packet_wf intro!: carries_rules safe_rules)

record acknowledge_block_change =
  abc_sequence_id :: i32

definition acknowledge_block_change_id :: i32 where "acknowledge_block_change_id = 0x04"

definition acknowledge_block_change_decode :: "acknowledge_block_change io" where
  "acknowledge_block_change_decode =
     bindE get_varint (\<lambda>sequence_id.
     ret \<lparr>abc_sequence_id = sequence_id\<rparr>)"

definition acknowledge_block_change_encode :: "acknowledge_block_change \<Rightarrow> unit io" where
  "acknowledge_block_change_encode p =
    seqE (put_varint (abc_sequence_id p)) put_end"

definition wf_acknowledge_block_change :: "acknowledge_block_change \<Rightarrow> bool" where
  "wf_acknowledge_block_change p \<longleftrightarrow> True"

interpretation acknowledge_block_change: packet_codec acknowledge_block_change_encode acknowledge_block_change_decode wf_acknowledge_block_change
  by unfold_locales
     (auto simp: acknowledge_block_change_encode_def acknowledge_block_change_decode_def wf_acknowledge_block_change_def packet_wf intro!: carries_rules safe_rules)

record block_action =
  ba_block_position :: "i32 \<times> i32 \<times> i32"
  ba_action_id :: i8
  ba_action_param :: i8
  ba_block_type :: i32

definition block_action_id :: i32 where "block_action_id = 0x07"

definition block_action_decode :: "block_action io" where
  "block_action_decode =
     bindE get_position (\<lambda>block_position.
     bindE get_i8 (\<lambda>action_id.
     bindE get_i8 (\<lambda>action_param.
     bindE get_varint (\<lambda>block_type.
     ret \<lparr>ba_block_position = block_position, ba_action_id = action_id,
        ba_action_param = action_param, ba_block_type = block_type\<rparr>))))"

definition block_action_encode :: "block_action \<Rightarrow> unit io" where
  "block_action_encode p =
    seqE (put_position (ba_block_position p))
    (seqE (put_i8 (ba_action_id p))
    (seqE (put_i8 (ba_action_param p))
    (seqE (put_varint (ba_block_type p)) put_end)))"

definition wf_block_action :: "block_action \<Rightarrow> bool" where
  "wf_block_action p \<longleftrightarrow> wf_position (ba_block_position p)"

interpretation block_action: packet_codec block_action_encode block_action_decode wf_block_action
  by unfold_locales
     (auto simp: block_action_encode_def block_action_decode_def wf_block_action_def packet_wf intro!: carries_rules safe_rules)

record block_entity_data =
  bed_block_position :: "i32 \<times> i32 \<times> i32"
  bed_block_entity_type :: i32
  bed_nbt_data :: "u8 list"

definition block_entity_data_id :: i32 where "block_entity_data_id = 0x06"

definition block_entity_data_decode :: "block_entity_data io" where
  "block_entity_data_decode =
     bindE get_position (\<lambda>block_position.
     bindE get_varint (\<lambda>block_entity_type.
     bindE get_rest (\<lambda>nbt_data.
     ret \<lparr>bed_block_position = block_position, bed_block_entity_type = block_entity_type,
        bed_nbt_data = nbt_data\<rparr>)))"

definition block_entity_data_encode :: "block_entity_data \<Rightarrow> unit io" where
  "block_entity_data_encode p =
    seqE (put_position (bed_block_position p))
    (seqE (put_varint (bed_block_entity_type p))
    ((put_bytes (bed_nbt_data p))))"

definition wf_block_entity_data :: "block_entity_data \<Rightarrow> bool" where
  "wf_block_entity_data p \<longleftrightarrow> wf_position (bed_block_position p)"

lemma block_entity_data_body:
  "wf_block_entity_data p \<Longrightarrow> ends (block_entity_data_encode p) block_entity_data_decode p"
  by (cases p)
     (auto simp: block_entity_data_encode_def block_entity_data_decode_def wf_block_entity_data_def
       intro!: ends_bind ends_last [OF ends_rest] carries_rules)

interpretation block_entity_data: body_codec block_entity_data_encode block_entity_data_decode wf_block_entity_data
  by (unfold_locales, rule block_entity_data_body, assumption, unfold block_entity_data_decode_def) (intro safe_rules)

record block_break_animation =
  bba_entity_id :: i32
  bba_block_position :: "i32 \<times> i32 \<times> i32"
  bba_destroy_stage :: i8

definition block_break_animation_id :: i32 where "block_break_animation_id = 0x05"

definition block_break_animation_decode :: "block_break_animation io" where
  "block_break_animation_decode =
     bindE get_varint (\<lambda>entity_id.
     bindE get_position (\<lambda>block_position.
     bindE get_i8 (\<lambda>destroy_stage.
     ret \<lparr>bba_entity_id = entity_id, bba_block_position = block_position,
        bba_destroy_stage = destroy_stage\<rparr>)))"

definition block_break_animation_encode :: "block_break_animation \<Rightarrow> unit io" where
  "block_break_animation_encode p =
    seqE (put_varint (bba_entity_id p))
    (seqE (put_position (bba_block_position p))
    (seqE (put_i8 (bba_destroy_stage p)) put_end))"

definition wf_block_break_animation :: "block_break_animation \<Rightarrow> bool" where
  "wf_block_break_animation p \<longleftrightarrow> wf_position (bba_block_position p)"

interpretation block_break_animation: packet_codec block_break_animation_encode block_break_animation_decode wf_block_break_animation
  by unfold_locales
     (auto simp: block_break_animation_encode_def block_break_animation_decode_def wf_block_break_animation_def packet_wf intro!: carries_rules safe_rules)

record update_light =
  ul_chunk_x :: i32
  ul_chunk_z :: i32
  ul_sky_light_mask :: "i64 list"
  ul_block_light_mask :: "i64 list"
  ul_empty_sky_light_mask :: "i64 list"
  ul_empty_block_light_mask :: "i64 list"
  ul_sky_light :: "(u8 list) list"
  ul_block_light :: "(u8 list) list"

definition update_light_id :: i32 where "update_light_id = 0x2f"

definition update_light_decode :: "update_light io" where
  "update_light_decode =
     bindE get_varint (\<lambda>chunk_x.
     bindE get_varint (\<lambda>chunk_z.
     bindE (get_varint_array get_i64) (\<lambda>sky_light_mask.
     bindE (get_varint_array get_i64) (\<lambda>block_light_mask.
     bindE (get_varint_array get_i64) (\<lambda>empty_sky_light_mask.
     bindE (get_varint_array get_i64) (\<lambda>empty_block_light_mask.
     bindE (get_varint_array get_byte_array) (\<lambda>sky_light.
     bindE (get_varint_array get_byte_array) (\<lambda>block_light.
     ret \<lparr>ul_chunk_x = chunk_x, ul_chunk_z = chunk_z, ul_sky_light_mask = sky_light_mask,
        ul_block_light_mask = block_light_mask, ul_empty_sky_light_mask = empty_sky_light_mask,
        ul_empty_block_light_mask = empty_block_light_mask, ul_sky_light = sky_light,
        ul_block_light = block_light\<rparr>))))))))"

definition update_light_encode :: "update_light \<Rightarrow> unit io" where
  "update_light_encode p =
    seqE (put_varint (ul_chunk_x p))
    (seqE (put_varint (ul_chunk_z p))
    (seqE (put_varint_array put_i64 (ul_sky_light_mask p))
    (seqE (put_varint_array put_i64 (ul_block_light_mask p))
    (seqE (put_varint_array put_i64 (ul_empty_sky_light_mask p))
    (seqE (put_varint_array put_i64 (ul_empty_block_light_mask p))
    (seqE (put_varint_array put_byte_array (ul_sky_light p))
    (seqE (put_varint_array put_byte_array (ul_block_light p)) put_end)))))))"

definition wf_update_light :: "update_light \<Rightarrow> bool" where
  "wf_update_light p \<longleftrightarrow> wf_array (\<lambda>_. True) (ul_sky_light_mask p) \<and>
     wf_array (\<lambda>_. True) (ul_block_light_mask p) \<and>
     wf_array (\<lambda>_. True) (ul_empty_sky_light_mask p) \<and>
     wf_array (\<lambda>_. True) (ul_empty_block_light_mask p) \<and>
     wf_array wf_bytes (ul_sky_light p) \<and> wf_array wf_bytes (ul_block_light p)"

interpretation update_light: packet_codec update_light_encode update_light_decode wf_update_light
  by unfold_locales
     (auto simp: update_light_encode_def update_light_decode_def wf_update_light_def packet_wf intro!: carries_rules safe_rules)

record chunk_biome_data =
  cbd_chunk_x :: i32
  cbd_chunk_z :: i32
  cbd_data :: "u8 list"

definition get_chunk_biome_data :: "chunk_biome_data io" where
  "get_chunk_biome_data =
     bindE get_i32 (\<lambda>chunk_z.
     bindE get_i32 (\<lambda>chunk_x.
     bindE get_byte_array (\<lambda>data.
     ret \<lparr>cbd_chunk_x = chunk_x, cbd_chunk_z = chunk_z, cbd_data = data\<rparr>)))"

definition put_chunk_biome_data :: "chunk_biome_data \<Rightarrow> unit io" where
  "put_chunk_biome_data p =
    seqE (put_i32 (cbd_chunk_z p))
    (seqE (put_i32 (cbd_chunk_x p))
    (seqE (put_byte_array (cbd_data p)) put_end))"

definition wf_chunk_biome_data :: "chunk_biome_data \<Rightarrow> bool" where
  "wf_chunk_biome_data p \<longleftrightarrow> wf_bytes (cbd_data p)"

lemma carries_chunk_biome_data [carries_rules]: "wf_chunk_biome_data p \<Longrightarrow> carries (put_chunk_biome_data p) get_chunk_biome_data p"
  by (auto simp: put_chunk_biome_data_def get_chunk_biome_data_def wf_chunk_biome_data_def packet_wf intro!: carries_rules)

lemma safe_chunk_biome_data [safe_rules]: "cursor_safe get_chunk_biome_data"
  unfolding get_chunk_biome_data_def by (intro safe_rules)

record chunk_biomes =
  cb_chunks :: "chunk_biome_data list"

definition chunk_biomes_id :: i32 where "chunk_biomes_id = 0x0d"

definition chunk_biomes_decode :: "chunk_biomes io" where
  "chunk_biomes_decode =
     bindE (get_varint_array get_chunk_biome_data) (\<lambda>chunks.
     ret \<lparr>cb_chunks = chunks\<rparr>)"

definition chunk_biomes_encode :: "chunk_biomes \<Rightarrow> unit io" where
  "chunk_biomes_encode p =
    seqE (put_varint_array put_chunk_biome_data (cb_chunks p)) put_end"

definition wf_chunk_biomes :: "chunk_biomes \<Rightarrow> bool" where
  "wf_chunk_biomes p \<longleftrightarrow> wf_array wf_chunk_biome_data (cb_chunks p)"

interpretation chunk_biomes: packet_codec chunk_biomes_encode chunk_biomes_decode wf_chunk_biomes
  by unfold_locales
     (auto simp: chunk_biomes_encode_def chunk_biomes_decode_def wf_chunk_biomes_def packet_wf intro!: carries_rules safe_rules)

record unload_chunk =
  uc_chunk_x :: i32
  uc_chunk_z :: i32

definition unload_chunk_id :: i32 where "unload_chunk_id = 0x25"

definition unload_chunk_decode :: "unload_chunk io" where
  "unload_chunk_decode =
     bindE get_i32 (\<lambda>chunk_z.
     bindE get_i32 (\<lambda>chunk_x.
     ret \<lparr>uc_chunk_x = chunk_x, uc_chunk_z = chunk_z\<rparr>))"

definition unload_chunk_encode :: "unload_chunk \<Rightarrow> unit io" where
  "unload_chunk_encode p =
    seqE (put_i32 (uc_chunk_z p))
    (seqE (put_i32 (uc_chunk_x p)) put_end)"

definition wf_unload_chunk :: "unload_chunk \<Rightarrow> bool" where
  "wf_unload_chunk p \<longleftrightarrow> True"

interpretation unload_chunk: packet_codec unload_chunk_encode unload_chunk_decode wf_unload_chunk
  by unfold_locales
     (auto simp: unload_chunk_encode_def unload_chunk_decode_def wf_unload_chunk_def packet_wf intro!: carries_rules safe_rules)

end
