(* ===== verification/Packets_Client_B.thy ===== *)
theory Packets_Client_B
  imports Client_Codec
begin

text \<open>
  Clientbound packets of the play phase, second part (\<open>protocol/packets/play.rs\<close>): the contents of windows
  and the equipment of entities, chunks, the login packet and the user interface.
\<close>

record world_event =
  we_event :: i32
  we_block_position :: "i32 \<times> i32 \<times> i32"
  we_data :: i32
  we_disable_relative_volume :: bool

definition world_event_id :: i32 where "world_event_id = 0x2d"

definition world_event_decode :: "world_event io" where
  "world_event_decode =
     bindE get_i32 (\<lambda>event.
     bindE get_position (\<lambda>block_position.
     bindE get_i32 (\<lambda>data.
     bindE get_bool (\<lambda>disable_relative_volume.
     ret \<lparr>we_event = event, we_block_position = block_position, we_data = data,
        we_disable_relative_volume = disable_relative_volume\<rparr>))))"

definition world_event_encode :: "world_event \<Rightarrow> unit io" where
  "world_event_encode p =
    seqE (put_i32 (we_event p))
    (seqE (put_position (we_block_position p))
    (seqE (put_i32 (we_data p))
    (seqE (put_bool (we_disable_relative_volume p)) put_end)))"

definition wf_world_event :: "world_event \<Rightarrow> bool" where
  "wf_world_event p \<longleftrightarrow> wf_position (we_block_position p)"

interpretation world_event: packet_codec world_event_encode world_event_decode wf_world_event
  by unfold_locales
     (auto simp: world_event_encode_def world_event_decode_def wf_world_event_def packet_wf intro!: carries_rules safe_rules)

record particle_cb =
  pacb_particle_id :: i32
  pacb_long_distance :: bool
  pacb_x :: f64
  pacb_y :: f64
  pacb_z :: f64
  pacb_offset_x :: f32
  pacb_offset_y :: f32
  pacb_offset_z :: f32
  pacb_max_speed :: f32
  pacb_particle_count :: i32

definition particle_cb_id :: i32 where "particle_cb_id = 0x2e"

definition particle_cb_decode :: "particle_cb io" where
  "particle_cb_decode =
     bindE get_varint (\<lambda>particle_id.
     bindE get_bool (\<lambda>long_distance.
     bindE get_f64 (\<lambda>x.
     bindE get_f64 (\<lambda>y.
     bindE get_f64 (\<lambda>z.
     bindE get_f32 (\<lambda>offset_x.
     bindE get_f32 (\<lambda>offset_y.
     bindE get_f32 (\<lambda>offset_z.
     bindE get_f32 (\<lambda>max_speed.
     bindE get_varint (\<lambda>particle_count.
     ret \<lparr>pacb_particle_id = particle_id, pacb_long_distance = long_distance, pacb_x = x,
        pacb_y = y, pacb_z = z, pacb_offset_x = offset_x, pacb_offset_y = offset_y,
        pacb_offset_z = offset_z, pacb_max_speed = max_speed,
        pacb_particle_count = particle_count\<rparr>))))))))))"

definition particle_cb_encode :: "particle_cb \<Rightarrow> unit io" where
  "particle_cb_encode p =
    seqE (put_varint (pacb_particle_id p))
    (seqE (put_bool (pacb_long_distance p))
    (seqE (put_f64 (pacb_x p))
    (seqE (put_f64 (pacb_y p))
    (seqE (put_f64 (pacb_z p))
    (seqE (put_f32 (pacb_offset_x p))
    (seqE (put_f32 (pacb_offset_y p))
    (seqE (put_f32 (pacb_offset_z p))
    (seqE (put_f32 (pacb_max_speed p))
    (seqE (put_varint (pacb_particle_count p)) put_end)))))))))"

definition wf_particle_cb :: "particle_cb \<Rightarrow> bool" where
  "wf_particle_cb p \<longleftrightarrow> True"

interpretation particle_cb: packet_codec particle_cb_encode particle_cb_decode wf_particle_cb
  by unfold_locales
     (auto simp: particle_cb_encode_def particle_cb_decode_def wf_particle_cb_def packet_wf intro!: carries_rules safe_rules)

record explosion_record =
  exre_xz :: i8
  exre_y :: i8

definition get_explosion_record :: "explosion_record io" where
  "get_explosion_record =
     bindE get_i8 (\<lambda>xz.
     bindE get_i8 (\<lambda>y.
     ret \<lparr>exre_xz = xz, exre_y = y\<rparr>))"

definition put_explosion_record :: "explosion_record \<Rightarrow> unit io" where
  "put_explosion_record p =
    seqE (put_i8 (exre_xz p))
    (seqE (put_i8 (exre_y p)) put_end)"

definition wf_explosion_record :: "explosion_record \<Rightarrow> bool" where
  "wf_explosion_record p \<longleftrightarrow> True"

lemma carries_explosion_record [carries_rules]: "wf_explosion_record p \<Longrightarrow> carries (put_explosion_record p) get_explosion_record p"
  by (auto simp: put_explosion_record_def get_explosion_record_def wf_explosion_record_def packet_wf intro!: carries_rules)

lemma safe_explosion_record [safe_rules]: "cursor_safe get_explosion_record"
  unfolding get_explosion_record_def by (intro safe_rules)

record explosion_cb =
  ec_x :: f32
  ec_y :: f32
  ec_z :: f32
  ec_strength :: f32
  ec_records :: "explosion_record list"
  ec_player_motion_x :: f32
  ec_player_motion_y :: f32
  ec_player_motion_z :: f32

definition explosion_cb_id :: i32 where "explosion_cb_id = 0x24"

definition explosion_cb_decode :: "explosion_cb io" where
  "explosion_cb_decode =
     bindE get_f32 (\<lambda>x.
     bindE get_f32 (\<lambda>y.
     bindE get_f32 (\<lambda>z.
     bindE get_f32 (\<lambda>strength.
     bindE (get_varint_array get_explosion_record) (\<lambda>records.
     bindE get_f32 (\<lambda>player_motion_x.
     bindE get_f32 (\<lambda>player_motion_y.
     bindE get_f32 (\<lambda>player_motion_z.
     ret \<lparr>ec_x = x, ec_y = y, ec_z = z, ec_strength = strength, ec_records = records,
        ec_player_motion_x = player_motion_x, ec_player_motion_y = player_motion_y,
        ec_player_motion_z = player_motion_z\<rparr>))))))))"

definition explosion_cb_encode :: "explosion_cb \<Rightarrow> unit io" where
  "explosion_cb_encode p =
    seqE (put_f32 (ec_x p))
    (seqE (put_f32 (ec_y p))
    (seqE (put_f32 (ec_z p))
    (seqE (put_f32 (ec_strength p))
    (seqE (put_varint_array put_explosion_record (ec_records p))
    (seqE (put_f32 (ec_player_motion_x p))
    (seqE (put_f32 (ec_player_motion_y p))
    (seqE (put_f32 (ec_player_motion_z p)) put_end)))))))"

definition wf_explosion_cb :: "explosion_cb \<Rightarrow> bool" where
  "wf_explosion_cb p \<longleftrightarrow> wf_array wf_explosion_record (ec_records p)"

interpretation explosion_cb: packet_codec explosion_cb_encode explosion_cb_decode wf_explosion_cb
  by unfold_locales
     (auto simp: explosion_cb_encode_def explosion_cb_decode_def wf_explosion_cb_def packet_wf intro!: carries_rules safe_rules)

record sound_effect =
  soef_sound_id :: i32
  soef_sound_category :: i32
  soef_x :: i32
  soef_y :: i32
  soef_z :: i32
  soef_volume :: f32
  soef_pitch :: f32
  soef_seed :: i64

definition sound_effect_id :: i32 where "sound_effect_id = 0x73"

definition sound_effect_decode :: "sound_effect io" where
  "sound_effect_decode =
     bindE get_varint (\<lambda>sound_id.
     bindE get_varint (\<lambda>sound_category.
     bindE get_i32 (\<lambda>x.
     bindE get_i32 (\<lambda>y.
     bindE get_i32 (\<lambda>z.
     bindE get_f32 (\<lambda>volume.
     bindE get_f32 (\<lambda>pitch.
     bindE get_i64 (\<lambda>seed.
     ret \<lparr>soef_sound_id = sound_id, soef_sound_category = sound_category, soef_x = x,
        soef_y = y, soef_z = z, soef_volume = volume, soef_pitch = pitch,
        soef_seed = seed\<rparr>))))))))"

definition sound_effect_encode :: "sound_effect \<Rightarrow> unit io" where
  "sound_effect_encode p =
    seqE (put_varint (soef_sound_id p))
    (seqE (put_varint (soef_sound_category p))
    (seqE (put_i32 (soef_x p))
    (seqE (put_i32 (soef_y p))
    (seqE (put_i32 (soef_z p))
    (seqE (put_f32 (soef_volume p))
    (seqE (put_f32 (soef_pitch p))
    (seqE (put_i64 (soef_seed p)) put_end)))))))"

definition wf_sound_effect :: "sound_effect \<Rightarrow> bool" where
  "wf_sound_effect p \<longleftrightarrow> True"

interpretation sound_effect: packet_codec sound_effect_encode sound_effect_decode wf_sound_effect
  by unfold_locales
     (auto simp: sound_effect_encode_def sound_effect_decode_def wf_sound_effect_def packet_wf intro!: carries_rules safe_rules)

record entity_sound_effect =
  ese_sound_id :: i32
  ese_sound_category :: i32
  ese_entity_id :: i32
  ese_volume :: f32
  ese_pitch :: f32
  ese_seed :: i64

definition entity_sound_effect_id :: i32 where "entity_sound_effect_id = 0x72"

definition entity_sound_effect_decode :: "entity_sound_effect io" where
  "entity_sound_effect_decode =
     bindE get_varint (\<lambda>sound_id.
     bindE get_varint (\<lambda>sound_category.
     bindE get_varint (\<lambda>entity_id.
     bindE get_f32 (\<lambda>volume.
     bindE get_f32 (\<lambda>pitch.
     bindE get_i64 (\<lambda>seed.
     ret \<lparr>ese_sound_id = sound_id, ese_sound_category = sound_category,
        ese_entity_id = entity_id, ese_volume = volume, ese_pitch = pitch,
        ese_seed = seed\<rparr>))))))"

definition entity_sound_effect_encode :: "entity_sound_effect \<Rightarrow> unit io" where
  "entity_sound_effect_encode p =
    seqE (put_varint (ese_sound_id p))
    (seqE (put_varint (ese_sound_category p))
    (seqE (put_varint (ese_entity_id p))
    (seqE (put_f32 (ese_volume p))
    (seqE (put_f32 (ese_pitch p))
    (seqE (put_i64 (ese_seed p)) put_end)))))"

definition wf_entity_sound_effect :: "entity_sound_effect \<Rightarrow> bool" where
  "wf_entity_sound_effect p \<longleftrightarrow> True"

interpretation entity_sound_effect: packet_codec entity_sound_effect_encode entity_sound_effect_decode wf_entity_sound_effect
  by unfold_locales
     (auto simp: entity_sound_effect_encode_def entity_sound_effect_decode_def wf_entity_sound_effect_def packet_wf intro!: carries_rules safe_rules)

record stop_sound =
  stso_flags :: u8
  stso_source :: "i32 option"
  stso_sound :: "rstring option"

definition stop_sound_id :: i32 where "stop_sound_id = 0x75"

definition stop_sound_decode :: "stop_sound io" where
  "stop_sound_decode =
     bindE get_u8 (\<lambda>flags.
     bindE (get_when (flags AND 0x01 \<noteq> 0) get_varint) (\<lambda>source.
     bindE (get_when (flags AND 0x02 \<noteq> 0) get_string) (\<lambda>sound.
     ret \<lparr>stso_flags = flags, stso_source = source, stso_sound = sound\<rparr>)))"

definition stop_sound_encode :: "stop_sound \<Rightarrow> unit io" where
  "stop_sound_encode p =
    seqE (put_u8 (stso_flags p))
    (seqE (if stso_flags p AND 0x01 \<noteq> 0
           then bindE (ok_or (stso_source p) UnexpectedEof) put_varint else ret ())
    (seqE (if stso_flags p AND 0x02 \<noteq> 0
           then bindE (ok_or (stso_sound p) UnexpectedEof) put_string else ret ()) put_end))"

definition wf_stop_sound :: "stop_sound \<Rightarrow> bool" where
  "wf_stop_sound p \<longleftrightarrow> (stso_flags p AND 0x01 \<noteq> 0) = (stso_source p \<noteq> None) \<and>
     (stso_flags p AND 0x02 \<noteq> 0) = (stso_sound p \<noteq> None) \<and> pred_option wf_string (stso_sound p)"

lemma put_flagged:
  "c = (x \<noteq> None) \<Longrightarrow> (if c then bindE (ok_or x e) w else ret ()) = put_when w x"
  by (cases x) (auto simp: put_when_def ok_or_def bindE_def ret_def)

interpretation stop_sound: packet_codec stop_sound_encode stop_sound_decode wf_stop_sound
proof
  fix p
  assume wf: "wf_stop_sound p"
  then have enc: "stop_sound_encode p = seqE (put_u8 (stso_flags p))
      (seqE (put_when put_varint (stso_source p)) (seqE (put_when put_string (stso_sound p)) put_end))"
    unfolding stop_sound_encode_def wf_stop_sound_def by (simp only: put_flagged)
  show "carries (stop_sound_encode p) stop_sound_decode p"
    unfolding enc stop_sound_decode_def using wf
    by (auto simp: wf_stop_sound_def intro!: carries_rules)
qed (auto simp: stop_sound_decode_def intro!: safe_rules)

record tag_entry_cb =
  tec_name :: rstring
  tec_entries :: "i32 list"

definition get_tag_entry_cb :: "tag_entry_cb io" where
  "get_tag_entry_cb =
     bindE get_string (\<lambda>name.
     bindE (get_varint_array get_varint) (\<lambda>entries.
     ret \<lparr>tec_name = name, tec_entries = entries\<rparr>))"

definition put_tag_entry_cb :: "tag_entry_cb \<Rightarrow> unit io" where
  "put_tag_entry_cb p =
    seqE (put_string (tec_name p))
    (seqE (put_varint_array put_varint (tec_entries p)) put_end)"

definition wf_tag_entry_cb :: "tag_entry_cb \<Rightarrow> bool" where
  "wf_tag_entry_cb p \<longleftrightarrow> wf_string (tec_name p) \<and> wf_array (\<lambda>_. True) (tec_entries p)"

lemma carries_tag_entry_cb [carries_rules]: "wf_tag_entry_cb p \<Longrightarrow> carries (put_tag_entry_cb p) get_tag_entry_cb p"
  by (auto simp: put_tag_entry_cb_def get_tag_entry_cb_def wf_tag_entry_cb_def packet_wf intro!: carries_rules)

lemma safe_tag_entry_cb [safe_rules]: "cursor_safe get_tag_entry_cb"
  unfolding get_tag_entry_cb_def by (intro safe_rules)

record tags_registry =
  tare_registry :: rstring
  tare_tags :: "tag_entry_cb list"

definition get_tags_registry :: "tags_registry io" where
  "get_tags_registry =
     bindE get_string (\<lambda>registry.
     bindE (get_varint_array get_tag_entry_cb) (\<lambda>tags.
     ret \<lparr>tare_registry = registry, tare_tags = tags\<rparr>))"

definition put_tags_registry :: "tags_registry \<Rightarrow> unit io" where
  "put_tags_registry p =
    seqE (put_string (tare_registry p))
    (seqE (put_varint_array put_tag_entry_cb (tare_tags p)) put_end)"

definition wf_tags_registry :: "tags_registry \<Rightarrow> bool" where
  "wf_tags_registry p \<longleftrightarrow> wf_string (tare_registry p) \<and> wf_array wf_tag_entry_cb (tare_tags p)"

lemma carries_tags_registry [carries_rules]: "wf_tags_registry p \<Longrightarrow> carries (put_tags_registry p) get_tags_registry p"
  by (auto simp: put_tags_registry_def get_tags_registry_def wf_tags_registry_def packet_wf intro!: carries_rules)

lemma safe_tags_registry [safe_rules]: "cursor_safe get_tags_registry"
  unfolding get_tags_registry_def by (intro safe_rules)

record tags =
  ta_registries :: "tags_registry list"

definition tags_id :: i32 where "tags_id = 0x84"

definition tags_decode :: "tags io" where
  "tags_decode =
     bindE (get_varint_array get_tags_registry) (\<lambda>registries.
     ret \<lparr>ta_registries = registries\<rparr>)"

definition tags_encode :: "tags \<Rightarrow> unit io" where
  "tags_encode p =
    seqE (put_varint_array put_tags_registry (ta_registries p)) put_end"

definition wf_tags :: "tags \<Rightarrow> bool" where
  "wf_tags p \<longleftrightarrow> wf_array wf_tags_registry (ta_registries p)"

interpretation tags: packet_codec tags_encode tags_decode wf_tags
  by unfold_locales
     (auto simp: tags_encode_def tags_decode_def wf_tags_def packet_wf intro!: carries_rules safe_rules)

record server_data =
  seda_motd :: rstring
  seda_icon :: "u8 list option"
  seda_enforces_secure_chat :: bool

definition server_data_id :: i32 where "server_data_id = 0x54"

text \<open>What follows the compound is read from a buffer of its own.\<close>

definition server_data_tail :: "(u8 list option \<times> bool) io" where
  "server_data_tail = bindE (get_opt get_byte_array) (\<lambda>icon. bindE get_bool (\<lambda>e. ret (icon, e)))"

definition server_data_decode :: "server_data io" where
  "server_data_decode =
     bindE get_u8 (\<lambda>tag_id.
     if tag_id \<noteq> 0x0A then throw UnexpectedEof
     else bindE get_rest (\<lambda>rest.
     case decode_anonymous rest of
       Inl _ \<Rightarrow> throw UnexpectedEof
     | Inr (tag, consumed) \<Rightarrow>
         if length rest < consumed then throw UnexpectedEof
         else (case fst (server_data_tail (bb_new (drop consumed rest))) of
             Inl e \<Rightarrow> throw e
           | Inr (icon, enforces) \<Rightarrow>
               ret \<lparr>seda_motd = text_field tag, seda_icon = icon, seda_enforces_secure_chat = enforces\<rparr>)))"

definition server_data_encode :: "server_data \<Rightarrow> unit io" where
  "server_data_encode p =
    (case encode_anonymous (text_compound (seda_motd p)) of
       Inl _ \<Rightarrow> throw UnexpectedEof
     | Inr nbt \<Rightarrow> seqE (put_u8 0x0A) (seqE (put_bytes nbt)
         (seqE (put_opt put_byte_array (seda_icon p))
         (seqE (put_bool (seda_enforces_secure_chat p)) put_end))))"

definition wf_server_data :: "server_data \<Rightarrow> bool" where
  "wf_server_data p \<longleftrightarrow> wf_text (seda_motd p) \<and> pred_option wf_bytes (seda_icon p)"

lemma server_data_body:
  assumes "wf_server_data p"
  shows "ends (server_data_encode p) server_data_decode p"
proof -
  obtain bs where enc: "encode_anonymous (text_compound (seda_motd p)) = Inr bs"
    and dec: "\<And>rest. decode_anonymous (bs @ rest) = Inr (text_compound (seda_motd p), length bs)"
    using text_encoding assms unfolding wf_server_data_def by blast
  have "carries (seqE (put_opt put_byte_array (seda_icon p)) (seqE (put_bool (seda_enforces_secure_chat p)) put_end))
      server_data_tail (seda_icon p, seda_enforces_secure_chat p)"
    using assms by (auto simp: server_data_tail_def wf_server_data_def packet_wf intro!: carries_rules)
  then obtain ts where t: "writes (seqE (put_opt put_byte_array (seda_icon p))
        (seqE (put_bool (seda_enforces_secure_chat p)) put_end)) ts"
    and r: "reads server_data_tail ts (seda_icon p, seda_enforces_secure_chat p)"
    by (auto simp: carries_def)
  have "writes (server_data_encode p) ([0x0A] @ bs @ ts)"
    unfolding server_data_encode_def enc sum.case put_u8_def put_bytes_def
    by (intro writes_bind writes_put_raw t)
  moreover have "fst (server_data_decode (cursor pre ([0x0A] @ bs @ ts))) = Inr p" for pre
  proof -
    have "server_data_tail (cursor [] (ts @ [])) = (Inr (seda_icon p, seda_enforces_secure_chat p), cursor ([] @ ts) [])"
      using r unfolding reads_def by blast
    moreover have "cursor [] (ts @ []) = bb_new ts" by (simp add: cursor_def bb_new_def)
    ultimately have tail: "fst (server_data_tail (bb_new ts)) = Inr (seda_icon p, seda_enforces_secure_chat p)"
      by simp
    show ?thesis
      by (simp add: server_data_decode_def bindE_def get_rest_cursor dec tail ret_def text_field_compound)
  qed
  ultimately show ?thesis by (auto simp: ends_def)
qed

lemma safe_server_data: "cursor_safe server_data_decode"
  unfolding server_data_decode_def
  by (intro safe_bind safe_get_u8 safe_if safe_throw safe_rest)
     (auto intro!: safe_rules split: sum.split)

interpretation server_data: body_codec server_data_encode server_data_decode wf_server_data
  by (unfold_locales, rule server_data_body, assumption, rule safe_server_data)

record time_update =
  tu_world_age :: i64
  tu_time_of_day :: i64
  tu_tick_day_time :: bool

definition time_update_id :: i32 where "time_update_id = 0x6f"

definition time_update_decode :: "time_update io" where
  "time_update_decode =
     bindE get_i64 (\<lambda>world_age.
     bindE get_i64 (\<lambda>time_of_day.
     bindE get_bool (\<lambda>tick_day_time.
     ret \<lparr>tu_world_age = world_age, tu_time_of_day = time_of_day,
        tu_tick_day_time = tick_day_time\<rparr>)))"

definition time_update_encode :: "time_update \<Rightarrow> unit io" where
  "time_update_encode p =
    seqE (put_i64 (tu_world_age p))
    (seqE (put_i64 (tu_time_of_day p))
    (seqE (put_bool (tu_tick_day_time p)) put_end))"

definition wf_time_update :: "time_update \<Rightarrow> bool" where
  "wf_time_update p \<longleftrightarrow> True"

interpretation time_update: packet_codec time_update_encode time_update_decode wf_time_update
  by unfold_locales
     (auto simp: time_update_encode_def time_update_decode_def wf_time_update_def packet_wf intro!: carries_rules safe_rules)

record set_tick_state =
  sts_tick_rate :: f32
  sts_is_frozen :: bool

definition set_tick_state_id :: i32 where "set_tick_state_id = 0x7d"

definition set_tick_state_decode :: "set_tick_state io" where
  "set_tick_state_decode =
     bindE get_f32 (\<lambda>tick_rate.
     bindE get_bool (\<lambda>is_frozen.
     ret \<lparr>sts_tick_rate = tick_rate, sts_is_frozen = is_frozen\<rparr>))"

definition set_tick_state_encode :: "set_tick_state \<Rightarrow> unit io" where
  "set_tick_state_encode p =
    seqE (put_f32 (sts_tick_rate p))
    (seqE (put_bool (sts_is_frozen p)) put_end)"

definition wf_set_tick_state :: "set_tick_state \<Rightarrow> bool" where
  "wf_set_tick_state p \<longleftrightarrow> True"

interpretation set_tick_state: packet_codec set_tick_state_encode set_tick_state_decode wf_set_tick_state
  by unfold_locales
     (auto simp: set_tick_state_encode_def set_tick_state_decode_def wf_set_tick_state_def packet_wf intro!: carries_rules safe_rules)

record tick_step =
  ts_tick_steps :: i32

definition tick_step_id :: i32 where "tick_step_id = 0x7e"

definition tick_step_decode :: "tick_step io" where
  "tick_step_decode =
     bindE get_varint (\<lambda>tick_steps.
     ret \<lparr>ts_tick_steps = tick_steps\<rparr>)"

definition tick_step_encode :: "tick_step \<Rightarrow> unit io" where
  "tick_step_encode p =
    seqE (put_varint (ts_tick_steps p)) put_end"

definition wf_tick_step :: "tick_step \<Rightarrow> bool" where
  "wf_tick_step p \<longleftrightarrow> True"

interpretation tick_step: packet_codec tick_step_encode tick_step_decode wf_tick_step
  by unfold_locales
     (auto simp: tick_step_encode_def tick_step_decode_def wf_tick_step_def packet_wf intro!: carries_rules safe_rules)

record update_simulation_distance =
  usd_simulation_distance :: i32

definition update_simulation_distance_id :: i32 where "update_simulation_distance_id = 0x6d"

definition update_simulation_distance_decode :: "update_simulation_distance io" where
  "update_simulation_distance_decode =
     bindE get_varint (\<lambda>simulation_distance.
     ret \<lparr>usd_simulation_distance = simulation_distance\<rparr>)"

definition update_simulation_distance_encode :: "update_simulation_distance \<Rightarrow> unit io" where
  "update_simulation_distance_encode p =
    seqE (put_varint (usd_simulation_distance p)) put_end"

definition wf_update_simulation_distance :: "update_simulation_distance \<Rightarrow> bool" where
  "wf_update_simulation_distance p \<longleftrightarrow> True"

interpretation update_simulation_distance: packet_codec update_simulation_distance_encode update_simulation_distance_decode wf_update_simulation_distance
  by unfold_locales
     (auto simp: update_simulation_distance_encode_def update_simulation_distance_decode_def wf_update_simulation_distance_def packet_wf intro!: carries_rules safe_rules)

record update_view_position =
  uvp_chunk_x :: i32
  uvp_chunk_z :: i32

definition update_view_position_id :: i32 where "update_view_position_id = 0x5c"

definition update_view_position_decode :: "update_view_position io" where
  "update_view_position_decode =
     bindE get_varint (\<lambda>chunk_x.
     bindE get_varint (\<lambda>chunk_z.
     ret \<lparr>uvp_chunk_x = chunk_x, uvp_chunk_z = chunk_z\<rparr>))"

definition update_view_position_encode :: "update_view_position \<Rightarrow> unit io" where
  "update_view_position_encode p =
    seqE (put_varint (uvp_chunk_x p))
    (seqE (put_varint (uvp_chunk_z p)) put_end)"

definition wf_update_view_position :: "update_view_position \<Rightarrow> bool" where
  "wf_update_view_position p \<longleftrightarrow> True"

interpretation update_view_position: packet_codec update_view_position_encode update_view_position_decode wf_update_view_position
  by unfold_locales
     (auto simp: update_view_position_encode_def update_view_position_decode_def wf_update_view_position_def packet_wf intro!: carries_rules safe_rules)

record update_view_distance =
  uvd_view_distance :: i32

definition update_view_distance_id :: i32 where "update_view_distance_id = 0x5d"

definition update_view_distance_decode :: "update_view_distance io" where
  "update_view_distance_decode =
     bindE get_varint (\<lambda>view_distance.
     ret \<lparr>uvd_view_distance = view_distance\<rparr>)"

definition update_view_distance_encode :: "update_view_distance \<Rightarrow> unit io" where
  "update_view_distance_encode p =
    seqE (put_varint (uvd_view_distance p)) put_end"

definition wf_update_view_distance :: "update_view_distance \<Rightarrow> bool" where
  "wf_update_view_distance p \<longleftrightarrow> True"

interpretation update_view_distance: packet_codec update_view_distance_encode update_view_distance_decode wf_update_view_distance
  by unfold_locales
     (auto simp: update_view_distance_encode_def update_view_distance_decode_def wf_update_view_distance_def packet_wf intro!: carries_rules safe_rules)

record window_items_packet =
  wip_window_id :: i32
  wip_state_id :: i32
  wip_items :: "item_stack list"
  wip_carried_item :: item_stack

definition window_items_packet_id :: i32 where "window_items_packet_id = 0x12"

text \<open>A negative count reads as none.\<close>

definition get_items :: "item_stack list io" where
  "get_items = bindE get_varint (\<lambda>n.
     bindE (ok_or (i32_to_usize (if sint n < 0 then 0 else n)) UnexpectedEof) (\<lambda>m. get_n m decode_item_stack))"

definition window_items_packet_decode :: "window_items_packet io" where
  "window_items_packet_decode =
     bindE get_varint (\<lambda>window_id.
     bindE get_varint (\<lambda>state_id.
     bindE get_items (\<lambda>items.
     bindE decode_item_stack (\<lambda>carried_item.
     ret \<lparr>wip_window_id = window_id, wip_state_id = state_id, wip_items = items,
        wip_carried_item = carried_item\<rparr>))))"

definition window_items_packet_encode :: "window_items_packet \<Rightarrow> unit io" where
  "window_items_packet_encode p =
    bindE (ok_or (usize_to_i32 (length (wip_items p))) UnexpectedEof) (\<lambda>count.
    seqE (put_varint (wip_window_id p))
    (seqE (put_varint (wip_state_id p))
    (seqE (put_varint count)
    (seqE (put_each encode_item_stack (wip_items p))
    (encode_item_stack (wip_carried_item p))))))"

definition wf_window_items_packet :: "window_items_packet \<Rightarrow> bool" where
  "wf_window_items_packet p \<longleftrightarrow> wf_array normal_item (wip_items p) \<and> normal_item (wip_carried_item p)"

lemma carries_items:
  assumes "length vs < 2 ^ 31" and "\<And>v. v \<in> set vs \<Longrightarrow> carries (encode_item_stack v) decode_item_stack v"
  shows "carries (seqE (put_varint (word_of_nat (length vs))) (put_each encode_item_stack vs)) get_items vs"
proof -
  have "i32_to_usize (if sint (word_of_nat (length vs) :: i32) < 0 then 0 else word_of_nat (length vs)) = Some (length vs)"
    using i32_to_usize_of_nat [OF assms(1)] by (auto simp: i32_to_usize_def split: if_splits)
  then show ?thesis
    unfolding get_items_def by (intro carries_bind [OF carries_varint]) (simp add: carries_each assms(2))
qed

lemma safe_items: "cursor_safe get_items"
  unfolding get_items_def by (intro safe_rules)

interpretation window_items_packet: packet_codec window_items_packet_encode window_items_packet_decode
    wf_window_items_packet
proof
  fix p
  assume wf: "wf_window_items_packet p"
  then have len: "length (wip_items p) < 2 ^ 31" by (simp add: wf_window_items_packet_def wf_array_def)
  have item: "carries (encode_item_stack v) decode_item_stack v" if "normal_item v" for v
    using that by (auto simp: normal_item_def intro!: carries_rules)
  have items: "carries (seqE (put_varint (word_of_nat (length (wip_items p)))) (put_each encode_item_stack (wip_items p)))
      get_items (wip_items p)"
    using wf by (intro carries_items [OF len] item) (auto simp: wf_window_items_packet_def packet_wf)
  have cur: "carries (encode_item_stack (wip_carried_item p)) decode_item_stack (wip_carried_item p)"
    using wf by (intro item) (simp add: wf_window_items_packet_def)
  have "window_items_packet_encode p = seqE (put_varint (wip_window_id p)) (seqE (put_varint (wip_state_id p))
      (seqE (seqE (put_varint (word_of_nat (length (wip_items p)))) (put_each encode_item_stack (wip_items p)))
        (encode_item_stack (wip_carried_item p))))"
    using len by (simp add: window_items_packet_encode_def usize_to_i32_def bindE_assoc)
  then show "carries (window_items_packet_encode p) window_items_packet_decode p"
    unfolding window_items_packet_decode_def
    by (simp only:) (intro carries_bind [OF carries_varint] carries_bind [OF items] carries_tail [OF cur],
      simp add: carries_ret)
qed (auto simp: window_items_packet_decode_def intro!: safe_rules safe_items)

record set_slot_packet =
  ssp_window_id :: i32
  ssp_state_id :: i32
  ssp_slot :: i16
  ssp_item :: item_stack

definition set_slot_packet_id :: i32 where "set_slot_packet_id = 0x14"

definition set_slot_packet_decode :: "set_slot_packet io" where
  "set_slot_packet_decode =
     bindE get_varint (\<lambda>window_id.
     bindE get_varint (\<lambda>state_id.
     bindE get_i16 (\<lambda>slot.
     bindE decode_item_stack (\<lambda>item.
     ret \<lparr>ssp_window_id = window_id, ssp_state_id = state_id, ssp_slot = slot,
        ssp_item = item\<rparr>))))"

definition set_slot_packet_encode :: "set_slot_packet \<Rightarrow> unit io" where
  "set_slot_packet_encode p =
    seqE (put_varint (ssp_window_id p))
    (seqE (put_varint (ssp_state_id p))
    (seqE (put_i16 (ssp_slot p))
    (seqE (encode_item_stack (ssp_item p)) put_end)))"

definition wf_set_slot_packet :: "set_slot_packet \<Rightarrow> bool" where
  "wf_set_slot_packet p \<longleftrightarrow> normal_item (ssp_item p)"

interpretation set_slot_packet: packet_codec set_slot_packet_encode set_slot_packet_decode wf_set_slot_packet
  by unfold_locales
     (auto simp: set_slot_packet_encode_def set_slot_packet_decode_def wf_set_slot_packet_def packet_wf intro!: carries_rules safe_rules)

datatype equipment_slot = MainHand | OffHand | Boots | Leggings | Chestplate | Helmet | Body | Saddle

definition legacy_id :: "equipment_slot \<Rightarrow> u8" where
  "legacy_id s =
     (case s of MainHand \<Rightarrow> 0 | OffHand \<Rightarrow> 1 | Boots \<Rightarrow> 2 | Leggings \<Rightarrow> 3 | Chestplate \<Rightarrow> 4
      | Helmet \<Rightarrow> 5 | Body \<Rightarrow> 6 | Saddle \<Rightarrow> 7)"

definition from_legacy_id :: "u8 \<Rightarrow> equipment_slot option" where
  "from_legacy_id i =
     (if i = 0 then Some MainHand else if i = 1 then Some OffHand else if i = 2 then Some Boots
      else if i = 3 then Some Leggings else if i = 4 then Some Chestplate else if i = 5 then Some Helmet
      else if i = 6 then Some Body else if i = 7 then Some Saddle else None)"

record equipment_entry =
  eqe_slot :: equipment_slot
  eqe_item :: item_stack

record entity_equipment_packet =
  eep_entity_id :: i32
  eep_equipments :: "equipment_entry list"

definition entity_equipment_packet_id :: i32 where "entity_equipment_packet_id = 0x64"

definition equipment_step :: "(equipment_entry option \<times> bool) io" where
  "equipment_step =
     bindE get_u8 (\<lambda>b.
     bindE (ok_or (from_legacy_id (b AND 0x7F)) UnexpectedEof) (\<lambda>slot.
     bindE decode_item_stack (\<lambda>item.
     ret (Some \<lparr>eqe_slot = slot, eqe_item = item\<rparr>, b AND 0x80 \<noteq> 0))))"

fun put_equipments :: "equipment_entry list \<Rightarrow> unit io" where
  "put_equipments [] = ret ()"
| "put_equipments (e # es) =
     (let b = legacy_id (eqe_slot e) in
      seqE (put_u8 (if es = [] then b else b OR 0x80))
      (seqE (encode_item_stack (eqe_item e)) (put_equipments es)))"

definition entity_equipment_packet_decode :: "entity_equipment_packet io" where
  "entity_equipment_packet_decode =
     bindE get_varint (\<lambda>entity_id.
     bindE (get_while equipment_step) (\<lambda>equipments.
     ret \<lparr>eep_entity_id = entity_id, eep_equipments = equipments\<rparr>))"

definition entity_equipment_packet_encode :: "entity_equipment_packet \<Rightarrow> unit io" where
  "entity_equipment_packet_encode p =
    seqE (put_varint (eep_entity_id p))
    (seqE (put_equipments (eep_equipments p)) put_end)"

definition wf_entity_equipment_packet :: "entity_equipment_packet \<Rightarrow> bool" where
  "wf_entity_equipment_packet p \<longleftrightarrow> eep_equipments p \<noteq> [] \<and>
     list_all (\<lambda>e. normal_item (eqe_item e)) (eep_equipments p)"

lemma legacy_id_roundtrip:
  "from_legacy_id (legacy_id s AND 0x7F) = Some s" "legacy_id s AND 0x80 = 0"
  "from_legacy_id ((legacy_id s OR 0x80) AND 0x7F) = Some s" "(legacy_id s OR 0x80) AND 0x80 \<noteq> 0"
  by (cases s; simp add: legacy_id_def from_legacy_id_def)+

lemma consuming_equipment: "consuming equipment_step"
  unfolding equipment_step_def by (intro consuming_bind consuming_u8 safe_rules)

lemma safe_equipment [safe_rules]: "cursor_safe equipment_step"
  using consuming_equipment by (simp add: consuming_def)

lemma carries_equipment_step:
  assumes "normal_item (eqe_item e)" and "from_legacy_id (b AND 0x7F) = Some (eqe_slot e)"
  shows "carries (seqE (put_u8 b) (encode_item_stack (eqe_item e))) equipment_step (Some e, b AND 0x80 \<noteq> 0)"
proof -
  have "carries (encode_item_stack (eqe_item e)) decode_item_stack (eqe_item e)"
    using assms(1) by (auto simp: normal_item_def intro!: carries_rules)
  then show ?thesis
    unfolding equipment_step_def
    by (intro carries_bind [OF carries_u8]) (simp add: assms(2), rule carries_tail, assumption, simp add: carries_ret)
qed

lemma carries_equipment_loop:
  "es \<noteq> [] \<Longrightarrow> list_all (\<lambda>e. normal_item (eqe_item e)) es \<Longrightarrow> length es \<le> n \<Longrightarrow>
   carries (put_equipments es) (read_while n equipment_step) es"
proof (induction es arbitrary: n)
  case (Cons e es)
  obtain k where n: "n = Suc k" "length es \<le> k" using Cons.prems(3) by (cases n) auto
  have item: "normal_item (eqe_item e)" using Cons.prems(2) by simp
  show ?case
  proof (cases "es = []")
    case True
    have "carries (seqE (put_u8 (legacy_id (eqe_slot e))) (encode_item_stack (eqe_item e))) equipment_step (Some e, False)"
      using carries_equipment_step [OF item, of "legacy_id (eqe_slot e)"] by (simp add: legacy_id_roundtrip)
    then have "carries (seqE (put_u8 (legacy_id (eqe_slot e))) (encode_item_stack (eqe_item e)))
        (read_while n equipment_step) [e]"
      unfolding n(1) read_while.simps by (rule carries_tail) (simp add: carries_ret)
    moreover have "seqE (put_u8 (legacy_id (eqe_slot e))) (seqE (encode_item_stack (eqe_item e)) (ret ()))
        = seqE (put_u8 (legacy_id (eqe_slot e))) (encode_item_stack (eqe_item e))"
      by (rule ext) (auto simp: bindE_def ret_def split: prod.splits sum.splits)
    ultimately show ?thesis by (simp add: True Let_def)
  next
    case False
    have ih: "carries (put_equipments es) (read_while k equipment_step) es"
      using Cons.IH [OF False _ n(2)] Cons.prems(2) by simp
    have "carries (seqE (put_u8 (legacy_id (eqe_slot e) OR 0x80)) (encode_item_stack (eqe_item e)))
        equipment_step (Some e, True)"
      using carries_equipment_step [OF item, of "legacy_id (eqe_slot e) OR 0x80"]
      by (simp add: legacy_id_roundtrip)
    then have "carries (seqE (seqE (put_u8 (legacy_id (eqe_slot e) OR 0x80)) (encode_item_stack (eqe_item e)))
        (put_equipments es)) (read_while n equipment_step) (e # es)"
      unfolding n(1) read_while.simps
      by (rule carries_bind) (simp, rule carries_tail [OF ih], simp add: carries_ret)
    then show ?thesis using False by (simp add: Let_def bindE_assoc)
  qed
qed simp

lemma carries_equipments [carries_rules]:
  "es \<noteq> [] \<Longrightarrow> list_all (\<lambda>e. normal_item (eqe_item e)) es \<Longrightarrow>
   carries (put_equipments es) (get_while equipment_step) es"
  by (rule carries_while [OF consuming_equipment, where N = "length es"]) (simp add: carries_equipment_loop)

interpretation entity_equipment_packet: packet_codec entity_equipment_packet_encode
    entity_equipment_packet_decode wf_entity_equipment_packet
  by unfold_locales
     (auto simp: entity_equipment_packet_encode_def entity_equipment_packet_decode_def
       wf_entity_equipment_packet_def intro!: carries_rules safe_rules)

datatype chunk_batch_start = ChunkBatchStart

lemma chunk_batch_start_only [simp]: "ChunkBatchStart = p"
  by (cases p) simp

definition chunk_batch_start_id :: i32 where "chunk_batch_start_id = 0x0c"

definition chunk_batch_start_decode :: "chunk_batch_start io" where
  "chunk_batch_start_decode = ret ChunkBatchStart"

definition chunk_batch_start_encode :: "chunk_batch_start \<Rightarrow> unit io" where
  "chunk_batch_start_encode p = put_end"

definition wf_chunk_batch_start :: "chunk_batch_start \<Rightarrow> bool" where
  "wf_chunk_batch_start p \<longleftrightarrow> True"

interpretation chunk_batch_start: packet_codec chunk_batch_start_encode chunk_batch_start_decode wf_chunk_batch_start
  by unfold_locales
     (auto simp: chunk_batch_start_encode_def chunk_batch_start_decode_def wf_chunk_batch_start_def packet_wf intro!: carries_rules safe_rules)

record chunk_batch_finished =
  cbf_batch_size :: i32

definition chunk_batch_finished_id :: i32 where "chunk_batch_finished_id = 0x0b"

definition chunk_batch_finished_decode :: "chunk_batch_finished io" where
  "chunk_batch_finished_decode =
     bindE get_varint (\<lambda>batch_size.
     ret \<lparr>cbf_batch_size = batch_size\<rparr>)"

definition chunk_batch_finished_encode :: "chunk_batch_finished \<Rightarrow> unit io" where
  "chunk_batch_finished_encode p =
    seqE (put_varint (cbf_batch_size p)) put_end"

definition wf_chunk_batch_finished :: "chunk_batch_finished \<Rightarrow> bool" where
  "wf_chunk_batch_finished p \<longleftrightarrow> True"

interpretation chunk_batch_finished: packet_codec chunk_batch_finished_encode chunk_batch_finished_decode wf_chunk_batch_finished
  by unfold_locales
     (auto simp: chunk_batch_finished_encode_def chunk_batch_finished_decode_def wf_chunk_batch_finished_def packet_wf intro!: carries_rules safe_rules)

record heightmap =
  he_map_type :: i32
  he_data :: "i64 list"

definition get_heightmap :: "heightmap io" where
  "get_heightmap =
     bindE get_varint (\<lambda>map_type.
     bindE (get_varint_array get_i64) (\<lambda>data.
     ret \<lparr>he_map_type = map_type, he_data = data\<rparr>))"

definition put_heightmap :: "heightmap \<Rightarrow> unit io" where
  "put_heightmap p =
    seqE (put_varint (he_map_type p))
    (seqE (put_varint_array put_i64 (he_data p)) put_end)"

definition wf_heightmap :: "heightmap \<Rightarrow> bool" where
  "wf_heightmap p \<longleftrightarrow> wf_array (\<lambda>_. True) (he_data p)"

lemma carries_heightmap [carries_rules]: "wf_heightmap p \<Longrightarrow> carries (put_heightmap p) get_heightmap p"
  by (auto simp: put_heightmap_def get_heightmap_def wf_heightmap_def packet_wf intro!: carries_rules)

lemma safe_heightmap [safe_rules]: "cursor_safe get_heightmap"
  unfolding get_heightmap_def by (intro safe_rules)

record chunk_block_entity =
  cbe_xz :: u8
  cbe_y :: i16
  cbe_block_entity_type :: i32
  cbe_nbt_data :: "u8 list option"

definition get_chunk_block_entity :: "chunk_block_entity io" where
  "get_chunk_block_entity =
     bindE get_u8 (\<lambda>xz.
     bindE get_i16 (\<lambda>y.
     bindE get_varint (\<lambda>block_entity_type.
     bindE read_opt_nbt (\<lambda>nbt_data.
     ret \<lparr>cbe_xz = xz, cbe_y = y, cbe_block_entity_type = block_entity_type,
        cbe_nbt_data = nbt_data\<rparr>))))"

definition put_chunk_block_entity :: "chunk_block_entity \<Rightarrow> unit io" where
  "put_chunk_block_entity p =
    seqE (put_u8 (cbe_xz p))
    (seqE (put_i16 (cbe_y p))
    (seqE (put_varint (cbe_block_entity_type p))
    (seqE (write_opt_nbt (cbe_nbt_data p)) put_end)))"

definition wf_chunk_block_entity :: "chunk_block_entity \<Rightarrow> bool" where
  "wf_chunk_block_entity p \<longleftrightarrow> Option.is_none (cbe_nbt_data p)"

lemma carries_chunk_block_entity [carries_rules]: "wf_chunk_block_entity p \<Longrightarrow> carries (put_chunk_block_entity p) get_chunk_block_entity p"
  by (auto simp: put_chunk_block_entity_def get_chunk_block_entity_def wf_chunk_block_entity_def packet_wf intro!: carries_rules)

lemma safe_chunk_block_entity [safe_rules]: "cursor_safe get_chunk_block_entity"
  unfolding get_chunk_block_entity_def by (intro safe_rules)

record map_chunk =
  mc_chunk_x :: i32
  mc_chunk_z :: i32
  mc_heightmaps :: "heightmap list"
  mc_chunk_data :: "u8 list"
  mc_block_entities :: "chunk_block_entity list"
  mc_sky_light_mask :: "i64 list"
  mc_block_light_mask :: "i64 list"
  mc_empty_sky_light_mask :: "i64 list"
  mc_empty_block_light_mask :: "i64 list"
  mc_sky_light :: "(u8 list) list"
  mc_block_light :: "(u8 list) list"

definition map_chunk_id :: i32 where "map_chunk_id = 0x2c"

definition map_chunk_decode :: "map_chunk io" where
  "map_chunk_decode =
     bindE get_i32 (\<lambda>chunk_x.
     bindE get_i32 (\<lambda>chunk_z.
     bindE (get_varint_array get_heightmap) (\<lambda>heightmaps.
     bindE get_byte_array (\<lambda>chunk_data.
     bindE (get_varint_array get_chunk_block_entity) (\<lambda>block_entities.
     bindE (get_varint_array get_i64) (\<lambda>sky_light_mask.
     bindE (get_varint_array get_i64) (\<lambda>block_light_mask.
     bindE (get_varint_array get_i64) (\<lambda>empty_sky_light_mask.
     bindE (get_varint_array get_i64) (\<lambda>empty_block_light_mask.
     bindE (get_varint_array get_byte_array) (\<lambda>sky_light.
     bindE (get_varint_array get_byte_array) (\<lambda>block_light.
     ret \<lparr>mc_chunk_x = chunk_x, mc_chunk_z = chunk_z, mc_heightmaps = heightmaps,
        mc_chunk_data = chunk_data, mc_block_entities = block_entities,
        mc_sky_light_mask = sky_light_mask, mc_block_light_mask = block_light_mask,
        mc_empty_sky_light_mask = empty_sky_light_mask,
        mc_empty_block_light_mask = empty_block_light_mask, mc_sky_light = sky_light,
        mc_block_light = block_light\<rparr>)))))))))))"

definition map_chunk_encode :: "map_chunk \<Rightarrow> unit io" where
  "map_chunk_encode p =
    seqE (put_i32 (mc_chunk_x p))
    (seqE (put_i32 (mc_chunk_z p))
    (seqE (put_varint_array put_heightmap (mc_heightmaps p))
    (seqE (put_byte_array (mc_chunk_data p))
    (seqE (put_varint_array put_chunk_block_entity (mc_block_entities p))
    (seqE (put_varint_array put_i64 (mc_sky_light_mask p))
    (seqE (put_varint_array put_i64 (mc_block_light_mask p))
    (seqE (put_varint_array put_i64 (mc_empty_sky_light_mask p))
    (seqE (put_varint_array put_i64 (mc_empty_block_light_mask p))
    (seqE (put_varint_array put_byte_array (mc_sky_light p))
    (seqE (put_varint_array put_byte_array (mc_block_light p)) put_end))))))))))"

definition wf_map_chunk :: "map_chunk \<Rightarrow> bool" where
  "wf_map_chunk p \<longleftrightarrow> wf_array wf_heightmap (mc_heightmaps p) \<and> wf_bytes (mc_chunk_data p) \<and>
     wf_array wf_chunk_block_entity (mc_block_entities p) \<and>
     wf_array (\<lambda>_. True) (mc_sky_light_mask p) \<and>
     wf_array (\<lambda>_. True) (mc_block_light_mask p) \<and>
     wf_array (\<lambda>_. True) (mc_empty_sky_light_mask p) \<and>
     wf_array (\<lambda>_. True) (mc_empty_block_light_mask p) \<and>
     wf_array wf_bytes (mc_sky_light p) \<and> wf_array wf_bytes (mc_block_light p)"

interpretation map_chunk: packet_codec map_chunk_encode map_chunk_decode wf_map_chunk
  by unfold_locales
     (auto simp: map_chunk_encode_def map_chunk_decode_def wf_map_chunk_def packet_wf intro!: carries_rules safe_rules)

record global_pos =
  gp_dimension :: rstring
  gp_position :: i64

definition get_global_pos :: "global_pos io" where
  "get_global_pos =
     bindE get_string (\<lambda>dimension.
     bindE get_i64 (\<lambda>position.
     ret \<lparr>gp_dimension = dimension, gp_position = position\<rparr>))"

definition put_global_pos :: "global_pos \<Rightarrow> unit io" where
  "put_global_pos p =
    seqE (put_string (gp_dimension p))
    (seqE (put_i64 (gp_position p)) put_end)"

definition wf_global_pos :: "global_pos \<Rightarrow> bool" where
  "wf_global_pos p \<longleftrightarrow> wf_string (gp_dimension p)"

lemma carries_global_pos [carries_rules]: "wf_global_pos p \<Longrightarrow> carries (put_global_pos p) get_global_pos p"
  by (auto simp: put_global_pos_def get_global_pos_def wf_global_pos_def packet_wf intro!: carries_rules)

lemma safe_global_pos [safe_rules]: "cursor_safe get_global_pos"
  unfolding get_global_pos_def by (intro safe_rules)

record spawn_info =
  si_dimension :: i32
  si_name :: rstring
  si_hashed_seed :: i64
  si_gamemode :: i8
  si_previous_gamemode :: u8
  si_is_debug :: bool
  si_is_flat :: bool
  si_death :: "global_pos option"
  si_portal_cooldown :: i32
  si_sea_level :: i32

definition get_spawn_info :: "spawn_info io" where
  "get_spawn_info =
     bindE get_varint (\<lambda>dimension.
     bindE get_string (\<lambda>name.
     bindE get_i64 (\<lambda>hashed_seed.
     bindE get_i8 (\<lambda>gamemode.
     bindE get_u8 (\<lambda>previous_gamemode.
     bindE get_bool (\<lambda>is_debug.
     bindE get_bool (\<lambda>is_flat.
     bindE (get_opt get_global_pos) (\<lambda>death.
     bindE get_varint (\<lambda>portal_cooldown.
     bindE get_varint (\<lambda>sea_level.
     ret \<lparr>si_dimension = dimension, si_name = name, si_hashed_seed = hashed_seed,
        si_gamemode = gamemode, si_previous_gamemode = previous_gamemode,
        si_is_debug = is_debug, si_is_flat = is_flat, si_death = death,
        si_portal_cooldown = portal_cooldown, si_sea_level = sea_level\<rparr>))))))))))"

definition put_spawn_info :: "spawn_info \<Rightarrow> unit io" where
  "put_spawn_info p =
    seqE (put_varint (si_dimension p))
    (seqE (put_string (si_name p))
    (seqE (put_i64 (si_hashed_seed p))
    (seqE (put_i8 (si_gamemode p))
    (seqE (put_u8 (si_previous_gamemode p))
    (seqE (put_bool (si_is_debug p))
    (seqE (put_bool (si_is_flat p))
    (seqE (put_opt put_global_pos (si_death p))
    (seqE (put_varint (si_portal_cooldown p))
    (seqE (put_varint (si_sea_level p)) put_end)))))))))"

definition wf_spawn_info :: "spawn_info \<Rightarrow> bool" where
  "wf_spawn_info p \<longleftrightarrow> wf_string (si_name p) \<and> pred_option wf_global_pos (si_death p)"

lemma carries_spawn_info [carries_rules]: "wf_spawn_info p \<Longrightarrow> carries (put_spawn_info p) get_spawn_info p"
  by (auto simp: put_spawn_info_def get_spawn_info_def wf_spawn_info_def packet_wf intro!: carries_rules)

lemma safe_spawn_info [safe_rules]: "cursor_safe get_spawn_info"
  unfolding get_spawn_info_def by (intro safe_rules)

record login =
  lo_entity_id :: i32
  lo_is_hardcore :: bool
  lo_world_names :: "rstring list"
  lo_max_players :: i32
  lo_view_distance :: i32
  lo_simulation_distance :: i32
  lo_reduced_debug_info :: bool
  lo_enable_respawn_screen :: bool
  lo_do_limited_crafting :: bool
  lo_world_state :: spawn_info
  lo_enforces_secure_chat :: bool

definition login_id :: i32 where "login_id = 0x30"

definition login_decode :: "login io" where
  "login_decode =
     bindE get_i32 (\<lambda>entity_id.
     bindE get_bool (\<lambda>is_hardcore.
     bindE (get_varint_array get_string) (\<lambda>world_names.
     bindE get_varint (\<lambda>max_players.
     bindE get_varint (\<lambda>view_distance.
     bindE get_varint (\<lambda>simulation_distance.
     bindE get_bool (\<lambda>reduced_debug_info.
     bindE get_bool (\<lambda>enable_respawn_screen.
     bindE get_bool (\<lambda>do_limited_crafting.
     bindE get_spawn_info (\<lambda>world_state.
     bindE get_bool (\<lambda>enforces_secure_chat.
     ret \<lparr>lo_entity_id = entity_id, lo_is_hardcore = is_hardcore,
        lo_world_names = world_names, lo_max_players = max_players,
        lo_view_distance = view_distance, lo_simulation_distance = simulation_distance,
        lo_reduced_debug_info = reduced_debug_info,
        lo_enable_respawn_screen = enable_respawn_screen,
        lo_do_limited_crafting = do_limited_crafting, lo_world_state = world_state,
        lo_enforces_secure_chat = enforces_secure_chat\<rparr>)))))))))))"

definition login_encode :: "login \<Rightarrow> unit io" where
  "login_encode p =
    seqE (put_i32 (lo_entity_id p))
    (seqE (put_bool (lo_is_hardcore p))
    (seqE (put_varint_array put_string (lo_world_names p))
    (seqE (put_varint (lo_max_players p))
    (seqE (put_varint (lo_view_distance p))
    (seqE (put_varint (lo_simulation_distance p))
    (seqE (put_bool (lo_reduced_debug_info p))
    (seqE (put_bool (lo_enable_respawn_screen p))
    (seqE (put_bool (lo_do_limited_crafting p))
    (seqE (put_spawn_info (lo_world_state p))
    (seqE (put_bool (lo_enforces_secure_chat p)) put_end))))))))))"

definition wf_login :: "login \<Rightarrow> bool" where
  "wf_login p \<longleftrightarrow> wf_array wf_string (lo_world_names p) \<and> wf_spawn_info (lo_world_state p)"

interpretation login: packet_codec login_encode login_decode wf_login
  by unfold_locales
     (auto simp: login_encode_def login_decode_def wf_login_def packet_wf intro!: carries_rules safe_rules)

record bundle_cb =
  bucb_packets :: "(u8 list) list"

definition bundle_cb_id :: i32 where "bundle_cb_id = 0x00"

definition bundle_cb_decode :: "bundle_cb io" where
  "bundle_cb_decode =
     bindE (get_varint_array get_byte_array) (\<lambda>packets.
     ret \<lparr>bucb_packets = packets\<rparr>)"

definition bundle_cb_encode :: "bundle_cb \<Rightarrow> unit io" where
  "bundle_cb_encode p =
    seqE (put_varint_array put_byte_array (bucb_packets p)) put_end"

definition wf_bundle_cb :: "bundle_cb \<Rightarrow> bool" where
  "wf_bundle_cb p \<longleftrightarrow> wf_array wf_bytes (bucb_packets p)"

interpretation bundle_cb: packet_codec bundle_cb_encode bundle_cb_decode wf_bundle_cb
  by unfold_locales
     (auto simp: bundle_cb_encode_def bundle_cb_decode_def wf_bundle_cb_def packet_wf intro!: carries_rules safe_rules)

record statistics =
  st_entries :: "(i32 \<times> i32 \<times> i32) list"

definition statistics_id :: i32 where "statistics_id = 0x03"

definition statistics_decode :: "statistics io" where
  "statistics_decode =
     bindE (get_varint_array (get_triple get_varint)) (\<lambda>entries.
     ret \<lparr>st_entries = entries\<rparr>)"

definition statistics_encode :: "statistics \<Rightarrow> unit io" where
  "statistics_encode p =
    seqE (put_varint_array (put_triple put_varint) (st_entries p)) put_end"

definition wf_statistics :: "statistics \<Rightarrow> bool" where
  "wf_statistics p \<longleftrightarrow> wf_array (\<lambda>_. True) (st_entries p)"

interpretation statistics: packet_codec statistics_encode statistics_decode wf_statistics
  by unfold_locales
     (auto simp: statistics_encode_def statistics_decode_def wf_statistics_def packet_wf intro!: carries_rules safe_rules)

record clear_titles =
  ct_reset :: bool

definition clear_titles_id :: i32 where "clear_titles_id = 0x0e"

definition clear_titles_decode :: "clear_titles io" where
  "clear_titles_decode =
     bindE get_bool (\<lambda>reset.
     ret \<lparr>ct_reset = reset\<rparr>)"

definition clear_titles_encode :: "clear_titles \<Rightarrow> unit io" where
  "clear_titles_encode p =
    seqE (put_bool (ct_reset p)) put_end"

definition wf_clear_titles :: "clear_titles \<Rightarrow> bool" where
  "wf_clear_titles p \<longleftrightarrow> True"

interpretation clear_titles: packet_codec clear_titles_encode clear_titles_decode wf_clear_titles
  by unfold_locales
     (auto simp: clear_titles_encode_def clear_titles_decode_def wf_clear_titles_def packet_wf intro!: carries_rules safe_rules)

record clientbound_tab_complete =
  ctc_transaction_id :: i32
  ctc_start :: i32
  ctc_length :: i32
  ctc_matches :: "(rstring \<times> bool \<times> rstring option) list"

definition clientbound_tab_complete_id :: i32 where "clientbound_tab_complete_id = 0x0f"

definition get_match :: "(rstring \<times> bool \<times> rstring option) io" where
  "get_match =
     bindE get_string (\<lambda>matched.
     bindE get_bool (\<lambda>has_tooltip.
     bindE (get_when has_tooltip get_string) (\<lambda>tooltip.
     ret (matched, has_tooltip, tooltip))))"

text \<open>The flag is written from the tooltip, not from the second component.\<close>

definition put_match :: "rstring \<times> bool \<times> rstring option \<Rightarrow> unit io" where
  "put_match m = (case m of (matched, _, tooltip) \<Rightarrow> seqE (put_string matched) (put_opt put_string tooltip))"

definition wf_match :: "rstring \<times> bool \<times> rstring option \<Rightarrow> bool" where
  "wf_match m = (case m of (matched, has_tooltip, tooltip) \<Rightarrow>
     wf_string matched \<and> has_tooltip = (tooltip \<noteq> None) \<and> pred_option wf_string tooltip)"

lemma carries_match [carries_rules]:
  assumes "wf_match m"
  shows "carries (put_match m) get_match m"
proof -
  obtain s h t where m: "m = (s, h, t)" by (cases m)
  have wf: "wf_string s" "h = (t \<noteq> None)" "pred_option wf_string t"
    using assms by (simp_all add: wf_match_def m)
  have "carries (seqE (put_bool h) (put_when put_string t))
      (bindE get_bool (\<lambda>h. bindE (get_when h get_string) (\<lambda>t. ret (s, h, t)))) (s, h, t)"
    by (rule carries_bind [OF carries_bool], rule carries_tail [OF carries_when])
       (use wf in \<open>auto intro!: carries_rules carries_ret\<close>)
  then show ?thesis
    unfolding put_match_def get_match_def m prod.case put_opt_when
    using wf by (auto intro!: carries_bind [OF carries_string] simp: wf)
qed

lemma safe_match [safe_rules]: "cursor_safe get_match"
  unfolding get_match_def by (intro safe_rules)

definition clientbound_tab_complete_decode :: "clientbound_tab_complete io" where
  "clientbound_tab_complete_decode =
     bindE get_varint (\<lambda>transaction_id.
     bindE get_varint (\<lambda>start.
     bindE get_varint (\<lambda>len.
     bindE (get_varint_array get_match) (\<lambda>matches.
     ret \<lparr>ctc_transaction_id = transaction_id, ctc_start = start, ctc_length = len,
        ctc_matches = matches\<rparr>))))"

definition clientbound_tab_complete_encode :: "clientbound_tab_complete \<Rightarrow> unit io" where
  "clientbound_tab_complete_encode p =
    seqE (put_varint (ctc_transaction_id p))
    (seqE (put_varint (ctc_start p))
    (seqE (put_varint (ctc_length p))
    (seqE (put_varint_array put_match (ctc_matches p)) put_end)))"

definition wf_clientbound_tab_complete :: "clientbound_tab_complete \<Rightarrow> bool" where
  "wf_clientbound_tab_complete p \<longleftrightarrow> wf_array wf_match (ctc_matches p)"

interpretation clientbound_tab_complete: packet_codec clientbound_tab_complete_encode clientbound_tab_complete_decode wf_clientbound_tab_complete
  by unfold_locales
     (auto simp: clientbound_tab_complete_encode_def clientbound_tab_complete_decode_def wf_clientbound_tab_complete_def packet_wf intro!: carries_rules safe_rules)

record close_window =
  cw_window_id :: i8

definition close_window_id :: i32 where "close_window_id = 0x11"

definition close_window_decode :: "close_window io" where
  "close_window_decode =
     bindE get_i8 (\<lambda>window_id.
     ret \<lparr>cw_window_id = window_id\<rparr>)"

definition close_window_encode :: "close_window \<Rightarrow> unit io" where
  "close_window_encode p =
    seqE (put_i8 (cw_window_id p)) put_end"

definition wf_close_window :: "close_window \<Rightarrow> bool" where
  "wf_close_window p \<longleftrightarrow> True"

interpretation close_window: packet_codec close_window_encode close_window_decode wf_close_window
  by unfold_locales
     (auto simp: close_window_encode_def close_window_decode_def wf_close_window_def packet_wf intro!: carries_rules safe_rules)

record window_property =
  wp_window_id :: i8
  wp_property :: i16
  wp_value :: i16

definition window_property_id :: i32 where "window_property_id = 0x13"

definition window_property_decode :: "window_property io" where
  "window_property_decode =
     bindE get_i8 (\<lambda>window_id.
     bindE get_i16 (\<lambda>property.
     bindE get_i16 (\<lambda>value.
     ret \<lparr>wp_window_id = window_id, wp_property = property, wp_value = value\<rparr>)))"

definition window_property_encode :: "window_property \<Rightarrow> unit io" where
  "window_property_encode p =
    seqE (put_i8 (wp_window_id p))
    (seqE (put_i16 (wp_property p))
    (seqE (put_i16 (wp_value p)) put_end))"

definition wf_window_property :: "window_property \<Rightarrow> bool" where
  "wf_window_property p \<longleftrightarrow> True"

interpretation window_property: packet_codec window_property_encode window_property_decode wf_window_property
  by unfold_locales
     (auto simp: window_property_encode_def window_property_decode_def wf_window_property_def packet_wf intro!: carries_rules safe_rules)

record cookie_request =
  core_key :: rstring

definition cookie_request_id :: i32 where "cookie_request_id = 0x15"

definition cookie_request_decode :: "cookie_request io" where
  "cookie_request_decode =
     bindE get_string (\<lambda>key.
     ret \<lparr>core_key = key\<rparr>)"

definition cookie_request_encode :: "cookie_request \<Rightarrow> unit io" where
  "cookie_request_encode p =
    seqE (put_string (core_key p)) put_end"

definition wf_cookie_request :: "cookie_request \<Rightarrow> bool" where
  "wf_cookie_request p \<longleftrightarrow> wf_string (core_key p)"

interpretation cookie_request: packet_codec cookie_request_encode cookie_request_decode wf_cookie_request
  by unfold_locales
     (auto simp: cookie_request_encode_def cookie_request_decode_def wf_cookie_request_def packet_wf intro!: carries_rules safe_rules)

record set_cooldown =
  sc_cooldown_group :: rstring
  sc_cooldown_ticks :: i32

definition set_cooldown_id :: i32 where "set_cooldown_id = 0x16"

definition set_cooldown_decode :: "set_cooldown io" where
  "set_cooldown_decode =
     bindE get_string (\<lambda>cooldown_group.
     bindE get_varint (\<lambda>cooldown_ticks.
     ret \<lparr>sc_cooldown_group = cooldown_group, sc_cooldown_ticks = cooldown_ticks\<rparr>))"

definition set_cooldown_encode :: "set_cooldown \<Rightarrow> unit io" where
  "set_cooldown_encode p =
    seqE (put_string (sc_cooldown_group p))
    (seqE (put_varint (sc_cooldown_ticks p)) put_end)"

definition wf_set_cooldown :: "set_cooldown \<Rightarrow> bool" where
  "wf_set_cooldown p \<longleftrightarrow> wf_string (sc_cooldown_group p)"

interpretation set_cooldown: packet_codec set_cooldown_encode set_cooldown_decode wf_set_cooldown
  by unfold_locales
     (auto simp: set_cooldown_encode_def set_cooldown_decode_def wf_set_cooldown_def packet_wf intro!: carries_rules safe_rules)

record custom_chat_completion =
  ccc_action :: i32
  ccc_entries :: "rstring list"

definition custom_chat_completion_id :: i32 where "custom_chat_completion_id = 0x17"

definition custom_chat_completion_decode :: "custom_chat_completion io" where
  "custom_chat_completion_decode =
     bindE get_varint (\<lambda>action.
     bindE (get_varint_array get_string) (\<lambda>entries.
     ret \<lparr>ccc_action = action, ccc_entries = entries\<rparr>))"

definition custom_chat_completion_encode :: "custom_chat_completion \<Rightarrow> unit io" where
  "custom_chat_completion_encode p =
    seqE (put_varint (ccc_action p))
    (seqE (put_varint_array put_string (ccc_entries p)) put_end)"

definition wf_custom_chat_completion :: "custom_chat_completion \<Rightarrow> bool" where
  "wf_custom_chat_completion p \<longleftrightarrow> wf_array wf_string (ccc_entries p)"

interpretation custom_chat_completion: packet_codec custom_chat_completion_encode custom_chat_completion_decode wf_custom_chat_completion
  by unfold_locales
     (auto simp: custom_chat_completion_encode_def custom_chat_completion_decode_def wf_custom_chat_completion_def packet_wf intro!: carries_rules safe_rules)

record clientbound_plugin_message =
  clplme_channel :: rstring
  clplme_data :: "u8 list"

definition clientbound_plugin_message_id :: i32 where "clientbound_plugin_message_id = 0x18"

definition clientbound_plugin_message_decode :: "clientbound_plugin_message io" where
  "clientbound_plugin_message_decode =
     bindE get_string (\<lambda>channel.
     bindE get_rest (\<lambda>data.
     ret \<lparr>clplme_channel = channel, clplme_data = data\<rparr>))"

definition clientbound_plugin_message_encode :: "clientbound_plugin_message \<Rightarrow> unit io" where
  "clientbound_plugin_message_encode p =
    seqE (put_string (clplme_channel p))
    ((put_bytes (clplme_data p)))"

definition wf_clientbound_plugin_message :: "clientbound_plugin_message \<Rightarrow> bool" where
  "wf_clientbound_plugin_message p \<longleftrightarrow> wf_string (clplme_channel p)"

lemma clientbound_plugin_message_body:
  "wf_clientbound_plugin_message p \<Longrightarrow> ends (clientbound_plugin_message_encode p) clientbound_plugin_message_decode p"
  by (cases p)
     (auto simp: clientbound_plugin_message_encode_def clientbound_plugin_message_decode_def wf_clientbound_plugin_message_def
       intro!: ends_bind ends_last [OF ends_rest] carries_rules)

interpretation clientbound_plugin_message: body_codec clientbound_plugin_message_encode clientbound_plugin_message_decode wf_clientbound_plugin_message
  by (unfold_locales, rule clientbound_plugin_message_body, assumption, unfold clientbound_plugin_message_decode_def) (intro safe_rules)

record debug_block_value =
  dbv_payload :: "u8 list"

definition debug_block_value_id :: i32 where "debug_block_value_id = 0x1a"

definition debug_block_value_decode :: "debug_block_value io" where
  "debug_block_value_decode =
     bindE get_byte_array (\<lambda>payload.
     ret \<lparr>dbv_payload = payload\<rparr>)"

definition debug_block_value_encode :: "debug_block_value \<Rightarrow> unit io" where
  "debug_block_value_encode p =
    seqE (put_byte_array (dbv_payload p)) put_end"

definition wf_debug_block_value :: "debug_block_value \<Rightarrow> bool" where
  "wf_debug_block_value p \<longleftrightarrow> wf_bytes (dbv_payload p)"

interpretation debug_block_value: packet_codec debug_block_value_encode debug_block_value_decode wf_debug_block_value
  by unfold_locales
     (auto simp: debug_block_value_encode_def debug_block_value_decode_def wf_debug_block_value_def packet_wf intro!: carries_rules safe_rules)

record debug_chunk_value =
  dcv_payload :: "u8 list"

definition debug_chunk_value_id :: i32 where "debug_chunk_value_id = 0x1b"

definition debug_chunk_value_decode :: "debug_chunk_value io" where
  "debug_chunk_value_decode =
     bindE get_byte_array (\<lambda>payload.
     ret \<lparr>dcv_payload = payload\<rparr>)"

definition debug_chunk_value_encode :: "debug_chunk_value \<Rightarrow> unit io" where
  "debug_chunk_value_encode p =
    seqE (put_byte_array (dcv_payload p)) put_end"

definition wf_debug_chunk_value :: "debug_chunk_value \<Rightarrow> bool" where
  "wf_debug_chunk_value p \<longleftrightarrow> wf_bytes (dcv_payload p)"

interpretation debug_chunk_value: packet_codec debug_chunk_value_encode debug_chunk_value_decode wf_debug_chunk_value
  by unfold_locales
     (auto simp: debug_chunk_value_encode_def debug_chunk_value_decode_def wf_debug_chunk_value_def packet_wf intro!: carries_rules safe_rules)

record debug_entity_value =
  dev_payload :: "u8 list"

definition debug_entity_value_id :: i32 where "debug_entity_value_id = 0x1c"

definition debug_entity_value_decode :: "debug_entity_value io" where
  "debug_entity_value_decode =
     bindE get_byte_array (\<lambda>payload.
     ret \<lparr>dev_payload = payload\<rparr>)"

definition debug_entity_value_encode :: "debug_entity_value \<Rightarrow> unit io" where
  "debug_entity_value_encode p =
    seqE (put_byte_array (dev_payload p)) put_end"

definition wf_debug_entity_value :: "debug_entity_value \<Rightarrow> bool" where
  "wf_debug_entity_value p \<longleftrightarrow> wf_bytes (dev_payload p)"

interpretation debug_entity_value: packet_codec debug_entity_value_encode debug_entity_value_decode wf_debug_entity_value
  by unfold_locales
     (auto simp: debug_entity_value_encode_def debug_entity_value_decode_def wf_debug_entity_value_def packet_wf intro!: carries_rules safe_rules)

record debug_event =
  deev_event :: i32
  deev_payload :: "u8 list"

definition debug_event_id :: i32 where "debug_event_id = 0x1d"

definition debug_event_decode :: "debug_event io" where
  "debug_event_decode =
     bindE get_varint (\<lambda>event.
     bindE get_byte_array (\<lambda>payload.
     ret \<lparr>deev_event = event, deev_payload = payload\<rparr>))"

definition debug_event_encode :: "debug_event \<Rightarrow> unit io" where
  "debug_event_encode p =
    seqE (put_varint (deev_event p))
    (seqE (put_byte_array (deev_payload p)) put_end)"

definition wf_debug_event :: "debug_event \<Rightarrow> bool" where
  "wf_debug_event p \<longleftrightarrow> wf_bytes (deev_payload p)"

interpretation debug_event: packet_codec debug_event_encode debug_event_decode wf_debug_event
  by unfold_locales
     (auto simp: debug_event_encode_def debug_event_decode_def wf_debug_event_def packet_wf intro!: carries_rules safe_rules)

record debug_sample =
  ds_sample_type :: i32
  ds_data :: "i64 list"

definition debug_sample_id :: i32 where "debug_sample_id = 0x1e"

definition debug_sample_decode :: "debug_sample io" where
  "debug_sample_decode =
     bindE get_varint (\<lambda>sample_type.
     bindE (get_varint_array get_i64) (\<lambda>data.
     ret \<lparr>ds_sample_type = sample_type, ds_data = data\<rparr>))"

definition debug_sample_encode :: "debug_sample \<Rightarrow> unit io" where
  "debug_sample_encode p =
    seqE (put_varint (ds_sample_type p))
    (seqE (put_varint_array put_i64 (ds_data p)) put_end)"

definition wf_debug_sample :: "debug_sample \<Rightarrow> bool" where
  "wf_debug_sample p \<longleftrightarrow> wf_array (\<lambda>_. True) (ds_data p)"

interpretation debug_sample: packet_codec debug_sample_encode debug_sample_decode wf_debug_sample
  by unfold_locales
     (auto simp: debug_sample_encode_def debug_sample_decode_def wf_debug_sample_def packet_wf intro!: carries_rules safe_rules)

record delete_chat =
  dc_message_id :: i32

definition delete_chat_id :: i32 where "delete_chat_id = 0x1f"

definition delete_chat_decode :: "delete_chat io" where
  "delete_chat_decode =
     bindE get_varint (\<lambda>message_id.
     ret \<lparr>dc_message_id = message_id\<rparr>)"

definition delete_chat_encode :: "delete_chat \<Rightarrow> unit io" where
  "delete_chat_encode p =
    seqE (put_varint (dc_message_id p)) put_end"

definition wf_delete_chat :: "delete_chat \<Rightarrow> bool" where
  "wf_delete_chat p \<longleftrightarrow> True"

interpretation delete_chat: packet_codec delete_chat_encode delete_chat_decode wf_delete_chat
  by unfold_locales
     (auto simp: delete_chat_encode_def delete_chat_decode_def wf_delete_chat_def packet_wf intro!: carries_rules safe_rules)

record disconnect =
  di_reason :: rstring

definition disconnect_id :: i32 where "disconnect_id = 0x20"

definition disconnect_decode :: "disconnect io" where
  "disconnect_decode =
     bindE get_string (\<lambda>reason.
     ret \<lparr>di_reason = reason\<rparr>)"

definition disconnect_encode :: "disconnect \<Rightarrow> unit io" where
  "disconnect_encode p =
    seqE (put_string (di_reason p)) put_end"

definition wf_disconnect :: "disconnect \<Rightarrow> bool" where
  "wf_disconnect p \<longleftrightarrow> wf_string (di_reason p)"

interpretation disconnect: packet_codec disconnect_encode disconnect_decode wf_disconnect
  by unfold_locales
     (auto simp: disconnect_encode_def disconnect_decode_def wf_disconnect_def packet_wf intro!: carries_rules safe_rules)

record disguised_chat =
  dich_message :: rstring
  dich_chat_type :: i32
  dich_sender_name :: rstring
  dich_target_name :: "rstring option"

definition disguised_chat_id :: i32 where "disguised_chat_id = 0x21"

definition disguised_chat_decode :: "disguised_chat io" where
  "disguised_chat_decode =
     bindE get_string (\<lambda>message.
     bindE get_varint (\<lambda>chat_type.
     bindE get_string (\<lambda>sender_name.
     bindE (get_opt get_string) (\<lambda>target_name.
     ret \<lparr>dich_message = message, dich_chat_type = chat_type,
        dich_sender_name = sender_name, dich_target_name = target_name\<rparr>))))"

definition disguised_chat_encode :: "disguised_chat \<Rightarrow> unit io" where
  "disguised_chat_encode p =
    seqE (put_string (dich_message p))
    (seqE (put_varint (dich_chat_type p))
    (seqE (put_string (dich_sender_name p))
    (seqE (put_opt put_string (dich_target_name p)) put_end)))"

definition wf_disguised_chat :: "disguised_chat \<Rightarrow> bool" where
  "wf_disguised_chat p \<longleftrightarrow> wf_string (dich_message p) \<and> wf_string (dich_sender_name p) \<and>
     pred_option wf_string (dich_target_name p)"

interpretation disguised_chat: packet_codec disguised_chat_encode disguised_chat_decode wf_disguised_chat
  by unfold_locales
     (auto simp: disguised_chat_encode_def disguised_chat_decode_def wf_disguised_chat_def packet_wf intro!: carries_rules safe_rules)

record respawn =
  re_dimension :: rstring
  re_world_name :: rstring
  re_hashed_seed :: i64
  re_game_mode :: i8
  re_previous_game_mode :: u8
  re_is_debug :: bool
  re_is_flat :: bool
  re_copy_metadata :: bool
  re_death :: "global_pos option"

definition respawn_id :: i32 where "respawn_id = 0x50"

definition respawn_decode :: "respawn io" where
  "respawn_decode =
     bindE get_string (\<lambda>dimension.
     bindE get_string (\<lambda>world_name.
     bindE get_i64 (\<lambda>hashed_seed.
     bindE get_i8 (\<lambda>game_mode.
     bindE get_u8 (\<lambda>previous_game_mode.
     bindE get_bool (\<lambda>is_debug.
     bindE get_bool (\<lambda>is_flat.
     bindE get_bool (\<lambda>copy_metadata.
     bindE (get_opt get_global_pos) (\<lambda>death.
     ret \<lparr>re_dimension = dimension, re_world_name = world_name,
        re_hashed_seed = hashed_seed, re_game_mode = game_mode,
        re_previous_game_mode = previous_game_mode, re_is_debug = is_debug,
        re_is_flat = is_flat, re_copy_metadata = copy_metadata, re_death = death\<rparr>)))))))))"

definition respawn_encode :: "respawn \<Rightarrow> unit io" where
  "respawn_encode p =
    seqE (put_string (re_dimension p))
    (seqE (put_string (re_world_name p))
    (seqE (put_i64 (re_hashed_seed p))
    (seqE (put_i8 (re_game_mode p))
    (seqE (put_u8 (re_previous_game_mode p))
    (seqE (put_bool (re_is_debug p))
    (seqE (put_bool (re_is_flat p))
    (seqE (put_bool (re_copy_metadata p))
    (seqE (put_opt put_global_pos (re_death p)) put_end))))))))"

definition wf_respawn :: "respawn \<Rightarrow> bool" where
  "wf_respawn p \<longleftrightarrow> wf_string (re_dimension p) \<and> wf_string (re_world_name p) \<and>
     pred_option wf_global_pos (re_death p)"

interpretation respawn: packet_codec respawn_encode respawn_decode wf_respawn
  by unfold_locales
     (auto simp: respawn_encode_def respawn_decode_def wf_respawn_def packet_wf intro!: carries_rules safe_rules)

end
