(* ===== verification/Network_Receive.thy ===== *)
theory Network_Receive
  imports Client_Network Connection_Manager Player_Inventory Deferred_Commands Registry_Sync
    Packets_Client_A Packets_Client_B
begin

text \<open>
  The reaction of the game to what the listener reports (\<open>system/network_receive.rs\<close>): frames are dispatched
  and drive the login of a connection, the entity of its player and its inventory. The state is that of
  the resources the system works on: the table of connections, the send queues, the bounded channels to the
  write tasks of the connections (\<open>gn_outbound\<close>, what waits in each), the worlds of the instances, the deferred commands of the
  main world and the events written. \<open>None\<close> is a panic (the arena of entities is used up). The optional feature
  \<open>online-auth\<close> is off, as in the default build. A fresh random UUID and the clock are inputs of every frame.
  The rest of the tick is \<open>network_send\<close> (\<open>system/network_send.rs\<close>).
\<close>

section \<open>Components of a player\<close>

datatype component_kind = KPlayer | KPosition | KHealth | KVelocity | KInstance | KInventory | KAttributes

record body_position =
  ep_x :: f64
  ep_y :: f64
  ep_z :: f64
  ep_yaw :: f32
  ep_pitch :: f32

definition position_new :: "f64 \<Rightarrow> f64 \<Rightarrow> f64 \<Rightarrow> body_position" where
  "position_new x y z = \<lparr>ep_x = x, ep_y = y, ep_z = z, ep_yaw = 0, ep_pitch = 0\<rparr>"

text \<open>The attributes of a new player are an empty table.\<close>

datatype (plugins only: code) player_component =
    CPlayer uuid rstring game_mode
  | CPosition body_position
  | CHealth f32 f32
  | CVelocity f64 f64 f64
  | CInstance world_id
  | CInventory player_inventory
  | CAttributes

section \<open>Configuration\<close>

record status_config =
  stc_protocol :: i32
  stc_max_players :: i32
  stc_motd :: rstring
  stc_version_name :: rstring

definition status_config_default :: status_config where
  "status_config_default = \<lparr>stc_protocol = 774, stc_max_players = 20, stc_motd = str ''ParticleMC (Rust)'',
     stc_version_name = str ''1.21.11''\<rparr>"

definition to_status_json :: "status_config \<Rightarrow> nat \<Rightarrow> rstring" where
  "to_status_json c online =
     str ''{\"version\":{\"name\":\"'' @ stc_version_name c @ str ''\",\"protocol\":'' @ show_int (sint (stc_protocol c)) @
     str ''},\"players\":{\"max\":'' @ show_int (sint (stc_max_players c)) @ str '',\"online\":'' @ decimal online @
     str ''},\"description\":{\"text\":\"'' @ stc_motd c @ str ''\"}}''"

record spawn_config =
  spc_x :: f64
  spc_y :: f64
  spc_z :: f64
  spc_yaw :: f32
  spc_pitch :: f32

text \<open>8.0, 64.0 and 8.0.\<close>

definition spawn_config_default :: spawn_config where
  "spawn_config_default = \<lparr>spc_x = 0x4020000000000000, spc_y = 0x4050000000000000, spc_z = 0x4020000000000000,
     spc_yaw = 0, spc_pitch = 0\<rparr>"

text \<open>\<open>velocity_config.rs\<close>: the secret of the proxy and whether it is enforced.\<close>

record velocity_config =
  vc_secret :: "rstring option"
  vc_enforce_proxy :: bool

record game_config =
  gc_velocity :: velocity_config
  gc_default_instance :: "world_id option"
  gc_status :: status_config
  gc_spawn :: spawn_config
  gc_snapshot :: "snapshot_registry list"
  gc_tags :: tag_table
  gc_registry :: "player_component component_registry"
  gc_id :: "component_kind \<Rightarrow> component_id"

text \<open>What is outside the repository: the MAC, the text of floats, and the arithmetic of floats.\<close>

record 'm externals =
  ex_new_mac :: "u8 list \<Rightarrow> 'm option"
  ex_verify :: "'m \<Rightarrow> u8 list \<Rightarrow> u8 list \<Rightarrow> bool"
  ex_show_double :: "f64 \<Rightarrow> rstring"
  ex_show_float :: "f32 \<Rightarrow> rstring"
  ex_mul :: "f32 \<Rightarrow> f32 \<Rightarrow> f32"
  ex_min :: "f32 \<Rightarrow> f32 \<Rightarrow> f32"
  ex_add :: "f32 \<Rightarrow> f32 \<Rightarrow> f32"
  ex_sub :: "f32 \<Rightarrow> f32 \<Rightarrow> f32"
  ex_ge :: "f32 \<Rightarrow> f32 \<Rightarrow> bool"

record ambient =
  am_uuid :: uuid
  am_clock :: "i64 option"

section \<open>State\<close>

datatype (plugins only: code) network_event =
    NetworkPacket u32 connection_state i32 "u8 list"
  | PlayerMoveRaw u32 body_position f32 f32 bool
  | ConnectionClosed u32

record game_net =
  gn_connections :: connection_manager
  gn_clients :: client_networks
  gn_outbound :: "u32 \<rightharpoonup> outbound_message list"
  gn_worlds :: "world_id \<rightharpoonup> player_component world"
  gn_commands :: "player_component command_buffer"
  gn_events :: "network_event list"
  gn_joins :: "(entity \<times> rstring) list"
  gn_quits :: "(entity \<times> rstring) list"
  gn_enters :: "(u32 \<times> entity) list"
  gn_chats :: "(entity \<times> rstring) list"

definition send_packet :: "u32 \<Rightarrow> priority \<Rightarrow> i32 \<Rightarrow> unit io \<Rightarrow> game_net \<Rightarrow> game_net" where
  "send_packet conn_id priority packet_id encode g =
     g\<lparr>gn_clients := enqueue_packet conn_id (encode_clientbound packet_id encode) priority (gn_clients g)\<rparr>"

definition update_runtime :: "u32 \<Rightarrow> (connection_runtime \<Rightarrow> connection_runtime) \<Rightarrow> game_net \<Rightarrow> game_net" where
  "update_runtime conn_id f g = g\<lparr>gn_connections := manager_update conn_id f (gn_connections g)\<rparr>"

section \<open>The login\<close>

definition on_intention :: "game_config \<Rightarrow> 'm externals \<Rightarrow> ambient \<Rightarrow> u32 \<Rightarrow> intention \<Rightarrow> game_net \<Rightarrow> game_net" where
  "on_intention cfg ex amb conn_id p g =
     (let enforce = vc_enforce_proxy (gc_velocity cfg);
          m = manager_update conn_id (\<lambda>rt. rt\<lparr>rt_state := Handshake\<rparr>) (manager_open conn_id None (gn_connections g));
          (accept, m') =
            (case in_forwarding p of
               Some blob \<Rightarrow>
                 (case vc_secret (gc_velocity cfg) of
                    Some s \<Rightarrow>
                      (case verify_forwarding (ex_new_mac ex) (ex_verify ex) (am_clock amb) s blob of
                         Inr identity \<Rightarrow> (True, manager_update conn_id (\<lambda>rt. rt\<lparr>rt_forwarded := Some identity\<rparr>) m)
                       | Inl _ \<Rightarrow> (\<not> enforce, m))
                  | None \<Rightarrow> (True, m))
             | None \<Rightarrow> (\<not> enforce, m));
          g1 = g\<lparr>gn_connections := m'\<rparr>
      in if accept then g1
         else (let p = \<lparr>ld_reason = str ''connection not forwarded through Velocity''\<rparr>;
                   g2 = send_packet conn_id Urgent login_disconnect_id (login_disconnect_encode p) g1
               in g2\<lparr>gn_connections := manager_close conn_id (gn_connections g2)\<rparr>))"

definition on_status_request :: "game_config \<Rightarrow> u32 \<Rightarrow> game_net \<Rightarrow> game_net" where
  "on_status_request cfg conn_id g =
     send_packet conn_id Urgent status_response_id
       (status_response_encode \<lparr>sr_json = to_status_json (gc_status cfg) (active_count (gn_connections g))\<rparr>) g"

definition on_ping :: "u32 \<Rightarrow> ping \<Rightarrow> game_net \<Rightarrow> game_net" where
  "on_ping conn_id p = send_packet conn_id Urgent ping_response_id (ping_response_encode \<lparr>pgr_payload = pg_payload p\<rparr>)"

text \<open>20.0 is the bit pattern \<open>0x41A00000\<close>.\<close>

definition player_bundle :: "game_config \<Rightarrow> uuid \<Rightarrow> rstring \<Rightarrow> world_id \<Rightarrow> (component_id \<times> player_component) list" where
  "player_bundle cfg uuid username instance =
     map (\<lambda>(k, c). (gc_id cfg k, c))
       [(KPlayer, CPlayer uuid username Survival),
        (KPosition, CPosition (position_new (spc_x (gc_spawn cfg)) (spc_y (gc_spawn cfg)) (spc_z (gc_spawn cfg)))),
        (KHealth, CHealth 0x41A00000 0x41A00000),
        (KVelocity, CVelocity 0 0 0),
        (KInstance, CInstance instance),
        (KInventory, CInventory pi_new),
        (KAttributes, CAttributes)]"

text \<open>In the world of the instance, or by a deferred command when there is no such world.\<close>

definition spawn_player ::
  "game_config \<Rightarrow> world_id \<Rightarrow> (component_id \<times> player_component) list \<Rightarrow> game_net \<Rightarrow> (entity \<times> game_net) option" where
  "spawn_player cfg wid comps g =
     (case gn_worlds g wid of
        Some w \<Rightarrow> map_option (\<lambda>(e, w'). (e, g\<lparr>gn_worlds := (gn_worlds g)(wid \<mapsto> w')\<rparr>)) (bundle_spawn (gc_registry cfg) comps w)
      | None \<Rightarrow> (case cmd_spawn_bundle comps (gn_commands g) of (ec, b) \<Rightarrow> Some (ec_id ec, g\<lparr>gn_commands := b\<rparr>)))"

definition plain_frame :: "u8 list \<Rightarrow> outbound_message list" where
  "plain_frame bytes = (case encode_frame [] bytes of (Inr _, frame) \<Rightarrow> [Frame frame] | (Inl _, _) \<Rightarrow> [])"

definition threshold_of :: "u32 \<Rightarrow> game_net \<Rightarrow> i32" where
  "threshold_of conn_id g = (case nws_clients (gn_clients g) conn_id of Some c \<Rightarrow> nw_compression_threshold c | None \<Rightarrow> 0)"

text \<open>The login packets bypass the queues when compression is on, before the flag is set; what the channel
  has no room for is lost.\<close>

definition send_login_success :: "u32 \<Rightarrow> login_success \<Rightarrow> game_net \<Rightarrow> game_net" where
  "send_login_success conn_id p g =
     (let threshold = threshold_of conn_id g in
      if 0 <s threshold then
        (let out = (case gn_outbound g conn_id of
                      Some channel \<Rightarrow> (gn_outbound g)(conn_id \<mapsto> fold (try_send OUTBOUND_CAPACITY) (EnableCompression #
                         plain_frame (encode_clientbound login_success_id (login_success_encode p)) @
                         plain_frame (encode_clientbound login_compression_id (login_compression_encode \<lparr>lc_threshold = threshold\<rparr>))) channel)
                    | None \<Rightarrow> gn_outbound g);
             clients = (case nws_clients (gn_clients g) conn_id of
                          Some c \<Rightarrow> (gn_clients g)\<lparr>nws_clients := (nws_clients (gn_clients g))(conn_id \<mapsto> c\<lparr>nw_compression_enabled := True\<rparr>)\<rparr>
                        | None \<Rightarrow> gn_clients g)
         in g\<lparr>gn_outbound := out, gn_clients := clients\<rparr>)
      else send_packet conn_id Urgent login_success_id (login_success_encode p) g)"

text \<open>The identity that the proxy has forwarded, otherwise the one the client claims.\<close>

definition login_identity :: "ambient \<Rightarrow> connection_runtime \<Rightarrow> hello \<Rightarrow> uuid \<times> rstring" where
  "login_identity amb rt p =
     (case rt_forwarded rt of
        Some fwd \<Rightarrow> (fi_uuid fwd, fi_name fwd)
      | None \<Rightarrow> (case hello_uuid p of Some u \<Rightarrow> u | None \<Rightarrow> am_uuid amb, hello_name p))"

definition login_instance :: "game_config \<Rightarrow> world_id" where
  "login_instance cfg = (case gc_default_instance cfg of Some i \<Rightarrow> i | None \<Rightarrow> 0)"

definition on_hello :: "game_config \<Rightarrow> ambient \<Rightarrow> u32 \<Rightarrow> hello \<Rightarrow> game_net \<Rightarrow> game_net option" where
  "on_hello cfg amb conn_id p g =
     (case gn_connections g conn_id of
        None \<Rightarrow> Some g
      | Some rt \<Rightarrow>
          (case login_identity amb rt p of
             (uuid, username) \<Rightarrow>
               (let instance = login_instance cfg in
                case spawn_player cfg instance (player_bundle cfg uuid username instance) g of
                  None \<Rightarrow> None
                | Some (e, g1) \<Rightarrow>
                    (let g2 = update_runtime conn_id (\<lambda>rt. rt\<lparr>rt_entity := Some e, rt_state := Login, rt_world_id := instance,
                                rt_uuid := Some uuid, rt_username := Some username\<rparr>) g1;
                         g3 = g2\<lparr>gn_joins := gn_joins g2 @ [(e, username)]\<rparr>
                     in Some (send_login_success conn_id \<lparr>ls_uuid = uuid, ls_username = username, ls_properties = []\<rparr> g3)))))"

definition on_login_acknowledged :: "u32 \<Rightarrow> game_net \<Rightarrow> game_net" where
  "on_login_acknowledged conn_id g =
     update_runtime conn_id (\<lambda>rt. let rt = rt\<lparr>rt_state := Configuration\<rparr>
       in if 0 <s threshold_of conn_id g then rt\<lparr>rt_compression_enabled := True\<rparr> else rt) g"

section \<open>Configuration and entering the world\<close>

definition on_client_information :: "game_config \<Rightarrow> 'm externals \<Rightarrow> u32 \<Rightarrow> game_net \<Rightarrow> game_net" where
  "on_client_information cfg ex conn_id g =
     (let g1 = fold (\<lambda>p. send_packet conn_id Urgent registry_data_id (registry_data_encode p))
                 (registry_data_packets (ex_show_double ex) (ex_show_float ex) (gc_snapshot cfg)) g;
          g2 = send_packet conn_id Urgent update_tags_id (update_tags_encode (update_tags_packet (gc_tags cfg))) g1;
          g3 = send_packet conn_id Urgent feature_flags_id (feature_flags_encode \<lparr>ff_flags = []\<rparr>) g2
      in send_packet conn_id Urgent finish_configuration_s2c_id (finish_configuration_s2c_encode FinishConfigurationS2C) g3)"

definition overworld_info :: spawn_info where
  "overworld_info = \<lparr>si_dimension = 0, si_name = str ''minecraft:overworld'', si_hashed_seed = 0, si_gamemode = 0,
     si_previous_gamemode = 255, si_is_debug = False, si_is_flat = True, si_death = None, si_portal_cooldown = 0,
     si_sea_level = 63\<rparr>"

definition play_login :: "game_config \<Rightarrow> u32 \<Rightarrow> login" where
  "play_login cfg conn_id =
     \<lparr>lo_entity_id = ucast conn_id, lo_is_hardcore = False, lo_world_names = [str ''minecraft:overworld''],
      lo_max_players = stc_max_players (gc_status cfg), lo_view_distance = 10, lo_simulation_distance = 10,
      lo_reduced_debug_info = False, lo_enable_respawn_screen = True, lo_do_limited_crafting = False,
      lo_world_state = overworld_info, lo_enforces_secure_chat = False\<rparr>"

definition entry_position :: "game_config \<Rightarrow> position_cb" where
  "entry_position cfg =
     \<lparr>pc_teleport_id = 1, pc_x = spc_x (gc_spawn cfg), pc_y = spc_y (gc_spawn cfg), pc_z = spc_z (gc_spawn cfg),
      pc_dx = 0, pc_dy = 0, pc_dz = 0, pc_yaw = spc_yaw (gc_spawn cfg), pc_pitch = spc_pitch (gc_spawn cfg), pc_flags = 0\<rparr>"

definition on_finish_configuration :: "game_config \<Rightarrow> u32 \<Rightarrow> game_net \<Rightarrow> game_net" where
  "on_finish_configuration cfg conn_id g =
     (let g1 = update_runtime conn_id (\<lambda>rt. rt\<lparr>rt_state := Play\<rparr>) g in
      case entity_of (gn_connections g1) conn_id of
        None \<Rightarrow> g1
      | Some e \<Rightarrow>
          (case gn_connections g1 conn_id of
             None \<Rightarrow> g1
           | Some rt \<Rightarrow>
               (case rt_uuid rt of
                  None \<Rightarrow> g1
                | Some uuid \<Rightarrow>
                    (case rt_username rt of
                       None \<Rightarrow> g1
                     | Some username \<Rightarrow>
                         (let g2 = send_packet conn_id Urgent login_id (login_encode (play_login cfg conn_id)) g1;
                              g3 = send_packet conn_id Urgent position_cb_id (position_cb_encode (entry_position cfg)) g2;
                              g4 = send_packet conn_id Urgent update_health_id
                                     (update_health_encode \<lparr>uh_health = 0x41A00000, uh_food = 20, uh_food_saturation = 0x40A00000\<rparr>) g3;
                              g5 = send_packet conn_id Urgent player_info_id
                                     (player_info_encode \<lparr>plin_uuid = uuid, plin_name = username, plin_properties = []\<rparr>) g4
                          in g5\<lparr>gn_enters := gn_enters g5 @ [(conn_id, e)]\<rparr>)))))"

section \<open>Playing\<close>

definition on_move :: "u32 \<Rightarrow> body_position \<Rightarrow> f32 \<Rightarrow> f32 \<Rightarrow> bool \<Rightarrow> game_net \<Rightarrow> game_net" where
  "on_move conn_id position yaw pitch grounded g =
     (if entity_of (gn_connections g) conn_id = None then g
      else g\<lparr>gn_events := gn_events g @ [PlayerMoveRaw conn_id position yaw pitch grounded]\<rparr>)"

definition world_of :: "u32 \<Rightarrow> game_net \<Rightarrow> world_id" where
  "world_of conn_id g = (case gn_connections g conn_id of Some rt \<Rightarrow> rt_world_id rt | None \<Rightarrow> 0)"

definition inventory_of :: "game_config \<Rightarrow> entity \<Rightarrow> player_component world \<Rightarrow> player_inventory option" where
  "inventory_of cfg e w =
     (case get_component (gc_registry cfg) e (gc_id cfg KInventory) w of Some (CInventory bag) \<Rightarrow> Some bag | _ \<Rightarrow> None)"

text \<open>The inventory of the player of a connection, changed in place, and whether there is one.\<close>

definition with_inventory :: "game_config \<Rightarrow> u32 \<Rightarrow> (player_inventory \<Rightarrow> 'r \<times> player_inventory) \<Rightarrow> game_net \<Rightarrow> 'r option \<times> game_net" where
  "with_inventory cfg conn_id f g =
     (case entity_of (gn_connections g) conn_id of
        None \<Rightarrow> (None, g)
      | Some e \<Rightarrow>
          (let wid = world_of conn_id g in
           case gn_worlds g wid of
             None \<Rightarrow> (None, g)
           | Some w \<Rightarrow>
               (case inventory_of cfg e w of
                  None \<Rightarrow> (None, g)
                | Some bag \<Rightarrow>
                    (Some (fst (f bag)),
                     g\<lparr>gn_worlds := (gn_worlds g)(wid \<mapsto>
                        modify_component (gc_registry cfg) e (gc_id cfg KInventory) (\<lambda>_. CInventory (snd (f bag))) w)\<rparr>))))"

definition click_inventory :: "click_container \<Rightarrow> player_inventory \<Rightarrow> player_inventory" where
  "click_inventory click bag =
     (let bag' = snd (apply_click (scast (cc_slot click)) (cc_button click) (cc_mode click) bag);
          result = pi_get (unat CRAFTING_RESULT_SLOT) bag'
      in if cc_mode click = CLICK_QUICK_CRAFT \<and> window_slot_to_minestom_slot (scast (cc_slot click)) = CRAFTING_RESULT_SLOT
           \<and> \<not> is_air result
         then bag'\<lparr>pi_crafting_result_pending := Some result\<rparr> else bag')"

definition on_click_container :: "game_config \<Rightarrow> u32 \<Rightarrow> click_container \<Rightarrow> game_net \<Rightarrow> game_net" where
  "on_click_container cfg conn_id click g =
     (if cc_window_id click \<noteq> 0 then g
      else snd (with_inventory cfg conn_id (\<lambda>bag. ((), click_inventory click bag)) g))"

definition on_close_container :: "game_config \<Rightarrow> u32 \<Rightarrow> game_net \<Rightarrow> game_net" where
  "on_close_container cfg conn_id g = snd (with_inventory cfg conn_id drop_cursor g)"

definition on_held_item_change :: "game_config \<Rightarrow> u32 \<Rightarrow> client_held_item_change \<Rightarrow> game_net \<Rightarrow> game_net" where
  "on_held_item_change cfg conn_id p g =
     (if 0 \<le> sint (chic_slot p) \<and> sint (chic_slot p) \<le> 8 then
        (case with_inventory cfg conn_id (set_held_slot (ucast (chic_slot p))) g of
           (Some True, g') \<Rightarrow>
             send_packet conn_id Normal held_item_change_id (held_item_change_encode \<lparr>hic_slot = ucast (chic_slot p)\<rparr>) g'
         | (_, g') \<Rightarrow> g')
      else g)"

definition push_command_line :: "u32 \<Rightarrow> rstring \<Rightarrow> game_net \<Rightarrow> game_net" where
  "push_command_line conn_id message g =
     g\<lparr>gn_clients := (gn_clients g)\<lparr>nws_command_inbox := nws_command_inbox (gn_clients g) @ [(conn_id, message)]\<rparr>\<rparr>"

definition push_action :: "u32 \<Rightarrow> inbound_packet \<Rightarrow> game_net \<Rightarrow> game_net" where
  "push_action conn_id p g =
     g\<lparr>gn_clients := (gn_clients g)\<lparr>nws_packet_inbox := nws_packet_inbox (gn_clients g) @ [(conn_id, p)]\<rparr>\<rparr>"

definition on_settings :: "u32 \<Rightarrow> settings \<Rightarrow> game_net \<Rightarrow> game_net" where
  "on_settings conn_id p = update_runtime conn_id (Connection_Manager.set_view_distance (ucast (settings.set_view_distance p)))"

definition on_chat_message :: "u32 \<Rightarrow> rstring \<Rightarrow> game_net \<Rightarrow> game_net" where
  "on_chat_message conn_id message g =
     (case entity_of (gn_connections g) conn_id of
        None \<Rightarrow> g
      | Some e \<Rightarrow> g\<lparr>gn_chats := gn_chats g @ [(e, message)]\<rparr>)"

text \<open>1.1 and 16.0 as bit patterns; the counter wraps in a release build.\<close>

definition on_batch_received :: "'m externals \<Rightarrow> chunk_sender \<Rightarrow> chunk_sender" where
  "on_batch_received ex cs =
     cs\<lparr>cs_outstanding_batches := cs_outstanding_batches cs + 1,
        cs_target_chunks_per_tick := ex_min ex (ex_mul ex (cs_target_chunks_per_tick cs) 0x3F8CCCCD) 0x41800000\<rparr>"

text \<open>The credits of the chunk sender: earned in every tick, spent one (\<open>0x3F800000\<close>) at a time.\<close>

definition chunk_sender_tick :: "'m externals \<Rightarrow> chunk_sender \<Rightarrow> chunk_sender" where
  "chunk_sender_tick ex cs =
     cs\<lparr>cs_pending_chunk_count := ex_add ex (cs_pending_chunk_count cs) (cs_target_chunks_per_tick cs)\<rparr>"

definition chunk_sender_try_send :: "'m externals \<Rightarrow> chunk_sender \<Rightarrow> bool \<times> chunk_sender" where
  "chunk_sender_try_send ex cs =
     (if ex_ge ex (cs_pending_chunk_count cs) 0x3F800000
      then (True, cs\<lparr>cs_pending_chunk_count := ex_sub ex (cs_pending_chunk_count cs) 0x3F800000\<rparr>) else (False, cs))"

definition on_chunk_batch :: "'m externals \<Rightarrow> u32 \<Rightarrow> game_net \<Rightarrow> game_net" where
  "on_chunk_batch ex conn_id g =
     (case nws_clients (gn_clients g) conn_id of
        None \<Rightarrow> g
      | Some c \<Rightarrow>
          g\<lparr>gn_clients := (gn_clients g)\<lparr>nws_clients := (nws_clients (gn_clients g))
              (conn_id \<mapsto> c\<lparr>nw_chunk_sender := on_batch_received ex (nw_chunk_sender c)\<rparr>)\<rparr>\<rparr>)"

section \<open>All packets\<close>

definition handle_packet ::
  "game_config \<Rightarrow> 'm externals \<Rightarrow> ambient \<Rightarrow> u32 \<Rightarrow> inbound_packet \<Rightarrow> game_net \<Rightarrow> game_net option" where
  "handle_packet cfg ex amb conn_id inbound g =
     (case inbound of
        InIntention p \<Rightarrow> Some (on_intention cfg ex amb conn_id p g)
      | InStatusRequest \<Rightarrow> Some (on_status_request cfg conn_id g)
      | InPing p \<Rightarrow> Some (on_ping conn_id p g)
      | InHello p \<Rightarrow> on_hello cfg amb conn_id p g
      | InLoginAcknowledged \<Rightarrow> Some (on_login_acknowledged conn_id g)
      | InClientInformation p \<Rightarrow> Some (on_client_information cfg ex conn_id g)
      | InFinishConfiguration \<Rightarrow> Some (on_finish_configuration cfg conn_id g)
      | InPlayerPosition p \<Rightarrow> Some (on_move conn_id (position_new (pp_x p) (pp_y p) (pp_z p)) 0 0 (pp_grounded p) g)
      | InPlayerPositionAndRotation p \<Rightarrow>
          Some (on_move conn_id (position_new (ppr_x p) (ppr_y p) (ppr_z p)) (ppr_yaw p) (ppr_pitch p) (ppr_grounded p) g)
      | InClickContainer p \<Rightarrow> Some (on_click_container cfg conn_id p g)
      | InCloseContainer p \<Rightarrow> Some (on_close_container cfg conn_id g)
      | InHeldItemChange p \<Rightarrow> Some (on_held_item_change cfg conn_id p g)
      | InClientCommandChat p \<Rightarrow> Some (push_command_line conn_id (ccc_message p) g)
      | InClientSignedCommandChat p \<Rightarrow> Some (push_command_line conn_id (cscc_message p) g)
      | InSettings p \<Rightarrow> Some (on_settings conn_id p g)
      | InChatMessage p \<Rightarrow> Some (on_chat_message conn_id (cm_message p) g)
      | InInteractEntity p \<Rightarrow> Some (push_action conn_id inbound g)
      | InPlayerAction p \<Rightarrow> Some (push_action conn_id inbound g)
      | InAnimation p \<Rightarrow> Some (push_action conn_id inbound g)
      | InUseItem p \<Rightarrow> Some (push_action conn_id inbound g)
      | InPlayerBlockPlacement p \<Rightarrow> Some (push_action conn_id inbound g)
      | InChunkBatchReceived p \<Rightarrow> Some (on_chunk_batch ex conn_id g)
      | _ \<Rightarrow> Some g)"

definition on_closed :: "u32 \<Rightarrow> game_net \<Rightarrow> game_net" where
  "on_closed conn_id g =
     (let g1 = (case entity_of (gn_connections g) conn_id of
                  None \<Rightarrow> g
                | Some e \<Rightarrow>
                    (let wid = world_of conn_id g;
                         g0 = (case gn_worlds g wid of
                                 Some w \<Rightarrow> g\<lparr>gn_worlds := (gn_worlds g)(wid \<mapsto> snd (despawn e w))\<rparr>
                               | None \<Rightarrow> g\<lparr>gn_commands := cmd_despawn e (gn_commands g)\<rparr>);
                         username = (case Option.bind (gn_connections g conn_id) rt_username of Some u \<Rightarrow> u | None \<Rightarrow> [])
                     in g0\<lparr>gn_quits := gn_quits g0 @ [(e, username)]\<rparr>))
      in g1\<lparr>gn_events := gn_events g1 @ [ConnectionClosed conn_id],
            gn_connections := manager_close conn_id (gn_connections g1),
            gn_clients := networks_remove conn_id (gn_clients g1)\<rparr>)"

definition receive_frame :: "game_config \<Rightarrow> 'm externals \<Rightarrow> ambient \<Rightarrow> raw_frame \<Rightarrow> game_net \<Rightarrow> game_net option" where
  "receive_frame cfg ex amb frame g =
     (case frame of
        Closed conn_id \<Rightarrow> Some (on_closed conn_id g)
      | Packet conn_id state packet_id payload \<Rightarrow>
          (let g1 = g\<lparr>gn_clients := networks_insert conn_id (gn_clients g)\<rparr> in
           case dispatch state packet_id payload of
             Inl _ \<Rightarrow> Some g1
           | Inr inbound \<Rightarrow> handle_packet cfg ex amb conn_id inbound g1))"

fun network_receive :: "game_config \<Rightarrow> 'm externals \<Rightarrow> (ambient \<times> raw_frame) list \<Rightarrow> game_net \<Rightarrow> game_net option" where
  "network_receive cfg ex [] g = Some g"
| "network_receive cfg ex ((amb, frame) # rest) g =
     Option.bind (receive_frame cfg ex amb frame g) (network_receive cfg ex rest)"

text \<open>The end of the tick.\<close>

definition network_send :: "(u8 list \<Rightarrow> u8 list option) \<Rightarrow> game_net \<Rightarrow> game_net" where
  "network_send deflater g =
     g\<lparr>gn_outbound := flush_all deflater (gn_clients g) (gn_outbound g),
       gn_clients := (gn_clients g)\<lparr>nws_clients := (\<lambda>c. map_option clear_queues (nws_clients (gn_clients g) c))\<rparr>\<rparr>"

definition game_net_start :: "(world_id \<rightharpoonup> player_component world) \<Rightarrow> client_networks \<Rightarrow> (u32 \<rightharpoonup> outbound_message list) \<Rightarrow> game_net" where
  "game_net_start worlds clients outbound =
     \<lparr>gn_connections = Map.empty, gn_clients = clients, gn_outbound = outbound, gn_worlds = worlds,
      gn_commands = command_buffer_new, gn_events = [], gn_joins = [], gn_quits = [], gn_enters = [], gn_chats = []\<rparr>"

end
