(* ===== verification/Login_Flow.thy ===== *)
theory Login_Flow
  imports Network_Receive
begin

text \<open>
  What the reaction to packets keeps and achieves: the effect of each handler on the parts of the state,
  the law of spawning a player, the isolation of connections, the identity behind every player, the login
  from the handshake into the world, the end of a connection, and the items of the players.
\<close>

section \<open>Parts of the state\<close>

lemma send_packet_fields [simp]:
  "gn_connections (send_packet c p k enc g) = gn_connections g" "gn_worlds (send_packet c p k enc g) = gn_worlds g"
  "gn_outbound (send_packet c p k enc g) = gn_outbound g" "gn_commands (send_packet c p k enc g) = gn_commands g"
  "gn_events (send_packet c p k enc g) = gn_events g" "gn_joins (send_packet c p k enc g) = gn_joins g"
  "gn_quits (send_packet c p k enc g) = gn_quits g" "gn_enters (send_packet c p k enc g) = gn_enters g"
  "gn_chats (send_packet c p k enc g) = gn_chats g"
  by (simp_all add: send_packet_def)

lemma update_runtime_fields [simp]:
  "gn_connections (update_runtime c f g) = manager_update c f (gn_connections g)" "gn_worlds (update_runtime c f g) = gn_worlds g"
  "gn_outbound (update_runtime c f g) = gn_outbound g" "gn_commands (update_runtime c f g) = gn_commands g"
  "gn_clients (update_runtime c f g) = gn_clients g" "gn_events (update_runtime c f g) = gn_events g"
  "gn_joins (update_runtime c f g) = gn_joins g" "gn_quits (update_runtime c f g) = gn_quits g"
  "gn_enters (update_runtime c f g) = gn_enters g" "gn_chats (update_runtime c f g) = gn_chats g"
  by (simp_all add: update_runtime_def)

lemma send_all_fields [simp]:
  "gn_connections (fold (\<lambda>x. send_packet c p k (enc x)) xs g) = gn_connections g"
  "gn_worlds (fold (\<lambda>x. send_packet c p k (enc x)) xs g) = gn_worlds g"
  "gn_outbound (fold (\<lambda>x. send_packet c p k (enc x)) xs g) = gn_outbound g"
  "gn_joins (fold (\<lambda>x. send_packet c p k (enc x)) xs g) = gn_joins g"
  "gn_enters (fold (\<lambda>x. send_packet c p k (enc x)) xs g) = gn_enters g"
  by (induction xs arbitrary: g) simp_all

lemma send_login_success_fields [simp]:
  "gn_connections (send_login_success c p g) = gn_connections g" "gn_worlds (send_login_success c p g) = gn_worlds g"
  "gn_joins (send_login_success c p g) = gn_joins g" "gn_enters (send_login_success c p g) = gn_enters g"
  by (simp_all add: send_login_success_def Let_def)

lemma spawn_player_fields:
  assumes "spawn_player cfg wid comps g = Some (e, g')"
  shows "gn_connections g' = gn_connections g" "gn_clients g' = gn_clients g" "gn_outbound g' = gn_outbound g"
    "gn_joins g' = gn_joins g" "gn_enters g' = gn_enters g"
  using assms by (auto simp: spawn_player_def split: option.splits prod.splits)

lemma with_inventory_fields [simp]:
  "gn_connections (snd (with_inventory cfg c f g)) = gn_connections g" "gn_clients (snd (with_inventory cfg c f g)) = gn_clients g"
  "gn_outbound (snd (with_inventory cfg c f g)) = gn_outbound g" "gn_joins (snd (with_inventory cfg c f g)) = gn_joins g"
  by (simp_all add: with_inventory_def Let_def split: option.split)

section \<open>Connections are isolated\<close>

text \<open>What the game holds of a connection: its record, its queues and its channel.\<close>

definition share_of :: "game_net \<Rightarrow> u32 \<Rightarrow> connection_runtime option \<times> client_network option \<times> outbound_message list option" where
  "share_of g d = (gn_connections g d, nws_clients (gn_clients g) d, gn_outbound g d)"

lemma share_send: "d \<noteq> c \<Longrightarrow> share_of (send_packet c p k enc g) d = share_of g d"
  by (simp add: share_of_def send_packet_def enqueue_packet_other)

lemma share_update: "d \<noteq> c \<Longrightarrow> share_of (update_runtime c f g) d = share_of g d"
  by (simp add: share_of_def)

lemma share_send_all: "d \<noteq> c \<Longrightarrow> share_of (fold (\<lambda>x. send_packet c p k (enc x)) xs g) d = share_of g d"
  by (induction xs arbitrary: g) (simp_all add: share_send)

lemma share_rest [simp]:
  "share_of (g\<lparr>gn_worlds := ws\<rparr>) = share_of g" "share_of (g\<lparr>gn_commands := b\<rparr>) = share_of g"
  "share_of (g\<lparr>gn_events := es\<rparr>) = share_of g" "share_of (g\<lparr>gn_joins := js\<rparr>) = share_of g"
  "share_of (g\<lparr>gn_quits := qs\<rparr>) = share_of g" "share_of (g\<lparr>gn_enters := ns\<rparr>) = share_of g"
  "share_of (g\<lparr>gn_chats := cs\<rparr>) = share_of g"
  by (simp_all add: share_of_def fun_eq_iff)

lemma share_intention: "d \<noteq> c \<Longrightarrow> share_of (on_intention cfg ex amb c p g) d = share_of g d"
  by (simp add: on_intention_def Let_def share_of_def send_packet_def enqueue_packet_other split: option.split sum.split)

lemma share_inventory: "share_of (snd (with_inventory cfg c f g)) = share_of g"
  by (simp add: share_of_def fun_eq_iff)

lemma share_login_success: "d \<noteq> c \<Longrightarrow> share_of (send_login_success c p g) d = share_of g d"
  by (simp add: send_login_success_def Let_def share_send) (simp add: share_of_def split: option.split)

lemma hello_cases:
  assumes "on_hello cfg amb c p g = Some g'"
  obtains (unknown) "gn_connections g c = None" and "g' = g"
    | (player) rt uuid username e g1 where "gn_connections g c = Some rt" and "login_identity amb rt p = (uuid, username)"
      and "spawn_player cfg (login_instance cfg) (player_bundle cfg uuid username (login_instance cfg)) g = Some (e, g1)"
      and "g' = send_login_success c \<lparr>ls_uuid = uuid, ls_username = username, ls_properties = []\<rparr>
        ((update_runtime c (\<lambda>rt. rt\<lparr>rt_entity := Some e, rt_state := Login, rt_world_id := login_instance cfg,
            rt_uuid := Some uuid, rt_username := Some username\<rparr>) g1)\<lparr>gn_joins := gn_joins g1 @ [(e, username)]\<rparr>)"
  using assms by (auto simp: on_hello_def Let_def split: option.splits prod.splits)

lemma share_hello:
  assumes "on_hello cfg amb c p g = Some g'" and "d \<noteq> c"
  shows "share_of g' d = share_of g d"
  using assms(1)
proof (cases rule: hello_cases)
  case (player rt uuid username e g1)
  have "share_of g' d = share_of g1 d" using player(4) assms(2) by (simp add: share_login_success share_update)
  then show ?thesis using spawn_player_fields [OF player(3)] by (simp add: share_of_def)
qed simp

lemma held_fields:
  "gn_connections (on_held_item_change cfg c p g) = gn_connections g"
  "gn_worlds (on_held_item_change cfg c p g) =
     (if 0 \<le> sint (chic_slot p) \<and> sint (chic_slot p) \<le> 8
      then gn_worlds (snd (with_inventory cfg c (set_held_slot (ucast (chic_slot p))) g)) else gn_worlds g)"
  "gn_joins (on_held_item_change cfg c p g) = gn_joins g"
  using with_inventory_fields [of cfg c "set_held_slot (ucast (chic_slot p))" g]
  by (cases "with_inventory cfg c (set_held_slot (ucast (chic_slot p))) g"; auto simp: on_held_item_change_def split: option.split bool.split)+

lemma share_held:
  "d \<noteq> c \<Longrightarrow> share_of (on_held_item_change cfg c p g) d = share_of g d"
  using share_inventory [of cfg c "set_held_slot (ucast (chic_slot p))" g]
  by (auto simp: on_held_item_change_def share_send split: prod.splits option.splits bool.splits)

lemma share_clients:
  "nws_clients cs d = nws_clients (gn_clients g) d \<Longrightarrow> share_of (g\<lparr>gn_clients := cs\<rparr>) d = share_of g d"
  by (simp add: share_of_def)

text \<open>The packets that change neither a record, a world, a deferred command nor the players.\<close>

definition quiet :: "u32 \<Rightarrow> game_net \<Rightarrow> game_net \<Rightarrow> bool" where
  "quiet c g g' \<longleftrightarrow> gn_connections g' = gn_connections g \<and> gn_worlds g' = gn_worlds g \<and> gn_commands g' = gn_commands g \<and>
     gn_joins g' = gn_joins g \<and> gn_enters g' = gn_enters g \<and> (\<forall>d. d \<noteq> c \<longrightarrow> share_of g' d = share_of g d)"

lemma quiet_rules:
  "quiet c g g" "quiet c g (send_packet c p k enc g)" "quiet c g (on_client_information cfg ex c g)"
  "quiet c g (on_move c x y z b g)" "quiet c g (push_command_line c m g)" "quiet c g (push_action c q g)"
  "quiet c g (on_chat_message c m g)" "quiet c g (on_chunk_batch ex c g)"
proof -
  have "gn_commands (fold (\<lambda>x. send_packet c p k (enc x)) xs g) = gn_commands g" for xs :: "registry_data list" and p k enc
    by (induction xs arbitrary: g) simp_all
  then show "quiet c g (on_client_information cfg ex c g)"
    by (simp add: quiet_def on_client_information_def Let_def share_send share_send_all)
qed (auto simp: quiet_def share_send on_move_def push_command_line_def push_action_def on_chat_message_def on_chunk_batch_def
    intro!: share_clients split: option.split)

lemma handle_cases:
  assumes "handle_packet cfg ex amb c p g = Some g'"
  obtains (intention) q where "p = InIntention q" and "g' = on_intention cfg ex amb c q g"
    | (hello) q where "p = InHello q" and "on_hello cfg amb c q g = Some g'"
    | (acknowledged) "p = InLoginAcknowledged" and "g' = on_login_acknowledged c g"
    | (finish) "p = InFinishConfiguration" and "g' = on_finish_configuration cfg c g"
    | (click) q where "p = InClickContainer q" and "g' = on_click_container cfg c q g"
    | (closing) q where "p = InCloseContainer q" and "g' = on_close_container cfg c g"
    | (held) q where "p = InHeldItemChange q" and "g' = on_held_item_change cfg c q g"
    | (settings) q where "p = InSettings q" and "g' = on_settings c q g"
    | (other) "quiet c g g'"
  using assms by (cases p) (auto simp: handle_packet_def on_status_request_def on_ping_def intro: quiet_rules)

lemma share_finish: "d \<noteq> c \<Longrightarrow> share_of (on_finish_configuration cfg c g) d = share_of g d"
  by (simp add: on_finish_configuration_def Let_def share_send share_update split: option.split)

lemma share_handle:
  assumes "handle_packet cfg ex amb c p g = Some g'" and "d \<noteq> c"
  shows "share_of g' d = share_of g d"
  using assms(1)
  by (cases rule: handle_cases)
    (use assms(2) in \<open>auto simp: share_intention share_hello share_update share_finish share_inventory share_held
      on_login_acknowledged_def on_click_container_def on_close_container_def on_settings_def quiet_def\<close>)

lemma share_closed: "d \<noteq> c \<Longrightarrow> share_of (on_closed c g) d = share_of g d"
  by (simp add: on_closed_def Let_def share_of_def networks_remove_def split: option.split)

lemma share_frame:
  assumes "receive_frame cfg ex amb frame g = Some g'"
    and "case frame of Packet c s k payload \<Rightarrow> d \<noteq> c | Closed c \<Rightarrow> d \<noteq> c"
  shows "share_of g' d = share_of g d"
proof (cases frame)
  case (Packet c s k payload)
  have "share_of (g\<lparr>gn_clients := networks_insert c (gn_clients g)\<rparr>) d = share_of g d"
    using assms(2) Packet by (simp add: share_of_def networks_insert_def Let_def)
  then show ?thesis
    using assms Packet share_handle [of cfg ex amb c _ _ g' d] by (auto simp: receive_frame_def Let_def split: sum.splits)
next
  case (Closed c)
  then show ?thesis using assms share_closed by (auto simp: receive_frame_def)
qed

section \<open>The identity behind a player\<close>

text \<open>A connection has vouched for an identity when it has sent it, signed, in an intention frame.\<close>

definition vouched ::
  "game_config \<Rightarrow> 'm externals \<Rightarrow> (ambient \<times> raw_frame) list \<Rightarrow> u32 \<Rightarrow> forwarded_identity \<Rightarrow> bool" where
  "vouched cfg ex hist c i \<longleftrightarrow>
     (\<exists>amb s k payload p blob secret. (amb, Packet c s k payload) \<in> set hist \<and>
        dispatch s k payload = Inr (InIntention p) \<and> in_forwarding p = Some blob \<and>
        vc_secret (gc_velocity cfg) = Some secret \<and>
        verify_forwarding (ex_new_mac ex) (ex_verify ex) (am_clock amb) secret blob = Inr i)"

lemma vouchedI:
  assumes "(amb, Packet c s k payload) \<in> set hist" and "dispatch s k payload = Inr (InIntention p)"
    and "in_forwarding p = Some blob" and "vc_secret (gc_velocity cfg) = Some secret"
    and "verify_forwarding (ex_new_mac ex) (ex_verify ex) (am_clock amb) secret blob = Inr i"
  shows "vouched cfg ex hist c i"
  using assms unfolding vouched_def by blast

definition trusted_record ::
  "game_config \<Rightarrow> 'm externals \<Rightarrow> (ambient \<times> raw_frame) list \<Rightarrow> u32 \<Rightarrow> connection_runtime \<Rightarrow> bool" where
  "trusted_record cfg ex hist c rt \<longleftrightarrow>
     (\<exists>i. rt_forwarded rt = Some i \<and> vouched cfg ex hist c i) \<and>
     (case rt_uuid rt of
        None \<Rightarrow> rt_entity rt = None
      | Some u \<Rightarrow> \<exists>i. vouched cfg ex hist c i \<and> fi_uuid i = u \<and> rt_username rt = Some (fi_name i))"

definition trusted :: "game_config \<Rightarrow> 'm externals \<Rightarrow> (ambient \<times> raw_frame) list \<Rightarrow> game_net \<Rightarrow> bool" where
  "trusted cfg ex hist g \<longleftrightarrow>
     (\<forall>c rt. gn_connections g c = Some rt \<longrightarrow> trusted_record cfg ex hist c rt) \<and>
     (\<forall>(e, name) \<in> set (gn_joins g). \<exists>c i. vouched cfg ex hist c i \<and> fi_name i = name)"

lemma vouched_later: "vouched cfg ex hist c i \<Longrightarrow> vouched cfg ex (hist @ fs) c i"
  unfolding vouched_def by (auto 0 6)

lemma trusted_record_later: "trusted_record cfg ex hist c rt \<Longrightarrow> trusted_record cfg ex (hist @ fs) c rt"
  using vouched_later [of cfg ex hist c _ fs] by (auto simp: trusted_record_def split: option.splits)

lemma trusted_later: "trusted cfg ex hist g \<Longrightarrow> trusted cfg ex (hist @ fs) g"
  using vouched_later [of cfg ex hist _ _ fs] trusted_record_later [of cfg ex hist _ _ fs] unfolding trusted_def by fast

lemma trusted_cong:
  "gn_connections g' = gn_connections g \<Longrightarrow> gn_joins g' = gn_joins g \<Longrightarrow> trusted cfg ex hist g' = trusted cfg ex hist g"
  by (simp add: trusted_def)

lemma trusted_update:
  assumes "trusted cfg ex hist g" and "gn_connections g' = manager_update c f (gn_connections g)" and "gn_joins g' = gn_joins g"
    and "\<And>rt. rt_forwarded (f rt) = rt_forwarded rt \<and> rt_uuid (f rt) = rt_uuid rt \<and> rt_entity (f rt) = rt_entity rt \<and>
      rt_username (f rt) = rt_username rt"
  shows "trusted cfg ex hist g'"
proof -
  have "trusted_record cfg ex hist c (f rt) = trusted_record cfg ex hist c rt" for rt
    using assms(4) [of rt] by (simp add: trusted_record_def split: option.split)
  then show ?thesis using assms(1-3) by (auto simp: trusted_def)
qed

lemma trusted_intention:
  assumes "trusted cfg ex hist g" and "vc_enforce_proxy (gc_velocity cfg)" and "vc_secret (gc_velocity cfg) = Some secret"
    and "\<And>blob i. in_forwarding p = Some blob \<Longrightarrow>
      verify_forwarding (ex_new_mac ex) (ex_verify ex) (am_clock amb) secret blob = Inr i \<Longrightarrow> vouched cfg ex hist c i"
  shows "trusted cfg ex hist (on_intention cfg ex amb c p g)"
proof -
  have others: "gn_connections (on_intention cfg ex amb c p g) d = gn_connections g d" if "d \<noteq> c" for d
    using share_intention [OF that, of cfg ex amb p g] by (simp add: share_of_def)
  have joins: "gn_joins (on_intention cfg ex amb c p g) = gn_joins g"
    by (simp add: on_intention_def Let_def split: option.split sum.split)
  have "trusted_record cfg ex hist c rt" if opened: "gn_connections (on_intention cfg ex amb c p g) c = Some rt" for rt
  proof -
    obtain blob i where i: "in_forwarding p = Some blob"
      "verify_forwarding (ex_new_mac ex) (ex_verify ex) (am_clock amb) secret blob = Inr i"
      using opened assms(2,3) by (auto simp: on_intention_def Let_def split: option.splits sum.splits)
    then have v: "vouched cfg ex hist c i" by (rule assms(4))
    show ?thesis
    proof (cases "gn_connections g c")
      case None
      then show ?thesis
        using opened i v assms(3) by (auto simp: on_intention_def Let_def trusted_record_def runtime_new_def)
    next
      case (Some rt0)
      then have "trusted_record cfg ex hist c rt0" using assms(1) by (simp add: trusted_def)
      moreover have "rt = rt0\<lparr>rt_state := Handshake, rt_forwarded := Some i\<rparr>"
        using opened i assms(3) Some by (simp add: on_intention_def Let_def)
      ultimately show ?thesis using v by (cases "rt_uuid rt0") (auto simp: trusted_record_def)
    qed
  qed
  note own = this
  have "trusted_record cfg ex hist d rt" if "gn_connections (on_intention cfg ex amb c p g) d = Some rt" for d rt
    using own others [of d] that assms(1) by (cases "d = c") (auto simp: trusted_def)
  moreover have "\<forall>(e, name) \<in> set (gn_joins g). \<exists>c i. vouched cfg ex hist c i \<and> fi_name i = name"
    using assms(1) by (simp add: trusted_def)
  ultimately show ?thesis unfolding trusted_def joins by simp
qed

lemma trusted_hello:
  assumes "trusted cfg ex hist g" and "on_hello cfg amb c p g = Some g'"
  shows "trusted cfg ex hist g'"
  using assms(2)
proof (cases rule: hello_cases)
  case unknown
  then show ?thesis using assms(1) by simp
next
  case (player rt uuid username e g1)
  have rt: "trusted_record cfg ex hist c rt" using assms(1) player(1) by (simp add: trusted_def)
  then obtain i where i: "rt_forwarded rt = Some i" "vouched cfg ex hist c i" by (auto simp: trusted_record_def)
  then have id: "uuid = fi_uuid i" "username = fi_name i" using player(2) by (simp_all add: login_identity_def)
  note same = spawn_player_fields [OF player(3)]
  have "gn_connections g' = manager_update c (\<lambda>rt. rt\<lparr>rt_entity := Some e, rt_state := Login,
      rt_world_id := login_instance cfg, rt_uuid := Some uuid, rt_username := Some username\<rparr>) (gn_connections g)"
    "gn_joins g' = gn_joins g @ [(e, username)]"
    using player(4) same by simp_all
  then show ?thesis
    using assms(1) player(1) i id by (fastforce simp: trusted_def trusted_record_def)
qed

lemma trusted_handle:
  assumes "trusted cfg ex hist g" and "vc_enforce_proxy (gc_velocity cfg)" and "vc_secret (gc_velocity cfg) = Some secret"
    and "handle_packet cfg ex amb c p g = Some g'"
    and "\<And>q blob i. p = InIntention q \<Longrightarrow> in_forwarding q = Some blob \<Longrightarrow>
      verify_forwarding (ex_new_mac ex) (ex_verify ex) (am_clock amb) secret blob = Inr i \<Longrightarrow> vouched cfg ex hist c i"
  shows "trusted cfg ex hist g'"
  using assms(4)
proof (cases rule: handle_cases)
  case (intention q)
  then show ?thesis using trusted_intention [OF assms(1-3), of q amb c] assms(5) by blast
next
  case (hello q)
  then show ?thesis using trusted_hello [OF assms(1)] by blast
next
  case acknowledged
  show ?thesis
    by (rule trusted_update [OF assms(1), of _ c "\<lambda>rt. let rt = rt\<lparr>rt_state := Configuration\<rparr>
       in if 0 <s threshold_of c g then rt\<lparr>rt_compression_enabled := True\<rparr> else rt"])
      (simp_all add: acknowledged on_login_acknowledged_def Let_def)
next
  case finish
  show ?thesis
    by (rule trusted_update [OF assms(1), of _ c "\<lambda>rt. rt\<lparr>rt_state := Play\<rparr>"])
      (simp_all add: finish on_finish_configuration_def Let_def split: option.split)
next
  case (settings q)
  show ?thesis
    by (rule trusted_update [OF assms(1), of _ c "Connection_Manager.set_view_distance (ucast (settings.set_view_distance q))"])
      (simp_all add: settings on_settings_def Connection_Manager.set_view_distance_def)
next
  case (held q)
  then have "gn_connections g' = gn_connections g" "gn_joins g' = gn_joins g" by (simp_all add: held_fields)
  then show ?thesis using assms(1) trusted_cong by blast
next
  case (click q)
  then have "gn_connections g' = gn_connections g" "gn_joins g' = gn_joins g" by (simp_all add: on_click_container_def)
  then show ?thesis using assms(1) trusted_cong by blast
next
  case (closing q)
  then have "gn_connections g' = gn_connections g" "gn_joins g' = gn_joins g" by (simp_all add: on_close_container_def)
  then show ?thesis using assms(1) trusted_cong by blast
next
  case other
  then have "gn_connections g' = gn_connections g" "gn_joins g' = gn_joins g" by (simp_all add: quiet_def)
  then show ?thesis using assms(1) trusted_cong by blast
qed

lemma trusted_frame:
  assumes "trusted cfg ex hist g" and "vc_enforce_proxy (gc_velocity cfg)" and "vc_secret (gc_velocity cfg) = Some secret"
    and "receive_frame cfg ex amb frame g = Some g'"
  shows "trusted cfg ex (hist @ [(amb, frame)]) g'"
proof (cases frame)
  case (Packet c s k payload)
  let ?g = "g\<lparr>gn_clients := networks_insert c (gn_clients g)\<rparr>"
  have ok: "trusted cfg ex (hist @ [(amb, frame)]) ?g" using trusted_later [OF assms(1)] by (simp add: trusted_def)
  show ?thesis
  proof (cases "dispatch s k payload")
    case (Inl err)
    then show ?thesis using ok assms(4) Packet by (simp add: receive_frame_def)
  next
    case (Inr p)
    then have h: "handle_packet cfg ex amb c p ?g = Some g'" using assms(4) Packet by (simp add: receive_frame_def)
    show ?thesis
    proof (rule trusted_handle [OF ok assms(2,3) h])
      fix q blob i assume "p = InIntention q" "in_forwarding q = Some blob"
        "verify_forwarding (ex_new_mac ex) (ex_verify ex) (am_clock amb) secret blob = Inr i"
      then show "vouched cfg ex (hist @ [(amb, frame)]) c i"
        using Packet Inr assms(3) vouchedI [of amb c s k payload "hist @ [(amb, frame)]" q blob cfg secret ex i] by simp
    qed
  qed
next
  case (Closed c)
  then have g': "g' = on_closed c g" using assms(4) by (simp add: receive_frame_def)
  have "gn_connections g' = manager_close c (gn_connections g)" "gn_joins g' = gn_joins g"
    by (simp_all add: g' on_closed_def Let_def split: option.split)
  then show ?thesis using trusted_later [OF assms(1)] by (auto simp: trusted_def split: if_splits)
qed

lemma trusted_run:
  assumes "vc_enforce_proxy (gc_velocity cfg)" and "vc_secret (gc_velocity cfg) = Some secret"
  shows "network_receive cfg ex fs g = Some g' \<Longrightarrow> trusted cfg ex hist g \<Longrightarrow> trusted cfg ex (hist @ fs) g'"
proof (induction fs arbitrary: g hist)
  case (Cons f fs)
  obtain amb frame where f: "f = (amb, frame)" by fastforce
  then obtain g1 where g1: "receive_frame cfg ex amb frame g = Some g1" "network_receive cfg ex fs g1 = Some g'"
    using Cons.prems(1) by (auto simp: bind_eq_Some_conv)
  then show ?case using Cons.IH [OF g1(2) trusted_frame [OF Cons.prems(2) assms g1(1)]] f by simp
qed simp

lemma vouched_run:
  assumes "vc_enforce_proxy (gc_velocity cfg)" and "vc_secret (gc_velocity cfg) = Some secret"
    and "network_receive cfg ex fs (game_net_start worlds clients outbound) = Some g"
  shows "(\<forall>(e, name) \<in> set (gn_joins g). \<exists>c i. vouched cfg ex fs c i \<and> fi_name i = name) \<and>
    (\<forall>c rt. gn_connections g c = Some rt \<longrightarrow> rt_entity rt \<noteq> None \<longrightarrow>
       (\<exists>i. vouched cfg ex fs c i \<and> rt_uuid rt = Some (fi_uuid i) \<and> rt_username rt = Some (fi_name i)))"
proof -
  have "trusted cfg ex [] (game_net_start worlds clients outbound)" by (simp add: trusted_def game_net_start_def)
  from trusted_run [OF assms this] have t: "trusted cfg ex fs g" by simp
  have "\<exists>i. vouched cfg ex fs c i \<and> rt_uuid rt = Some (fi_uuid i) \<and> rt_username rt = Some (fi_name i)"
    if "gn_connections g c = Some rt" "rt_entity rt \<noteq> None" for c rt
  proof -
    have "trusted_record cfg ex fs c rt" using t that(1) by (simp add: trusted_def)
    then show ?thesis using that(2) by (auto simp: trusted_record_def split: option.splits)
  qed
  then show ?thesis using t by (simp add: trusted_def)
qed

text \<open>With no secret, enforcing the proxy lets any blob pass: the connection is kept, and it has no identity.\<close>

lemma unkeyed_proxy_accepts_all:
  assumes "vc_secret (gc_velocity cfg) = None" and "in_forwarding p = Some blob"
  shows "\<exists>rt. gn_connections (on_intention cfg ex amb c p g) c = Some rt"
  using assms by (cases "gn_connections g c") (simp_all add: on_intention_def)

section \<open>Spawning a player\<close>

lemma put_all_law:
  assumes "world_ok rg w" and "contains e w" and "\<forall>c \<in> fst ` set comps. rg_sparse rg c" and "distinct (map fst comps)"
  shows "world_ok rg (put_all rg e comps w) \<and> w_entities (put_all rg e comps w) = w_entities w \<and>
    w_empty (put_all rg e comps w) = w_empty w \<and>
    (\<forall>f c. get_component rg f c (put_all rg e comps w) =
       (if f = e \<and> map_of comps c \<noteq> None then map_of comps c else get_component rg f c w))"
  using assms
proof (induction comps arbitrary: w)
  case (Cons p comps)
  obtain c v where p: "p = (c, v)" by fastforce
  obtain a i st where loc: "located e w = Some (a, i, st)" using contains_located [OF Cons.prems(1,2)] by metis
  have sp: "rg_sparse rg c" using Cons.prems(3) p by simp
  show ?case
  proof (rule insert_sparse [OF Cons.prems(1) loc sp, of v])
    fix w1
    assume w1: "insert_component rg e c v w = Inr w1" "world_ok rg w1" "get_component rg e c w1 = Some v"
      "w_entities w1 = w_entities w" "w_empty w1 = w_empty w" "\<And>f d. f \<noteq> e \<or> d \<noteq> c \<Longrightarrow> get_component rg f d w1 = get_component rg f d w"
    have "contains e w1" using Cons.prems(2) w1(4) by (simp add: contains_def)
    then have law: "world_ok rg (put_all rg e comps w1) \<and> w_entities (put_all rg e comps w1) = w_entities w1 \<and>
      w_empty (put_all rg e comps w1) = w_empty w1 \<and>
      (\<forall>f c. get_component rg f c (put_all rg e comps w1) =
         (if f = e \<and> map_of comps c \<noteq> None then map_of comps c else get_component rg f c w1))"
      using Cons.prems(3,4) by (intro Cons.IH [OF w1(2)]) simp_all
    have step: "put_all rg e ((c, v) # comps) w = put_all rg e comps w1" using w1(1) by (simp add: put_all_def)
    have "map_of comps c = None" using Cons.prems(4) p by (simp add: map_of_eq_None_iff)
    then show ?thesis using law w1(3-5) w1(6) unfolding p step by (simp add: fun_upd_def) auto
  qed
qed (simp add: put_all_def)

lemma bundle_spawn_law:
  assumes "world_ok rg w" and "empty_room 0 w" and "\<forall>c \<in> fst ` set comps. rg_sparse rg c" and "distinct (map fst comps)"
  obtains e w' where "bundle_spawn rg comps w = Some (e, w')" and "world_ok rg w'" and "\<not> contains e w"
    and "\<And>f. contains f w' \<longleftrightarrow> contains f w \<or> f = e"
    and "\<And>c v. map_of comps c = Some v \<Longrightarrow> get_component rg e c w' = Some v"
    and "\<And>f c. f \<noteq> e \<Longrightarrow> get_component rg f c w' = get_component rg f c w"
proof (rule spawn_empty_law [OF assms(1,2), of thesis])
  fix e w1
  assume s: "spawn_empty_with rg 0 w = Some (e, w1)" "world_ok rg w1" "contains e w1" "\<not> contains e w"
    and o: "\<And>f c. f \<noteq> e \<Longrightarrow> get_component rg f c w1 = get_component rg f c w" "\<And>f. contains f w1 \<longleftrightarrow> contains f w \<or> f = e"
  note law = put_all_law [OF s(2,3) assms(3,4)]
  show thesis
  proof (rule that [of e "put_all rg e comps w1"])
    show "bundle_spawn rg comps w = Some (e, put_all rg e comps w1)" using s(1) by (simp add: bundle_spawn_def)
    show "contains f (put_all rg e comps w1) \<longleftrightarrow> contains f w \<or> f = e" for f using law o(2) by (simp add: contains_def)
    show "get_component rg f c (put_all rg e comps w1) = get_component rg f c w" if "f \<noteq> e" for f c using law o(1) [OF that] that by simp
  qed (use law s(4) in simp_all)
qed

text \<open>The components of a player have ids of their own and are stored sparsely, as the derive macro declares.\<close>

definition config_ok :: "game_config \<Rightarrow> bool" where
  "config_ok cfg \<longleftrightarrow> inj (gc_id cfg) \<and> (\<forall>k. rg_sparse (gc_registry cfg) (gc_id cfg k))"

lemma player_bundle_ok:
  assumes "config_ok cfg"
  shows "\<forall>c \<in> fst ` set (player_bundle cfg u n i). rg_sparse (gc_registry cfg) c" "distinct (map fst (player_bundle cfg u n i))"
    "map_of (player_bundle cfg u n i) (gc_id cfg KInventory) = Some (CInventory pi_new)"
    "map_of (player_bundle cfg u n i) (gc_id cfg KPlayer) = Some (CPlayer u n Survival)"
  using assms by (auto simp: config_ok_def player_bundle_def inj_eq)

lemma spawn_player_law:
  assumes "config_ok cfg" and "gn_worlds g wid = Some w" and "world_ok (gc_registry cfg) w" and "empty_room 0 w"
  obtains e w' where "spawn_player cfg wid (player_bundle cfg u n i) g = Some (e, g\<lparr>gn_worlds := (gn_worlds g)(wid \<mapsto> w')\<rparr>)"
    and "world_ok (gc_registry cfg) w'" and "\<not> contains e w" and "\<And>f. contains f w' \<longleftrightarrow> contains f w \<or> f = e"
    and "inventory_of cfg e w' = Some pi_new"
    and "get_component (gc_registry cfg) e (gc_id cfg KPlayer) w' = Some (CPlayer u n Survival)"
    and "\<And>f c. f \<noteq> e \<Longrightarrow> get_component (gc_registry cfg) f c w' = get_component (gc_registry cfg) f c w"
proof (rule bundle_spawn_law [OF assms(3,4) player_bundle_ok(1,2) [OF assms(1), of u n i]])
  fix e w'
  assume b: "bundle_spawn (gc_registry cfg) (player_bundle cfg u n i) w = Some (e, w')"
    and all: "world_ok (gc_registry cfg) w'" "\<not> contains e w" "\<And>f. contains f w' \<longleftrightarrow> contains f w \<or> f = e"
    "\<And>c v. map_of (player_bundle cfg u n i) c = Some v \<Longrightarrow> get_component (gc_registry cfg) e c w' = Some v"
    "\<And>f c. f \<noteq> e \<Longrightarrow> get_component (gc_registry cfg) f c w' = get_component (gc_registry cfg) f c w"
  show thesis
  proof (rule that [of e w'])
    show "spawn_player cfg wid (player_bundle cfg u n i) g = Some (e, g\<lparr>gn_worlds := (gn_worlds g)(wid \<mapsto> w')\<rparr>)"
      using b assms(2) by (simp add: spawn_player_def)
    show "inventory_of cfg e w' = Some pi_new"
      using all(4) [OF player_bundle_ok(3) [OF assms(1)]] by (simp add: inventory_of_def)
    show "get_component (gc_registry cfg) e (gc_id cfg KPlayer) w' = Some (CPlayer u n Survival)"
      by (rule all(4) [OF player_bundle_ok(4) [OF assms(1)]])
  qed (rule all(1), rule all(2), rule all(3), rule all(5))
qed

section \<open>From the handshake into the world\<close>

text \<open>The frame that the listener makes of a packet of a client.\<close>

definition from_client :: "u32 \<Rightarrow> inbound_packet \<Rightarrow> raw_frame" where
  "from_client c p = (case sent p of (s, k, enc) \<Rightarrow> Packet c s k (encoded enc))"

lemma receive_from_client:
  assumes "wf_inbound p"
  shows "receive_frame cfg ex amb (from_client c p) g =
    handle_packet cfg ex amb c p (g\<lparr>gn_clients := networks_insert c (gn_clients g)\<rparr>)"
proof -
  obtain s k enc where s: "sent p = (s, k, enc)" by (metis prod_cases3)
  show ?thesis using dispatch_sent [OF assms s] by (simp add: receive_frame_def from_client_def s)
qed

definition urgent_of :: "u32 \<Rightarrow> game_net \<Rightarrow> u8 list list" where
  "urgent_of c g = (case nws_clients (gn_clients g) c of None \<Rightarrow> [] | Some cl \<Rightarrow> nw_urgent_queue cl)"

text \<open>A connection that sends without compression.\<close>

definition plain_client :: "u32 \<Rightarrow> game_net \<Rightarrow> bool" where
  "plain_client c g \<longleftrightarrow> nws_compression_threshold (gn_clients g) = 0 \<and>
     (\<exists>cl. nws_clients (gn_clients g) c = Some cl \<and> nw_compression_threshold cl = 0)"

lemma plain_insert:
  assumes "nws_compression_threshold (gn_clients g) = 0"
  shows "plain_client c (g\<lparr>gn_clients := networks_insert c (gn_clients g)\<rparr>)"
    "urgent_of c (g\<lparr>gn_clients := networks_insert c (gn_clients g)\<rparr>) = urgent_of c g"
  using assms by (simp_all add: plain_client_def urgent_of_def networks_insert_def Let_def client_network_new_def split: option.split)

lemma plain_same_clients:
  "gn_clients g' = gn_clients g \<Longrightarrow> plain_client c g' = plain_client c g \<and> urgent_of c g' = urgent_of c g"
  by (simp add: plain_client_def urgent_of_def)

lemma plain_send:
  "plain_client c g \<Longrightarrow> plain_client c (send_packet c Urgent k enc g)"
  "plain_client c g \<Longrightarrow> urgent_of c (send_packet c Urgent k enc g) = urgent_of c g @ [encode_clientbound k enc]"
  by (auto simp: plain_client_def urgent_of_def send_packet_def enqueue_packet_def enqueue_def effective_def)

lemma plain_send_all:
  "plain_client c g \<Longrightarrow> plain_client c (fold (\<lambda>x. send_packet c Urgent k (enc x)) xs g)"
  "plain_client c g \<Longrightarrow> urgent_of c (fold (\<lambda>x. send_packet c Urgent k (enc x)) xs g) =
     urgent_of c g @ map (\<lambda>x. encode_clientbound k (enc x)) xs"
  by (induction xs arbitrary: g) (simp_all add: plain_send)

lemma plain_threshold: "plain_client c g \<Longrightarrow> threshold_of c g = 0"
  by (auto simp: plain_client_def threshold_of_def)

definition direct_intention :: "game_config \<Rightarrow> intention \<Rightarrow> bool" where
  "direct_intention cfg q \<longleftrightarrow> \<not> vc_enforce_proxy (gc_velocity cfg) \<and> in_forwarding q = None"

text \<open>The packets that take a player into the world, in their order.\<close>

definition configuration_packets :: "game_config \<Rightarrow> 'm externals \<Rightarrow> u8 list list" where
  "configuration_packets cfg ex =
     map (\<lambda>p. encode_clientbound registry_data_id (registry_data_encode p))
       (registry_data_packets (ex_show_double ex) (ex_show_float ex) (gc_snapshot cfg)) @
     [encode_clientbound update_tags_id (update_tags_encode (update_tags_packet (gc_tags cfg))),
      encode_clientbound feature_flags_id (feature_flags_encode \<lparr>ff_flags = []\<rparr>),
      encode_clientbound finish_configuration_s2c_id (finish_configuration_s2c_encode FinishConfigurationS2C)]"

definition entering_packets :: "game_config \<Rightarrow> u32 \<Rightarrow> uuid \<Rightarrow> rstring \<Rightarrow> u8 list list" where
  "entering_packets cfg c uuid username =
     [encode_clientbound login_id (login_encode (play_login cfg c)),
      encode_clientbound position_cb_id (position_cb_encode (entry_position cfg)),
      encode_clientbound update_health_id (update_health_encode \<lparr>uh_health = 0x41A00000, uh_food = 20, uh_food_saturation = 0x40A00000\<rparr>),
      encode_clientbound player_info_id (player_info_encode \<lparr>plin_uuid = uuid, plin_name = username, plin_properties = []\<rparr>)]"

lemma client_information_queue:
  assumes "plain_client c g"
  shows "plain_client c (on_client_information cfg ex c g)"
    "urgent_of c (on_client_information cfg ex c g) = urgent_of c g @ configuration_packets cfg ex"
  using assms by (simp_all add: on_client_information_def Let_def plain_send plain_send_all configuration_packets_def)

lemma finish_configuration_result:
  assumes "plain_client c g" and "gn_connections g c = Some rt" and "rt_entity rt = Some e" and "rt_uuid rt = Some u" and "rt_username rt = Some n"
  shows "urgent_of c (on_finish_configuration cfg c g) = urgent_of c g @ entering_packets cfg c u n"
    "gn_connections (on_finish_configuration cfg c g) c = Some (rt\<lparr>rt_state := Play\<rparr>)"
    "gn_enters (on_finish_configuration cfg c g) = gn_enters g @ [(c, e)]"
    "gn_worlds (on_finish_configuration cfg c g) = gn_worlds g" "gn_joins (on_finish_configuration cfg c g) = gn_joins g"
proof -
  let ?g = "update_runtime c (\<lambda>rt. rt\<lparr>rt_state := Play\<rparr>) g"
  have p: "plain_client c ?g" "urgent_of c ?g = urgent_of c g" using plain_same_clients [of ?g g c] assms(1) by simp_all
  have f: "on_finish_configuration cfg c g =
      (let g2 = send_packet c Urgent login_id (login_encode (play_login cfg c)) ?g;
           g3 = send_packet c Urgent position_cb_id (position_cb_encode (entry_position cfg)) g2;
           g4 = send_packet c Urgent update_health_id
                  (update_health_encode \<lparr>uh_health = 0x41A00000, uh_food = 20, uh_food_saturation = 0x40A00000\<rparr>) g3;
           g5 = send_packet c Urgent player_info_id
                  (player_info_encode \<lparr>plin_uuid = u, plin_name = n, plin_properties = []\<rparr>) g4
       in g5\<lparr>gn_enters := gn_enters g5 @ [(c, e)]\<rparr>)"
    using assms(2-5) by (simp add: on_finish_configuration_def Let_def entity_of_def)
  have same: "urgent_of c (h\<lparr>gn_enters := es\<rparr>) = urgent_of c h" for h es by (simp add: urgent_of_def)
  show "urgent_of c (on_finish_configuration cfg c g) = urgent_of c g @ entering_packets cfg c u n"
    unfolding f Let_def by (simp add: same plain_send p entering_packets_def)
  show "gn_connections (on_finish_configuration cfg c g) c = Some (rt\<lparr>rt_state := Play\<rparr>)"
    "gn_enters (on_finish_configuration cfg c g) = gn_enters g @ [(c, e)]"
    "gn_worlds (on_finish_configuration cfg c g) = gn_worlds g" "gn_joins (on_finish_configuration cfg c g) = gn_joins g"
    unfolding f Let_def using assms(2) by simp_all
qed

lemma direct_intention_result:
  assumes "direct_intention cfg q"
  shows "on_intention cfg ex amb c q g =
    g\<lparr>gn_connections := manager_update c (\<lambda>rt. rt\<lparr>rt_state := Handshake\<rparr>) (manager_open c None (gn_connections g))\<rparr>"
  using assms by (simp add: direct_intention_def on_intention_def Let_def)

lemma hello_result:
  assumes "config_ok cfg" and "plain_client c g" and "gn_connections g c = Some rt" and "login_identity amb rt p = (u, n)"
    and "gn_worlds g (login_instance cfg) = Some w" and "world_ok (gc_registry cfg) w" and "empty_room 0 w"
  obtains e w' g' where "on_hello cfg amb c p g = Some g'" and "plain_client c g'"
    and "urgent_of c g' = urgent_of c g @ [encode_clientbound login_success_id
          (login_success_encode \<lparr>ls_uuid = u, ls_username = n, ls_properties = []\<rparr>)]"
    and "gn_connections g' c = Some (rt\<lparr>rt_entity := Some e, rt_state := Login, rt_world_id := login_instance cfg,
          rt_uuid := Some u, rt_username := Some n\<rparr>)"
    and "gn_worlds g' = (gn_worlds g)(login_instance cfg \<mapsto> w')" and "gn_joins g' = gn_joins g @ [(e, n)]"
    and "gn_enters g' = gn_enters g" and "world_ok (gc_registry cfg) w'" and "\<not> contains e w"
    and "\<And>f. contains f w' \<longleftrightarrow> contains f w \<or> f = e" and "inventory_of cfg e w' = Some pi_new"
    and "get_component (gc_registry cfg) e (gc_id cfg KPlayer) w' = Some (CPlayer u n Survival)"
    and "\<And>f c. f \<noteq> e \<Longrightarrow> get_component (gc_registry cfg) f c w' = get_component (gc_registry cfg) f c w"
proof (rule spawn_player_law [OF assms(1,5-7), of u n "login_instance cfg"])
  fix e w'
  assume s: "spawn_player cfg (login_instance cfg) (player_bundle cfg u n (login_instance cfg)) g =
      Some (e, g\<lparr>gn_worlds := (gn_worlds g)(login_instance cfg \<mapsto> w')\<rparr>)"
    and w': "world_ok (gc_registry cfg) w'" "\<not> contains e w" "\<And>f. contains f w' \<longleftrightarrow> contains f w \<or> f = e"
    "inventory_of cfg e w' = Some pi_new" "get_component (gc_registry cfg) e (gc_id cfg KPlayer) w' = Some (CPlayer u n Survival)"
    "\<And>f c. f \<noteq> e \<Longrightarrow> get_component (gc_registry cfg) f c w' = get_component (gc_registry cfg) f c w"
  define f where "f = (\<lambda>rt :: connection_runtime. rt\<lparr>rt_entity := Some e, rt_state := Login, rt_world_id := login_instance cfg,
    rt_uuid := Some u, rt_username := Some n\<rparr>)"
  define g2 where "g2 = (update_runtime c f (g\<lparr>gn_worlds := (gn_worlds g)(login_instance cfg \<mapsto> w')\<rparr>))\<lparr>gn_joins := gn_joins g @ [(e, n)]\<rparr>"
  have g2: "plain_client c g2" "urgent_of c g2 = urgent_of c g" "gn_worlds g2 = (gn_worlds g)(login_instance cfg \<mapsto> w')"
    "gn_connections g2 c = Some (f rt)" "gn_joins g2 = gn_joins g @ [(e, n)]" "gn_enters g2 = gn_enters g"
    using plain_same_clients [of g2 g c] assms(2,3) by (simp_all add: g2_def)
  let ?send = "send_packet c Urgent login_success_id (login_success_encode \<lparr>ls_uuid = u, ls_username = n, ls_properties = []\<rparr>)"
  show thesis
  proof (rule that [of "?send g2" e w'])
    have "send_login_success c p' g2 = send_packet c Urgent login_success_id (login_success_encode p') g2" for p'
      by (simp add: send_login_success_def Let_def plain_threshold [OF g2(1)])
    then show "on_hello cfg amb c p g = Some (?send g2)"
      using s assms(3,4) by (simp add: on_hello_def Let_def g2_def f_def)
  qed (use g2 w' in \<open>simp_all add: plain_send f_def\<close>)
qed

text \<open>The five packets of a client that logs in.\<close>

definition login_session :: "u32 \<Rightarrow> intention \<Rightarrow> hello \<Rightarrow> client_information \<Rightarrow> raw_frame list" where
  "login_session c q h info = map (from_client c)
     [InIntention q, InHello h, InLoginAcknowledged, InClientInformation info, InFinishConfiguration]"

lemma login_reaches_play:
  fixes amb :: ambient and h :: hello
  assumes "config_ok cfg" and "direct_intention cfg q"
    and "wf_inbound (InIntention q)" and "wf_inbound (InHello h)" and "wf_inbound (InClientInformation info)"
    and "gn_connections g c = None" and "nws_compression_threshold (gn_clients g) = 0"
    and "gn_worlds g (login_instance cfg) = Some w" and "world_ok (gc_registry cfg) w" and "empty_room 0 w"
  defines "u \<equiv> (case hello_uuid h of Some u \<Rightarrow> u | None \<Rightarrow> am_uuid amb)"
  shows "\<exists>e w' g' rt. network_receive cfg ex (map (Pair amb) (login_session c q h info)) g = Some g' \<and>
    gn_connections g' c = Some rt \<and> rt_state rt = Play \<and> rt_entity rt = Some e \<and> rt_world_id rt = login_instance cfg \<and>
    rt_uuid rt = Some u \<and> rt_username rt = Some (hello_name h) \<and>
    gn_worlds g' = (gn_worlds g)(login_instance cfg \<mapsto> w') \<and> world_ok (gc_registry cfg) w' \<and> \<not> contains e w \<and>
    (\<forall>f. contains f w' \<longleftrightarrow> contains f w \<or> f = e) \<and> inventory_of cfg e w' = Some pi_new \<and>
    (\<forall>f c. f \<noteq> e \<longrightarrow> get_component (gc_registry cfg) f c w' = get_component (gc_registry cfg) f c w) \<and>
    gn_joins g' = gn_joins g @ [(e, hello_name h)] \<and> gn_enters g' = gn_enters g @ [(c, e)] \<and>
    urgent_of c g' = urgent_of c g @
      encode_clientbound login_success_id (login_success_encode \<lparr>ls_uuid = u, ls_username = hello_name h, ls_properties = []\<rparr>) #
      configuration_packets cfg ex @ entering_packets cfg c u (hello_name h)"
proof -
  let ?ins = "\<lambda>g. g\<lparr>gn_clients := networks_insert c (gn_clients g)\<rparr>"
  define g1 where "g1 = ?ins g"
  define g2 where "g2 = on_intention cfg ex amb c q g1"
  have "gn_clients g2 = gn_clients g1" "gn_worlds g2 = gn_worlds g" "gn_joins g2 = gn_joins g" "gn_enters g2 = gn_enters g"
    "gn_connections g2 c = Some (runtime_new Handshake None)"
    using assms(6) by (simp_all add: g1_def g2_def direct_intention_result [OF assms(2)] runtime_new_def)
  note two = this plain_same_clients [OF this(1)] plain_insert [OF assms(7), of c, folded g1_def]
  define g3 where "g3 = ?ins g2"
  have "nws_compression_threshold (gn_clients g2) = 0" using two by (simp add: plain_client_def)
  note three = plain_insert [OF this, of c, folded g3_def]
  have g3: "gn_worlds g3 (login_instance cfg) = Some w" "gn_connections g3 c = Some (runtime_new Handshake None)"
    "login_identity amb (runtime_new Handshake None) h = (u, hello_name h)"
    using assms(8) two by (simp_all add: g3_def u_def login_identity_def runtime_new_def)
  show ?thesis
  proof (rule hello_result [OF assms(1) three(1) g3(2,3,1) assms(9,10)])
    fix e w' g4
    assume h: "on_hello cfg amb c h g3 = Some g4" "plain_client c g4"
      "urgent_of c g4 = urgent_of c g3 @ [encode_clientbound login_success_id
          (login_success_encode \<lparr>ls_uuid = u, ls_username = hello_name h, ls_properties = []\<rparr>)]"
      "gn_connections g4 c = Some ((runtime_new Handshake None)\<lparr>rt_entity := Some e, rt_state := Login,
          rt_world_id := login_instance cfg, rt_uuid := Some u, rt_username := Some (hello_name h)\<rparr>)"
      "gn_worlds g4 = (gn_worlds g3)(login_instance cfg \<mapsto> w')" "gn_joins g4 = gn_joins g3 @ [(e, hello_name h)]"
      "gn_enters g4 = gn_enters g3"
      and world: "world_ok (gc_registry cfg) w'" "\<not> contains e w" "\<And>f. contains f w' \<longleftrightarrow> contains f w \<or> f = e"
      "inventory_of cfg e w' = Some pi_new" "\<And>f c. f \<noteq> e \<Longrightarrow> get_component (gc_registry cfg) f c w' = get_component (gc_registry cfg) f c w"
    define rt where "rt = (runtime_new Handshake None)\<lparr>rt_entity := Some e, rt_state := Configuration,
          rt_world_id := login_instance cfg, rt_uuid := Some u, rt_username := Some (hello_name h)\<rparr>"
    define g5 where "g5 = ?ins g4"
    have "nws_compression_threshold (gn_clients g4) = 0" using h(2) by (simp add: plain_client_def)
    note five = plain_insert [OF this, of c, folded g5_def]
    define g6 where "g6 = on_login_acknowledged c g5"
    have "gn_clients g6 = gn_clients g5" "gn_worlds g6 = gn_worlds g4" "gn_joins g6 = gn_joins g4" "gn_enters g6 = gn_enters g4"
      "gn_connections g6 c = Some rt"
      using h(4) plain_threshold [OF five(1)] by (simp_all add: g6_def g5_def on_login_acknowledged_def rt_def)
    note six = this plain_same_clients [OF this(1), of c]
    define g7 where "g7 = ?ins g6"
    have "nws_compression_threshold (gn_clients g6) = 0" using six five by (simp add: plain_client_def)
    note seven = plain_insert [OF this, of c, folded g7_def]
    define g8 where "g8 = on_client_information cfg ex c g7"
    note eight = client_information_queue [OF seven(1), of cfg ex, folded g8_def]
    have g8: "gn_worlds g8 = gn_worlds g4" "gn_joins g8 = gn_joins g4" "gn_enters g8 = gn_enters g4" "gn_connections g8 c = Some rt"
      using six by (simp_all add: g8_def g7_def on_client_information_def Let_def)
    define g9 where "g9 = ?ins g8"
    have "nws_compression_threshold (gn_clients g8) = 0" using eight(1) by (simp add: plain_client_def)
    note nine = plain_insert [OF this, of c, folded g9_def]
    have g9: "gn_connections g9 c = Some rt" "rt_entity rt = Some e" "rt_uuid rt = Some u" "rt_username rt = Some (hello_name h)"
      using g8(4) by (simp_all add: g9_def rt_def)
    note last = finish_configuration_result [OF nine(1) g9, of cfg]
    have wf_others: "wf_inbound InLoginAcknowledged" "wf_inbound InFinishConfiguration" by (simp_all add: wf_inbound_def)
    have run: "network_receive cfg ex (map (Pair amb) (login_session c q h info)) g = Some (on_finish_configuration cfg c g9)"
      using h(1)
      by (simp add: receive_from_client assms(3-5) wf_others login_session_def handle_packet_def
          g1_def g2_def g3_def g5_def g6_def g7_def g8_def g9_def)
    have queue: "urgent_of c (on_finish_configuration cfg c g9) = urgent_of c g @
      encode_clientbound login_success_id (login_success_encode \<lparr>ls_uuid = u, ls_username = hello_name h, ls_properties = []\<rparr>) #
      configuration_packets cfg ex @ entering_packets cfg c u (hello_name h)"
      unfolding last(1) nine(2) eight(2) seven(2) using six five(2) h(3) three(2) two by simp
    show ?thesis
    proof (intro exI conjI)
      show "gn_worlds (on_finish_configuration cfg c g9) = (gn_worlds g)(login_instance cfg \<mapsto> w')"
        using last(4) g8(1) h(5) two(2) by (simp add: g9_def g3_def)
      show "gn_joins (on_finish_configuration cfg c g9) = gn_joins g @ [(e, hello_name h)]"
        using last(5) g8(2) h(6) two(3) by (simp add: g9_def g3_def)
      show "gn_enters (on_finish_configuration cfg c g9) = gn_enters g @ [(c, e)]"
        using last(3) g8(3) h(7) two(4) by (simp add: g9_def g3_def)
    qed (rule run, rule last(2), use world queue in \<open>simp_all add: rt_def\<close>)
  qed
qed

section \<open>The end of a connection\<close>

lemma closed_result:
  assumes "gn_connections g c = Some rt" and "rt_entity rt = Some e" and "gn_worlds g (rt_world_id rt) = Some w"
    and "world_ok (gc_registry cfg) w"
  obtains w' where "gn_worlds (on_closed c g) = (gn_worlds g)(rt_world_id rt \<mapsto> w')" and "world_ok (gc_registry cfg) w'"
    and "\<And>f. contains f w' \<longleftrightarrow> contains f w \<and> f \<noteq> e"
    and "\<And>f k. f \<noteq> e \<Longrightarrow> get_component (gc_registry cfg) f k w' = get_component (gc_registry cfg) f k w"
    and "gn_connections (on_closed c g) = (gn_connections g)(c := None)"
    and "nws_clients (gn_clients (on_closed c g)) c = None"
    and "gn_quits (on_closed c g) = gn_quits g @ [(e, case rt_username rt of Some n \<Rightarrow> n | None \<Rightarrow> [])]"
    and "gn_events (on_closed c g) = gn_events g @ [ConnectionClosed c]"
proof (rule that [of "snd (despawn e w)"])
  note law = despawn_total [OF assms(4), of e]
  show "world_ok (gc_registry cfg) (snd (despawn e w))" using law by blast
  show "contains f (snd (despawn e w)) \<longleftrightarrow> contains f w \<and> f \<noteq> e" for f using law by blast
  show "get_component (gc_registry cfg) f k (snd (despawn e w)) = get_component (gc_registry cfg) f k w" if "f \<noteq> e" for f k
    using law that by simp
qed (use assms(1-3) in \<open>simp_all add: on_closed_def Let_def entity_of_def world_of_def manager_close_def networks_remove_def\<close>)

section \<open>A second hello\<close>

text \<open>Nothing keeps a client from sending the hello again: it gets a second entity, and only that one goes when
  the connection ends.\<close>

lemma second_hello_leaks:
  assumes "config_ok cfg" and "plain_client c g" and "gn_connections g c = Some rt"
    and "gn_worlds g (login_instance cfg) = Some w" and "world_ok (gc_registry cfg) w" and "empty_room 0 w"
    and "on_hello cfg amb c h g = Some g1" and "gn_worlds g1 (login_instance cfg) = Some w1" and "empty_room 0 w1"
    and "on_hello cfg amb c h g1 = Some g2"
  shows "\<exists>e e' w2 w'. entity_of (gn_connections g1) c = Some e \<and> entity_of (gn_connections g2) c = Some e' \<and> e' \<noteq> e \<and>
    \<not> contains e w \<and> \<not> contains e' w \<and>
    gn_worlds g2 (login_instance cfg) = Some w2 \<and> contains e w2 \<and> contains e' w2 \<and>
    gn_worlds (on_closed c g2) (login_instance cfg) = Some w' \<and> (\<forall>f. contains f w' \<longleftrightarrow> contains f w2 \<and> f \<noteq> e') \<and>
    gn_connections (on_closed c g2) c = None"
proof -
  obtain u n where id: "login_identity amb rt h = (u, n)" by fastforce
  show ?thesis
  proof (rule hello_result [OF assms(1-3) id assms(4-6)])
    fix e w1' g1'
    let ?rt = "rt\<lparr>rt_entity := Some e, rt_state := Login, rt_world_id := login_instance cfg,
      rt_uuid := Some u, rt_username := Some n\<rparr>"
    assume one: "on_hello cfg amb c h g = Some g1'" "plain_client c g1'" "gn_connections g1' c = Some ?rt"
      "gn_worlds g1' = (gn_worlds g)(login_instance cfg \<mapsto> w1')" "world_ok (gc_registry cfg) w1'" "\<not> contains e w"
      "\<And>f. contains f w1' \<longleftrightarrow> contains f w \<or> f = e"
    have same: "g1' = g1" "w1' = w1" using one(1,4) assms(7,8) by simp_all
    obtain u' n' where id': "login_identity amb ?rt h = (u', n')" by fastforce
    have e: "contains e w1" "entity_of (gn_connections g1) c = Some e"
      using one(3) one(7) [of e] same by (simp_all add: entity_of_def)
    show ?thesis
    proof (rule hello_result [OF assms(1) one(2)[unfolded same] one(3)[unfolded same] id' assms(8) one(5)[unfolded same] assms(9)])
      fix e' w2 g2'
      let ?rt2 = "?rt\<lparr>rt_entity := Some e', rt_state := Login, rt_world_id := login_instance cfg,
        rt_uuid := Some u', rt_username := Some n'\<rparr>"
      assume two: "on_hello cfg amb c h g1 = Some g2'" "gn_connections g2' c = Some ?rt2"
        "gn_worlds g2' = (gn_worlds g1)(login_instance cfg \<mapsto> w2)" "world_ok (gc_registry cfg) w2" "\<not> contains e' w1"
        "\<And>f. contains f w2 \<longleftrightarrow> contains f w1 \<or> f = e'"
      have g2: "g2' = g2" using two(1) assms(10) by simp
      have ne: "e \<noteq> e'" using e(1) two(5) by blast
      have world: "rt_entity ?rt2 = Some e'" "gn_worlds g2 (rt_world_id ?rt2) = Some w2" using two(3) g2 by simp_all
      show ?thesis
      proof (rule closed_result [OF two(2)[unfolded g2] world two(4)])
        fix w'
        assume last: "gn_worlds (on_closed c g2) = (gn_worlds g2)(rt_world_id ?rt2 \<mapsto> w')"
          "\<And>f. contains f w' \<longleftrightarrow> contains f w2 \<and> f \<noteq> e'" "gn_connections (on_closed c g2) = (gn_connections g2)(c := None)"
        have "entity_of (gn_connections g2) c = Some e'" using two(2) g2 by (simp add: entity_of_def)
        moreover have "gn_worlds g2 (login_instance cfg) = Some w2" using two(3) g2 by simp
        moreover have "gn_worlds (on_closed c g2) (login_instance cfg) = Some w'" "gn_connections (on_closed c g2) c = None"
          using last(1,3) by simp_all
        moreover have "contains e w2" "contains e' w2" "\<not> contains e' w"
          using two(5) two(6) [of e] two(6) [of e'] e(1) one(7) [of e'] same by auto
        ultimately show ?thesis using last(2) e(2) one(6) ne by blast
      qed
    qed
  qed
qed

section \<open>The items of the players\<close>

definition poorer :: "player_inventory \<Rightarrow> player_inventory \<Rightarrow> bool" where
  "poorer old new \<longleftrightarrow> drag_ok new \<and> pi_game_mode new = pi_game_mode old \<and> (\<forall>m. total_items m new \<le> total_items m old)"

lemma poorer_refl: "drag_ok bag \<Longrightarrow> poorer bag bag"
  by (simp add: poorer_def)

lemma poorer_trans: "poorer a b \<Longrightarrow> poorer b c \<Longrightarrow> poorer a c"
  by (auto simp: poorer_def intro: le_trans)

lemma bag_slots [simp]:
  "pi_get i (s\<lparr>pi_crafting_result_pending := r\<rparr>) = pi_get i s" "pi_get i (s\<lparr>pi_held_slot := h\<rparr>) = pi_get i s"
  unfolding pi_get_def by simp_all

lemma bag_fields:
  "drag_ok (s\<lparr>pi_crafting_result_pending := r\<rparr>) = drag_ok s" "total_items m (s\<lparr>pi_crafting_result_pending := r\<rparr>) = total_items m s"
  "drag_ok (s\<lparr>pi_held_slot := h\<rparr>) = drag_ok s" "total_items m (s\<lparr>pi_held_slot := h\<rparr>) = total_items m s"
  by (simp_all add: drag_ok_def drag_le_def pi_ok_def total_items_def stored_def)

lemma poorer_click:
  assumes "drag_ok bag" and "\<not> is_creative bag"
  shows "poorer bag (click_inventory p bag)"
  using click_never_gains [OF assms, of "scast (cc_slot p)" "cc_button p" "cc_mode p"]
  by (auto simp: poorer_def click_inventory_def Let_def bag_fields)

lemma poorer_drop:
  assumes "drag_ok bag"
  shows "poorer bag (snd (drop_cursor bag))"
proof -
  define s1 where "s1 = snd (if quick_craft_active bag then cancel_quick_craft bag else (False, bag))"
  have s1: "pi_ok s1" "pi_game_mode s1 = pi_game_mode bag" "\<not> quick_craft_active s1" "\<And>m. total_items m s1 \<le> total_items m bag"
    using cancel_loses [OF assms] assms by (auto simp: s1_def drag_ok_def)
  have d: "snd (drop_cursor bag) = (if is_air (pi_cursor s1) then s1 else mark_full_sync (s1\<lparr>pi_cursor := AIR\<rparr>))"
    by (cases "if quick_craft_active bag then cancel_quick_craft bag else (False, bag)") (simp add: drop_cursor_def s1_def)
  have "drag_ok (mark_full_sync (s1\<lparr>pi_cursor := AIR\<rparr>))"
    using s1(1,3) by (intro drag_ok_idle) (simp_all add: mark_full_sync_def quick_craft_active_def)
  moreover have "total_items m (mark_full_sync (s1\<lparr>pi_cursor := AIR\<rparr>)) \<le> total_items m s1" for m
    by (simp add: total_items_def mark_full_sync_def held_def AIR_def)
  ultimately show ?thesis
    using s1 drag_ok_idle [OF s1(1,3)] by (auto simp: poorer_def d mark_full_sync_def intro: le_trans)
qed

lemma poorer_held: "drag_ok bag \<Longrightarrow> poorer bag (snd (set_held_slot h bag))"
  by (simp add: poorer_def set_held_slot_def bag_fields)

definition worlds_ok :: "game_config \<Rightarrow> game_net \<Rightarrow> bool" where
  "worlds_ok cfg g \<longleftrightarrow> (\<forall>wid w. gn_worlds g wid = Some w \<longrightarrow> world_ok (gc_registry cfg) w)"

text \<open>The inventory of an entity of a world, in a state.\<close>

definition bag_in :: "game_config \<Rightarrow> world_id \<Rightarrow> entity \<Rightarrow> game_net \<Rightarrow> player_inventory option" where
  "bag_in cfg wid e g = Option.bind (gn_worlds g wid) (inventory_of cfg e)"

lemma with_inventory_bags:
  assumes "worlds_ok cfg g" and "bag_in cfg wid e g = Some bag" and "drag_ok bag"
    and "\<And>b. drag_ok b \<Longrightarrow> \<not> is_creative b \<Longrightarrow> poorer b (snd (f b))" and "\<not> is_creative bag"
  shows "worlds_ok cfg (snd (with_inventory cfg c f g)) \<and>
    (\<exists>bag'. bag_in cfg wid e (snd (with_inventory cfg c f g)) = Some bag' \<and> poorer bag bag')"
proof (cases "\<exists>e0 w0 b0. entity_of (gn_connections g) c = Some e0 \<and> gn_worlds g (world_of c g) = Some w0 \<and> inventory_of cfg e0 w0 = Some b0")
  case False
  then have "snd (with_inventory cfg c f g) = g" by (auto simp: with_inventory_def Let_def split: option.split)
  then show ?thesis using assms(1,2) poorer_refl [OF assms(3)] by simp
next
  case True
  then obtain e0 w0 b0 where t: "entity_of (gn_connections g) c = Some e0" "gn_worlds g (world_of c g) = Some w0"
    "inventory_of cfg e0 w0 = Some b0" by blast
  let ?k = "gc_id cfg KInventory"
  let ?w = "modify_component (gc_registry cfg) e0 ?k (\<lambda>_. CInventory (snd (f b0))) w0"
  have step: "snd (with_inventory cfg c f g) = g\<lparr>gn_worlds := (gn_worlds g)(world_of c g \<mapsto> ?w)\<rparr>"
    using t by (simp add: with_inventory_def)
  have w0: "world_ok (gc_registry cfg) w0" using assms(1) t(2) by (simp add: worlds_ok_def)
  note law = modify_law [OF w0, of e0 ?k "\<lambda>_. CInventory (snd (f b0))"]
  have inv: "inventory_of cfg e' ?w = (if e' = e0 then Some (snd (f b0)) else inventory_of cfg e' w0)" for e'
    using law t(3) by (simp add: inventory_of_def split: option.splits)
  have ok: "worlds_ok cfg (snd (with_inventory cfg c f g))"
    using assms(1) law unfolding step worlds_ok_def by simp
  show ?thesis
  proof (cases "wid = world_of c g")
    case True
    then have b: "inventory_of cfg e w0 = Some bag" using assms(2) t(2) by (simp add: bag_in_def)
    have "poorer bag (if e = e0 then snd (f b0) else bag)"
      using assms(3-5) b t(3) poorer_refl by auto
    moreover have "bag_in cfg wid e (snd (with_inventory cfg c f g)) = Some (if e = e0 then snd (f b0) else bag)"
      using True inv [of e] b by (simp add: step bag_in_def)
    ultimately show ?thesis using ok by blast
  next
    case False
    then have "bag_in cfg wid e (snd (with_inventory cfg c f g)) = Some bag" using assms(2) by (simp add: step bag_in_def)
    then show ?thesis using ok poorer_refl [OF assms(3)] by blast
  qed
qed

lemma bag_alive: "world_ok (gc_registry cfg) w \<Longrightarrow> inventory_of cfg e w = Some bag \<Longrightarrow> contains e w"
  using dead_no_components [of "gc_registry cfg" w e "gc_id cfg KInventory"] by (fastforce simp: inventory_of_def)

text \<open>The arenas of the worlds have room for one more player.\<close>

definition room_left :: "game_net \<Rightarrow> bool" where
  "room_left g \<longleftrightarrow> (\<forall>wid w. gn_worlds g wid = Some w \<longrightarrow> empty_room 0 w)"

lemma hello_bags:
  assumes "config_ok cfg" and "worlds_ok cfg g" and "room_left g"
    and "on_hello cfg amb c p g = Some g'" and "bag_in cfg wid e g = Some bag"
  shows "worlds_ok cfg g' \<and> bag_in cfg wid e g' = Some bag"
  using assms(4)
proof (cases rule: hello_cases)
  case unknown
  then show ?thesis using assms by simp
next
  case (player rt u n e1 g1)
  have g': "gn_worlds g' = gn_worlds g1" using player(4) by simp
  show ?thesis
  proof (cases "gn_worlds g (login_instance cfg)")
    case None
    then have "gn_worlds g1 = gn_worlds g" using player(3) by (auto simp: spawn_player_def split: prod.splits)
    then show ?thesis using assms(2,5) g' by (simp add: worlds_ok_def bag_in_def)
  next
    case (Some w)
    have w: "world_ok (gc_registry cfg) w" "empty_room 0 w" using assms(2,3) Some by (auto simp: worlds_ok_def room_left_def)
    show ?thesis
    proof (rule spawn_player_law [OF assms(1) Some w, of u n "login_instance cfg"])
      fix e2 w'
      assume s: "spawn_player cfg (login_instance cfg) (player_bundle cfg u n (login_instance cfg)) g =
          Some (e2, g\<lparr>gn_worlds := (gn_worlds g)(login_instance cfg \<mapsto> w')\<rparr>)"
        "world_ok (gc_registry cfg) w'" "\<not> contains e2 w"
        "\<And>f c. f \<noteq> e2 \<Longrightarrow> get_component (gc_registry cfg) f c w' = get_component (gc_registry cfg) f c w"
      have g1: "gn_worlds g' = (gn_worlds g)(login_instance cfg \<mapsto> w')" using s(1) player(3) g' by simp
      have "inventory_of cfg e w' = Some bag" if b: "inventory_of cfg e w = Some bag"
      proof -
        have "e \<noteq> e2" using bag_alive [OF w(1) b] s(3) by blast
        then show ?thesis using b s(4) [of e] by (simp add: inventory_of_def)
      qed
      then have "bag_in cfg wid e g' = Some bag" using assms(5) Some g1 by (auto simp: bag_in_def)
      moreover have "worlds_ok cfg g'" using assms(2) s(2) g1 by (simp add: worlds_ok_def)
      ultimately show ?thesis by blast
    qed
  qed
qed

lemma bag_same: "gn_worlds g' = gn_worlds g \<Longrightarrow> worlds_ok cfg g' = worlds_ok cfg g \<and> bag_in cfg wid e g' = bag_in cfg wid e g"
  by (simp add: worlds_ok_def bag_in_def)

lemma handle_bags:
  assumes "config_ok cfg" and "worlds_ok cfg g" and "\<And>q. p = InHello q \<Longrightarrow> room_left g"
    and "handle_packet cfg ex amb c p g = Some g'" and "bag_in cfg wid e g = Some bag" and "drag_ok bag" and "\<not> is_creative bag"
  shows "worlds_ok cfg g' \<and> (\<exists>bag'. bag_in cfg wid e g' = Some bag' \<and> poorer bag bag')"
proof -
  have same: "worlds_ok cfg g' \<and> (\<exists>bag'. bag_in cfg wid e g' = Some bag' \<and> poorer bag bag')" if "gn_worlds g' = gn_worlds g"
    using bag_same [OF that, of cfg wid e] assms(2,5) poorer_refl [OF assms(6)] by simp
  note bags = with_inventory_bags [OF assms(2,5,6) _ assms(7)]
  show ?thesis
    using assms(4)
  proof (cases rule: handle_cases)
    case (intention q)
    show ?thesis by (rule same) (simp add: intention on_intention_def Let_def split: option.split sum.split)
  next
    case (hello q)
    then show ?thesis using hello_bags [OF assms(1,2) assms(3) [OF hello(1)] hello(2) assms(5)] poorer_refl [OF assms(6)] by blast
  next
    case acknowledged
    show ?thesis by (rule same) (simp add: acknowledged on_login_acknowledged_def)
  next
    case finish
    show ?thesis by (rule same) (simp add: finish on_finish_configuration_def Let_def split: option.split)
  next
    case (click q)
    show ?thesis
    proof (cases "cc_window_id q = 0")
      case True
      then have "g' = snd (with_inventory cfg c (\<lambda>bag. ((), click_inventory q bag)) g)"
        using click(2) by (simp add: on_click_container_def)
      then show ?thesis using bags [of "\<lambda>bag. ((), click_inventory q bag)" c] poorer_click by simp
    next
      case False
      show ?thesis by (rule same) (simp add: click False on_click_container_def)
    qed
  next
    case (closing q)
    then show ?thesis using bags [of drop_cursor c] poorer_drop by (simp add: on_close_container_def)
  next
    case (held q)
    show ?thesis
    proof (cases "0 \<le> sint (chic_slot q) \<and> sint (chic_slot q) \<le> 8")
      case True
      then have "gn_worlds g' = gn_worlds (snd (with_inventory cfg c (set_held_slot (ucast (chic_slot q))) g))"
        by (simp add: held held_fields)
      from bag_same [OF this] show ?thesis
        using bags [of "set_held_slot (ucast (chic_slot q))" c] poorer_held by simp
    next
      case False
      show ?thesis by (rule same) (use False in \<open>auto simp: held held_fields\<close>)
    qed
  next
    case (settings q)
    show ?thesis by (rule same) (simp add: settings on_settings_def)
  next
    case other
    show ?thesis by (rule same) (use other in \<open>simp add: quiet_def\<close>)
  qed
qed

text \<open>There is room in every state of a run in which a player logs in.\<close>

definition is_hello :: "raw_frame \<Rightarrow> bool" where
  "is_hello frame = (case frame of
     Packet c s k payload \<Rightarrow> (case dispatch s k payload of Inr (InHello q) \<Rightarrow> True | _ \<Rightarrow> False) | Closed c \<Rightarrow> False)"

fun roomy :: "game_config \<Rightarrow> 'm externals \<Rightarrow> (ambient \<times> raw_frame) list \<Rightarrow> game_net \<Rightarrow> bool" where
  "roomy cfg ex [] g = True"
| "roomy cfg ex ((amb, frame) # rest) g \<longleftrightarrow>
     (is_hello frame \<longrightarrow> room_left g) \<and> (case receive_frame cfg ex amb frame g of None \<Rightarrow> True | Some g' \<Rightarrow> roomy cfg ex rest g')"

lemma not_hello:
  assumes "wf_inbound p" and "\<And>q. p \<noteq> InHello q"
  shows "\<not> is_hello (from_client c p)"
proof -
  obtain s k enc where s: "sent p = (s, k, enc)" by (metis prod_cases3)
  have "is_hello (from_client c p) \<longleftrightarrow> (case p of InHello q \<Rightarrow> True | _ \<Rightarrow> False)"
    using dispatch_sent [OF assms(1) s] by (simp add: is_hello_def from_client_def s)
  then show ?thesis using assms(2) by (auto split: inbound_packet.splits)
qed

lemma frame_bags:
  assumes "config_ok cfg" and "worlds_ok cfg g" and "is_hello (Packet c s k payload) \<Longrightarrow> room_left g"
    and "receive_frame cfg ex amb (Packet c s k payload) g = Some g'" and "bag_in cfg wid e g = Some bag" and "drag_ok bag"
    and "\<not> is_creative bag"
  shows "worlds_ok cfg g' \<and> (\<exists>bag'. bag_in cfg wid e g' = Some bag' \<and> poorer bag bag')"
proof -
  define g1 where "g1 = g\<lparr>gn_clients := networks_insert c (gn_clients g)\<rparr>"
  have w: "gn_worlds g1 = gn_worlds g" by (simp add: g1_def)
  have ok: "worlds_ok cfg g1" "bag_in cfg wid e g1 = Some bag" using bag_same [OF w] assms(2,5) by simp_all
  show ?thesis
  proof (cases "dispatch s k payload")
    case (Inl err)
    then have "g' = g1" using assms(4) by (simp add: receive_frame_def g1_def)
    then show ?thesis using ok poorer_refl [OF assms(6)] by blast
  next
    case (Inr p)
    then have "handle_packet cfg ex amb c p g1 = Some g'" using assms(4) by (simp add: receive_frame_def g1_def)
    moreover have "room_left g1" if "p = InHello q" for q
      using assms(3) Inr that w by (simp add: is_hello_def room_left_def)
    ultimately show ?thesis using handle_bags [OF assms(1) ok(1) _ _ ok(2) assms(6,7)] by blast
  qed
qed

lemma run_bags:
  assumes "config_ok cfg"
  shows "network_receive cfg ex fs g = Some g' \<Longrightarrow> roomy cfg ex fs g \<Longrightarrow> \<forall>(amb, f) \<in> set fs. \<forall>c. f \<noteq> Closed c \<Longrightarrow>
    worlds_ok cfg g \<Longrightarrow> bag_in cfg wid e g = Some bag \<Longrightarrow> drag_ok bag \<Longrightarrow> \<not> is_creative bag \<Longrightarrow>
    \<exists>bag'. bag_in cfg wid e g' = Some bag' \<and> poorer bag bag'"
proof (induction fs arbitrary: g bag)
  case Nil
  then show ?case using poorer_refl by simp
next
  case (Cons f fs)
  obtain amb frame where f: "f = (amb, frame)" by fastforce
  obtain c s k payload where p: "frame = Packet c s k payload" using Cons.prems(3) f by (cases frame) auto
  obtain g1 where g1: "receive_frame cfg ex amb frame g = Some g1" "network_receive cfg ex fs g1 = Some g'"
    using Cons.prems(1) f by (auto simp: bind_eq_Some_conv)
  have room: "is_hello frame \<Longrightarrow> room_left g" and rest: "roomy cfg ex fs g1"
    using Cons.prems(2) f g1(1) by auto
  obtain bag1 where b: "worlds_ok cfg g1" "bag_in cfg wid e g1 = Some bag1" "poorer bag bag1"
    using frame_bags [OF assms Cons.prems(4) room[unfolded p] g1(1)[unfolded p] Cons.prems(5-7)] by blast
  then have "drag_ok bag1" "\<not> is_creative bag1" using Cons.prems(7) by (simp_all add: poorer_def is_creative_def)
  then obtain bag' where "bag_in cfg wid e g' = Some bag'" "poorer bag1 bag'"
    using Cons.IH [OF g1(2) rest _ b(1,2)] Cons.prems(3) by auto
  then show ?case using poorer_trans [OF b(3)] by blast
qed

end
