(* ===== verification/Session.thy ===== *)
theory Session
  imports Client_Network
begin

text \<open>
  The components of the network composed: a peer encodes packets, frames them (plain or
  compressed), the bytes arrive cut into reads, the listener reassembles and tags the frames,
  and the dispatcher decodes them. In the other direction, what a flush of the send queues
  writes is again such a stream. The channels between the tasks are bounded, and what they have no room for is
  lost: the facts say how far a stream gets. The interface between the frame encoders and the reader is the
  locale \<open>frame_format\<close>.
\<close>

section \<open>Frame formats\<close>

text \<open>
  A format turns a payload into the body of a frame; the reader opens the body again.
\<close>

definition opened :: "'z inflater \<Rightarrow> 'z \<Rightarrow> bool \<Rightarrow> u8 list \<Rightarrow> u8 list option" where
  "opened decompress d0 compressed frame =
     (if compressed then
        (case fst (decode_frame_compressed decompress d0 frame 0) of Inl _ \<Rightarrow> None | Inr p \<Rightarrow> Some p)
      else Some frame)"

lemma handle_frame_opened:
  "handle_frame decompress d0 r frame sh =
     (case opened decompress d0 (rd_compression r) frame of
        None \<Rightarrow> sh | Some p \<Rightarrow> report (rd_conn_id r) p sh)"
  by (simp add: handle_frame_def opened_def split: sum.split)

locale frame_format =
  fixes decompress :: "'z inflater"
    and d0 :: 'z
    and compressed :: bool
    and frame_of :: "u8 list \<Rightarrow> u8 list"
    and body :: "u8 list \<Rightarrow> u8 list"
    and ok :: "u8 list \<Rightarrow> bool"
  assumes framed: "ok p \<Longrightarrow> frame_of p = wire (body p)"
    and fits: "ok p \<Longrightarrow> length (body p) \<le> MAX_FRAME"
    and opens: "ok p \<Longrightarrow> opened decompress d0 compressed (body p) = Some p"
begin

lemma handle_body:
  "ok p \<Longrightarrow> rd_compression r = compressed \<Longrightarrow>
   handle_frame decompress d0 r (body p) sh = report (rd_conn_id r) p sh"
  by (simp add: handle_frame_opened opens)

lemma fold_bodies:
  "\<forall>p \<in> set ps. ok p \<Longrightarrow> rd_compression r = compressed \<Longrightarrow>
   fold (handle_frame decompress d0 r) (map body ps) sh = fold (report (rd_conn_id r)) ps sh"
  by (induction ps arbitrary: sh) (simp_all add: handle_body)

text \<open>Frames of one format, cut into any reads, are reported one by one and in order.\<close>

lemma delivers:
  assumes "\<forall>p \<in> set ps. ok p" and "rd_compression r = compressed"
    and "\<forall>c \<in> set chunks. c \<noteq> []" and "concat chunks = concat (map frame_of ps)"
  shows "read_task decompress d0 (sh, r\<lparr>rd_read_buf := []\<rparr>) (map ReadOk chunks)
     = Inr (fold (report (rd_conn_id r)) ps sh, r\<lparr>rd_read_buf := []\<rparr>)"
proof -
  have "map frame_of ps = map wire (map body ps)"
    using assms(1) by (simp add: framed)
  then have "read_task decompress d0 (sh, r\<lparr>rd_read_buf := []\<rparr>) (map ReadOk chunks)
      = Inr (fold (handle_frame decompress d0 r) (map body ps) sh, r\<lparr>rd_read_buf := []\<rparr>)"
    using assms fits by (intro read_task_stream) (auto simp flip: map_map)
  with assms show ?thesis by (simp add: fold_bodies)
qed

end

text \<open>The plain format, and the compressed format for the payloads its codec can handle.\<close>

interpretation plain: frame_format decompress d0 False wire "\<lambda>p. p" "\<lambda>p. length p \<le> MAX_FRAME"
  for decompress d0
  by unfold_locales (simp_all add: opened_def)

definition compressed_body :: "(u8 list \<Rightarrow> u8 list option) \<Rightarrow> i32 \<Rightarrow> u8 list \<Rightarrow> u8 list" where
  "compressed_body deflater threshold p =
     (let compressed = deflate_zlib deflater p in
      if int (length p) < sint threshold \<or> length p \<le> length compressed then 0 # p
      else leb128 (length p) @ compressed)"

text \<open>
  What the code relies on in flate2: deflating succeeds, and inflating the deflated payload gives
  it back. A raw body needs one byte more than its payload.
\<close>

definition compressible ::
  "'z inflater \<Rightarrow> 'z \<Rightarrow> (u8 list \<Rightarrow> u8 list option) \<Rightarrow> i32 \<Rightarrow> u8 list \<Rightarrow> bool" where
  "compressible decompress d0 deflater threshold p \<longleftrightarrow>
     0 < sint threshold \<and> length p \<le> MAX_FRAME \<and>
     length (compressed_body deflater threshold p) \<le> MAX_FRAME \<and>
     (case deflater p of
        Some c \<Rightarrow> length c < length p \<longrightarrow> inflate_zlib decompress d0 c MAX_FRAME = Inr p
      | None \<Rightarrow> int (length p) < sint threshold)"

lemma i32_to_usize_positive: "0 < sint v \<Longrightarrow> i32_to_usize v = Some n \<Longrightarrow> int n = sint v"
proof -
  assume "0 < sint v" and n: "i32_to_usize v = Some n"
  then have n: "n < 2147483648" "n = unat v" by (simp_all add: i32_to_usize_nat split: if_split_asm)
  then have "uint v = int n" by simp
  with n(1) show "int n = sint v" by (simp only: sint_i32) simp
qed

lemma encode_compressed_body:
  assumes "0 < sint threshold" and "length p \<le> MAX_FRAME"
  shows "encode_frame_compressed deflater p threshold
      = leb128 (length (compressed_body deflater threshold p)) @ compressed_body deflater threshold p"
proof -
  obtain n where n: "i32_to_usize threshold = Some n" "int n = sint threshold"
    using assms(1) i32_to_usize_positive [OF assms(1)]
    by (cases "i32_to_usize threshold") (auto simp: i32_to_usize_def)
  have p: "length p < 2 ^ 31" using assms(2) by (simp add: MAX_FRAME_def)
  have less: "length p < n \<longleftrightarrow> int (length p) < sint threshold" by (simp flip: n(2))
  show ?thesis
  proof (cases "int (length p) < sint threshold \<or> length p \<le> length (deflate_zlib deflater p)")
    case True
    with assms(1) n less p show ?thesis
      by (auto simp: encode_frame_compressed_def compressed_body_def uncompressed_frame_eq Let_def)
  next
    case False
    have "length (leb128 (length p)) \<le> 5"
      using length_varint_bytes_i32 [of "word_of_nat (length p)"] p by (simp add: varint_i32_leb128)
    then have "length (leb128 (length p)) + length (deflate_zlib deflater p) < 2 ^ 64"
      using False p by simp
    with False assms(1) n less p show ?thesis
      by (simp add: encode_frame_compressed_def compressed_body_def Let_def varint_byte_len_leb128
          write_usize_varint_leb128 usize_to_i32_def varint_i32_leb128)
  qed
qed

lemma opened_compressed_body:
  assumes "compressible decompress d0 deflater threshold p"
  shows "opened decompress d0 True (compressed_body deflater threshold p) = Some p"
proof (cases "int (length p) < sint threshold \<or> length p \<le> length (deflate_zlib deflater p)")
  case True
  then show ?thesis
    using decode_compressed_raw [of decompress d0 "[]" p]
    by (simp add: opened_def compressed_body_def Let_def)
next
  case False
  then obtain c where c: "deflater p = Some c" "length c < length p"
    using assms by (auto simp: compressible_def deflate_zlib_def split: option.splits)
  then have "inflate_zlib decompress d0 c MAX_FRAME = Inr p" and "length p \<le> MAX_FRAME"
    using assms by (auto simp: compressible_def)
  moreover have "0 < length p" using c(2) by linarith
  ultimately show ?thesis
    using False c decode_compressed_deflated [of "length p" decompress d0 c p "[]"]
    by (simp add: opened_def compressed_body_def deflate_zlib_def Let_def)
qed

interpretation deflated: frame_format decompress d0 True
    "\<lambda>p. encode_frame_compressed deflater p threshold" "compressed_body deflater threshold"
    "compressible decompress d0 deflater threshold"
  for decompress d0 deflater threshold
proof (unfold_locales, goal_cases)
  case (1 p)
  then have "0 < sint threshold" "length p \<le> MAX_FRAME"
    and f: "length (compressed_body deflater threshold p) \<le> MAX_FRAME"
    by (simp_all add: compressible_def)
  then show ?case by (simp only: wire_leb128 [OF f] encode_compressed_body)
next
  case (2 p)
  then show ?case by (simp add: compressible_def)
next
  case (3 p)
  then show ?case by (rule opened_compressed_body)
qed

text \<open>Both formats together, chosen by the compression flag.\<close>

definition framed :: "(u8 list \<Rightarrow> u8 list option) \<Rightarrow> i32 \<Rightarrow> bool \<Rightarrow> u8 list \<Rightarrow> u8 list" where
  "framed deflater threshold compressed p =
     (if compressed then encode_frame_compressed deflater p threshold else wire p)"

definition frameable ::
  "'z inflater \<Rightarrow> 'z \<Rightarrow> (u8 list \<Rightarrow> u8 list option) \<Rightarrow> i32 \<Rightarrow> bool \<Rightarrow> u8 list \<Rightarrow> bool" where
  "frameable decompress d0 deflater threshold compressed p \<longleftrightarrow>
     (if compressed then compressible decompress d0 deflater threshold p else length p \<le> MAX_FRAME)"

lemma framed_delivers:
  assumes "\<forall>p \<in> set ps. frameable decompress d0 deflater threshold (rd_compression r) p"
    and "\<forall>c \<in> set chunks. c \<noteq> []"
    and "concat chunks = concat (map (framed deflater threshold (rd_compression r)) ps)"
  shows "read_task decompress d0 (sh, r\<lparr>rd_read_buf := []\<rparr>) (map ReadOk chunks)
     = Inr (fold (report (rd_conn_id r)) ps sh, r\<lparr>rd_read_buf := []\<rparr>)"
proof (cases "rd_compression r")
  case True
  then show ?thesis using assms
    by (intro deflated.delivers [where deflater = deflater and threshold = threshold])
       (simp_all add: frameable_def framed_def [abs_def])
next
  case False
  then show ?thesis using assms by (intro plain.delivers) (simp_all add: frameable_def framed_def [abs_def])
qed

section \<open>From the send queues to the peer\<close>

text \<open>The payloads a connection has queued that a frame can carry, in the order of the flush.\<close>

definition queued :: "client_network \<Rightarrow> u8 list list" where
  "queued client = filter (\<lambda>p. length p \<le> MAX_FRAME) (nw_urgent_queue client @ nw_normal_queue client)"

lemma frames_framed:
  "frames deflater client q =
     map (framed deflater (nw_compression_threshold client) (nw_compression_enabled client))
       (filter (\<lambda>p. length p \<le> MAX_FRAME) q)"
proof (induction q)
  case (Cons p q)
  then show ?case
    by (cases "length p \<le> MAX_FRAME") (simp_all add: frame_bytes_def wire_def encode_frame_ok framed_def)
qed simp

lemma write_flush: "fst (write_task (take k (flush_client deflater client)) compression) =
    concat (map message_bytes (take k (flush_client deflater client)))"
  by (subst (1) flush_client_messages) (simp add: take_map write_task_frames comp_def flip: map_map)

lemma flush_stream:
  "\<exists>n. fst (write_task (take k (flush_client deflater client)) compression) =
       concat (map (framed deflater (nw_compression_threshold client) (nw_compression_enabled client)) (take n (queued client))) \<and>
     (length (flush_client deflater client) \<le> k \<longrightarrow> n = length (queued client))"
proof (cases "length (flush_client deflater client) \<le> k")
  case True
  then show ?thesis
    using write_flush [of k deflater client compression]
    by (intro exI [of _ "length (queued client)"]) (simp add: flush_client_bytes frames_framed queued_def)
next
  case False
  obtain n where "concat (map message_bytes (take k (flush_client deflater client))) =
      concat (take n (frames deflater client (nw_urgent_queue client) @ frames deflater client (nw_normal_queue client)))"
    using flush_client_prefix by blast
  with False write_flush [of k deflater client compression] show ?thesis
    by (intro exI [of _ n]) (simp add: frames_framed queued_def take_map)
qed

text \<open>
  A reader with the same compression flag receives the queued payloads of the messages that the channel takes, however the
  batches of the flush and the reads of the socket fall; all of them when the channel has room for the flush.
\<close>

lemma flush_delivers:
  assumes "nws_clients clients c = Some client" and "outbound c = Some channel"
    and "\<forall>p \<in> set (queued client). frameable decompress d0 deflater (nw_compression_threshold client)
          (nw_compression_enabled client) p"
    and "rd_compression r = nw_compression_enabled client"
  shows "\<exists>new n. flush_all deflater clients outbound c = Some (channel @ new) \<and>
     new = take (OUTBOUND_CAPACITY - length channel) (flush_client deflater client) \<and>
     (length channel + length (flush_client deflater client) \<le> OUTBOUND_CAPACITY \<longrightarrow> n = length (queued client)) \<and>
     (\<forall>chunks. (\<forall>c \<in> set chunks. c \<noteq> []) \<longrightarrow> concat chunks = fst (write_task new compression) \<longrightarrow>
        read_task decompress d0 (sh, r\<lparr>rd_read_buf := []\<rparr>) (map ReadOk chunks)
          = Inr (fold (report (rd_conn_id r)) (take n (queued client)) sh, r\<lparr>rd_read_buf := []\<rparr>))"
proof -
  let ?new = "take (OUTBOUND_CAPACITY - length channel) (flush_client deflater client)"
  have "flush_all deflater clients outbound c = Some (channel @ ?new)"
    by (simp add: flush_all_def assms(1,2) flush_into_take)
  moreover obtain n where n: "fst (write_task ?new compression) =
      concat (map (framed deflater (nw_compression_threshold client) (nw_compression_enabled client)) (take n (queued client)))"
    "length (flush_client deflater client) \<le> OUTBOUND_CAPACITY - length channel \<longrightarrow> n = length (queued client)"
    using flush_stream by blast
  moreover have "read_task decompress d0 (sh, r\<lparr>rd_read_buf := []\<rparr>) (map ReadOk chunks)
      = Inr (fold (report (rd_conn_id r)) (take n (queued client)) sh, r\<lparr>rd_read_buf := []\<rparr>)"
    if "\<forall>c \<in> set chunks. c \<noteq> []" and "concat chunks = fst (write_task ?new compression)" for chunks
    using that assms(3,4) n(1)
    by (intro framed_delivers [where deflater = deflater and threshold = "nw_compression_threshold client"])
       (auto dest: in_set_takeD)
  ultimately show ?thesis by (intro exI [of _ ?new] exI [of _ n]) auto
qed

section \<open>From the packets of a client to the dispatcher\<close>

lemmas body_wrote =
  intention.body_writes ping.body.body_writes hello.body.body_writes login_challenge.body.body_writes
  teleport_confirm.body.body_writes
  click_container.body.body_writes
  close_container.body.body_writes
  client_held_item_change.body.body_writes
  chunk_batch_received.body.body_writes
  client_status.body.body_writes
  client_command_chat.body.body_writes
  client_signed_command_chat.body.body_writes
  keep_alive.body.body_writes
  player_position.body.body_writes
  player_position_and_rotation.body.body_writes
  look.body.body_writes
  player_position_status.body.body_writes
  player_loaded.body.body_writes
  query_block_nbt.body.body_writes
  select_bundle_item.body.body_writes
  change_difficulty.body.body_writes
  change_game_mode.body.body_writes
  chat_ack.body.body_writes
  chat_message.body.body_writes
  chat_session_update.body.body_writes
  tick_end.body.body_writes
  settings.body.body_writes
  tab_complete.body.body_writes
  configuration_ack.body.body_writes
  click_window_button.body.body_writes
  window_slot_state.body.body_writes
  cookie_response.body.body_writes
  client_plugin_message.body_writes
  debug_subscription_request.body.body_writes
  edit_book.body.body_writes
  query_entity_nbt.body.body_writes
  interact_entity.body.body_writes
  generate_structure.body.body_writes
  lock_difficulty.body.body_writes
  vehicle_move.body.body_writes
  steer_boat.body.body_writes
  pick_item_from_block.body.body_writes
  pick_item_from_entity.body.body_writes
  ping_request.body.body_writes
  place_recipe.body.body_writes
  player_abilities.body.body_writes
  player_action.body.body_writes
  entity_action.body.body_writes
  player_input.body.body_writes
  pong.body.body_writes
  set_recipe_book_state.body.body_writes
  recipe_book_seen_recipe.body.body_writes
  name_item.body.body_writes
  resource_pack_status.body.body_writes
  advancement_tab.body.body_writes
  select_trade.body.body_writes
  set_beacon_effect.body.body_writes
  update_command_block.body.body_writes
  update_command_block_minecart.body.body_writes
  creative_inventory_action.body.body_writes
  update_jigsaw_block.body.body_writes
  update_structure_block.body.body_writes
  set_test_block.body.body_writes
  update_sign.body.body_writes
  animation.body.body_writes
  spectate.body.body_writes
  test_instance_block_action.body_writes
  player_block_placement.body.body_writes
  use_item.body.body_writes
  custom_click_action.body.body_writes

text \<open>The payload of a frame that carries a packet, and the phase that follows it.\<close>

definition packet_bytes :: "inbound_packet \<Rightarrow> u8 list" where
  "packet_bytes p = (case sent p of (s, k, encode) \<Rightarrow> encode_clientbound k encode)"

definition phase_of :: "inbound_packet \<Rightarrow> connection_state" where
  "phase_of p = fst (sent p)"

definition next_phase :: "inbound_packet \<Rightarrow> connection_state" where
  "next_phase p = (case sent p of (s, k, encode) \<Rightarrow> next_state s k (encoded encode))"

text \<open>A conversation: every packet is sent in the phase its predecessors have led to.\<close>

fun conversation :: "connection_state \<Rightarrow> inbound_packet list \<Rightarrow> bool" where
  "conversation s [] = True"
| "conversation s (p # ps) = (phase_of p = s \<and> conversation (next_phase p) ps)"

text \<open>What the game side gets out of a report.\<close>

definition received :: "raw_frame \<Rightarrow> protocol_error + inbound_packet" where
  "received f = (case f of Packet c s k body \<Rightarrow> dispatch s k body | Closed c \<Rightarrow> Inl InvalidState)"

lemma writes_put_end: "writes put_end (encoded put_end)"
  using carries_encoded [OF carries_end [OF refl [of "()"]]] by blast

lemma sent_writes: "wf_inbound p \<Longrightarrow> sent p = (s, k, encode) \<Longrightarrow> writes encode (encoded encode)"
  by (cases p) (auto simp: wf_inbound_def sent_def body_wrote writes_put_end
      status_request.body.body_writes client_information.body.body_writes
      finish_configuration_c2s.body.body_writes wf_status_request_def wf_client_information_def
      wf_finish_configuration_c2s_def)

lemma packet_bytes_eq:
  assumes "wf_inbound p" and "sent p = (s, k, encode)"
  shows "packet_bytes p = varint_bytes k @ encoded encode"
  using writes_bind [OF writes_put_varint sent_writes [OF assms], of k] assms(2)
  by (simp add: packet_bytes_def encode_clientbound_def writes_def into_inner_def bb_with_capacity_def)

lemma report_packet:
  assumes "wf_inbound p" and "state_of (sh_states sh) c = phase_of p"
  shows "state_of (sh_states (report c (packet_bytes p) sh)) c = next_phase p"
    and "\<exists>f. sh_inbound (report c (packet_bytes p) sh) = try_send (sh_capacity sh) f (sh_inbound sh) \<and> received f = Inr p"
    and "sh_capacity (report c (packet_bytes p) sh) = sh_capacity sh"
proof -
  obtain s k encode where p: "sent p = (s, k, encode)" by (cases "sent p")
  with assms(2) have s: "state_of (sh_states sh) c = s" by (simp add: phase_of_def)
  note r = report_varint [of c k "encoded encode" sh, unfolded s, folded packet_bytes_eq [OF assms(1) p]]
  show "state_of (sh_states (report c (packet_bytes p) sh)) c = next_phase p"
    using state_of_update [of "sh_states sh" c k "encoded encode" c] by (simp add: r s next_phase_def p)
  show "\<exists>f. sh_inbound (report c (packet_bytes p) sh) = try_send (sh_capacity sh) f (sh_inbound sh) \<and> received f = Inr p"
    by (intro exI [of _ "Packet c s k (encoded encode)"]) (simp add: r received_def dispatch_sent [OF assms(1) p])
  show "sh_capacity (report c (packet_bytes p) sh) = sh_capacity sh" by (simp add: r)
qed

lemma report_conversation:
  assumes "\<forall>p \<in> set ps. wf_inbound p" and "conversation s ps" and "state_of (sh_states sh) c = s"
  shows "\<exists>fs. sh_inbound (fold (report c) (map packet_bytes ps) sh) = sh_inbound sh @ fs \<and>
     map received fs = map Inr (take (sh_capacity sh - length (sh_inbound sh)) ps)"
  using assms
proof (induction ps arbitrary: s sh)
  case (Cons p ps)
  let ?sh = "report c (packet_bytes p) sh"
  have w: "wf_inbound p" "state_of (sh_states sh) c = phase_of p" using Cons.prems by simp_all
  obtain f where f: "sh_inbound ?sh = try_send (sh_capacity sh) f (sh_inbound sh)" "received f = Inr p"
    using report_packet(2) [OF w] by blast
  obtain fs where fs: "sh_inbound (fold (report c) (map packet_bytes ps) ?sh) = sh_inbound ?sh @ fs"
    "map received fs = map Inr (take (sh_capacity sh - length (sh_inbound ?sh)) ps)"
    using Cons.IH [OF _ _ report_packet(1) [OF w]] Cons.prems report_packet(3) [OF w] by auto
  show ?case
  proof (cases "length (sh_inbound sh) < sh_capacity sh")
    case True
    then obtain k where "sh_capacity sh - length (sh_inbound sh) = Suc k"
      "sh_capacity sh - length (sh_inbound ?sh) = k"
      by (cases "sh_capacity sh - length (sh_inbound sh)") (auto simp: f(1) try_send_def)
    with True f fs show ?thesis by (intro exI [of _ "f # fs"]) (simp add: try_send_def)
  next
    case False
    with f fs show ?thesis by (intro exI [of _ fs]) (simp add: try_send_def)
  qed
qed simp

text \<open>
  The packets of a client that follows the protocol, in any phase and in either format: whatever the reads, they
  come to wait in the channel to the game, in order, as far as the channel has room.
\<close>

lemma conversation_delivered:
  assumes "\<forall>p \<in> set ps. wf_inbound p \<and>
      frameable decompress d0 deflater threshold (rd_compression r) (packet_bytes p)"
    and "conversation (state_of (sh_states sh) (rd_conn_id r)) ps"
    and "\<forall>c \<in> set chunks. c \<noteq> []"
    and "concat chunks = concat (map (framed deflater threshold (rd_compression r) \<circ> packet_bytes) ps)"
  shows "\<exists>sh' fs. read_task decompress d0 (sh, r\<lparr>rd_read_buf := []\<rparr>) (map ReadOk chunks) = Inr (sh', r\<lparr>rd_read_buf := []\<rparr>) \<and>
     sh_inbound sh' = sh_inbound sh @ fs \<and>
     map received fs = map Inr (take (sh_capacity sh - length (sh_inbound sh)) ps)"
proof -
  have "read_task decompress d0 (sh, r\<lparr>rd_read_buf := []\<rparr>) (map ReadOk chunks)
     = Inr (fold (report (rd_conn_id r)) (map packet_bytes ps) sh, r\<lparr>rd_read_buf := []\<rparr>)"
    using assms by (intro framed_delivers [where deflater = deflater and threshold = threshold]) auto
  with report_conversation [OF _ assms(2) refl] assms(1) show ?thesis by blast
qed

end
