(* ===== verification/Inventory_Sync.thy ===== *)
theory Inventory_Sync
  imports Player_Inventory Client_Network Packets_Client_B Connection_Manager
begin

text \<open>
  Sending a player's inventory to its client (\<open>system/inventory_sync.rs\<close>): the whole window after a
  click or at login, the equipment that is not air, and the slots that changed. The theory also holds
  the client's side of the bargain, the view that the packets build, and shows when the view is the
  inventory again after a synchronisation.
\<close>

section \<open>The packets\<close>

definition usize_or_0 :: "i32 \<Rightarrow> nat" where
  "usize_or_0 w = (case i32_to_usize w of Some n \<Rightarrow> n | None \<Rightarrow> 0)"

definition i16_or_0 :: "i32 \<Rightarrow> i16" where
  "i16_or_0 w = (if - (2 ^ 15) \<le> sint w \<and> sint w < 2 ^ 15 then ucast w else 0)"

definition window_items :: "player_inventory \<Rightarrow> window_items_packet" where
  "window_items s =
     \<lparr>wip_window_id = 0, wip_state_id = 0,
      wip_items = map (\<lambda>w. pi_get (usize_or_0 (window_slot_to_minestom_slot (word_of_nat w))) s) [0..<46],
      wip_carried_item = pi_cursor s\<rparr>"

definition equipment_of :: "player_inventory \<Rightarrow> equipment_entry list" where
  "equipment_of s =
     map (\<lambda>(slot, item). \<lparr>eqe_slot = slot, eqe_item = item\<rparr>)
       (filter (\<lambda>(_, item). \<not> is_air item)
         [(MainHand, pi_get (unat (pi_held_slot s)) s), (OffHand, pi_get 45 s), (Helmet, pi_get 41 s),
          (Chestplate, pi_get 42 s), (Leggings, pi_get 43 s), (Boots, pi_get 44 s)])"

definition set_slot :: "player_inventory \<Rightarrow> u8 \<Rightarrow> set_slot_packet" where
  "set_slot s slot =
     \<lparr>ssp_window_id = 0, ssp_state_id = 0,
      ssp_slot = i16_or_0 (convert_minestom_slot_to_window_slot (ucast slot)),
      ssp_item = pi_get (unat slot) s\<rparr>"

datatype sync_packet =
    WindowItems window_items_packet
  | EntityEquipment entity_equipment_packet
  | SetSlot set_slot_packet

definition sync_bytes :: "sync_packet \<Rightarrow> u8 list" where
  "sync_bytes p =
     (case p of
        WindowItems q \<Rightarrow> encode_clientbound window_items_packet_id (window_items_packet_encode q)
      | EntityEquipment q \<Rightarrow> encode_clientbound entity_equipment_packet_id (entity_equipment_packet_encode q)
      | SetSlot q \<Rightarrow> encode_clientbound set_slot_packet_id (set_slot_packet_encode q))"

text \<open>One player: the packets in the order they are queued, and the inventory afterwards. The
  order in which the set of changed slots is visited is an argument.\<close>

definition sync_player ::
  "(u8 set \<Rightarrow> u8 list) \<Rightarrow> u32 \<Rightarrow> player_inventory \<Rightarrow> sync_packet list \<times> player_inventory" where
  "sync_player order conn_id s =
     (let window = (if pi_full_sync s then [WindowItems (window_items s)] else []);
          s1 = (if pi_full_sync s then s\<lparr>pi_full_sync := False\<rparr> else s);
          equipments = equipment_of s1;
          equipment = (if equipments \<noteq> []
            then [EntityEquipment \<lparr>eep_entity_id = conn_id, eep_equipments = equipments\<rparr>] else []);
          dirty = order (pi_dirty s1);
          s2 = s1\<lparr>pi_dirty := {}\<rparr>
      in (window @ equipment @ map (\<lambda>d. SetSlot (set_slot s2 d)) dirty, s2))"

definition enqueue_sync :: "u32 \<Rightarrow> sync_packet list \<Rightarrow> client_networks \<Rightarrow> client_networks" where
  "enqueue_sync conn_id ps cs = fold (\<lambda>p. enqueue_packet conn_id (sync_bytes p) Normal) ps cs"

text \<open>The system: every player entity of every world, in the order of the query; a player without a
  connection is left as it is.\<close>

fun inventory_sync ::
  "(u8 set \<Rightarrow> u8 list) \<Rightarrow> u32 list \<Rightarrow> connection_manager \<Rightarrow> (entity \<times> player_inventory) list \<Rightarrow> client_networks \<Rightarrow>
     (entity \<times> player_inventory) list \<times> client_networks" where
  "inventory_sync order conns m [] cs = ([], cs)"
| "inventory_sync order conns m ((e, s) # players) cs =
     (case connection_of conns m e of
        None \<Rightarrow>
          (case inventory_sync order conns m players cs of (rest, cs') \<Rightarrow> ((e, s) # rest, cs'))
      | Some conn_id \<Rightarrow>
          (case sync_player order conn_id s of
             (packets, s') \<Rightarrow>
               (case inventory_sync order conns m players (enqueue_sync conn_id packets cs) of
                  (rest, cs') \<Rightarrow> ((e, s') # rest, cs'))))"

text \<open>What the client's decoders read is what was sent.\<close>

definition readable :: "sync_packet \<Rightarrow> bool" where
  "readable p =
     (case p of
        WindowItems q \<Rightarrow> fst (window_items_packet_decode (bb_new (encoded (window_items_packet_encode q)))) = Inr q
      | EntityEquipment q \<Rightarrow>
          fst (entity_equipment_packet_decode (bb_new (encoded (entity_equipment_packet_encode q)))) = Inr q
      | SetSlot q \<Rightarrow> fst (set_slot_packet_decode (bb_new (encoded (set_slot_packet_encode q)))) = Inr q)"

lemma sync_readable:
  assumes "\<And>i. normal_item (pi_get i s)" and "normal_item (pi_cursor s)"
    and "sync_player order c s = (ps, s')" and "p \<in> set ps"
  shows "readable p"
proof -
  have get: "pi_get i (s\<lparr>pi_full_sync := b\<rparr>) = pi_get i s" "pi_get i (s\<lparr>pi_dirty := d\<rparr>) = pi_get i s"
    "pi_get i (s\<lparr>pi_full_sync := b, pi_dirty := d\<rparr>) = pi_get i s" for i b d
    by (simp_all add: pi_get_def)
  have wi: "wf_window_items_packet (window_items s)"
    using assms(1,2) by (auto simp: wf_window_items_packet_def window_items_def wf_array_def list_all_iff)
  have ss: "wf_set_slot_packet (set_slot t d)" if "\<And>i. pi_get i t = pi_get i s" for t d
    using assms(1) that by (simp add: wf_set_slot_packet_def set_slot_def)
  have eq: "list_all (\<lambda>e. normal_item (eqe_item e)) (equipment_of t)" if "\<And>i. pi_get i t = pi_get i s" for t
    using assms(1) that by (auto simp: equipment_of_def)
  show ?thesis
    using assms(3,4) wi
    by (cases "pi_full_sync s")
       (auto simp: sync_player_def Let_def readable_def wf_entity_equipment_packet_def get
         intro!: window_items_packet.body.body_decode entity_equipment_packet.body.body_decode
           set_slot_packet.body.body_decode ss eq split: if_splits)
qed

section \<open>The client's view\<close>

record client_view =
  cv_slots :: "item_stack list"
  cv_cursor :: item_stack

definition view_slot :: "nat \<Rightarrow> client_view \<Rightarrow> item_stack" where
  "view_slot w v = (if w < length (cv_slots v) then cv_slots v ! w else AIR)"

text \<open>What a client does with the packets of its inventory window.\<close>

definition receive :: "sync_packet \<Rightarrow> client_view \<Rightarrow> client_view" where
  "receive p v =
     (case p of
        WindowItems q \<Rightarrow> \<lparr>cv_slots = wip_items q, cv_cursor = wip_carried_item q\<rparr>
      | EntityEquipment _ \<Rightarrow> v
      | SetSlot q \<Rightarrow> v\<lparr>cv_slots := (cv_slots v)[unat (ssp_slot q) := ssp_item q]\<rparr>)"

text \<open>Two stacks a player cannot tell apart: equal ones, or air twice.\<close>

definition same_item :: "item_stack \<Rightarrow> item_stack \<Rightarrow> bool" where
  "same_item x y \<longleftrightarrow> x = y \<or> is_air x \<and> is_air y"

definition displays :: "client_view \<Rightarrow> player_inventory \<Rightarrow> bool" where
  "displays v s \<longleftrightarrow> length (cv_slots v) = 46 \<and> cv_cursor v = pi_cursor s \<and>
     (\<forall>i < 46. same_item (view_slot (window_of i) v) (pi_get i s))"

text \<open>The view may be behind, but only in what the next synchronisation will send.\<close>

definition in_step :: "client_view \<Rightarrow> player_inventory \<Rightarrow> bool" where
  "in_step v s \<longleftrightarrow> pi_full_sync s \<or>
     (length (cv_slots v) = 46 \<and> cv_cursor v = pi_cursor s \<and>
      (\<forall>i < 46. word_of_nat i \<in> pi_dirty s \<or> same_item (view_slot (window_of i) v) (pi_get i s)))"

definition lists_dirty :: "(u8 set \<Rightarrow> u8 list) \<Rightarrow> player_inventory \<Rightarrow> bool" where
  "lists_dirty order s \<longleftrightarrow> set (order (pi_dirty s)) = pi_dirty s"

lemma same_refl [simp]: "same_item x x"
  by (simp add: same_item_def)

lemma same_trans: "same_item x y \<Longrightarrow> same_item y z \<Longrightarrow> same_item x z"
  by (auto simp: same_item_def)

section \<open>One synchronisation\<close>

lemma internal_index: "w < 46 \<Longrightarrow> usize_or_0 (window_slot_to_minestom_slot (word_of_nat w)) = internal_of w"
proof -
  assume w: "w < 46"
  then have "window_slot_to_minestom_slot (word_of_nat w) = word_of_nat (internal_of w)"
    using convert_of_nat(2) [of w] by simp
  moreover have "internal_of w < 2 ^ 31" using slots_inverse(3) [of w] w by simp
  ultimately show ?thesis by (simp add: usize_or_0_def)
qed

lemma window_items_show: "displays (receive (WindowItems (window_items s)) v) s"
proof -
  have "same_item (view_slot (window_of i) (receive (WindowItems (window_items s)) v)) (pi_get i s)" if "i < 46" for i
  proof -
    have "window_of i < 46" "internal_of (window_of i) = i" using slots_inverse(1,4) [of i] that by simp_all
    then show ?thesis by (simp add: receive_def window_items_def view_slot_def internal_index)
  qed
  then show ?thesis by (simp add: displays_def receive_def window_items_def)
qed

lemma sint_slot_number: "n < 256 \<Longrightarrow> sint (word_of_nat n :: i32) = int n"
  by (simp add: signed_of_nat signed_take_bit_int_eq_self_iff)

lemma slot_number:
  "unat (ssp_slot (set_slot s d)) = (if unat d \<le> 45 then window_of (unat d) else unat d)"
proof -
  have d: "(ucast d :: i32) = word_of_nat (unat d)" by simp
  have i16: "unat (i16_or_0 (word_of_nat n)) = n" if "n < 256" for n
    using that by (simp add: i16_or_0_def sint_slot_number unsigned_ucast_eq take_bit_nat_eq_self unsigned_of_nat)
  show ?thesis
  proof (cases "unat d \<le> 45")
    case True
    then show ?thesis
      using convert_of_nat(1) [OF True] slots_inverse(4) [OF True] i16 [of "window_of (unat d)"]
      by (simp add: set_slot_def d del: ucast_id word_of_nat_eq_0_iff of_nat_unat)
  next
    case False
    then have "convert_minestom_slot_to_window_slot (word_of_nat (unat d)) = word_of_nat (unat d)"
      using sint_slot_number [of "unat d"] unat_u8_max [of d]
      by (simp add: convert_minestom_slot_to_window_slot_def del: of_nat_unat)
    then show ?thesis using False i16 [of "unat d"] unat_u8_max [of d]
      by (simp add: set_slot_def d del: of_nat_unat)
  qed
qed

lemma receive_slot [simp]:
  "length (cv_slots (receive (SetSlot q) v)) = length (cv_slots v)"
  "cv_cursor (receive (SetSlot q) v) = cv_cursor v"
  by (simp_all add: receive_def)

text \<open>The changed slots, in any order and even repeated.\<close>

lemma set_slot_view:
  assumes "length (cv_slots v) = 46" and "i < 46"
  shows "view_slot (window_of i) (receive (SetSlot (set_slot s d)) v)
    = (if d = word_of_nat i then pi_get i s else view_slot (window_of i) v)"
proof -
  have w: "window_of i < 46" using slots_inverse(4) [of i] assms(2) by simp
  have u: "unat (word_of_nat i :: u8) = i" using usize_to_u8_slot [OF assms(2)] by blast
  show ?thesis
  proof (cases "d = word_of_nat i")
    case True
    then show ?thesis using w assms u slot_number [of s d]
      by (simp add: receive_def view_slot_def) (simp add: set_slot_def)
  next
    case False
    have "unat (ssp_slot (set_slot s d)) \<noteq> window_of i"
    proof
      assume eq: "unat (ssp_slot (set_slot s d)) = window_of i"
      have le: "unat d \<le> 45" using eq slot_number [of s d] w by (auto split: if_splits)
      then have "window_of (unat d) = window_of i" using eq slot_number [of s d] by simp
      then have "unat d = i" using slots_inverse(1) [of i] slots_inverse(1) [OF le] assms(2) by simp
      then show False using False by auto
    qed
    then show ?thesis using False by (simp add: receive_def view_slot_def)
  qed
qed

lemma set_slots_view:
  "length (cv_slots v) = 46 \<Longrightarrow>
   length (cv_slots (fold receive (map (\<lambda>d. SetSlot (set_slot s d)) ds) v)) = 46 \<and>
   cv_cursor (fold receive (map (\<lambda>d. SetSlot (set_slot s d)) ds) v) = cv_cursor v \<and>
   (\<forall>i < 46. view_slot (window_of i) (fold receive (map (\<lambda>d. SetSlot (set_slot s d)) ds) v)
      = (if word_of_nat i \<in> set ds then pi_get i s else view_slot (window_of i) v))"
proof (induction ds arbitrary: v)
  case (Cons d ds)
  have len: "length (cv_slots (receive (SetSlot (set_slot s d)) v)) = 46" using Cons.prems by simp
  show ?case using Cons.IH [OF len] set_slot_view [OF Cons.prems] by auto
qed simp

lemma sync_player_state:
  "sync_player order c s = (ps, s') \<Longrightarrow>
   pi_get i s' = pi_get i s \<and> pi_cursor s' = pi_cursor s \<and> pi_dirty s' = {} \<and> \<not> pi_full_sync s' \<and>
   pi_ok s' = pi_ok s \<and> pi_quick_craft s' = pi_quick_craft s"
  by (cases "pi_full_sync s") (auto simp: sync_player_def Let_def pi_get_def pi_ok_def)

lemma set_slot_fields [simp]:
  "set_slot (s\<lparr>pi_full_sync := b\<rparr>) d = set_slot s d" "set_slot (s\<lparr>pi_dirty := ds\<rparr>) d = set_slot s d"
  by (simp_all add: set_slot_def pi_get_def)

lemma equipment_view: "receive (EntityEquipment q) v = v"
  by (simp add: receive_def)

lemma sync_catches_up:
  assumes "in_step v s" and "lists_dirty order s" and "sync_player order c s = (ps, s')"
  shows "displays (fold receive ps v) s'"
proof -
  define s2 where "s2 = s\<lparr>pi_full_sync := False\<rparr>\<lparr>pi_dirty := {}\<rparr>"
  have s2: "pi_get i s2 = pi_get i s" "pi_cursor s2 = pi_cursor s" for i
    by (simp_all add: s2_def pi_get_def)
  have s': "s' = s2" using assms(3) by (cases "pi_full_sync s") (auto simp: sync_player_def s2_def Let_def)
  define v1 where "v1 = (if pi_full_sync s then receive (WindowItems (window_items s)) v else v)"
  have v1: "in_step v1 s2 \<or> True" "length (cv_slots v1) = 46" "cv_cursor v1 = pi_cursor s"
    "\<And>i. i < 46 \<Longrightarrow> word_of_nat i \<in> pi_dirty s \<or> same_item (view_slot (window_of i) v1) (pi_get i s)"
    using assms(1) window_items_show [of s v]
    by (auto simp: v1_def in_step_def displays_def)
  let ?ms = "map (\<lambda>d. SetSlot (set_slot s2 d)) (order (pi_dirty s))"
  have "fold receive ps v = fold receive ?ms v1"
    using assms(3)
    by (cases "pi_full_sync s") (auto simp: sync_player_def v1_def Let_def s2_def equipment_view split: if_splits)
  then show ?thesis
    using set_slots_view [OF v1(2), where s = s2 and ds = "order (pi_dirty s)"] v1(3,4) assms(2)
    by (auto simp: displays_def s' s2 lists_dirty_def)
qed

section \<open>What the operations leave to be sent\<close>

text \<open>Every difference to the old state is on the list of changed slots.\<close>

definition tracked :: "player_inventory \<Rightarrow> player_inventory \<Rightarrow> bool" where
  "tracked s s' \<longleftrightarrow> pi_cursor s' = pi_cursor s \<and> pi_full_sync s' = pi_full_sync s \<and>
     pi_dirty s \<subseteq> pi_dirty s' \<and> (pi_ok s \<longrightarrow> pi_ok s') \<and>
     (\<forall>i < 46. word_of_nat i \<in> pi_dirty s' \<or> same_item (pi_get i s) (pi_get i s'))"

lemma tracked_refl [simp]: "tracked s s"
  by (simp add: tracked_def)

lemma tracked_trans:
  assumes "tracked s t" and "tracked t u"
  shows "tracked s u"
proof -
  have "word_of_nat i \<in> pi_dirty u \<or> same_item (pi_get i s) (pi_get i u)" if "i < 46" for i
    using assms that same_trans [of "pi_get i s" "pi_get i t" "pi_get i u"] unfolding tracked_def by blast
  then show ?thesis using assms unfolding tracked_def by auto
qed

lemma tracked_step:
  assumes "in_step v s" and "tracked s s'"
  shows "in_step v s'"
proof (cases "pi_full_sync s")
  case False
  have "word_of_nat i \<in> pi_dirty s' \<or> same_item (view_slot (window_of i) v) (pi_get i s')" if "i < 46" for i
    using assms that False same_trans [of "view_slot (window_of i) v" "pi_get i s" "pi_get i s'"]
    unfolding tracked_def in_step_def by blast
  then show ?thesis using assms False unfolding tracked_def in_step_def by auto
qed (use assms in \<open>simp add: tracked_def in_step_def\<close>)

lemma marked_step: "in_step v (mark_full_sync s)"
  by (simp add: in_step_def mark_full_sync_def)

lemma tracked_set:
  assumes "pi_ok s" and "is_air x \<longrightarrow> is_air (pi_get i s)"
  shows "tracked s (pi_set i x s)"
proof -
  have "pi_dirty s \<subseteq> pi_dirty (pi_set i x s)"
    by (auto simp: pi_set_def Let_def split: option.splits)
  moreover have "word_of_nat j \<in> pi_dirty (pi_set i x s) \<or> same_item (pi_get j s) (pi_get j (pi_set i x s))"
    if j: "j < 46" for j
  proof (cases "j = i")
    case True
    show ?thesis
    proof (cases "is_air x")
      case True
      then show ?thesis using assms \<open>j = i\<close> by (auto simp: get_set same_item_def)
    next
      case False
      then show ?thesis using assms(1) j \<open>j = i\<close> usize_to_u8_slot [OF j]
        by (auto simp: pi_set_def pi_ok_def Let_def)
    qed
  qed (simp add: get_other [OF assms(1)])
  ultimately show ?thesis by (simp add: tracked_def)
qed

lemma tracked_then:
  "pi_ok s \<Longrightarrow> is_air x \<longrightarrow> is_air (pi_get i s) \<Longrightarrow> tracked (pi_set i x s) t \<Longrightarrow> tracked s t"
  by (rule tracked_trans [OF tracked_set])

lemma sat_add_pos: "\<not> is_air x \<Longrightarrow> \<not> is_air (x\<lparr>is_amount := sat_add (is_amount x) n\<rparr>)"
  by (auto simp: is_air_amount sat_add_def unat_add_u8)

lemma tracked_quick_craft [simp]: "drag_wf q \<Longrightarrow> tracked s (s\<lparr>pi_quick_craft := q\<rparr>)"
  by (simp add: tracked_def pi_ok_def)

lemma merge_tracked: "pi_ok s \<Longrightarrow> tracked s (snd (quick_move_merge stack ds n s))"
proof (induction ds arbitrary: n s)
  case (Cons d ds)
  show ?case
    using Cons.prems by (auto simp: Let_def intro!: tracked_trans [OF tracked_set Cons.IH] Cons.IH simp: sat_add_pos)
qed simp

lemma item_new_air: "is_air (item_new m n) \<longleftrightarrow> n = 0"
  by (simp add: item_new_def is_air_def AIR_def)

lemma fill_tracked: "pi_ok s \<Longrightarrow> tracked s (snd (quick_move_fill stack ds n s))"
proof (induction ds arbitrary: n s)
  case (Cons d ds)
  show ?case
    using Cons.prems by (auto simp: item_new_air intro!: tracked_trans [OF tracked_set Cons.IH] Cons.IH)
qed simp

lemma quick_move_tracked:
  assumes "pi_ok s" and "click_quick_move slot s = (False, s')"
  shows "tracked s s'"
proof (cases "is_air (pi_get slot s) \<or> quick_move_dest slot = None")
  case True
  then show ?thesis using assms(2) by (auto simp: click_quick_move_def Let_def split: if_splits)
next
  case False
  let ?stack = "pi_get slot s"
  obtain dest where dest: "quick_move_dest slot = Some dest" using False by blast
  obtain n1 s1 where m: "quick_move_merge ?stack dest (is_amount ?stack) s = (n1, s1)" by fastforce
  obtain n2 s2 where f: "(if 0 < n1 then quick_move_fill ?stack dest n1 s1 else (n1, s1)) = (n2, s2)" by fastforce
  have t1: "tracked s s1" using merge_tracked [OF assms(1), of ?stack dest "is_amount ?stack"] m by simp
  then have ok1: "pi_ok s1" using assms(1) by (simp add: tracked_def)
  have t2: "tracked s1 s2" using fill_tracked [OF ok1, of ?stack dest n1] f by (auto split: if_splits)
  then have ok2: "pi_ok s2" using ok1 by (simp add: tracked_def)
  have "n2 = is_amount ?stack" and s': "s' = pi_set slot (item_new (is_material ?stack) n2) s2"
    using assms(2) False by (auto simp: click_quick_move_def Let_def dest m f is_air_def split: if_splits prod.splits)
  moreover have "is_amount ?stack \<noteq> 0" using False by (simp add: is_air_def)
  ultimately have "tracked s2 s'" using ok2 by (simp add: tracked_set item_new_air)
  then show ?thesis using t1 t2 by (blast intro: tracked_trans)
qed

lemma spread_unchanged: "spread_loop m ts n False s = (k, False, t) \<Longrightarrow> t = s"
proof -
  have "spread_loop m ts n b s = (k, False, t) \<Longrightarrow> \<not> b \<and> t = s" for b
    by (induction ts arbitrary: n b s) (auto simp: Let_def split: if_splits)
  then show "spread_loop m ts n False s = (k, False, t) \<Longrightarrow> t = s" by blast
qed

lemma pickup_all_unchanged: "pickup_all_loop m ds n False s = (k, False, t) \<Longrightarrow> t = s"
proof -
  have "pickup_all_loop m ds n b s = (k, False, t) \<Longrightarrow> \<not> b \<and> t = s" for b
    by (induction ds arbitrary: n b s) (auto simp: Let_def split: if_splits)
  then show "pickup_all_loop m ds n False s = (k, False, t) \<Longrightarrow> t = s" by blast
qed

lemma quick_craft_spread_unchanged: "quick_craft_spread n s = (False, t) \<Longrightarrow> t = s"
  by (auto simp: quick_craft_spread_def Let_def dest: spread_unchanged split: if_splits prod.splits)

lemma add_target_tracked: "pi_ok s \<Longrightarrow> slot < 46 \<Longrightarrow> tracked s (set_qc_stage n (snd (quick_craft_add_target slot s)))"
  by (auto simp: tracked_def set_qc_stage_def quick_craft_add_target_def pi_ok_def drag_wf_def usize_to_u8_slot Let_def
      pi_get_def split: option.splits)

lemma quick_craft_tracked:
  assumes "pi_ok s" and "slot < 46" and "click_quick_craft slot button s = (False, s')"
  shows "tracked s s'"
proof -
  have add: "tracked s (set_qc_stage n (snd (quick_craft_add_target slot s)))" for n
    using add_target_tracked assms(1,2) by blast
  have "tracked t (t\<lparr>pi_quick_craft := qc_default\<rparr>)" for t by simp
  then have reset: "tracked s ((set_qc_stage n (snd (quick_craft_add_target slot s)))\<lparr>pi_quick_craft := qc_default\<rparr>)" for n
    using add tracked_trans by blast
  show ?thesis
    using assms(3) add reset
    by (auto simp: click_quick_craft_def quick_craft_start_def quick_craft_place_all_def quick_craft_place_half_def
        quick_craft_continue_def Let_def dest!: quick_craft_spread_unchanged
        split: if_splits option.splits prod.splits)
qed

lemma pickup_all_tracked: "click_pickup_all s = (False, s') \<Longrightarrow> s' = s"
  by (auto simp: click_pickup_all_def Let_def dest: pickup_all_unchanged split: if_splits prod.splits)

lemma click_slot_tracked:
  assumes "pi_ok s" and "slot < 46" and "click_slot slot button mode s = (False, s')"
  shows "tracked s s'"
proof -
  have *: "click_pickup slot button s = (False, s') \<Longrightarrow> s' = s"
    "click_swap slot button s = (False, s') \<Longrightarrow> s' = s"
    "click_clone slot button s = (False, s') \<Longrightarrow> s' = s"
    "click_throw slot button s = (False, s') \<Longrightarrow> s' = s"
    by (auto simp: click_pickup_def click_swap_def click_clone_def click_throw_def Let_def split: if_splits)
  show ?thesis
    using assms(3) * quick_move_tracked [OF assms(1)] quick_craft_tracked [OF assms(1,2)] pickup_all_tracked [of s s']
    by (auto simp: click_slot_def split: if_splits)
qed

lemma click_in_step:
  assumes "pi_ok s" and "in_step v s"
  shows "in_step v (snd (apply_click w button mode s))"
proof -
  consider (outside) "snd (apply_click w button mode s) = s" | (marked) t where "snd (apply_click w button mode s) = mark_full_sync t"
    | (quiet) slot t where "slot < 46" "click_slot slot button mode s = (False, t)" "snd (apply_click w button mode s) = t"
  proof (cases "0 \<le> sint w \<and> sint w \<le> 45")
    case True
    then obtain n where n: "n \<le> 45" "w = word_of_nat n" using window_slot_nat by blast
    have idx: "i32_to_usize (window_slot_to_minestom_slot w) = Some (internal_of n)"
      using convert_of_nat(2) [OF n(1)] slots_inverse(3) [OF n(1)] n(2) by simp
    have lt: "internal_of n < 46" using slots_inverse(3) [OF n(1)] by simp
    show ?thesis
    proof (cases "mode \<noteq> CLICK_QUICK_CRAFT \<and> quick_craft_active s")
      case True
      then obtain s1 where s1: "cancel_quick_craft s = (True, s1)" by (auto simp: cancel_quick_craft_def)
      obtain b t where c: "click_slot (internal_of n) button mode s1 = (b, t)" by fastforce
      have "snd (apply_click w button mode s) = mark_full_sync t"
        using \<open>0 \<le> sint w \<and> sint w \<le> 45\<close> True by (simp add: apply_click_def idx s1 c)
      then show ?thesis by (rule that(2))
    next
      case False
      obtain b t where c: "click_slot (internal_of n) button mode s = (b, t)" by fastforce
      show ?thesis
      proof (cases b)
        case True
        have "snd (apply_click w button mode s) = mark_full_sync t"
          using \<open>0 \<le> sint w \<and> sint w \<le> 45\<close> False c True by (simp add: apply_click_def idx if_not_P)
        then show ?thesis by (rule that(2))
      next
        case b: False
        have "snd (apply_click w button mode s) = t"
          using \<open>0 \<le> sint w \<and> sint w \<le> 45\<close> False c b by (simp add: apply_click_def idx if_not_P)
        then show ?thesis using that(3) [OF lt _] c b by simp
      qed
    qed
  qed (use that(1) in \<open>simp add: apply_click_def\<close>)
  then show ?thesis
    by cases (use assms click_slot_tracked tracked_step in \<open>auto simp: marked_step\<close>)
qed

section \<open>The invariant under every click\<close>

lemma spread_keeps_ok:
  assumes "pi_ok s"
  shows "pi_ok (snd (quick_craft_spread n s))"
proof (cases "is_air (pi_cursor s) \<or> n = 0")
  case False
  obtain k ch u where l: "spread_loop (is_material (pi_cursor s)) (qc_targets (pi_quick_craft s)) n False s = (k, ch, u)"
    by (metis prod_cases3)
  have "pi_ok u"
    using spread_moves [OF assms _ l] assms by (simp add: pi_ok_def drag_wf_def)
  then show ?thesis using False l by (simp add: quick_craft_spread_def Let_def)
qed (use assms in \<open>auto simp: quick_craft_spread_def\<close>)

lemma quick_craft_keeps_ok:
  assumes "pi_ok s" and "slot < 46"
  shows "pi_ok (snd (click_quick_craft slot button s))"
proof -
  have start: "pi_ok (snd (quick_craft_start slot s))"
    using assms usize_to_u8_slot [OF assms(2)] by (auto simp: quick_craft_start_def drag_wf_def)
  have "pi_ok (set_qc_stage n (snd (quick_craft_add_target slot s)))" for n
    using add_target_tracked [OF assms] assms(1) by (simp add: tracked_def)
  then have "pi_ok (snd (quick_craft_spread k (set_qc_stage n (snd (quick_craft_add_target slot s)))))" for k n
    by (rule spread_keeps_ok)
  moreover from this have "pi_ok (snd (quick_craft_continue slot s))"
    using assms(1) by (simp add: quick_craft_continue_def Let_def split_beta)
  ultimately show ?thesis
    using start assms(1)
    by (simp add: click_quick_craft_def quick_craft_place_all_def quick_craft_place_half_def Let_def)
qed

lemma click_slot_keeps_ok:
  assumes "pi_ok s" and "slot < 46"
  shows "pi_ok (snd (click_slot slot button mode s))"
proof -
  have "pi_ok (snd (click_pickup slot button s))" "pi_ok (snd (click_swap slot button s))"
    "pi_ok (snd (click_quick_move slot s))" "pi_ok (snd (click_pickup_all s))"
    using pickup_conserves [OF assms] swap_conserves [OF assms] quick_move_conserves [OF assms]
      pickup_all_conserves [OF assms(1)] unfolding conserves_def by blast+
  moreover have "pi_ok (snd (click_throw slot button s))" using throw_loses [OF assms] by blast
  ultimately show ?thesis
    using quick_craft_keeps_ok [OF assms] assms(1) by (simp add: click_slot_def)
qed

lemma rollback_keeps_ok: "pi_ok s \<Longrightarrow> pi_ok (fold (\<lambda>(t, x). pi_set (unat t) x) zs s)"
proof (induction zs arbitrary: s)
  case (Cons z zs)
  have "pi_ok (pi_set (unat (fst z)) (snd z) s)" using Cons.prems by simp
  from Cons.IH [OF this] show ?case by (simp add: split_beta)
qed simp

lemma cancel_keeps_ok: "pi_ok s \<Longrightarrow> pi_ok (snd (cancel_quick_craft s))"
  unfolding cancel_quick_craft_def
  by (cases "quick_craft_active s") (auto intro: quick_craft_ok rollback_keeps_ok)

lemma mark_keeps_ok [simp]: "pi_ok (mark_full_sync s) = pi_ok s"
  by (simp add: mark_full_sync_def)

lemma click_keeps_ok:
  assumes "pi_ok s"
  shows "pi_ok (snd (apply_click w button mode s))"
proof (cases "0 \<le> sint w \<and> sint w \<le> 45")
  case True
  then obtain n where n: "n \<le> 45" "w = word_of_nat n" using window_slot_nat by blast
  have idx: "i32_to_usize (window_slot_to_minestom_slot w) = Some (internal_of n)" "internal_of n < 46"
    using convert_of_nat(2) [OF n(1)] slots_inverse(3) [OF n(1)] n(2) by simp_all
  have "pi_ok (snd (click_slot (internal_of n) button mode t))" if "pi_ok t" for t
    using click_slot_keeps_ok that idx(2) by blast
  then have "pi_ok (snd (click_slot (internal_of n) button mode
      (snd (if mode \<noteq> CLICK_QUICK_CRAFT \<and> quick_craft_active s then cancel_quick_craft s else (False, s)))))"
    using cancel_keeps_ok [OF assms] assms by (cases "mode \<noteq> CLICK_QUICK_CRAFT \<and> quick_craft_active s") simp_all
  then show ?thesis
    using True unfolding apply_click_def idx(1) by (simp add: Let_def split_beta)
qed (use assms in \<open>auto simp: apply_click_def\<close>)

section \<open>The other operations\<close>

lemma add_merge_tracked: "pi_ok s \<Longrightarrow> tracked s (snd (add_merge is todo s))"
proof (induction "is" arbitrary: todo s)
  case (Cons d ds)
  show ?case
    using Cons.prems by (auto simp: Let_def intro!: tracked_trans [OF tracked_set Cons.IH] Cons.IH simp: sat_add_pos)
qed simp

lemma add_fill_tracked: "pi_ok s \<Longrightarrow> tracked s (snd (add_fill is todo s))"
proof (induction "is" arbitrary: todo s)
  case (Cons d ds)
  show ?case
    using Cons.prems by (auto simp: Let_def intro!: tracked_trans [OF tracked_set Cons.IH] Cons.IH)
qed simp

lemma add_tracked:
  assumes "pi_ok s"
  shows "tracked s (snd (add_item item s))"
proof -
  have "tracked s (snd (add_merge [0..<46] item s))" by (rule add_merge_tracked [OF assms])
  moreover from this have "pi_ok (snd (add_merge [0..<46] item s))" using assms by (simp add: tracked_def)
  ultimately show ?thesis
    using tracked_trans [OF _ add_fill_tracked] by (simp add: add_item_def split_beta)
qed

lemma hold_tracked: "tracked s (snd (set_held_slot slot s))"
  by (auto simp: set_held_slot_def tracked_def pi_get_def)

lemma consume_tracked:
  assumes "pi_ok s" and "is_amount (pi_get (unat slot) s) \<noteq> 1"
  shows "tracked s (snd (consume_item slot s))"
proof (cases "is_air (pi_get (unat slot) s)")
  case False
  then have "1 < is_amount (pi_get (unat slot) s)"
    using assms(2) by (simp add: is_air_def word_less_nat_alt word_unat_eq_iff)
  then have "\<not> is_air ((pi_get (unat slot) s)\<lparr>is_amount := sat_sub (is_amount (pi_get (unat slot) s)) 1\<rparr>)"
    by (simp add: is_air_amount word_less_nat_alt)
  then show ?thesis using assms(1)
    by (auto simp: consume_item_def Let_def \<open>1 < _\<close> intro!: tracked_set)
qed (auto simp: consume_item_def Let_def)

text \<open>Closing a window while nothing is being dragged.\<close>

lemma close_in_step: "in_step v s \<Longrightarrow> \<not> quick_craft_active s \<or> \<not> is_air (pi_cursor (snd (cancel_quick_craft s))) \<Longrightarrow>
   in_step v (snd (drop_cursor s))"
  by (auto simp: drop_cursor_def Let_def marked_step split: prod.splits)

lemma drop_keeps_ok: "pi_ok s \<Longrightarrow> pi_ok (snd (drop_cursor s))"
  using cancel_keeps_ok [of s] by (auto simp: drop_cursor_def Let_def split: prod.splits)

section \<open>A whole session\<close>

datatype inv_event =
    EvClick i32 i8 i32
  | EvAdd item_stack
  | EvHold u8
  | EvConsume u8
  | EvClose
  | EvSync

text \<open>The events the design provides for: an item is not consumed to its end, and a window is not closed
  in the middle of a drag that has emptied the cursor.\<close>

definition provided :: "player_inventory \<Rightarrow> inv_event \<Rightarrow> bool" where
  "provided s ev =
     (case ev of
        EvConsume slot \<Rightarrow> is_amount (pi_get (unat slot) s) \<noteq> 1
      | EvClose \<Rightarrow> \<not> quick_craft_active s \<or> \<not> is_air (pi_cursor (snd (cancel_quick_craft s)))
      | _ \<Rightarrow> True)"

fun play :: "(u8 set \<Rightarrow> u8 list) \<Rightarrow> inv_event \<Rightarrow> client_view \<times> player_inventory \<Rightarrow> client_view \<times> player_inventory" where
  "play order (EvClick w button mode) (v, s) = (v, snd (apply_click w button mode s))"
| "play order (EvAdd item) (v, s) = (v, snd (add_item item s))"
| "play order (EvHold slot) (v, s) = (v, snd (set_held_slot slot s))"
| "play order (EvConsume slot) (v, s) = (v, snd (consume_item slot s))"
| "play order EvClose (v, s) = (v, snd (drop_cursor s))"
| "play order EvSync (v, s) = (case sync_player order 0 s of (ps, s') \<Rightarrow> (fold receive ps v, s'))"

fun all_provided :: "(u8 set \<Rightarrow> u8 list) \<Rightarrow> inv_event list \<Rightarrow> client_view \<times> player_inventory \<Rightarrow> bool" where
  "all_provided order [] vs = True"
| "all_provided order (ev # evs) vs = (provided (snd vs) ev \<and> all_provided order evs (play order ev vs))"

definition enumerates :: "(u8 set \<Rightarrow> u8 list) \<Rightarrow> bool" where
  "enumerates order \<longleftrightarrow> (\<forall>D. set (order D) = D)"

lemma displays_in_step: "displays v s \<Longrightarrow> in_step v s"
  by (simp add: displays_def in_step_def)

lemma play_in_step:
  assumes "enumerates order" and "in_step v s" and "pi_ok s" and "provided s ev" and "play order ev (v, s) = (v', s')"
  shows "in_step v' s' \<and> pi_ok s'"
proof (cases ev)
  case (EvClick w button mode)
  then show ?thesis using assms click_in_step click_keeps_ok by auto
next
  case (EvAdd item)
  then show ?thesis using assms add_tracked [OF assms(3), of item] tracked_step [OF assms(2)] by (auto simp: tracked_def)
next
  case (EvHold slot)
  then show ?thesis using assms hold_tracked [of s slot] tracked_step [OF assms(2)] by (auto simp: tracked_def)
next
  case (EvConsume slot)
  then have "tracked s s'" using assms consume_tracked by (auto simp: provided_def)
  then show ?thesis using assms tracked_step EvConsume by (auto simp: tracked_def)
next
  case EvClose
  then show ?thesis using assms close_in_step drop_keeps_ok by (auto simp: provided_def)
next
  case EvSync
  then obtain ps where ps: "sync_player order 0 s = (ps, s')" "v' = fold receive ps v"
    using assms(5) by (auto split: prod.splits)
  have "lists_dirty order s" using assms(1) by (simp add: enumerates_def lists_dirty_def)
  then have "displays v' s'" using sync_catches_up [OF assms(2) _ ps(1)] ps(2) by simp
  then show ?thesis using displays_in_step sync_player_state [OF ps(1)] assms(3) by blast
qed

lemma session_in_step:
  "enumerates order \<Longrightarrow> in_step v s \<Longrightarrow> pi_ok s \<Longrightarrow> all_provided order evs (v, s) \<Longrightarrow>
   fold (play order) evs (v, s) = (v', s') \<Longrightarrow> in_step v' s' \<and> pi_ok s'"
proof (induction evs arbitrary: v s)
  case (Cons ev evs)
  obtain v1 s1 where p: "play order ev (v, s) = (v1, s1)" by fastforce
  then have "in_step v1 s1 \<and> pi_ok s1" using play_in_step [OF Cons.prems(1-3) _ p] Cons.prems(4) by simp
  then show ?case using Cons.IH [OF Cons.prems(1), of v1 s1] Cons.prems(4,5) p by simp
qed simp

lemma session_ends_displayed:
  assumes "enumerates order" and "in_step v s" and "pi_ok s" and "all_provided order evs (v, s)"
    and "fold (play order) (evs @ [EvSync]) (v, s) = (v', s')"
  shows "displays v' s'"
proof -
  obtain v1 s1 where p: "fold (play order) evs (v, s) = (v1, s1)" by fastforce
  then have step: "in_step v1 s1" using session_in_step [OF assms(1-4)] by blast
  obtain ps where ps: "sync_player order 0 s1 = (ps, s')" "v' = fold receive ps v1"
    using assms(5) p by (auto split: prod.splits)
  have "lists_dirty order s1" using assms(1) by (simp add: enumerates_def lists_dirty_def)
  then show ?thesis using sync_catches_up [OF step _ ps(1)] ps(2) by simp
qed

text \<open>The login: a new inventory asks for everything, whatever the client shows.\<close>

lemma login_in_step: "in_step v pi_new" "pi_ok pi_new"
  by (simp_all add: in_step_def pi_new_def pi_ok_def)

section \<open>The two gaps\<close>

text \<open>The last item of a stack: the slot becomes air, which is not marked, and the synchronisation says
  nothing about it.\<close>

lemma last_item_stays_visible:
  assumes "displays v s" and "pi_ok s" and "pi_dirty s = {}" and "\<not> pi_full_sync s" and "slot < 46"
    and "is_amount (pi_get slot s) = 1" and "sync_player order c (snd (consume_item (word_of_nat slot) s)) = (ps, s')"
    and "order {} = []"
  shows "is_air (pi_get slot s') \<and> view_slot (window_of slot) (fold receive ps v) = pi_get slot s"
proof -
  have u: "unat (word_of_nat slot :: u8) = slot" using usize_to_u8_slot [OF assms(5)] by blast
  have air: "\<not> is_air (pi_get slot s)" using assms(6) by (simp add: is_air_def)
  have t: "snd (consume_item (word_of_nat slot) s) = pi_set slot AIR s"
    using air assms(5,6) by (simp add: consume_item_def Let_def u)
  have dirty: "pi_dirty (pi_set slot AIR s) = {}" "\<not> pi_full_sync (pi_set slot AIR s)"
    using assms(3,4) by (simp_all add: pi_set_def Let_def is_air_def AIR_def)
  then have "fold receive ps v = v"
    using assms(7,8) unfolding t by (auto simp: sync_player_def Let_def equipment_view split: if_splits)
  moreover have "pi_get slot s' = AIR"
    using sync_player_state [OF assms(7)] assms(2,5) by (simp add: t get_set)
  moreover have "view_slot (window_of slot) v = pi_get slot s"
    using assms(1,5) air by (auto simp: displays_def same_item_def)
  ultimately show ?thesis by (simp add: is_air_def AIR_def)
qed

text \<open>A drag over the first slot of the hotbar, and what giving it up does.\<close>

lemma window_36: "i32_to_usize (window_slot_to_minestom_slot 36) = Some 0"
  "i32_to_usize (window_slot_to_minestom_slot 9) = Some 9"
  by (simp_all add: window_slot_to_minestom_slot_def i32_to_usize_def)

lemma drag_start:
  assumes "\<not> is_air (pi_cursor s)"
  shows "snd (apply_click 36 0 CLICK_QUICK_CRAFT s)
    = mark_full_sync (s\<lparr>pi_quick_craft := \<lparr>qc_stage = 0, qc_targets = [0], qc_snapshot = [pi_get 0 s]\<rparr>\<rparr>)"
  using assms unfolding apply_click_def window_36
  by (simp add: click_slot_def click_modes click_quick_craft_def quick_craft_start_def usize_to_u8_def)

lemma spread_one:
  assumes "pi_get 0 s = AIR" and "pi_cursor s = item_new m n" and "n \<noteq> 0" and "n \<le> 64"
    and "qc_targets (pi_quick_craft s) = [0]"
  shows "quick_craft_spread n s = (True, (pi_set 0 (item_new m n) s)\<lparr>pi_cursor := AIR\<rparr>)"
proof -
  have 1: "min (sat_sub (max_stack AIR) (is_amount AIR)) n = n"
    using assms(4) by (simp add: max_stack_def AIR_def ic_EMPTY_def ic_max_stack_size_def ic_get_def MAX_STACK_def
        sat_sub_def min_def get_entry.simps)
  have 2: "is_amount (pi_cursor s) = n" "is_material (pi_cursor s) = m" "\<not> is_air (pi_cursor s)"
    using assms(2,3) by (simp_all add: item_new_def is_air_def)
  have 3: "is_air AIR" by (simp add: is_air_def AIR_def)
  have 4: "sat_sub n n = 0" by (simp add: sat_sub_def)
  have "spread_loop m [0] n False s = (0, True, pi_set 0 (item_new m n) s)"
    using assms(1,3) by (simp add: Let_def 1 3 4)
  then show ?thesis using 2 assms(3,5) by (simp add: quick_craft_spread_def Let_def 4)
qed

lemma drag_place:
  assumes "pi_get 0 s = AIR" and "pi_cursor s = item_new m n" and "n \<noteq> 0" and "n \<le> 64"
    and "pi_quick_craft s = \<lparr>qc_stage = 0, qc_targets = [0], qc_snapshot = [AIR]\<rparr>"
  shows "snd (apply_click 36 1 CLICK_QUICK_CRAFT s)
    = mark_full_sync ((pi_set 0 (item_new m n) (set_qc_stage 1 s))\<lparr>pi_cursor := AIR\<rparr>)"
proof -
  have add: "snd (quick_craft_add_target 0 s) = s"
    using assms(5) by (simp add: quick_craft_add_target_def usize_to_u8_def)
  have spread: "quick_craft_spread n (set_qc_stage 1 s) = (True, (pi_set 0 (item_new m n) (set_qc_stage 1 s))\<lparr>pi_cursor := AIR\<rparr>)"
    by (rule spread_one) (use assms in \<open>simp_all add: set_qc_stage_def\<close>)
  have n: "is_amount (pi_cursor s) = n" using assms(2,3) by (simp add: item_new_def)
  show ?thesis unfolding apply_click_def window_36
    using add spread n assms(5)
    by (simp add: click_slot_def click_modes click_quick_craft_def quick_craft_place_all_def quick_craft_active_def Let_def)
qed

lemma unfinished_drag:
  assumes "pi_ok s" and "pi_get 0 s = AIR" and "pi_cursor s = item_new m n" and "n \<noteq> 0" and "n \<le> 64"
  defines "placed \<equiv> snd (apply_click 36 1 CLICK_QUICK_CRAFT (snd (apply_click 36 0 CLICK_QUICK_CRAFT s)))"
  shows "pi_get 0 placed = item_new m n" and "pi_get i (snd (drop_cursor placed)) = pi_get i s"
    and "pi_cursor (snd (drop_cursor placed)) = AIR" and "pi_full_sync (snd (drop_cursor placed)) = True"
proof -
  define t where "t = mark_full_sync (s\<lparr>pi_quick_craft := \<lparr>qc_stage = 0, qc_targets = [0], qc_snapshot = [AIR]\<rparr>\<rparr>)"
  have "\<not> is_air (pi_cursor s)" using assms(3,4) by (simp add: item_new_air)
  from drag_start [OF this] have t: "snd (apply_click 36 0 CLICK_QUICK_CRAFT s) = t" by (simp add: t_def assms(2))
  have t_facts: "pi_get i t = pi_get i s" "pi_cursor t = pi_cursor s"
    "pi_quick_craft t = \<lparr>qc_stage = 0, qc_targets = [0], qc_snapshot = [AIR]\<rparr>" "pi_ok t" for i
    using assms(1) by (simp_all add: t_def mark_full_sync_def pi_ok_def drag_wf_def)
  have placed: "placed = mark_full_sync ((pi_set 0 (item_new m n) (set_qc_stage 1 t))\<lparr>pi_cursor := AIR\<rparr>)"
    unfolding placed_def t by (rule drag_place) (use assms t_facts in simp_all)
  have ok: "pi_ok (set_qc_stage 1 t)" using t_facts(4) by simp
  have p_get: "pi_get i placed = (if i = 0 then item_new m n else pi_get i s)" for i
    by (simp add: placed mark_full_sync_def get_set [OF ok] t_facts)
  then show "pi_get 0 placed = item_new m n" by simp
  have p_qc: "qc_targets (pi_quick_craft placed) = [0]" "qc_snapshot (pi_quick_craft placed) = [AIR]"
    "pi_cursor placed = AIR" "pi_ok placed" "pi_full_sync placed"
    using ok by (simp_all add: placed mark_full_sync_def set_qc_stage_def t_facts)
  have drop: "snd (drop_cursor placed) = (pi_set 0 AIR placed)\<lparr>pi_quick_craft := qc_default\<rparr>"
    using p_qc by (simp add: drop_cursor_def cancel_quick_craft_def quick_craft_active_def is_air_def AIR_def)
  show "pi_get i (snd (drop_cursor placed)) = pi_get i s"
    using p_get p_qc(4) assms(2) by (simp add: drop get_set)
  show "pi_cursor (snd (drop_cursor placed)) = AIR" using p_qc by (simp add: drop)
  show "pi_full_sync (snd (drop_cursor placed)) = True" using p_qc by (simp add: drop)
qed

text \<open>An item used up during the drag is back after it.\<close>

lemma used_during_drag:
  assumes "pi_ok s" and "1 < is_amount (pi_get 0 s)" and "\<not> is_air (pi_cursor s)" and "is_air (pi_get 9 s)"
  defines "used \<equiv> snd (consume_item 0 (snd (apply_click 36 0 CLICK_QUICK_CRAFT s)))"
  defines "back \<equiv> snd (apply_click 9 0 CLICK_THROW used)"
  shows "pi_get 0 used = (pi_get 0 s)\<lparr>is_amount := is_amount (pi_get 0 s) - 1\<rparr>"
    and "pi_get i back = pi_get i s" and "pi_cursor back = pi_cursor s"
proof -
  define t where "t = mark_full_sync (s\<lparr>pi_quick_craft := \<lparr>qc_stage = 0, qc_targets = [0], qc_snapshot = [pi_get 0 s]\<rparr>\<rparr>)"
  have t_facts: "pi_get i t = pi_get i s" "pi_cursor t = pi_cursor s" "pi_ok t"
    "qc_targets (pi_quick_craft t) = [0]" "qc_snapshot (pi_quick_craft t) = [pi_get 0 s]" for i
    using assms(1) by (simp_all add: t_def mark_full_sync_def pi_ok_def drag_wf_def)
  let ?x = "(pi_get 0 s)\<lparr>is_amount := sat_sub (is_amount (pi_get 0 s)) 1\<rparr>"
  have nonair: "\<not> is_air (pi_get 0 s)" using assms(2) by (auto simp: is_air_def)
  have used: "used = pi_set 0 ?x t"
    using assms(2) nonair by (simp add: used_def drag_start [OF assms(3)] t_def [symmetric] consume_item_def t_facts Let_def)
  have one: "sat_sub (is_amount (pi_get 0 s)) 1 = is_amount (pi_get 0 s) - 1"
    using assms(2) by (simp add: sat_sub_def word_le_nat_alt word_less_nat_alt)
  show "pi_get 0 used = (pi_get 0 s)\<lparr>is_amount := is_amount (pi_get 0 s) - 1\<rparr>"
    by (simp add: used get_set [OF t_facts(3)] one)
  have u: "qc_targets (pi_quick_craft used) = [0]" "qc_snapshot (pi_quick_craft used) = [pi_get 0 s]" "pi_ok used"
    "pi_cursor used = pi_cursor s"
    using t_facts by (simp_all add: used)
  have cancel: "cancel_quick_craft used = (True, (pi_set 0 (pi_get 0 s) used)\<lparr>pi_quick_craft := qc_default\<rparr>)"
    using u by (simp add: cancel_quick_craft_def quick_craft_active_def)
  have get: "pi_get i (pi_set 0 (pi_get 0 s) used) = pi_get i s" for i
    using t_facts u(3) by (simp add: get_set used)
  have throw: "click_throw 9 0 ((pi_set 0 (pi_get 0 s) used)\<lparr>pi_quick_craft := qc_default\<rparr>)
      = (False, (pi_set 0 (pi_get 0 s) used)\<lparr>pi_quick_craft := qc_default\<rparr>)"
    using assms(4) by (simp add: click_throw_def get)
  have "back = mark_full_sync ((pi_set 0 (pi_get 0 s) used)\<lparr>pi_quick_craft := qc_default\<rparr>)"
    unfolding back_def apply_click_def window_36
    using cancel throw u(1) by (simp add: click_slot_def click_modes quick_craft_active_def)
  then show "pi_get i back = pi_get i s" "pi_cursor back = pi_cursor s"
    using get u by (simp_all add: mark_full_sync_def)
qed

end
