(* ===== verification/Packets_Client_C.thy ===== *)
theory Packets_Client_C
  imports Client_Codec
begin

text \<open>
  Clientbound packets of the play phase, third part (\<open>protocol/packets/play.rs\<close>): chat, combat, respawn,
  borders, titles, scoreboards, boss bars, advancements and dialogs.
\<close>

record game_test_highlight_pos =
  gthp_position :: "i32 \<times> i32 \<times> i32"
  gthp_solid :: bool
  gthp_red :: i32
  gthp_green :: i32
  gthp_blue :: i32
  gthp_alpha :: i32

definition game_test_highlight_pos_id :: i32 where "game_test_highlight_pos_id = 0x27"

definition game_test_highlight_pos_decode :: "game_test_highlight_pos io" where
  "game_test_highlight_pos_decode =
     bindE get_position (\<lambda>position.
     bindE get_bool (\<lambda>solid.
     bindE get_varint (\<lambda>red.
     bindE get_varint (\<lambda>green.
     bindE get_varint (\<lambda>blue.
     bindE get_varint (\<lambda>alpha.
     ret \<lparr>gthp_position = position, gthp_solid = solid, gthp_red = red,
        gthp_green = green, gthp_blue = blue, gthp_alpha = alpha\<rparr>))))))"

definition game_test_highlight_pos_encode :: "game_test_highlight_pos \<Rightarrow> unit io" where
  "game_test_highlight_pos_encode p =
    seqE (put_position (gthp_position p))
    (seqE (put_bool (gthp_solid p))
    (seqE (put_varint (gthp_red p))
    (seqE (put_varint (gthp_green p))
    (seqE (put_varint (gthp_blue p))
    (seqE (put_varint (gthp_alpha p)) put_end)))))"

definition wf_game_test_highlight_pos :: "game_test_highlight_pos \<Rightarrow> bool" where
  "wf_game_test_highlight_pos p \<longleftrightarrow> wf_position (gthp_position p)"

interpretation game_test_highlight_pos: packet_codec game_test_highlight_pos_encode game_test_highlight_pos_decode wf_game_test_highlight_pos
  by unfold_locales
     (auto simp: game_test_highlight_pos_encode_def game_test_highlight_pos_decode_def wf_game_test_highlight_pos_def packet_wf intro!: carries_rules safe_rules)

record open_horse_window =
  ohw_window_id :: i8
  ohw_slot_count :: i32
  ohw_entity_id :: i32

definition open_horse_window_id :: i32 where "open_horse_window_id = 0x28"

definition open_horse_window_decode :: "open_horse_window io" where
  "open_horse_window_decode =
     bindE get_i8 (\<lambda>window_id.
     bindE get_varint (\<lambda>slot_count.
     bindE get_varint (\<lambda>entity_id.
     ret \<lparr>ohw_window_id = window_id, ohw_slot_count = slot_count,
        ohw_entity_id = entity_id\<rparr>)))"

definition open_horse_window_encode :: "open_horse_window \<Rightarrow> unit io" where
  "open_horse_window_encode p =
    seqE (put_i8 (ohw_window_id p))
    (seqE (put_varint (ohw_slot_count p))
    (seqE (put_varint (ohw_entity_id p)) put_end))"

definition wf_open_horse_window :: "open_horse_window \<Rightarrow> bool" where
  "wf_open_horse_window p \<longleftrightarrow> True"

interpretation open_horse_window: packet_codec open_horse_window_encode open_horse_window_decode wf_open_horse_window
  by unfold_locales
     (auto simp: open_horse_window_encode_def open_horse_window_decode_def wf_open_horse_window_def packet_wf intro!: carries_rules safe_rules)

record initialize_world_border =
  iwb_x :: f64
  iwb_z :: f64
  iwb_old_diameter :: f64
  iwb_new_diameter :: f64
  iwb_speed :: i64
  iwb_portal_teleport_boundary :: i32
  iwb_warning_blocks :: i32
  iwb_warning_time :: i32

definition initialize_world_border_id :: i32 where "initialize_world_border_id = 0x2a"

definition initialize_world_border_decode :: "initialize_world_border io" where
  "initialize_world_border_decode =
     bindE get_f64 (\<lambda>x.
     bindE get_f64 (\<lambda>z.
     bindE get_f64 (\<lambda>old_diameter.
     bindE get_f64 (\<lambda>new_diameter.
     bindE get_varlong (\<lambda>speed.
     bindE get_varint (\<lambda>portal_teleport_boundary.
     bindE get_varint (\<lambda>warning_blocks.
     bindE get_varint (\<lambda>warning_time.
     ret \<lparr>iwb_x = x, iwb_z = z, iwb_old_diameter = old_diameter,
        iwb_new_diameter = new_diameter, iwb_speed = speed,
        iwb_portal_teleport_boundary = portal_teleport_boundary,
        iwb_warning_blocks = warning_blocks, iwb_warning_time = warning_time\<rparr>))))))))"

definition initialize_world_border_encode :: "initialize_world_border \<Rightarrow> unit io" where
  "initialize_world_border_encode p =
    seqE (put_f64 (iwb_x p))
    (seqE (put_f64 (iwb_z p))
    (seqE (put_f64 (iwb_old_diameter p))
    (seqE (put_f64 (iwb_new_diameter p))
    (seqE (put_varlong (iwb_speed p))
    (seqE (put_varint (iwb_portal_teleport_boundary p))
    (seqE (put_varint (iwb_warning_blocks p))
    (seqE (put_varint (iwb_warning_time p)) put_end)))))))"

definition wf_initialize_world_border :: "initialize_world_border \<Rightarrow> bool" where
  "wf_initialize_world_border p \<longleftrightarrow> True"

interpretation initialize_world_border: packet_codec initialize_world_border_encode initialize_world_border_decode wf_initialize_world_border
  by unfold_locales
     (auto simp: initialize_world_border_encode_def initialize_world_border_decode_def wf_initialize_world_border_def packet_wf intro!: carries_rules safe_rules)

record clientbound_keep_alive =
  cka_keep_alive_id :: i64

definition clientbound_keep_alive_id :: i32 where "clientbound_keep_alive_id = 0x2b"

definition clientbound_keep_alive_decode :: "clientbound_keep_alive io" where
  "clientbound_keep_alive_decode =
     bindE get_varlong (\<lambda>keep_alive_id.
     ret \<lparr>cka_keep_alive_id = keep_alive_id\<rparr>)"

definition clientbound_keep_alive_encode :: "clientbound_keep_alive \<Rightarrow> unit io" where
  "clientbound_keep_alive_encode p =
    seqE (put_varlong (cka_keep_alive_id p)) put_end"

definition wf_clientbound_keep_alive :: "clientbound_keep_alive \<Rightarrow> bool" where
  "wf_clientbound_keep_alive p \<longleftrightarrow> True"

interpretation clientbound_keep_alive: packet_codec clientbound_keep_alive_encode clientbound_keep_alive_decode wf_clientbound_keep_alive
  by unfold_locales
     (auto simp: clientbound_keep_alive_encode_def clientbound_keep_alive_decode_def wf_clientbound_keep_alive_def packet_wf intro!: carries_rules safe_rules)

record map_data =
  mada_map_id :: i32
  mada_scale :: i8
  mada_locked :: bool
  mada_columns :: i8
  mada_rows :: i8
  mada_data :: "u8 list"

definition map_data_id :: i32 where "map_data_id = 0x31"

definition map_data_decode :: "map_data io" where
  "map_data_decode =
     bindE get_varint (\<lambda>map_id.
     bindE get_i8 (\<lambda>scale.
     bindE get_bool (\<lambda>locked.
     bindE get_varint (\<lambda>icons_count.
     bindE get_i8 (\<lambda>columns.
     bindE get_i8 (\<lambda>rows.
     bindE get_byte_array (\<lambda>data.
     ret \<lparr>mada_map_id = map_id, mada_scale = scale, mada_locked = locked, mada_columns = columns,
        mada_rows = rows, mada_data = data\<rparr>)))))))"

definition map_data_encode :: "map_data \<Rightarrow> unit io" where
  "map_data_encode p =
    seqE (put_varint (mada_map_id p))
    (seqE (put_i8 (mada_scale p))
    (seqE (put_bool (mada_locked p))
    (seqE (put_varint 0)
    (seqE (put_i8 (mada_columns p))
    (seqE (put_i8 (mada_rows p))
    (seqE (put_byte_array (mada_data p)) put_end))))))"

definition wf_map_data :: "map_data \<Rightarrow> bool" where
  "wf_map_data p \<longleftrightarrow> wf_bytes (mada_data p)"

interpretation map_data: packet_codec map_data_encode map_data_decode wf_map_data
  by unfold_locales
     (auto simp: map_data_encode_def map_data_decode_def wf_map_data_def packet_wf intro!: carries_rules safe_rules)

record trade_list =
  tl_window_id :: i32
  tl_trades :: "u8 list"
  tl_villager_level :: i32
  tl_experience :: i32
  tl_is_regular_villager :: bool
  tl_can_restock :: bool

definition trade_list_id :: i32 where "trade_list_id = 0x32"

definition trade_list_decode :: "trade_list io" where
  "trade_list_decode =
     bindE get_varint (\<lambda>window_id.
     bindE get_byte_array (\<lambda>trades.
     bindE get_varint (\<lambda>villager_level.
     bindE get_varint (\<lambda>experience.
     bindE get_bool (\<lambda>is_regular_villager.
     bindE get_bool (\<lambda>can_restock.
     ret \<lparr>tl_window_id = window_id, tl_trades = trades,
        tl_villager_level = villager_level, tl_experience = experience,
        tl_is_regular_villager = is_regular_villager, tl_can_restock = can_restock\<rparr>))))))"

definition trade_list_encode :: "trade_list \<Rightarrow> unit io" where
  "trade_list_encode p =
    seqE (put_varint (tl_window_id p))
    (seqE (put_byte_array (tl_trades p))
    (seqE (put_varint (tl_villager_level p))
    (seqE (put_varint (tl_experience p))
    (seqE (put_bool (tl_is_regular_villager p))
    (seqE (put_bool (tl_can_restock p)) put_end)))))"

definition wf_trade_list :: "trade_list \<Rightarrow> bool" where
  "wf_trade_list p \<longleftrightarrow> wf_bytes (tl_trades p)"

interpretation trade_list: packet_codec trade_list_encode trade_list_decode wf_trade_list
  by unfold_locales
     (auto simp: trade_list_encode_def trade_list_decode_def wf_trade_list_def packet_wf intro!: carries_rules safe_rules)

record move_minecart =
  mm_entity_id :: i32
  mm_x :: f64
  mm_y :: f64
  mm_z :: f64

definition move_minecart_id :: i32 where "move_minecart_id = 0x35"

definition move_minecart_decode :: "move_minecart io" where
  "move_minecart_decode =
     bindE get_varint (\<lambda>entity_id.
     bindE get_f64 (\<lambda>x.
     bindE get_f64 (\<lambda>y.
     bindE get_f64 (\<lambda>z.
     ret \<lparr>mm_entity_id = entity_id, mm_x = x, mm_y = y, mm_z = z\<rparr>))))"

definition move_minecart_encode :: "move_minecart \<Rightarrow> unit io" where
  "move_minecart_encode p =
    seqE (put_varint (mm_entity_id p))
    (seqE (put_f64 (mm_x p))
    (seqE (put_f64 (mm_y p))
    (seqE (put_f64 (mm_z p)) put_end)))"

definition wf_move_minecart :: "move_minecart \<Rightarrow> bool" where
  "wf_move_minecart p \<longleftrightarrow> True"

interpretation move_minecart: packet_codec move_minecart_encode move_minecart_decode wf_move_minecart
  by unfold_locales
     (auto simp: move_minecart_encode_def move_minecart_decode_def wf_move_minecart_def packet_wf intro!: carries_rules safe_rules)

record clientbound_vehicle_move =
  cvm_x :: f64
  cvm_y :: f64
  cvm_z :: f64
  cvm_yaw :: f32
  cvm_pitch :: f32

definition clientbound_vehicle_move_id :: i32 where "clientbound_vehicle_move_id = 0x37"

definition clientbound_vehicle_move_decode :: "clientbound_vehicle_move io" where
  "clientbound_vehicle_move_decode =
     bindE get_f64 (\<lambda>x.
     bindE get_f64 (\<lambda>y.
     bindE get_f64 (\<lambda>z.
     bindE get_f32 (\<lambda>yaw.
     bindE get_f32 (\<lambda>pitch.
     ret \<lparr>cvm_x = x, cvm_y = y, cvm_z = z, cvm_yaw = yaw, cvm_pitch = pitch\<rparr>)))))"

definition clientbound_vehicle_move_encode :: "clientbound_vehicle_move \<Rightarrow> unit io" where
  "clientbound_vehicle_move_encode p =
    seqE (put_f64 (cvm_x p))
    (seqE (put_f64 (cvm_y p))
    (seqE (put_f64 (cvm_z p))
    (seqE (put_f32 (cvm_yaw p))
    (seqE (put_f32 (cvm_pitch p)) put_end))))"

definition wf_clientbound_vehicle_move :: "clientbound_vehicle_move \<Rightarrow> bool" where
  "wf_clientbound_vehicle_move p \<longleftrightarrow> True"

interpretation clientbound_vehicle_move: packet_codec clientbound_vehicle_move_encode clientbound_vehicle_move_decode wf_clientbound_vehicle_move
  by unfold_locales
     (auto simp: clientbound_vehicle_move_encode_def clientbound_vehicle_move_decode_def wf_clientbound_vehicle_move_def packet_wf intro!: carries_rules safe_rules)

record open_book =
  ob_hand :: i32

definition open_book_id :: i32 where "open_book_id = 0x38"

definition open_book_decode :: "open_book io" where
  "open_book_decode =
     bindE get_varint (\<lambda>hand.
     ret \<lparr>ob_hand = hand\<rparr>)"

definition open_book_encode :: "open_book \<Rightarrow> unit io" where
  "open_book_encode p =
    seqE (put_varint (ob_hand p)) put_end"

definition wf_open_book :: "open_book \<Rightarrow> bool" where
  "wf_open_book p \<longleftrightarrow> True"

interpretation open_book: packet_codec open_book_encode open_book_decode wf_open_book
  by unfold_locales
     (auto simp: open_book_encode_def open_book_decode_def wf_open_book_def packet_wf intro!: carries_rules safe_rules)

record open_window =
  ow_window_id :: i32
  ow_window_type :: i32
  ow_title :: rstring

definition open_window_id :: i32 where "open_window_id = 0x39"

definition open_window_decode :: "open_window io" where
  "open_window_decode =
     bindE get_varint (\<lambda>window_id.
     bindE get_varint (\<lambda>window_type.
     bindE get_string (\<lambda>title.
     ret \<lparr>ow_window_id = window_id, ow_window_type = window_type, ow_title = title\<rparr>)))"

definition open_window_encode :: "open_window \<Rightarrow> unit io" where
  "open_window_encode p =
    seqE (put_varint (ow_window_id p))
    (seqE (put_varint (ow_window_type p))
    (seqE (put_string (ow_title p)) put_end))"

definition wf_open_window :: "open_window \<Rightarrow> bool" where
  "wf_open_window p \<longleftrightarrow> wf_string (ow_title p)"

interpretation open_window: packet_codec open_window_encode open_window_decode wf_open_window
  by unfold_locales
     (auto simp: open_window_encode_def open_window_decode_def wf_open_window_def packet_wf intro!: carries_rules safe_rules)

record open_sign_editor =
  ose_position :: "i32 \<times> i32 \<times> i32"

definition open_sign_editor_id :: i32 where "open_sign_editor_id = 0x3a"

definition open_sign_editor_decode :: "open_sign_editor io" where
  "open_sign_editor_decode =
     bindE get_position (\<lambda>position.
     ret \<lparr>ose_position = position\<rparr>)"

definition open_sign_editor_encode :: "open_sign_editor \<Rightarrow> unit io" where
  "open_sign_editor_encode p =
    seqE (put_position (ose_position p)) put_end"

definition wf_open_sign_editor :: "open_sign_editor \<Rightarrow> bool" where
  "wf_open_sign_editor p \<longleftrightarrow> wf_position (ose_position p)"

interpretation open_sign_editor: packet_codec open_sign_editor_encode open_sign_editor_decode wf_open_sign_editor
  by unfold_locales
     (auto simp: open_sign_editor_encode_def open_sign_editor_decode_def wf_open_sign_editor_def packet_wf intro!: carries_rules safe_rules)

record clientbound_ping =
  cp_id :: i32

definition clientbound_ping_id :: i32 where "clientbound_ping_id = 0x3b"

definition clientbound_ping_decode :: "clientbound_ping io" where
  "clientbound_ping_decode =
     bindE get_varint (\<lambda>id.
     ret \<lparr>cp_id = id\<rparr>)"

definition clientbound_ping_encode :: "clientbound_ping \<Rightarrow> unit io" where
  "clientbound_ping_encode p =
    seqE (put_varint (cp_id p)) put_end"

definition wf_clientbound_ping :: "clientbound_ping \<Rightarrow> bool" where
  "wf_clientbound_ping p \<longleftrightarrow> True"

interpretation clientbound_ping: packet_codec clientbound_ping_encode clientbound_ping_decode wf_clientbound_ping
  by unfold_locales
     (auto simp: clientbound_ping_encode_def clientbound_ping_decode_def wf_clientbound_ping_def packet_wf intro!: carries_rules safe_rules)

record clientbound_ping_response =
  cpr_id :: i32

definition clientbound_ping_response_id :: i32 where "clientbound_ping_response_id = 0x3c"

definition clientbound_ping_response_decode :: "clientbound_ping_response io" where
  "clientbound_ping_response_decode =
     bindE get_varint (\<lambda>id.
     ret \<lparr>cpr_id = id\<rparr>)"

definition clientbound_ping_response_encode :: "clientbound_ping_response \<Rightarrow> unit io" where
  "clientbound_ping_response_encode p =
    seqE (put_varint (cpr_id p)) put_end"

definition wf_clientbound_ping_response :: "clientbound_ping_response \<Rightarrow> bool" where
  "wf_clientbound_ping_response p \<longleftrightarrow> True"

interpretation clientbound_ping_response: packet_codec clientbound_ping_response_encode clientbound_ping_response_decode wf_clientbound_ping_response
  by unfold_locales
     (auto simp: clientbound_ping_response_encode_def clientbound_ping_response_decode_def wf_clientbound_ping_response_def packet_wf intro!: carries_rules safe_rules)

record place_ghost_recipe =
  pgr_window_id :: i8
  pgr_recipe_id :: i32

definition place_ghost_recipe_id :: i32 where "place_ghost_recipe_id = 0x3d"

definition place_ghost_recipe_decode :: "place_ghost_recipe io" where
  "place_ghost_recipe_decode =
     bindE get_i8 (\<lambda>window_id.
     bindE get_varint (\<lambda>recipe_id.
     ret \<lparr>pgr_window_id = window_id, pgr_recipe_id = recipe_id\<rparr>))"

definition place_ghost_recipe_encode :: "place_ghost_recipe \<Rightarrow> unit io" where
  "place_ghost_recipe_encode p =
    seqE (put_i8 (pgr_window_id p))
    (seqE (put_varint (pgr_recipe_id p)) put_end)"

definition wf_place_ghost_recipe :: "place_ghost_recipe \<Rightarrow> bool" where
  "wf_place_ghost_recipe p \<longleftrightarrow> True"

interpretation place_ghost_recipe: packet_codec place_ghost_recipe_encode place_ghost_recipe_decode wf_place_ghost_recipe
  by unfold_locales
     (auto simp: place_ghost_recipe_encode_def place_ghost_recipe_decode_def wf_place_ghost_recipe_def packet_wf intro!: carries_rules safe_rules)

record clientbound_player_abilities =
  cpa_flags :: i8
  cpa_flying_speed :: f32
  cpa_field_of_view_modifier :: f32

definition clientbound_player_abilities_id :: i32 where "clientbound_player_abilities_id = 0x3e"

definition clientbound_player_abilities_decode :: "clientbound_player_abilities io" where
  "clientbound_player_abilities_decode =
     bindE get_i8 (\<lambda>flags.
     bindE get_f32 (\<lambda>flying_speed.
     bindE get_f32 (\<lambda>field_of_view_modifier.
     ret \<lparr>cpa_flags = flags, cpa_flying_speed = flying_speed,
        cpa_field_of_view_modifier = field_of_view_modifier\<rparr>)))"

definition clientbound_player_abilities_encode :: "clientbound_player_abilities \<Rightarrow> unit io" where
  "clientbound_player_abilities_encode p =
    seqE (put_i8 (cpa_flags p))
    (seqE (put_f32 (cpa_flying_speed p))
    (seqE (put_f32 (cpa_field_of_view_modifier p)) put_end))"

definition wf_clientbound_player_abilities :: "clientbound_player_abilities \<Rightarrow> bool" where
  "wf_clientbound_player_abilities p \<longleftrightarrow> True"

interpretation clientbound_player_abilities: packet_codec clientbound_player_abilities_encode clientbound_player_abilities_decode wf_clientbound_player_abilities
  by unfold_locales
     (auto simp: clientbound_player_abilities_encode_def clientbound_player_abilities_decode_def wf_clientbound_player_abilities_def packet_wf intro!: carries_rules safe_rules)

record signed_message_body =
  smb_timestamp :: i64
  smb_salt :: i64
  smb_content :: rstring

datatype filter_mask = PassThrough | Filtered "u64 list" | FullyFiltered

record player_chat_message =
  pcme_global_index :: i32
  pcme_sender :: uuid
  pcme_index :: i32
  pcme_signature :: "u8 list option"
  pcme_message_body :: signed_message_body
  pcme_unsigned_content :: "component option"
  pcme_filter_mask :: filter_mask
  pcme_msg_type_id :: i32
  pcme_msg_type_name :: component
  pcme_msg_type_target :: "component option"

definition player_chat_message_id :: i32 where "player_chat_message_id = 0x3f"

definition get_signed_message_body :: "signed_message_body io" where
  "get_signed_message_body =
     bindE get_i64 (\<lambda>timestamp.
     bindE get_i64 (\<lambda>salt.
     bindE get_string (\<lambda>content.
     ret \<lparr>smb_timestamp = timestamp, smb_salt = salt, smb_content = content\<rparr>)))"

definition put_signed_message_body :: "signed_message_body \<Rightarrow> unit io" where
  "put_signed_message_body m =
     seqE (put_i64 (smb_timestamp m)) (seqE (put_i64 (smb_salt m)) (seqE (put_string (smb_content m)) put_end))"

lemma carries_message_body [carries_rules]:
  "wf_string (smb_content m) \<Longrightarrow> carries (put_signed_message_body m) get_signed_message_body m"
  by (auto simp: put_signed_message_body_def get_signed_message_body_def intro!: carries_rules)

lemma safe_message_body [safe_rules]: "cursor_safe get_signed_message_body"
  unfolding get_signed_message_body_def by (intro safe_rules)

definition put_filter_mask :: "filter_mask \<Rightarrow> unit io" where
  "put_filter_mask m =
     (case m of
        PassThrough \<Rightarrow> put_u8 0
      | Filtered ms \<Rightarrow> seqE (put_u8 1) (put_varint_array put_i64 ms)
      | FullyFiltered \<Rightarrow> put_u8 2)"

definition get_filter_mask :: "filter_mask io" where
  "get_filter_mask =
     bindE get_u8 (\<lambda>t.
       if t = 0 then ret PassThrough
       else if t = 1 then bindE (get_varint_array get_i64) (\<lambda>ms. ret (Filtered ms))
       else if t = 2 then ret FullyFiltered else throw InvalidValue)"

definition wf_filter_mask :: "filter_mask \<Rightarrow> bool" where
  "wf_filter_mask m = (case m of Filtered ms \<Rightarrow> length ms < 2 ^ 31 | _ \<Rightarrow> True)"

lemma carries_filter_mask [carries_rules]:
  assumes "wf_filter_mask m"
  shows "carries (put_filter_mask m) get_filter_mask m"
proof (cases m)
  case (Filtered ms)
  then have "carries (put_varint_array put_i64 ms) (get_varint_array get_i64) ms"
    using assms by (intro carries_rules) (simp_all add: wf_filter_mask_def)
  then show ?thesis
    unfolding put_filter_mask_def get_filter_mask_def Filtered filter_mask.case
    by (intro carries_bind [OF carries_u8]) (simp, rule carries_tail, assumption, simp add: carries_ret)
qed (auto simp: put_filter_mask_def get_filter_mask_def intro!: carries_tail [OF carries_u8] carries_ret)

lemma safe_filter_mask [safe_rules]: "cursor_safe get_filter_mask"
  unfolding get_filter_mask_def by (intro safe_rules)

definition player_chat_message_decode :: "player_chat_message io" where
  "player_chat_message_decode =
     bindE get_varint (\<lambda>global_index.
     bindE get_uuid (\<lambda>sender.
     bindE get_varint (\<lambda>index.
     bindE (get_opt get_byte_array) (\<lambda>signature.
     bindE get_signed_message_body (\<lambda>message_body.
     bindE (get_opt decode_component) (\<lambda>unsigned_content.
     bindE get_filter_mask (\<lambda>filter_mask.
     bindE get_varint (\<lambda>msg_type_id.
     bindE decode_component (\<lambda>msg_type_name.
     bindE (get_opt decode_component) (\<lambda>msg_type_target.
     ret \<lparr>pcme_global_index = global_index, pcme_sender = sender, pcme_index = index,
        pcme_signature = signature, pcme_message_body = message_body,
        pcme_unsigned_content = unsigned_content, pcme_filter_mask = filter_mask,
        pcme_msg_type_id = msg_type_id, pcme_msg_type_name = msg_type_name,
        pcme_msg_type_target = msg_type_target\<rparr>))))))))))"

definition player_chat_message_encode :: "player_chat_message \<Rightarrow> unit io" where
  "player_chat_message_encode p =
    seqE (put_varint (pcme_global_index p))
    (seqE (put_uuid (pcme_sender p))
    (seqE (put_varint (pcme_index p))
    (seqE (put_opt put_byte_array (pcme_signature p))
    (seqE (put_signed_message_body (pcme_message_body p))
    (seqE (put_opt encode_component (pcme_unsigned_content p))
    (seqE (put_filter_mask (pcme_filter_mask p))
    (seqE (put_varint (pcme_msg_type_id p))
    (seqE (encode_component (pcme_msg_type_name p))
    (seqE (put_opt encode_component (pcme_msg_type_target p)) put_end)))))))))"

definition wf_player_chat_message :: "player_chat_message \<Rightarrow> bool" where
  "wf_player_chat_message p \<longleftrightarrow> wf_uuid (pcme_sender p) \<and> pred_option wf_bytes (pcme_signature p) \<and>
     wf_string (smb_content (pcme_message_body p)) \<and> pred_option wf_component (pcme_unsigned_content p) \<and>
     wf_filter_mask (pcme_filter_mask p) \<and> wf_component (pcme_msg_type_name p) \<and>
     pred_option wf_component (pcme_msg_type_target p)"

interpretation player_chat_message: packet_codec player_chat_message_encode player_chat_message_decode wf_player_chat_message
  by unfold_locales
     (auto simp: player_chat_message_encode_def player_chat_message_decode_def wf_player_chat_message_def packet_wf intro!: carries_rules safe_rules)

record end_combat_event =
  ece_duration :: i32
  ece_killer_id :: i32

definition end_combat_event_id :: i32 where "end_combat_event_id = 0x40"

definition end_combat_event_decode :: "end_combat_event io" where
  "end_combat_event_decode =
     bindE get_varint (\<lambda>duration.
     bindE get_varint (\<lambda>killer_id.
     ret \<lparr>ece_duration = duration, ece_killer_id = killer_id\<rparr>))"

definition end_combat_event_encode :: "end_combat_event \<Rightarrow> unit io" where
  "end_combat_event_encode p =
    seqE (put_varint (ece_duration p))
    (seqE (put_varint (ece_killer_id p)) put_end)"

definition wf_end_combat_event :: "end_combat_event \<Rightarrow> bool" where
  "wf_end_combat_event p \<longleftrightarrow> True"

interpretation end_combat_event: packet_codec end_combat_event_encode end_combat_event_decode wf_end_combat_event
  by unfold_locales
     (auto simp: end_combat_event_encode_def end_combat_event_decode_def wf_end_combat_event_def packet_wf intro!: carries_rules safe_rules)

datatype enter_combat_event = EnterCombatEvent

lemma enter_combat_event_only [simp]: "EnterCombatEvent = p"
  by (cases p) simp

definition enter_combat_event_id :: i32 where "enter_combat_event_id = 0x41"

definition enter_combat_event_decode :: "enter_combat_event io" where
  "enter_combat_event_decode = ret EnterCombatEvent"

definition enter_combat_event_encode :: "enter_combat_event \<Rightarrow> unit io" where
  "enter_combat_event_encode p = put_end"

definition wf_enter_combat_event :: "enter_combat_event \<Rightarrow> bool" where
  "wf_enter_combat_event p \<longleftrightarrow> True"

interpretation enter_combat_event: packet_codec enter_combat_event_encode enter_combat_event_decode wf_enter_combat_event
  by unfold_locales
     (auto simp: enter_combat_event_encode_def enter_combat_event_decode_def wf_enter_combat_event_def packet_wf intro!: carries_rules safe_rules)

record death_combat_event =
  dce_player_id :: i32
  dce_message :: component

definition death_combat_event_id :: i32 where "death_combat_event_id = 0x42"

definition death_combat_event_decode :: "death_combat_event io" where
  "death_combat_event_decode =
     bindE get_varint (\<lambda>player_id.
     bindE decode_component (\<lambda>message.
     ret \<lparr>dce_player_id = player_id, dce_message = message\<rparr>))"

definition death_combat_event_encode :: "death_combat_event \<Rightarrow> unit io" where
  "death_combat_event_encode p =
    seqE (put_varint (dce_player_id p))
    (seqE (encode_component (dce_message p)) put_end)"

definition wf_death_combat_event :: "death_combat_event \<Rightarrow> bool" where
  "wf_death_combat_event p \<longleftrightarrow> wf_component (dce_message p)"

interpretation death_combat_event: packet_codec death_combat_event_encode death_combat_event_decode wf_death_combat_event
  by unfold_locales
     (auto simp: death_combat_event_encode_def death_combat_event_decode_def wf_death_combat_event_def packet_wf intro!: carries_rules safe_rules)

record face_player =
  fapl_feet_or_eyes :: i32
  fapl_target_x :: f64
  fapl_target_y :: f64
  fapl_target_z :: f64
  fapl_is_entity :: bool
  fapl_entity_id :: "i32 option"

definition face_player_id :: i32 where "face_player_id = 0x45"

definition face_player_decode :: "face_player io" where
  "face_player_decode =
     bindE get_varint (\<lambda>feet_or_eyes.
     bindE get_f64 (\<lambda>target_x.
     bindE get_f64 (\<lambda>target_y.
     bindE get_f64 (\<lambda>target_z.
     bindE get_bool (\<lambda>is_entity.
     bindE (get_when is_entity get_varint) (\<lambda>entity_id.
     ret \<lparr>fapl_feet_or_eyes = feet_or_eyes, fapl_target_x = target_x, fapl_target_y = target_y,
        fapl_target_z = target_z, fapl_is_entity = is_entity, fapl_entity_id = entity_id\<rparr>))))))"

definition face_player_encode :: "face_player \<Rightarrow> unit io" where
  "face_player_encode p =
    seqE (put_varint (fapl_feet_or_eyes p))
    (seqE (put_f64 (fapl_target_x p))
    (seqE (put_f64 (fapl_target_y p))
    (seqE (put_f64 (fapl_target_z p))
    (seqE (put_bool (fapl_is_entity p))
    (seqE (put_when put_varint (fapl_entity_id p)) put_end)))))"

definition wf_face_player :: "face_player \<Rightarrow> bool" where
  "wf_face_player p \<longleftrightarrow> fapl_is_entity p = (fapl_entity_id p \<noteq> None)"

interpretation face_player: packet_codec face_player_encode face_player_decode wf_face_player
  by unfold_locales
     (auto simp: face_player_encode_def face_player_decode_def wf_face_player_def packet_wf intro!: carries_rules safe_rules)

record player_rotation =
  plro_yaw :: f32
  plro_pitch :: f32
  plro_flags :: i8
  plro_teleport_id :: i32

definition player_rotation_id :: i32 where "player_rotation_id = 0x47"

definition player_rotation_decode :: "player_rotation io" where
  "player_rotation_decode =
     bindE get_f32 (\<lambda>yaw.
     bindE get_f32 (\<lambda>pitch.
     bindE get_i8 (\<lambda>flags.
     bindE get_varint (\<lambda>teleport_id.
     ret \<lparr>plro_yaw = yaw, plro_pitch = pitch, plro_flags = flags,
        plro_teleport_id = teleport_id\<rparr>))))"

definition player_rotation_encode :: "player_rotation \<Rightarrow> unit io" where
  "player_rotation_encode p =
    seqE (put_f32 (plro_yaw p))
    (seqE (put_f32 (plro_pitch p))
    (seqE (put_i8 (plro_flags p))
    (seqE (put_varint (plro_teleport_id p)) put_end)))"

definition wf_player_rotation :: "player_rotation \<Rightarrow> bool" where
  "wf_player_rotation p \<longleftrightarrow> True"

interpretation player_rotation: packet_codec player_rotation_encode player_rotation_decode wf_player_rotation
  by unfold_locales
     (auto simp: player_rotation_encode_def player_rotation_decode_def wf_player_rotation_def packet_wf intro!: carries_rules safe_rules)

record select_advancement_tab =
  sat_tab_id :: "rstring option"

definition select_advancement_tab_id :: i32 where "select_advancement_tab_id = 0x53"

definition select_advancement_tab_decode :: "select_advancement_tab io" where
  "select_advancement_tab_decode =
     bindE (get_opt get_string) (\<lambda>tab_id.
     ret \<lparr>sat_tab_id = tab_id\<rparr>)"

definition select_advancement_tab_encode :: "select_advancement_tab \<Rightarrow> unit io" where
  "select_advancement_tab_encode p =
    seqE (put_opt put_string (sat_tab_id p)) put_end"

definition wf_select_advancement_tab :: "select_advancement_tab \<Rightarrow> bool" where
  "wf_select_advancement_tab p \<longleftrightarrow> pred_option wf_string (sat_tab_id p)"

interpretation select_advancement_tab: packet_codec select_advancement_tab_encode select_advancement_tab_decode wf_select_advancement_tab
  by unfold_locales
     (auto simp: select_advancement_tab_encode_def select_advancement_tab_decode_def wf_select_advancement_tab_def packet_wf intro!: carries_rules safe_rules)

record action_bar =
  ab_text :: rstring

definition action_bar_id :: i32 where "action_bar_id = 0x55"

definition action_bar_decode :: "action_bar io" where
  "action_bar_decode =
     bindE get_string (\<lambda>text.
     ret \<lparr>ab_text = text\<rparr>)"

definition action_bar_encode :: "action_bar \<Rightarrow> unit io" where
  "action_bar_encode p =
    seqE (put_string (ab_text p)) put_end"

definition wf_action_bar :: "action_bar \<Rightarrow> bool" where
  "wf_action_bar p \<longleftrightarrow> wf_string (ab_text p)"

interpretation action_bar: packet_codec action_bar_encode action_bar_decode wf_action_bar
  by unfold_locales
     (auto simp: action_bar_encode_def action_bar_decode_def wf_action_bar_def packet_wf intro!: carries_rules safe_rules)

record world_border_center =
  wbc_x :: f64
  wbc_z :: f64

definition world_border_center_id :: i32 where "world_border_center_id = 0x56"

definition world_border_center_decode :: "world_border_center io" where
  "world_border_center_decode =
     bindE get_f64 (\<lambda>x.
     bindE get_f64 (\<lambda>z.
     ret \<lparr>wbc_x = x, wbc_z = z\<rparr>))"

definition world_border_center_encode :: "world_border_center \<Rightarrow> unit io" where
  "world_border_center_encode p =
    seqE (put_f64 (wbc_x p))
    (seqE (put_f64 (wbc_z p)) put_end)"

definition wf_world_border_center :: "world_border_center \<Rightarrow> bool" where
  "wf_world_border_center p \<longleftrightarrow> True"

interpretation world_border_center: packet_codec world_border_center_encode world_border_center_decode wf_world_border_center
  by unfold_locales
     (auto simp: world_border_center_encode_def world_border_center_decode_def wf_world_border_center_def packet_wf intro!: carries_rules safe_rules)

record world_border_lerp_size =
  wbls_old_diameter :: f64
  wbls_new_diameter :: f64
  wbls_speed :: i64

definition world_border_lerp_size_id :: i32 where "world_border_lerp_size_id = 0x57"

definition world_border_lerp_size_decode :: "world_border_lerp_size io" where
  "world_border_lerp_size_decode =
     bindE get_f64 (\<lambda>old_diameter.
     bindE get_f64 (\<lambda>new_diameter.
     bindE get_varlong (\<lambda>speed.
     ret \<lparr>wbls_old_diameter = old_diameter, wbls_new_diameter = new_diameter,
        wbls_speed = speed\<rparr>)))"

definition world_border_lerp_size_encode :: "world_border_lerp_size \<Rightarrow> unit io" where
  "world_border_lerp_size_encode p =
    seqE (put_f64 (wbls_old_diameter p))
    (seqE (put_f64 (wbls_new_diameter p))
    (seqE (put_varlong (wbls_speed p)) put_end))"

definition wf_world_border_lerp_size :: "world_border_lerp_size \<Rightarrow> bool" where
  "wf_world_border_lerp_size p \<longleftrightarrow> True"

interpretation world_border_lerp_size: packet_codec world_border_lerp_size_encode world_border_lerp_size_decode wf_world_border_lerp_size
  by unfold_locales
     (auto simp: world_border_lerp_size_encode_def world_border_lerp_size_decode_def wf_world_border_lerp_size_def packet_wf intro!: carries_rules safe_rules)

record world_border_size =
  wbs_diameter :: f64

definition world_border_size_id :: i32 where "world_border_size_id = 0x58"

definition world_border_size_decode :: "world_border_size io" where
  "world_border_size_decode =
     bindE get_f64 (\<lambda>diameter.
     ret \<lparr>wbs_diameter = diameter\<rparr>)"

definition world_border_size_encode :: "world_border_size \<Rightarrow> unit io" where
  "world_border_size_encode p =
    seqE (put_f64 (wbs_diameter p)) put_end"

definition wf_world_border_size :: "world_border_size \<Rightarrow> bool" where
  "wf_world_border_size p \<longleftrightarrow> True"

interpretation world_border_size: packet_codec world_border_size_encode world_border_size_decode wf_world_border_size
  by unfold_locales
     (auto simp: world_border_size_encode_def world_border_size_decode_def wf_world_border_size_def packet_wf intro!: carries_rules safe_rules)

record world_border_warning_delay =
  wbwd_warning_time :: i32

definition world_border_warning_delay_id :: i32 where "world_border_warning_delay_id = 0x59"

definition world_border_warning_delay_decode :: "world_border_warning_delay io" where
  "world_border_warning_delay_decode =
     bindE get_varint (\<lambda>warning_time.
     ret \<lparr>wbwd_warning_time = warning_time\<rparr>)"

definition world_border_warning_delay_encode :: "world_border_warning_delay \<Rightarrow> unit io" where
  "world_border_warning_delay_encode p =
    seqE (put_varint (wbwd_warning_time p)) put_end"

definition wf_world_border_warning_delay :: "world_border_warning_delay \<Rightarrow> bool" where
  "wf_world_border_warning_delay p \<longleftrightarrow> True"

interpretation world_border_warning_delay: packet_codec world_border_warning_delay_encode world_border_warning_delay_decode wf_world_border_warning_delay
  by unfold_locales
     (auto simp: world_border_warning_delay_encode_def world_border_warning_delay_decode_def wf_world_border_warning_delay_def packet_wf intro!: carries_rules safe_rules)

record world_border_warning_reach =
  wbwr_warning_blocks :: i32

definition world_border_warning_reach_id :: i32 where "world_border_warning_reach_id = 0x5a"

definition world_border_warning_reach_decode :: "world_border_warning_reach io" where
  "world_border_warning_reach_decode =
     bindE get_varint (\<lambda>warning_blocks.
     ret \<lparr>wbwr_warning_blocks = warning_blocks\<rparr>)"

definition world_border_warning_reach_encode :: "world_border_warning_reach \<Rightarrow> unit io" where
  "world_border_warning_reach_encode p =
    seqE (put_varint (wbwr_warning_blocks p)) put_end"

definition wf_world_border_warning_reach :: "world_border_warning_reach \<Rightarrow> bool" where
  "wf_world_border_warning_reach p \<longleftrightarrow> True"

interpretation world_border_warning_reach: packet_codec world_border_warning_reach_encode world_border_warning_reach_decode wf_world_border_warning_reach
  by unfold_locales
     (auto simp: world_border_warning_reach_encode_def world_border_warning_reach_decode_def wf_world_border_warning_reach_def packet_wf intro!: carries_rules safe_rules)

record camera_cb =
  cc_camera_id :: i32

definition camera_cb_id :: i32 where "camera_cb_id = 0x5b"

definition camera_cb_decode :: "camera_cb io" where
  "camera_cb_decode =
     bindE get_varint (\<lambda>camera_id.
     ret \<lparr>cc_camera_id = camera_id\<rparr>)"

definition camera_cb_encode :: "camera_cb \<Rightarrow> unit io" where
  "camera_cb_encode p =
    seqE (put_varint (cc_camera_id p)) put_end"

definition wf_camera_cb :: "camera_cb \<Rightarrow> bool" where
  "wf_camera_cb p \<longleftrightarrow> True"

interpretation camera_cb: packet_codec camera_cb_encode camera_cb_decode wf_camera_cb
  by unfold_locales
     (auto simp: camera_cb_encode_def camera_cb_decode_def wf_camera_cb_def packet_wf intro!: carries_rules safe_rules)

record set_cursor_item =
  sci_window_id :: i32
  sci_slot :: i16
  sci_item :: item_stack

definition set_cursor_item_id :: i32 where "set_cursor_item_id = 0x5e"

definition set_cursor_item_decode :: "set_cursor_item io" where
  "set_cursor_item_decode =
     bindE get_varint (\<lambda>window_id.
     bindE get_i16 (\<lambda>slot.
     bindE decode_item_stack (\<lambda>item.
     ret \<lparr>sci_window_id = window_id, sci_slot = slot, sci_item = item\<rparr>)))"

definition set_cursor_item_encode :: "set_cursor_item \<Rightarrow> unit io" where
  "set_cursor_item_encode p =
    seqE (put_varint (sci_window_id p))
    (seqE (put_i16 (sci_slot p))
    (seqE (encode_item_stack (sci_item p)) put_end))"

definition wf_set_cursor_item :: "set_cursor_item \<Rightarrow> bool" where
  "wf_set_cursor_item p \<longleftrightarrow> normal_item (sci_item p)"

interpretation set_cursor_item: packet_codec set_cursor_item_encode set_cursor_item_decode wf_set_cursor_item
  by unfold_locales
     (auto simp: set_cursor_item_encode_def set_cursor_item_decode_def wf_set_cursor_item_def packet_wf intro!: carries_rules safe_rules)

record spawn_position =
  sppo_position :: "i32 \<times> i32 \<times> i32"

definition spawn_position_id :: i32 where "spawn_position_id = 0x5f"

definition spawn_position_decode :: "spawn_position io" where
  "spawn_position_decode =
     bindE get_position (\<lambda>position.
     ret \<lparr>sppo_position = position\<rparr>)"

definition spawn_position_encode :: "spawn_position \<Rightarrow> unit io" where
  "spawn_position_encode p =
    seqE (put_position (sppo_position p)) put_end"

definition wf_spawn_position :: "spawn_position \<Rightarrow> bool" where
  "wf_spawn_position p \<longleftrightarrow> wf_position (sppo_position p)"

interpretation spawn_position: packet_codec spawn_position_encode spawn_position_decode wf_spawn_position
  by unfold_locales
     (auto simp: spawn_position_encode_def spawn_position_decode_def wf_spawn_position_def packet_wf intro!: carries_rules safe_rules)

record player_list_header_and_footer =
  plhaf_header :: rstring
  plhaf_footer :: rstring

definition player_list_header_and_footer_id :: i32 where "player_list_header_and_footer_id = 0x78"

definition player_list_header_and_footer_decode :: "player_list_header_and_footer io" where
  "player_list_header_and_footer_decode =
     bindE get_string (\<lambda>header.
     bindE get_string (\<lambda>footer.
     ret \<lparr>plhaf_header = header, plhaf_footer = footer\<rparr>))"

definition player_list_header_and_footer_encode :: "player_list_header_and_footer \<Rightarrow> unit io" where
  "player_list_header_and_footer_encode p =
    seqE (put_string (plhaf_header p))
    (seqE (put_string (plhaf_footer p)) put_end)"

definition wf_player_list_header_and_footer :: "player_list_header_and_footer \<Rightarrow> bool" where
  "wf_player_list_header_and_footer p \<longleftrightarrow> wf_string (plhaf_header p) \<and> wf_string (plhaf_footer p)"

interpretation player_list_header_and_footer: packet_codec player_list_header_and_footer_encode player_list_header_and_footer_decode wf_player_list_header_and_footer
  by unfold_locales
     (auto simp: player_list_header_and_footer_encode_def player_list_header_and_footer_decode_def wf_player_list_header_and_footer_def packet_wf intro!: carries_rules safe_rules)

record nbt_query_response =
  nqr_transaction_id :: i32
  nqr_nbt :: "u8 list option"

definition nbt_query_response_id :: i32 where "nbt_query_response_id = 0x79"

definition put_nbt_or_end :: "u8 list option \<Rightarrow> unit io" where
  "put_nbt_or_end x = (case x of Some bs \<Rightarrow> put_bytes bs | None \<Rightarrow> put_u8 0)"

definition get_nbt_or_end :: "u8 list option io" where
  "get_nbt_or_end = bindE get_rest (\<lambda>rest.
     ret (if length rest = 1 \<and> hd rest = 0 then None else Some rest))"

definition nbt_query_response_decode :: "nbt_query_response io" where
  "nbt_query_response_decode =
     bindE get_varint (\<lambda>transaction_id.
     bindE get_nbt_or_end (\<lambda>nbt.
     ret \<lparr>nqr_transaction_id = transaction_id, nqr_nbt = nbt\<rparr>))"

definition nbt_query_response_encode :: "nbt_query_response \<Rightarrow> unit io" where
  "nbt_query_response_encode p =
    seqE (put_varint (nqr_transaction_id p))
    (put_nbt_or_end (nqr_nbt p))"

definition wf_nbt_query_response :: "nbt_query_response \<Rightarrow> bool" where
  "wf_nbt_query_response p \<longleftrightarrow> nqr_nbt p \<noteq> Some [0]"

lemma ends_nbt_or_end:
  assumes "x \<noteq> Some [0]"
  shows "ends (put_nbt_or_end x) get_nbt_or_end x"
proof -
  obtain bs where bs: "bs = (case x of Some bs \<Rightarrow> bs | None \<Rightarrow> [0])" by blast
  have "put_nbt_or_end x = put_bytes bs"
    by (cases x) (simp_all add: bs put_nbt_or_end_def put_u8_def put_bytes_def)
  moreover have "ends (put_bytes bs) get_nbt_or_end x"
    unfolding get_nbt_or_end_def
    by (rule ends_last [OF ends_rest]) (use assms in \<open>cases x; auto simp: bs length_Suc_conv\<close>)
  ultimately show ?thesis by simp
qed

lemma safe_nbt_or_end [safe_rules]: "cursor_safe get_nbt_or_end"
  unfolding get_nbt_or_end_def by (intro safe_rules)

lemma nbt_query_response_body:
  "wf_nbt_query_response p \<Longrightarrow> ends (nbt_query_response_encode p) nbt_query_response_decode p"
  by (cases p)
     (auto simp: nbt_query_response_encode_def nbt_query_response_decode_def wf_nbt_query_response_def
       intro!: ends_bind ends_last [OF ends_nbt_or_end] carries_rules)

interpretation nbt_query_response: body_codec nbt_query_response_encode nbt_query_response_decode
    wf_nbt_query_response
  by (unfold_locales, rule nbt_query_response_body, assumption, unfold nbt_query_response_decode_def)
     (intro safe_rules)

record set_title_sub_title =
  stst_text :: rstring

definition set_title_sub_title_id :: i32 where "set_title_sub_title_id = 0x6e"

definition set_title_sub_title_decode :: "set_title_sub_title io" where
  "set_title_sub_title_decode =
     bindE get_string (\<lambda>text.
     ret \<lparr>stst_text = text\<rparr>)"

definition set_title_sub_title_encode :: "set_title_sub_title \<Rightarrow> unit io" where
  "set_title_sub_title_encode p =
    seqE (put_string (stst_text p)) put_end"

definition wf_set_title_sub_title :: "set_title_sub_title \<Rightarrow> bool" where
  "wf_set_title_sub_title p \<longleftrightarrow> wf_string (stst_text p)"

interpretation set_title_sub_title: packet_codec set_title_sub_title_encode set_title_sub_title_decode wf_set_title_sub_title
  by unfold_locales
     (auto simp: set_title_sub_title_encode_def set_title_sub_title_decode_def wf_set_title_sub_title_def packet_wf intro!: carries_rules safe_rules)

record set_title_text =
  stt_text :: rstring

definition set_title_text_id :: i32 where "set_title_text_id = 0x70"

definition set_title_text_decode :: "set_title_text io" where
  "set_title_text_decode =
     bindE get_string (\<lambda>text.
     ret \<lparr>stt_text = text\<rparr>)"

definition set_title_text_encode :: "set_title_text \<Rightarrow> unit io" where
  "set_title_text_encode p =
    seqE (put_string (stt_text p)) put_end"

definition wf_set_title_text :: "set_title_text \<Rightarrow> bool" where
  "wf_set_title_text p \<longleftrightarrow> wf_string (stt_text p)"

interpretation set_title_text: packet_codec set_title_text_encode set_title_text_decode wf_set_title_text
  by unfold_locales
     (auto simp: set_title_text_encode_def set_title_text_decode_def wf_set_title_text_def packet_wf intro!: carries_rules safe_rules)

record set_title_time =
  setiti_fade_in :: i32
  setiti_stay :: i32
  setiti_fade_out :: i32

definition set_title_time_id :: i32 where "set_title_time_id = 0x71"

definition set_title_time_decode :: "set_title_time io" where
  "set_title_time_decode =
     bindE get_varint (\<lambda>fade_in.
     bindE get_varint (\<lambda>stay.
     bindE get_varint (\<lambda>fade_out.
     ret \<lparr>setiti_fade_in = fade_in, setiti_stay = stay, setiti_fade_out = fade_out\<rparr>)))"

definition set_title_time_encode :: "set_title_time \<Rightarrow> unit io" where
  "set_title_time_encode p =
    seqE (put_varint (setiti_fade_in p))
    (seqE (put_varint (setiti_stay p))
    (seqE (put_varint (setiti_fade_out p)) put_end))"

definition wf_set_title_time :: "set_title_time \<Rightarrow> bool" where
  "wf_set_title_time p \<longleftrightarrow> True"

interpretation set_title_time: packet_codec set_title_time_encode set_title_time_decode wf_set_title_time
  by unfold_locales
     (auto simp: set_title_time_encode_def set_title_time_decode_def wf_set_title_time_def packet_wf intro!: carries_rules safe_rules)

datatype start_configuration = StartConfiguration

lemma start_configuration_only [simp]: "StartConfiguration = p"
  by (cases p) simp

definition start_configuration_id :: i32 where "start_configuration_id = 0x74"

definition start_configuration_decode :: "start_configuration io" where
  "start_configuration_decode = ret StartConfiguration"

definition start_configuration_encode :: "start_configuration \<Rightarrow> unit io" where
  "start_configuration_encode p = put_end"

definition wf_start_configuration :: "start_configuration \<Rightarrow> bool" where
  "wf_start_configuration p \<longleftrightarrow> True"

interpretation start_configuration: packet_codec start_configuration_encode start_configuration_decode wf_start_configuration
  by unfold_locales
     (auto simp: start_configuration_encode_def start_configuration_decode_def wf_start_configuration_def packet_wf intro!: carries_rules safe_rules)

record cookie_store =
  cs_key :: rstring
  cs_payload :: "u8 list"

definition cookie_store_id :: i32 where "cookie_store_id = 0x76"

definition cookie_store_decode :: "cookie_store io" where
  "cookie_store_decode =
     bindE get_string (\<lambda>key.
     bindE get_byte_array (\<lambda>payload.
     ret \<lparr>cs_key = key, cs_payload = payload\<rparr>))"

definition cookie_store_encode :: "cookie_store \<Rightarrow> unit io" where
  "cookie_store_encode p =
    seqE (put_string (cs_key p))
    (seqE (put_byte_array (cs_payload p)) put_end)"

definition wf_cookie_store :: "cookie_store \<Rightarrow> bool" where
  "wf_cookie_store p \<longleftrightarrow> wf_string (cs_key p) \<and> wf_bytes (cs_payload p)"

interpretation cookie_store: packet_codec cookie_store_encode cookie_store_decode wf_cookie_store
  by unfold_locales
     (auto simp: cookie_store_encode_def cookie_store_decode_def wf_cookie_store_def packet_wf intro!: carries_rules safe_rules)

record transfer_cb =
  tc_host :: rstring
  tc_port :: i32

definition transfer_cb_id :: i32 where "transfer_cb_id = 0x7f"

definition transfer_cb_decode :: "transfer_cb io" where
  "transfer_cb_decode =
     bindE get_string (\<lambda>host.
     bindE get_varint (\<lambda>port.
     ret \<lparr>tc_host = host, tc_port = port\<rparr>))"

definition transfer_cb_encode :: "transfer_cb \<Rightarrow> unit io" where
  "transfer_cb_encode p =
    seqE (put_string (tc_host p))
    (seqE (put_varint (tc_port p)) put_end)"

definition wf_transfer_cb :: "transfer_cb \<Rightarrow> bool" where
  "wf_transfer_cb p \<longleftrightarrow> wf_string (tc_host p)"

interpretation transfer_cb: packet_codec transfer_cb_encode transfer_cb_decode wf_transfer_cb
  by unfold_locales
     (auto simp: transfer_cb_encode_def transfer_cb_decode_def wf_transfer_cb_def packet_wf intro!: carries_rules safe_rules)

record projectile_power =
  pp_entity_id :: i32
  pp_power :: f64

definition projectile_power_id :: i32 where "projectile_power_id = 0x85"

definition projectile_power_decode :: "projectile_power io" where
  "projectile_power_decode =
     bindE get_varint (\<lambda>entity_id.
     bindE get_f64 (\<lambda>power.
     ret \<lparr>pp_entity_id = entity_id, pp_power = power\<rparr>))"

definition projectile_power_encode :: "projectile_power \<Rightarrow> unit io" where
  "projectile_power_encode p =
    seqE (put_varint (pp_entity_id p))
    (seqE (put_f64 (pp_power p)) put_end)"

definition wf_projectile_power :: "projectile_power \<Rightarrow> bool" where
  "wf_projectile_power p \<longleftrightarrow> True"

interpretation projectile_power: packet_codec projectile_power_encode projectile_power_decode wf_projectile_power
  by unfold_locales
     (auto simp: projectile_power_encode_def projectile_power_decode_def wf_projectile_power_def packet_wf intro!: carries_rules safe_rules)

record custom_report_details =
  crd_details :: "(rstring \<times> rstring) list"

definition custom_report_details_id :: i32 where "custom_report_details_id = 0x86"

definition custom_report_details_decode :: "custom_report_details io" where
  "custom_report_details_decode =
     bindE (get_varint_array (get_pair get_string get_string)) (\<lambda>details.
     ret \<lparr>crd_details = details\<rparr>)"

definition custom_report_details_encode :: "custom_report_details \<Rightarrow> unit io" where
  "custom_report_details_encode p =
    seqE (put_varint_array (put_pair put_string put_string) (crd_details p)) put_end"

definition wf_custom_report_details :: "custom_report_details \<Rightarrow> bool" where
  "wf_custom_report_details p \<longleftrightarrow> wf_array (pair_wf wf_string wf_string) (crd_details p)"

interpretation custom_report_details: packet_codec custom_report_details_encode custom_report_details_decode wf_custom_report_details
  by unfold_locales
     (auto simp: custom_report_details_encode_def custom_report_details_decode_def wf_custom_report_details_def packet_wf intro!: carries_rules safe_rules)

record server_links =
  sl_links :: "(bool \<times> rstring) list"

definition server_links_id :: i32 where "server_links_id = 0x87"

definition server_links_decode :: "server_links io" where
  "server_links_decode =
     bindE (get_varint_array (get_pair get_bool get_string)) (\<lambda>links.
     ret \<lparr>sl_links = links\<rparr>)"

definition server_links_encode :: "server_links \<Rightarrow> unit io" where
  "server_links_encode p =
    seqE (put_varint_array (put_pair put_bool put_string) (sl_links p)) put_end"

definition wf_server_links :: "server_links \<Rightarrow> bool" where
  "wf_server_links p \<longleftrightarrow> wf_array (pair_wf (\<lambda>_. True) wf_string) (sl_links p)"

interpretation server_links: packet_codec server_links_encode server_links_decode wf_server_links
  by unfold_locales
     (auto simp: server_links_encode_def server_links_decode_def wf_server_links_def packet_wf intro!: carries_rules safe_rules)

record tracked_waypoint =
  tw_waypoint_id :: i32
  tw_tracking :: bool
  tw_name :: "rstring option"
  tw_position :: "(i32 \<times> i32 \<times> i32) option"

definition tracked_waypoint_id :: i32 where "tracked_waypoint_id = 0x88"

definition tracked_waypoint_decode :: "tracked_waypoint io" where
  "tracked_waypoint_decode =
     bindE get_varint (\<lambda>waypoint_id.
     bindE get_bool (\<lambda>tracking.
     bindE (get_opt get_string) (\<lambda>name.
     bindE (get_opt get_position) (\<lambda>position.
     ret \<lparr>tw_waypoint_id = waypoint_id, tw_tracking = tracking, tw_name = name,
        tw_position = position\<rparr>))))"

definition tracked_waypoint_encode :: "tracked_waypoint \<Rightarrow> unit io" where
  "tracked_waypoint_encode p =
    seqE (put_varint (tw_waypoint_id p))
    (seqE (put_bool (tw_tracking p))
    (seqE (put_opt put_string (tw_name p))
    (seqE (put_opt put_position (tw_position p)) put_end)))"

definition wf_tracked_waypoint :: "tracked_waypoint \<Rightarrow> bool" where
  "wf_tracked_waypoint p \<longleftrightarrow> pred_option wf_string (tw_name p) \<and> pred_option wf_position (tw_position p)"

interpretation tracked_waypoint: packet_codec tracked_waypoint_encode tracked_waypoint_decode wf_tracked_waypoint
  by unfold_locales
     (auto simp: tracked_waypoint_encode_def tracked_waypoint_decode_def wf_tracked_waypoint_def packet_wf intro!: carries_rules safe_rules)

record test_instance_block_status =
  tibs_status :: i32
  tibs_position :: "i32 \<times> i32 \<times> i32"
  tibs_error_message :: "rstring option"

definition test_instance_block_status_id :: i32 where "test_instance_block_status_id = 0x7c"

definition test_instance_block_status_decode :: "test_instance_block_status io" where
  "test_instance_block_status_decode =
     bindE get_varint (\<lambda>status.
     bindE get_position (\<lambda>position.
     bindE (get_opt get_string) (\<lambda>error_message.
     ret \<lparr>tibs_status = status, tibs_position = position,
        tibs_error_message = error_message\<rparr>)))"

definition test_instance_block_status_encode :: "test_instance_block_status \<Rightarrow> unit io" where
  "test_instance_block_status_encode p =
    seqE (put_varint (tibs_status p))
    (seqE (put_position (tibs_position p))
    (seqE (put_opt put_string (tibs_error_message p)) put_end))"

definition wf_test_instance_block_status :: "test_instance_block_status \<Rightarrow> bool" where
  "wf_test_instance_block_status p \<longleftrightarrow> wf_position (tibs_position p) \<and> pred_option wf_string (tibs_error_message p)"

interpretation test_instance_block_status: packet_codec test_instance_block_status_encode test_instance_block_status_decode wf_test_instance_block_status
  by unfold_locales
     (auto simp: test_instance_block_status_encode_def test_instance_block_status_decode_def wf_test_instance_block_status_def packet_wf intro!: carries_rules safe_rules)

record server_difficulty =
  sd_difficulty :: i8
  sd_locked :: bool

definition server_difficulty_id :: i32 where "server_difficulty_id = 0x0a"

definition server_difficulty_decode :: "server_difficulty io" where
  "server_difficulty_decode =
     bindE get_i8 (\<lambda>difficulty.
     bindE get_bool (\<lambda>locked.
     ret \<lparr>sd_difficulty = difficulty, sd_locked = locked\<rparr>))"

definition server_difficulty_encode :: "server_difficulty \<Rightarrow> unit io" where
  "server_difficulty_encode p =
    seqE (put_i8 (sd_difficulty p))
    (seqE (put_bool (sd_locked p)) put_end)"

definition wf_server_difficulty :: "server_difficulty \<Rightarrow> bool" where
  "wf_server_difficulty p \<longleftrightarrow> True"

interpretation server_difficulty: packet_codec server_difficulty_encode server_difficulty_decode wf_server_difficulty
  by unfold_locales
     (auto simp: server_difficulty_encode_def server_difficulty_decode_def wf_server_difficulty_def packet_wf intro!: carries_rules safe_rules)

record resource_pack_push =
  rpp_uuid :: uuid
  rpp_url :: rstring
  rpp_hash :: rstring
  rpp_required :: bool
  rpp_prompt :: "rstring option"

definition resource_pack_push_id :: i32 where "resource_pack_push_id = 0x4f"

definition resource_pack_push_decode :: "resource_pack_push io" where
  "resource_pack_push_decode =
     bindE get_uuid (\<lambda>uuid.
     bindE get_string (\<lambda>url.
     bindE get_string (\<lambda>hash.
     bindE get_bool (\<lambda>required.
     bindE (get_opt get_string) (\<lambda>prompt.
     ret \<lparr>rpp_uuid = uuid, rpp_url = url, rpp_hash = hash, rpp_required = required,
        rpp_prompt = prompt\<rparr>)))))"

definition resource_pack_push_encode :: "resource_pack_push \<Rightarrow> unit io" where
  "resource_pack_push_encode p =
    seqE (put_uuid (rpp_uuid p))
    (seqE (put_string (rpp_url p))
    (seqE (put_string (rpp_hash p))
    (seqE (put_bool (rpp_required p))
    (seqE (put_opt put_string (rpp_prompt p)) put_end))))"

definition wf_resource_pack_push :: "resource_pack_push \<Rightarrow> bool" where
  "wf_resource_pack_push p \<longleftrightarrow> wf_uuid (rpp_uuid p) \<and> wf_string (rpp_url p) \<and> wf_string (rpp_hash p) \<and>
     pred_option wf_string (rpp_prompt p)"

interpretation resource_pack_push: packet_codec resource_pack_push_encode resource_pack_push_decode wf_resource_pack_push
  by unfold_locales
     (auto simp: resource_pack_push_encode_def resource_pack_push_decode_def wf_resource_pack_push_def packet_wf intro!: carries_rules safe_rules)

record resource_pack_pop =
  repapo_uuid :: "uuid option"

definition resource_pack_pop_id :: i32 where "resource_pack_pop_id = 0x4e"

definition resource_pack_pop_decode :: "resource_pack_pop io" where
  "resource_pack_pop_decode =
     bindE (get_opt get_uuid) (\<lambda>uuid.
     ret \<lparr>repapo_uuid = uuid\<rparr>)"

definition resource_pack_pop_encode :: "resource_pack_pop \<Rightarrow> unit io" where
  "resource_pack_pop_encode p =
    seqE (put_opt put_uuid (repapo_uuid p)) put_end"

definition wf_resource_pack_pop :: "resource_pack_pop \<Rightarrow> bool" where
  "wf_resource_pack_pop p \<longleftrightarrow> pred_option wf_uuid (repapo_uuid p)"

interpretation resource_pack_pop: packet_codec resource_pack_pop_encode resource_pack_pop_decode wf_resource_pack_pop
  by unfold_locales
     (auto simp: resource_pack_pop_encode_def resource_pack_pop_decode_def wf_resource_pack_pop_def packet_wf intro!: carries_rules safe_rules)

record scoreboard_objective =
  so_objective_name :: rstring
  so_action :: i32
  so_display_name :: rstring
  so_objective_type :: i32

definition scoreboard_objective_id :: i32 where "scoreboard_objective_id = 0x68"

definition scoreboard_objective_decode :: "scoreboard_objective io" where
  "scoreboard_objective_decode =
     bindE get_string (\<lambda>objective_name.
     bindE get_varint (\<lambda>action.
     bindE get_string (\<lambda>display_name.
     bindE get_varint (\<lambda>objective_type.
     ret \<lparr>so_objective_name = objective_name, so_action = action,
        so_display_name = display_name, so_objective_type = objective_type\<rparr>))))"

definition scoreboard_objective_encode :: "scoreboard_objective \<Rightarrow> unit io" where
  "scoreboard_objective_encode p =
    seqE (put_string (so_objective_name p))
    (seqE (put_varint (so_action p))
    (seqE (put_string (so_display_name p))
    (seqE (put_varint (so_objective_type p)) put_end)))"

definition wf_scoreboard_objective :: "scoreboard_objective \<Rightarrow> bool" where
  "wf_scoreboard_objective p \<longleftrightarrow> wf_string (so_objective_name p) \<and> wf_string (so_display_name p)"

interpretation scoreboard_objective: packet_codec scoreboard_objective_encode scoreboard_objective_decode wf_scoreboard_objective
  by unfold_locales
     (auto simp: scoreboard_objective_encode_def scoreboard_objective_decode_def wf_scoreboard_objective_def packet_wf intro!: carries_rules safe_rules)

record teams =
  te_team_name :: rstring
  te_action :: i32
  te_display_name :: rstring
  te_prefix :: rstring
  te_suffix :: rstring
  te_color :: i32
  te_members :: "rstring list"

definition teams_id :: i32 where "teams_id = 0x6b"

definition teams_decode :: "teams io" where
  "teams_decode =
     bindE get_string (\<lambda>team_name.
     bindE get_varint (\<lambda>action.
     bindE get_string (\<lambda>display_name.
     bindE get_string (\<lambda>prefix.
     bindE get_string (\<lambda>suffix.
     bindE get_varint (\<lambda>color.
     bindE (get_varint_array get_string) (\<lambda>members.
     ret \<lparr>te_team_name = team_name, te_action = action, te_display_name = display_name,
        te_prefix = prefix, te_suffix = suffix, te_color = color, te_members = members\<rparr>)))))))"

definition teams_encode :: "teams \<Rightarrow> unit io" where
  "teams_encode p =
    seqE (put_string (te_team_name p))
    (seqE (put_varint (te_action p))
    (seqE (put_string (te_display_name p))
    (seqE (put_string (te_prefix p))
    (seqE (put_string (te_suffix p))
    (seqE (put_varint (te_color p))
    (seqE (put_varint_array put_string (te_members p)) put_end))))))"

definition wf_teams :: "teams \<Rightarrow> bool" where
  "wf_teams p \<longleftrightarrow> wf_string (te_team_name p) \<and> wf_string (te_display_name p) \<and>
     wf_string (te_prefix p) \<and> wf_string (te_suffix p) \<and>
     wf_array wf_string (te_members p)"

interpretation teams: packet_codec teams_encode teams_decode wf_teams
  by unfold_locales
     (auto simp: teams_encode_def teams_decode_def wf_teams_def packet_wf intro!: carries_rules safe_rules)

record update_score =
  us_entity_name :: rstring
  us_action :: i32
  us_objective_name :: rstring
  us_value :: "i32 option"

definition update_score_id :: i32 where "update_score_id = 0x6c"

definition update_score_decode :: "update_score io" where
  "update_score_decode =
     bindE get_string (\<lambda>entity_name.
     bindE get_varint (\<lambda>action.
     bindE get_string (\<lambda>objective_name.
     bindE (get_opt get_varint) (\<lambda>value.
     ret \<lparr>us_entity_name = entity_name, us_action = action,
        us_objective_name = objective_name, us_value = value\<rparr>))))"

definition update_score_encode :: "update_score \<Rightarrow> unit io" where
  "update_score_encode p =
    seqE (put_string (us_entity_name p))
    (seqE (put_varint (us_action p))
    (seqE (put_string (us_objective_name p))
    (seqE (put_opt put_varint (us_value p)) put_end)))"

definition wf_update_score :: "update_score \<Rightarrow> bool" where
  "wf_update_score p \<longleftrightarrow> wf_string (us_entity_name p) \<and> wf_string (us_objective_name p)"

interpretation update_score: packet_codec update_score_encode update_score_decode wf_update_score
  by unfold_locales
     (auto simp: update_score_encode_def update_score_decode_def wf_update_score_def packet_wf intro!: carries_rules safe_rules)

record reset_score =
  resc_entity_name :: rstring
  resc_has_objective :: bool
  resc_objective_name :: "rstring option"

definition reset_score_id :: i32 where "reset_score_id = 0x4d"

definition reset_score_decode :: "reset_score io" where
  "reset_score_decode =
     bindE get_string (\<lambda>entity_name.
     bindE get_bool (\<lambda>has_objective.
     bindE (get_when has_objective get_string) (\<lambda>objective_name.
     ret \<lparr>resc_entity_name = entity_name, resc_has_objective = has_objective,
        resc_objective_name = objective_name\<rparr>)))"

definition reset_score_encode :: "reset_score \<Rightarrow> unit io" where
  "reset_score_encode p =
    seqE (put_string (resc_entity_name p))
    (seqE (put_opt put_string (resc_objective_name p)) put_end)"

definition wf_reset_score :: "reset_score \<Rightarrow> bool" where
  "wf_reset_score p \<longleftrightarrow> wf_string (resc_entity_name p) \<and> resc_has_objective p = (resc_objective_name p \<noteq> None) \<and>
     pred_option wf_string (resc_objective_name p)"

interpretation reset_score: packet_codec reset_score_encode reset_score_decode wf_reset_score
  by unfold_locales
     (auto simp: reset_score_encode_def reset_score_decode_def wf_reset_score_def put_opt_when bindE_assoc
       intro!: carries_rules safe_rules)

record display_scoreboard =
  disc_position :: i8
  disc_objective_name :: rstring

definition display_scoreboard_id :: i32 where "display_scoreboard_id = 0x60"

definition display_scoreboard_decode :: "display_scoreboard io" where
  "display_scoreboard_decode =
     bindE get_i8 (\<lambda>position.
     bindE get_string (\<lambda>objective_name.
     ret \<lparr>disc_position = position, disc_objective_name = objective_name\<rparr>))"

definition display_scoreboard_encode :: "display_scoreboard \<Rightarrow> unit io" where
  "display_scoreboard_encode p =
    seqE (put_i8 (disc_position p))
    (seqE (put_string (disc_objective_name p)) put_end)"

definition wf_display_scoreboard :: "display_scoreboard \<Rightarrow> bool" where
  "wf_display_scoreboard p \<longleftrightarrow> wf_string (disc_objective_name p)"

interpretation display_scoreboard: packet_codec display_scoreboard_encode display_scoreboard_decode wf_display_scoreboard
  by unfold_locales
     (auto simp: display_scoreboard_encode_def display_scoreboard_decode_def wf_display_scoreboard_def packet_wf intro!: carries_rules safe_rules)

datatype boss_bar_action =
    BbAdd rstring f32 i32 i32 u8
  | BbRemove
  | BbUpdateHealth f32
  | BbUpdateTitle rstring
  | BbUpdateStyle i32 i32
  | BbUpdateFlags u8

record boss_bar =
  bb_uuid :: uuid
  bb_action :: boss_bar_action

definition boss_bar_id :: i32 where "boss_bar_id = 0x09"

definition boss_bar_action_id :: "boss_bar_action \<Rightarrow> i32" where
  "boss_bar_action_id a =
     (case a of BbAdd _ _ _ _ _ \<Rightarrow> 0 | BbRemove \<Rightarrow> 1 | BbUpdateHealth _ \<Rightarrow> 2 | BbUpdateTitle _ \<Rightarrow> 3
      | BbUpdateStyle _ _ \<Rightarrow> 4 | BbUpdateFlags _ \<Rightarrow> 5)"

definition put_boss_bar_action :: "boss_bar_action \<Rightarrow> unit io" where
  "put_boss_bar_action a =
     (case a of
        BbAdd title health color division flags \<Rightarrow>
          seqE (put_string title) (seqE (put_f32 health) (seqE (put_varint color)
          (seqE (put_varint division) (put_u8 flags))))
      | BbRemove \<Rightarrow> ret ()
      | BbUpdateHealth health \<Rightarrow> put_f32 health
      | BbUpdateTitle title \<Rightarrow> put_string title
      | BbUpdateStyle color division \<Rightarrow> seqE (put_varint color) (put_varint division)
      | BbUpdateFlags flags \<Rightarrow> put_u8 flags)"

definition get_boss_bar_action :: "i32 \<Rightarrow> boss_bar_action io" where
  "get_boss_bar_action i =
     (if i = 0 then
        bindE get_string (\<lambda>title. bindE get_f32 (\<lambda>health. bindE get_varint (\<lambda>color.
        bindE get_varint (\<lambda>division. bindE get_u8 (\<lambda>flags. ret (BbAdd title health color division flags))))))
      else if i = 1 then ret BbRemove
      else if i = 2 then bindE get_f32 (\<lambda>health. ret (BbUpdateHealth health))
      else if i = 3 then bindE get_string (\<lambda>title. ret (BbUpdateTitle title))
      else if i = 4 then bindE get_varint (\<lambda>color. bindE get_varint (\<lambda>division. ret (BbUpdateStyle color division)))
      else if i = 5 then bindE get_u8 (\<lambda>flags. ret (BbUpdateFlags flags))
      else throw InvalidValue)"

definition wf_boss_bar_action :: "boss_bar_action \<Rightarrow> bool" where
  "wf_boss_bar_action a =
     (case a of BbAdd title _ _ _ _ \<Rightarrow> wf_string title | BbUpdateTitle title \<Rightarrow> wf_string title | _ \<Rightarrow> True)"

lemma carries_boss_bar_action:
  "wf_boss_bar_action a \<Longrightarrow> carries (put_boss_bar_action a) (get_boss_bar_action (boss_bar_action_id a)) a"
  by (cases a)
     (auto simp: put_boss_bar_action_def get_boss_bar_action_def boss_bar_action_id_def wf_boss_bar_action_def
       intro!: carries_bind [OF carries_varint] carries_bind [OF carries_f32] carries_bind [OF carries_string]
         carries_tail [OF carries_varint] carries_tail [OF carries_f32] carries_tail [OF carries_string]
         carries_tail [OF carries_u8] carries_ret)

lemma safe_boss_bar_action [safe_rules]: "cursor_safe (get_boss_bar_action i)"
  unfolding get_boss_bar_action_def by (intro safe_rules)

definition boss_bar_decode :: "boss_bar io" where
  "boss_bar_decode =
     bindE get_uuid (\<lambda>uuid.
     bindE get_varint (\<lambda>action_id.
     bindE (get_boss_bar_action action_id) (\<lambda>action.
     ret \<lparr>bb_uuid = uuid, bb_action = action\<rparr>)))"

definition boss_bar_encode :: "boss_bar \<Rightarrow> unit io" where
  "boss_bar_encode p =
    seqE (put_uuid (bb_uuid p))
    (seqE (put_varint (boss_bar_action_id (bb_action p)))
    (seqE (put_boss_bar_action (bb_action p)) put_end))"

definition wf_boss_bar :: "boss_bar \<Rightarrow> bool" where
  "wf_boss_bar p \<longleftrightarrow> wf_uuid (bb_uuid p) \<and> wf_boss_bar_action (bb_action p)"

interpretation boss_bar: packet_codec boss_bar_encode boss_bar_decode wf_boss_bar
  by unfold_locales
     (auto simp: boss_bar_encode_def boss_bar_decode_def wf_boss_bar_def wf_uuid_def
       intro!: carries_rules carries_boss_bar_action safe_rules)

record advancements =
  ad_clear :: bool
  ad_advancements :: "(rstring \<times> (rstring option) \<times> rstring list) list"
  ad_removed :: "rstring list"

definition advancements_id :: i32 where "advancements_id = 0x80"

definition advancements_decode :: "advancements io" where
  "advancements_decode =
     bindE get_bool (\<lambda>clear.
     bindE (get_varint_array (get_pair get_string (get_pair (get_opt get_string) (get_varint_array get_string)))) (\<lambda>advancements.
     bindE (get_varint_array get_string) (\<lambda>removed.
     ret \<lparr>ad_clear = clear, ad_advancements = advancements, ad_removed = removed\<rparr>)))"

definition advancements_encode :: "advancements \<Rightarrow> unit io" where
  "advancements_encode p =
    seqE (put_bool (ad_clear p))
    (seqE (put_varint_array (put_pair put_string (put_pair (put_opt put_string) (put_varint_array put_string))) (ad_advancements p))
    (seqE (put_varint_array put_string (ad_removed p)) put_end))"

definition wf_advancements :: "advancements \<Rightarrow> bool" where
  "wf_advancements p \<longleftrightarrow> 
     wf_array (pair_wf wf_string (pair_wf (pred_option wf_string) (wf_array wf_string))) (ad_advancements p) \<and>
     wf_array wf_string (ad_removed p)"

lemma carries_advancement:
  "pair_wf wf_string (pair_wf (pred_option wf_string) (wf_array wf_string)) a \<Longrightarrow>
   carries (put_pair put_string (put_pair (put_opt put_string) (put_varint_array put_string)) a)
     (get_pair get_string (get_pair (get_opt get_string) (get_varint_array get_string))) a"
  by (intro carries_pair carries_rules) (auto simp: packet_wf)

interpretation advancements: packet_codec advancements_encode advancements_decode wf_advancements
proof
  show "carries (advancements_encode p) advancements_decode p" if "wf_advancements p" for p
    unfolding advancements_encode_def advancements_decode_def
    by (rule carries_bind [OF carries_bool], rule carries_bind [OF carries_varint_array [OF _ carries_advancement]])
      (use that in \<open>auto simp: wf_advancements_def packet_wf intro!: carries_rules\<close>)
qed (auto simp: advancements_decode_def intro!: safe_rules)


record recipe_book_remove =
  rbr_recipe_ids :: "rstring list"

definition recipe_book_remove_id :: i32 where "recipe_book_remove_id = 0x49"

definition recipe_book_remove_decode :: "recipe_book_remove io" where
  "recipe_book_remove_decode =
     bindE (get_varint_array get_string) (\<lambda>recipe_ids.
     ret \<lparr>rbr_recipe_ids = recipe_ids\<rparr>)"

definition recipe_book_remove_encode :: "recipe_book_remove \<Rightarrow> unit io" where
  "recipe_book_remove_encode p =
    seqE (put_varint_array put_string (rbr_recipe_ids p)) put_end"

definition wf_recipe_book_remove :: "recipe_book_remove \<Rightarrow> bool" where
  "wf_recipe_book_remove p \<longleftrightarrow> wf_array wf_string (rbr_recipe_ids p)"

interpretation recipe_book_remove: packet_codec recipe_book_remove_encode recipe_book_remove_decode wf_recipe_book_remove
  by unfold_locales
     (auto simp: recipe_book_remove_encode_def recipe_book_remove_decode_def wf_recipe_book_remove_def packet_wf intro!: carries_rules safe_rules)

record recipe_book_settings =
  rbs_crafting_open :: bool
  rbs_crafting_filter :: bool
  rbs_smelting_open :: bool
  rbs_smelting_filter :: bool
  rbs_blast_furnace_open :: bool
  rbs_blast_furnace_filter :: bool
  rbs_smoker_open :: bool
  rbs_smoker_filter :: bool

definition recipe_book_settings_id :: i32 where "recipe_book_settings_id = 0x4a"

definition recipe_book_settings_decode :: "recipe_book_settings io" where
  "recipe_book_settings_decode =
     bindE get_bool (\<lambda>crafting_open.
     bindE get_bool (\<lambda>crafting_filter.
     bindE get_bool (\<lambda>smelting_open.
     bindE get_bool (\<lambda>smelting_filter.
     bindE get_bool (\<lambda>blast_furnace_open.
     bindE get_bool (\<lambda>blast_furnace_filter.
     bindE get_bool (\<lambda>smoker_open.
     bindE get_bool (\<lambda>smoker_filter.
     ret \<lparr>rbs_crafting_open = crafting_open, rbs_crafting_filter = crafting_filter,
        rbs_smelting_open = smelting_open, rbs_smelting_filter = smelting_filter,
        rbs_blast_furnace_open = blast_furnace_open,
        rbs_blast_furnace_filter = blast_furnace_filter, rbs_smoker_open = smoker_open,
        rbs_smoker_filter = smoker_filter\<rparr>))))))))"

definition recipe_book_settings_encode :: "recipe_book_settings \<Rightarrow> unit io" where
  "recipe_book_settings_encode p =
    seqE (put_bool (rbs_crafting_open p))
    (seqE (put_bool (rbs_crafting_filter p))
    (seqE (put_bool (rbs_smelting_open p))
    (seqE (put_bool (rbs_smelting_filter p))
    (seqE (put_bool (rbs_blast_furnace_open p))
    (seqE (put_bool (rbs_blast_furnace_filter p))
    (seqE (put_bool (rbs_smoker_open p))
    (seqE (put_bool (rbs_smoker_filter p)) put_end)))))))"

definition wf_recipe_book_settings :: "recipe_book_settings \<Rightarrow> bool" where
  "wf_recipe_book_settings p \<longleftrightarrow> True"

interpretation recipe_book_settings: packet_codec recipe_book_settings_encode recipe_book_settings_decode wf_recipe_book_settings
  by unfold_locales
     (auto simp: recipe_book_settings_encode_def recipe_book_settings_decode_def wf_recipe_book_settings_def packet_wf intro!: carries_rules safe_rules)

record show_dialog =
  shdi_dialog_id :: uuid
  shdi_display_name :: component
  shdi_dialog_type :: i32
  shdi_actions :: "(i32 \<times> rstring \<times> rstring option) list"

definition show_dialog_id :: i32 where "show_dialog_id = 0x8a"

definition show_dialog_decode :: "show_dialog io" where
  "show_dialog_decode =
     bindE get_uuid (\<lambda>dialog_id.
     bindE decode_component (\<lambda>display_name.
     bindE get_varint (\<lambda>dialog_type.
     bindE (get_varint_array (get_pair get_varint (get_pair get_string (get_opt get_string)))) (\<lambda>actions.
     ret \<lparr>shdi_dialog_id = dialog_id, shdi_display_name = display_name,
        shdi_dialog_type = dialog_type, shdi_actions = actions\<rparr>))))"

definition show_dialog_encode :: "show_dialog \<Rightarrow> unit io" where
  "show_dialog_encode p =
    seqE (put_uuid (shdi_dialog_id p))
    (seqE (encode_component (shdi_display_name p))
    (seqE (put_varint (shdi_dialog_type p))
    (seqE (put_varint_array (put_pair put_varint (put_pair put_string (put_opt put_string))) (shdi_actions p)) put_end)))"

definition wf_show_dialog :: "show_dialog \<Rightarrow> bool" where
  "wf_show_dialog p \<longleftrightarrow> wf_uuid (shdi_dialog_id p) \<and> wf_component (shdi_display_name p) \<and>
     wf_array (pair_wf (\<lambda>_. True) (pair_wf wf_string (pred_option wf_string))) (shdi_actions p)"

lemma carries_dialog_action:
  "pair_wf (\<lambda>_. True) (pair_wf wf_string (pred_option wf_string)) a \<Longrightarrow>
   carries (put_pair put_varint (put_pair put_string (put_opt put_string)) a)
     (get_pair get_varint (get_pair get_string (get_opt get_string))) a"
  by (intro carries_pair carries_rules) (auto simp: packet_wf)

interpretation show_dialog: packet_codec show_dialog_encode show_dialog_decode wf_show_dialog
proof
  show "carries (show_dialog_encode p) show_dialog_decode p" if "wf_show_dialog p" for p
    using that unfolding show_dialog_encode_def show_dialog_decode_def
    by (intro carries_bind [OF carries_uuid] carries_bind [OF carries_text] carries_bind [OF carries_varint]
        carries_bind [OF carries_varint_array [OF _ carries_dialog_action]] carries_end)
      (auto simp: wf_show_dialog_def packet_wf)
qed (auto simp: show_dialog_decode_def intro!: safe_rules)


record clear_dialog =
  cd_dialog_id :: uuid

definition clear_dialog_id :: i32 where "clear_dialog_id = 0x89"

definition clear_dialog_decode :: "clear_dialog io" where
  "clear_dialog_decode =
     bindE get_uuid (\<lambda>dialog_id.
     ret \<lparr>cd_dialog_id = dialog_id\<rparr>)"

definition clear_dialog_encode :: "clear_dialog \<Rightarrow> unit io" where
  "clear_dialog_encode p =
    seqE (put_uuid (cd_dialog_id p)) put_end"

definition wf_clear_dialog :: "clear_dialog \<Rightarrow> bool" where
  "wf_clear_dialog p \<longleftrightarrow> wf_uuid (cd_dialog_id p)"

interpretation clear_dialog: packet_codec clear_dialog_encode clear_dialog_decode wf_clear_dialog
  by unfold_locales
     (auto simp: clear_dialog_encode_def clear_dialog_decode_def wf_clear_dialog_def packet_wf intro!: carries_rules safe_rules)

end
