(* ===== verification/World_Migration.thy ===== *)
theory World_Migration
  imports Ecs_World
begin

text \<open>
  Moving an entity from one world to another (\<open>ecs/migration.rs\<close>): its components are taken out of the
  columns of the source, the entity is destroyed there, placed in the target with its old handle when the
  slot is free, and the components are written to the columns of the target. The order in which the code
  walks the columns (a hash map) is the argument \<open>order\<close>. \<open>None\<close> is a panic.
\<close>

datatype migrate_error = EntityNotFound | AlreadyMigrated | DifferentKind

fun collect_components ::
  "'v component_registry \<Rightarrow> entity \<Rightarrow> archetype_id \<Rightarrow> nat \<Rightarrow> component_id list \<Rightarrow> 'v world \<Rightarrow>
   (component_id \<times> 'v) list \<times> 'v world" where
  "collect_components rg e arch idx [] w = ([], w)"
| "collect_components rg e arch idx (c # cs) w =
     (case w_archetypes w arch of
        None \<Rightarrow> ([], w)
      | Some st \<Rightarrow>
          (case st_columns st c of
             None \<Rightarrow> collect_components rg e arch idx cs w
           | Some col \<Rightarrow>
               (let (v, col') = (if column_is_sparse col then take_slot (unat (entity_slot e)) col
                                 else take_at (rg_default rg c) idx col);
                    (vs, w') = collect_components rg e arch idx cs (set_column arch st c col' w)
                in (case v of None \<Rightarrow> (vs, w') | Some x \<Rightarrow> ((c, x) # vs, w')))))"

fun write_components :: "entity \<Rightarrow> (component_id \<times> 'v) list \<Rightarrow> 'v world \<Rightarrow> bool \<times> 'v world" where
  "write_components e [] w = (True, w)"
| "write_components e ((c, v) # cvs) w =
     (case insert_any e c v w of Inl _ \<Rightarrow> (False, w) | Inr w' \<Rightarrow> write_components e cvs w')"

definition migrate_entity ::
  "'v component_registry \<Rightarrow> component_id list \<Rightarrow> entity \<Rightarrow> 'v world \<Rightarrow> 'v world \<Rightarrow>
   ((migrate_error + entity) \<times> 'v world \<times> 'v world) option" where
  "migrate_entity rg order e src dst =
     (if \<not> contains e src then Some (Inl (if contains e dst then AlreadyMigrated else EntityNotFound), src, dst)
      else
        (case w_index src e of
           None \<Rightarrow> Some (Inl EntityNotFound, src, dst)
         | Some (arch, idx) \<Rightarrow>
             (case w_archetypes dst arch of
                None \<Rightarrow> Some (Inl DifferentKind, src, dst)
              | Some st \<Rightarrow>
                  if df_entity_kind (st_def st) \<noteq> entity_type_id e then Some (Inl DifferentKind, src, dst)
                  else
                    (let (values, src1) = collect_components rg e arch idx order src;
                         src2 = snd (despawn e src1)
                     in (case spawn_exact rg arch e dst of
                           None \<Rightarrow> None
                         | Some (e', dst1) \<Rightarrow>
                             (case write_components e' values dst1 of
                                (True, dst2) \<Rightarrow> Some (Inr e', src2, dst2)
                              | (False, dst2) \<Rightarrow> Some (Inl DifferentKind, src2, dst2)))))))"

section \<open>Taking the components out\<close>

lemma collect_step:
  assumes "world_ok rg w" and "w_index w e = Some (a, i)" and "w_archetypes w a = Some st"
  shows "collect_components rg e a i (c # cs) w =
    (case remove_component rg e c w of (v, w1) \<Rightarrow>
       (case collect_components rg e a i cs w1 of (vs, w2) \<Rightarrow> (case v of None \<Rightarrow> (vs, w2) | Some x \<Rightarrow> ((c, x) # vs, w2))))"
proof (cases "st_columns st c")
  case None
  then show ?thesis using located_alive [OF assms] assms(3) by (simp add: remove_component_def split: prod.splits)
next
  case (Some col)
  then have "column_ok rg st c col" using world_okD(4) [OF assms(1,3)] by (simp add: storage_ok_def)
  then have "column_is_sparse col = rg_sparse rg c" by (cases col) (auto simp: column_ok_def column_is_sparse_def)
  moreover obtain v col' where
    t: "(if rg_sparse rg c then take_slot (unat (entity_slot e)) col else take_at (rg_default rg c) i col) = (v, col')"
    by fastforce
  moreover have "remove_component rg e c w = (v, set_column a st c col' w)"
    using located_alive [OF assms] Some t by (simp add: remove_component_def)
  moreover obtain vs w2 where "collect_components rg e a i cs (set_column a st c col' w) = (vs, w2)" by fastforce
  ultimately show ?thesis using assms(3) Some by simp
qed

text \<open>What is collected is what the entity has, in the order of the columns.\<close>

definition present :: "'v component_registry \<Rightarrow> entity \<Rightarrow> component_id list \<Rightarrow> 'v world \<Rightarrow> (component_id \<times> 'v) list" where
  "present rg e cs w =
     concat (map (\<lambda>c. case get_component rg e c w of None \<Rightarrow> [] | Some v \<Rightarrow> [(c, v)]) cs)"

lemma set_present: "(c, v) \<in> set (present rg e cs w) \<longleftrightarrow> c \<in> set cs \<and> get_component rg e c w = Some v"
  by (auto simp: present_def split: option.splits)

lemma present_cong:
  "(\<And>c. c \<in> set cs \<Longrightarrow> get_component rg e c w = get_component rg e c w') \<Longrightarrow> present rg e cs w = present rg e cs w'"
  unfolding present_def by (intro arg_cong [where f = concat] map_cong) auto

lemma collect_law:
  assumes "world_ok rg w" and "w_index w e = Some (a, i)" and "distinct cs"
  shows "fst (collect_components rg e a i cs w) = present rg e cs w \<and>
    world_ok rg (snd (collect_components rg e a i cs w)) \<and>
    w_index (snd (collect_components rg e a i cs w)) = w_index w \<and>
    w_entities (snd (collect_components rg e a i cs w)) = w_entities w \<and>
    (\<forall>f d. f \<noteq> e \<longrightarrow> get_component rg f d (snd (collect_components rg e a i cs w)) = get_component rg f d w)"
  using assms
proof (induction cs arbitrary: w)
  case Nil
  then show ?case by (simp add: present_def)
next
  case (Cons c cs)
  obtain st where st: "w_archetypes w a = Some st"
    using index_place_ex [OF world_okD(2) [OF Cons.prems(1)] Cons.prems(2)] by blast
  obtain v w1 where r: "remove_component rg e c w = (v, w1)" by fastforce
  note law = remove_law [OF Cons.prems(1) r]
  have ix: "w_index w1 e = Some (a, i)" using law Cons.prems(2) by simp
  have d: "distinct cs" "c \<notin> set cs" using Cons.prems(3) by simp_all
  have ok1: "world_ok rg w1" using law by blast
  obtain vs w2 where rest: "collect_components rg e a i cs w1 = (vs, w2)" by fastforce
  note ih = Cons.IH [OF ok1 ix d(1), unfolded rest]
  have same: "present rg e cs w1 = present rg e cs w"
    using law d(2) by (intro present_cong) auto
  have eq: "collect_components rg e a i (c # cs) w = (case v of None \<Rightarrow> (vs, w2) | Some x \<Rightarrow> ((c, x) # vs, w2))"
    using collect_step [OF Cons.prems(1,2) st, of c cs] r rest by simp
  have pr: "present rg e (c # cs) w = (case v of None \<Rightarrow> vs | Some x \<Rightarrow> (c, x) # vs)"
    using ih law same by (simp add: present_def split: option.splits)
  have facts: "world_ok rg w2" "w_index w2 = w_index w" "w_entities w2 = w_entities w"
    "\<And>f d. f \<noteq> e \<Longrightarrow> get_component rg f d w2 = get_component rg f d w"
    using ih law by simp_all
  show ?case unfolding eq pr by (cases v) (simp_all add: facts)
qed

section \<open>Placing and writing\<close>

lemma exact_alive:
  assumes "allocate_exact k e t = (Some e', t')" and "arena_ok t"
  shows "e' = e" and "\<not> arena_is_alive e t" and "arena_is_alive f t' \<longleftrightarrow> arena_is_alive f t \<or> f = e"
    and "entity_type_id e = k"
proof -
  define a where "a = arena_of k t"
  define i where "i = unat (entity_slot e)"
  define grown where "grown = ta_slots a @ replicate (i + 1 - length (ta_slots a)) \<lparr>sl_generation = 0, sl_occupied = False\<rparr>"
  obtain free where k: "entity_type_id e = k" and e: "e' = e"
    and fr: "\<not> (i < length (ta_slots a) \<and> sl_occupied (ta_slots a ! i))"
    and t': "t' = t(k \<mapsto> a\<lparr>ta_slots := grown[i := \<lparr>sl_generation = entity_generation e, sl_occupied = True\<rparr>],
        ta_free := free, ta_len := ta_len a + 1\<rparr>)"
    using assms(1) unfolding allocate_exact_def Let_def grown_def i_def a_def by (auto split: if_splits)
  show "e' = e" "entity_type_id e = k" by (rule e, rule k)
  have alive: "arena_is_alive f t \<longleftrightarrow> type_is_alive f (arena_of (entity_type_id f) t)" for f t by (rule alive_in_arena)
  show "\<not> arena_is_alive e t" using fr k by (auto simp: alive type_is_alive_def Let_def simp flip: a_def i_def)
  have i: "i < length grown" by (auto simp: grown_def)
  have at: "type_is_alive f (arena_of k t') \<longleftrightarrow> type_is_alive f a \<or> f = e" if f: "entity_type_id f = k" for f
  proof (cases "entity_slot f = entity_slot e")
    case True
    have "type_is_alive f (arena_of k t') \<longleftrightarrow> entity_generation f = entity_generation e"
      using True i by (auto simp: t' arena_of_update type_is_alive_def Let_def simp flip: i_def)
    moreover have "\<not> type_is_alive f a" using fr True by (auto simp: type_is_alive_def Let_def simp flip: i_def)
    ultimately show ?thesis using True f k entity_eqI [of f e] by auto
  next
    case False
    then have "unat (entity_slot f) \<noteq> i" by (simp add: i_def word_unat_eq_iff)
    then show ?thesis
      using False by (auto simp: t' arena_of_update type_is_alive_def Let_def grown_def nth_append split: if_splits)
  qed
  show "arena_is_alive f t' \<longleftrightarrow> arena_is_alive f t \<or> f = e"
  proof (cases "entity_type_id f = k")
    case True
    then show ?thesis using at [OF True] by (simp add: alive a_def)
  next
    case False
    then show ?thesis using k by (auto simp: alive t' arena_of_update)
  qed
qed

lemma exact_none:
  assumes "allocate_exact k e t = (None, t')" and "arena_ok t"
  shows "arena_of j t' = arena_of j t" and "arena_ok t'" and "arena_is_alive f t' = arena_is_alive f t"
proof -
  have "t' = t \<or> t' = t(k \<mapsto> arena_of k t)"
    using assms(1) by (auto simp: allocate_exact_def Let_def split: if_splits)
  then show 1: "arena_of j t' = arena_of j t" for j by (auto simp: arena_of_update)
  show "arena_is_alive f t' = arena_is_alive f t" by (simp add: alive_in_arena 1)
  show "arena_ok t'" using \<open>t' = t \<or> _\<close> assms(2) arena_ok_update [OF assms(2) arena_ok_of [OF assms(2)]] by auto
qed

lemma spawn_exact_law:
  assumes "world_ok rg w" and "w_archetypes w a = Some st" and "arena_room (df_entity_kind (st_def st)) (w_entities w)"
  obtains e' w' where "spawn_exact rg a e w = Some (e', w')" and "world_ok rg w'" and "\<not> contains e' w"
    and "w_index w' e' \<noteq> None" and "entity_archetype w' e' = Some a"
    and "\<And>f c. f \<noteq> e' \<Longrightarrow> get_component rg f c w' = get_component rg f c w"
    and "\<And>f. contains f w' \<longleftrightarrow> contains f w \<or> f = e'"
    and "w_archetypes w' a = Some (st\<lparr>st_columns := (\<lambda>c. map_option (push_default (rg_default rg c)) (st_columns st c)),
        st_slots := st_slots st @ [e']\<rparr>)"
    and "entity_type_id e = df_entity_kind (st_def st) \<and> \<not> (\<exists>f. contains f w \<and> entity_type_id f = entity_type_id e \<and> entity_slot f = entity_slot e) \<longrightarrow> e' = e"
proof -
  let ?k = "df_entity_kind (st_def st)"
  have ok: "arena_ok (w_entities w)" by (rule world_okD(1) [OF assms(1)])
  obtain r t1 where ex: "allocate_exact ?k e (w_entities w) = (r, t1)" by fastforce
  have "\<exists>e' t. spawn_exact rg a e w = Some (e', place rg a st e' (w\<lparr>w_entities := t\<rparr>)) \<and> arena_ok t \<and>
      \<not> arena_is_alive e' (w_entities w) \<and> entity_type_id e' = ?k \<and>
      (\<forall>f. arena_is_alive f t \<longleftrightarrow> arena_is_alive f (w_entities w) \<or> f = e') \<and> (r \<noteq> None \<longrightarrow> e' = e)"
  proof (cases r)
    case (Some e')
    note al = exact_alive [OF ex [unfolded Some] ok]
    have "arena_ok t1" using exact_keeps_ok [OF ok ex [unfolded Some]] by blast
    then show ?thesis using al ex Some assms(2) by (intro exI [of _ e] exI [of _ t1]) (simp add: spawn_exact_def)
  next
    case None
    note no = exact_none [OF ex [unfolded None] ok]
    have room: "arena_room ?k t1" using assms(3) no(1) by (simp add: arena_room_def)
    obtain e' t where al: "arena_allocate ?k t1 = Some (e', t)" using arena_allocate_some [OF no(2) room] by auto
    note facts = allocate_facts [OF no(2) room al]
    show ?thesis
      using facts no(3) al ex None assms(2)
      by (intro exI [of _ e'] exI [of _ t]) (simp add: spawn_exact_def)
  qed
  then obtain e' t where sp: "spawn_exact rg a e w = Some (e', place rg a st e' (w\<lparr>w_entities := t\<rparr>))" and t: "arena_ok t"
    and new: "\<not> arena_is_alive e' (w_entities w)" and kind: "entity_type_id e' = ?k"
    and al: "\<And>f. arena_is_alive f t \<longleftrightarrow> arena_is_alive f (w_entities w) \<or> f = e'" and same: "r \<noteq> None \<longrightarrow> e' = e"
    by blast
  define w' where "w' = place rg a st e' (w\<lparr>w_entities := t\<rparr>)"
  have "w_index w e' = None" using world_okD(3) [OF assms(1), of e'] new by blast
  note law = place_law [OF assms(1,2) this kind t al, folded w'_def]
  have "e' = e" if "entity_type_id e = ?k"
    "\<not> (\<exists>f. contains f w \<and> entity_type_id f = entity_type_id e \<and> entity_slot f = entity_slot e)"
  proof (cases "r = None")
    case True
    let ?a = "arena_of ?k (w_entities w)"
    let ?i = "unat (entity_slot e)"
    have "?i < length (ta_slots ?a) \<and> sl_occupied (ta_slots ?a ! ?i)"
      using ex True that(1) by (auto simp: allocate_exact_def Let_def split: if_splits)
    moreover define f where "f = from_parts ?k (sl_generation (ta_slots ?a ! ?i)) (entity_slot e)"
    moreover have "sl_generation (ta_slots ?a ! ?i) \<le> MAX_GENERATION"
      using calculation arena_ok_of [OF ok, of ?k] by (auto simp: type_ok_def)
    ultimately have "contains f w"
      by (simp add: contains_def alive_in_arena type_is_alive_def type_id_from_parts generation_from_parts slot_from_parts Let_def)
    moreover have "entity_type_id f = ?k" "entity_slot f = entity_slot e"
      using \<open>sl_generation _ \<le> MAX_GENERATION\<close> by (simp_all add: f_def type_id_from_parts slot_from_parts)
    ultimately have "contains f w \<and> entity_type_id f = entity_type_id e \<and> entity_slot f = entity_slot e"
      using that(1) by simp
    then show ?thesis using that(2) by (metis (no_types))
  next
    case False
    then show ?thesis using same by simp
  qed
  note kept = this
  show thesis
  proof (rule that [of e' w'])
    show "spawn_exact rg a e w = Some (e', w')" using sp by (simp add: w'_def)
    show "world_ok rg w'" using law by blast
    show "\<not> contains e' w" using new by (simp add: contains_def)
    show "w_index w' e' \<noteq> None" "entity_archetype w' e' = Some a" using law by (simp_all add: entity_archetype_def)
    show "get_component rg f c w' = get_component rg f c w" if "f \<noteq> e'" for f c using law that by blast
    show "contains f w' \<longleftrightarrow> contains f w \<or> f = e'" for f
      using al [of f] by (simp add: contains_def w'_def place_def Let_def)
    show "w_archetypes w' a = Some (st\<lparr>st_columns := (\<lambda>c. map_option (push_default (rg_default rg c)) (st_columns st c)),
        st_slots := st_slots st @ [e']\<rparr>)"
      by (simp add: w'_def place_def Let_def)
  qed (use kept in blast)
qed

lemma insert_any_succeeds:
  assumes "world_ok rg w" and "w_index w e = Some (a, i)" and "w_archetypes w a = Some st" and "st_columns st c = Some col"
  shows "\<exists>w' st'. insert_any e c v w = Inr w' \<and> w_archetypes w' a = Some st' \<and> dom (st_columns st') = dom (st_columns st)"
proof -
  have "i < length (st_slots st)" "column_ok rg st c col"
    using index_in_slots(1) [OF assms(1-3)] world_okD(4) [OF assms(1,3)] assms(4) by (simp_all add: storage_ok_def)
  then have "fst (insert_at (if column_is_sparse col then unat (entity_slot e) else i) v col)"
    by (cases col) (auto simp: insert_at_def column_is_sparse_def column_ok_def)
  then show ?thesis
    using located_alive [OF assms(1-3)] assms(4)
    by (cases "insert_at (if column_is_sparse col then unat (entity_slot e) else i) v col")
      (auto simp: insert_any_def set_column_def)
qed

lemma write_components_law:
  assumes "world_ok rg w" and "w_index w e = Some (a, i)" and "w_archetypes w a = Some st"
    and "fst ` set cvs \<subseteq> dom (st_columns st)" and "distinct (map fst cvs)"
  shows "fst (write_components e cvs w) \<and> world_ok rg (snd (write_components e cvs w)) \<and>
    w_entities (snd (write_components e cvs w)) = w_entities w \<and>
    (\<forall>f d. get_component rg f d (snd (write_components e cvs w)) =
       (if f = e \<and> d \<in> fst ` set cvs then map_of cvs d else get_component rg f d w))"
  using assms
proof (induction cvs arbitrary: w st)
  case (Cons p cvs)
  obtain c v where p: "p = (c, v)" by (cases p)
  obtain col where col: "st_columns st c = Some col" using Cons.prems(4) p by auto
  obtain w1 st1 where w1: "insert_any e c v w = Inr w1" "w_archetypes w1 a = Some st1"
    "dom (st_columns st1) = dom (st_columns st)"
    using insert_any_succeeds [OF Cons.prems(1-3) col] by blast
  note law = insert_any_law [OF Cons.prems(1) w1(1)]
  have ix: "w_index w1 e = Some (a, i)" and ok: "world_ok rg w1" using law Cons.prems(2) by simp_all
  note ih = Cons.IH [OF ok ix w1(2)]
  have "fst ` set cvs \<subseteq> dom (st_columns st1)" "distinct (map fst cvs)" using Cons.prems(4,5) w1(3) by auto
  note ih = ih [OF this]
  have "c \<notin> fst ` set cvs" using Cons.prems(5) p by simp
  then show ?case using ih law w1(1) p by auto
qed simp

section \<open>Migration\<close>

lemma migrate_law:
  assumes "world_ok rg src" and "world_ok rg dst" and "w_index src e = Some (a, i)" and "w_archetypes src a = Some ss"
    and "w_archetypes dst a = Some sd" and "df_entity_kind (st_def sd) = entity_type_id e"
    and "arena_room (entity_type_id e) (w_entities dst)"
    and "distinct order" and "set order = dom (st_columns ss)"
    and "\<And>c. get_component rg e c src \<noteq> None \<Longrightarrow> st_columns sd c \<noteq> None"
  obtains e' src' dst' where "migrate_entity rg order e src dst = Some (Inr e', src', dst')"
    and "world_ok rg src'" and "world_ok rg dst'"
    and "\<And>f. contains f src' \<longleftrightarrow> contains f src \<and> f \<noteq> e" and "\<And>f. contains f dst' \<longleftrightarrow> contains f dst \<or> f = e'"
    and "\<not> contains e' dst" and "\<And>c v. get_component rg e c src = Some v \<Longrightarrow> get_component rg e' c dst' = Some v"
    and "\<And>f c. f \<noteq> e \<Longrightarrow> get_component rg f c src' = get_component rg f c src"
    and "\<And>f c. f \<noteq> e' \<Longrightarrow> get_component rg f c dst' = get_component rg f c dst"
    and "(\<nexists>f. contains f dst \<and> entity_type_id f = entity_type_id e \<and> entity_slot f = entity_slot e) \<longrightarrow> e' = e"
proof -
  have here: "contains e src" using world_okD(3) [OF assms(1), of e] assms(3) by (simp add: contains_def)
  obtain vs src1 where col: "collect_components rg e a i order src = (vs, src1)" by fastforce
  note claw = collect_law [OF assms(1,3,8), unfolded col]
  have ok1: "world_ok rg src1" and ix1: "w_index src1 e = Some (a, i)" using claw assms(3) by simp_all
  note dlaw = despawn_law [OF ok1 ix1]
  have room: "arena_room (df_entity_kind (st_def sd)) (w_entities dst)" using assms(7) by (simp only: assms(6))
  obtain e' dst1 where sp: "spawn_exact rg a e dst = Some (e', dst1)" "world_ok rg dst1" "\<not> contains e' dst"
    "w_index dst1 e' \<noteq> None" "entity_archetype dst1 e' = Some a"
    "\<And>f c. f \<noteq> e' \<Longrightarrow> get_component rg f c dst1 = get_component rg f c dst"
    "\<And>f. contains f dst1 \<longleftrightarrow> contains f dst \<or> f = e'"
    "w_archetypes dst1 a = Some (sd\<lparr>st_columns := (\<lambda>c. map_option (push_default (rg_default rg c)) (st_columns sd c)),
        st_slots := st_slots sd @ [e']\<rparr>)"
    "entity_type_id e = df_entity_kind (st_def sd) \<and> \<not> (\<exists>f. contains f dst \<and> entity_type_id f = entity_type_id e \<and> entity_slot f = entity_slot e) \<longrightarrow> e' = e"
    by (rule spawn_exact_law [OF assms(2,5) room, of e]) blast
  obtain j where ixd: "w_index dst1 e' = Some (a, j)" using sp(4,5) by (auto simp: entity_archetype_def)
  have vs: "vs = present rg e order src" using claw by simp
  have "fst ` set vs \<subseteq> dom (st_columns sd)" using assms(10) by (auto simp: vs set_present)
  moreover have "distinct (map fst vs)"
  proof -
    have "map fst (present rg e cs src) = filter (\<lambda>c. get_component rg e c src \<noteq> None) cs" for cs
      by (induction cs) (auto simp: present_def split: option.splits)
    then show ?thesis using assms(8) by (simp add: vs)
  qed
  ultimately have wlaw: "fst (write_components e' vs dst1) \<and> world_ok rg (snd (write_components e' vs dst1)) \<and>
      w_entities (snd (write_components e' vs dst1)) = w_entities dst1 \<and>
      (\<forall>f d. get_component rg f d (snd (write_components e' vs dst1)) =
         (if f = e' \<and> d \<in> fst ` set vs then map_of vs d else get_component rg f d dst1))"
    by (intro write_components_law [OF sp(2) ixd sp(8)]) (auto simp: dom_def)
  have given: "map_of vs c = Some v \<and> c \<in> fst ` set vs" if "get_component rg e c src = Some v" for c v
  proof -
    have "st_columns ss c \<noteq> None" using get_alive [OF assms(1,3,4), of c] that by (cases "st_columns ss c") auto
    then have "(c, v) \<in> set vs" using that assms(9) by (auto simp: vs set_present)
    then show ?thesis using \<open>distinct (map fst vs)\<close> by (force intro: map_of_is_SomeI)
  qed
  obtain dst2 where w: "write_components e' vs dst1 = (True, dst2)" using wlaw by (cases "write_components e' vs dst1") auto
  note wlaw = wlaw [unfolded w]
  show thesis
  proof (rule that [of e' "snd (despawn e src1)" dst2])
    show "migrate_entity rg order e src dst = Some (Inr e', snd (despawn e src1), dst2)"
      using here assms(3,5,6) col sp(1) w by (simp add: migrate_entity_def)
    show "contains f (snd (despawn e src1)) \<longleftrightarrow> contains f src \<and> f \<noteq> e" for f
      using dlaw claw by (simp add: contains_def)
    show "contains f dst2 \<longleftrightarrow> contains f dst \<or> f = e'" for f using wlaw sp(7) by (simp add: contains_def)
    show "get_component rg e' c dst2 = Some v" if "get_component rg e c src = Some v" for c v
      using wlaw given [OF that] by simp
    show "get_component rg f c (snd (despawn e src1)) = get_component rg f c src" if "f \<noteq> e" for f c
      using dlaw claw that by simp
    show "get_component rg f c dst2 = get_component rg f c dst" if "f \<noteq> e'" for f c
      using wlaw sp(6) that by simp
  qed (use dlaw wlaw sp(3,9) assms(6) in auto)
qed

end
