(* ===== verification/Ecs_Query.thy ===== *)
theory Ecs_Query
  imports Ecs_World
begin

text \<open>
  Queries over a world (\<open>ecs/query.rs\<close>): the shape of the data, the filters, the matching of archetypes and
  the iterator with its two cursors. A type of the code (\<open>&T\<close>, \<open>Option<&T>\<close>, a tuple) is a value of
  \<open>query_data\<close>. Mutable references yield the same values as shared ones; writing through them is
  \<open>modify_component\<close>. The main results: the iterator yields the list of all matching entities in the order of
  the archetypes and places, each entity once, and what it yields for an entity is what looking up its
  components one by one gives.
\<close>

section \<open>Data and filters\<close>

datatype query_data = QRef component_id | QRefMut component_id | QOptional component_id | QUnit | QEntity
  | QTuple "query_data list"

datatype 'v query_item = Value 'v | Maybe "'v option" | Nothing | Handle_of entity | Items "'v query_item list"

datatype query_filter = AnyFilter | With component_id | Without component_id | Filters "query_filter list"

datatype query_error = QueryEntityNotFound | WrongEntity | QueryEmpty | NonUnique

fun required_ids :: "query_data \<Rightarrow> component_id list" where
  "required_ids (QRef c) = [c]"
| "required_ids (QRefMut c) = [c]"
| "required_ids (QOptional c) = []"
| "required_ids QUnit = []"
| "required_ids QEntity = []"
| "required_ids (QTuple ds) = concat (map required_ids ds)"

fun all_ids :: "query_data \<Rightarrow> component_id list" where
  "all_ids (QRef c) = [c]"
| "all_ids (QRefMut c) = [c]"
| "all_ids (QOptional c) = [c]"
| "all_ids QUnit = []"
| "all_ids QEntity = []"
| "all_ids (QTuple ds) = concat (map all_ids ds)"

fun with_ids :: "query_filter \<Rightarrow> component_id list" where
  "with_ids AnyFilter = []"
| "with_ids (With c) = [c]"
| "with_ids (Without c) = []"
| "with_ids (Filters fs) = concat (map with_ids fs)"

fun without_ids :: "query_filter \<Rightarrow> component_id list" where
  "without_ids AnyFilter = []"
| "without_ids (With c) = []"
| "without_ids (Without c) = [c]"
| "without_ids (Filters fs) = concat (map without_ids fs)"

definition fetch_value :: "'v archetype_storage \<Rightarrow> nat \<Rightarrow> 'v column \<Rightarrow> 'v option" where
  "fetch_value st idx col =
     (case col of
        Sparse s \<Rightarrow> if idx < length (st_slots st) then sparse_get (unat (entity_slot (st_slots st ! idx))) s else None
      | SoA xs \<Rightarrow> soa_get idx xs)"

text \<open>The value of every component of a list, or nothing.\<close>

fun all_some :: "'a option list \<Rightarrow> 'a list option" where
  "all_some [] = Some []"
| "all_some (None # xs) = None"
| "all_some (Some x # xs) = map_option (Cons x) (all_some xs)"

fun fetch :: "'v archetype_storage \<Rightarrow> nat \<Rightarrow> query_data \<Rightarrow> 'v query_item option" where
  "fetch st idx (QRef c) = map_option Value (Option.bind (st_columns st c) (fetch_value st idx))"
| "fetch st idx (QRefMut c) = map_option Value (Option.bind (st_columns st c) (fetch_value st idx))"
| "fetch st idx (QOptional c) =
     (case st_columns st c of
        None \<Rightarrow> Some (Maybe None)
      | Some col \<Rightarrow>
          if column_is_sparse col \<and> \<not> idx < length (st_slots st) then None
          else Some (Maybe (fetch_value st idx col)))"
| "fetch st idx QUnit = Some Nothing"
| "fetch st idx QEntity = (if idx < length (st_slots st) then Some (Handle_of (st_slots st ! idx)) else None)"
| "fetch st idx (QTuple ds) = map_option Items (all_some (map (fetch st idx) ds))"

section \<open>Matching\<close>

definition component_present :: "'v archetype_storage \<Rightarrow> component_id \<Rightarrow> bool" where
  "component_present st c \<longleftrightarrow> has_component (st_def st) c \<or> st_columns st c \<noteq> None"

definition archetype_matches :: "query_data \<Rightarrow> query_filter \<Rightarrow> 'v archetype_storage \<Rightarrow> bool" where
  "archetype_matches d f st \<longleftrightarrow>
     list_all (component_present st) (required_ids d) \<and> list_all (component_present st) (with_ids f) \<and>
     list_all (\<lambda>c. \<not> component_present st c) (without_ids f)"

definition archetype_ids :: "archetype_id list" where
  "archetype_ids = map word_of_nat [0..<2 ^ 16]"

definition query_matched :: "query_data \<Rightarrow> query_filter \<Rightarrow> 'v world \<Rightarrow> archetype_id list" where
  "query_matched d f w =
     filter (\<lambda>a. case w_archetypes w a of None \<Rightarrow> False | Some st \<Rightarrow> archetype_matches d f st) archetype_ids"

section \<open>Iteration\<close>

type_synonym cursors = "nat \<times> nat"

definition slot_count :: "'v world \<Rightarrow> archetype_id \<Rightarrow> nat" where
  "slot_count w a = (case w_archetypes w a of None \<Rightarrow> 0 | Some st \<Rightarrow> length (st_slots st))"

function iter_next :: "query_data \<Rightarrow> archetype_id list \<Rightarrow> 'v world \<Rightarrow> cursors \<Rightarrow> ('v query_item \<times> cursors) option" where
  "iter_next d ms w (a, i) =
     (if length ms \<le> a then None
      else
        (case w_archetypes w (ms ! a) of
           None \<Rightarrow> iter_next d ms w (a + 1, 0)
         | Some st \<Rightarrow>
             if length (st_slots st) \<le> i then iter_next d ms w (a + 1, 0)
             else
               (case fetch st i d of
                  Some x \<Rightarrow> Some (x, a, i + 1)
                | None \<Rightarrow> iter_next d ms w (a, i + 1))))"
  by pat_completeness auto
termination
  by (relation "measures [\<lambda>(d, ms, w, a, i). length ms - a, \<lambda>(d, ms, w, a, i). slot_count w (ms ! a) - i]")
    (auto simp: slot_count_def)

declare iter_next.simps [simp del]

text \<open>The first items of an iterator.\<close>

fun iter_take :: "nat \<Rightarrow> query_data \<Rightarrow> archetype_id list \<Rightarrow> 'v world \<Rightarrow> cursors \<Rightarrow> 'v query_item list" where
  "iter_take 0 d ms w c = []"
| "iter_take (Suc n) d ms w c =
     (case iter_next d ms w c of None \<Rightarrow> [] | Some (x, c') \<Rightarrow> x # iter_take n d ms w c')"

definition query_first :: "nat \<Rightarrow> query_data \<Rightarrow> query_filter \<Rightarrow> 'v world \<Rightarrow> 'v query_item list" where
  "query_first n d f w = iter_take n d (query_matched d f w) w (0, 0)"

definition query_get :: "query_data \<Rightarrow> query_filter \<Rightarrow> entity \<Rightarrow> 'v world \<Rightarrow> query_error + 'v query_item" where
  "query_get d f e w =
     (case w_index w e of
        None \<Rightarrow> Inl QueryEntityNotFound
      | Some (arch, idx) \<Rightarrow>
          if arch \<notin> set (query_matched d f w) then Inl WrongEntity
          else
            (case w_archetypes w arch of
               None \<Rightarrow> Inl QueryEntityNotFound
             | Some st \<Rightarrow> (case fetch st idx d of None \<Rightarrow> Inl WrongEntity | Some x \<Rightarrow> Inr x)))"

definition query_single :: "query_data \<Rightarrow> query_filter \<Rightarrow> 'v world \<Rightarrow> query_error + 'v query_item" where
  "query_single d f w =
     (let ms = query_matched d f w in
      case iter_next d ms w (0, 0) of
        None \<Rightarrow> Inl QueryEmpty
      | Some (x, c) \<Rightarrow> (case iter_next d ms w c of None \<Rightarrow> Inr x | Some _ \<Rightarrow> Inl NonUnique))"

definition query_contains :: "query_data \<Rightarrow> query_filter \<Rightarrow> entity \<Rightarrow> 'v world \<Rightarrow> bool" where
  "query_contains d f e w =
     (case w_index w e of None \<Rightarrow> False | Some (arch, _) \<Rightarrow> arch \<in> set (query_matched d f w))"

section \<open>The iterator yields a list\<close>

text \<open>The items of one archetype from a place on, with the entities they belong to, and of the whole query.\<close>

definition storage_rows :: "query_data \<Rightarrow> 'v archetype_storage \<Rightarrow> nat \<Rightarrow> (entity \<times> 'v query_item) list" where
  "storage_rows d st i =
     List.map_filter (\<lambda>j. map_option (Pair (st_slots st ! j)) (fetch st j d)) [i..<length (st_slots st)]"

definition archetype_rows :: "query_data \<Rightarrow> 'v world \<Rightarrow> archetype_id \<Rightarrow> nat \<Rightarrow> (entity \<times> 'v query_item) list" where
  "archetype_rows d w a i = (case w_archetypes w a of None \<Rightarrow> [] | Some st \<Rightarrow> storage_rows d st i)"

definition query_rows :: "query_data \<Rightarrow> query_filter \<Rightarrow> 'v world \<Rightarrow> (entity \<times> 'v query_item) list" where
  "query_rows d f w = concat (map (\<lambda>a. archetype_rows d w a 0) (query_matched d f w))"

definition rows_from :: "query_data \<Rightarrow> archetype_id list \<Rightarrow> 'v world \<Rightarrow> cursors \<Rightarrow> (entity \<times> 'v query_item) list" where
  "rows_from d ms w c =
     (case c of (a, i) \<Rightarrow>
        if a < length ms then archetype_rows d w (ms ! a) i @ concat (map (\<lambda>m. archetype_rows d w m 0) (drop (a + 1) ms))
        else [])"

lemma rows_next:
  assumes "a < length ms"
  shows "rows_from d ms w (a + 1, 0) = concat (map (\<lambda>m. archetype_rows d w m 0) (drop (a + 1) ms))"
proof (cases "a + 1 < length ms")
  case True
  then have "drop (a + 1) ms = ms ! (a + 1) # drop (a + 1 + 1) ms" using Cons_nth_drop_Suc [of "a + 1" ms] by simp
  then show ?thesis using True by (simp add: rows_from_def)
qed (simp add: rows_from_def)

lemma storage_rows_step:
  "i < length (st_slots st) \<Longrightarrow>
    storage_rows d st i = (case fetch st i d of None \<Rightarrow> [] | Some x \<Rightarrow> [(st_slots st ! i, x)]) @ storage_rows d st (i + 1)"
  "length (st_slots st) \<le> i \<Longrightarrow> storage_rows d st i = []"
  by (simp_all add: storage_rows_def upt_rec [of i] List.map_filter_simps split: option.split)

lemma iter_next_rows:
  "(\<forall>x c'. iter_next d ms w c = Some (x, c') \<longrightarrow> (\<exists>e. rows_from d ms w c = (e, x) # rows_from d ms w c'))
   \<and> (iter_next d ms w c = None \<longrightarrow> rows_from d ms w c = [])"
proof (induction d ms w c rule: iter_next.induct)
  case (1 d ms w a i)
  show ?case
  proof (cases "length ms \<le> a")
    case True
    then show ?thesis by (subst (1 2) iter_next.simps) (simp add: rows_from_def)
  next
    case False
    note a = this
    show ?thesis
    proof (cases "w_archetypes w (ms ! a)")
      case None
      then have n: "iter_next d ms w (a, i) = iter_next d ms w (a + 1, 0)" using a by (subst iter_next.simps) simp
      have "rows_from d ms w (a, i) = rows_from d ms w (a + 1, 0)"
        using a None by (subst rows_next) (simp_all add: rows_from_def archetype_rows_def)
      then show ?thesis using 1(1) [OF a None] n by simp
    next
      case (Some st)
      show ?thesis
      proof (cases "length (st_slots st) \<le> i")
        case True
        then have n: "iter_next d ms w (a, i) = iter_next d ms w (a + 1, 0)" using a Some by (subst iter_next.simps) simp
        have "rows_from d ms w (a, i) = rows_from d ms w (a + 1, 0)"
          using a Some True by (subst rows_next) (simp_all add: rows_from_def archetype_rows_def storage_rows_step)
        then show ?thesis using 1(2) [OF a Some True] n by simp
      next
        case False
        have rows: "rows_from d ms w (a, i) =
            (case fetch st i d of None \<Rightarrow> [] | Some x \<Rightarrow> [(st_slots st ! i, x)]) @ rows_from d ms w (a, i + 1)"
          using a Some False by (simp add: rows_from_def archetype_rows_def storage_rows_step(1))
        show ?thesis
        proof (cases "fetch st i d")
          case None
          then have n: "iter_next d ms w (a, i) = iter_next d ms w (a, i + 1)" using a Some False by (subst iter_next.simps) simp
          then show ?thesis using 1(3) [OF a Some False None] rows None by simp
        next
          case x: (Some x)
          then have n: "iter_next d ms w (a, i) = Some (x, a, i + 1)" using a Some False by (subst iter_next.simps) simp
          then show ?thesis using rows x by simp
        qed
      qed
    qed
  qed
qed

lemma iter_take_rows: "iter_take n d ms w c = take n (map snd (rows_from d ms w c))"
proof (induction n arbitrary: c)
  case (Suc n)
  show ?case
  proof (cases "iter_next d ms w c")
    case None
    then show ?thesis using iter_next_rows [of d ms w c] by simp
  next
    case (Some r)
    obtain x c' where r: "r = (x, c')" by (cases r)
    obtain e where "rows_from d ms w c = (e, x) # rows_from d ms w c'" using iter_next_rows [of d ms w c] Some r by blast
    then show ?thesis using Some r Suc by simp
  qed
qed simp

lemma rows_from_start: "rows_from d (query_matched d f w) w (0, 0) = query_rows d f w"
  by (cases "query_matched d f w") (simp_all add: rows_from_def query_rows_def)

lemma query_first_rows: "query_first n d f w = take n (map snd (query_rows d f w))"
  by (simp add: query_first_def iter_take_rows rows_from_start)

lemma query_single_rows:
  "query_single d f w =
    (case query_rows d f w of [] \<Rightarrow> Inl QueryEmpty | [r] \<Rightarrow> Inr (snd r) | _ \<Rightarrow> Inl NonUnique)"
proof -
  let ?ms = "query_matched d f w"
  note r0 = iter_next_rows [of d ?ms w "(0, 0)"]
  show ?thesis
  proof (cases "iter_next d ?ms w (0, 0)")
    case None
    then show ?thesis using r0 by (simp add: query_single_def rows_from_start)
  next
    case (Some r)
    obtain x c where r: "r = (x, c)" by (cases r)
    obtain e where e: "query_rows d f w = (e, x) # rows_from d ?ms w c"
      using r0 Some unfolding r rows_from_start by blast
    show ?thesis
      using iter_next_rows [of d ?ms w c] Some r e
      by (cases "iter_next d ?ms w c") (auto simp: query_single_def Let_def)
  qed
qed

section \<open>What the rows are\<close>

text \<open>What looking up the components of an entity one by one gives.\<close>

fun item_of :: "'v component_registry \<Rightarrow> 'v world \<Rightarrow> entity \<Rightarrow> query_data \<Rightarrow> 'v query_item option" where
  "item_of rg w e (QRef c) = map_option Value (get_component rg e c w)"
| "item_of rg w e (QRefMut c) = map_option Value (get_component rg e c w)"
| "item_of rg w e (QOptional c) = Some (Maybe (get_component rg e c w))"
| "item_of rg w e QUnit = Some Nothing"
| "item_of rg w e QEntity = Some (Handle_of e)"
| "item_of rg w e (QTuple ds) = map_option Items (all_some (map (item_of rg w e) ds))"

lemma fetch_item:
  assumes "world_ok rg w" and "w_index w e = Some (a, i)" and "w_archetypes w a = Some st"
  shows "fetch st i d = item_of rg w e d"
proof -
  note place = index_in_slots [OF assms]
  have val: "fetch_value st i col = column_value i e col" if col: "st_columns st c = Some col" for c col
  proof -
    have "column_ok rg st c col" using world_okD(4) [OF assms(1,3)] col by (simp add: storage_ok_def)
    then show ?thesis using place by (cases col) (auto simp: fetch_value_def column_value_def soa_get_def column_ok_def)
  qed
  have get: "get_component rg e c w = Option.bind (st_columns st c) (fetch_value st i)" for c
    unfolding get_alive [OF assms] using val [of c] by (cases "st_columns st c") simp_all
  show ?thesis
  proof (induction d)
    case (QTuple ds)
    then have "map (fetch st i) ds = map (item_of rg w e) ds" by simp
    then show ?case by (simp only: fetch.simps item_of.simps)
  qed (use place in \<open>auto simp: get split: option.splits\<close>)
qed

lemma all_some_mem: "all_some xs = Some ys \<Longrightarrow> x \<in> set xs \<Longrightarrow> x \<noteq> None"
  by (induction xs arbitrary: ys rule: all_some.induct) auto

lemma fetch_present: "fetch st i d = Some x \<Longrightarrow> c \<in> set (required_ids d) \<Longrightarrow> component_present st c"
proof (induction st i d arbitrary: x rule: fetch.induct)
  case (6 st i ds)
  then obtain d' where d': "d' \<in> set ds" "c \<in> set (required_ids d')" by auto
  then have "fetch st i d' \<noteq> None" using 6(2) all_some_mem by fastforce
  then show ?case using 6(1) [OF d'(1)] d'(2) by blast
qed (auto simp: component_present_def split: option.splits)

definition passes :: "query_filter \<Rightarrow> 'v archetype_storage \<Rightarrow> bool" where
  "passes f st \<longleftrightarrow> list_all (component_present st) (with_ids f) \<and> list_all (\<lambda>c. \<not> component_present st c) (without_ids f)"

lemma fetch_matches: "fetch st i d = Some x \<Longrightarrow> archetype_matches d f st \<longleftrightarrow> passes f st"
  by (auto simp: archetype_matches_def passes_def list_all_iff intro: fetch_present)

lemma archetype_ids: "set archetype_ids = UNIV" "sorted archetype_ids" "distinct archetype_ids"
proof -
  have "a \<in> set archetype_ids" for a :: archetype_id
    using unsigned_less [of a, where 'a = nat] unfolding archetype_ids_def set_map
    by (intro image_eqI [of _ _ "unat a"]) simp_all
  then show "set archetype_ids = UNIV" by blast
  show "distinct archetype_ids"
    unfolding archetype_ids_def
    by (simp add: distinct_map inj_on_def word_of_nat_eq_iff take_bit_nat_eq_self)
  show "sorted archetype_ids"
    unfolding archetype_ids_def sorted_map
    by (rule sorted_wrt_mono_rel [OF _ sorted_upt]) (simp add: word_le_nat_alt unsigned_of_nat take_bit_nat_eq_self)
qed

lemma set_storage_rows:
  "set (storage_rows d st 0) = {(st_slots st ! j, x) | j x. j < length (st_slots st) \<and> fetch st j d = Some x}"
  by (force simp: storage_rows_def List.map_filter_def)

lemma query_rows_exact:
  assumes "world_ok rg w"
  shows "(e, x) \<in> set (query_rows d f w) \<longleftrightarrow>
    (\<exists>a st. entity_archetype w e = Some a \<and> w_archetypes w a = Some st \<and> passes f st) \<and> item_of rg w e d = Some x"
proof
  assume "(e, x) \<in> set (query_rows d f w)"
  then obtain a st j where a: "w_archetypes w a = Some st" "archetype_matches d f st" "j < length (st_slots st)"
      "e = st_slots st ! j" "fetch st j d = Some x"
    by (auto simp: query_rows_def query_matched_def archetype_rows_def set_storage_rows split: option.splits)
  have i: "w_index w e = Some (a, j)" using place_index [OF world_okD(2) [OF assms] a(1,3)] a(4) by simp
  then show "(\<exists>a st. entity_archetype w e = Some a \<and> w_archetypes w a = Some st \<and> passes f st) \<and> item_of rg w e d = Some x"
    using a fetch_item [OF assms i a(1)] fetch_matches [OF a(5)] by (auto simp: entity_archetype_def)
next
  assume r: "(\<exists>a st. entity_archetype w e = Some a \<and> w_archetypes w a = Some st \<and> passes f st) \<and> item_of rg w e d = Some x"
  then obtain a j st where i: "w_index w e = Some (a, j)" and st: "w_archetypes w a = Some st" "passes f st"
    by (auto simp: entity_archetype_def)
  note place = index_in_slots [OF assms i st(1)]
  have x: "fetch st j d = Some x" using fetch_item [OF assms i st(1)] r by simp
  then have "a \<in> set (query_matched d f w)"
    using st fetch_matches [OF x] by (simp add: query_matched_def archetype_ids)
  moreover have "(e, x) \<in> set (archetype_rows d w a 0)"
    using place x st(1) by (auto simp: archetype_rows_def set_storage_rows)
  ultimately show "(e, x) \<in> set (query_rows d f w)" unfolding query_rows_def by auto
qed

lemma storage_rows_entities: "map fst (storage_rows d st 0) = filter (\<lambda>e. \<exists>j x. j < length (st_slots st) \<and> st_slots st ! j = e \<and> fetch st j d = Some x) (st_slots st)"
  if "distinct (st_slots st)"
proof -
  have "map fst (storage_rows d st 0) = map ((!) (st_slots st)) (filter (\<lambda>j. fetch st j d \<noteq> None) [0..<length (st_slots st)])"
    by (simp add: storage_rows_def List.map_filter_def o_def) (auto intro: map_cong)
  also have "filter (\<lambda>j. fetch st j d \<noteq> None) [0..<length (st_slots st)] =
      filter ((\<lambda>e. \<exists>j x. j < length (st_slots st) \<and> st_slots st ! j = e \<and> fetch st j d = Some x) \<circ> (!) (st_slots st))
        [0..<length (st_slots st)]"
    using that by (intro filter_cong refl) (auto simp: nth_eq_iff_index_eq)
  also have "map ((!) (st_slots st)) \<dots> = filter (\<lambda>e. \<exists>j x. j < length (st_slots st) \<and> st_slots st ! j = e \<and> fetch st j d = Some x)
      (map ((!) (st_slots st)) [0..<length (st_slots st)])"
    by (simp only: filter_map)
  finally show ?thesis by (simp add: map_nth)
qed

lemma query_rows_distinct:
  assumes "world_ok rg w"
  shows "distinct (map fst (query_rows d f w))"
proof -
  let ?rows = "\<lambda>a. map fst (archetype_rows d w a 0)"
  have in_arch: "\<exists>j. w_index w e = Some (a, j)" if "e \<in> set (?rows a)" for a e
    using that place_index [OF world_okD(2) [OF assms]]
    by (fastforce simp: archetype_rows_def set_storage_rows split: option.splits)
  have "distinct (?rows a)" for a
  proof (cases "w_archetypes w a")
    case (Some st)
    then have "distinct (st_slots st)" by (rule slots_distinct [OF world_okD(2) [OF assms]])
    then show ?thesis using Some by (simp add: archetype_rows_def storage_rows_entities)
  qed (simp add: archetype_rows_def)
  moreover have "distinct ms \<Longrightarrow> distinct (concat (map ?rows ms))" for ms
  proof (induction ms)
    case (Cons m ms)
    have "set (?rows m) \<inter> set (concat (map ?rows ms)) = {}"
    proof (rule ccontr)
      assume "\<not> ?thesis"
      then obtain e a where "e \<in> set (?rows m)" "a \<in> set ms" "e \<in> set (?rows a)" by auto
      then show False using in_arch [of e m] in_arch [of e a] Cons.prems by auto
    qed
    then show ?case using Cons \<open>\<And>a. distinct (?rows a)\<close> by simp
  qed simp
  moreover have "distinct (query_matched d f w)" by (simp add: query_matched_def archetype_ids)
  ultimately show ?thesis by (simp add: query_rows_def map_concat o_def)
qed

lemma query_get_row:
  assumes "world_ok rg w"
  shows "query_get d f e w = Inr x \<longleftrightarrow> (e, x) \<in> set (query_rows d f w)"
proof (cases "w_index w e")
  case None
  then show ?thesis using query_rows_exact [OF assms, of e x d f] by (simp add: query_get_def entity_archetype_def)
next
  case (Some p)
  obtain a i where p: "p = (a, i)" by (cases p)
  obtain st where st: "w_archetypes w a = Some st" using index_place [OF world_okD(2) [OF assms]] Some p by metis
  have "fetch st i d = item_of rg w e d" using fetch_item [OF assms _ st] Some p by simp
  then show ?thesis
    using query_rows_exact [OF assms, of e x d f] fetch_matches [of st i d _ f] Some p st
    by (auto simp: query_get_def entity_archetype_def query_matched_def archetype_ids split: option.splits)
qed

text \<open>A filter asks the archetype, not the entity: giving one entity a sparse component takes every entity of its
  archetype out of the queries without that component.\<close>

lemma without_filters_archetype:
  assumes "insert_component rg e c v w = Inr w'" and "entity_archetype w e' = entity_archetype w e"
  shows "\<not> query_contains d (Without c) e' w'"
proof -
  obtain a i st where l: "located e w = Some (a, i, st)" using assms(1) by (cases "located e w") (auto simp: insert_component_def)
  then obtain col where w': "w' = set_column a st c col w"
    using assms(1) by (auto simp: insert_component_def split: if_splits option.splits column.splits)
  have "entity_archetype w e = Some a" using l by (auto simp: located_def entity_archetype_def split: if_splits option.splits)
  then obtain j where "w_index w' e' = Some (a, j)"
    using assms(2) by (auto simp: entity_archetype_def w' set_column_def)
  moreover have "a \<notin> set (query_matched d (Without c) w')"
    by (simp add: query_matched_def w' set_column_def archetype_matches_def component_present_def)
  ultimately show ?thesis by (simp add: query_contains_def)
qed

end
