(* ===== verification/Mpmc_Queue.thy ===== *)
theory Mpmc_Queue
  imports Prelude
begin

text \<open>
  The bounded lock-free queue between threads (\<open>ecs/queue.rs\<close>, \<open>util.rs\<close>). A push and a pop are cut at
  their accesses to shared memory; each access is one step of one thread, any thread may take the next step,
  and the weak compare-and-exchange may fail for no reason. The steps are interleaved one after the other:
  the reorderings that \<open>Relaxed\<close> allows are not part of the model. Positions and sequence numbers are
  64-bit words with their wrap-around; the results are for runs of fewer than $2^{63}$ steps less the
  capacity, in which no position wraps.
\<close>

section \<open>The queue\<close>

text \<open>\<open>next_power_of_two\<close>, on the value of the \<open>usize\<close>: \<open>checked_mul\<close> fails from $2^{63}$ on.\<close>

function next_power_of_two_from :: "nat \<Rightarrow> nat \<Rightarrow> nat" where
  "next_power_of_two_from p n =
     (if 0 < p \<and> p < n then (if p * 2 < 2 ^ 64 then next_power_of_two_from (p * 2) n else 2 ^ 64 - 1) else p)"
  by auto
termination by (relation "measure (\<lambda>(p, n). n - p)") auto

declare next_power_of_two_from.simps [simp del]

definition next_power_of_two :: "nat \<Rightarrow> nat" where
  "next_power_of_two n = next_power_of_two_from 1 n"

record 'v mpmc =
  q_values :: "'v option list"
  q_seqs :: "u64 list"
  q_capacity :: u64
  q_mask :: u64
  q_enq :: u64
  q_deq :: u64

definition mpmc_new :: "nat \<Rightarrow> 'v mpmc" where
  "mpmc_new c =
     (let capacity = max (next_power_of_two c) 8
      in \<lparr>q_values = replicate capacity None, q_seqs = map word_of_nat [0..<capacity],
          q_capacity = word_of_nat capacity, q_mask = word_of_nat capacity - 1, q_enq = 0, q_deq = 0\<rparr>)"

definition slot_of :: "'v mpmc \<Rightarrow> u64 \<Rightarrow> nat" where
  "slot_of q pos = unat (pos AND q_mask q)"

definition mpmc_len :: "'v mpmc \<Rightarrow> u64" where
  "mpmc_len q = q_enq q - q_deq q"

section \<open>A thread\<close>

text \<open>Where a thread is inside \<open>push\<close> or \<open>pop\<close>: before the load of the position, before the load of the
  sequence number, before the exchange, before the access to the value, before the store of the sequence
  number.\<close>

datatype 'v pc =
    Idle
  | PushLoad 'v | PushSeq 'v u64 | PushCas 'v u64 | PushWrite 'v u64 | PushPublish 'v u64
  | PopLoad | PopSeq u64 | PopCas u64 | PopRead u64 | PopRelease 'v u64

datatype 'v label =
    CallPush 'v | CallPop | Silent | PushClaim 'v | PushOk | PushFull | PopClaim | PopOk 'v | PopEmpty | Undefined

text \<open>One access to the shared memory. Reading a value that is not initialised is undefined behaviour; a
  value that was read has moved out of the slot.\<close>

definition advance :: "bool \<Rightarrow> 'v mpmc \<Rightarrow> 'v pc \<Rightarrow> 'v mpmc \<times> 'v pc \<times> 'v label" where
  "advance spurious q pc =
     (case pc of
        Idle \<Rightarrow> (q, Idle, Silent)
      | PushLoad v \<Rightarrow> (q, PushSeq v (q_enq q), Silent)
      | PushSeq v pos \<Rightarrow>
          (let diff = sint (q_seqs q ! slot_of q pos - pos)
           in if diff = 0 then (q, PushCas v pos, Silent)
              else if diff < 0 then (q, Idle, PushFull)
              else (q, PushLoad v, Silent))
      | PushCas v pos \<Rightarrow>
          if \<not> spurious \<and> q_enq q = pos then (q\<lparr>q_enq := pos + 1\<rparr>, PushWrite v pos, PushClaim v)
          else (q, PushSeq v (q_enq q), Silent)
      | PushWrite v pos \<Rightarrow> (q\<lparr>q_values := (q_values q)[slot_of q pos := Some v]\<rparr>, PushPublish v pos, Silent)
      | PushPublish v pos \<Rightarrow> (q\<lparr>q_seqs := (q_seqs q)[slot_of q pos := pos + 1]\<rparr>, Idle, PushOk)
      | PopLoad \<Rightarrow> (q, PopSeq (q_deq q), Silent)
      | PopSeq pos \<Rightarrow>
          (let diff = sint (q_seqs q ! slot_of q pos - (pos + 1))
           in if diff = 0 then (q, PopCas pos, Silent)
              else if diff < 0 then (q, Idle, PopEmpty)
              else (q, PopLoad, Silent))
      | PopCas pos \<Rightarrow>
          if \<not> spurious \<and> q_deq q = pos then (q\<lparr>q_deq := pos + 1\<rparr>, PopRead pos, PopClaim)
          else (q, PopSeq (q_deq q), Silent)
      | PopRead pos \<Rightarrow>
          (case q_values q ! slot_of q pos of
             Some v \<Rightarrow> (q\<lparr>q_values := (q_values q)[slot_of q pos := None]\<rparr>, PopRelease v pos, Silent)
           | None \<Rightarrow> (q, Idle, Undefined))
      | PopRelease v pos \<Rightarrow>
          (q\<lparr>q_seqs := (q_seqs q)[slot_of q pos := pos + q_capacity q]\<rparr>, Idle, PopOk v))"

section \<open>All threads\<close>

type_synonym 'v queue_system = "'v mpmc \<times> (nat \<Rightarrow> 'v pc)"

inductive qstep :: "'v queue_system \<Rightarrow> nat \<times> 'v label \<Rightarrow> 'v queue_system \<Rightarrow> bool" where
  call_push: "ts t = Idle \<Longrightarrow> qstep (q, ts) (t, CallPush v) (q, ts(t := PushLoad v))"
| call_pop: "ts t = Idle \<Longrightarrow> qstep (q, ts) (t, CallPop) (q, ts(t := PopLoad))"
| access: "ts t \<noteq> Idle \<Longrightarrow> advance spurious q (ts t) = (q', pc, l) \<Longrightarrow> qstep (q, ts) (t, l) (q', ts(t := pc))"

inductive_cases qstepE: "qstep (q, ts) (t, l) s"

inductive qrun :: "'v queue_system \<Rightarrow> (nat \<times> 'v label) list \<Rightarrow> 'v queue_system \<Rightarrow> bool" where
  qrun_nil: "qrun s [] s"
| qrun_step: "qrun s ls u \<Longrightarrow> qstep u l t \<Longrightarrow> qrun s (ls @ [l]) t"

definition queue_start :: "nat \<Rightarrow> 'v queue_system" where
  "queue_start c = (mpmc_new c, \<lambda>_. Idle)"

section \<open>The specification\<close>

text \<open>A list of at most \<open>N\<close> values; the values that a pop has taken and not yet answered; the pushes that
  have put their value and not yet returned. A push may be refused only if the list is full or a pop is
  under way, a pop only if the list is empty or a push is under way.\<close>

type_synonym 'v queue_view = "'v list \<times> (nat \<rightharpoonup> 'v) \<times> nat set"

definition spec_next :: "nat \<Rightarrow> nat \<times> 'v label \<Rightarrow> 'v queue_view \<Rightarrow> 'v queue_view \<Rightarrow> bool" where
  "spec_next N ev s s' \<longleftrightarrow>
     (case s of (xs, owed, pending) \<Rightarrow> case ev of (t, l) \<Rightarrow>
        (case l of
           CallPush v \<Rightarrow> s' = s
         | CallPop \<Rightarrow> s' = s
         | Silent \<Rightarrow> s' = s
         | PushClaim v \<Rightarrow> length xs < N \<and> t \<notin> pending \<and> s' = (xs @ [v], owed, insert t pending)
         | PushOk \<Rightarrow> t \<in> pending \<and> s' = (xs, owed, pending - {t})
         | PushFull \<Rightarrow> (length xs = N \<or> owed \<noteq> Map.empty) \<and> s' = s
         | PopClaim \<Rightarrow> xs \<noteq> [] \<and> owed t = None \<and> s' = (tl xs, owed(t \<mapsto> hd xs), pending)
         | PopOk v \<Rightarrow> owed t = Some v \<and> s' = (xs, owed(t := None), pending)
         | PopEmpty \<Rightarrow> (xs = [] \<or> pending \<noteq> {}) \<and> s' = s
         | Undefined \<Rightarrow> False))"

inductive queue_spec_run :: "nat \<Rightarrow> 'v queue_view \<Rightarrow> (nat \<times> 'v label) list \<Rightarrow> 'v queue_view \<Rightarrow> bool" for N where
  spec_nil: "queue_spec_run N s [] s"
| spec_step: "queue_spec_run N s ls u \<Longrightarrow> spec_next N l u t \<Longrightarrow> queue_spec_run N s (ls @ [l]) t"

section \<open>The invariant\<close>

text \<open>The state of a slot: free for a position, claimed by a pushing thread, full, claimed by a popping
  thread. \<open>P i\<close> is the position that slot \<open>i\<close> is at.\<close>

datatype 'v status = Vacant | Writing nat 'v | Full 'v | Reading nat 'v

definition status_seq :: "'v status \<Rightarrow> nat \<Rightarrow> nat" where
  "status_seq s p = (case s of Vacant \<Rightarrow> p | Writing t v \<Rightarrow> p | Full v \<Rightarrow> p + 1 | Reading t v \<Rightarrow> p + 1)"

definition cell_ok ::
  "nat \<Rightarrow> 'v mpmc \<Rightarrow> (nat \<Rightarrow> 'v pc) \<Rightarrow> (nat \<Rightarrow> nat) \<Rightarrow> (nat \<Rightarrow> 'v status) \<Rightarrow> nat \<Rightarrow> bool" where
  "cell_ok N q ts P T i \<longleftrightarrow> P i mod N = i \<and> unat (q_seqs q ! i) = status_seq (T i) (P i) \<and>
     (case T i of
        Vacant \<Rightarrow> unat (q_enq q) \<le> P i \<and> P i < unat (q_deq q) + N \<and> q_values q ! i = None
      | Writing t v \<Rightarrow> unat (q_deq q) \<le> P i \<and> P i < unat (q_enq q) \<and>
          (ts t = PushWrite v (word_of_nat (P i)) \<and> q_values q ! i = None \<or>
           ts t = PushPublish v (word_of_nat (P i)) \<and> q_values q ! i = Some v)
      | Full v \<Rightarrow> unat (q_deq q) \<le> P i \<and> P i < unat (q_enq q) \<and> q_values q ! i = Some v
      | Reading t v \<Rightarrow> P i < unat (q_deq q) \<and> unat (q_enq q) \<le> P i + N \<and>
          (ts t = PopRead (word_of_nat (P i)) \<and> q_values q ! i = Some v \<or>
           ts t = PopRelease v (word_of_nat (P i)) \<and> q_values q ! i = None))"

definition thread_ok ::
  "nat \<Rightarrow> nat \<Rightarrow> nat \<Rightarrow> (nat \<Rightarrow> nat) \<Rightarrow> (nat \<Rightarrow> 'v status) \<Rightarrow> nat \<Rightarrow> 'v pc \<Rightarrow> bool" where
  "thread_ok N E D P T t pc \<longleftrightarrow>
     (case pc of
        Idle \<Rightarrow> True | PushLoad v \<Rightarrow> True | PopLoad \<Rightarrow> True
      | PushSeq v pos \<Rightarrow> unat pos \<le> E
      | PushCas v pos \<Rightarrow> unat pos \<le> E \<and> (unat pos = E \<longrightarrow> T (E mod N) = Vacant)
      | PushWrite v pos \<Rightarrow> T (unat pos mod N) = Writing t v \<and> P (unat pos mod N) = unat pos
      | PushPublish v pos \<Rightarrow> T (unat pos mod N) = Writing t v \<and> P (unat pos mod N) = unat pos
      | PopSeq pos \<Rightarrow> unat pos \<le> D
      | PopCas pos \<Rightarrow> unat pos \<le> D \<and> (unat pos = D \<longrightarrow> P (D mod N) = D \<and> (\<exists>v. T (D mod N) = Full v))
      | PopRead pos \<Rightarrow> (\<exists>v. T (unat pos mod N) = Reading t v) \<and> P (unat pos mod N) = unat pos
      | PopRelease v pos \<Rightarrow> T (unat pos mod N) = Reading t v \<and> P (unat pos mod N) = unat pos)"

definition shape_ok :: "nat \<Rightarrow> nat \<Rightarrow> 'v mpmc \<Rightarrow> bool" where
  "shape_ok N n q \<longleftrightarrow> (\<exists>k. N = 2 ^ k) \<and> 1 < N \<and> n + N < 2 ^ 63 \<and> length (q_seqs q) = N \<and> length (q_values q) = N \<and>
     q_capacity q = word_of_nat N \<and> q_mask q = word_of_nat N - 1 \<and>
     unat (q_deq q) \<le> unat (q_enq q) \<and> unat (q_enq q) \<le> unat (q_deq q) + N \<and> unat (q_enq q) \<le> n"

definition sys_ok ::
  "nat \<Rightarrow> nat \<Rightarrow> 'v mpmc \<Rightarrow> (nat \<Rightarrow> 'v pc) \<Rightarrow> (nat \<Rightarrow> nat) \<Rightarrow> (nat \<Rightarrow> 'v status) \<Rightarrow> bool" where
  "sys_ok N n q ts P T \<longleftrightarrow> shape_ok N n q \<and> (\<forall>i<N. cell_ok N q ts P T i) \<and>
     (\<forall>t. thread_ok N (unat (q_enq q)) (unat (q_deq q)) P T t (ts t))"

definition status_value :: "'v status \<Rightarrow> 'v option" where
  "status_value s = (case s of Vacant \<Rightarrow> None | Writing t v \<Rightarrow> Some v | Full v \<Rightarrow> Some v | Reading t v \<Rightarrow> Some v)"

definition owed_by :: "nat \<Rightarrow> (nat \<Rightarrow> 'v status) \<Rightarrow> 'v pc \<Rightarrow> 'v option" where
  "owed_by N T pc = (case pc of PopRead pos \<Rightarrow> status_value (T (unat pos mod N)) | PopRelease v pos \<Rightarrow> Some v | _ \<Rightarrow> None)"

definition pending_in :: "'v pc \<Rightarrow> bool" where
  "pending_in pc = (case pc of PushWrite v pos \<Rightarrow> True | PushPublish v pos \<Rightarrow> True | _ \<Rightarrow> False)"

definition queue_view ::
  "nat \<Rightarrow> 'v mpmc \<Rightarrow> (nat \<Rightarrow> 'v pc) \<Rightarrow> (nat \<Rightarrow> 'v status) \<Rightarrow> 'v queue_view" where
  "queue_view N q ts T =
     (map (\<lambda>p. the (status_value (T (p mod N)))) [unat (q_deq q)..<unat (q_enq q)],
      (\<lambda>t. owed_by N T (ts t)), {t. pending_in (ts t)})"

section \<open>Words and slots\<close>

lemma mod_unique:
  assumes "p mod N = q mod N" and "q \<le> p" and "p < q + (N :: nat)"
  shows "p = q"
proof -
  have "N dvd p - q" using assms(1,2) by (simp add: mod_eq_dvd_iff_nat)
  moreover have "p - q < N" using assms(2,3) by linarith
  ultimately have "p - q = 0" using nat_dvd_not_less by blast
  then show ?thesis using assms(2) by simp
qed

lemma mod_gap: "p mod N = q mod N \<Longrightarrow> p < q \<Longrightarrow> p + (N :: nat) \<le> q"
  using mod_unique [of q N p] by (metis less_imp_le_nat not_le less_irrefl)

lemma mod_Suc_differs: "1 < N \<Longrightarrow> Suc p mod N \<noteq> p mod (N :: nat)"
  by (simp add: mod_Suc)

lemma sint_diff:
  fixes a b :: u64
  assumes "unat a < 2 ^ 63" and "unat b < 2 ^ 63"
  shows "sint (a - b) = int (unat a) - int (unat b)"
proof -
  have "uint (a - b) = take_bit 64 (uint a - uint b)" by (simp add: uint_word_ariths take_bit_eq_mod)
  then have "sint (a - b) = signed_take_bit 63 (uint a - uint b)" by (simp add: sint_uint signed_take_bit_take_bit)
  moreover have "int (unat a) < int (2 ^ 63)" "int (unat b) < int (2 ^ 63)" using assms by (simp_all only: of_nat_less_iff)
  then have lt: "int (unat a) < 2 ^ 63" "int (unat b) < 2 ^ 63" by (simp_all only: of_nat_power of_nat_numeral)
  have "signed_take_bit 63 (int (unat a) - int (unat b)) = int (unat a) - int (unat b)"
    by (intro signed_take_bit_int_eq_self) (use lt of_nat_0_le_iff [of "unat a"] of_nat_0_le_iff [of "unat b"] in linarith)+
  ultimately show ?thesis by (simp only: uint_nat)
qed

lemma unat_plus: "unat (a :: u64) + m < 2 ^ 64 \<Longrightarrow> unat (a + word_of_nat m) = unat a + m"
  by (subst unat_add_lem [THEN iffD1]) (auto simp: unat_of_nat)

lemma unat_Suc: "unat (a :: u64) < 2 ^ 63 \<Longrightarrow> unat (a + 1) = Suc (unat a)"
  using unat_plus [of a 1] by simp

lemma shape_facts:
  assumes "shape_ok N n q"
  shows "1 < N" "0 < N" "unat (q_deq q) \<le> unat (q_enq q)" "unat (q_enq q) \<le> unat (q_deq q) + N"
    "unat (q_enq q) < 2 ^ 63" "unat (q_deq q) < 2 ^ 63" "unat (q_enq q) + N < 2 ^ 63" "unat (q_deq q) + N < 2 ^ 63"
    "length (q_seqs q) = N" "length (q_values q) = N" "slot_of q pos = unat pos mod N" "unat (q_enq q) \<le> n"
proof -
  show "1 < N" "0 < N" "unat (q_deq q) \<le> unat (q_enq q)" "unat (q_enq q) \<le> unat (q_deq q) + N"
    "unat (q_enq q) < 2 ^ 63" "unat (q_deq q) < 2 ^ 63" "unat (q_enq q) + N < 2 ^ 63" "unat (q_deq q) + N < 2 ^ 63"
    "length (q_seqs q) = N" "length (q_values q) = N" "unat (q_enq q) \<le> n"
    using assms unfolding shape_ok_def by linarith+
  obtain k where k: "N = 2 ^ k" using assms by (auto simp: shape_ok_def)
  have "N < 2 ^ 63" using assms by (simp add: shape_ok_def)
  then have "k < 63" using k by (metis nat_power_less_imp_less numeral_2_eq_2 zero_less_Suc)
  have "word_of_nat N - 1 = (mask k :: u64)" by (simp add: k mask_eq_exp_minus_1)
  then have "pos AND q_mask q = take_bit k pos" using assms by (simp add: shape_ok_def take_bit_eq_mask)
  then have "slot_of q pos = unat (take_bit k pos)" by (simp only: slot_of_def)
  also have "\<dots> = take_bit k (unat pos)" by (rule unsigned_take_bit_eq)
  also have "\<dots> = unat pos mod N" by (simp only: take_bit_eq_mod k)
  finally show "slot_of q pos = unat pos mod N" .
qed

section \<open>Reading the invariant\<close>

lemma sys_okD:
  assumes "sys_ok N n q ts P T"
  shows "shape_ok N n q" and "i < N \<Longrightarrow> cell_ok N q ts P T i"
    and "thread_ok N (unat (q_enq q)) (unat (q_deq q)) P T t (ts t)"
  using assms unfolding sys_ok_def by blast+

lemma cell_at:
  assumes "sys_ok N n q ts P T"
  shows "cell_ok N q ts P T (p mod N)"
  using sys_okD(2) [OF assms] shape_facts(2) [OF sys_okD(1) [OF assms]] by simp

text \<open>A position that was put and not yet taken is in its slot.\<close>

lemma live_position:
  assumes "sys_ok N n q ts P T" and "unat (q_deq q) \<le> p" and "p < unat (q_enq q)"
  shows "P (p mod N) = p \<and> (\<exists>v. T (p mod N) = Full v \<or> (\<exists>t. T (p mod N) = Writing t v))"
proof -
  note sh = shape_facts [OF sys_okD(1) [OF assms(1)]]
  have c: "cell_ok N q ts P T (p mod N)" by (rule cell_at [OF assms(1)])
  have m: "P (p mod N) mod N = p mod N" using c by (simp add: cell_ok_def)
  show ?thesis
  proof (cases "T (p mod N)")
    case Vacant
    then have "p < P (p mod N)" "P (p mod N) < unat (q_deq q) + N" using c assms(3) by (auto simp: cell_ok_def)
    then have "p + N \<le> P (p mod N)" using mod_gap [of p N "P (p mod N)"] m by simp
    then show ?thesis using \<open>P (p mod N) < unat (q_deq q) + N\<close> assms(2) by linarith
  next
    case (Writing t v)
    then have r: "unat (q_deq q) \<le> P (p mod N)" "P (p mod N) < unat (q_enq q)" using c by (auto simp: cell_ok_def)
    have "P (p mod N) = p"
    proof (cases "p \<le> P (p mod N)")
      case True
      then show ?thesis using mod_unique [OF m] r assms(2) sh(4) by linarith
    next
      case False
      then show ?thesis using mod_unique [OF m [symmetric], of] r assms(3) sh(4) by linarith
    qed
    then show ?thesis using Writing by blast
  next
    case (Full v)
    then have r: "unat (q_deq q) \<le> P (p mod N)" "P (p mod N) < unat (q_enq q)" using c by (auto simp: cell_ok_def)
    have "P (p mod N) = p"
    proof (cases "p \<le> P (p mod N)")
      case True
      then show ?thesis using mod_unique [OF m] r assms(2) sh(4) by linarith
    next
      case False
      then show ?thesis using mod_unique [OF m [symmetric], of] r assms(3) sh(4) by linarith
    qed
    then show ?thesis using Full by blast
  next
    case (Reading t v)
    then have r: "P (p mod N) < unat (q_deq q)" "unat (q_enq q) \<le> P (p mod N) + N" using c by (auto simp: cell_ok_def)
    then have "P (p mod N) + N \<le> p" using mod_gap [OF m] assms(2) by linarith
    then show ?thesis using r assms(3) by linarith
  qed
qed

definition owns :: "'v pc \<Rightarrow> bool" where
  "owns pc \<longleftrightarrow> (case pc of PushWrite v pos \<Rightarrow> True | PushPublish v pos \<Rightarrow> True | PopRead pos \<Rightarrow> True
     | PopRelease v pos \<Rightarrow> True | _ \<Rightarrow> False)"

lemma owner_owns:
  assumes "cell_ok N q ts P T i" and "T i = Writing t v \<or> T i = Reading t v"
  shows "owns (ts t)"
  using assms by (auto simp: cell_ok_def owns_def)

text \<open>A slot is untouched by a step that leaves its words alone.\<close>

lemma cell_keep:
  assumes "cell_ok N q ts P T i" and "q_seqs q' ! i = q_seqs q ! i" and "q_values q' ! i = q_values q ! i"
    and "unat (q_enq q) \<le> unat (q_enq q')" and "unat (q_deq q) \<le> unat (q_deq q')"
    and "T i = Vacant \<Longrightarrow> unat (q_enq q') \<le> P i"
    and "\<And>t v. T i = Writing t v \<Longrightarrow> unat (q_deq q') \<le> P i \<and> ts' t = ts t"
    and "\<And>v. T i = Full v \<Longrightarrow> unat (q_deq q') \<le> P i"
    and "\<And>t v. T i = Reading t v \<Longrightarrow> unat (q_enq q') \<le> P i + N \<and> ts' t = ts t"
  shows "cell_ok N q' ts' P T i"
proof (cases "T i")
  case Vacant
  then show ?thesis using assms(1-6) by (auto simp: cell_ok_def)
next
  case (Writing t v)
  then show ?thesis using assms(1-5) assms(7) [OF Writing] by (auto simp: cell_ok_def)
next
  case (Full v)
  then show ?thesis using assms(1-5) assms(8) [OF Full] by (auto simp: cell_ok_def)
next
  case (Reading t v)
  then show ?thesis using assms(1-5) assms(9) [OF Reading] by (auto simp: cell_ok_def)
qed

lemma cell_ranges:
  assumes "cell_ok N q ts P T i"
  shows "T i = Vacant \<Longrightarrow> unat (q_enq q) \<le> P i" and "T i = Writing t v \<Longrightarrow> unat (q_deq q) \<le> P i"
    and "T i = Full v \<Longrightarrow> unat (q_deq q) \<le> P i" and "T i = Reading t v \<Longrightarrow> unat (q_enq q) \<le> P i + N"
    and "P i mod N = i" and "unat (q_seqs q ! i) = status_seq (T i) (P i)"
    and "T i = Reading t v \<Longrightarrow> P i < unat (q_deq q)" and "T i = Vacant \<Longrightarrow> P i < unat (q_deq q) + N"
    and "T i = Writing t v \<Longrightarrow> P i < unat (q_enq q)" and "T i = Full v \<Longrightarrow> P i < unat (q_enq q)"
  using assms by (auto simp: cell_ok_def)

lemma not_owning: "\<not> owns pc \<Longrightarrow> owed_by N T pc = None" "\<not> owns pc \<Longrightarrow> \<not> pending_in pc"
  by (cases pc; simp add: owns_def owed_by_def pending_in_def)+

lemma shape_later: "shape_ok N n q \<Longrightarrow> Suc n + N < 2 ^ 63 \<Longrightarrow> shape_ok N (Suc n) q"
  by (auto simp: shape_ok_def)

section \<open>Steps that touch no shared word\<close>

lemma local_step:
  assumes "sys_ok N n q ts P T" and "Suc n + N < 2 ^ 63" and "\<not> owns (ts t)" and "\<not> owns pc"
    and "thread_ok N (unat (q_enq q)) (unat (q_deq q)) P T t pc"
  shows "sys_ok N (Suc n) q (ts(t := pc)) P T \<and> queue_view N q (ts(t := pc)) T = queue_view N q ts T"
proof
  have "cell_ok N q (ts(t := pc)) P T i" if "i < N" for i
  proof (rule cell_keep [where q = q and ts = ts])
    show c: "cell_ok N q ts P T i" by (rule sys_okD(2) [OF assms(1) that])
    show "unat (q_deq q) \<le> P i \<and> (ts(t := pc)) s = ts s" if "T i = Writing s v" for s v
      using owner_owns [OF c disjI1 [OF that]] cell_ranges(2) [OF c that] assms(3) by auto
    show "unat (q_enq q) \<le> P i + N \<and> (ts(t := pc)) s = ts s" if "T i = Reading s v" for s v
      using owner_owns [OF c disjI2 [OF that]] cell_ranges(4) [OF c that] assms(3) by auto
  qed (use cell_ranges [OF sys_okD(2) [OF assms(1) that]] in auto)
  then show "sys_ok N (Suc n) q (ts(t := pc)) P T"
    using shape_later [OF sys_okD(1) [OF assms(1)] assms(2)] sys_okD(3) [OF assms(1)] assms(5)
    by (auto simp: sys_ok_def)
  show "queue_view N q (ts(t := pc)) T = queue_view N q ts T"
    using not_owning [OF assms(3)] not_owning [OF assms(4)] by (auto simp: queue_view_def fun_eq_iff)
qed

section \<open>Steps that change a slot\<close>

definition pc_slot :: "nat \<Rightarrow> 'v pc \<Rightarrow> nat option" where
  "pc_slot N pc = (case pc of PushWrite v pos \<Rightarrow> Some (unat pos mod N) | PushPublish v pos \<Rightarrow> Some (unat pos mod N)
     | PopRead pos \<Rightarrow> Some (unat pos mod N) | PopRelease v pos \<Rightarrow> Some (unat pos mod N) | _ \<Rightarrow> None)"

lemma owner_slot:
  assumes "sys_ok N n q ts P T" and "i < N" and "T i = Writing t v \<or> T i = Reading t v"
  shows "pc_slot N (ts t) = Some i"
proof -
  note sh = shape_facts [OF sys_okD(1) [OF assms(1)]]
  have c: "cell_ok N q ts P T i" by (rule sys_okD(2) [OF assms(1,2)])
  then have "P i < 2 ^ 64" using assms(3) sh(5,6) by (auto simp: cell_ok_def)
  then have "unat (word_of_nat (P i) :: u64) = P i" by (simp add: unat_of_nat)
  then show ?thesis using c assms(3) by (auto simp: cell_ok_def pc_slot_def)
qed

lemma slot_owner:
  assumes "thread_ok N E D P T t pc" and "pc_slot N pc = Some i"
  shows "\<exists>v. T i = Writing t v \<or> T i = Reading t v"
  using assms by (cases pc) (auto simp: thread_ok_def pc_slot_def)

lemma thread_keep:
  assumes "thread_ok N E D P T s pc" and "E \<le> E'" and "D \<le> D'" and "pc_slot N pc \<noteq> Some i0"
    and "\<And>i. i \<noteq> i0 \<Longrightarrow> T' i = T i \<and> P' i = P i"
    and "E' = E \<Longrightarrow> T i0 = Vacant \<Longrightarrow> T' i0 = Vacant"
    and "\<And>v. D' = D \<Longrightarrow> T i0 = Full v \<Longrightarrow> T' i0 = Full v \<and> P' i0 = P i0"
  shows "thread_ok N E' D' P' T' s pc"
proof (cases pc)
  case (PushCas v pos)
  have "T' (E mod N) = Vacant" if "unat pos = E'"
  proof -
    have "E' = E" "T (E mod N) = Vacant" using assms(1,2) that PushCas by (auto simp: thread_ok_def)
    then show ?thesis using assms(5) [of "E mod N"] assms(6) by (cases "E mod N = i0") auto
  qed
  then show ?thesis using assms(1,2) PushCas by (auto simp: thread_ok_def)
next
  case (PopCas pos)
  have "P' (D mod N) = D \<and> (\<exists>v. T' (D mod N) = Full v)" if at: "unat pos = D'"
  proof -
    have "D' = D" using assms(1,3) at PopCas by (simp add: thread_ok_def)
    then obtain v where "D' = D" "T (D mod N) = Full v" "P (D mod N) = D"
      using assms(1) at PopCas by (auto simp: thread_ok_def)
    then show ?thesis using assms(5) [of "D mod N"] assms(7) [of v] by (cases "D mod N = i0") auto
  qed
  then show ?thesis using assms(1,3) PopCas by (auto simp: thread_ok_def)
qed (use assms(1-5) in \<open>auto simp: thread_ok_def pc_slot_def\<close>)

text \<open>One thread and one slot change; the rest of the invariant follows.\<close>

lemma slot_step:
  assumes "sys_ok N n q ts P T" and "Suc n + N < 2 ^ 63" and "i0 < N" and "shape_ok N (Suc n) q'"
    and "\<And>s v. s \<noteq> t \<Longrightarrow> T i0 \<noteq> Writing s v \<and> T i0 \<noteq> Reading s v"
    and "\<And>i. pc_slot N (ts t) = Some i \<Longrightarrow> i = i0"
    and "\<And>i. i \<noteq> i0 \<Longrightarrow> T' i = T i \<and> P' i = P i"
    and "\<And>i. i \<noteq> i0 \<Longrightarrow> q_seqs q' ! i = q_seqs q ! i \<and> q_values q' ! i = q_values q ! i"
    and "q_enq q' = q_enq q \<or> unat (q_enq q) mod N = i0 \<and> unat (q_enq q') = Suc (unat (q_enq q))"
    and "q_deq q' = q_deq q \<or> unat (q_deq q) mod N = i0 \<and> unat (q_deq q') = Suc (unat (q_deq q))"
    and "q_enq q' = q_enq q \<Longrightarrow> T i0 = Vacant \<Longrightarrow> T' i0 = Vacant"
    and "\<And>v. q_deq q' = q_deq q \<Longrightarrow> T i0 = Full v \<Longrightarrow> T' i0 = Full v \<and> P' i0 = P i0"
    and "cell_ok N q' (ts(t := pc)) P' T' i0"
    and "thread_ok N (unat (q_enq q')) (unat (q_deq q')) P' T' t pc"
  shows "sys_ok N (Suc n) q' (ts(t := pc)) P' T'"
proof -
  note ok = sys_okD [OF assms(1)]
  have le: "unat (q_enq q) \<le> unat (q_enq q')" "unat (q_deq q) \<le> unat (q_deq q')" using assms(9,10) by auto
  have "cell_ok N q' (ts(t := pc)) P' T' i" if i: "i < N" "i \<noteq> i0" for i
  proof -
    have c: "cell_ok N q ts P T i" by (rule ok(2) [OF i(1)])
    have same: "T' i = T i" "P' i = P i" using assms(7) i(2) by auto
    have "cell_ok N q' (ts(t := pc)) P T i"
    proof (rule cell_keep [OF c _ _ le])
      show "q_seqs q' ! i = q_seqs q ! i" "q_values q' ! i = q_values q ! i" using assms(8) i(2) by auto
      have other: "s \<noteq> t" if "T i = Writing s v \<or> T i = Reading s v" for s v
        using owner_slot [OF assms(1) i(1) that] assms(6) i(2) by auto
      have e: "unat (q_enq q') \<le> m" if "unat (q_enq q) \<le> m" "m mod N = i" for m
        using assms(9) that i(2) by (auto simp: Suc_le_eq le_less)
      have d: "unat (q_deq q') \<le> m" if "unat (q_deq q) \<le> m" "m mod N = i" for m
        using assms(10) that i(2) by (auto simp: Suc_le_eq le_less)
      show "T i = Vacant \<Longrightarrow> unat (q_enq q') \<le> P i" using cell_ranges(1,5) [OF c] e by blast
      show "unat (q_deq q') \<le> P i \<and> (ts(t := pc)) s = ts s" if "T i = Writing s v" for s v
        using cell_ranges(2) [OF c that] cell_ranges(5) [OF c] d other that by auto
      show "\<And>v. T i = Full v \<Longrightarrow> unat (q_deq q') \<le> P i" using cell_ranges(3,5) [OF c] d by blast
      show "unat (q_enq q') \<le> P i + N \<and> (ts(t := pc)) s = ts s" if "T i = Reading s v" for s v
        using cell_ranges(4) [OF c that] cell_ranges(5) [OF c] e [of "P i + N"] other that by auto
    qed
    then show ?thesis by (simp only: cell_ok_def same)
  qed
  moreover have "thread_ok N (unat (q_enq q')) (unat (q_deq q')) P' T' s (ts s)" if "s \<noteq> t" for s
  proof (rule thread_keep [OF ok(3) le])
    show "pc_slot N (ts s) \<noteq> Some i0" using slot_owner [OF ok(3) [of s]] assms(5) [OF that] by blast
    show "\<And>i. i \<noteq> i0 \<Longrightarrow> T' i = T i \<and> P' i = P i" by (rule assms(7))
    show "T i0 = Vacant \<Longrightarrow> T' i0 = Vacant" if "unat (q_enq q') = unat (q_enq q)"
      using assms(11) that by (simp add: word_unat_eq_iff)
    show "\<And>v. T i0 = Full v \<Longrightarrow> T' i0 = Full v \<and> P' i0 = P i0" if "unat (q_deq q') = unat (q_deq q)"
      using assms(12) that by (simp add: word_unat_eq_iff)
  qed
  ultimately show ?thesis using assms(3,4,13,14) by (simp add: sys_ok_def) metis
qed

text \<open>The list of the specification does not see a change of a slot that keeps its value or holds none of
  the list.\<close>

lemma values_keep:
  assumes "sys_ok N n q ts P T" and "\<And>i. i \<noteq> i0 \<Longrightarrow> T' i = T i"
    and "status_value (T' i0) = status_value (T i0) \<or> T i0 = Vacant \<or> (\<exists>t v. T i0 = Reading t v)"
    and "unat (q_deq q) \<le> p" and "p < unat (q_enq q)"
  shows "status_value (T' (p mod N)) = status_value (T (p mod N))"
  using live_position [OF assms(1,4,5)] assms(2) [of "p mod N"] assms(3) by (cases "p mod N = i0") auto

lemma owed_keep:
  assumes "thread_ok N E D P T s pc" and "\<And>i. i \<noteq> i0 \<Longrightarrow> T' i = T i" and "pc_slot N pc \<noteq> Some i0"
  shows "owed_by N T' pc = owed_by N T pc"
  using assms by (cases pc) (auto simp: owed_by_def pc_slot_def)

lemma queue_viewI:
  assumes "map (\<lambda>p. the (status_value (T' (p mod N)))) [unat (q_deq q')..<unat (q_enq q')] = xs"
    and "(\<lambda>t. owed_by N T' (ts' t)) = owed" and "{t. pending_in (ts' t)} = pending"
  shows "queue_view N q' ts' T' = (xs, owed, pending)"
  using assms by (simp add: queue_view_def)

section \<open>The steps refine the specification\<close>

lemma refine_push_claim:
  assumes "sys_ok N n q ts P T" and "Suc n + N < 2 ^ 63" and "ts t = PushCas v pos" and "q_enq q = pos"
  shows "\<exists>T'. sys_ok N (Suc n) (q\<lparr>q_enq := pos + 1\<rparr>) (ts(t := PushWrite v pos)) P T' \<and>
    spec_next N (t, PushClaim v) (queue_view N q ts T) (queue_view N (q\<lparr>q_enq := pos + 1\<rparr>) (ts(t := PushWrite v pos)) T')"
proof -
  note ok = sys_okD [OF assms(1)]
  note sh = shape_facts [OF ok(1)]
  let ?E = "unat (q_enq q)"
  let ?i = "?E mod N"
  let ?T = "T(?i := Writing t v)"
  let ?q = "q\<lparr>q_enq := pos + 1\<rparr>"
  let ?ts = "ts(t := PushWrite v pos)"
  have free: "T ?i = Vacant" using ok(3) [of t] assms(3,4) by (auto simp: thread_ok_def)
  have c: "cell_ok N q ts P T ?i" by (rule cell_at [OF assms(1)])
  have PE: "P ?i = ?E"
    using mod_unique [OF cell_ranges(5) [OF c]] cell_ranges(1,8) [OF c] free sh(3) by linarith
  have room: "?E < unat (q_deq q) + N" using cell_ranges(8) [OF c free] PE by simp
  have E1: "unat (pos + 1) = Suc ?E" using unat_Suc [of pos] sh(5) assms(4) by simp
  have "sys_ok N (Suc n) ?q ?ts P ?T"
  proof (rule slot_step [where ?i0.0 = ?i, OF assms(1,2)])
    show "?i < N" using sh(2) by simp
    show "shape_ok N (Suc n) ?q"
      using ok(1) assms(2) E1 room sh(12) by (auto simp: shape_ok_def)
    show "cell_ok N ?q ?ts P ?T ?i"
      using c free PE assms(4) E1 room sh(3) by (auto simp: cell_ok_def status_seq_def)
    show "thread_ok N (unat (q_enq ?q)) (unat (q_deq ?q)) P ?T t (PushWrite v pos)"
      using PE assms(4) by (simp add: thread_ok_def)
  qed (use free assms(3,4) E1 in \<open>auto simp: pc_slot_def\<close>)
  moreover have "queue_view N ?q ?ts ?T =
      (map (\<lambda>p. the (status_value (T (p mod N)))) [unat (q_deq q)..<?E] @ [v], \<lambda>s. owed_by N T (ts s), insert t {s. pending_in (ts s)})"
  proof (rule queue_viewI)
    have "map (\<lambda>p. the (status_value (?T (p mod N)))) [unat (q_deq q)..<?E] =
        map (\<lambda>p. the (status_value (T (p mod N)))) [unat (q_deq q)..<?E]"
      using values_keep [OF assms(1), of ?i ?T] free by (intro map_cong) auto
    then show "map (\<lambda>p. the (status_value (?T (p mod N)))) [unat (q_deq ?q)..<unat (q_enq ?q)] =
        map (\<lambda>p. the (status_value (T (p mod N)))) [unat (q_deq q)..<?E] @ [v]"
      using sh(3) E1 by (simp add: status_value_def)
    have "owed_by N ?T (?ts s) = owed_by N T (ts s)" for s
    proof (cases "s = t")
      case True
      then show ?thesis using assms(3) by (simp add: owed_by_def)
    next
      case False
      have "pc_slot N (ts s) \<noteq> Some ?i" using slot_owner [OF ok(3) [of s], of ?i] free by auto
      then show ?thesis using owed_keep [OF ok(3) [of s], of ?i ?T] False by simp
    qed
    then show "(\<lambda>s. owed_by N ?T (?ts s)) = (\<lambda>s. owed_by N T (ts s))" by (rule ext)
    show "{s. pending_in (?ts s)} = insert t {s. pending_in (ts s)}" by (auto simp: pending_in_def)
  qed
  moreover have "?E - unat (q_deq q) < N" "\<not> pending_in (ts t)"
    using room sh(3) assms(3) by (simp_all add: pending_in_def)
  ultimately show ?thesis by (intro exI [of _ ?T]) (simp add: spec_next_def queue_view_def)
qed

lemma refine_push_write:
  assumes "sys_ok N n q ts P T" and "Suc n + N < 2 ^ 63" and "ts t = PushWrite v pos"
    and "q' = q\<lparr>q_values := (q_values q)[slot_of q pos := Some v]\<rparr>"
  shows "sys_ok N (Suc n) q' (ts(t := PushPublish v pos)) P T \<and>
    queue_view N q' (ts(t := PushPublish v pos)) T = queue_view N q ts T"
proof
  note ok = sys_okD [OF assms(1)]
  note sh = shape_facts [OF ok(1)]
  let ?i = "unat pos mod N"
  let ?ts = "ts(t := PushPublish v pos)"
  have own: "T ?i = Writing t v" "P ?i = unat pos" using ok(3) [of t] assms(3) by (auto simp: thread_ok_def)
  have c: "cell_ok N q ts P T ?i" by (rule cell_at [OF assms(1)])
  have i: "?i < N" using sh(2) by simp
  have q': "q_values q' = (q_values q)[?i := Some v]" "q_seqs q' = q_seqs q" "q_enq q' = q_enq q" "q_deq q' = q_deq q"
    using assms(4) by (simp_all add: sh(11))
  show "sys_ok N (Suc n) q' ?ts P T"
  proof (rule slot_step [where ?i0.0 = ?i, OF assms(1,2)])
    show "shape_ok N (Suc n) q'" using ok(1) assms(2,4) by (auto simp: shape_ok_def)
    show "cell_ok N q' ?ts P T ?i"
      using c own i sh(10) by (auto simp: cell_ok_def q')
    show "thread_ok N (unat (q_enq q')) (unat (q_deq q')) P T t (PushPublish v pos)"
      using own by (simp add: thread_ok_def)
  qed (use own i assms(3) q' in \<open>auto simp: pc_slot_def\<close>)
  show "queue_view N q' ?ts T = queue_view N q ts T"
    using assms(3) by (auto simp: queue_view_def q' owed_by_def pending_in_def fun_eq_iff)
qed

lemma refine_push_publish:
  assumes "sys_ok N n q ts P T" and "Suc n + N < 2 ^ 63" and "ts t = PushPublish v pos"
    and "q' = q\<lparr>q_seqs := (q_seqs q)[slot_of q pos := pos + 1]\<rparr>"
  shows "\<exists>T'. sys_ok N (Suc n) q' (ts(t := Idle)) P T' \<and>
    spec_next N (t, PushOk) (queue_view N q ts T) (queue_view N q' (ts(t := Idle)) T')"
proof -
  note ok = sys_okD [OF assms(1)]
  note sh = shape_facts [OF ok(1)]
  let ?i = "unat pos mod N"
  let ?ts = "ts(t := Idle)"
  let ?T = "T(?i := Full v)"
  have own: "T ?i = Writing t v" "P ?i = unat pos" using ok(3) [of t] assms(3) by (auto simp: thread_ok_def)
  have c: "cell_ok N q ts P T ?i" by (rule cell_at [OF assms(1)])
  have i: "?i < N" using sh(2) by simp
  have q': "q_values q' = q_values q" "q_seqs q' = (q_seqs q)[?i := pos + 1]" "q_enq q' = q_enq q" "q_deq q' = q_deq q"
    using assms(4) by (simp_all add: sh(11))
  have "unat pos < 2 ^ 63" using cell_ranges(9) [OF c own(1)] own(2) sh(5) by simp
  then have pos1: "unat (pos + 1) = Suc (unat pos)" by (rule unat_Suc)
  have "sys_ok N (Suc n) q' ?ts P ?T"
  proof (rule slot_step [where ?i0.0 = ?i, OF assms(1,2)])
    show "shape_ok N (Suc n) q'" using ok(1) assms(2,4) by (auto simp: shape_ok_def)
    show "cell_ok N q' ?ts P ?T ?i"
      using c own i sh(9) assms(3) pos1 by (auto simp: cell_ok_def q' status_seq_def)
    show "thread_ok N (unat (q_enq q')) (unat (q_deq q')) P ?T t Idle" by (simp add: thread_ok_def)
  qed (use own i assms(3) q' in \<open>auto simp: pc_slot_def\<close>)
  moreover have "queue_view N q' ?ts ?T =
      (map (\<lambda>p. the (status_value (T (p mod N)))) [unat (q_deq q)..<unat (q_enq q)], \<lambda>s. owed_by N T (ts s), {s. pending_in (ts s)} - {t})"
  proof (rule queue_viewI)
    show "map (\<lambda>p. the (status_value (?T (p mod N)))) [unat (q_deq q')..<unat (q_enq q')] =
        map (\<lambda>p. the (status_value (T (p mod N)))) [unat (q_deq q)..<unat (q_enq q)]"
      using own by (auto simp: q' status_value_def)
    have "owed_by N ?T (?ts s) = owed_by N T (ts s)" for s
    proof (cases "s = t")
      case False
      have "pc_slot N (ts s) \<noteq> Some ?i" using slot_owner [OF ok(3) [of s], of ?i] own False by auto
      then show ?thesis using owed_keep [OF ok(3) [of s], of ?i ?T] False by simp
    qed (simp add: assms(3) owed_by_def)
    then show "(\<lambda>s. owed_by N ?T (?ts s)) = (\<lambda>s. owed_by N T (ts s))" by (rule ext)
    show "{s. pending_in (?ts s)} = {s. pending_in (ts s)} - {t}" by (auto simp: pending_in_def)
  qed
  moreover have "pending_in (ts t)" using assms(3) by (simp add: pending_in_def)
  ultimately show ?thesis by (intro exI [of _ ?T]) (simp add: spec_next_def queue_view_def)
qed

lemma refine_pop_claim:
  assumes "sys_ok N n q ts P T" and "Suc n + N < 2 ^ 63" and "ts t = PopCas pos" and "q_deq q = pos"
  shows "\<exists>T'. sys_ok N (Suc n) (q\<lparr>q_deq := pos + 1\<rparr>) (ts(t := PopRead pos)) P T' \<and>
    spec_next N (t, PopClaim) (queue_view N q ts T) (queue_view N (q\<lparr>q_deq := pos + 1\<rparr>) (ts(t := PopRead pos)) T')"
proof -
  note ok = sys_okD [OF assms(1)]
  note sh = shape_facts [OF ok(1)]
  let ?D = "unat (q_deq q)"
  let ?i = "?D mod N"
  obtain v where full: "T ?i = Full v" and PD: "P ?i = ?D" using ok(3) [of t] assms(3,4) by (auto simp: thread_ok_def)
  let ?T = "T(?i := Reading t v)"
  let ?q = "q\<lparr>q_deq := pos + 1\<rparr>"
  let ?ts = "ts(t := PopRead pos)"
  have c: "cell_ok N q ts P T ?i" by (rule cell_at [OF assms(1)])
  have lt: "?D < unat (q_enq q)" using cell_ranges(10) [OF c full] PD by simp
  have D1: "unat (pos + 1) = Suc ?D" using unat_Suc [of pos] sh(6) assms(4) by simp
  have "sys_ok N (Suc n) ?q ?ts P ?T"
  proof (rule slot_step [where ?i0.0 = ?i, OF assms(1,2)])
    show "?i < N" using sh(2) by simp
    show "shape_ok N (Suc n) ?q"
      using ok(1) assms(2) D1 lt sh(4) by (auto simp: shape_ok_def)
    show "cell_ok N ?q ?ts P ?T ?i"
      using c full PD assms(4) D1 lt sh(4) by (auto simp: cell_ok_def status_seq_def)
    show "thread_ok N (unat (q_enq ?q)) (unat (q_deq ?q)) P ?T t (PopRead pos)"
      using PD assms(4) by (simp add: thread_ok_def)
  qed (use full assms(3,4) D1 in \<open>auto simp: pc_slot_def\<close>)
  moreover have "queue_view N ?q ?ts ?T =
      (map (\<lambda>p. the (status_value (T (p mod N)))) [Suc ?D..<unat (q_enq q)], (\<lambda>s. owed_by N T (ts s))(t \<mapsto> v), {s. pending_in (ts s)})"
  proof (rule queue_viewI)
    show "map (\<lambda>p. the (status_value (?T (p mod N)))) [unat (q_deq ?q)..<unat (q_enq ?q)] =
        map (\<lambda>p. the (status_value (T (p mod N)))) [Suc ?D..<unat (q_enq q)]"
      using D1 full by (auto simp: status_value_def)
    have "owed_by N ?T (?ts s) = ((\<lambda>s. owed_by N T (ts s))(t \<mapsto> v)) s" for s
    proof (cases "s = t")
      case True
      then show ?thesis using assms(4) by (simp add: owed_by_def status_value_def)
    next
      case False
      have "pc_slot N (ts s) \<noteq> Some ?i" using slot_owner [OF ok(3) [of s], of ?i] full by auto
      then show ?thesis using owed_keep [OF ok(3) [of s], of ?i ?T] False by simp
    qed
    then show "(\<lambda>s. owed_by N ?T (?ts s)) = (\<lambda>s. owed_by N T (ts s))(t \<mapsto> v)" by (rule ext)
    show "{s. pending_in (?ts s)} = {s. pending_in (ts s)}" using assms(3) by (auto simp: pending_in_def)
  qed
  moreover have "owed_by N T (ts t) = None" using assms(3) by (simp add: owed_by_def)
  moreover have "[?D..<unat (q_enq q)] = ?D # [Suc ?D..<unat (q_enq q)]" using lt by (rule upt_conv_Cons)
  ultimately show ?thesis using full by (intro exI [of _ ?T]) (simp add: spec_next_def queue_view_def status_value_def)
qed

lemma refine_pop_read:
  assumes "sys_ok N n q ts P T" and "Suc n + N < 2 ^ 63" and "ts t = PopRead pos"
  obtains v where "q_values q ! slot_of q pos = Some v"
    and "\<And>q'. q' = q\<lparr>q_values := (q_values q)[slot_of q pos := None]\<rparr> \<Longrightarrow>
      sys_ok N (Suc n) q' (ts(t := PopRelease v pos)) P T \<and>
      queue_view N q' (ts(t := PopRelease v pos)) T = queue_view N q ts T"
proof -
  note ok = sys_okD [OF assms(1)]
  note sh = shape_facts [OF ok(1)]
  let ?i = "unat pos mod N"
  obtain v where own: "T ?i = Reading t v" "P ?i = unat pos" using ok(3) [of t] assms(3) by (auto simp: thread_ok_def)
  let ?ts = "ts(t := PopRelease v pos)"
  have c: "cell_ok N q ts P T ?i" by (rule cell_at [OF assms(1)])
  have i: "?i < N" using sh(2) by simp
  show thesis
  proof (rule that)
    show "q_values q ! slot_of q pos = Some v" using c own assms(3) by (auto simp: cell_ok_def sh(11))
    fix q' assume q: "q' = q\<lparr>q_values := (q_values q)[slot_of q pos := None]\<rparr>"
    have q': "q_values q' = (q_values q)[?i := None]" "q_seqs q' = q_seqs q" "q_enq q' = q_enq q" "q_deq q' = q_deq q"
      using q by (simp_all add: sh(11))
    have "sys_ok N (Suc n) q' ?ts P T"
    proof (rule slot_step [where ?i0.0 = ?i, OF assms(1,2)])
      show "shape_ok N (Suc n) q'" using ok(1) assms(2) q by (auto simp: shape_ok_def)
      show "cell_ok N q' ?ts P T ?i"
        using c own i sh(10) by (auto simp: cell_ok_def q')
      show "thread_ok N (unat (q_enq q')) (unat (q_deq q')) P T t (PopRelease v pos)"
        using own by (simp add: thread_ok_def)
    qed (use own i assms(3) q' in \<open>auto simp: pc_slot_def\<close>)
    moreover have "queue_view N q' ?ts T = queue_view N q ts T"
      using assms(3) own by (auto simp: queue_view_def q' owed_by_def pending_in_def fun_eq_iff status_value_def)
    ultimately show "sys_ok N (Suc n) q' ?ts P T \<and> queue_view N q' ?ts T = queue_view N q ts T" by blast
  qed
qed

lemma refine_pop_release:
  assumes "sys_ok N n q ts P T" and "Suc n + N < 2 ^ 63" and "ts t = PopRelease v pos"
    and "q' = q\<lparr>q_seqs := (q_seqs q)[slot_of q pos := pos + q_capacity q]\<rparr>"
  shows "\<exists>P' T'. sys_ok N (Suc n) q' (ts(t := Idle)) P' T' \<and>
    spec_next N (t, PopOk v) (queue_view N q ts T) (queue_view N q' (ts(t := Idle)) T')"
proof -
  note ok = sys_okD [OF assms(1)]
  note sh = shape_facts [OF ok(1)]
  let ?i = "unat pos mod N"
  let ?ts = "ts(t := Idle)"
  let ?T = "T(?i := Vacant)"
  let ?P = "P(?i := unat pos + N)"
  have own: "T ?i = Reading t v" "P ?i = unat pos" using ok(3) [of t] assms(3) by (auto simp: thread_ok_def)
  have c: "cell_ok N q ts P T ?i" by (rule cell_at [OF assms(1)])
  have i: "?i < N" using sh(2) by simp
  have q': "q_values q' = q_values q" "q_seqs q' = (q_seqs q)[?i := pos + word_of_nat N]" "q_enq q' = q_enq q" "q_deq q' = q_deq q"
    using assms(4) ok(1) by (simp_all add: sh(11) shape_ok_def)
  have "unat pos < unat (q_deq q)" using cell_ranges(7) [OF c own(1)] own(2) by simp
  then have posN: "unat (pos + word_of_nat N) = unat pos + N" using sh(8) by (intro unat_plus) simp
  have "sys_ok N (Suc n) q' ?ts ?P ?T"
  proof (rule slot_step [where ?i0.0 = ?i, OF assms(1,2)])
    show "shape_ok N (Suc n) q'" using ok(1) assms(2,4) by (auto simp: shape_ok_def)
    show "cell_ok N q' ?ts ?P ?T ?i"
      using c own i sh(9) assms(3) posN by (auto simp: cell_ok_def q' status_seq_def)
    show "thread_ok N (unat (q_enq q')) (unat (q_deq q')) ?P ?T t Idle" by (simp add: thread_ok_def)
  qed (use own i assms(3) q' in \<open>auto simp: pc_slot_def\<close>)
  moreover have "queue_view N q' ?ts ?T =
      (map (\<lambda>p. the (status_value (T (p mod N)))) [unat (q_deq q)..<unat (q_enq q)], (\<lambda>s. owed_by N T (ts s))(t := None),
       {s. pending_in (ts s)})"
  proof (rule queue_viewI)
    have "map (\<lambda>p. the (status_value (?T (p mod N)))) [unat (q_deq q)..<unat (q_enq q)] =
        map (\<lambda>p. the (status_value (T (p mod N)))) [unat (q_deq q)..<unat (q_enq q)]"
      using values_keep [OF assms(1), of ?i ?T] own by (intro map_cong) auto
    then show "map (\<lambda>p. the (status_value (?T (p mod N)))) [unat (q_deq q')..<unat (q_enq q')] =
        map (\<lambda>p. the (status_value (T (p mod N)))) [unat (q_deq q)..<unat (q_enq q)]"
      by (simp only: q')
    have "owed_by N ?T (?ts s) = ((\<lambda>s. owed_by N T (ts s))(t := None)) s" for s
    proof (cases "s = t")
      case False
      have "pc_slot N (ts s) \<noteq> Some ?i" using slot_owner [OF ok(3) [of s], of ?i] own False by auto
      then show ?thesis using owed_keep [OF ok(3) [of s], of ?i ?T] False by simp
    qed (simp add: owed_by_def)
    then show "(\<lambda>s. owed_by N ?T (?ts s)) = (\<lambda>s. owed_by N T (ts s))(t := None)" by (rule ext)
    show "{s. pending_in (?ts s)} = {s. pending_in (ts s)}" using assms(3) by (auto simp: pending_in_def)
  qed
  moreover have "owed_by N T (ts t) = Some v" using assms(3) by (simp add: owed_by_def)
  ultimately show ?thesis by (intro exI [of _ ?P] exI [of _ ?T]) (simp add: spec_next_def queue_view_def)
qed

section \<open>What the sequence number tells\<close>

lemma seq_diff:
  assumes "sys_ok N n q ts P T" and "unat pos \<le> unat (q_enq q)"
  shows "sint (q_seqs q ! slot_of q pos - pos) =
      int (status_seq (T (unat pos mod N)) (P (unat pos mod N))) - int (unat pos)"
    and "sint (q_seqs q ! slot_of q pos - (pos + 1)) =
      int (status_seq (T (unat pos mod N)) (P (unat pos mod N))) - int (Suc (unat pos))"
proof -
  note sh = shape_facts [OF sys_okD(1) [OF assms(1)]]
  let ?i = "unat pos mod N"
  have c: "cell_ok N q ts P T ?i" by (rule cell_at [OF assms(1)])
  have s: "unat (q_seqs q ! slot_of q pos) = status_seq (T ?i) (P ?i)" using cell_ranges(6) [OF c] by (simp add: sh(11))
  have "status_seq (T ?i) (P ?i) < 2 ^ 63"
    using cell_ranges(7-10) [OF c] sh(3,5,6,7,8) by (cases "T ?i") (fastforce simp: status_seq_def)+
  moreover have "unat pos < 2 ^ 63" "unat (pos + 1) = Suc (unat pos)" "Suc (unat pos) < 2 ^ 63"
    using assms(2) sh(1,7) unat_Suc [of pos] by linarith+
  ultimately show "sint (q_seqs q ! slot_of q pos - pos) = int (status_seq (T ?i) (P ?i)) - int (unat pos)"
    and "sint (q_seqs q ! slot_of q pos - (pos + 1)) = int (status_seq (T ?i) (P ?i)) - int (Suc (unat pos))"
    using s by (simp_all add: sint_diff)
qed

lemma seq_signs:
  assumes "sys_ok N n q ts P T" and "unat pos \<le> unat (q_enq q)"
  defines "s \<equiv> status_seq (T (unat pos mod N)) (P (unat pos mod N))"
  shows "sint (q_seqs q ! slot_of q pos - pos) = 0 \<longleftrightarrow> s = unat pos"
    and "sint (q_seqs q ! slot_of q pos - pos) < 0 \<longleftrightarrow> s < unat pos"
    and "sint (q_seqs q ! slot_of q pos - (pos + 1)) = 0 \<longleftrightarrow> s = Suc (unat pos)"
    and "sint (q_seqs q ! slot_of q pos - (pos + 1)) < 0 \<longleftrightarrow> s < Suc (unat pos)"
  unfolding seq_diff [OF assms(1,2)] s_def by linarith+

lemma push_seq_cases:
  assumes "sys_ok N n q ts P T" and "p \<le> unat (q_enq q)"
  defines "s \<equiv> status_seq (T (p mod N)) (P (p mod N))"
  shows "s = p \<Longrightarrow> p = unat (q_enq q) \<Longrightarrow> T (p mod N) = Vacant"
    and "s < p \<Longrightarrow> unat (q_enq q) - unat (q_deq q) = N \<or> (\<exists>t v. T (p mod N) = Reading t v)"
    and "p = unat (q_enq q) \<Longrightarrow> s \<le> p"
proof -
  note sh = shape_facts [OF sys_okD(1) [OF assms(1)]]
  let ?i = "p mod N"
  have c: "cell_ok N q ts P T ?i" by (rule cell_at [OF assms(1)])
  note r = cell_ranges [OF c]
  have eq: "P ?i = p" if "P ?i < p + N" "p < P ?i + N"
    using mod_gap [OF r(5)] mod_gap [OF r(5) [symmetric]] that by linarith
  show "T ?i = Vacant" if "s = p" "p = unat (q_enq q)"
    using that r(5) mod_Suc_differs [OF sh(1), of "P ?i"] r(9)
    by (cases "T ?i") (auto simp: s_def status_seq_def)
  show "unat (q_enq q) - unat (q_deq q) = N \<or> (\<exists>t v. T ?i = Reading t v)" if lt: "s < p"
  proof (cases "T ?i")
    case Vacant
    then show ?thesis using r(1) lt assms(2) by (simp add: s_def status_seq_def)
  next
    case (Writing t v)
    then have "P ?i + N \<le> p" using mod_gap [OF r(5)] lt by (simp add: s_def status_seq_def)
    then show ?thesis using r(2) [OF Writing] assms(2) sh(3,4) by linarith
  next
    case (Full v)
    then have "P ?i < p" using lt by (simp add: s_def status_seq_def)
    then have "P ?i + N \<le> p" using mod_gap [OF r(5)] by simp
    then show ?thesis using r(3) [OF Full] assms(2) sh(3,4) by linarith
  qed simp
  show "s \<le> p" if pe: "p = unat (q_enq q)"
  proof (cases "T ?i")
    case Vacant
    have "P ?i < p + N" using r(8) [OF Vacant] sh(3) pe by linarith
    then have "P ?i = p" using eq r(1) [OF Vacant] pe sh(2) by linarith
    then show ?thesis using Vacant by (simp add: s_def status_seq_def)
  next
    case (Reading t v)
    have "P ?i < p" using r(7) [OF Reading] sh(3) pe by linarith
    then show ?thesis using Reading by (simp add: s_def status_seq_def)
  qed (use r(9,10) pe in \<open>auto simp: s_def status_seq_def Suc_le_eq\<close>)
qed

lemma pop_seq_cases:
  assumes "sys_ok N n q ts P T" and "p \<le> unat (q_deq q)"
  defines "s \<equiv> status_seq (T (p mod N)) (P (p mod N))"
  shows "s = Suc p \<Longrightarrow> p = unat (q_deq q) \<Longrightarrow> P (p mod N) = p \<and> (\<exists>v. T (p mod N) = Full v)"
    and "s < Suc p \<Longrightarrow> unat (q_enq q) = unat (q_deq q) \<or> (\<exists>t v. T (p mod N) = Writing t v)"
    and "p = unat (q_deq q) \<Longrightarrow> s \<le> Suc p"
proof -
  note sh = shape_facts [OF sys_okD(1) [OF assms(1)]]
  let ?i = "p mod N"
  have c: "cell_ok N q ts P T ?i" by (rule cell_at [OF assms(1)])
  note r = cell_ranges [OF c]
  show "P ?i = p \<and> (\<exists>v. T ?i = Full v)" if "s = Suc p" "p = unat (q_deq q)"
    using that r(5) mod_Suc_differs [OF sh(1), of p] r(7)
    by (cases "T ?i") (auto simp: s_def status_seq_def)
  show "unat (q_enq q) = unat (q_deq q) \<or> (\<exists>t v. T ?i = Writing t v)" if lt: "s < Suc p"
  proof (cases "T ?i")
    case Vacant
    then show ?thesis using r(1) lt assms(2) sh(3) by (simp add: s_def status_seq_def)
  next
    case (Full v)
    then show ?thesis using r(3) lt assms(2) by (simp add: s_def status_seq_def)
  next
    case (Reading t v)
    then have "P ?i < p" using lt by (simp add: s_def status_seq_def)
    then have "P ?i + N \<le> p" using mod_gap [OF r(5)] by simp
    then show ?thesis using r(4) [OF Reading] assms(2) sh(3) by linarith
  qed simp
  show "s \<le> Suc p" if pd: "p = unat (q_deq q)"
  proof (cases "p < unat (q_enq q)")
    case True
    then have "P ?i = p" "\<exists>v. T ?i = Full v \<or> (\<exists>t. T ?i = Writing t v)" using live_position [OF assms(1)] pd by simp_all
    then show ?thesis by (auto simp: s_def status_seq_def)
  next
    case False
    then have "p = unat (q_enq q)" using pd sh(3) by simp
    then show ?thesis using push_seq_cases(3) [OF assms(1), of p] by (simp add: s_def)
  qed
qed

section \<open>Every run is a run of the specification\<close>

lemma refine_same:
  assumes "sys_ok N n q ts P T" and "Suc n + N < 2 ^ 63" and "\<not> owns (ts t)" and "\<not> owns pc"
    and "thread_ok N (unat (q_enq q)) (unat (q_deq q)) P T t pc"
    and "spec_next N (t, l) (queue_view N q ts T) (queue_view N q ts T)"
  shows "\<exists>P' T'. sys_ok N (Suc n) q (ts(t := pc)) P' T' \<and>
    spec_next N (t, l) (queue_view N q ts T) (queue_view N q (ts(t := pc)) T')"
  using local_step [OF assms(1-5)] assms(6) by metis

lemma spec_silent [simp]: "spec_next N (t, Silent) s s" "spec_next N (t, CallPush v) s s" "spec_next N (t, CallPop) s s"
  by (auto simp: spec_next_def split: prod.splits)

lemma full_or_popping:
  assumes "sys_ok N n q ts P T" and "unat (q_enq q) - unat (q_deq q) = N \<or> (\<exists>s v. T (p mod N) = Reading s v)"
  shows "spec_next N (t, PushFull) (queue_view N q ts T) (queue_view N q ts T)"
proof -
  have "owed_by N T (ts s) = Some v" if r: "T (p mod N) = Reading s v" for s v
  proof -
    have i: "p mod N < N" using shape_facts(2) [OF sys_okD(1) [OF assms(1)]] by simp
    have c: "cell_ok N q ts P T (p mod N)" by (rule cell_at [OF assms(1)])
    have "pc_slot N (ts s) = Some (p mod N)" using owner_slot [OF assms(1) i disjI2 [OF r]] .
    then show ?thesis using c r by (auto simp: cell_ok_def owed_by_def pc_slot_def status_value_def)
  qed
  then have "(\<exists>s v. T (p mod N) = Reading s v) \<Longrightarrow> (\<lambda>s. owed_by N T (ts s)) \<noteq> Map.empty"
    by (metis option.distinct(1))
  then show ?thesis using assms(2) by (auto simp: spec_next_def queue_view_def)
qed

lemma empty_or_pushing:
  assumes "sys_ok N n q ts P T" and "unat (q_enq q) = unat (q_deq q) \<or> (\<exists>s v. T (p mod N) = Writing s v)"
  shows "spec_next N (t, PopEmpty) (queue_view N q ts T) (queue_view N q ts T)"
proof -
  have c: "cell_ok N q ts P T (p mod N)" by (rule cell_at [OF assms(1)])
  have "pending_in (ts s)" if r: "T (p mod N) = Writing s v" for s v
    using c r by (auto simp: cell_ok_def pending_in_def)
  then show ?thesis using assms(2) by (auto simp: spec_next_def queue_view_def)
qed

lemma refine_push_seq:
  assumes "sys_ok N n q ts P T" and "Suc n + N < 2 ^ 63" and "ts t = PushSeq v pos"
    and "advance spurious q (ts t) = (q', pc, l)"
  shows "\<exists>P' T'. sys_ok N (Suc n) q' (ts(t := pc)) P' T' \<and>
    spec_next N (t, l) (queue_view N q ts T) (queue_view N q' (ts(t := pc)) T')"
proof -
  let ?s = "status_seq (T (unat pos mod N)) (P (unat pos mod N))"
  have le: "unat pos \<le> unat (q_enq q)" using sys_okD(3) [OF assms(1), of t] assms(3) by (simp add: thread_ok_def)
  note d = seq_signs(1,2) [OF assms(1) le]
  note cs = push_seq_cases [OF assms(1) le]
  have no: "\<not> owns (ts t)" using assms(3) by (simp add: owns_def)
  consider "?s = unat pos" | "?s < unat pos" | "unat pos < ?s" by linarith
  then show ?thesis
  proof cases
    case 1
    then have "q' = q" "pc = PushCas v pos" "l = Silent" using assms(3,4) by (simp_all add: advance_def Let_def d)
    then show ?thesis
      using refine_same [OF assms(1,2) no, of pc l] cs(1) [OF 1] le by (simp add: owns_def thread_ok_def)
  next
    case 2
    then have "q' = q" "pc = Idle" "l = PushFull" using assms(3,4) by (simp_all add: advance_def Let_def d)
    then show ?thesis
      using refine_same [OF assms(1,2) no, of pc l] full_or_popping [OF assms(1) cs(2) [OF 2], of t]
      by (simp add: owns_def thread_ok_def)
  next
    case 3
    then have "q' = q" "pc = PushLoad v" "l = Silent" using assms(3,4) by (simp_all add: advance_def Let_def d)
    then show ?thesis
      using refine_same [OF assms(1,2) no, of pc l] by (simp add: owns_def thread_ok_def)
  qed
qed

lemma refine_pop_seq:
  assumes "sys_ok N n q ts P T" and "Suc n + N < 2 ^ 63" and "ts t = PopSeq pos"
    and "advance spurious q (ts t) = (q', pc, l)"
  shows "\<exists>P' T'. sys_ok N (Suc n) q' (ts(t := pc)) P' T' \<and>
    spec_next N (t, l) (queue_view N q ts T) (queue_view N q' (ts(t := pc)) T')"
proof -
  let ?s = "status_seq (T (unat pos mod N)) (P (unat pos mod N))"
  have le: "unat pos \<le> unat (q_deq q)" using sys_okD(3) [OF assms(1), of t] assms(3) by (simp add: thread_ok_def)
  then have le': "unat pos \<le> unat (q_enq q)" using shape_facts(3) [OF sys_okD(1) [OF assms(1)]] by simp
  note d = seq_signs(3,4) [OF assms(1) le']
  note cs = pop_seq_cases [OF assms(1) le]
  have no: "\<not> owns (ts t)" using assms(3) by (simp add: owns_def)
  consider "?s = Suc (unat pos)" | "?s < Suc (unat pos)" | "Suc (unat pos) < ?s" by linarith
  then show ?thesis
  proof cases
    case 1
    then have "q' = q" "pc = PopCas pos" "l = Silent" using assms(3,4) by (simp_all add: advance_def Let_def d)
    then show ?thesis
      using refine_same [OF assms(1,2) no, of pc l] cs(1) [OF 1] le by (simp add: owns_def thread_ok_def)
  next
    case 2
    then have "q' = q" "pc = Idle" "l = PopEmpty" using assms(3,4) by (simp_all add: advance_def Let_def d)
    then show ?thesis
      using refine_same [OF assms(1,2) no, of pc l] empty_or_pushing [OF assms(1) cs(2) [OF 2], of t]
      by (simp add: owns_def thread_ok_def)
  next
    case 3
    then have "q' = q" "pc = PopLoad" "l = Silent" using assms(3,4) by (simp_all add: advance_def Let_def d)
    then show ?thesis
      using refine_same [OF assms(1,2) no, of pc l] by (simp add: owns_def thread_ok_def)
  qed
qed

lemma refine_advance:
  assumes "sys_ok N n q ts P T" and "Suc n + N < 2 ^ 63" and "ts t \<noteq> Idle" and "advance spurious q (ts t) = (q', pc, l)"
  shows "\<exists>P' T'. sys_ok N (Suc n) q' (ts(t := pc)) P' T' \<and>
    spec_next N (t, l) (queue_view N q ts T) (queue_view N q' (ts(t := pc)) T')"
proof (cases "ts t")
  case (PushLoad v)
  then have "q' = q" "pc = PushSeq v (q_enq q)" "l = Silent" using assms(4) by (auto simp: advance_def)
  then show ?thesis
    using refine_same [OF assms(1,2), of t pc l] PushLoad by (simp add: owns_def thread_ok_def)
next
  case PopLoad
  then have "q' = q" "pc = PopSeq (q_deq q)" "l = Silent" using assms(4) by (auto simp: advance_def)
  then show ?thesis
    using refine_same [OF assms(1,2), of t pc l] PopLoad by (simp add: owns_def thread_ok_def)
next
  case (PushCas v pos)
  show ?thesis
  proof (cases "\<not> spurious \<and> q_enq q = pos")
    case True
    then have "q' = q\<lparr>q_enq := pos + 1\<rparr>" "pc = PushWrite v pos" "l = PushClaim v"
      using assms(4) PushCas by (auto simp: advance_def)
    then show ?thesis using refine_push_claim [OF assms(1,2) PushCas] True by blast
  next
    case False
    then have "q' = q" "pc = PushSeq v (q_enq q)" "l = Silent" using assms(4) PushCas by (auto simp: advance_def)
    then show ?thesis
      using refine_same [OF assms(1,2), of t pc l] PushCas by (simp add: owns_def thread_ok_def)
  qed
next
  case (PopCas pos)
  show ?thesis
  proof (cases "\<not> spurious \<and> q_deq q = pos")
    case True
    then have "q' = q\<lparr>q_deq := pos + 1\<rparr>" "pc = PopRead pos" "l = PopClaim"
      using assms(4) PopCas by (auto simp: advance_def)
    then show ?thesis using refine_pop_claim [OF assms(1,2) PopCas] True by blast
  next
    case False
    then have "q' = q" "pc = PopSeq (q_deq q)" "l = Silent" using assms(4) PopCas by (auto simp: advance_def)
    then show ?thesis
      using refine_same [OF assms(1,2), of t pc l] PopCas by (simp add: owns_def thread_ok_def)
  qed
next
  case (PushWrite v pos)
  then have "q' = q\<lparr>q_values := (q_values q)[slot_of q pos := Some v]\<rparr>" "pc = PushPublish v pos" "l = Silent"
    using assms(4) by (auto simp: advance_def)
  then show ?thesis using refine_push_write [OF assms(1,2) PushWrite] spec_silent by metis
next
  case (PushPublish v pos)
  then have "q' = q\<lparr>q_seqs := (q_seqs q)[slot_of q pos := pos + 1]\<rparr>" "pc = Idle" "l = PushOk"
    using assms(4) by (auto simp: advance_def)
  then show ?thesis using refine_push_publish [OF assms(1,2) PushPublish] by blast
next
  case (PopRead pos)
  show ?thesis
  proof (rule refine_pop_read [OF assms(1,2) PopRead])
    fix v assume v: "q_values q ! slot_of q pos = Some v"
      and step: "\<And>q'. q' = q\<lparr>q_values := (q_values q)[slot_of q pos := None]\<rparr> \<Longrightarrow>
        sys_ok N (Suc n) q' (ts(t := PopRelease v pos)) P T \<and> queue_view N q' (ts(t := PopRelease v pos)) T = queue_view N q ts T"
    have "q' = q\<lparr>q_values := (q_values q)[slot_of q pos := None]\<rparr>" "pc = PopRelease v pos" "l = Silent"
      using assms(4) PopRead v by (auto simp: advance_def)
    then show ?thesis using step spec_silent by metis
  qed
next
  case (PopRelease v pos)
  then have "q' = q\<lparr>q_seqs := (q_seqs q)[slot_of q pos := pos + q_capacity q]\<rparr>" "pc = Idle" "l = PopOk v"
    using assms(4) by (auto simp: advance_def)
  then show ?thesis using refine_pop_release [OF assms(1,2) PopRelease] by blast
qed (use assms refine_push_seq [OF assms(1,2) _ assms(4)] refine_pop_seq [OF assms(1,2) _ assms(4)] in auto)

lemma refine_step:
  assumes "sys_ok N n q ts P T" and "Suc n + N < 2 ^ 63" and "qstep (q, ts) (t, l) (q', ts')"
  shows "\<exists>P' T'. sys_ok N (Suc n) q' ts' P' T' \<and> spec_next N (t, l) (queue_view N q ts T) (queue_view N q' ts' T')"
  using assms(3)
proof (rule qstepE)
  fix v assume "l = CallPush v" "(q', ts') = (q, ts(t := PushLoad v))" "ts t = Idle"
  then show ?thesis using refine_same [OF assms(1,2), of t "PushLoad v" l]
    by (simp add: owns_def thread_ok_def)
next
  assume "l = CallPop" "(q', ts') = (q, ts(t := PopLoad))" "ts t = Idle"
  then show ?thesis using refine_same [OF assms(1,2), of t "PopLoad" l]
    by (simp add: owns_def thread_ok_def)
next
  fix spurious q1 pc assume "(q', ts') = (q1, ts(t := pc))" "ts t \<noteq> Idle" "advance spurious q (ts t) = (q1, pc, l)"
  then show ?thesis using refine_advance [OF assms(1,2)] by blast
qed

section \<open>The new queue\<close>

lemma next_power_of_two_from_power:
  assumes "p = 2 ^ k" and "k \<le> m" and "n \<le> 2 ^ m" and "m < 64"
  shows "\<exists>j. next_power_of_two_from p n = 2 ^ j \<and> k \<le> j \<and> j \<le> m \<and> n \<le> 2 ^ j \<and> (k < j \<longrightarrow> 2 ^ (j - 1) < n)"
  using assms
proof (induction "m - k" arbitrary: p k)
  case 0
  then have "k = m" by simp
  then show ?case using 0 by (subst next_power_of_two_from.simps) auto
next
  case (Suc d)
  show ?case
  proof (cases "p < n")
    case True
    have "(2 :: nat) ^ Suc k < 2 ^ 64" using Suc.hyps(2) Suc.prems(4) by (intro power_strict_increasing) auto
    then have "p * 2 < 2 ^ 64" using Suc.prems(1) by simp
    then have eq: "next_power_of_two_from p n = next_power_of_two_from (p * 2) n"
      using True Suc.prems(1) by (subst next_power_of_two_from.simps) simp
    have "p * 2 = 2 ^ Suc k" "d = m - Suc k" "Suc k \<le> m" using Suc.prems(1) Suc.hyps(2) by simp_all
    then obtain j where j: "next_power_of_two_from (p * 2) n = 2 ^ j" "Suc k \<le> j" "j \<le> m" "n \<le> 2 ^ j"
      "Suc k < j \<longrightarrow> 2 ^ (j - 1) < n"
      using Suc.hyps(1) [of "Suc k" "p * 2"] Suc.prems(3,4) by blast
    moreover have "2 ^ (j - 1) < n" if "j = Suc k" using True Suc.prems(1) that by simp
    ultimately show ?thesis using eq by (intro exI [of _ j]) force
  next
    case False
    then have "next_power_of_two_from p n = 2 ^ k" using Suc.prems(1) by (subst next_power_of_two_from.simps) simp
    then show ?thesis using False Suc.prems(1,2) by (intro exI [of _ k]) simp
  qed
qed

lemma next_power_of_two_least:
  assumes "0 < n" and "n \<le> 2 ^ 63"
  shows "\<exists>j \<le> 63. next_power_of_two n = 2 ^ j \<and> n \<le> 2 ^ j \<and> (0 < j \<longrightarrow> 2 ^ (j - 1) < n)"
  using next_power_of_two_from_power [of 1 0 63 n] assms by (auto simp: next_power_of_two_def)

text \<open>The number of slots of a new queue: a power of two, at least what was asked for and at least 8.\<close>

definition slots_for :: "nat \<Rightarrow> nat" where
  "slots_for c = max (next_power_of_two c) 8"

lemma slots_for_power:
  assumes "c \<le> 2 ^ 62"
  shows "\<exists>k. slots_for c = 2 ^ k \<and> 3 \<le> k \<and> k \<le> 62"
proof -
  obtain j where "next_power_of_two c = 2 ^ j" "j \<le> 62"
    using next_power_of_two_from_power [of 1 0 62 c] assms by (auto simp: next_power_of_two_def)
  moreover have "max (2 ^ j) (8 :: nat) = 2 ^ max j 3"
    using power_increasing [of j 3 "2 :: nat"] power_increasing [of 3 j "2 :: nat"] by (cases "j \<le> 3") (auto simp: max_def)
  ultimately show ?thesis by (intro exI [of _ "max j 3"]) (simp add: slots_for_def)
qed

lemma queue_start_ok:
  assumes "c \<le> 2 ^ 62"
  shows "sys_ok (slots_for c) 0 (mpmc_new c :: 'v mpmc) (\<lambda>_. Idle) (\<lambda>i. i) (\<lambda>_. Vacant)"
proof -
  let ?N = "slots_for c"
  let ?q = "mpmc_new c :: 'v mpmc"
  obtain k where k: "?N = 2 ^ k" "3 \<le> k" "k \<le> 62" using slots_for_power [OF assms] by blast
  have "(2 :: nat) ^ k \<le> 2 ^ 62" "(2 :: nat) ^ 3 \<le> 2 ^ k" using k by (simp_all only: power_increasing_iff)
  then have N: "8 \<le> ?N" "?N < 2 ^ 63" using k(1) by simp_all
  have q: "?q = \<lparr>q_values = replicate ?N None, q_seqs = map word_of_nat [0..<?N],
      q_capacity = word_of_nat ?N, q_mask = word_of_nat ?N - 1, q_enq = 0, q_deq = 0\<rparr>"
    by (simp add: mpmc_new_def slots_for_def Let_def)
  have "cell_ok ?N ?q (\<lambda>_. Idle) (\<lambda>i. i) (\<lambda>_. Vacant) i" if "i < ?N" for i
  proof -
    have "i < 2 ^ 64" using that N(2) by simp
    then have "unat (word_of_nat i :: u64) = i" by (simp add: unat_of_nat)
    then show ?thesis using that by (simp add: cell_ok_def q status_seq_def)
  qed
  moreover have "shape_ok ?N 0 ?q" using N k by (auto simp: shape_ok_def q)
  ultimately show ?thesis by (simp add: sys_ok_def thread_ok_def)
qed

lemma run_refines:
  assumes "qrun (queue_start c :: 'v queue_system) ls s" and "c \<le> 2 ^ 62" and "length ls + slots_for c < 2 ^ 63"
  shows "\<exists>P T. sys_ok (slots_for c) (length ls) (fst s) (snd s) P T \<and>
    queue_spec_run (slots_for c) ([], Map.empty, {}) ls (queue_view (slots_for c) (fst s) (snd s) T)"
  using assms
proof (induction "queue_start c :: 'v queue_system" ls s rule: qrun.induct)
  case qrun_nil
  have "queue_view (slots_for c) (mpmc_new c :: 'v mpmc) (\<lambda>_. Idle) (\<lambda>_. Vacant) = ([], Map.empty, {})"
    by (simp add: queue_view_def mpmc_new_def owed_by_def pending_in_def Let_def)
  then have "queue_spec_run (slots_for c) ([], Map.empty, {}) []
      (queue_view (slots_for c) (mpmc_new c :: 'v mpmc) (\<lambda>_. Idle) (\<lambda>_. Vacant))" by (simp only: spec_nil)
  then show ?case using queue_start_ok [OF qrun_nil(1), where 'v = 'v] by (auto simp: queue_start_def)
next
  case (qrun_step ls u l s)
  obtain P T where ok: "sys_ok (slots_for c) (length ls) (fst u) (snd u) P T"
    and run: "queue_spec_run (slots_for c) ([], Map.empty, {}) ls (queue_view (slots_for c) (fst u) (snd u) T)"
    using qrun_step(2) qrun_step(4,5) by auto
  obtain P' T' where "sys_ok (slots_for c) (Suc (length ls)) (fst s) (snd s) P' T'"
    "spec_next (slots_for c) l (queue_view (slots_for c) (fst u) (snd u) T) (queue_view (slots_for c) (fst s) (snd s) T')"
    using refine_step [OF ok _, of "fst l" "snd l" "fst s" "snd s"] qrun_step(3,5) by auto
  moreover note spec_step [OF run this(2)]
  ultimately show ?case by auto
qed

section \<open>First in, first out\<close>

text \<open>The values in the order in which the pushes put them, and in the order in which the pops answer them.\<close>

definition pushed :: "(nat \<times> 'v label) list \<Rightarrow> 'v list" where
  "pushed ls = concat (map (\<lambda>(t, l). case l of PushClaim v \<Rightarrow> [v] | _ \<Rightarrow> []) ls)"

definition popped :: "(nat \<times> 'v label) list \<Rightarrow> 'v list" where
  "popped ls = concat (map (\<lambda>(t, l). case l of PopOk v \<Rightarrow> [v] | _ \<Rightarrow> []) ls)"

text \<open>One thread pops: the queue of commands is drained by the thread of its world.\<close>

definition one_consumer :: "nat \<Rightarrow> (nat \<times> 'v label) list \<Rightarrow> bool" where
  "one_consumer c ls \<longleftrightarrow> (\<forall>(t, l) \<in> set ls. l = PopClaim \<longrightarrow> t = c)"

lemma pushed_snoc: "pushed (ls @ [(t, l)]) = pushed ls @ (case l of PushClaim v \<Rightarrow> [v] | _ \<Rightarrow> [])"
  "popped (ls @ [(t, l)]) = popped ls @ (case l of PopOk v \<Rightarrow> [v] | _ \<Rightarrow> [])"
  by (simp_all add: pushed_def popped_def)

lemma spec_fifo:
  assumes "queue_spec_run N ([], Map.empty, {}) ls s" and "one_consumer c ls"
  shows "\<exists>xs owed pending. s = (xs, owed, pending) \<and> length xs \<le> N \<and> (\<forall>t. t \<noteq> c \<longrightarrow> owed t = None) \<and>
    pushed ls = popped ls @ (case owed c of None \<Rightarrow> [] | Some v \<Rightarrow> [v]) @ xs"
  using assms
proof (induction "([], Map.empty, {}) :: 'a queue_view" ls s rule: queue_spec_run.induct)
  case spec_nil
  then show ?case by (simp add: pushed_def popped_def)
next
  case (spec_step ls u ev s)
  obtain t l where ev: "ev = (t, l)" by (cases ev)
  have one: "one_consumer c ls" "l = PopClaim \<longrightarrow> t = c" using spec_step(4) ev by (auto simp: one_consumer_def)
  obtain xs owed pending where u: "u = (xs, owed, pending)" "length xs \<le> N" "\<forall>t. t \<noteq> c \<longrightarrow> owed t = None"
    "pushed ls = popped ls @ (case owed c of None \<Rightarrow> [] | Some v \<Rightarrow> [v]) @ xs"
    using spec_step(2) [OF one(1)] by blast
  note next_step = spec_step(3) [unfolded ev u(1)]
  show ?case
  proof (cases l)
    case PopClaim
    then have "xs \<noteq> []" "owed c = None" "s = (tl xs, owed(c \<mapsto> hd xs), pending)"
      using next_step one(2) by (auto simp: spec_next_def)
    then show ?thesis using u(2-4) PopClaim by (cases xs) (auto simp: ev pushed_snoc)
  next
    case (PopOk v)
    then have o: "owed t = Some v" "s = (xs, owed(t := None), pending)" using next_step by (auto simp: spec_next_def)
    then have "t = c" using u(3) by (metis option.distinct(1))
    then show ?thesis using u(2-4) PopOk o by (auto simp: ev pushed_snoc)
  qed (use next_step u in \<open>auto simp: spec_next_def ev pushed_snoc\<close>)
qed

section \<open>A thread on its own gets done\<close>

text \<open>The steps a thread needs at most when no other thread takes a step and no exchange fails for no
  reason.\<close>

definition pc_rank :: "'v mpmc \<Rightarrow> 'v pc \<Rightarrow> nat" where
  "pc_rank q pc =
     (case pc of
        Idle \<Rightarrow> 0
      | PushPublish v pos \<Rightarrow> 1 | PopRelease v pos \<Rightarrow> 1
      | PushWrite v pos \<Rightarrow> 2 | PopRead pos \<Rightarrow> 2
      | PushCas v pos \<Rightarrow> if pos = q_enq q then 3 else 5
      | PopCas pos \<Rightarrow> if pos = q_deq q then 3 else 5
      | PushSeq v pos \<Rightarrow> if pos = q_enq q then 4 else 6
      | PopSeq pos \<Rightarrow> if pos = q_deq q then 4 else 6
      | PushLoad v \<Rightarrow> 5 | PopLoad \<Rightarrow> 5)"

definition solo_step :: "nat \<Rightarrow> 'v queue_system \<Rightarrow> 'v queue_system" where
  "solo_step t s = (case s of (q, ts) \<Rightarrow> case advance False q (ts t) of (q', pc, l) \<Rightarrow> (q', ts(t := pc)))"

lemma rank_decreases:
  assumes "sys_ok N n q ts P T" and "ts t \<noteq> Idle" and "advance False q (ts t) = (q', pc, l)"
  shows "pc_rank q' pc < pc_rank q (ts t)"
proof (cases "ts t")
  case (PushSeq v pos)
  have le: "unat pos \<le> unat (q_enq q)" using sys_okD(3) [OF assms(1), of t] PushSeq by (simp add: thread_ok_def)
  note d = seq_signs(1,2) [OF assms(1) le]
  show ?thesis
  proof (cases "pos = q_enq q")
    case True
    then have "status_seq (T (unat pos mod N)) (P (unat pos mod N)) \<le> unat pos"
      using push_seq_cases(3) [OF assms(1) le] by simp
    then have "sint (q_seqs q ! slot_of q pos - pos) = 0 \<or> sint (q_seqs q ! slot_of q pos - pos) < 0"
      unfolding d by (rule le_imp_less_or_eq [THEN disj_commute [THEN iffD1]])
    then show ?thesis using assms(3) True by (auto simp: PushSeq advance_def pc_rank_def Let_def split: if_splits)
  next
    case False
    then show ?thesis using assms(3) by (auto simp: PushSeq advance_def pc_rank_def Let_def split: if_splits)
  qed
next
  case (PopSeq pos)
  have le: "unat pos \<le> unat (q_deq q)" using sys_okD(3) [OF assms(1), of t] PopSeq by (simp add: thread_ok_def)
  then have le': "unat pos \<le> unat (q_enq q)" using shape_facts(3) [OF sys_okD(1) [OF assms(1)]] by simp
  note d = seq_signs(3,4) [OF assms(1) le']
  show ?thesis
  proof (cases "pos = q_deq q")
    case True
    then have "status_seq (T (unat pos mod N)) (P (unat pos mod N)) \<le> Suc (unat pos)"
      using pop_seq_cases(3) [OF assms(1) le] by simp
    then have "sint (q_seqs q ! slot_of q pos - (pos + 1)) = 0 \<or> sint (q_seqs q ! slot_of q pos - (pos + 1)) < 0"
      unfolding d by (rule le_imp_less_or_eq [THEN disj_commute [THEN iffD1]])
    then show ?thesis using assms(3) True by (auto simp: PopSeq advance_def pc_rank_def Let_def split: if_splits)
  next
    case False
    then show ?thesis using assms(3) by (auto simp: PopSeq advance_def pc_rank_def Let_def split: if_splits)
  qed
qed (use assms(2,3) in \<open>auto simp: advance_def pc_rank_def split: if_splits option.splits\<close>)

lemma solo_finishes:
  assumes "sys_ok N n q ts P T" and "n + pc_rank q (ts t) + N < 2 ^ 63"
  shows "\<exists>k \<le> pc_rank q (ts t). snd ((solo_step t ^^ k) (q, ts)) t = Idle"
  using assms
proof (induction "pc_rank q (ts t)" arbitrary: n q ts P T rule: less_induct)
  case less
  show ?case
  proof (cases "ts t = Idle")
    case True
    then show ?thesis by (intro exI [of _ 0]) simp
  next
    case False
    obtain q' pc l where a: "advance False q (ts t) = (q', pc, l)" by (metis prod_cases3)
    have lt: "pc_rank q' pc < pc_rank q (ts t)" by (rule rank_decreases [OF less.prems(1) False a])
    have "Suc n + N < 2 ^ 63" using less.prems(2) lt by linarith
    then obtain P' T' where ok: "sys_ok N (Suc n) q' (ts(t := pc)) P' T'"
      using refine_advance [OF less.prems(1) _ False a] by blast
    have "pc_rank q' ((ts(t := pc)) t) < pc_rank q (ts t)" "Suc n + pc_rank q' ((ts(t := pc)) t) + N < 2 ^ 63"
      using lt less.prems(2) by simp_all
    then obtain k where k: "k \<le> pc_rank q' pc" "snd ((solo_step t ^^ k) (q', ts(t := pc))) t = Idle"
      using less.hyps [OF _ ok] by auto
    have "solo_step t (q, ts) = (q', ts(t := pc))" using a by (simp add: solo_step_def)
    then have "(solo_step t ^^ Suc k) (q, ts) = (solo_step t ^^ k) (q', ts(t := pc))"
      by (simp add: funpow_Suc_right del: funpow.simps)
    then show ?thesis using k lt by (intro exI [of _ "Suc k"]) simp
  qed
qed

lemma rank_bound: "pc_rank q pc \<le> 6"
  by (cases pc) (auto simp: pc_rank_def)

end
