(* ===== verification/Ecs_Schedule.thy ===== *)
theory Ecs_Schedule
  imports Deferred_Commands Mpmc_Queue "HOL-Library.Multiset"
begin

text \<open>
  The schedule of a world (\<open>ecs/schedule.rs\<close>, with the message inbox of \<open>ecs/message.rs\<close>): the order of
  the systems by layers of a topological sort, the run of a tick with the deferred commands applied between
  systems, and the clock of fixed steps. Assertions of debug builds are not part of the model: it is the
  release build. A system is its name and its body, a function that may panic (\<open>None\<close>). The nanoseconds of
  one step of the clock, a quotient of floats, are a field. The main results: every order is a permutation
  of the systems that respects the dependencies when they have no cycle; with or without the flag for
  parallel groups a tick does the same; the clock loses no time.
\<close>

section \<open>The order of the systems\<close>

text \<open>A hash map built from pairs keeps the last index of a name.\<close>

definition name_to_idx :: "string list \<Rightarrow> string \<rightharpoonup> nat" where
  "name_to_idx names = map_of (rev (zip names [0..<length names]))"

text \<open>Edges \<open>(earlier, later)\<close>; a dependency that names an unknown system is dropped.\<close>

definition dep_edges :: "string list \<Rightarrow> (string \<times> string) list \<Rightarrow> (nat \<times> nat) list" where
  "dep_edges names deps = List.map_filter (\<lambda>(later, earlier).
     case (name_to_idx names later, name_to_idx names earlier) of
       (Some l, Some e) \<Rightarrow> Some (e, l)
     | _ \<Rightarrow> None) deps"

definition adjacent :: "(nat \<times> nat) list \<Rightarrow> nat \<Rightarrow> nat list" where
  "adjacent edges e = map snd (filter (\<lambda>(e', l). e' = e) edges)"

definition in_degrees :: "nat \<Rightarrow> (nat \<times> nat) list \<Rightarrow> nat list" where
  "in_degrees n edges = fold (\<lambda>(e, l) d. d[l := d ! l + 1]) edges (replicate n 0)"

definition release_node :: "(nat \<times> nat) list \<Rightarrow> nat \<Rightarrow> nat list \<Rightarrow> nat list" where
  "release_node edges i deg = fold (\<lambda>j d. d[j := d ! j - 1]) (adjacent edges i) deg"

function topo_layers :: "(nat \<times> nat) list \<Rightarrow> nat list \<Rightarrow> nat list \<Rightarrow> nat list list" where
  "topo_layers edges deg nodes =
     (if nodes = [] then []
      else
        (let ready = filter (\<lambda>i. deg ! i = 0) nodes in
         if ready = [] then [nodes]
         else ready # topo_layers edges (fold (release_node edges) ready deg) (filter (\<lambda>i. i \<notin> set ready) nodes)))"
  by pat_completeness auto
termination
proof (relation "measure (\<lambda>(edges, deg, nodes). length nodes)", simp)
  fix edges :: "(nat \<times> nat) list" and deg nodes ready :: "nat list"
  assume ready: "ready = filter (\<lambda>i. deg ! i = 0) nodes" "ready \<noteq> []"
  obtain i where "i \<in> set ready" using list.set_sel(1) [OF ready(2)] by blast
  moreover from this have "i \<in> set nodes" using ready by simp
  ultimately have "length (filter (\<lambda>i. i \<notin> set ready) nodes) < length nodes"
    by (intro length_filter_less [of i]) auto
  then show "((edges, fold (release_node edges) ready deg, filter (\<lambda>i. i \<notin> set ready) nodes), edges, deg, nodes)
    \<in> measure (\<lambda>(edges, deg, nodes). length nodes)" by simp
qed

declare topo_layers.simps [simp del]

definition topo_groups :: "string list \<Rightarrow> (string \<times> string) list \<Rightarrow> nat list list" where
  "topo_groups names deps =
     (let edges = dep_edges names deps; n = length names
      in topo_layers edges (in_degrees n edges) [0..<n])"

section \<open>The layers are a permutation that respects the dependencies\<close>

lemma mset_topo_layers: "mset (concat (topo_layers edges deg nodes)) = mset nodes"
proof (induction edges deg nodes rule: topo_layers.induct)
  case (1 edges deg nodes)
  let ?ready = "filter (\<lambda>i. deg ! i = 0) nodes"
  have "filter (\<lambda>i. i \<notin> set ?ready) nodes = filter (\<lambda>i. \<not> deg ! i = 0) nodes" by (rule filter_cong) auto
  then have "mset ?ready + mset (filter (\<lambda>i. i \<notin> set ?ready) nodes) = mset nodes"
    by (simp add: multiset_partition [symmetric])
  then show ?case using 1 by (subst topo_layers.simps) (auto simp: Let_def)
qed

lemma filter_upt_sorted: "sorted nodes \<Longrightarrow> g \<in> set (topo_layers edges deg nodes) \<Longrightarrow> sorted g"
proof (induction edges deg nodes rule: topo_layers.induct)
  case (1 edges deg nodes)
  show ?case
    using 1(1) [OF _ refl] 1(2,3)
    by (subst (asm) topo_layers.simps) (auto simp: Let_def sorted_wrt_filter sorted_filter [where f = "\<lambda>x. x", simplified] split: if_splits)
qed

text \<open>The number of edges into \<open>j\<close> that start in a set.\<close>

definition into_from :: "(nat \<times> nat) list \<Rightarrow> nat set \<Rightarrow> nat \<Rightarrow> nat" where
  "into_from edges A j = length (filter (\<lambda>(e, l). l = j \<and> e \<in> A) edges)"

definition degrees_ok :: "(nat \<times> nat) list \<Rightarrow> nat \<Rightarrow> nat list \<Rightarrow> nat list \<Rightarrow> bool" where
  "degrees_ok edges n deg nodes \<longleftrightarrow> length deg = n \<and> (\<forall>j < n. deg ! j = into_from edges (set nodes) j)"

lemma length_release [simp]: "length (release_node edges i deg) = length deg"
proof -
  have "length (fold (\<lambda>j d. d[j := d ! j - 1]) js deg) = length deg" for js
    by (induction js arbitrary: deg) simp_all
  then show ?thesis by (simp add: release_node_def)
qed

lemma fold_decrement: "j < length deg \<Longrightarrow> fold (\<lambda>j d. d[j := d ! j - 1]) js deg ! j = deg ! j - count_list js j"
  by (induction js arbitrary: deg) (auto simp: nth_list_update)

lemma count_adjacent: "count_list (adjacent edges i) j = into_from edges {i} j"
  by (induction edges) (auto simp: adjacent_def into_from_def)

lemma release_nth: "j < length deg \<Longrightarrow> release_node edges i deg ! j = deg ! j - into_from edges {i} j"
  using fold_decrement [of j deg "adjacent edges i"] by (simp add: release_node_def count_adjacent)

lemma into_insert: "i \<in> A \<Longrightarrow> into_from edges A j = into_from edges {i} j + into_from edges (A - {i}) j"
  by (induction edges) (auto simp: into_from_def)

lemma release_all:
  assumes "set is \<subseteq> A" and "distinct is" and "j < length deg" and "deg ! j = into_from edges A j"
  shows "fold (release_node edges) is deg ! j = into_from edges (A - set is) j \<and> length (fold (release_node edges) is deg) = length deg"
  using assms
proof (induction "is" arbitrary: deg A)
  case (Cons i "is")
  have "release_node edges i deg ! j = into_from edges (A - {i}) j"
    using Cons.prems into_insert [of i A edges j] by (simp add: release_nth)
  then show ?case
    using Cons.IH [of "A - {i}" "release_node edges i deg"] Cons.prems by (auto simp: Diff_insert2 [symmetric])
qed simp

lemma degrees_step:
  assumes "degrees_ok edges n deg nodes" and "distinct nodes" and "ready = filter P nodes"
  shows "degrees_ok edges n (fold (release_node edges) ready deg) (filter (\<lambda>i. i \<notin> set ready) nodes)"
proof -
  have s: "set nodes - set ready = set (filter (\<lambda>i. i \<notin> set ready) nodes)" by auto
  have sub: "set ready \<subseteq> set nodes" "distinct ready" using assms(2,3) by auto
  have len: "length (fold (release_node edges) ready deg) = length deg" for ready
    by (induction ready arbitrary: deg) simp_all
  show ?thesis
    using assms(1) release_all [OF sub, of _ deg edges] unfolding degrees_ok_def s [symmetric] by (simp add: len)
qed

lemma in_degrees_nth: "j < n \<Longrightarrow> \<forall>(e, l) \<in> set edges. l < n \<Longrightarrow> in_degrees n edges ! j = into_from edges UNIV j"
proof -
  have "length deg = n \<Longrightarrow> j < n \<Longrightarrow>
    fold (\<lambda>(e, l) d. d[l := d ! l + 1]) edges deg ! j = deg ! j + into_from edges UNIV j" for deg
    by (induction edges arbitrary: deg) (auto simp: into_from_def nth_list_update)
  then show "j < n \<Longrightarrow> \<forall>(e, l) \<in> set edges. l < n \<Longrightarrow> in_degrees n edges ! j = into_from edges UNIV j"
    by (simp add: in_degrees_def)
qed

lemma length_in_degrees [simp]: "length (in_degrees n edges) = n"
proof -
  have "length (fold (\<lambda>(e, l) d. d[l := d ! l + 1]) edges deg) = length deg" for deg :: "nat list"
    by (induction edges arbitrary: deg) auto
  then show ?thesis by (simp add: in_degrees_def)
qed

text \<open>The position of a node in a list of layers.\<close>

definition before_in :: "nat list list \<Rightarrow> nat \<Rightarrow> nat \<Rightarrow> bool" where
  "before_in gs e l \<longleftrightarrow> (\<exists>a b. a < b \<and> b < length gs \<and> e \<in> set (gs ! a) \<and> l \<in> set (gs ! b))"

lemma before_later: "before_in gs e l \<Longrightarrow> before_in (g # gs) e l"
  unfolding before_in_def by (metis Suc_less_eq length_Cons nth_Cons_Suc)

lemma before_first: "e \<in> set g \<Longrightarrow> l \<in> set (concat gs) \<Longrightarrow> before_in (g # gs) e l"
proof -
  assume e: "e \<in> set g" and "l \<in> set (concat gs)"
  then obtain h where "h \<in> set gs" "l \<in> set h" by auto
  then obtain b where "b < length gs" "l \<in> set (gs ! b)" by (auto simp: in_set_conv_nth)
  then show ?thesis using e unfolding before_in_def by (intro exI [of _ 0] exI [of _ "Suc b"]) simp
qed

lemma layers_respect:
  assumes "degrees_ok edges n deg nodes" and "distinct nodes" and "set nodes \<subseteq> {..<n}"
    and "\<forall>(e, l) \<in> set edges. r e < (r l :: nat)"
    and "(e, l) \<in> set edges" and "e \<in> set nodes" and "l \<in> set nodes"
  shows "before_in (topo_layers edges deg nodes) e l"
  using assms
proof (induction edges deg nodes rule: topo_layers.induct)
  case (1 edges deg nodes)
  let ?ready = "filter (\<lambda>i. deg ! i = 0) nodes"
  let ?rest = "filter (\<lambda>i. i \<notin> set ?ready) nodes"
  have deg: "deg ! j = into_from edges (set nodes) j" if "j \<in> set nodes" for j
    using that 1(2,4) by (auto simp: degrees_ok_def)
  have ne: "nodes \<noteq> []" using 1(7) by auto
  have ready: "?ready \<noteq> []"
  proof
    assume none: "?ready = []"
    obtain m where m: "m \<in> set nodes" "\<forall>j \<in> set nodes. r m \<le> r j"
      using ne ex_has_least_nat [of "\<lambda>x. x \<in> set nodes" e r] 1(7) by auto
    have "into_from edges (set nodes) m \<noteq> 0" using none m(1) deg by (auto simp: filter_empty_conv)
    then obtain e' where "(e', m) \<in> set edges" "e' \<in> set nodes" by (auto simp: into_from_def filter_empty_conv)
    then show False using 1(5) m(2) by force
  qed
  have "l \<notin> set ?ready"
    using 1(6,7,8) deg [of l] by (auto simp: into_from_def filter_empty_conv)
  then have l: "l \<in> set ?rest" using 1(8) by simp
  have layers: "topo_layers edges deg nodes =
      ?ready # topo_layers edges (fold (release_node edges) ?ready deg) ?rest"
    by (subst topo_layers.simps) (simp only: Let_def ne ready if_False)
  show ?case
  proof (cases "e \<in> set ?ready")
    case True
    have "set (concat (topo_layers edges (fold (release_node edges) ?ready deg) ?rest)) = set ?rest"
      by (rule mset_eq_setD [OF mset_topo_layers])
    then show ?thesis unfolding layers using l by (intro before_first [OF True]) simp
  next
    case False
    then have "e \<in> set ?rest" using 1(7) by simp
    moreover have "degrees_ok edges n (fold (release_node edges) ?ready deg) ?rest"
      by (rule degrees_step [OF 1(2,3) refl])
    ultimately have "before_in (topo_layers edges (fold (release_node edges) ?ready deg) ?rest) e l"
      using 1(3,4) l by (intro 1(1) [OF ne refl ready _ _ _ 1(5,6)]) auto
    then show ?thesis unfolding layers by (rule before_later)
  qed
qed

lemma name_to_idx_some: "name_to_idx names x = Some i \<Longrightarrow> i < length names \<and> names ! i = x"
  unfolding name_to_idx_def by (drule map_of_SomeD) (auto simp: set_zip)

lemma name_to_idx_distinct: "distinct names \<Longrightarrow> i < length names \<Longrightarrow> name_to_idx names (names ! i) = Some i"
proof -
  assume "distinct names" "i < length names"
  then have "(names ! i, i) \<in> set (rev (zip names [0..<length names]))" "distinct (map fst (rev (zip names [0..<length names])))"
    by (auto simp: set_zip rev_map [symmetric] intro!: exI [of _ i])
  then show ?thesis unfolding name_to_idx_def by (simp add: map_of_is_SomeI)
qed

lemma dep_edges_iff:
  "(e, l) \<in> set (dep_edges names deps) \<longleftrightarrow>
    (\<exists>later earlier. (later, earlier) \<in> set deps \<and> name_to_idx names later = Some l \<and> name_to_idx names earlier = Some e)"
  unfolding dep_edges_def by (force simp: List.map_filter_def split: option.splits)

lemma dep_edges_bound: "(e, l) \<in> set (dep_edges names deps) \<Longrightarrow> e < length names \<and> l < length names"
  unfolding dep_edges_iff by (auto dest: name_to_idx_some)

lemma start_degrees: "degrees_ok (dep_edges names deps) (length names) (in_degrees (length names) (dep_edges names deps)) [0..<length names]"
proof -
  let ?E = "dep_edges names deps"
  have "into_from ?E UNIV j = into_from ?E {0..<length names} j" for j
    unfolding into_from_def by (rule arg_cong [of _ _ length], rule filter_cong) (auto dest: dep_edges_bound)
  moreover have "\<forall>(e, l) \<in> set ?E. l < length names" by (auto dest: dep_edges_bound)
  ultimately show ?thesis by (simp add: degrees_ok_def in_degrees_nth)
qed

lemma topo_groups_permutation: "mset (concat (topo_groups names deps)) = mset [0..<length names]"
  by (simp add: topo_groups_def Let_def mset_topo_layers)

lemma topo_groups_respect:
  assumes "distinct names" and "(names ! l, names ! e) \<in> set deps" and "l < length names" and "e < length names"
    and "\<forall>(later, earlier) \<in> set deps. r earlier < (r later :: nat)"
  shows "before_in (topo_groups names deps) e l"
proof -
  let ?E = "dep_edges names deps"
  have "(e, l) \<in> set ?E" unfolding dep_edges_iff using assms(1-4) name_to_idx_distinct by blast
  moreover have "\<forall>(e, l) \<in> set ?E. r (names ! e) < r (names ! l)"
    using assms(5) by (auto simp: dep_edges_iff dest!: name_to_idx_some)
  ultimately show ?thesis
    unfolding topo_groups_def Let_def
    by (intro layers_respect [OF start_degrees, where r = "\<lambda>i. r (names ! i)"]) (use assms(3,4) in auto)
qed

section \<open>The clock of fixed steps\<close>

text \<open>
  Durations are nanoseconds; \<open>fc_step\<close> is \<open>step_nanos(hz)\<close>, the quotient of floats truncated to an integer.
  \<open>None\<close> is a panic: an overflow of \<open>Duration\<close>, or a division by zero.
\<close>

record fixed_clock =
  fc_step :: nat
  fc_accumulator :: nat

definition clock_new :: "nat \<Rightarrow> fixed_clock" where
  "clock_new step = \<lparr>fc_step = step, fc_accumulator = 0\<rparr>"

definition duration_bound :: nat where
  "duration_bound = 2 ^ 64 * 1000000000"

definition clock_advance :: "nat \<Rightarrow> fixed_clock \<Rightarrow> fixed_clock option" where
  "clock_advance dt c =
     (if fc_accumulator c + dt < duration_bound then Some (c\<lparr>fc_accumulator := fc_accumulator c + dt\<rparr>) else None)"

definition saturated64 :: "nat \<Rightarrow> nat" where
  "saturated64 n = min n (2 ^ 64 - 1)"

lemma saturated64_id: "n < 2 ^ 64 \<Longrightarrow> saturated64 n = n"
  by (simp add: saturated64_def)

definition clock_tick :: "nat \<Rightarrow> fixed_clock \<Rightarrow> (nat \<times> fixed_clock) option" where
  "clock_tick dt c =
     Option.bind (clock_advance dt c) (\<lambda>c'.
       if fc_step c = 0 then None
       else
         (let n = fc_accumulator c' div fc_step c;
              rem = saturated64 (fc_accumulator c' mod fc_step c)
          in Some (saturated64 n, if 0 < n then c'\<lparr>fc_accumulator := rem\<rparr> else c')))"

definition clock_step :: "fixed_clock \<Rightarrow> bool \<times> fixed_clock" where
  "clock_step c =
     (let step = fc_step c mod 2 ^ 64 in
      if step \<le> fc_accumulator c then (True, c\<lparr>fc_accumulator := fc_accumulator c - step\<rparr>) else (False, c))"

definition clock_reset :: "fixed_clock \<Rightarrow> fixed_clock" where
  "clock_reset c = c\<lparr>fc_accumulator := 0\<rparr>"

fun clock_run :: "nat list \<Rightarrow> fixed_clock \<Rightarrow> (nat list \<times> fixed_clock) option" where
  "clock_run [] c = Some ([], c)"
| "clock_run (dt # dts) c =
     Option.bind (clock_tick dt c) (\<lambda>(n, c'). map_option (\<lambda>(ns, c''). (n # ns, c'')) (clock_run dts c'))"

text \<open>\<open>n\<close> successful single steps, and then none.\<close>

fun clock_steps :: "nat \<Rightarrow> fixed_clock \<Rightarrow> fixed_clock option" where
  "clock_steps 0 c = (if fst (clock_step c) then None else Some c)"
| "clock_steps (Suc n) c = (if fst (clock_step c) then clock_steps n (snd (clock_step c)) else None)"

lemma clock_tick_law:
  assumes "0 < fc_step c" and "fc_step c \<le> 2 ^ 64" and "fc_accumulator c + dt < fc_step c * 2 ^ 64"
    and "fc_accumulator c + dt < duration_bound"
  shows "\<exists>n c'. clock_tick dt c = Some (n, c') \<and> fc_step c' = fc_step c \<and> fc_accumulator c' < fc_step c \<and>
    n * fc_step c + fc_accumulator c' = fc_accumulator c + dt"
proof -
  let ?t = "fc_accumulator c + dt"
  have "?t div fc_step c < 2 ^ 64" using assms(1,3) by (simp add: div_less_iff_less_mult mult.commute)
  then have n: "saturated64 (?t div fc_step c) = ?t div fc_step c" by (rule saturated64_id)
  have "?t mod fc_step c < fc_step c" using assms(1) by simp
  then have r: "saturated64 (?t mod fc_step c) = ?t mod fc_step c" using assms(2) by (intro saturated64_id) simp
  have z: "?t div fc_step c = 0 \<Longrightarrow> ?t < fc_step c" using assms(1) by (simp add: div_eq_0_iff)
  show ?thesis
    using assms(1,4) z by (cases "?t div fc_step c = 0") (simp_all add: clock_tick_def clock_advance_def n r saturated64_id)
qed

lemma clock_run_law:
  assumes "0 < fc_step c" and "fc_step c \<le> 2 ^ 64" and "fc_accumulator c < fc_step c"
    and "\<And>dt. dt \<in> set dts \<Longrightarrow> fc_step c + dt < duration_bound \<and> dt < fc_step c * (2 ^ 64 - 1)"
  shows "\<exists>ns c'. clock_run dts c = Some (ns, c') \<and> fc_accumulator c' < fc_step c \<and>
    sum_list ns * fc_step c + fc_accumulator c' = fc_accumulator c + sum_list dts"
  using assms
proof (induction dts arbitrary: c)
  case (Cons dt dts)
  have "fc_step c + dt < duration_bound" and d: "dt < fc_step c * (2 ^ 64 - 1)" using Cons.prems(4) [of dt] by simp_all
  moreover have "fc_accumulator c + dt < fc_step c * 2 ^ 64" using d Cons.prems(3) by (simp add: algebra_simps)
  ultimately obtain n c' where c': "clock_tick dt c = Some (n, c')" "fc_step c' = fc_step c" "fc_accumulator c' < fc_step c"
      "n * fc_step c + fc_accumulator c' = fc_accumulator c + dt"
    using clock_tick_law [OF Cons.prems(1,2), of dt] Cons.prems(3) by auto
  obtain ns c'' where "clock_run dts c' = Some (ns, c'')" "fc_accumulator c'' < fc_step c"
      "sum_list ns * fc_step c + fc_accumulator c'' = fc_accumulator c' + sum_list dts"
    using Cons.IH [of c'] Cons.prems c'(2,3) by auto
  then show ?case using c'(1,4) by (simp add: algebra_simps)
qed simp

lemma clock_steps_law:
  assumes "0 < fc_step c" and "fc_step c < 2 ^ 64"
  shows "clock_steps (fc_accumulator c div fc_step c) c = Some (c\<lparr>fc_accumulator := fc_accumulator c mod fc_step c\<rparr>)"
  using assms
proof (induction "fc_accumulator c div fc_step c" arbitrary: c)
  case 0
  then have "fc_accumulator c < fc_step c" by (metis div_greater_zero_iff leI less_irrefl)
  then show ?case using 0 by (simp add: clock_step_def Let_def)
next
  case (Suc n)
  let ?c = "c\<lparr>fc_accumulator := fc_accumulator c - fc_step c\<rparr>"
  have le: "fc_step c \<le> fc_accumulator c" using Suc.hyps(2) by (metis Suc.prems(1) div_less leI nat.distinct(1))
  have "n = fc_accumulator ?c div fc_step ?c" using Suc.hyps(2) Suc.prems(1) le by (simp add: le_div_geq)
  then have "clock_steps n ?c = Some (?c\<lparr>fc_accumulator := fc_accumulator ?c mod fc_step ?c\<rparr>)"
    using Suc.hyps(1) [of ?c] Suc.prems by simp
  then show ?case using le Suc.prems by (simp add: Suc.hyps(2) [symmetric] clock_step_def Let_def le_mod_geq)
qed

text \<open>Charging the clock and taking single steps is one tick of it.\<close>

lemma clock_tick_steps:
  assumes "0 < fc_step c" and "fc_step c < 2 ^ 64" and "fc_accumulator c + dt < fc_step c * 2 ^ 64"
    and "clock_tick dt c = Some (n, c')"
  shows "Option.bind (clock_advance dt c) (clock_steps n) = Some c'"
proof -
  let ?d = "c\<lparr>fc_accumulator := fc_accumulator c + dt\<rparr>"
  obtain d where d: "clock_advance dt c = Some d" "fc_step d = fc_step c" "fc_accumulator d = fc_accumulator c + dt"
    and n: "n = saturated64 (fc_accumulator d div fc_step c)"
    and c': "c' = (if 0 < fc_accumulator d div fc_step c
      then d\<lparr>fc_accumulator := saturated64 (fc_accumulator d mod fc_step c)\<rparr> else d)"
    using assms(1,4) that [of ?d] by (auto simp: clock_tick_def clock_advance_def Let_def split: if_splits)
  have "fc_accumulator d div fc_step c < 2 ^ 64" using assms(1,3) d(3) by (simp add: div_less_iff_less_mult mult.commute)
  then have n': "n = fc_accumulator d div fc_step d" using n d(2) by (simp add: saturated64_id)
  have "fc_accumulator d mod fc_step c < 2 ^ 64" using assms(1,2) by (meson less_trans mod_less_divisor)
  then have "c' = d\<lparr>fc_accumulator := fc_accumulator d mod fc_step d\<rparr>"
    using c' d(2) assms(1) by (auto simp: div_eq_0_iff saturated64_id)
  then show ?thesis using clock_steps_law [of d] assms(1,2) d n' by simp
qed

lemma clock_tick_zero: "fc_step c = 0 \<Longrightarrow> clock_tick dt c = None"
  by (cases "clock_advance dt c") (simp_all add: clock_tick_def)

section \<open>Messages\<close>

text \<open>The reserved capacity is not observable and left out.\<close>

record 'm inbox =
  ib_buffer :: "'m list"
  ib_head :: nat

definition inbox_new :: "'m inbox" where
  "inbox_new = \<lparr>ib_buffer = [], ib_head = 0\<rparr>"

definition inbox_write :: "'m \<Rightarrow> 'm inbox \<Rightarrow> 'm inbox" where
  "inbox_write m b = b\<lparr>ib_buffer := ib_buffer b @ [m]\<rparr>"

definition inbox_read :: "'m inbox \<Rightarrow> 'm list" where
  "inbox_read b = drop (ib_head b) (ib_buffer b)"

definition inbox_clear :: "'m inbox \<Rightarrow> nat \<times> 'm inbox" where
  "inbox_clear b = (length (ib_buffer b), b\<lparr>ib_buffer := [], ib_head := 0\<rparr>)"

definition inbox_len :: "'m inbox \<Rightarrow> nat" where
  "inbox_len b = length (ib_buffer b) - ib_head b"

definition inbox_is_empty :: "'m inbox \<Rightarrow> bool" where
  "inbox_is_empty b \<longleftrightarrow> inbox_len b = 0"

lemma inbox_reads: "inbox_read (fold inbox_write ms inbox_new) = ms"
proof -
  have "ib_head b = 0 \<Longrightarrow> inbox_read (fold inbox_write ms b) = ib_buffer b @ ms" for b :: "'a inbox"
    by (induction ms arbitrary: b) (simp_all add: inbox_write_def inbox_read_def)
  then show ?thesis by (simp add: inbox_new_def)
qed

lemma inbox_len_read: "inbox_len b = length (inbox_read b)"
  by (simp add: inbox_len_def inbox_read_def)

section \<open>The schedule\<close>

text \<open>The resources of the world that the schedule itself touches, beside the rest \<open>'x\<close>.\<close>

record ('v, 'x) ecs_state =
  es_world :: "'v world"
  es_buffer :: "'v command_buffer option"
  es_rest :: 'x

record 's ecs_system =
  sy_name :: string
  sy_exclusive :: bool
  sy_body :: "'s \<Rightarrow> 's option"

record 's schedule =
  sd_systems :: "'s ecs_system list"
  sd_order :: "nat list"
  sd_groups :: "nat list list"
  sd_deps :: "(string \<times> string) list"
  sd_hooks :: "('s \<Rightarrow> 's) list"
  sd_parallel :: bool
  sd_dirty :: bool
  sd_clock :: fixed_clock

definition schedule_new :: "nat \<Rightarrow> 's schedule" where
  "schedule_new step20 = \<lparr>sd_systems = [], sd_order = [], sd_groups = [], sd_deps = [], sd_hooks = [],
     sd_parallel = False, sd_dirty = False, sd_clock = clock_new step20\<rparr>"

definition add_message :: "('s \<Rightarrow> 's) \<Rightarrow> 's schedule \<Rightarrow> 's schedule" where
  "add_message hook sd = sd\<lparr>sd_hooks := sd_hooks sd @ [hook]\<rparr>"

definition add_system :: "'s ecs_system \<Rightarrow> 's schedule \<Rightarrow> 's schedule" where
  "add_system sy sd = sd\<lparr>sd_systems := sd_systems sd @ [sy], sd_dirty := True\<rparr>"

definition after :: "string \<Rightarrow> string \<Rightarrow> 's schedule \<Rightarrow> 's schedule" where
  "after later earlier sd = sd\<lparr>sd_deps := sd_deps sd @ [(later, earlier)], sd_dirty := True\<rparr>"

definition set_parallel :: "bool \<Rightarrow> 's schedule \<Rightarrow> 's schedule" where
  "set_parallel b sd = sd\<lparr>sd_parallel := b\<rparr>"

definition set_fixed_step :: "nat \<Rightarrow> 's schedule \<Rightarrow> 's schedule" where
  "set_fixed_step step sd = sd\<lparr>sd_clock := clock_new step\<rparr>"

definition schedule_groups :: "'s schedule \<Rightarrow> nat list list" where
  "schedule_groups sd = topo_groups (map sy_name (sd_systems sd)) (sd_deps sd)"

definition recompute_order :: "'s schedule \<Rightarrow> 's schedule" where
  "recompute_order sd = sd\<lparr>sd_order := concat (schedule_groups sd), sd_groups := schedule_groups sd, sd_dirty := False\<rparr>"

definition visible_systems :: "'s schedule \<Rightarrow> (string \<times> bool) list" where
  "visible_systems sd =
     map (\<lambda>i. (sy_name (sd_systems sd ! i), sy_exclusive (sd_systems sd ! i)))
       (if sd_dirty sd then concat (schedule_groups sd) else sd_order sd)"

definition parallel_groups :: "'s schedule \<Rightarrow> string list list" where
  "parallel_groups sd =
     map (map (\<lambda>i. sy_name (sd_systems sd ! i))) (if sd_dirty sd then schedule_groups sd else sd_groups sd)"

definition apply_deferred ::
  "'v component_registry \<Rightarrow> ('v, 'x) ecs_state \<Rightarrow> ('v, 'x) ecs_state option" where
  "apply_deferred rg s =
     (case es_buffer s of
        None \<Rightarrow> Some s
      | Some b \<Rightarrow> map_option (\<lambda>(b', w'). s\<lparr>es_world := w', es_buffer := Some b'\<rparr>) (buffer_apply rg b (es_world s)))"

text \<open>Systems in a row, each followed by the deferred commands.\<close>

fun run_systems :: "('s \<Rightarrow> 's option) \<Rightarrow> 's ecs_system list \<Rightarrow> nat list \<Rightarrow> 's \<Rightarrow> 's option" where
  "run_systems flush sys [] s = Some s"
| "run_systems flush sys (i # is) s =
     Option.bind (sy_body (sys ! i) s) (\<lambda>s'. Option.bind (flush s') (run_systems flush sys is))"

fun run_groups :: "('s \<Rightarrow> 's option) \<Rightarrow> 's ecs_system list \<Rightarrow> nat list list \<Rightarrow> 's \<Rightarrow> 's option" where
  "run_groups flush sys [] s = Some s"
| "run_groups flush sys (g # gs) s = Option.bind (run_systems flush sys g s) (run_groups flush sys gs)"

definition schedule_run ::
  "'v component_registry \<Rightarrow> ('v, 'x) ecs_state schedule \<Rightarrow> ('v, 'x) ecs_state
    \<Rightarrow> (('v, 'x) ecs_state schedule \<times> ('v, 'x) ecs_state) option" where
  "schedule_run rg sd s =
     (let sd' = (if sd_dirty sd then recompute_order sd else sd);
          flush = apply_deferred rg
      in Option.bind (flush s) (\<lambda>s1.
         Option.bind
           (if sd_parallel sd' then run_groups flush (sd_systems sd') (sd_groups sd') s1
            else run_systems flush (sd_systems sd') (sd_order sd') s1)
           (\<lambda>s2. Some (sd', fold (\<lambda>hook. hook) (sd_hooks sd') s2))))"

definition schedule_ok :: "'s schedule \<Rightarrow> bool" where
  "schedule_ok sd \<longleftrightarrow> sd_dirty sd \<or> (sd_groups sd = schedule_groups sd \<and> sd_order sd = concat (schedule_groups sd))"

lemma schedule_ok_simps [simp]:
  "schedule_ok (schedule_new step)" "schedule_ok (add_system sy sd)" "schedule_ok (after l e sd)"
  "schedule_ok (add_message h sd) = schedule_ok sd" "schedule_ok (set_parallel b sd) = schedule_ok sd"
  "schedule_ok (set_fixed_step n sd) = schedule_ok sd" "schedule_ok (recompute_order sd)"
  by (simp_all add: schedule_ok_def schedule_new_def add_system_def after_def add_message_def set_parallel_def
      set_fixed_step_def recompute_order_def schedule_groups_def topo_groups_def dep_edges_def Let_def
      List.map_filter_def topo_layers.simps)

lemma run_groups_concat: "run_groups flush sys gs s = run_systems flush sys (concat gs) s"
proof (induction gs arbitrary: s)
  case (Cons g gs)
  have "run_systems flush sys (xs @ ys) s = Option.bind (run_systems flush sys xs s) (run_systems flush sys ys)" for xs ys s
    by (induction xs arbitrary: s) (auto intro!: bind_option_cong)
  then show ?case by (auto simp: Cons.IH intro!: bind_option_cong)
qed simp

text \<open>The outcome of a tick, whatever the flag for parallel groups.\<close>

lemma schedule_run_order:
  assumes "schedule_ok sd"
  shows "map_option snd (schedule_run rg sd s) =
    Option.bind (apply_deferred rg s) (\<lambda>s1.
      map_option (fold (\<lambda>hook. hook) (sd_hooks sd))
        (run_systems (apply_deferred rg) (sd_systems sd) (concat (schedule_groups sd)) s1))"
proof -
  let ?sd = "if sd_dirty sd then recompute_order sd else sd"
  have sd: "sd_systems ?sd = sd_systems sd" "sd_hooks ?sd = sd_hooks sd" "sd_groups ?sd = schedule_groups sd"
    "sd_order ?sd = concat (schedule_groups sd)"
    using assms by (auto simp: recompute_order_def schedule_ok_def)
  show ?thesis
    unfolding schedule_run_def Let_def sd run_groups_concat if_cancel
    by (cases "apply_deferred rg s") (auto simp: map_option_bind o_def map_conv_bind_option)
qed

lemma parallel_same_tick:
  "schedule_ok sd \<Longrightarrow> map_option snd (schedule_run rg (set_parallel b sd) s) = map_option snd (schedule_run rg sd s)"
  using schedule_run_order [of sd rg s] schedule_run_order [of "set_parallel b sd" rg s]
  by (simp add: set_parallel_def schedule_groups_def schedule_ok_def)

lemma schedule_run_ok: "schedule_ok sd \<Longrightarrow> schedule_run rg sd s = Some (sd', s') \<Longrightarrow> schedule_ok sd' \<and> \<not> sd_dirty sd'"
  by (auto simp: schedule_run_def Let_def recompute_order_def schedule_ok_def schedule_groups_def
      split: bind_splits if_splits)

end
