(* ===== verification/World_Scheduler.thy ===== *)
theory World_Scheduler
  imports Ecs_Schedule
begin

text \<open>
  The scheduler of all worlds (\<open>ecs/scheduler.rs\<close>, with the command queue of \<open>ecs/queue.rs\<close>): worlds with
  their schedules and their queues of external commands, the distribution over the worker threads and a tick
  of all of them. The queue is the bounded list that \<open>Mpmc_Queue\<close> shows the lock-free one to be. A worker
  holds the lock of the table of worlds during the tick of a world, so a tick of all worlds is some
  interleaving of the chunks. The main result: the outcome does not depend on the interleaving, and every
  world ticks exactly once.
\<close>

section \<open>State\<close>

type_synonym instance_id = u32

datatype thread_mode = BoundToWorld | SharedPool

datatype submit_error = QueueFull

datatype scheduler_error = WorldAlreadyRegistered instance_id

record 's command_queue =
  cq_capacity :: nat
  cq_commands :: "('s \<Rightarrow> 's) list"

record 's world_entry =
  en_world :: 's
  en_schedule :: "'s schedule"
  en_queue :: "'s command_queue"

record 's instance_scheduler =
  is_mode :: thread_mode
  is_workers :: nat
  is_worlds :: "instance_id \<rightharpoonup> 's world_entry"
  is_next_id :: instance_id

definition queue_with_capacity :: "nat \<Rightarrow> 's command_queue" where
  "queue_with_capacity n = \<lparr>cq_capacity = slots_for n, cq_commands = []\<rparr>"

definition queue_push :: "('s \<Rightarrow> 's) \<Rightarrow> 's command_queue \<Rightarrow> 's command_queue option" where
  "queue_push cmd q =
     (if length (cq_commands q) < cq_capacity q then Some (q\<lparr>cq_commands := cq_commands q @ [cmd]\<rparr>) else None)"

definition queue_drain :: "'s command_queue \<Rightarrow> 's \<Rightarrow> nat \<times> 's command_queue \<times> 's" where
  "queue_drain q s = (length (cq_commands q), q\<lparr>cq_commands := []\<rparr>, fold (\<lambda>cmd. cmd) (cq_commands q) s)"

definition scheduler_with :: "thread_mode \<Rightarrow> nat \<Rightarrow> 's instance_scheduler" where
  "scheduler_with mode workers = \<lparr>is_mode = mode, is_workers = workers, is_worlds = Map.empty, is_next_id = 0\<rparr>"

section \<open>Worlds\<close>

definition register_world ::
  "instance_id \<Rightarrow> 's \<Rightarrow> 's schedule \<Rightarrow> 's instance_scheduler \<Rightarrow> scheduler_error + 's instance_scheduler" where
  "register_world i s sd sched =
     (if is_worlds sched i \<noteq> None then Inl (WorldAlreadyRegistered i)
      else Inr (sched\<lparr>is_worlds := (is_worlds sched)(i \<mapsto>
             \<lparr>en_world = s, en_schedule = sd, en_queue = queue_with_capacity 1024\<rparr>)\<rparr>))"

text \<open>\<open>None\<close> is the panic at an id that is taken.\<close>

definition register_new_world ::
  "'s \<Rightarrow> 's schedule \<Rightarrow> 's instance_scheduler \<Rightarrow> (instance_id \<times> 's instance_scheduler) option" where
  "register_new_world s sd sched =
     (let i = is_next_id sched;
          sched' = sched\<lparr>is_next_id := (if i = - 1 then - 1 else i + 1)\<rparr>
      in case register_world i s sd sched' of Inl _ \<Rightarrow> None | Inr sched'' \<Rightarrow> Some (i, sched''))"

definition unregister_world :: "instance_id \<Rightarrow> 's instance_scheduler \<Rightarrow> ('s \<times> 's schedule) option \<times> 's instance_scheduler" where
  "unregister_world i sched =
     (map_option (\<lambda>e. (en_world e, en_schedule e)) (is_worlds sched i), sched\<lparr>is_worlds := (is_worlds sched)(i := None)\<rparr>)"

definition with_world :: "instance_id \<Rightarrow> ('s \<Rightarrow> 'r \<times> 's) \<Rightarrow> 's instance_scheduler \<Rightarrow> 'r option \<times> 's instance_scheduler" where
  "with_world i f sched =
     (case is_worlds sched i of
        None \<Rightarrow> (None, sched)
      | Some e \<Rightarrow> (Some (fst (f (en_world e))),
                 sched\<lparr>is_worlds := (is_worlds sched)(i \<mapsto> e\<lparr>en_world := snd (f (en_world e))\<rparr>)\<rparr>))"

definition submit :: "instance_id \<Rightarrow> ('s \<Rightarrow> 's) \<Rightarrow> 's instance_scheduler \<Rightarrow> submit_error + 's instance_scheduler" where
  "submit i cmd sched =
     (case is_worlds sched i of
        None \<Rightarrow> Inl QueueFull
      | Some e \<Rightarrow>
          (case queue_push cmd (en_queue e) of
             None \<Rightarrow> Inl QueueFull
           | Some q \<Rightarrow> Inr (sched\<lparr>is_worlds := (is_worlds sched)(i \<mapsto> e\<lparr>en_queue := q\<rparr>)\<rparr>)))"

definition scheduler_shutdown :: "'s instance_scheduler \<Rightarrow> 's instance_scheduler" where
  "scheduler_shutdown sched = sched\<lparr>is_worlds := Map.empty\<rparr>"

section \<open>A tick of all worlds\<close>

definition tick_entry ::
  "'v component_registry \<Rightarrow> ('v, 'x) ecs_state world_entry \<Rightarrow> ('v, 'x) ecs_state world_entry option" where
  "tick_entry rg e =
     (case queue_drain (en_queue e) (en_world e) of
        (n, q, s) \<Rightarrow>
          map_option (\<lambda>(sd, s'). e\<lparr>en_world := s', en_schedule := sd, en_queue := q\<rparr>)
            (schedule_run rg (en_schedule e) s))"

definition distribute :: "instance_id list \<Rightarrow> nat \<Rightarrow> thread_mode \<Rightarrow> instance_id list list" where
  "distribute ids n mode =
     (case mode of
        SharedPool \<Rightarrow> fold (\<lambda>(i, x) cs. cs[i mod n := cs ! (i mod n) @ [x]]) (enumerate 0 ids) (replicate n [])
      | BoundToWorld \<Rightarrow> fold (\<lambda>x cs. cs[unat x mod n := cs ! (unat x mod n) @ [x]]) ids (replicate n []))"

text \<open>The worlds that tick one after the other under the lock, in some order.\<close>

fun tick_worlds ::
  "'v component_registry \<Rightarrow> instance_id list \<Rightarrow> (instance_id \<rightharpoonup> ('v, 'x) ecs_state world_entry)
    \<Rightarrow> (instance_id \<rightharpoonup> ('v, 'x) ecs_state world_entry) option" where
  "tick_worlds rg [] ws = Some ws"
| "tick_worlds rg (i # is) ws =
     (case ws i of
        None \<Rightarrow> tick_worlds rg is ws
      | Some e \<Rightarrow> Option.bind (tick_entry rg e) (\<lambda>e'. tick_worlds rg is (ws(i \<mapsto> e'))))"

text \<open>An interleaving of the chunks of the threads.\<close>

inductive interleaves :: "'a list list \<Rightarrow> 'a list \<Rightarrow> bool" where
  finished: "(\<And>c. c \<in> set cs \<Longrightarrow> c = []) \<Longrightarrow> interleaves cs []"
| next_of: "k < length cs \<Longrightarrow> cs ! k = x # c \<Longrightarrow> interleaves (cs[k := c]) xs \<Longrightarrow> interleaves cs (x # xs)"

text \<open>The statistics of the worlds, by their ids.\<close>

definition tick_stats :: "(instance_id \<rightharpoonup> ('v, 'x) ecs_state world_entry) \<Rightarrow> (instance_id \<times> nat) list" where
  "tick_stats ws = map (\<lambda>i. (i, entity_count (es_world (en_world (the (ws i)))))) (sorted_list_of_set (dom ws))"

text \<open>The keys of a hash map come in some order, and the threads interleave in some way.\<close>

inductive tick_all ::
  "'v component_registry \<Rightarrow> ('v, 'x) ecs_state instance_scheduler
    \<Rightarrow> (instance_id \<times> nat) list \<times> ('v, 'x) ecs_state instance_scheduler \<Rightarrow> bool" where
  "distinct ids \<Longrightarrow> set ids = dom (is_worlds sched) \<Longrightarrow>
   interleaves (distribute ids (max 1 (is_workers sched)) (is_mode sched)) order \<Longrightarrow>
   tick_worlds rg order (is_worlds sched) = Some ws \<Longrightarrow>
   tick_all rg sched (tick_stats ws, sched\<lparr>is_worlds := ws\<rparr>)"

section \<open>Every world ticks once\<close>

lemma mset_update_append: "k < length cs \<Longrightarrow> mset (concat (cs[k := cs ! k @ [x]])) = add_mset x (mset (concat cs))"
  by (induction cs arbitrary: k) (auto split: nat.split)

lemma distribute_permutation: "0 < n \<Longrightarrow> mset (concat (distribute ids n mode)) = mset ids"
proof -
  assume n: "0 < n"
  have len: "length (fold (\<lambda>(i, x) cs. cs[i mod n := cs ! (i mod n) @ [x]]) ps cs) = length cs" for ps :: "(nat \<times> instance_id) list" and cs
    by (induction ps arbitrary: cs) auto
  have 1: "length cs = n \<Longrightarrow> mset (concat (fold (\<lambda>(i, x) cs. cs[i mod n := cs ! (i mod n) @ [x]]) ps cs))
      = mset (concat cs) + mset (map snd ps)" for ps :: "(nat \<times> instance_id) list" and cs
    using n by (induction ps arbitrary: cs) (auto simp: mset_update_append simp del: mset_concat)
  have 2: "length cs = n \<Longrightarrow> mset (concat (fold (\<lambda>x cs. cs[unat x mod n := cs ! (unat x mod n) @ [x]]) xs cs))
      = mset (concat cs) + mset xs" for xs :: "instance_id list" and cs
    using n by (induction xs arbitrary: cs) (auto simp: mset_update_append simp del: mset_concat)
  have z: "concat (replicate m []) = ([] :: instance_id list)" for m by simp
  show ?thesis
    using 1 [of "replicate n []" "enumerate 0 ids"] 2 [of "replicate n []" ids]
    by (cases mode) (simp_all add: distribute_def z del: mset_concat)
qed

lemma interleaves_mset: "interleaves cs xs \<Longrightarrow> mset xs = mset (concat cs)"
proof (induction rule: interleaves.induct)
  case (finished cs)
  then have "concat cs = []" by auto
  then show ?case by simp
next
  case (next_of k cs x c xs)
  have "mset (concat cs) = add_mset x (mset (concat (cs[k := c])))"
    using next_of(1,2) by (induction cs arbitrary: k) (auto split: nat.split simp: less_Suc_eq_0_disj)
  then show ?case using next_of.IH by simp
qed

text \<open>A world stays on its thread.\<close>

lemma bound_chunk:
  assumes "0 < n" and "k < n" and "x \<in> set (distribute ids n BoundToWorld ! k)"
  shows "unat x mod n = k"
proof -
  let ?f = "\<lambda>x cs. cs[unat x mod n := cs ! (unat x mod n) @ [x]]"
  have step: "\<forall>y \<in> set (?f x cs ! k). unat y mod n = k"
    if "length cs = n" "\<forall>y \<in> set (cs ! k). unat y mod n = k" for x :: instance_id and cs
    using that assms(2) by (cases "unat x mod n = k") (simp_all add: nth_list_update)
  have "\<forall>y \<in> set (fold ?f xs cs ! k). unat y mod n = k"
    if "length cs = n" "\<forall>y \<in> set (cs ! k). unat y mod n = k" for xs :: "instance_id list" and cs
    using that
  proof (induction xs arbitrary: cs)
    case (Cons y ys)
    have "length (?f y cs) = n" using Cons.prems(1) by simp
    then show ?case unfolding fold_simps by (rule Cons.IH) (rule step [OF Cons.prems])
  qed simp
  note all = this
  have "\<forall>y \<in> set (fold ?f ids (replicate n []) ! k). unat y mod n = k" by (rule all) (use assms(2) in simp_all)
  moreover have "distribute ids n BoundToWorld = fold ?f ids (replicate n [])" by (simp add: distribute_def)
  ultimately show ?thesis using assms(3) by metis
qed

definition ticked_once ::
  "'v component_registry \<Rightarrow> instance_id set \<Rightarrow> (instance_id \<rightharpoonup> ('v, 'x) ecs_state world_entry)
    \<Rightarrow> (instance_id \<rightharpoonup> ('v, 'x) ecs_state world_entry)" where
  "ticked_once rg A ws = (\<lambda>i. if i \<in> A then Option.bind (ws i) (tick_entry rg) else ws i)"

lemma tick_worlds_once:
  assumes "distinct is" and "\<And>i e. i \<in> set is \<Longrightarrow> ws i = Some e \<Longrightarrow> tick_entry rg e \<noteq> None"
  shows "tick_worlds rg is ws = Some (ticked_once rg (set is) ws)"
  using assms
proof (induction "is" arbitrary: ws)
  case (Cons i "is")
  show ?case
  proof (cases "ws i")
    case None
    then have "ticked_once rg (set is) ws = ticked_once rg (set (i # is)) ws" by (auto simp: ticked_once_def)
    moreover have "tick_worlds rg is ws = Some (ticked_once rg (set is) ws)"
      using Cons.prems by (intro Cons.IH) auto
    ultimately show ?thesis using None by simp
  next
    case (Some e)
    then obtain e' where e': "tick_entry rg e = Some e'" using Cons.prems(2) [of i e] by auto
    have ne: "i \<notin> set is" using Cons.prems(1) by simp
    have "tick_worlds rg is (ws(i \<mapsto> e')) = Some (ticked_once rg (set is) (ws(i \<mapsto> e')))"
      using Cons.prems ne by (intro Cons.IH) (auto split: if_splits)
    moreover have "ticked_once rg (set is) (ws(i \<mapsto> e')) = ticked_once rg (set (i # is)) ws"
      using ne Some e' by (auto simp: ticked_once_def)
    ultimately show ?thesis using Some e' by simp
  qed
qed (simp add: ticked_once_def)

lemma interleaves_concat: "interleaves cs (concat cs)"
proof (induction "length (concat cs)" arbitrary: cs)
  case 0
  then have "concat cs = []" "\<And>c. c \<in> set cs \<Longrightarrow> c = []" by simp_all
  then show ?case using interleaves.finished [of cs] by metis
next
  case (Suc n)
  obtain k where k: "k < length cs" "cs ! k \<noteq> []" and first: "\<And>j. j < k \<Longrightarrow> cs ! j = []"
  proof -
    have "\<exists>k. k < length cs \<and> cs ! k \<noteq> []"
    proof (rule ccontr)
      assume "\<nexists>k. k < length cs \<and> cs ! k \<noteq> []"
      then have "\<forall>xs \<in> set cs. xs = []" by (auto simp: in_set_conv_nth)
      then have "concat cs = []" by simp
      then have "length (concat cs) = 0" by (simp only: list.size)
      then show False using Suc.hyps(2) by (simp only: nat.distinct)
    qed
    then show thesis
      using that [of "LEAST k. k < length cs \<and> cs ! k \<noteq> []"] LeastI_ex [of "\<lambda>k. k < length cs \<and> cs ! k \<noteq> []"]
        not_less_Least [of _ "\<lambda>k. k < length cs \<and> cs ! k \<noteq> []"] less_trans by (metis (no_types, lifting))
  qed
  obtain x c where x: "cs ! k = x # c" using k(2) by (cases "cs ! k") auto
  have "concat (take k cs) = []" using first by (auto simp: in_set_conv_nth)
  moreover have "cs = take k cs @ (x # c) # drop (Suc k) cs" using k(1) x by (metis id_take_nth_drop)
  ultimately have cs: "concat cs = x # c @ concat (drop (Suc k) cs)" by (metis append_Nil concat.simps(2) concat_append append_Cons)
  have "concat (cs[k := c]) = c @ concat (drop (Suc k) cs)"
    using k(1) \<open>concat (take k cs) = []\<close> by (simp add: upd_conv_take_nth_drop)
  then show ?case using Suc.hyps(1) [of "cs[k := c]"] Suc.hyps(2) cs interleaves.next_of [OF k(1) x] by simp
qed

lemma tick_all_once:
  assumes "\<And>i e. is_worlds sched i = Some e \<Longrightarrow> tick_entry rg e \<noteq> None"
  shows "tick_all rg sched r \<longleftrightarrow>
    (let ws = (\<lambda>i. Option.bind (is_worlds sched i) (tick_entry rg)) in r = (tick_stats ws, sched\<lparr>is_worlds := ws\<rparr>))"
proof -
  let ?ws = "\<lambda>i. Option.bind (is_worlds sched i) (tick_entry rg)"
  have n: "0 < max 1 (is_workers sched)" by simp
  have run: "tick_worlds rg order (is_worlds sched) = Some ?ws"
    if "distinct ids" "set ids = dom (is_worlds sched)"
      "interleaves (distribute ids (max 1 (is_workers sched)) (is_mode sched)) order" for ids order
  proof -
    have m: "mset order = mset ids" using interleaves_mset [OF that(3)] distribute_permutation [OF n] by simp
    then have "distinct order" "set order = dom (is_worlds sched)"
      using that(1,2) mset_eq_imp_distinct_iff mset_eq_setD by blast+
    then have "tick_worlds rg order (is_worlds sched) = Some (ticked_once rg (dom (is_worlds sched)) (is_worlds sched))"
      using tick_worlds_once [of order "is_worlds sched" rg] assms by simp
    moreover have "ticked_once rg (dom (is_worlds sched)) (is_worlds sched) = ?ws"
      by (auto simp: ticked_once_def dom_def fun_eq_iff)
    ultimately show ?thesis by simp
  qed
  have "finite (dom (is_worlds sched))" by simp
  then obtain ids where ids: "set ids = dom (is_worlds sched)" "distinct ids" using finite_distinct_list by metis
  have "tick_all rg sched (tick_stats ?ws, sched\<lparr>is_worlds := ?ws\<rparr>)"
    by (rule tick_all.intros [OF ids(2,1) interleaves_concat run [OF ids(2,1) interleaves_concat]])
  note here = this
  have "r = (tick_stats ?ws, sched\<lparr>is_worlds := ?ws\<rparr>)" if "tick_all rg sched r"
    using that by (cases rule: tick_all.cases) (use run in simp)
  then show ?thesis using here unfolding Let_def by blast
qed

text \<open>Ids given out by hand collide with the counter.\<close>

lemma register_collides:
  assumes "register_world (is_next_id sched) s sd sched = Inr sched'"
  shows "register_new_world s' sd' sched' = None"
  using assms by (auto simp: register_world_def register_new_world_def Let_def split: if_splits)

lemma submit_runs:
  assumes "submit i cmd sched = Inr sched'" and "is_worlds sched i = Some e"
  shows "\<exists>e'. is_worlds sched' i = Some e' \<and>
    queue_drain (en_queue e') s = (Suc (fst (queue_drain (en_queue e) s)), (en_queue e)\<lparr>cq_commands := []\<rparr>,
      cmd (snd (snd (queue_drain (en_queue e) s))))"
  using assms by (auto simp: submit_def queue_push_def queue_drain_def split: if_splits)

end
