(* ===== verification/Task_Scheduler.thy ===== *)
theory Task_Scheduler
  imports Prelude "HOL-Library.Product_Lexorder"
begin

text \<open>
  The scheduler of delayed and periodic tasks (\<open>resource/scheduler_manager.rs\<close>). A binary heap of the
  standard library is the sorted list of its elements: \<open>peek\<close> is the head, \<open>push\<close> the sorted insertion. A
  closure is its name; running it appends the tick it was due at, its id and its name to a log. The loop of a
  drain may not end, so it is a partial function, and \<open>None\<close> is not returning.
\<close>

section \<open>State\<close>

datatype execution_type = Tick_Start | Tick_End

record 'f task_entry =
  te_repeat :: bool
  te_period :: u64
  te_type :: execution_type
  te_f :: 'f

type_synonym task_heap = "(u64 \<times> u64) list"

record 'f task_scheduler =
  sc_queue :: task_heap
  sc_end_queue :: task_heap
  sc_tasks :: "u64 \<rightharpoonup> 'f task_entry"
  sc_next_id :: u64
  sc_current :: u64

definition scheduler_new :: "'f task_scheduler" where
  "scheduler_new = \<lparr>sc_queue = [], sc_end_queue = [], sc_tasks = Map.empty, sc_next_id = 0, sc_current = 0\<rparr>"

definition saturating_add64 :: "u64 \<Rightarrow> u64 \<Rightarrow> u64" where
  "saturating_add64 a b = (if unat a + unat b < 2 ^ 64 then a + b else - 1)"

definition heap_of :: "execution_type \<Rightarrow> 'f task_scheduler \<Rightarrow> task_heap" where
  "heap_of ty s = (case ty of Tick_Start \<Rightarrow> sc_queue s | Tick_End \<Rightarrow> sc_end_queue s)"

definition set_heap :: "execution_type \<Rightarrow> task_heap \<Rightarrow> 'f task_scheduler \<Rightarrow> 'f task_scheduler" where
  "set_heap ty h s = (case ty of Tick_Start \<Rightarrow> s\<lparr>sc_queue := h\<rparr> | Tick_End \<Rightarrow> s\<lparr>sc_end_queue := h\<rparr>)"

section \<open>Registering and cancelling\<close>

definition insert_task ::
  "u64 \<Rightarrow> bool \<Rightarrow> u64 \<Rightarrow> execution_type \<Rightarrow> 'f \<Rightarrow> 'f task_scheduler \<Rightarrow> u64 \<times> 'f task_scheduler" where
  "insert_task due rep period ty f s =
     (let i = sc_next_id s;
          s' = set_heap ty (insort (due, i) (heap_of ty s)) (s\<lparr>sc_next_id := i + 1\<rparr>)
      in (i, s'\<lparr>sc_tasks := (sc_tasks s')(i \<mapsto> \<lparr>te_repeat = rep, te_period = period, te_type = ty, te_f = f\<rparr>)\<rparr>))"

definition schedule_after :: "u64 \<Rightarrow> 'f \<Rightarrow> 'f task_scheduler \<Rightarrow> u64 \<times> 'f task_scheduler" where
  "schedule_after delay f s = insert_task (saturating_add64 (sc_current s) delay) False 0 Tick_Start f s"

definition schedule_repeat :: "u64 \<Rightarrow> 'f \<Rightarrow> 'f task_scheduler \<Rightarrow> u64 \<times> 'f task_scheduler" where
  "schedule_repeat period f s = insert_task (saturating_add64 (sc_current s) period) True period Tick_Start f s"

definition schedule_at_tick :: "u64 \<Rightarrow> 'f \<Rightarrow> 'f task_scheduler \<Rightarrow> u64 \<times> 'f task_scheduler" where
  "schedule_at_tick tick f s = insert_task tick False 0 Tick_Start f s"

definition schedule_next_tick :: "'f \<Rightarrow> 'f task_scheduler \<Rightarrow> u64 \<times> 'f task_scheduler" where
  "schedule_next_tick f s = schedule_after 1 f s"

definition schedule_end_of_tick :: "'f \<Rightarrow> 'f task_scheduler \<Rightarrow> u64 \<times> 'f task_scheduler" where
  "schedule_end_of_tick f s = insert_task (sc_current s) False 0 Tick_End f s"

definition run_after :: "u64 \<Rightarrow> 'f \<Rightarrow> 'f task_scheduler \<Rightarrow> u64 \<times> 'f task_scheduler" where
  "run_after delay f s = schedule_after delay f s"

definition run_repeating :: "u64 \<Rightarrow> 'f \<Rightarrow> 'f task_scheduler \<Rightarrow> u64 \<times> 'f task_scheduler" where
  "run_repeating period f s = schedule_repeat period f s"

definition cancel_task :: "u64 \<Rightarrow> 'f task_scheduler \<Rightarrow> bool \<times> 'f task_scheduler" where
  "cancel_task i s = (sc_tasks s i \<noteq> None, s\<lparr>sc_tasks := (sc_tasks s)(i := None)\<rparr>)"

definition pending_tasks :: "'f task_scheduler \<Rightarrow> nat" where
  "pending_tasks s = card (dom (sc_tasks s))"

section \<open>A tick\<close>

type_synonym 'f task_log = "(u64 \<times> u64 \<times> 'f) list"

text \<open>One turn of the loop: \<open>None\<close> when it breaks.\<close>

definition drain_turn ::
  "execution_type \<Rightarrow> u64 \<Rightarrow> 'f task_scheduler \<Rightarrow> ('f task_log \<times> 'f task_scheduler) option" where
  "drain_turn ty now s =
     (case heap_of ty s of
        [] \<Rightarrow> None
      | (due, i) # rest \<Rightarrow>
          if now < due then None
          else
            (let s1 = set_heap ty rest s in
             case sc_tasks s i of
               None \<Rightarrow> Some ([], s1)
             | Some e \<Rightarrow>
                 (let s2 = s1\<lparr>sc_tasks := (sc_tasks s)(i := None)\<rparr> in
                  if te_type e \<noteq> ty then Some ([], s2)
                  else if te_repeat e then
                    Some ([(due, i, te_f e)],
                      set_heap ty (insort (saturating_add64 due (te_period e), i) rest)
                        (s2\<lparr>sc_tasks := (sc_tasks s)(i \<mapsto> e)\<rparr>))
                  else Some ([(due, i, te_f e)], s2))))"

partial_function (option) drain ::
  "execution_type \<Rightarrow> u64 \<Rightarrow> 'f task_scheduler \<Rightarrow> ('f task_log \<times> 'f task_scheduler) option" where
  "drain ty now s =
     (case drain_turn ty now s of
        None \<Rightarrow> Some ([], s)
      | Some (out, s') \<Rightarrow> Option.bind (drain ty now s') (\<lambda>(out', s''). Some (out @ out', s'')))"

definition tick_start :: "u64 \<Rightarrow> 'f task_scheduler \<Rightarrow> ('f task_log \<times> 'f task_scheduler) option" where
  "tick_start now s = drain Tick_Start now (s\<lparr>sc_current := now\<rparr>)"

definition tick_finish :: "u64 \<Rightarrow> 'f task_scheduler \<Rightarrow> ('f task_log \<times> 'f task_scheduler) option" where
  "tick_finish now s = drain Tick_End now (s\<lparr>sc_current := now\<rparr>)"

definition scheduler_tick :: "u64 \<Rightarrow> 'f task_scheduler \<Rightarrow> ('f task_log \<times> 'f task_scheduler) option" where
  "scheduler_tick now s =
     (case tick_start now s of
        None \<Rightarrow> None
      | Some (out, s1) \<Rightarrow>
          (case tick_finish now s1 of None \<Rightarrow> None | Some (out', s2) \<Rightarrow> Some (out @ out', s2)))"

section \<open>The invariant\<close>

definition scheduler_ok :: "'f task_scheduler \<Rightarrow> bool" where
  "scheduler_ok s \<longleftrightarrow> sorted (sc_queue s) \<and> sorted (sc_end_queue s) \<and>
     distinct (map snd (sc_queue s @ sc_end_queue s)) \<and>
     (\<forall>i \<in> snd ` set (sc_queue s @ sc_end_queue s). i < sc_next_id s) \<and>
     (\<forall>i e. sc_tasks s i = Some e \<longrightarrow> i \<in> snd ` set (heap_of (te_type e) s))"

lemma heap_of_set [simp]:
  "heap_of ty (set_heap ty h s) = h" "ty' \<noteq> ty \<Longrightarrow> heap_of ty' (set_heap ty h s) = heap_of ty' s"
  "sc_tasks (set_heap ty h s) = sc_tasks s" "sc_next_id (set_heap ty h s) = sc_next_id s"
  "sc_current (set_heap ty h s) = sc_current s"
  "heap_of ty (s\<lparr>sc_tasks := m\<rparr>) = heap_of ty s" "heap_of ty (s\<lparr>sc_next_id := n\<rparr>) = heap_of ty s"
  "heap_of ty (s\<lparr>sc_current := n\<rparr>) = heap_of ty s"
  by (cases ty; cases ty'; simp add: heap_of_def set_heap_def)+

definition other_type :: "execution_type \<Rightarrow> execution_type" where
  "other_type ty = (case ty of Tick_Start \<Rightarrow> Tick_End | Tick_End \<Rightarrow> Tick_Start)"

lemma other_type [simp]: "other_type ty \<noteq> ty" "ty \<noteq> other_type ty"
  by (cases ty; simp add: other_type_def)+

lemma type_cases: "ty' = ty \<or> ty' = other_type ty"
  by (cases ty; cases ty'; simp add: other_type_def)

lemma scheduler_ok_alt:
  "scheduler_ok s \<longleftrightarrow> sorted (heap_of ty s) \<and> sorted (heap_of (other_type ty) s) \<and>
     distinct (map snd (heap_of ty s)) \<and> distinct (map snd (heap_of (other_type ty) s)) \<and>
     snd ` set (heap_of ty s) \<inter> snd ` set (heap_of (other_type ty) s) = {} \<and>
     (\<forall>i \<in> snd ` set (heap_of ty s) \<union> snd ` set (heap_of (other_type ty) s). i < sc_next_id s) \<and>
     (\<forall>i e. sc_tasks s i = Some e \<longrightarrow> i \<in> snd ` set (heap_of (te_type e) s))"
  by (cases ty) (auto simp: scheduler_ok_def heap_of_def other_type_def)

lemma task_in_heap: "scheduler_ok s \<Longrightarrow> sc_tasks s i = Some e \<Longrightarrow> i \<in> snd ` set (heap_of (te_type e) s)"
  unfolding scheduler_ok_def by blast

lemma scheduler_new_ok: "scheduler_ok scheduler_new"
  by (simp add: scheduler_ok_def scheduler_new_def)

lemma distinct_ids_insort: "distinct (map snd (insort x xs)) \<longleftrightarrow> snd x \<notin> snd ` set xs \<and> distinct (map snd xs)"
  by (induction xs) (auto simp: set_insort_key)

lemma insert_task_ok:
  assumes "scheduler_ok s" and "sc_next_id s < sc_next_id s + 1" and "insert_task due rep period ty f s = (i, s')"
  shows "scheduler_ok s' \<and> sc_tasks s i = None \<and> sc_tasks s' = (sc_tasks s)(i \<mapsto> \<lparr>te_repeat = rep, te_period = period, te_type = ty, te_f = f\<rparr>)
    \<and> heap_of ty s' = insort (due, i) (heap_of ty s) \<and> heap_of (other_type ty) s' = heap_of (other_type ty) s"
proof -
  note ok = assms(1) [unfolded scheduler_ok_alt [of s ty]]
  have i: "i = sc_next_id s" and s': "s' = (set_heap ty (insort (due, i) (heap_of ty s)) (s\<lparr>sc_next_id := i + 1\<rparr>))
      \<lparr>sc_tasks := (sc_tasks s)(i \<mapsto> \<lparr>te_repeat = rep, te_period = period, te_type = ty, te_f = f\<rparr>)\<rparr>"
    using assms(3) by (auto simp: insert_task_def Let_def)
  have fresh: "i \<notin> snd ` set (heap_of ty s)" "i \<notin> snd ` set (heap_of (other_type ty) s)"
    using ok by (auto simp: i)
  have none: "sc_tasks s i = None"
  proof (cases "sc_tasks s i")
    case (Some e)
    then have "i \<in> snd ` set (heap_of (te_type e) s)" using ok by blast
    then show ?thesis using fresh type_cases [of "te_type e" ty] by auto
  qed simp
  have lt: "j < i + 1" if "j < i" for j using assms(2) that by (simp add: i)
  have "distinct (map snd (insort (due, i) (heap_of ty s)))"
    using ok fresh by (simp add: distinct_ids_insort)
  moreover have "j \<in> snd ` set (heap_of (te_type e) s')" if "sc_tasks s' j = Some e" for j e
  proof (cases "j = i")
    case True
    then show ?thesis using that by (auto simp: s' set_insort_key)
  next
    case False
    then have "j \<in> snd ` set (heap_of (te_type e) s)" using that ok by (simp add: s')
    then show ?thesis using type_cases [of "te_type e" ty] by (auto simp: s' set_insort_key)
  qed
  ultimately have "scheduler_ok s'"
    unfolding scheduler_ok_alt [of s' ty] using ok fresh lt assms(2)
    by (auto simp: s' set_insort_key sorted_insort i)
  then show ?thesis using none by (simp add: s')
qed

lemma cancel_ok:
  assumes "scheduler_ok s" and "cancel_task i s = (b, s')"
  shows "scheduler_ok s' \<and> sc_tasks s' i = None \<and> heap_of ty s' = heap_of ty s"
proof -
  have s': "s' = s\<lparr>sc_tasks := (sc_tasks s)(i := None)\<rparr>" using assms(2) by (simp add: cancel_task_def)
  have "j \<in> snd ` set (heap_of (te_type e) s')" if "sc_tasks s' j = Some e" for j e
    using that assms(1) by (auto simp: s' scheduler_ok_alt [of s ty] split: if_splits)
  then have "scheduler_ok s'"
    using assms(1) unfolding scheduler_ok_alt [of s ty] scheduler_ok_alt [of s' ty] by (simp add: s')
  then show ?thesis by (simp add: s')
qed

section \<open>A tick returns and runs what is due\<close>

lemma unat_max64: "unat (- 1 :: u64) = 2 ^ 64 - 1"
  by (simp add: unsigned_minus_1_eq_mask mask_eq_exp_minus_1)

lemma below_max64: "now \<noteq> (- 1 :: u64) \<Longrightarrow> unat now < 2 ^ 64 - 1"
  using unsigned_less [of now, where 'a = nat] unat_max64 by (auto simp: word_unat_eq_iff le_less)

lemma saturating_add64_unat: "unat (saturating_add64 a b) = min (unat a + unat b) (2 ^ 64 - 1)"
proof (cases "unat a + unat b < 2 ^ 64")
  case True
  then have "unat (a + b) = unat a + unat b" by (subst unat_add_lem [THEN iffD1]) simp_all
  then show ?thesis using True by (simp add: saturating_add64_def)
next
  case False
  then show ?thesis using unat_max64 by (simp add: saturating_add64_def)
qed

text \<open>How often a task that is due at \<open>d\<close> runs in the tick \<open>now\<close>: a periodic task catches up.\<close>

definition runs_of :: "u64 \<Rightarrow> u64 \<Rightarrow> 'f task_entry \<Rightarrow> nat" where
  "runs_of now d e =
     (if now < d then 0 else if te_repeat e then (unat now - unat d) div unat (te_period e) + 1 else 1)"

definition times :: "u64 \<Rightarrow> 'f task_log \<Rightarrow> nat" where
  "times i log = length (filter (\<lambda>(d, j, f). j = i) log)"

definition no_zero_period :: "'f task_scheduler \<Rightarrow> bool" where
  "no_zero_period s \<longleftrightarrow> (\<forall>i e. sc_tasks s i = Some e \<longrightarrow> te_repeat e \<longrightarrow> te_period e \<noteq> 0)"

lemma runs_of_next:
  assumes "d \<le> now" and "te_repeat e" and "te_period e \<noteq> 0" and "now \<noteq> - 1"
  shows "runs_of now d e = 1 + runs_of now (saturating_add64 d (te_period e)) e"
proof -
  let ?n = "saturating_add64 d (te_period e)"
  let ?p = "unat (te_period e)"
  have p: "0 < ?p" using assms(3) by (simp add: unat_gt_0)
  have lt: "unat now < 2 ^ 64 - 1" by (rule below_max64 [OF assms(4)])
  have d: "unat d \<le> unat now" using assms(1) by (simp add: word_le_nat_alt)
  have n: "now < ?n \<longleftrightarrow> unat now < unat d + ?p"
    using lt by (simp add: word_less_nat_alt saturating_add64_unat)
  show ?thesis
  proof (cases "unat now < unat d + ?p")
    case True
    then have "(unat now - unat d) div ?p = 0" using d by simp
    then show ?thesis using True n assms(1,2) by (simp add: runs_of_def not_less [symmetric])
  next
    case False
    then have "unat ?n = unat d + ?p" using lt by (simp add: saturating_add64_unat)
    moreover have "(unat now - unat d) div ?p = (unat now - (unat d + ?p)) div ?p + 1"
      using False p by (simp add: le_div_geq)
    ultimately show ?thesis using False n assms(1,2) by (simp add: runs_of_def not_less [symmetric])
  qed
qed

text \<open>Ticks that the due entries have to catch up with.\<close>

definition lag :: "u64 \<Rightarrow> task_heap \<Rightarrow> nat" where
  "lag now h = sum_list (map (\<lambda>(d, i). if d \<le> now then unat now - unat d + 1 else 0) h)"

lemma lag_insort: "lag now (insort x h) = lag now (x # h)"
  by (induction h) (auto simp: lag_def)

lemma lag_later:
  assumes "d \<le> now" and "p \<noteq> 0" and "now \<noteq> - 1"
  shows "lag now [(saturating_add64 d p, i)] < lag now [(d, i)]"
proof -
  have "0 < unat p" using assms(2) by (simp add: unat_gt_0)
  moreover have "unat now < 2 ^ 64 - 1" by (rule below_max64 [OF assms(3)])
  ultimately show ?thesis
    using assms(1) by (auto simp: lag_def word_le_nat_alt saturating_add64_unat)
qed

text \<open>What one turn does in a good state.\<close>

lemma drain_turn_cases:
  assumes "scheduler_ok s" and "heap_of ty s = (d, i) # rest" and "d \<le> now"
  obtains (stale) s' where "drain_turn ty now s = Some ([], s')" and "sc_tasks s i = None" and "sc_tasks s' = sc_tasks s"
      and "heap_of ty s' = rest" and "heap_of (other_type ty) s' = heap_of (other_type ty) s"
      and "sc_next_id s' = sc_next_id s"
    | (once) s' e where "drain_turn ty now s = Some ([(d, i, te_f e)], s')" and "sc_tasks s i = Some e" and "te_type e = ty"
      and "\<not> te_repeat e" and "sc_tasks s' = (sc_tasks s)(i := None)" and "heap_of ty s' = rest"
      and "heap_of (other_type ty) s' = heap_of (other_type ty) s" and "sc_next_id s' = sc_next_id s"
    | (again) s' e where "drain_turn ty now s = Some ([(d, i, te_f e)], s')" and "sc_tasks s i = Some e" and "te_type e = ty"
      and "te_repeat e" and "sc_tasks s' = sc_tasks s" and "heap_of ty s' = insort (saturating_add64 d (te_period e), i) rest"
      and "heap_of (other_type ty) s' = heap_of (other_type ty) s" and "sc_next_id s' = sc_next_id s"
proof (cases "sc_tasks s i")
  case None
  then show ?thesis using assms by (intro stale [of "set_heap ty rest s"]) (auto simp: drain_turn_def Let_def)
next
  case (Some e)
  have "te_type e = ty"
  proof (rule ccontr)
    assume "te_type e \<noteq> ty"
    then have "te_type e = other_type ty" using type_cases by blast
    then have "i \<in> snd ` set (heap_of (other_type ty) s)" using task_in_heap [OF assms(1) Some] by simp
    then show False using assms(1,2) by (auto simp: scheduler_ok_alt [of s ty])
  qed
  then show ?thesis
  proof (cases "te_repeat e")
    case True
    let ?u = "set_heap ty (insort (saturating_add64 d (te_period e), i) rest)
      (set_heap ty rest s\<lparr>sc_tasks := (sc_tasks s)(i \<mapsto> e)\<rparr>)"
    have "drain_turn ty now s = Some ([(d, i, te_f e)], ?u)"
      using Some assms True \<open>te_type e = ty\<close> by (simp add: drain_turn_def Let_def)
    then show ?thesis using Some True \<open>te_type e = ty\<close> by (intro again [of e ?u]) (auto simp: fun_upd_idem)
  next
    case False
    let ?u = "set_heap ty rest s\<lparr>sc_tasks := (sc_tasks s)(i := None)\<rparr>"
    have "drain_turn ty now s = Some ([(d, i, te_f e)], ?u)"
      using Some assms False \<open>te_type e = ty\<close> by (simp add: drain_turn_def Let_def)
    then show ?thesis using Some False \<open>te_type e = ty\<close> by (intro once [of e ?u]) auto
  qed
qed

lemma subset_keeps: "A' \<subseteq> A \<Longrightarrow> A \<inter> B = {} \<Longrightarrow> A' \<inter> B = {}"
  "A' \<subseteq> A \<Longrightarrow> \<forall>j \<in> A \<union> B. R j \<Longrightarrow> \<forall>j \<in> A' \<union> B. R j"
  by blast+

lemma take_head_ok:
  assumes "scheduler_ok s" and "heap_of ty s = (d, i) # rest"
    and "heap_of (other_type ty) u = heap_of (other_type ty) s" and "sc_next_id u = sc_next_id s"
    and "heap_of ty u = rest \<or> heap_of ty u = insort (d', i) rest"
    and "\<And>j e. sc_tasks u j = Some e \<Longrightarrow> sc_tasks s j = Some e \<and> (j = i \<longrightarrow> heap_of ty u = insort (d', i) rest)"
  shows "scheduler_ok u"
proof -
  note ok = assms(1) [unfolded scheduler_ok_alt [of s ty]]
  have ids: "snd ` set (heap_of ty u) \<subseteq> snd ` set (heap_of ty s)" using assms(2,5) by (auto simp: set_insort_key)
  have rest: "sorted rest" "distinct (map snd rest)" "i \<notin> snd ` set rest" using ok assms(2) by auto
  have "sorted (heap_of ty u)" "distinct (map snd (heap_of ty u))"
    using assms(5) rest by (auto simp: sorted_insort distinct_ids_insort)
  moreover have "j \<in> snd ` set (heap_of (te_type e) u)" if "sc_tasks u j = Some e" for j e
  proof -
    have s: "sc_tasks s j = Some e" and ji: "j = i \<longrightarrow> heap_of ty u = insort (d', i) rest" using assms(6) [OF that] by blast+
    have "j \<in> snd ` set (heap_of (te_type e) s)" by (rule task_in_heap [OF assms(1) s])
    then show ?thesis
      using type_cases [of "te_type e" ty] assms(2,3,5) ji by (cases "j = i") (auto simp: set_insort_key)
  qed
  moreover have "sorted (heap_of (other_type ty) s)" "distinct (map snd (heap_of (other_type ty) s))" using ok by simp_all
  moreover have "snd ` set (heap_of ty s) \<inter> snd ` set (heap_of (other_type ty) s) = {}"
    and "\<forall>j \<in> snd ` set (heap_of ty s) \<union> snd ` set (heap_of (other_type ty) s). j < sc_next_id s"
    using ok by simp_all
  note subset_keeps(1) [OF ids this(1)] and subset_keeps(2) [OF ids this(2)]
  ultimately show ?thesis unfolding scheduler_ok_alt [of u ty] assms(3,4) by (intro conjI) simp_all
qed

lemma drain_turn_ok:
  assumes "scheduler_ok s" and "drain_turn ty now s = Some (out, s')"
  shows "scheduler_ok s'"
proof -
  obtain d i rest where h: "heap_of ty s = (d, i) # rest" and d: "d \<le> now"
    using assms(2) by (auto simp: drain_turn_def not_less split: list.splits if_splits)
  show ?thesis
  proof (rule drain_turn_cases [OF assms(1) h d])
    fix u assume u: "drain_turn ty now s = Some ([], u)" "sc_tasks s i = None" "sc_tasks u = sc_tasks s" "heap_of ty u = rest"
      "heap_of (other_type ty) u = heap_of (other_type ty) s" "sc_next_id u = sc_next_id s"
    have "scheduler_ok u" by (rule take_head_ok [OF assms(1) h u(5,6), of d]) (use u in auto)
    then show ?thesis using u(1) assms(2) by simp
  next
    fix u e assume u: "drain_turn ty now s = Some ([(d, i, te_f e)], u)" "sc_tasks u = (sc_tasks s)(i := None)"
      "heap_of ty u = rest" "heap_of (other_type ty) u = heap_of (other_type ty) s" "sc_next_id u = sc_next_id s"
    have "scheduler_ok u" by (rule take_head_ok [OF assms(1) h u(4,5), of d]) (use u in \<open>auto split: if_splits\<close>)
    then show ?thesis using u(1) assms(2) by simp
  next
    fix u e assume u: "drain_turn ty now s = Some ([(d, i, te_f e)], u)" "sc_tasks u = sc_tasks s"
      "heap_of ty u = insort (saturating_add64 d (te_period e), i) rest"
      "heap_of (other_type ty) u = heap_of (other_type ty) s" "sc_next_id u = sc_next_id s"
    have "scheduler_ok u" by (rule take_head_ok [OF assms(1) h u(4,5)]) (use u in auto)
    then show ?thesis using u(1) assms(2) by simp
  qed
qed

section \<open>The whole drain\<close>

text \<open>Everything the drain of one heap promises.\<close>

definition drained ::
  "execution_type \<Rightarrow> u64 \<Rightarrow> 'f task_scheduler \<Rightarrow> 'f task_log \<Rightarrow> 'f task_scheduler \<Rightarrow> bool" where
  "drained ty now s log s' \<longleftrightarrow> scheduler_ok s' \<and>
     (\<forall>(d, i) \<in> set (heap_of ty s'). now < d) \<and>
     (\<forall>d i e. (d, i) \<in> set (heap_of ty s) \<longrightarrow> sc_tasks s i = Some e \<longrightarrow> times i log = runs_of now d e) \<and>
     (\<forall>i. sc_tasks s i = None \<or> i \<notin> snd ` set (heap_of ty s) \<longrightarrow> times i log = 0) \<and>
     sorted (map (\<lambda>(d, i, f). (d, i)) log) \<and>
     (\<forall>(d, i, f) \<in> set log. d \<le> now \<and> (\<exists>e. sc_tasks s i = Some e \<and> f = te_f e) \<and> (\<forall>h \<in> set (take 1 (heap_of ty s)). h \<le> (d, i))) \<and>
     heap_of (other_type ty) s' = heap_of (other_type ty) s \<and> sc_next_id s' = sc_next_id s \<and>
     (\<forall>i e. sc_tasks s' i = Some e \<longrightarrow> sc_tasks s i = Some e) \<and>
     (\<forall>i e. sc_tasks s i = Some e \<longrightarrow> te_repeat e \<or> te_type e \<noteq> ty \<longrightarrow> sc_tasks s' i = Some e)"

lemma times_append: "times i (xs @ ys) = times i xs + times i ys"
  by (simp add: times_def)

lemma drain_nothing:
  assumes "scheduler_ok s" and "drain_turn ty now s = None"
  shows "drained ty now s [] s"
proof -
  note ok = assms(1) [unfolded scheduler_ok_alt [of s ty]]
  have "heap_of ty s = [] \<or> (\<exists>d i rest. heap_of ty s = (d, i) # rest \<and> now < d)"
    using assms(2) by (auto simp: drain_turn_def Let_def split: list.splits if_splits option.splits)
  then have "\<forall>(d, i) \<in> set (heap_of ty s). now < d" using ok by (fastforce simp: less_eq_prod_def)
  then show ?thesis using assms(1) by (auto simp: drained_def times_def runs_of_def)
qed

lemma heap_sorted: "scheduler_ok s \<Longrightarrow> sorted (heap_of ty s)"
  and heap_distinct: "scheduler_ok s \<Longrightarrow> distinct (map snd (heap_of ty s))"
  by (cases ty; simp add: scheduler_ok_def heap_of_def)+

lemma head_fresh:
  assumes "scheduler_ok s" and "heap_of ty s = (d, i) # rest"
  shows "i \<notin> snd ` set rest"
  using heap_distinct [OF assms(1), of ty] unfolding assms(2) by simp

lemma head_least:
  assumes "scheduler_ok s" and "heap_of ty s = x # rest" and "h \<in> set (heap_of ty s)"
  shows "x \<le> h"
  using heap_sorted [OF assms(1), of ty] assms(3) unfolding assms(2) by auto

lemma drainedI:
  assumes "scheduler_ok s'" and "\<And>d i. (d, i) \<in> set (heap_of ty s') \<Longrightarrow> now < d"
    and "\<And>d i e. (d, i) \<in> set (heap_of ty s) \<Longrightarrow> sc_tasks s i = Some e \<Longrightarrow> times i log = runs_of now d e"
    and "\<And>i. sc_tasks s i = None \<or> i \<notin> snd ` set (heap_of ty s) \<Longrightarrow> times i log = 0"
    and "sorted (map (\<lambda>(d, i, f). (d, i)) log)"
    and "\<And>d i f. (d, i, f) \<in> set log \<Longrightarrow> d \<le> now \<and> (\<exists>e. sc_tasks s i = Some e \<and> f = te_f e) \<and>
      (\<forall>h \<in> set (take 1 (heap_of ty s)). h \<le> (d, i))"
    and "heap_of (other_type ty) s' = heap_of (other_type ty) s" and "sc_next_id s' = sc_next_id s"
    and "\<And>i e. sc_tasks s' i = Some e \<Longrightarrow> sc_tasks s i = Some e"
    and "\<And>i e. sc_tasks s i = Some e \<Longrightarrow> te_repeat e \<or> te_type e \<noteq> ty \<Longrightarrow> sc_tasks s' i = Some e"
  shows "drained ty now s log s'"
  using assms unfolding drained_def by blast

lemma drainedD:
  assumes "drained ty now s log s'"
  shows "scheduler_ok s'" and "(d, i) \<in> set (heap_of ty s') \<Longrightarrow> now < d"
    and "(d, i) \<in> set (heap_of ty s) \<Longrightarrow> sc_tasks s i = Some e \<Longrightarrow> times i log = runs_of now d e"
    and "sc_tasks s i = None \<or> i \<notin> snd ` set (heap_of ty s) \<Longrightarrow> times i log = 0"
    and "sorted (map (\<lambda>(d, i, f). (d, i)) log)"
    and "(d, i, f) \<in> set log \<Longrightarrow> d \<le> now \<and> (\<exists>e. sc_tasks s i = Some e \<and> f = te_f e) \<and>
      (\<forall>h \<in> set (take 1 (heap_of ty s)). h \<le> (d, i))"
    and "heap_of (other_type ty) s' = heap_of (other_type ty) s" and "sc_next_id s' = sc_next_id s"
    and "sc_tasks s' i = Some e \<Longrightarrow> sc_tasks s i = Some e"
    and "sc_tasks s i = Some e \<Longrightarrow> te_repeat e \<or> te_type e \<noteq> ty \<Longrightarrow> sc_tasks s' i = Some e"
  using assms unfolding drained_def by blast+

text \<open>The head of a heap is not above what is logged for the rest.\<close>

lemma log_above:
  assumes "drained ty now u log s'" and "\<And>h. h \<in> set (heap_of ty u) \<Longrightarrow> x \<le> h" and "(d, i, f) \<in> set log"
  shows "x \<le> (d, i)"
proof (cases "heap_of ty u")
  case Nil
  then have "times i log = 0" using drainedD(4) [OF assms(1), of i] by simp
  then show ?thesis using assms(3) by (auto simp: times_def filter_empty_conv)
next
  case (Cons h rest)
  then show ?thesis using drainedD(6) [OF assms(1,3)] assms(2) [of h] by auto
qed

lemma drained_turn:
  assumes "scheduler_ok s" and "heap_of ty s = (d, i) # rest" and "d \<le> now" and "drain_turn ty now s = Some (out, u)"
    and "drained ty now u log s'" and "no_zero_period s" and "now \<noteq> - 1"
  shows "drained ty now s (out @ log) s'"
proof -
  note D = drainedD [OF assms(5)]
  have i: "i \<notin> snd ` set rest" by (rule head_fresh [OF assms(1,2)])
  have least: "(d, i) \<le> h" if "h \<in> set rest" for h
    by (rule head_least [OF assms(1,2)]) (simp add: assms(2) that)
  show ?thesis
  proof (rule drain_turn_cases [OF assms(1-3)])
    fix v assume v: "drain_turn ty now s = Some ([], v)" "sc_tasks s i = None" "sc_tasks v = sc_tasks s" "heap_of ty v = rest"
      "heap_of (other_type ty) v = heap_of (other_type ty) s" "sc_next_id v = sc_next_id s"
    then have uv: "u = v" "out = []" using assms(4) by simp_all
    show ?thesis
    proof (rule drainedI)
      show "times j (out @ log) = runs_of now d' e" if "(d', j) \<in> set (heap_of ty s)" "sc_tasks s j = Some e" for d' j e
        using that assms(2) v(2-4) D(3) [of d' j e] by (auto simp: uv)
      show "times j (out @ log) = 0" if "sc_tasks s j = None \<or> j \<notin> snd ` set (heap_of ty s)" for j
        using that assms(2) v D(4) [of j] by (auto simp: uv)
      show "d' \<le> now \<and> (\<exists>e. sc_tasks s j = Some e \<and> f = te_f e) \<and> (\<forall>h \<in> set (take 1 (heap_of ty s)). h \<le> (d', j))"
        if "(d', j, f) \<in> set (out @ log)" for d' j f
        using that D(6) [of d' j f] v(3) log_above [OF assms(5), of "(d, i)" d' j f] least assms(2) v(4) by (simp add: uv)
      show "scheduler_ok s'" by (rule D(1))
      show "now < d'" if "(d', j) \<in> set (heap_of ty s')" for d' j by (rule D(2) [OF that])
      show "heap_of (other_type ty) s' = heap_of (other_type ty) s" using D(7) v(5) by (simp add: uv)
      show "sc_next_id s' = sc_next_id s" using D(8) v(6) by (simp add: uv)
      show "sorted (map (\<lambda>(d, i, f). (d, i)) (out @ log))" using D(5) by (simp add: uv)
      show "sc_tasks s j = Some e'" if "sc_tasks s' j = Some e'" for j e' using D(9) [OF that] v(3) by (simp add: uv)
      show "sc_tasks s' j = Some e'" if "sc_tasks s j = Some e'" "te_repeat e' \<or> te_type e' \<noteq> ty" for j e'
        by (rule D(10) [OF _ that(2)]) (simp add: uv v(3) that(1))
    qed
  next
    fix v e assume v: "drain_turn ty now s = Some ([(d, i, te_f e)], v)" "sc_tasks s i = Some e" "te_type e = ty" "\<not> te_repeat e"
      "sc_tasks v = (sc_tasks s)(i := None)" "heap_of ty v = rest"
      "heap_of (other_type ty) v = heap_of (other_type ty) s" "sc_next_id v = sc_next_id s"
    then have uv: "u = v" "out = [(d, i, te_f e)]" using assms(4) by simp_all
    have ti: "times j ((d, i, te_f e) # log) = (if j = i then 1 else 0) + times j log" for j by (simp add: times_def)
    have none: "times i log = 0" using D(4) [of i] v(5) by (simp add: uv)
    show ?thesis
    proof (rule drainedI)
      show "times j (out @ log) = runs_of now d' e'" if j: "(d', j) \<in> set (heap_of ty s)" "sc_tasks s j = Some e'" for d' j e'
      proof (cases "j = i")
        case True
        then have "d' = d" "e' = e" using j assms(2) i v(2) by force+
        then show ?thesis using True none assms(3) v(4) by (simp add: uv ti runs_of_def)
      next
        case False
        then show ?thesis using D(3) [of d' j e'] j assms(2) v by (simp add: ti uv)
      qed
      show "times j (out @ log) = 0" if "sc_tasks s j = None \<or> j \<notin> snd ` set (heap_of ty s)" for j
        using that assms(2) v D(4) [of j] by (auto simp: ti uv)
      show "sorted (map (\<lambda>(d, i, f). (d, i)) (out @ log))"
        using D(5) log_above [OF assms(5), of "(d, i)"] least v(6) by (auto simp: uv)
      show "d' \<le> now \<and> (\<exists>e. sc_tasks s j = Some e \<and> f = te_f e) \<and> (\<forall>h \<in> set (take 1 (heap_of ty s)). h \<le> (d', j))"
        if "(d', j, f) \<in> set (out @ log)" for d' j f
        using that D(6) [of d' j f] v(2,5) log_above [OF assms(5), of "(d, i)" d' j f] least assms(2,3) v(6)
        by (auto simp: uv split: if_splits)
      show "sc_tasks s j = Some e'" if "sc_tasks s' j = Some e'" for j e' using that
        using D(9) [of j e'] v(5) by (auto simp: uv split: if_splits)
      show "sc_tasks s' j = Some e'" if "sc_tasks s j = Some e'" "te_repeat e' \<or> te_type e' \<noteq> ty" for j e'
        using D(10) [of j e'] that v(2-5) by (cases "j = i") (auto simp: uv)
      show "scheduler_ok s'" by (rule D(1))
      show "now < d'" if "(d', j) \<in> set (heap_of ty s')" for d' j by (rule D(2) [OF that])
      show "heap_of (other_type ty) s' = heap_of (other_type ty) s" using D(7) v(7) by (simp add: uv)
      show "sc_next_id s' = sc_next_id s" using D(8) v(8) by (simp add: uv)
    qed
  next
    fix v e assume v: "drain_turn ty now s = Some ([(d, i, te_f e)], v)" "sc_tasks s i = Some e" "te_type e = ty" "te_repeat e"
      "sc_tasks v = sc_tasks s" "heap_of ty v = insort (saturating_add64 d (te_period e), i) rest"
      "heap_of (other_type ty) v = heap_of (other_type ty) s" "sc_next_id v = sc_next_id s"
    then have uv: "u = v" "out = [(d, i, te_f e)]" using assms(4) by simp_all
    let ?n = "saturating_add64 d (te_period e)"
    have p: "te_period e \<noteq> 0" using assms(6) v(2,4) by (auto simp: no_zero_period_def)
    have "d \<le> ?n" using unsigned_less [of d, where 'a = nat] by (simp add: word_le_nat_alt saturating_add64_unat)
    then have above: "(d, i) \<le> h" if "h \<in> set (heap_of ty v)" for h
    proof -
      have "h = (?n, i) \<or> h \<in> set rest" using that by (simp add: v(6) set_insort_key)
      then show ?thesis using least [of h] \<open>d \<le> ?n\<close> by (auto simp: less_eq_prod_def order.order_iff_strict)
    qed
    have ti: "times j ((d, i, te_f e) # log) = (if j = i then 1 else 0) + times j log" for j by (simp add: times_def)
    show ?thesis
    proof (rule drainedI)
      show "times j (out @ log) = runs_of now d' e'" if j: "(d', j) \<in> set (heap_of ty s)" "sc_tasks s j = Some e'" for d' j e'
      proof (cases "j = i")
        case True
        then have "d' = d" "e' = e" using j assms(2) i v(2) by force+
        moreover have "times i log = runs_of now ?n e" using D(3) [of ?n i e] v(2,5,6) by (simp add: uv set_insort_key)
        ultimately show ?thesis using True runs_of_next [OF assms(3) v(4) p assms(7)] by (simp add: uv ti)
      next
        case False
        then show ?thesis using D(3) [of d' j e'] j assms(2) v by (simp add: ti uv set_insort_key)
      qed
      show "times j (out @ log) = 0" if "sc_tasks s j = None \<or> j \<notin> snd ` set (heap_of ty s)" for j
        using that assms(2) v D(4) [of j] by (auto simp: ti uv set_insort_key)
      show "sorted (map (\<lambda>(d, i, f). (d, i)) (out @ log))"
        using D(5) log_above [OF assms(5), of "(d, i)"] above by (auto simp: uv)
      show "d' \<le> now \<and> (\<exists>e. sc_tasks s j = Some e \<and> f = te_f e) \<and> (\<forall>h \<in> set (take 1 (heap_of ty s)). h \<le> (d', j))"
        if "(d', j, f) \<in> set (out @ log)" for d' j f
        using that D(6) [of d' j f] v(2,5) log_above [OF assms(5), of "(d, i)" d' j f] above assms(2,3)
        by (auto simp: uv)
      show "scheduler_ok s'" by (rule D(1))
      show "now < d'" if "(d', j) \<in> set (heap_of ty s')" for d' j by (rule D(2) [OF that])
      show "heap_of (other_type ty) s' = heap_of (other_type ty) s" using D(7) v(7) by (simp add: uv)
      show "sc_next_id s' = sc_next_id s" using D(8) v(8) by (simp add: uv)
      show "sc_tasks s j = Some e'" if "sc_tasks s' j = Some e'" for j e' using D(9) [OF that] v(5) by (simp add: uv)
      show "sc_tasks s' j = Some e'" if "sc_tasks s j = Some e'" "te_repeat e' \<or> te_type e' \<noteq> ty" for j e'
        by (rule D(10) [OF _ that(2)]) (simp add: uv v(5) that(1))
    qed
  qed
qed

lemma lag_simps:
  "lag now [] = 0" "lag now ((d, i) # h) = (if d \<le> now then unat now - unat d + 1 else 0) + lag now h"
  by (simp_all add: lag_def)

lemma turn_lag:
  assumes "scheduler_ok s" and "heap_of ty s = (d, i) # rest" and "d \<le> now" and "drain_turn ty now s = Some (out, u)"
    and "no_zero_period s" and "now \<noteq> - 1"
  shows "lag now (heap_of ty u) < lag now (heap_of ty s) \<and> no_zero_period u"
proof (rule drain_turn_cases [OF assms(1-3)])
  fix v assume v: "drain_turn ty now s = Some ([], v)" "sc_tasks v = sc_tasks s" "heap_of ty v = rest"
  then show ?thesis using assms(2-5) by (simp add: lag_simps no_zero_period_def)
next
  fix v e assume v: "drain_turn ty now s = Some ([(d, i, te_f e)], v)" "sc_tasks v = (sc_tasks s)(i := None)" "heap_of ty v = rest"
  then show ?thesis using assms(2-5) by (simp add: lag_simps no_zero_period_def)
next
  fix v e assume v: "drain_turn ty now s = Some ([(d, i, te_f e)], v)" "sc_tasks s i = Some e" "te_repeat e"
    "sc_tasks v = sc_tasks s" "heap_of ty v = insort (saturating_add64 d (te_period e), i) rest"
  have p: "te_period e \<noteq> 0" using assms(5) v(2,3) by (simp add: no_zero_period_def)
  have "lag now (heap_of ty v) < lag now (heap_of ty s)"
    using lag_later [OF assms(3) p assms(6), of i] by (simp add: v(5) assms(2) lag_insort lag_simps)
  then show ?thesis using v(1,4) assms(4,5) by (simp add: no_zero_period_def)
qed

lemma drain_drains:
  assumes "scheduler_ok s" and "no_zero_period s" and "now \<noteq> - 1"
  shows "\<exists>log s'. drain ty now s = Some (log, s') \<and> drained ty now s log s'"
  using assms(1,2)
proof (induction "lag now (heap_of ty s)" arbitrary: s rule: less_induct)
  case less
  show ?case
  proof (cases "drain_turn ty now s")
    case None
    then have "drain ty now s = Some ([], s)" by (subst drain.simps) simp
    then show ?thesis using drain_nothing [OF less.prems(1) None] by blast
  next
    case (Some r)
    obtain out u where r: "r = (out, u)" by (cases r)
    obtain d i rest where h: "heap_of ty s = (d, i) # rest" and d: "d \<le> now"
      using Some by (auto simp: drain_turn_def not_less split: list.splits if_splits)
    note t = Some [unfolded r]
    have "lag now (heap_of ty u) < lag now (heap_of ty s)" "no_zero_period u"
      using turn_lag [OF less.prems(1) h d t less.prems(2) assms(3)] by blast+
    then obtain log s' where "drain ty now u = Some (log, s')" "drained ty now u log s'"
      using less.hyps [OF _ drain_turn_ok [OF less.prems(1) t]] by blast
    then have "drain ty now s = Some (out @ log, s')" by (subst drain.simps) (simp add: t)
    then show ?thesis
      using drained_turn [OF less.prems(1) h d t \<open>drained ty now u log s'\<close> less.prems(2) assms(3)] by blast
  qed
qed

lemma current_ok [simp]: "scheduler_ok (s\<lparr>sc_current := now\<rparr>) = scheduler_ok s"
  "no_zero_period (s\<lparr>sc_current := now\<rparr>) = no_zero_period s"
  by (simp_all add: scheduler_ok_alt [of _ Tick_Start] no_zero_period_def)

lemma heaps_disjoint:
  assumes "scheduler_ok s" and "(d, i) \<in> set (heap_of ty s)"
  shows "i \<notin> snd ` set (heap_of (other_type ty) s)"
proof -
  have "i \<in> snd ` set (heap_of ty s)" using assms(2) by force
  moreover have "snd ` set (heap_of ty s) \<inter> snd ` set (heap_of (other_type ty) s) = {}"
    using assms(1) unfolding scheduler_ok_alt [of s ty] by (elim conjE)
  ultimately show ?thesis by blast
qed

lemma task_type:
  assumes "scheduler_ok s" and "(d, i) \<in> set (heap_of ty s)" and "sc_tasks s i = Some e"
  shows "te_type e = ty"
proof (rule ccontr)
  assume "te_type e \<noteq> ty"
  then have "te_type e = other_type ty" using type_cases by blast
  then have "i \<in> snd ` set (heap_of (other_type ty) s)" using task_in_heap [OF assms(1,3)] by simp
  then show False using heaps_disjoint [OF assms(1,2)] by simp
qed

lemma tick_drains:
  fixes s :: "'f task_scheduler"
  assumes ok: "scheduler_ok s" "no_zero_period s" "now \<noteq> - 1"
  shows "\<exists>log s'. scheduler_tick now s = Some (log, s') \<and> scheduler_ok s' \<and>
    (\<forall>ty d i. (d, i) \<in> set (heap_of ty s') \<longrightarrow> now < d) \<and>
    (\<forall>ty d i e. (d, i) \<in> set (heap_of ty s) \<longrightarrow> sc_tasks s i = Some e \<longrightarrow> times i log = runs_of now d e)"
proof -
  have others [simp]: "other_type Tick_Start = Tick_End" "other_type Tick_End = Tick_Start" by (simp_all add: other_type_def)
  obtain out1 s1 where 1: "tick_start now s = Some (out1, s1)" "drained Tick_Start now (s\<lparr>sc_current := now\<rparr>) out1 s1"
    unfolding tick_start_def using drain_drains [of "s\<lparr>sc_current := now\<rparr>" now Tick_Start] ok by auto
  note D1 = drainedD [OF 1(2), simplified]
  have "no_zero_period s1" using ok(2) D1(9) unfolding no_zero_period_def by blast
  then obtain out2 s2 where 2: "tick_finish now s1 = Some (out2, s2)" "drained Tick_End now (s1\<lparr>sc_current := now\<rparr>) out2 s2"
    unfolding tick_finish_def using drain_drains [of "s1\<lparr>sc_current := now\<rparr>" now Tick_End] D1(1) ok(3) by auto
  note D2 = drainedD [OF 2(2), simplified]
  have "scheduler_tick now s = Some (out1 @ out2, s2)" by (simp add: scheduler_tick_def 1(1) 2(1))
  moreover have "now < d" if "(d, i) \<in> set (heap_of ty s2)" for ty d i
    using that D2(2) [of d i] D1(2) [of d i] D2(7) by (cases ty) simp_all
  moreover have "times i (out1 @ out2) = runs_of now d e" if e: "(d, i) \<in> set (heap_of ty s)" "sc_tasks s i = Some e" for ty d i e
  proof (cases ty)
    case Tick_Start
    have "i \<notin> snd ` set (heap_of Tick_End s1)" using heaps_disjoint [OF ok(1) e(1)] D1(7) Tick_Start by simp
    then have "times i out2 = 0" by (rule D2(4) [OF disjI2])
    then show ?thesis using D1(3) [of d i e] e Tick_Start by (simp add: times_append)
  next
    case Tick_End
    have "i \<notin> snd ` set (heap_of Tick_Start s)" using heaps_disjoint [OF ok(1) e(1)] Tick_End by simp
    then have "times i out1 = 0" by (rule D1(4) [OF disjI2])
    moreover have "sc_tasks s1 i = Some e" by (rule D1(10)) (use e task_type [OF ok(1) e] Tick_End in auto)
    ultimately show ?thesis using D2(3) [of d i e] D1(7) e Tick_End by (simp add: times_append)
  qed
  ultimately show ?thesis using D2(1) by blast
qed

section \<open>A period of zero\<close>

text \<open>A periodic task of period 0 is due again at once, and the drain does not return.\<close>

definition spinning :: "execution_type \<Rightarrow> u64 \<Rightarrow> 'f task_scheduler \<Rightarrow> bool" where
  "spinning ty now s \<longleftrightarrow>
     (\<exists>d i e. (d, i) \<in> set (heap_of ty s) \<and> d \<le> now \<and> sc_tasks s i = Some e \<and> te_repeat e \<and> te_period e = 0)"

lemma spinning_turn:
  assumes "scheduler_ok s" and "spinning ty now s"
  shows "\<exists>out u. drain_turn ty now s = Some (out, u) \<and> spinning ty now u"
proof -
  obtain d i e where z: "(d, i) \<in> set (heap_of ty s)" "d \<le> now" "sc_tasks s i = Some e" "te_repeat e" "te_period e = 0"
    using assms(2) by (auto simp: spinning_def)
  obtain d0 i0 rest where h: "heap_of ty s = (d0, i0) # rest" using z(1) by (cases "heap_of ty s") auto
  have "(d0, i0) \<le> (d, i)" by (rule head_least [OF assms(1) h z(1)])
  then have d0: "d0 \<le> now" using z(2) by (auto simp: less_eq_prod_def)
  have same: "d0 = d" if "i0 = i"
    using that z(1) head_fresh [OF assms(1) h] unfolding h by force
  show ?thesis
  proof (rule drain_turn_cases [OF assms(1) h d0])
    fix u assume u: "drain_turn ty now s = Some ([], u)" "sc_tasks s i0 = None" "sc_tasks u = sc_tasks s" "heap_of ty u = rest"
    then have "(d, i) \<in> set rest" using z(1,3) h by auto
    then show ?thesis using u z by (auto simp: spinning_def)
  next
    fix u e0 assume u: "drain_turn ty now s = Some ([(d0, i0, te_f e0)], u)" "sc_tasks s i0 = Some e0" "\<not> te_repeat e0"
      "sc_tasks u = (sc_tasks s)(i0 := None)" "heap_of ty u = rest"
    then have "i0 \<noteq> i" using z(3,4) by auto
    then have "(d, i) \<in> set (heap_of ty u)" "sc_tasks u i = Some e" using z(1,3) h u(4,5) by auto
    then have "spinning ty now u" using z(2,4,5) unfolding spinning_def by blast
    then show ?thesis using u(1) by blast
  next
    fix u e0 assume u: "drain_turn ty now s = Some ([(d0, i0, te_f e0)], u)" "sc_tasks s i0 = Some e0" "sc_tasks u = sc_tasks s"
      "heap_of ty u = insort (saturating_add64 d0 (te_period e0), i0) rest"
    have "(d, i) \<in> set (heap_of ty u)"
    proof (cases "i0 = i")
      case True
      then have "e0 = e" "d0 = d" using u(2) z(3) same by auto
      moreover have "saturating_add64 d 0 = d" using unsigned_less [of d, where 'a = nat] by (simp add: saturating_add64_def)
      ultimately show ?thesis using True u(4) z(5) by (simp add: set_insort_key)
    next
      case False
      then show ?thesis using z(1) h u(4) by (auto simp: set_insort_key)
    qed
    then show ?thesis using u z by (auto simp: spinning_def)
  qed
qed

lemma spinning_never_returns:
  assumes "drain ty now s = Some r" and "scheduler_ok s"
  shows "\<not> spinning ty now s"
proof -
  have "scheduler_ok s \<longrightarrow> \<not> spinning ty now s"
  proof (rule drain.raw_induct [of "\<lambda>ty now s r. scheduler_ok s \<longrightarrow> \<not> spinning ty now s", OF _ assms(1)])
    fix dr :: "execution_type \<Rightarrow> u64 \<Rightarrow> 'a task_scheduler \<Rightarrow> ('a task_log \<times> 'a task_scheduler) option"
      and ty now s y
    assume IH: "\<And>ty now s r. dr ty now s = Some r \<Longrightarrow> scheduler_ok s \<longrightarrow> \<not> spinning ty now s"
      and y: "(case drain_turn ty now s of None \<Rightarrow> Some ([], s)
        | Some (out, s') \<Rightarrow> Option.bind (dr ty now s') (\<lambda>(out', s''). Some (out @ out', s''))) = Some y"
    show "scheduler_ok s \<longrightarrow> \<not> spinning ty now s"
    proof (intro impI notI)
      assume ok: "scheduler_ok s" and spin: "spinning ty now s"
      obtain out u where u: "drain_turn ty now s = Some (out, u)" "spinning ty now u"
        using spinning_turn [OF ok spin] by blast
      have "scheduler_ok u" by (rule drain_turn_ok [OF ok u(1)])
      moreover obtain z where "dr ty now u = Some z" using y u(1) by (cases "dr ty now u") auto
      ultimately show False using IH u(2) by blast
    qed
  qed
  then show ?thesis using assms(2) by blast
qed

end
