(* ===== verification/Spec2Isabelle.thy ===== *)
theory Spec2Isabelle
  imports Login_Flow Session Velocity Inventory_Sync Packets_Client_A Packets_Client_C
    Deferred_Commands World_Migration Ecs_Query World_Scheduler Task_Scheduler Registry_Sync
begin

text \<open>
  A verification library for the core of ParticleMC-Framework, a Minecraft server framework in Rust
  (protocol 774): its network and protocol, the inventories of players and the entity-component system. The sources
  are under \<open>src/crates/particlemc-framework-core/src\<close>; the paths below are relative to it, those that
  begin with \<open>ecs/\<close> to \<open>src/crates/particlemc-framework-ecs/src\<close>.

  \<^bold>\<open>How the parts interact.\<close> The listener (\<open>network/listener.rs\<close>) accepts connections, cuts the byte
  stream of each into frames, tags every frame with the phase the connection is in and hands it to
  the game side. There the dispatcher (\<open>protocol/dispatch.rs\<close>) picks a decoder by phase and packet
  id. The decoders read through a byte buffer (\<open>protocol/byte_buf.rs\<close>) and use the formats for
  items, text and NBT. In the other direction the game queues encoded packets per connection
  (\<open>network/client.rs\<close>); at the end of a tick they are framed (\<open>protocol/framing.rs\<close>), batched and
  given to the write task of the listener. The inventory of a player is changed by the clicks of its
  client and by the game; a synchronisation at the end of a tick queues the packets that bring the
  client's picture up to date. Players are entities of a world of the entity-component system
  (\<open>ecs/\<close>): components are stored by archetypes, systems read them through queries and change them at once
  or by deferred commands, a schedule orders the systems of a world and a scheduler ticks all worlds,
  each of which takes commands from other threads through a lock-free queue.

  \<^bold>\<open>Theories.\<close>
  \<^item> \<open>Prelude\<close>: machine integers as words, strings as UTF-8 bytes, big-endian bytes, the monad of
    results with state, loops.
  \<^item> \<open>Varint\<close> (\<open>protocol/varint.rs\<close>, \<open>protocol/error.rs\<close>): the write and read loops; round trip,
    length, equality with LEB128.
  \<^item> \<open>Byte_Buf\<close> (\<open>protocol/byte_buf.rs\<close>): one definition per method. \<open>Codec\<close>: what it means that a
    writer's bytes are read back (\<open>carries\<close>), that a reader stays in its buffer (\<open>cursor_safe\<close>),
    the rules for both, and the interface of a packet: the locale \<open>packet_codec\<close>, with
    \<open>body_codec\<close> for bodies that must be decoded alone and \<open>stream_codec\<close> for sequences. The
    recurring idioms of the packet bodies (optional fields, counted sequences, blobs) are
    definitions there.
  \<^item> \<open>Framing\<close> (\<open>protocol/framing.rs\<close>): plain and compressed frames, the bounded inflate loop.
  \<^item> \<open>Nbt\<close> (\<open>protocol/nbt.rs\<close>): writer, reader, round trips, totality, depth.
  \<^item> \<open>Text_Component\<close> (\<open>text_component.rs\<close>): components and their NBT form.
  \<^item> \<open>Keyed_Store\<close>: the contract of a keyed store, a locale. \<open>Item_Stack\<close> (\<open>item_stack.rs\<close>)
    interprets it for the component patch and adds the wire format of items.
  \<^item> \<open>Packets_Login\<close> (\<open>protocol/packets/handshake.rs\<close>, \<open>status.rs\<close>, \<open>login.rs\<close>, \<open>configuration.rs\<close>) and
    \<open>Packets_Play_A\<close>, \<open>Packets_Play_B\<close>, \<open>Packets_Play_C\<close> (\<open>play.rs\<close>): for every packet X its record,
    \<open>X_id\<close>, \<open>X_decode\<close>, \<open>X_encode\<close>, the predicate \<open>wf_X\<close> of the values the wire can carry, and the
    interpretation \<open>X\<close> of the packet contract.
  \<^item> \<open>Connection\<close> (\<open>network/connection.rs\<close>): the phases and transitions, as a step relation.
  \<^item> \<open>Dispatch\<close> (\<open>protocol/dispatch.rs\<close>, \<open>InboundPacket\<close> and \<open>encode_clientbound\<close> of
    \<open>protocol/packets/mod.rs\<close>): the match of the play phase is the list \<open>play_table\<close>.
  \<^item> \<open>Channel\<close>: bounded channels, with the contract of a sender as a locale, interpreted for the channels of the
    connections and, in \<open>Listener\<close>, for the one to the game.
  \<^item> \<open>Listener\<close> (\<open>network/listener.rs\<close>): the loops of the read task as functions, the whole of the
    connections and tasks as the step relation \<open>net_step\<close>. \<open>sh_inbound\<close> is the channel to the game,
    \<open>sh_offered\<close> the history of all frames for which a send was tried.
  \<^item> \<open>Client_Network\<close> (\<open>network/client.rs\<close>): queues, broadcast, flush.
  \<^item> \<open>Velocity\<close> (\<open>protocol/velocity.rs\<close>): the signed identity a proxy forwards.
  \<^item> \<open>Client_Codec\<close>, \<open>Packets_Client_A\<close>, \<open>Packets_Client_B\<close>, \<open>Packets_Client_C\<close> (\<open>play.rs\<close>): the clientbound
    packets of the play phase, in the form of the serverbound ones.
  \<^item> \<open>Containers\<close> (\<open>inventory/types.rs\<close>): the inventories of blocks; the locale \<open>slot_store\<close> of slots with
    a set of changed ones. \<open>Player_Inventory\<close> (\<open>component/inventory.rs\<close>): clicks, drags, adding and using
    up items, with the conservation of items. \<open>Inventory_Sync\<close> (\<open>system/inventory_sync.rs\<close>): the packets of
    a synchronisation and the view that a client builds from them.
  \<^item> \<open>Handle_Pool\<close>: the contract of an allocator of handles, a locale. \<open>Entity_Arena\<close> (\<open>ecs/entity.rs\<close>)
    interprets it. \<open>Connection_Manager\<close> (\<open>resource/connection_manager.rs\<close>): the table of connections on
    the game side, an interpretation of \<open>keyed_store\<close>.
  \<^item> \<open>Component_Storage\<close> (\<open>ecs/storage/\<close>): sparse sets, an interpretation of \<open>keyed_store\<close>, and dense
    columns. \<open>Ecs_World\<close> (\<open>ecs/world.rs\<close>): archetypes, the index and the operations, each with the law of what
    it changes and what it spares. \<open>World_Runs\<close>: runs of a world refine a map. \<open>Deferred_Commands\<close>
    (\<open>ecs/commands.rs\<close>), \<open>World_Migration\<close> (\<open>ecs/migration.rs\<close>), \<open>Ecs_Query\<close> (\<open>ecs/query.rs\<close>).
  \<^item> \<open>Mpmc_Queue\<close> (\<open>ecs/queue.rs\<close>): the threads as a step relation, a step for every access to the shared
    memory, with the invariant of the slots and the refinement of a list. \<open>Ecs_Schedule\<close> (\<open>ecs/schedule.rs\<close>,
    \<open>ecs/message.rs\<close>): order, tick, clock, inbox. \<open>World_Scheduler\<close> (\<open>ecs/scheduler.rs\<close>): the tick of all worlds as a
    relation over the interleavings. \<open>Task_Scheduler\<close> (\<open>resource/scheduler_manager.rs\<close>): delayed and periodic
    tasks.
  \<^item> \<open>Network_Receive\<close> (\<open>system/network_receive.rs\<close>, \<open>system/network_send.rs\<close>): the reaction of the game to every
    packet and to the end of a connection, over the connections, the queues, the worlds and the events.
    \<open>Login_Flow\<close>: what it keeps and achieves.
  \<^item> \<open>Registry_Sync\<close> (\<open>resource/registries/nbt.rs\<close>): TOML to NBT, the packets of registries and tags.
  \<^item> \<open>Session\<close>: the composition, with the locale \<open>frame_format\<close> between the frame encoders and the
    reader, interpreted for the plain and for the compressed format.
  \<^item> This theory states the properties C1 to C40.

  \<^bold>\<open>Correspondence.\<close> A struct is a record with a prefix on the field names, an enum a datatype, an
  integer of width w a word of w bits, a float its bit pattern, a \<open>String\<close> or \<open>Uuid\<close> its bytes, a
  \<open>HashMap\<close> a partial map. \<open>Result\<close> is a sum with the error left; a method that mutates and may fail
  is a function to the result and the state it leaves. \<open>usize\<close> lengths and indices are naturals; the
  conversions between them and \<open>i32\<close> are explicit. The locks of the shared maps are not
  modelled: a poisoned mutex needs a panic while it is held, and none of the code under the lock
  panics.

  \<^bold>\<open>Fuel.\<close> Only the NBT reader carries a bound, on its recursion depth: the length of the input plus
  two. \<open>nbt_readers_total\<close> shows that it is never exhausted, and \<open>nbt_depth_unlimited\<close> that no smaller
  order would do. A loop that reads until a step says stop (\<open>get_while\<close>) has one more than the bytes that
  are left, enough because every step consumes one (\<open>read_while_fuel\<close>). The drain of the task scheduler may not end and
  is a partial function; \<open>due_tasks_run\<close> shows that it returns when no period is zero, \<open>zero_period_never_returns\<close>
  that it does not otherwise. All other loops are total functions. The positions of the lock-free queue are 64-bit
  words; its results are for runs in which none passes $2^{63}$.

  \<^bold>\<open>Parameters.\<close> What is not in the repository is an argument: the deflater and inflater of flate2
  (\<open>deflater\<close>, \<open>decompress\<close>), the MAC of the crate hmac and the clock (in \<open>Velocity\<close>), the reads of a
  socket. The step of the clock in nanoseconds, a quotient of floats, is a field; how a float is shown as text
  (\<open>show_double\<close>, \<open>show_float\<close>), the arithmetic of the chunk credits, the fresh UUID of a login (the record
  \<open>externals\<close> and \<open>ambient\<close> of \<open>Network_Receive\<close>) and the order in which a hash map is walked are arguments. The threads are
  interleaved at single accesses; weaker memory orderings are not part of the model. The channels of tokio are bounded queues as its documentation
  describes them (\<open>Channel\<close>): \<open>try_send\<close> loses what they have no room for, \<open>send\<close> waits. Hypotheses about the
  arguments are explicit: inflating undoes deflating on the payloads concerned (\<open>compressible\<close>).

  \<^bold>\<open>Not modelled.\<close> The optional feature \<open>online-auth\<close>, the commands of the chat, chunks and
  the other game systems; the type-erased resources and the parameters of system functions; of the clientbound packets the four whose
  bodies are commands, recipes or a compressed float vector; failures of socket writes. \<open>Display\<close> texts and tests are left out.
\<close>

section \<open>Auxiliary facts\<close>

lemma carries_at_start:
  "carries w r v \<Longrightarrow>
   r (bb_new (encoded w @ rest)) = (Inr v, \<lparr>bb_buf = encoded w @ rest, bb_pos = length (encoded w)\<rparr>)"
  using carries_encoded [of w r v] by (auto simp: reads_def cursor_def bb_new_def dest: spec [of _ "[]"])

lemma concat_singletons: "concat (map (\<lambda>b. [b]) bs) = bs"
  by (induction bs) simp_all

text \<open>The data of the examples: a decompressor that fails, one that knows a single stream, and a
  client's conversation from the handshake to the play phase.\<close>

definition no_zlib :: "unit inflater" where
  "no_zlib = (\<lambda>z bs. (None, z))"

definition sevens :: "u8 list" where
  "sevens = [7, 7, 7, 7]"

definition toy_deflater :: "u8 list \<Rightarrow> u8 list option" where
  "toy_deflater p = Some (if p = sevens then [9] else p)"

definition toy_inflater :: "unit inflater" where
  "toy_inflater = (\<lambda>z bs. (Some (ZStreamEnd, 1, sevens), z))"

definition demo_intention :: intention where
  "demo_intention = \<lparr>in_protocol_version = 774, in_server_address = str ''localhost'', in_port = 25565,
     in_next_state = 2, in_forwarding = None\<rparr>"

definition demo :: "inbound_packet list" where
  "demo = [InIntention demo_intention, InLoginAcknowledged, InFinishConfiguration, InTickEnd TickEnd]"

lemma demo_wf: "\<forall>p \<in> set demo. wf_inbound p"
  by (simp add: demo_def demo_intention_def wf_inbound_def wf_intention_def wf_string_def MAX_STRING_LEN_def
      wf_tick_end_def)

lemma demo_lengths: "map (\<lambda>p. length (packet_bytes p)) demo = [16, 1, 1, 1]"
  by code_simp

lemma demo_fits: "\<forall>p \<in> set demo. length (packet_bytes p) \<le> MAX_FRAME"
  using demo_lengths by (simp add: demo_def MAX_FRAME_def)

lemma demo_next: "next_phase (InIntention demo_intention) = Login"
proof -
  have "fst (intention_decode (bb_new (encoded (intention_encode demo_intention)))) = Inr demo_intention"
    by (rule intention.body_decode)
       (simp add: demo_intention_def wf_intention_def wf_string_def MAX_STRING_LEN_def)
  then show ?thesis
    by (simp add: next_phase_def sent_def next_state_def intention_id_def) (simp add: demo_intention_def)
qed

lemma demo_conversation: "conversation Handshake demo"
  by (simp add: demo_def phase_of_def demo_next) 
     (simp add: sent_def next_phase_def next_state_def finish_configuration_c2s_id_def)

lemma toy_ok: "compressible toy_inflater () toy_deflater 2 sevens"
  by (simp add: compressible_def compressed_body_def toy_deflater_def deflate_zlib_def sevens_def
      MAX_FRAME_def leb128.simps inflate_zlib_def inflate_loop.simps toy_inflater_def)

lemma turns_reach:
  assumes "\<forall>f \<in> set fs. length f \<le> MAX_FRAME"
  shows "(net_step decompress d0)\<^sup>*\<^sup>*
      \<lparr>nt_shared = sh, nt_readers = R(c \<mapsto> r\<lparr>rd_read_buf := concat (map wire fs)\<rparr>)\<rparr>
      \<lparr>nt_shared = fold (handle_frame decompress d0 r) fs sh, nt_readers = R(c \<mapsto> r\<lparr>rd_read_buf := []\<rparr>)\<rparr>"
  using assms
proof (induction fs arbitrary: sh)
  case (Cons f fs)
  have "net_step decompress d0
      \<lparr>nt_shared = sh, nt_readers = R(c \<mapsto> r\<lparr>rd_read_buf := concat (map wire (f # fs))\<rparr>)\<rparr>
      \<lparr>nt_shared = handle_frame decompress d0 r f sh,
       nt_readers = R(c \<mapsto> r\<lparr>rd_read_buf := concat (map wire fs)\<rparr>)\<rparr>"
    using net_step.turned [of "\<lparr>nt_shared = sh, nt_readers = R(c \<mapsto> r\<lparr>rd_read_buf := concat (map wire (f # fs))\<rparr>)\<rparr>"
        c "r\<lparr>rd_read_buf := concat (map wire (f # fs))\<rparr>" decompress d0 True
        "handle_frame decompress d0 r f sh" "r\<lparr>rd_read_buf := concat (map wire fs)\<rparr>"]
      frame_turn_whole [of f decompress d0 sh "concat (map wire fs)" r] Cons.prems
    by simp
  moreover have "(net_step decompress d0)\<^sup>*\<^sup>*
      \<lparr>nt_shared = handle_frame decompress d0 r f sh,
       nt_readers = R(c \<mapsto> r\<lparr>rd_read_buf := concat (map wire fs)\<rparr>)\<rparr>
      \<lparr>nt_shared = fold (handle_frame decompress d0 r) (f # fs) sh, nt_readers = R(c \<mapsto> r\<lparr>rd_read_buf := []\<rparr>)\<rparr>"
    unfolding fold_simps by (rule Cons.IH) (use Cons.prems in simp)
  ultimately show ?case by (rule converse_rtranclp_into_rtranclp)
qed simp

definition demo_reader :: reader where
  "demo_reader = \<lparr>rd_conn_id = 1, rd_compression = False, rd_read_buf = []\<rparr>"

lemma demo_bytes:
  "map packet_bytes demo =
     [varint_bytes (0 :: i32) @ encoded (intention_encode demo_intention), varint_bytes (3 :: i32) @ encoded put_end,
      varint_bytes (3 :: i32) @ encoded (finish_configuration_c2s_encode FinishConfigurationC2S),
      varint_bytes (12 :: i32) @ encoded (tick_end_encode TickEnd)]"
  using demo_wf
  by (simp add: demo_def packet_bytes_eq sent_def intention_id_def finish_configuration_c2s_id_def
      tick_end_id_def)

definition demo_shared :: shared where
  "demo_shared = fold (report 1) (map packet_bytes demo) (snd (accept listener_start))"

lemma demo_reached:
  "(net_step no_zlib ())\<^sup>*\<^sup>* net_start \<lparr>nt_shared = demo_shared, nt_readers = [1 \<mapsto> demo_reader]\<rparr>"
proof -
  let ?sh = "snd (accept listener_start)" and ?b = "concat (map wire (map packet_bytes demo))"
  have "net_step no_zlib () net_start \<lparr>nt_shared = ?sh, nt_readers = [1 \<mapsto> demo_reader]\<rparr>"
    using net_step.accepted [of net_start demo_reader ?sh no_zlib "()"]
    by (simp add: net_start_def accept_def listener_start_def demo_reader_def Let_def)
  moreover have "?b \<noteq> []" by (simp add: demo_def wire_leb128 [OF bspec [OF demo_fits]] leb128.simps)
  then have "net_step no_zlib () \<lparr>nt_shared = ?sh, nt_readers = [1 \<mapsto> demo_reader]\<rparr>
      \<lparr>nt_shared = ?sh, nt_readers = [1 \<mapsto> demo_reader\<lparr>rd_read_buf := ?b\<rparr>]\<rparr>"
    using net_step.received [of "\<lparr>nt_shared = ?sh, nt_readers = [1 \<mapsto> demo_reader]\<rparr>" 1 demo_reader ?b no_zlib "()"]
    by (simp add: demo_reader_def)
  moreover have "handle_frame no_zlib () demo_reader = report 1"
    by (intro ext) (simp add: handle_frame_def demo_reader_def)
  then have "(net_step no_zlib ())\<^sup>*\<^sup>* \<lparr>nt_shared = ?sh, nt_readers = [1 \<mapsto> demo_reader\<lparr>rd_read_buf := ?b\<rparr>]\<rparr>
      \<lparr>nt_shared = demo_shared, nt_readers = [1 \<mapsto> demo_reader]\<rparr>"
    using turns_reach [of "map packet_bytes demo" no_zlib "()" ?sh Map.empty 1 demo_reader] demo_fits
    by (simp add: demo_shared_def) (simp add: demo_reader_def)
  ultimately show ?thesis by (meson converse_rtranclp_into_rtranclp)
qed

lemma demo_offered:
  "sh_offered demo_shared =
     [Packet 1 Handshake 0 (encoded (intention_encode demo_intention)), Packet 1 Login 3 (encoded put_end),
      Packet 1 Configuration 3 (encoded (finish_configuration_c2s_encode FinishConfigurationC2S))]
     @ Packet 1 Play 12 (encoded (tick_end_encode TickEnd)) # []"
proof -
  have "next_state Handshake 0 (encoded (intention_encode demo_intention)) = Login"
    using demo_next by (simp add: next_phase_def sent_def intention_id_def)
  moreover have "next_state Login 3 body = Configuration" "next_state Configuration 3 body = Play" for body
    by (simp_all add: next_state_def)
  moreover have "sh_offered (snd (accept listener_start)) = []"
    "state_of (sh_states (snd (accept listener_start))) 1 = Handshake"
    by (simp_all add: accept_def listener_start_def Let_def)
  moreover have "state_of cs 1 = s \<Longrightarrow> state_of (update_state cs 1 s k body) 1 = next_state s k body" for cs s k body
    using state_of_update [of cs 1 k body 1] by auto
  ultimately show ?thesis by (simp add: demo_shared_def demo_bytes report_varint)
qed

lemma demo_run:
  "reachable (connection_new 1 (str ''host'') Handshake) (connection_new 1 (str ''host'') Handshake\<lparr>cn_state := Play\<rparr>)"
proof -
  have m: "allowed (cn_state c) s \<Longrightarrow> reachable c' c \<Longrightarrow> reachable c' (c\<lparr>cn_state := s\<rparr>)" for c c' s
    unfolding reachable_def
    by (rule rtranclp.rtrancl_into_rtrancl) (auto intro!: conn_step.move simp: connection_transition_Inr)
  let ?c = "connection_new 1 (str ''host'') Handshake"
  have "reachable ?c (?c\<lparr>cn_state := Login, cn_state := Configuration, cn_state := Play\<rparr>)"
    by (intro m) (simp_all add: allowed_def connection_new_def reachable_def)
  then show ?thesis by simp
qed

section \<open>From client to server and back\<close>

text \<open>C1: What a client sends arrives, as far as the channel to the game has room. Let a connection be in any phase
  and its client send packets that follow the protocol from there, framed plain or compressed as the reader
  expects. However the network cuts the stream into reads, the read task ends with an empty buffer, and the
  channel has gained, in order, one report for each of the first packets, exactly as many as it had free slots (of
  1024); the dispatcher decodes each report, in the phase it is tagged with, to the packet sent. The packets after
  these are lost, because the task drops the error of \<open>try_send\<close>. Conditions: the packets have values
  that their wire form carries (\<open>wf_inbound\<close>, listed under C5: no block position with negative y),
  every frame is within the limit of 2 MiB, with compression the threshold is positive and inflating undoes
  deflating, and the task runs alone: what the game takes out meanwhile makes room, what other connections put in
  uses it up.\<close>

theorem client_packets_arrive:
  assumes "\<forall>p \<in> set ps. wf_inbound p \<and>
      frameable decompress d0 deflater threshold (rd_compression r) (packet_bytes p)"
    and "conversation (state_of (sh_states sh) (rd_conn_id r)) ps"
    and "\<forall>c \<in> set chunks. c \<noteq> []"
    and "concat chunks = concat (map (framed deflater threshold (rd_compression r) \<circ> packet_bytes) ps)"
  shows "\<exists>sh' fs. read_task decompress d0 (sh, r\<lparr>rd_read_buf := []\<rparr>) (map ReadOk chunks) = Inr (sh', r\<lparr>rd_read_buf := []\<rparr>) \<and>
     sh_inbound sh' = sh_inbound sh @ fs \<and>
     map received fs = map Inr (take (sh_capacity sh - length (sh_inbound sh)) ps)"
  by (rule conversation_delivered [OF assms])

theorem client_packets_arrive_witness:
  "\<exists>sh' fs. read_task no_zlib () (snd (accept listener_start), demo_reader\<lparr>rd_read_buf := []\<rparr>)
       (map ReadOk (map (\<lambda>b. [b]) (concat (map (wire \<circ> packet_bytes) demo))))
     = Inr (sh', demo_reader\<lparr>rd_read_buf := []\<rparr>) \<and>
     sh_inbound sh' = fs \<and> map received fs = map Inr demo"
proof -
  let ?sh = "snd (accept listener_start)"
  have room: "sh_inbound ?sh = []" "sh_capacity ?sh = 1024" "state_of (sh_states ?sh) 1 = Handshake"
    by (simp_all add: accept_def listener_start_def INBOUND_CAPACITY_def Let_def)
  have r: "rd_compression demo_reader = False" "rd_conn_id demo_reader = 1" by (simp_all add: demo_reader_def)
  have f: "framed toy_deflater 0 False = wire" by (intro ext) (simp add: framed_def)
  have "take 1024 demo = demo" by (simp add: demo_def)
  moreover have "\<forall>p \<in> set demo. wf_inbound p \<and> frameable no_zlib () toy_deflater 0 (rd_compression demo_reader) (packet_bytes p)"
    using demo_wf demo_fits by (simp add: frameable_def r)
  ultimately show ?thesis
    using client_packets_arrive [of demo no_zlib "()" toy_deflater 0 demo_reader ?sh
        "map (\<lambda>b. [b]) (concat (map (wire \<circ> packet_bytes) demo))"]
    by (simp add: room r f demo_conversation concat_singletons)
qed





text \<open>C3: In every reachable state of the listener, with all connections and tasks interleaved in
  any order, a packet tagged Play comes after the login of its connection: a handshake that
  asks for login, then a packet 0x03 in the login phase, then a packet 0x03 in the
  configuration phase.\<close>

theorem play_only_after_login:
  assumes "(net_step decompress d0)\<^sup>*\<^sup>* net_start n"
    and "sh_offered (nt_shared n) = before @ Packet c Play k body # later"
  shows "\<exists>a1 a2 a3 a4 hello ack fin. intends hello 2 \<and>
      before = a1 @ Packet c Handshake 0 hello # a2 @ Packet c Login 3 ack # a3
             @ Packet c Configuration 3 fin # a4"
proof -
  have "log_ok [] (sh_offered (nt_shared n))"
    using reachable_ok [OF assms(1)] by (simp add: shared_ok_def)
  from play_justified [OF this assms(2)] show ?thesis .
qed

theorem play_only_after_login_witness:
  "\<exists>n before k body later. (net_step no_zlib ())\<^sup>*\<^sup>* net_start n \<and>
     sh_offered (nt_shared n) = before @ Packet 1 Play k body # later \<and>
     (\<exists>a1 a2 a3 a4 hello ack fin. intends hello 2 \<and>
        before = a1 @ Packet 1 Handshake 0 hello # a2 @ Packet 1 Login 3 ack # a3
               @ Packet 1 Configuration 3 fin # a4)"
proof -
  let ?n = "\<lparr>nt_shared = demo_shared, nt_readers = [1 \<mapsto> demo_reader]\<rparr>"
  have "sh_offered (nt_shared ?n) =
     [Packet 1 Handshake 0 (encoded (intention_encode demo_intention)), Packet 1 Login 3 (encoded put_end),
      Packet 1 Configuration 3 (encoded (finish_configuration_c2s_encode FinishConfigurationC2S))]
     @ Packet 1 Play 12 (encoded (tick_end_encode TickEnd)) # []"
    unfolding net.simps by (rule demo_offered)
  from play_only_after_login [OF demo_reached this] this show ?thesis
    using demo_reached by blast
qed

text \<open>C4: How the network cuts a stream of frames into reads has no effect: any two ways to cut it leave the read task
  with an empty buffer and with what handling the frames one by one, in order, makes of the shared state (reports,
  phases and the channel), whether or not compression is on and whatever the decompressor does. The frames are
  within the limit of 2 MiB, and no read is empty.\<close>

theorem reads_do_not_matter:
  assumes "\<forall>f \<in> set fs. length f \<le> MAX_FRAME"
    and "\<forall>c \<in> set chunks. c \<noteq> []" and "concat chunks = concat (map wire fs)"
    and "\<forall>c \<in> set chunks'. c \<noteq> []" and "concat chunks' = concat (map wire fs)"
  shows "read_task decompress d0 (sh, r\<lparr>rd_read_buf := []\<rparr>) (map ReadOk chunks)
       = Inr (fold (handle_frame decompress d0 r) fs sh, r\<lparr>rd_read_buf := []\<rparr>) \<and>
     read_task decompress d0 (sh, r\<lparr>rd_read_buf := []\<rparr>) (map ReadOk chunks')
       = Inr (fold (handle_frame decompress d0 r) fs sh, r\<lparr>rd_read_buf := []\<rparr>)"
  using read_task_stream [OF assms(1,2), of "[]" decompress d0 sh r]
    read_task_stream [OF assms(1,4), of "[]" decompress d0 sh r] assms(3,5) by simp

theorem reads_do_not_matter_witness:
  "read_task no_zlib () (listener_start, demo_reader\<lparr>rd_read_buf := []\<rparr>) (map ReadOk [[1], [0]])
     = Inr (fold (handle_frame no_zlib () demo_reader) [[0]] listener_start, demo_reader\<lparr>rd_read_buf := []\<rparr>) \<and>
   read_task no_zlib () (listener_start, demo_reader\<lparr>rd_read_buf := []\<rparr>) (map ReadOk [[1, 0]])
     = Inr (fold (handle_frame no_zlib () demo_reader) [[0]] listener_start, demo_reader\<lparr>rd_read_buf := []\<rparr>)"
  by (rule reads_do_not_matter [of "[[0]]"]) (simp_all add: MAX_FRAME_def wire_leb128 leb128.simps)

text \<open>C5: For each serverbound packet whose values its wire form carries, dispatching its id and its encoded body in
  its phase gives the packet back. What \<open>wf_inbound\<close> asks for: strings in UTF-8 of at most 32767
  bytes; blocks of bytes and lists shorter than 2^31; UUIDs of 16 bytes, chat signatures of 256, acknowledgements
  of 3, signs of 4 lines; an advancement id exactly with the action that has one; an error message that is one NBT
  compound; an unhandled id where no decoder is; item stacks in the form the writer gives them (one form of air,
  set components before removed ones, at most 256 of both, ids below 2^31); block positions with x and z in 26
  bits and y from 0 to 4095. A position with negative y, which the game allows from -64 on, is excluded: it does
  not come back, because the decoder does not extend the sign of y.\<close>

theorem dispatch_inverts_sending:
  assumes "wf_inbound p" and "sent p = (s, k, encode)"
  shows "dispatch s k (encoded encode) = Inr p"
  by (rule dispatch_sent [OF assms])

theorem dispatch_inverts_sending_witness:
  "dispatch Play 0x1b (encoded (keep_alive_encode \<lparr>ka_keep_alive_id = 7\<rparr>))
   = Inr (InKeepAlive \<lparr>ka_keep_alive_id = 7\<rparr>)"
  by (rule dispatch_inverts_sending)
     (simp_all add: wf_inbound_def wf_keep_alive_def sent_def keep_alive_id_def)

text \<open>The play arms of the dispatcher and the decoders behind them are unambiguous: two
  packets sent under the same phase and id with the same bytes are the same packet.\<close>

theorem sending_is_injective:
  assumes "wf_inbound p" and "wf_inbound q"
    and "sent p = (s, k, e)" and "sent q = (s, k, e')" and "encoded e = encoded e'"
  shows "p = q"
  by (rule dispatch_injective [OF assms])

theorem sending_is_injective_witness:
  "\<exists>p q. sent p = (Play, 0x1b, keep_alive_encode \<lparr>ka_keep_alive_id = 7\<rparr>) \<and> sent q = sent p \<and> p = q"
proof -
  let ?p = "InKeepAlive \<lparr>ka_keep_alive_id = 7\<rparr>"
  have s: "sent ?p = (Play, 0x1b, keep_alive_encode \<lparr>ka_keep_alive_id = 7\<rparr>)"
    by (simp add: sent_def keep_alive_id_def)
  have "wf_inbound ?p" by (simp add: wf_inbound_def wf_keep_alive_def)
  from sending_is_injective [OF this this s s refl] s show ?thesis by blast
qed

section \<open>Inventories\<close>

text \<open>C6: Clicking never creates items: whatever a client that is not in creative mode clicks on, window slots,
  buttons and modes included that do not exist, the player never has more of any material afterwards, in the slots
  and on the cursor together. Dragging, cancelled drags and throwing are among the clicks, and a drag may be under
  way at the beginning. The condition is \<open>drag_ok\<close>: the inventory has its 46 slots, and what the drag
  remembers of a slot is not more than what the slot holds. It is true whenever no drag is under way, and clicks
  keep it. An item used up in the middle of a drag breaks it, and then a click that gives the drag up does create
  an item (lemma \<open>used_item_comes_back\<close>).\<close>

theorem clicks_never_create_items:
  assumes "drag_ok s" and "\<not> is_creative s"
  shows "total_items m (run_clicks clicks s) \<le> total_items m s"
  using clicks_never_gain [OF assms, of clicks m] by blast

theorem clicks_never_create_items_witness:
  "total_items 1 (run_clicks [(36, 0, 0), (9, 1, 5)] pi_new) \<le> total_items 1 pi_new"
  by (rule clicks_never_create_items, rule drag_ok_idle)
     (simp_all add: pi_new_def pi_ok_def quick_craft_active_def is_creative_def)

text \<open>C7: No click but throwing loses items either, as long as the player is not in creative mode and no drag is under
  way: taking, splitting, merging, swapping, shift-clicking and collecting keep the number of every material, in
  the slots and on the cursor together.\<close>

theorem click_keeps_items:
  assumes "pi_ok s" and "\<not> quick_craft_active s" and "\<not> is_creative s" and "mode \<noteq> CLICK_THROW"
  shows "total_items m (snd (apply_click window_slot button mode s)) = total_items m s"
  using click_never_gains [OF drag_ok_idle [OF assms(1,2)] assms(3)] assms(2,4) by blast

theorem click_keeps_items_witness:
  "total_items 7 (snd (apply_click 36 1 0 (pi_new\<lparr>pi_cursor := item_new 7 5\<rparr>)))
   = total_items 7 (pi_new\<lparr>pi_cursor := item_new 7 5\<rparr>)"
  by (rule click_keeps_items)
     (simp_all add: pi_new_def pi_ok_def quick_craft_active_def is_creative_def click_modes)

text \<open>C8: Adding a stack to the inventory splits it exactly: what went into the slots and what is handed
  back as the remainder add up to the stack, and the cursor is left alone.\<close>

theorem added_items_are_accounted_for:
  assumes "pi_ok s" and "add_item item s = (left, t)"
  shows "(\<Sum>i < 46. held m (pi_get i t)) + held m left = (\<Sum>i < 46. held m (pi_get i s)) + held m item \<and>
    pi_ok t \<and> pi_cursor t = pi_cursor s"
  using add_conserves [OF assms, of m] by (simp_all add: stored_def)

theorem added_items_are_accounted_for_witness:
  "\<exists>left t. add_item (item_new 3 70) pi_new = (left, t) \<and>
     (\<Sum>i < 46. held 3 (pi_get i t)) + held 3 left = (\<Sum>i < 46. held 3 (pi_get i pi_new)) + held 3 (item_new 3 70)"
proof -
  obtain left t where a: "add_item (item_new 3 70) pi_new = (left, t)" by fastforce
  show ?thesis using added_items_are_accounted_for [OF _ a, of 3] a by (auto simp: login_in_step)
qed

text \<open>The numbering of the slots in the inventory and the one of the window are translated into each
  other without loss: both ways round, every slot from 0 to 45 comes back.\<close>

theorem slot_numbers_translate:
  assumes "n < 46"
  shows "convert_minestom_slot_to_window_slot (window_slot_to_minestom_slot (word_of_nat n)) = word_of_nat n \<and>
    window_slot_to_minestom_slot (convert_minestom_slot_to_window_slot (word_of_nat n)) = word_of_nat n"
proof -
  have n: "n \<le> 45" using assms by simp
  show ?thesis
    using convert_of_nat [OF n] convert_of_nat(1) [OF slots_inverse(3) [OF n]] slots_inverse(1,2) [OF n]
      convert_of_nat(2) [OF slots_inverse(4) [OF n]] by simp
qed

theorem slot_numbers_translate_witness:
  "convert_minestom_slot_to_window_slot (window_slot_to_minestom_slot (word_of_nat 40)) = word_of_nat 40"
  using slot_numbers_translate [of 40] by simp

text \<open>C9: The client's picture of the inventory follows the server's: from the login on, through any sequence of
  clicks, added items, used-up items, choices of the held slot, closed windows and synchronisations with the two
  exceptions below, the client shows exactly the server's inventory after the next synchronisation, whatever it
  showed at the beginning and in whatever order the changed slots are sent. The exceptions
  (\<open>provided\<close>): using up the last item of a stack, after which the client goes on showing the item,
  because the emptied slot is not marked as changed (lemma \<open>last_item_stays_on_the_client\<close>); and
  closing the window during a drag that leaves the cursor empty when it is given up.\<close>

theorem client_view_catches_up:
  assumes "enumerates order" and "all_provided order events (v, pi_new)"
    and "fold (play order) (events @ [EvSync]) (v, pi_new) = (v', s')"
  shows "displays v' s'"
  by (rule session_ends_displayed [OF assms(1) login_in_step assms(2,3)])

theorem client_view_catches_up_witness:
  "\<exists>v s. fold (play sorted_list_of_set) ([EvAdd (item_new 3 70), EvSync, EvClick 36 0 0] @ [EvSync])
     (\<lparr>cv_slots = [], cv_cursor = AIR\<rparr>, pi_new) = (v, s) \<and> displays v s"
proof -
  obtain v s where f: "fold (play sorted_list_of_set) ([EvAdd (item_new 3 70), EvSync, EvClick 36 0 0] @ [EvSync])
     (\<lparr>cv_slots = [], cv_cursor = AIR\<rparr>, pi_new) = (v, s)" by fastforce
  have "all_provided sorted_list_of_set [EvAdd (item_new 3 70), EvSync, EvClick 36 0 0]
      (\<lparr>cv_slots = [], cv_cursor = AIR\<rparr>, pi_new)"
    by (simp add: provided_def)
  moreover have "enumerates (sorted_list_of_set :: u8 set \<Rightarrow> u8 list)"
    by (simp add: enumerates_def)
  ultimately have "displays v s" using client_view_catches_up [OF _ _ f] by blast
  then show ?thesis using f by blast
qed

text \<open>Everything a synchronisation sends can be read back: with items that the wire can carry, the
  client's decoders give exactly the packets that were encoded, the whole window, the equipment and the
  single slots.\<close>

theorem synchronisation_is_readable:
  assumes "\<forall>i. normal_item (pi_get i s)" and "normal_item (pi_cursor s)"
    and "sync_player order conn_id s = (packets, s')"
  shows "list_all readable packets"
  using sync_readable [OF _ assms(2,3)] assms(1) by (auto simp: list_all_iff)

theorem synchronisation_is_readable_witness:
  "list_all readable (fst (sync_player (\<lambda>_. []) 5 pi_new))"
proof (rule synchronisation_is_readable [where s = pi_new])
  have "normal_item AIR" by (simp add: normal_item_def wf_item_def norm_item_def AIR_def is_air_def)
  then show "\<forall>i. normal_item (pi_get i pi_new)" "normal_item (pi_cursor pi_new)"
    by (simp_all add: pi_get_def pi_new_def)
  show "sync_player (\<lambda>_. []) 5 pi_new = (fst (sync_player (\<lambda>_. []) 5 pi_new), snd (sync_player (\<lambda>_. []) 5 pi_new))"
    by simp
qed

text \<open>Using up the last item of a stack is not part of that: the emptied slot is not marked as
  changed, so the next synchronisation sends nothing about it and the client goes on showing the item.\<close>

theorem last_item_stays_on_the_client:
  assumes "displays v s" and "pi_ok s" and "pi_dirty s = {}" and "\<not> pi_full_sync s" and "slot < 46"
    and "is_amount (pi_get slot s) = 1"
    and "sync_player order conn_id (snd (consume_item (word_of_nat slot) s)) = (packets, s')"
    and "order {} = []"
  shows "is_air (pi_get slot s') \<and> view_slot (window_of slot) (fold receive packets v) = pi_get slot s"
  using last_item_stays_visible [OF assms] by auto

definition one_item :: player_inventory where
  "one_item = pi_new\<lparr>pi_slots := (item_new 9 1) # replicate 45 AIR, pi_full_sync := False\<rparr>"

lemma one_item_facts: "pi_ok one_item" "pi_dirty one_item = {}" "\<not> pi_full_sync one_item" "is_amount (pi_get 0 one_item) = 1"
  by (simp_all add: one_item_def pi_ok_def pi_new_def pi_get_def item_new_def)

theorem last_item_stays_on_the_client_witness:
  "\<exists>packets s'. sync_player (\<lambda>_. []) 5 (snd (consume_item (word_of_nat 0) one_item)) = (packets, s') \<and> is_air (pi_get 0 s')"
proof -
  obtain ps s' where s: "sync_player (\<lambda>_. []) 5 (snd (consume_item (word_of_nat 0) one_item)) = (ps, s')" by fastforce
  have v: "displays (receive (WindowItems (window_items one_item)) \<lparr>cv_slots = [], cv_cursor = AIR\<rparr>) one_item"
    by (rule window_items_show)
  show ?thesis using last_item_stays_on_the_client [OF v one_item_facts(1-3) _ one_item_facts(4) s] s by auto
qed

text \<open>C10: A drag that is not finished loses the items it has placed: begun over an empty slot and spread
  onto it, then given up by closing the window, the slots are what they were, the cursor is empty and the
  stack it held is gone.\<close>

theorem unfinished_drag_loses_items:
  assumes "pi_ok s" and "pi_get 0 s = AIR" and "pi_cursor s = item_new m n" and "n \<noteq> 0" and "n \<le> 64"
    and "placed = snd (apply_click 36 1 CLICK_QUICK_CRAFT (snd (apply_click 36 0 CLICK_QUICK_CRAFT s)))"
  shows "pi_get 0 placed = item_new m n \<and> (\<forall>i. pi_get i (snd (drop_cursor placed)) = pi_get i s) \<and>
    pi_cursor (snd (drop_cursor placed)) = AIR"
  using unfinished_drag [OF assms(1-5)] assms(6) by simp_all

theorem unfinished_drag_loses_items_witness:
  "pi_get 0 (snd (apply_click 36 1 CLICK_QUICK_CRAFT (snd (apply_click 36 0 CLICK_QUICK_CRAFT
     (pi_new\<lparr>pi_cursor := item_new 9 10\<rparr>))))) = item_new 9 10"
proof -
  have "pi_ok (pi_new\<lparr>pi_cursor := item_new 9 10\<rparr>)" by (simp add: login_in_step)
  from unfinished_drag_loses_items [OF this _ _ _ _ refl, of 9 10] show ?thesis
    by (simp add: pi_new_def pi_get_def)
qed

text \<open>An item used up during a drag comes back: the drag remembers the slot as it was before, and
  any click that gives the drag up restores it, with the cursor as it was. One item too many for each
  round.\<close>

theorem used_item_comes_back:
  assumes "pi_ok s" and "1 < is_amount (pi_get 0 s)" and "\<not> is_air (pi_cursor s)" and "is_air (pi_get 9 s)"
    and "used = snd (consume_item 0 (snd (apply_click 36 0 CLICK_QUICK_CRAFT s)))"
    and "back = snd (apply_click 9 0 CLICK_THROW used)"
  shows "pi_get 0 used = (pi_get 0 s)\<lparr>is_amount := is_amount (pi_get 0 s) - 1\<rparr> \<and>
    (\<forall>i. pi_get i back = pi_get i s) \<and> pi_cursor back = pi_cursor s"
  using used_during_drag [OF assms(1-4)] assms(5,6) by simp_all

definition two_items :: player_inventory where
  "two_items = pi_new\<lparr>pi_slots := item_new 9 2 # replicate 45 AIR, pi_cursor := item_new 8 1\<rparr>"

lemma two_items_facts: "pi_get i two_items = (if i = 0 then item_new 9 2 else AIR)" "pi_ok two_items"
  "pi_cursor two_items = item_new 8 1"
proof -
  have slots: "pi_slots two_items = item_new 9 2 # replicate 45 AIR" by (simp add: two_items_def)
  show "pi_get i two_items = (if i = 0 then item_new 9 2 else AIR)"
    unfolding pi_get_def slots by (cases i) simp_all
  show "pi_ok two_items" "pi_cursor two_items = item_new 8 1"
    by (simp_all add: two_items_def pi_ok_def pi_new_def)
qed

theorem used_item_comes_back_witness:
  "pi_get 0 (snd (apply_click 9 0 CLICK_THROW (snd (consume_item 0 (snd (apply_click 36 0 CLICK_QUICK_CRAFT two_items))))))
   = pi_get 0 two_items"
proof -
  have "1 < is_amount (pi_get 0 two_items)" "\<not> is_air (pi_cursor two_items)" "is_air (pi_get 9 two_items)"
    by (simp_all add: two_items_facts is_air_def AIR_def item_new_def)
  from used_item_comes_back [OF two_items_facts(2) this refl refl] show ?thesis by blast
qed

section \<open>Entities\<close>

text \<open>C11: The entity arena never hands out a handle twice: in any sequence of allocations and
  deallocations, of any types and with any handles, old, foreign or made up, for which there is room (a
  slot that can be used again has not worn out its 24 bits of generation, a new one fits 32 bits), the
  allocations succeed, the handles are distinct and none of them was valid before.\<close>

theorem handles_are_issued_once:
  assumes "arena_ok t" and "pool_room arena_allocate arena_deallocate arena_room ops t"
  shows "\<exists>hs u. pool_run arena_allocate arena_deallocate ops t = Some (hs, u) \<and> arena_ok u \<and>
    distinct hs \<and> set hs \<inter> used_handles t = {} \<and> (\<forall>e. arena_is_alive e u \<longrightarrow> arena_is_alive e t \<or> e \<in> set hs)"
proof -
  obtain hs u where run: "pool_run arena_allocate arena_deallocate ops t = Some (hs, u)" and facts: "arena_ok u"
    "distinct hs" "set hs \<inter> used_handles t = {}" "live_handles u \<subseteq> live_handles t \<union> set hs"
    using arena.run_issues [OF assms] by blast
  then have "\<forall>e. arena_is_alive e u \<longrightarrow> arena_is_alive e t \<or> e \<in> set hs" by (auto simp: live_handles_def)
  then show ?thesis using run facts by blast
qed

theorem handles_are_issued_once_witness:
  "\<exists>hs u. pool_run arena_allocate arena_deallocate [Alloc 2, Free 17] arena_new = Some (hs, u) \<and> distinct hs"
proof -
  have "arena_ok arena_new" by (simp add: arena_ok_def arena_new_def)
  moreover have "pool_room arena_allocate arena_deallocate arena_room [Alloc 2, Free 17] arena_new"
    by (simp add: arena_room_def arena_of_def arena_new_def arena_allocate_def type_allocate_def type_room_def
        type_arena_new_def)
  ultimately show ?thesis using handles_are_issued_once by blast
qed

text \<open>A handle that was freed stays dead: no later allocation brings it back.\<close>

theorem freed_handle_stays_dead:
  assumes "arena_ok t" and "arena_is_alive e t"
    and "pool_room arena_allocate arena_deallocate arena_room (Free e # ops) t"
  shows "\<exists>hs u. pool_run arena_allocate arena_deallocate (Free e # ops) t = Some (hs, u) \<and> \<not> arena_is_alive e u \<and> e \<notin> set hs"
proof -
  have "e \<in> live_handles t" using assms(2) by (simp add: live_handles_def)
  then show ?thesis using arena.freed_stays_dead [OF assms(1) _ assms(3)] by (auto simp: live_handles_def)
qed

definition one_entity :: entity_arena where
  "one_entity = [2 \<mapsto> \<lparr>ta_slots = [\<lparr>sl_generation = 0, sl_occupied = True\<rparr>], ta_free = [], ta_len = 1\<rparr>]"

theorem freed_handle_stays_dead_witness:
  "\<exists>hs u. pool_run arena_allocate arena_deallocate [Free (from_parts 2 0 0)] one_entity = Some (hs, u) \<and>
     \<not> arena_is_alive (from_parts 2 0 0) u"
proof -
  have "arena_ok one_entity"
    by (auto simp: one_entity_def arena_ok_def type_ok_def occupied_count_def vacant_at_def split: if_splits)
  moreover have "arena_is_alive (from_parts 2 0 0) one_entity"
    by (simp add: arena_is_alive_def type_is_alive_def one_entity_def type_id_from_parts generation_from_parts
        slot_from_parts MAX_GENERATION_def)
  ultimately show ?thesis using freed_handle_stays_dead [of one_entity "from_parts 2 0 0" "[]"] by auto
qed

text \<open>Where the 24 bits of the generation end, a release build hands out a handle of another entity
  type that is dead from the start: the generation runs into the bits of the type.\<close>

theorem worn_slot_gives_foreign_handle:
  "\<exists>u. arena_ok worn_arena \<and> arena_allocate 0 worn_arena = Some (from_parts 1 0 0, u) \<and>
     entity_type_id (from_parts 1 0 0) = 1 \<and> \<not> arena_is_alive (from_parts 1 0 0) u"
  using worn_allocation worn_arena_ok by (auto simp: type_id_from_parts MAX_GENERATION_def)

text \<open>Placing an entity exactly, as the migration between worlds does, breaks the promise of the
  arena: a handle that was freed becomes valid again, and the slots skipped on the way are never
  used.\<close>

theorem exact_placing_revives:
  "(case allocate_exact 0 (from_parts 0 0 0) arena_new of (r, t) \<Rightarrow>
     (case arena_deallocate (from_parts 0 0 0) t of (freed, t') \<Rightarrow>
       freed \<and> \<not> arena_is_alive (from_parts 0 0 0) t' \<and>
       (case allocate_exact 0 (from_parts 0 0 0) t' of (r', u) \<Rightarrow> arena_is_alive (from_parts 0 0 0) u))) \<and>
   (case allocate_exact 0 (from_parts 0 0 1) arena_new of (r, t) \<Rightarrow>
     vacant_at (arena_of 0 t) 0 \<and> ta_free (arena_of 0 t) = [])"
  by code_simp

section \<open>The game behind the network\<close>

text \<open>The MAC of the examples: the key itself, and a signature of 32 zeros.\<close>

definition toy_verify :: "u8 list \<Rightarrow> u8 list \<Rightarrow> u8 list \<Rightarrow> bool" where
  "toy_verify mac data signature \<longleftrightarrow> mac = [42] \<and> signature = replicate 32 0"

definition demo_identity :: forwarded_identity where
  "demo_identity = \<lparr>fi_uuid = replicate 16 1, fi_name = str ''Steve'', fi_properties = [], fi_timestamp = 1000\<rparr>"

lemma demo_forwarded:
  "verify_forwarding Some toy_verify (Some 3000) [42] (forwarding_blob demo_identity (replicate 32 0))
   = Inr demo_identity"
  by (rule verify_forwarding_complete)
     (simp_all add: demo_identity_def wf_identity_def toy_verify_def too_old_def abs_i64_def
        Velocity.MAX_SKEW_def wf_string_def MAX_STRING_LEN_def)

text \<open>An empty world has room, and the first handle of a world is the placeholder.\<close>

lemma room_new: "arena_room k arena_new" "empty_room k world_new"
  by (simp_all add: arena_room_def arena_of_def arena_new_def type_room_def type_arena_new_def empty_room_def world_new_def)

text \<open>A world with one entity.\<close>

definition one_storage :: "'v archetype_storage" where
  "one_storage = \<lparr>st_def = \<lparr>df_id = 0x8000, df_component_ids = [], df_entity_kind = 0\<rparr>, st_slots = [PLACEHOLDER],
     st_columns = Map.empty\<rparr>"

definition one_world :: "'v world" where
  "one_world = \<lparr>w_entities = [0 \<mapsto> \<lparr>ta_slots = [\<lparr>sl_generation = 0, sl_occupied = True\<rparr>], ta_free = [], ta_len = 1\<rparr>],
     w_archetypes = [0x8000 \<mapsto> one_storage], w_index = [PLACEHOLDER \<mapsto> (0x8000, 0)], w_empty = [0 \<mapsto> 0x8000],
     w_counter = 0x8001\<rparr>"

lemma placeholder_parts: "entity_type_id PLACEHOLDER = 0" "entity_slot PLACEHOLDER = 0" "entity_generation PLACEHOLDER = 0"
  by code_simp+

lemma spawn_first: "spawn_empty_with rg 0 world_new = Some (PLACEHOLDER, one_world)"
  by (simp add: spawn_empty_with_def spawn_def world_new_def empty_storage_def place_def arena_allocate_def arena_of_def
      arena_new_def type_allocate_def type_arena_new_def Let_def PLACEHOLDER_def one_world_def one_storage_def)

lemma one_world_ok: "world_ok rg one_world"
  by (rule spawn_empty_law [OF world_new_ok room_new(2), of rg 0]) (simp add: spawn_first)

lemma located_one: "located PLACEHOLDER one_world = Some (0x8000, 0, one_storage)"
  by (simp add: located_def one_world_def arena_is_alive_def type_is_alive_def placeholder_parts)

text \<open>The configuration of the examples, with an instance in the world 1, and the state at the start.\<close>

definition kind_id :: "component_kind \<Rightarrow> component_id" where
  "kind_id k = (case k of KPlayer \<Rightarrow> 0 | KPosition \<Rightarrow> 1 | KHealth \<Rightarrow> 2 | KVelocity \<Rightarrow> 3 | KInstance \<Rightarrow> 4 | KInventory \<Rightarrow> 5 | KAttributes \<Rightarrow> 6)"

definition demo_config :: "bool \<Rightarrow> game_config" where
  "demo_config enforce =
     \<lparr>gc_velocity = \<lparr>vc_secret = Some [42], vc_enforce_proxy = enforce\<rparr>, gc_default_instance = Some 1,
      gc_status = status_config_default, gc_spawn = spawn_config_default, gc_snapshot = [], gc_tags = [],
      gc_registry = \<lparr>rg_sparse = (\<lambda>_. True), rg_default = (\<lambda>_. CAttributes)\<rparr>, gc_id = kind_id\<rparr>"

definition demo_externals :: "u8 list externals" where
  "demo_externals = \<lparr>ex_new_mac = Some, ex_verify = toy_verify, ex_show_double = (\<lambda>_. []), ex_show_float = (\<lambda>_. []),
     ex_mul = (\<lambda>a b. a), ex_min = (\<lambda>a b. a), ex_add = (\<lambda>a b. a), ex_sub = (\<lambda>a b. a), ex_ge = (\<lambda>a b. True)\<rparr>"

definition demo_ambient :: ambient where
  "demo_ambient = \<lparr>am_uuid = replicate 16 5, am_clock = Some 3000\<rparr>"

definition demo_hello :: hello where
  "demo_hello = \<lparr>hello_name = str ''Alex'', hello_uuid = None\<rparr>"

definition demo_game :: game_net where
  "demo_game = game_net_start [1 \<mapsto> world_new] (with_compression_threshold 0) Map.empty"

lemma demo_config_simps [simp]:
  "gc_velocity (demo_config f) = \<lparr>vc_secret = Some [42], vc_enforce_proxy = f\<rparr>" "login_instance (demo_config f) = 1"
  "config_ok (demo_config f)" "gc_registry (demo_config f) = \<lparr>rg_sparse = (\<lambda>_. True), rg_default = (\<lambda>_. CAttributes)\<rparr>"
  by (auto simp: demo_config_def login_instance_def config_ok_def kind_id_def inj_def split: component_kind.splits)

lemma demo_game_simps [simp]:
  "gn_connections demo_game = Map.empty" "gn_worlds demo_game = [1 \<mapsto> world_new]" "gn_joins demo_game = []"
  "nws_compression_threshold (gn_clients demo_game) = 0" "gn_enters demo_game = []"
  by (simp_all add: demo_game_def game_net_start_def with_compression_threshold_def)

lemma demo_packets_wf: "wf_inbound (InIntention demo_intention)" "wf_inbound (InHello demo_hello)"
  "wf_inbound (InClientInformation ClientInformation)"
  using demo_wf by (simp_all add: demo_def wf_inbound_def wf_hello_def demo_hello_def wf_string_def MAX_STRING_LEN_def
      wf_client_information_def)

lemma demo_direct: "direct_intention (demo_config False) demo_intention"
  by (simp add: direct_intention_def demo_intention_def)

lemma demo_start: "gn_connections demo_game 7 = None" "nws_compression_threshold (gn_clients demo_game) = 0"
  "gn_worlds demo_game (login_instance (demo_config False)) = Some world_new"
  by simp_all

text \<open>The frames of a player that comes through the proxy.\<close>

definition proxied_intention :: intention where
  "proxied_intention = demo_intention\<lparr>in_forwarding := Some (forwarding_blob demo_identity (replicate 32 0))\<rparr>"

definition proxied_frames :: "(ambient \<times> raw_frame) list" where
  "proxied_frames = map (Pair demo_ambient) [from_client 7 (InIntention proxied_intention), from_client 7 (InHello demo_hello)]"

lemma proxied_wf: "wf_inbound (InIntention proxied_intention)"
proof -
  have "length (forwarding_blob demo_identity (replicate 32 0)) = 64" by code_simp
  then show ?thesis
    by (simp add: wf_inbound_def wf_intention_def proxied_intention_def demo_intention_def wf_string_def MAX_STRING_LEN_def wf_bytes_def)
qed

lemma proxied_login:
  "\<exists>g e. network_receive (demo_config True) demo_externals proxied_frames demo_game = Some g \<and> gn_joins g = [(e, str ''Steve'')]"
proof -
  let ?ins = "\<lambda>g. g\<lparr>gn_clients := networks_insert 7 (gn_clients g)\<rparr>"
  define rt where "rt = (runtime_new Handshake None)\<lparr>rt_forwarded := Some demo_identity\<rparr>"
  define g1 where "g1 = on_intention (demo_config True) demo_externals demo_ambient 7 proxied_intention (?ins demo_game)"
  have g1: "gn_connections g1 7 = Some rt" "gn_clients g1 = networks_insert 7 (gn_clients demo_game)"
    "gn_worlds g1 = [1 \<mapsto> world_new]" "gn_joins g1 = []"
    by (simp_all add: g1_def on_intention_def proxied_intention_def demo_externals_def demo_ambient_def demo_forwarded
        rt_def runtime_new_def)
  have g2: "plain_client 7 (?ins g1)"
    by (rule plain_insert) (simp add: g1(2) networks_insert_def Let_def)
  have "gn_connections (?ins g1) 7 = Some rt" "login_identity demo_ambient rt demo_hello = (fi_uuid demo_identity, str ''Steve'')"
    "gn_worlds (?ins g1) (login_instance (demo_config True)) = Some world_new"
    using g1 by (simp_all add: rt_def login_identity_def demo_identity_def)
  from hello_result [OF demo_config_simps(3) g2 this world_new_ok room_new(2)]
  obtain g e where "on_hello (demo_config True) demo_ambient 7 demo_hello (?ins g1) = Some g"
    "gn_joins g = gn_joins (?ins g1) @ [(e, str ''Steve'')]" by metis
  then show ?thesis
    using g1(4) by (simp add: proxied_frames_def receive_from_client proxied_wf demo_packets_wf handle_packet_def g1_def [symmetric])
qed

text \<open>C12: When the server only accepts players of its proxy and has a secret, every player that joins, and every
  connection that has an entity, carries the name (and the UUID) of an identity that this secret has signed, in a blob that
  the connection sent in an intention: whatever frames arrive in whatever order, no player enters under an identity of its own choice.\<close>

theorem players_are_vouched_for:
  assumes "vc_enforce_proxy (gc_velocity cfg)" and "vc_secret (gc_velocity cfg) = Some secret"
    and "network_receive cfg ex fs (game_net_start worlds clients outbound) = Some g"
  shows "(\<forall>(e, name) \<in> set (gn_joins g). \<exists>c i. vouched cfg ex fs c i \<and> fi_name i = name) \<and>
    (\<forall>c rt. gn_connections g c = Some rt \<longrightarrow> rt_entity rt \<noteq> None \<longrightarrow>
       (\<exists>i. vouched cfg ex fs c i \<and> rt_uuid rt = Some (fi_uuid i) \<and> rt_username rt = Some (fi_name i)))"
  by (rule vouched_run [OF assms])

theorem players_are_vouched_for_witness:
  "\<exists>g e. network_receive (demo_config True) demo_externals proxied_frames demo_game = Some g \<and> gn_joins g = [(e, str ''Steve'')] \<and>
     (\<exists>c i. vouched (demo_config True) demo_externals proxied_frames c i \<and> fi_name i = str ''Steve'')"
proof -
  obtain g e where g: "network_receive (demo_config True) demo_externals proxied_frames demo_game = Some g"
    "gn_joins g = [(e, str ''Steve'')]" using proxied_login by blast
  have "\<forall>(e, name) \<in> set (gn_joins g). \<exists>c i. vouched (demo_config True) demo_externals proxied_frames c i \<and> fi_name i = name"
    using players_are_vouched_for [OF _ _ g(1) [unfolded demo_game_def]] by simp
  then show ?thesis using g by auto
qed

text \<open>C13: A login succeeds: the five packets of a client (without a proxy, uncompressed), one after the other,
  take a connection from nothing into the play phase. In the world of its instance exactly one entity begins, a player under the
  client's name with an empty inventory, no other entity changes, and the client is sent the packets of
  login, configuration and entering in their order.\<close>

theorem login_reaches_the_world:
  assumes "config_ok cfg" and "direct_intention cfg q"
    and "wf_inbound (InIntention q)" and "wf_inbound (InHello h)" and "wf_inbound (InClientInformation info)"
    and "gn_connections g c = None" and "nws_compression_threshold (gn_clients g) = 0"
    and "gn_worlds g (login_instance cfg) = Some w" and "world_ok (gc_registry cfg) w" and "empty_room 0 w"
    and "u = (case hello_uuid h of Some u \<Rightarrow> u | None \<Rightarrow> am_uuid amb)"
  shows "\<exists>e w' g' rt. network_receive cfg ex (map (Pair amb) (login_session c q h info)) g = Some g' \<and>
    gn_connections g' c = Some rt \<and> rt_state rt = Play \<and> rt_entity rt = Some e \<and> rt_world_id rt = login_instance cfg \<and>
    rt_uuid rt = Some u \<and> rt_username rt = Some (hello_name h) \<and>
    gn_worlds g' = (gn_worlds g)(login_instance cfg \<mapsto> w') \<and> world_ok (gc_registry cfg) w' \<and> \<not> contains e w \<and>
    (\<forall>f. contains f w' \<longleftrightarrow> contains f w \<or> f = e) \<and> inventory_of cfg e w' = Some pi_new \<and>
    (\<forall>f c. f \<noteq> e \<longrightarrow> get_component (gc_registry cfg) f c w' = get_component (gc_registry cfg) f c w) \<and>
    gn_joins g' = gn_joins g @ [(e, hello_name h)] \<and> gn_enters g' = gn_enters g @ [(c, e)] \<and>
    urgent_of c g' = urgent_of c g @
      encode_clientbound login_success_id (login_success_encode \<lparr>ls_uuid = u, ls_username = hello_name h, ls_properties = []\<rparr>) #
      configuration_packets cfg ex @ entering_packets cfg c u (hello_name h)"
  using login_reaches_play [OF assms(1-10), of ex amb] unfolding assms(11) by simp

theorem login_reaches_the_world_witness:
  "\<exists>e w' g' rt. network_receive (demo_config False) demo_externals
       (map (Pair demo_ambient) (login_session 7 demo_intention demo_hello ClientInformation)) demo_game = Some g' \<and>
    gn_connections g' 7 = Some rt \<and> rt_state rt = Play \<and> gn_worlds g' = [1 \<mapsto> w'] \<and> contains e w' \<and>
    gn_joins g' = [(e, str ''Alex'')]"
proof -
  have u: "replicate 16 5 = (case hello_uuid demo_hello of Some u \<Rightarrow> u | None \<Rightarrow> am_uuid demo_ambient)"
    by (simp add: demo_hello_def demo_ambient_def)
  from login_reaches_the_world [OF demo_config_simps(3) demo_direct demo_packets_wf demo_start world_new_ok room_new(2) u,
      of demo_externals]
  obtain e w' g' rt where "network_receive (demo_config False) demo_externals
      (map (Pair demo_ambient) (login_session 7 demo_intention demo_hello ClientInformation)) demo_game = Some g'"
    "gn_connections g' 7 = Some rt" "rt_state rt = Play" "gn_worlds g' = (gn_worlds demo_game)(1 \<mapsto> w')"
    "\<forall>f. contains f w' \<longleftrightarrow> contains f (world_new :: player_component world) \<or> f = e" "gn_joins g' = gn_joins demo_game @ [(e, hello_name demo_hello)]"
    unfolding demo_config_simps(2) by blast
  then show ?thesis by (auto simp: demo_hello_def)
qed

text \<open>C14: A frame of one connection leaves what the game holds of another connection as it is: its record, its queues and what was put
  into its channel.\<close>

theorem connections_do_not_interfere:
  assumes "receive_frame cfg ex amb frame g = Some g'"
    and "case frame of Packet c s k payload \<Rightarrow> d \<noteq> c | Closed c \<Rightarrow> d \<noteq> c"
  shows "gn_connections g' d = gn_connections g d \<and> nws_clients (gn_clients g') d = nws_clients (gn_clients g) d \<and>
    gn_outbound g' d = gn_outbound g d"
  using share_frame [OF assms] by (simp add: share_of_def)

theorem connections_do_not_interfere_witness:
  "\<exists>g'. receive_frame (demo_config False) demo_externals demo_ambient (from_client 7 (InHello demo_hello))
       (demo_game\<lparr>gn_connections := [8 \<mapsto> runtime_new Play None]\<rparr>) = Some g' \<and>
     gn_connections g' 8 = Some (runtime_new Play None) \<and> nws_clients (gn_clients g') 8 = None \<and> gn_outbound g' 8 = None"
proof -
  let ?g = "demo_game\<lparr>gn_connections := [8 \<mapsto> runtime_new Play None]\<rparr>"
  have "\<exists>g'. receive_frame (demo_config False) demo_externals demo_ambient (from_client 7 (InHello demo_hello)) ?g = Some g'"
    by (simp add: receive_from_client demo_packets_wf handle_packet_def on_hello_def)
  then obtain g' where g': "receive_frame (demo_config False) demo_externals demo_ambient (from_client 7 (InHello demo_hello)) ?g = Some g'"
    by blast
  have "case from_client 7 (InHello demo_hello) of Packet c s k payload \<Rightarrow> 8 \<noteq> c | Closed c \<Rightarrow> 8 \<noteq> c"
    by (simp add: from_client_def split: prod.split)
  from connections_do_not_interfere [OF g' this] show ?thesis
    using g' by (simp add: demo_game_def game_net_start_def with_compression_threshold_def client_networks_default_def)
qed

text \<open>C15: Whatever packets arrive, from whichever connections, the items of a player that is not in creative mode
  never become more: while no connection ends, its inventory stays in its world, and holds of every item kind at
  most what it held. Conditions at the beginning: the worlds are well-formed (\<open>world_ok\<close>, as every
  reachable world is), the component ids of a player are distinct and sparse (\<open>config_ok\<close>), and the
  player's inventory satisfies \<open>drag_ok\<close>, that is, a drag under way remembers of no slot more than
  the slot holds, which is true when no drag is under way and is kept by all packets. What the game does between
  the packets is not part of the run: using up an item in the middle of a drag breaks \<open>drag_ok\<close>, and
  then a packet does create an item. Whenever a frame is a hello, the world of the new player has a handle and an
  archetype id left (\<open>roomy\<close>).\<close>

theorem packets_never_create_items:
  assumes "config_ok cfg" and "network_receive cfg ex fs g = Some g'" and "roomy cfg ex fs g"
    and "\<forall>(amb, f) \<in> set fs. \<forall>c. f \<noteq> Closed c"
    and "worlds_ok cfg g" and "bag_in cfg wid e g = Some bag" and "drag_ok bag" and "\<not> is_creative bag"
  shows "\<exists>bag'. bag_in cfg wid e g' = Some bag' \<and> drag_ok bag' \<and> (\<forall>m. total_items m bag' \<le> total_items m bag)"
  using run_bags [OF assms] by (auto simp: poorer_def)

definition demo_click :: click_container where
  "demo_click = \<lparr>cc_window_id = 0, cc_state_id = 1, cc_slot = 36, cc_button = 0, cc_mode = 0,
     cc_changed_slots = [(36, AIR)], cc_carried_item = AIR\<rparr>"

lemma demo_click_wf: "wf_inbound (InClickContainer demo_click)"
  by (simp add: demo_click_def wf_inbound_def wf_click_container_def wf_array_def normal_item_def wf_item_def norm_item_def
      AIR_def is_air_def)

lemma playing_state:
  "\<exists>g e. worlds_ok (demo_config False) g \<and> bag_in (demo_config False) 1 e g = Some pi_new \<and> entity_of (gn_connections g) 7 = Some e"
proof -
  from login_reaches_play [OF demo_config_simps(3) demo_direct demo_packets_wf demo_start world_new_ok room_new(2),
      of demo_externals demo_ambient]
  obtain e w' rt and g :: game_net where g: "gn_connections g 7 = Some rt" "rt_entity rt = Some e" "gn_worlds g = (gn_worlds demo_game)(1 \<mapsto> w')"
    "world_ok (gc_registry (demo_config False)) w'" "inventory_of (demo_config False) e w' = Some pi_new"
    unfolding demo_config_simps(2) by blast
  have "worlds_ok (demo_config False) g" using g(3,4) unfolding worlds_ok_def by simp
  moreover have "bag_in (demo_config False) 1 e g = Some pi_new" using g(3,5) by (simp add: bag_in_def)
  moreover have "entity_of (gn_connections g) 7 = Some e" using g(1,2) by (simp add: entity_of_def)
  ultimately show ?thesis by blast
qed

theorem packets_never_create_items_witness:
  "\<exists>g e g' bag'. entity_of (gn_connections g) 7 = Some e \<and> bag_in (demo_config False) 1 e g = Some pi_new \<and>
     network_receive (demo_config False) demo_externals [(demo_ambient, from_client 7 (InClickContainer demo_click))] g = Some g' \<and>
     bag_in (demo_config False) 1 e g' = Some bag' \<and> (\<forall>m. total_items m bag' \<le> total_items m pi_new)"
proof -
  obtain g e where g: "worlds_ok (demo_config False) g" "bag_in (demo_config False) 1 e g = Some pi_new"
    "entity_of (gn_connections g) 7 = Some e" using playing_state by blast
  let ?f = "[(demo_ambient, from_client 7 (InClickContainer demo_click))]"
  obtain g' where g': "network_receive (demo_config False) demo_externals ?f g = Some g'"
    by (simp add: receive_from_client demo_click_wf handle_packet_def)
  have "\<not> is_hello (from_client 7 (InClickContainer demo_click))"
    by (simp add: not_hello demo_click_wf)
  then have r: "roomy (demo_config False) demo_externals ?f g" by (simp split: option.split)
  have nc: "\<forall>(amb, f) \<in> set ?f. \<forall>c. f \<noteq> Closed c" by (simp add: from_client_def split: prod.split)
  have bag: "drag_ok pi_new" "\<not> is_creative pi_new"
    using login_in_step(2) by (auto intro!: drag_ok_idle simp: quick_craft_active_def is_creative_def pi_new_def)
  from packets_never_create_items [OF demo_config_simps(3) g' r nc g(1,2) bag] show ?thesis using g g' by blast
qed

text \<open>C16: A client that sends its hello twice (uncompressed, into a well-formed instance with room) gets two
  entities: both are new and in the world, the record of the connection keeps only the second, and when the
  connection ends exactly the second is destroyed and the record goes. The first stays in the world with no
  connection to it.\<close>

theorem second_hello_leaks_entity:
  assumes "config_ok cfg" and "plain_client c g" and "gn_connections g c = Some rt"
    and "gn_worlds g (login_instance cfg) = Some w" and "world_ok (gc_registry cfg) w" and "empty_room 0 w"
    and "on_hello cfg amb c h g = Some g1" and "gn_worlds g1 (login_instance cfg) = Some w1" and "empty_room 0 w1"
    and "on_hello cfg amb c h g1 = Some g2"
  shows "\<exists>e e' w2 w'. entity_of (gn_connections g1) c = Some e \<and> entity_of (gn_connections g2) c = Some e' \<and> e' \<noteq> e \<and>
    \<not> contains e w \<and> \<not> contains e' w \<and>
    gn_worlds g2 (login_instance cfg) = Some w2 \<and> contains e w2 \<and> contains e' w2 \<and>
    gn_worlds (on_closed c g2) (login_instance cfg) = Some w' \<and> (\<forall>f. contains f w' \<longleftrightarrow> contains f w2 \<and> f \<noteq> e') \<and>
    gn_connections (on_closed c g2) c = None"
  by (rule second_hello_leaks [OF assms])

theorem second_hello_leaks_entity_witness:
  "\<exists>g g1 g2 e e' w'. on_hello (demo_config False) demo_ambient 7 demo_hello g = Some g1 \<and>
     on_hello (demo_config False) demo_ambient 7 demo_hello g1 = Some g2 \<and> gn_worlds g = [1 \<mapsto> world_new] \<and>
     entity_of (gn_connections g1) 7 = Some e \<and> entity_of (gn_connections g2) 7 = Some e' \<and>
     gn_worlds (on_closed 7 g2) 1 = Some w' \<and> contains e w' \<and> \<not> contains e' w' \<and>
     gn_connections (on_closed 7 g2) 7 = None"
proof -
  let ?cfg = "demo_config False"
  define g where "g = demo_game\<lparr>gn_connections := [7 \<mapsto> runtime_new Handshake None],
    gn_clients := networks_insert 7 (gn_clients demo_game)\<rparr>"
  have g: "plain_client 7 g" "gn_connections g 7 = Some (runtime_new Handshake None)" "gn_worlds g = [1 \<mapsto> world_new]"
    using plain_insert(1) [of "demo_game\<lparr>gn_connections := [7 \<mapsto> runtime_new Handshake None]\<rparr>" 7]
    by (simp_all add: g_def)
  let ?b = "player_bundle ?cfg (replicate 16 5) (str ''Alex'') 1"
  let ?w1 = "put_all (gc_registry ?cfg) PLACEHOLDER ?b one_world"
  have id: "login_identity demo_ambient (runtime_new Handshake None) demo_hello = (replicate 16 5, str ''Alex'')"
    by (simp add: login_identity_def demo_ambient_def demo_hello_def runtime_new_def)
  obtain g1 where g1: "on_hello ?cfg demo_ambient 7 demo_hello g = Some g1" "gn_worlds g1 1 = Some ?w1" "plain_client 7 g1"
    "\<exists>rt. gn_connections g1 7 = Some rt"
  proof (rule hello_result [OF demo_config_simps(3) g(1,2) id _ world_new_ok room_new(2)])
    show "gn_worlds g (login_instance ?cfg) = Some world_new" by (simp add: g(3))
    fix e w' g1
    assume h: "on_hello ?cfg demo_ambient 7 demo_hello g = Some g1" "plain_client 7 g1"
      "gn_connections g1 7 = Some ((runtime_new Handshake None)\<lparr>rt_entity := Some e, rt_state := Login,
          rt_world_id := login_instance ?cfg, rt_uuid := Some (replicate 16 5), rt_username := Some (str ''Alex'')\<rparr>)"
    have "gn_worlds g1 1 = Some ?w1"
      using h(1) g(2,3) id by (auto simp: on_hello_def Let_def spawn_player_def bundle_spawn_def spawn_first)
    then show thesis using that h by blast
  qed
  have one: "contains PLACEHOLDER one_world"
    by (simp add: contains_def one_world_def arena_is_alive_def type_is_alive_def placeholder_parts)
  note law = put_all_law [OF one_world_ok one player_bundle_ok(1,2) [OF demo_config_simps(3)]]
  have room: "empty_room 0 ?w1"
    using law by (simp add: empty_room_def one_world_def arena_room_def arena_of_def type_room_def)
  have w1: "gn_worlds g1 (login_instance ?cfg) = Some ?w1" "world_ok (gc_registry ?cfg) ?w1"
    using g1(2) law by auto
  obtain rt where rt: "gn_connections g1 7 = Some rt" using g1(4) by blast
  obtain u n where id2: "login_identity demo_ambient rt demo_hello = (u, n)" by fastforce
  obtain g2 where g2: "on_hello ?cfg demo_ambient 7 demo_hello g1 = Some g2"
    by (rule hello_result [OF demo_config_simps(3) g1(3) rt id2 w1 room])
  have "gn_worlds g (login_instance ?cfg) = Some world_new" using g(3) by simp
  note two = second_hello_leaks_entity [OF demo_config_simps(3) g(1,2) this world_new_ok room_new(2) g1(1) w1(1) room g2,
    unfolded demo_config_simps(2)]
  show ?thesis
  proof (rule exE [OF two], elim exE conjE)
    fix e e' w2 w'
    assume l: "entity_of (gn_connections g1) 7 = Some e" "entity_of (gn_connections g2) 7 = Some e'" "e' \<noteq> e"
      "contains e w2" "gn_worlds (on_closed 7 g2) 1 = Some w'" "\<forall>f. contains f w' \<longleftrightarrow> contains f w2 \<and> f \<noteq> e'"
      "gn_connections (on_closed 7 g2) 7 = None"
    have c: "contains e w'" "\<not> contains e' w'" using l(3,4) l(6) [THEN spec, of e] l(6) [THEN spec, of e'] by simp_all
    show ?thesis
      by (intro exI [of _ g] exI [of _ g1] exI [of _ g2] exI [of _ e] exI [of _ e'] exI [of _ w'] conjI)
         (rule g1(1) g2 g(3) l c)+
  qed
qed

section \<open>Worlds of entities\<close>

definition demo_registry :: "nat component_registry" where
  "demo_registry = \<lparr>rg_sparse = (\<lambda>c. c < 100), rg_default = (\<lambda>_. 0)\<rparr>"

definition sparse_registry :: "nat component_registry" where
  "sparse_registry = \<lparr>rg_sparse = (\<lambda>_. True), rg_default = (\<lambda>_. 0)\<rparr>"

definition demo_ops :: "nat world_op list" where
  "demo_ops = [SpawnEmpty 0, Insert PLACEHOLDER 1 7, Look PLACEHOLDER 1, Despawn PLACEHOLDER]"

lemma insert_one:
  "c < 100 \<Longrightarrow> insert_component demo_registry PLACEHOLDER c v one_world =
     Inr (set_column 0x8000 one_storage c (Sparse (sparse_insert 0 v sparse_new)) one_world)"
  by (simp add: insert_component_def located_one one_storage_def demo_registry_def placeholder_parts)

lemma demo_ready: "ready_run rg demo_ops (world_new :: nat world)"
  using room_new(2) [of 0]
  by (auto simp: demo_ops_def world_ready_def world_do_def spawn_first split: sum.splits option.splits prod.splits)

text \<open>C17: A world behaves as a set of entities with a map from an entity and a component to a value: for sparse
  components, every run of registering, spawning, inserting, removing, looking up and destroying that keeps to the
  rules returns, and its answers are those of the map. A handle that a spawn answers was not in use. The rules
  (\<open>ready_run\<close>): no archetype id is registered twice (a release build overwrites the storage of the
  first, a debug build panics); a spawn names a registered archetype (else it panics, as documented); and the
  arena has a slot and a generation left for every entity spawned, and an archetype id where an empty entity needs
  one. All components are stored sparsely (\<open>all_sparse\<close>), as the dense columns are filled with
  defaults by a spawn.\<close>

theorem world_refines_map:
  assumes "all_sparse rg" and "ready_run rg ops world_new"
  shows "\<exists>rs w. world_run rg ops world_new = Some (rs, w) \<and> spec_run ops rs ({}, \<lambda>_ _. None) (view rg w)"
  using world_run_refines [OF world_new_ok assms(2,1)] by (auto simp: view_new)

theorem world_refines_map_witness:
  "\<exists>rs w. world_run sparse_registry demo_ops world_new = Some (rs, w) \<and>
     spec_run demo_ops rs ({}, \<lambda>_ _. None) (view sparse_registry w)"
  by (rule world_refines_map [OF _ demo_ready]) (simp add: all_sparse_def sparse_registry_def)

lemma world_do_ok:
  assumes "world_ok rg w" and "world_ready op w"
  shows "\<exists>r w'. world_do rg op w = Some (r, w') \<and> world_ok rg w'"
proof (cases op)
  case (Register d)
  then show ?thesis using register_law(1) [OF assms(1)] assms(2) by (simp add: world_do_def world_ready_def)
next
  case (Spawn a)
  then obtain st where st: "w_archetypes w a = Some st" "arena_room (df_entity_kind (st_def st)) (w_entities w)"
    using assms(2) by (auto simp: world_ready_def split: option.splits)
  show ?thesis by (rule spawn_law [OF assms(1) st]) (use Spawn in \<open>auto simp: world_do_def\<close>)
next
  case (SpawnEmpty k)
  then have "empty_room k w" using assms(2) by (simp add: world_ready_def)
  from this show ?thesis
    by (rule spawn_empty_law [OF assms(1)]) (use SpawnEmpty in \<open>auto simp: world_do_def\<close>)
next
  case (Insert e c v)
  then show ?thesis using insert_law [OF assms(1)] assms(1) by (cases "insert_component rg e c v w") (auto simp: world_do_def)
next
  case (Remove e c)
  then show ?thesis using remove_law [OF assms(1)] by (cases "remove_component rg e c w") (auto simp: world_do_def)
next
  case (Look e c)
  then show ?thesis using assms(1) by (simp add: world_do_def)
next
  case (Despawn e)
  then show ?thesis
    using despawn_law [OF assms(1), of e] despawn_dead [OF assms(1), of e] world_okD(3) [OF assms(1), of e] assms(1)
    by (cases "w_index w e") (auto simp: world_do_def contains_def split: prod.splits)
qed

lemma world_run_ok:
  "world_ok rg w \<Longrightarrow> ready_run rg ops w \<Longrightarrow> \<exists>rs w'. world_run rg ops w = Some (rs, w') \<and> world_ok rg w'"
proof (induction ops arbitrary: w)
  case (Cons op ops)
  obtain r u where u: "world_do rg op w = Some (r, u)" "world_ok rg u"
    using world_do_ok [OF Cons.prems(1), of op] Cons.prems(2) by auto
  then show ?case using Cons.IH [OF u(2)] Cons.prems(2) by auto
qed simp

text \<open>C18: The columns of a reachable world are typed: each is of the storage kind of its component, a dense one
  belongs to a component of the archetype and has a value for every entity of it, and a sparse one has values only
  at the slots of entities of the archetype.\<close>

theorem columns_are_typed:
  assumes "ready_run rg ops world_new" and "world_run rg ops world_new = Some (rs, w)"
    and "w_archetypes w a = Some st" and "st_columns st c = Some col"
  shows "column_is_sparse col = rg_sparse rg c \<and>
    (case col of
       SoA xs \<Rightarrow> has_component (st_def st) c \<and> length xs = length (st_slots st)
     | Sparse s \<Rightarrow> sparse_ok s \<and> (\<forall>k. sparse_get k s = None \<or> (\<exists>e \<in> set (st_slots st). k = unat (entity_slot e))))"
proof -
  have "world_ok rg w" using world_run_ok [OF world_new_ok assms(1)] assms(2) by auto
  then have "column_ok rg st c col" using assms(3,4) by (auto simp: world_ok_def storage_ok_def)
  then show ?thesis by (cases col) (auto simp: column_ok_def column_is_sparse_def)
qed

theorem columns_are_typed_witness:
  "\<exists>rs w st s. world_run demo_registry (take 2 demo_ops) world_new = Some (rs, w) \<and> w_archetypes w 0x8000 = Some st \<and>
     st_columns st 1 = Some (Sparse s) \<and> column_is_sparse (Sparse s) = rg_sparse demo_registry 1 \<and> sparse_ok s"
proof -
  have ready: "ready_run demo_registry (take 2 demo_ops) (world_new :: nat world)"
    using demo_ready [of demo_registry] by (auto simp: demo_ops_def split: option.splits)
  have run: "world_run demo_registry (take 2 demo_ops) world_new = Some ([Handle PLACEHOLDER, Done],
      set_column 0x8000 one_storage 1 (Sparse (sparse_insert 0 7 sparse_new)) one_world)" (is "_ = Some (_, ?w)")
    by (simp add: demo_ops_def world_do_def spawn_first insert_one)
  have st: "w_archetypes ?w 0x8000 = Some (one_storage\<lparr>st_columns := [1 \<mapsto> Sparse (sparse_insert 0 7 sparse_new)]\<rparr>)"
    "st_columns (one_storage\<lparr>st_columns := [1 \<mapsto> Sparse (sparse_insert 0 7 sparse_new)]\<rparr>) 1 = Some (Sparse (sparse_insert 0 7 sparse_new))"
    by (simp_all add: set_column_def one_storage_def)
  show ?thesis using columns_are_typed [OF ready run st] run st by auto
qed

text \<open>C19: Destroying an entity touches no other one: the operation answers whether the entity was alive, keeps the
  world well-formed, ends exactly this entity, and every component of every other entity is what it was, although
  the last entity of the archetype moves to the freed place.\<close>

theorem despawn_spares_others:
  assumes "world_ok rg w"
  shows "world_ok rg (snd (despawn e w)) \<and> fst (despawn e w) = contains e w \<and>
    (\<forall>f. contains f (snd (despawn e w)) \<longleftrightarrow> contains f w \<and> f \<noteq> e) \<and>
    (\<forall>f c. get_component rg f c (snd (despawn e w)) = (if f = e then None else get_component rg f c w))"
  by (rule despawn_total [OF assms])

text \<open>The world with a component in it.\<close>

definition filled_storage :: "nat archetype_storage" where
  "filled_storage = one_storage\<lparr>st_columns := [1 \<mapsto> Sparse (sparse_insert 0 7 sparse_new)]\<rparr>"

definition filled_world :: "nat world" where
  "filled_world = one_world\<lparr>w_archetypes := [0x8000 \<mapsto> filled_storage]\<rparr>"

lemma insert_filled: "insert_component demo_registry PLACEHOLDER 1 7 one_world = Inr filled_world"
  unfolding insert_one [of 1, simplified]
  by (simp add: filled_world_def filled_storage_def set_column_def one_world_def one_storage_def)

lemma filled_world_ok: "world_ok demo_registry filled_world"
  using insert_law [OF one_world_ok insert_filled] by blast

lemma filled_simps: "w_archetypes filled_world = [0x8000 \<mapsto> filled_storage]" "w_index filled_world = [PLACEHOLDER \<mapsto> (0x8000, 0)]"
    "w_entities filled_world = w_entities (one_world :: nat world)" "st_columns filled_storage = [1 \<mapsto> Sparse (sparse_insert 0 7 sparse_new)]"
    "st_slots filled_storage = [PLACEHOLDER]" "st_def filled_storage = \<lparr>df_id = 0x8000, df_component_ids = [], df_entity_kind = 0\<rparr>"
  by (simp_all add: filled_world_def one_world_def filled_storage_def one_storage_def)

lemma filled_get: "get_component demo_registry PLACEHOLDER c filled_world = (if c = 1 then Some 7 else None)"
  by (simp add: get_component_def located_def filled_simps one_world_def arena_is_alive_def type_is_alive_def
      placeholder_parts column_get_def demo_registry_def sparse_get_insert)

theorem despawn_spares_others_witness:
  "world_ok demo_registry (snd (despawn PLACEHOLDER filled_world)) \<and>
   fst (despawn PLACEHOLDER filled_world) = contains PLACEHOLDER filled_world \<and>
   (\<forall>f. contains f (snd (despawn PLACEHOLDER filled_world)) \<longleftrightarrow> contains f filled_world \<and> f \<noteq> PLACEHOLDER) \<and>
   (\<forall>f c. get_component demo_registry f c (snd (despawn PLACEHOLDER filled_world)) =
      (if f = PLACEHOLDER then None else get_component demo_registry f c filled_world))"
  by (rule despawn_spares_others [OF filled_world_ok])

text \<open>C20: Migrating an entity to another world moves it with all its components: it ends in the source and begins in
  the target, under its old handle when no entity of the target has its slot, with every component it had, and no
  other entity of either world changes. Conditions: both worlds are well-formed; the archetype of the entity is
  registered in the target too, for the same kind of entities; the arena of the target has room for that kind; and
  the archetype of the target has a column for every component the entity has. Without the last one the components
  that have no column there are lost, as the source documents. The hash map of the columns of the source may be
  walked in any order.\<close>

theorem migration_moves_components:
  assumes "world_ok rg src" and "world_ok rg dst" and "w_index src e = Some (a, i)" and "w_archetypes src a = Some ss"
    and "w_archetypes dst a = Some sd" and "df_entity_kind (st_def sd) = entity_type_id e"
    and "arena_room (entity_type_id e) (w_entities dst)" and "distinct order" and "set order = dom (st_columns ss)"
    and "\<And>c. get_component rg e c src \<noteq> None \<Longrightarrow> st_columns sd c \<noteq> None"
  shows "\<exists>e' src' dst'. migrate_entity rg order e src dst = Some (Inr e', src', dst') \<and>
    world_ok rg src' \<and> world_ok rg dst' \<and>
    (\<forall>f. contains f src' \<longleftrightarrow> contains f src \<and> f \<noteq> e) \<and> (\<forall>f. contains f dst' \<longleftrightarrow> contains f dst \<or> f = e') \<and>
    \<not> contains e' dst \<and> (\<forall>c v. get_component rg e c src = Some v \<longrightarrow> get_component rg e' c dst' = Some v) \<and>
    (\<forall>f c. f \<noteq> e \<longrightarrow> get_component rg f c src' = get_component rg f c src) \<and>
    (\<forall>f c. f \<noteq> e' \<longrightarrow> get_component rg f c dst' = get_component rg f c dst) \<and>
    ((\<exists>f. contains f dst \<and> entity_type_id f = entity_type_id e \<and> entity_slot f = entity_slot e) \<or> e' = e)"
proof (rule migrate_law [OF assms(1-9)])
  show "st_columns sd c \<noteq> None" if "get_component rg e c src \<noteq> None" for c by (rule assms(10) [OF that])
next
  fix e' src' dst'
  assume "migrate_entity rg order e src dst = Some (Inr e', src', dst')" "world_ok rg src'" "world_ok rg dst'"
    "\<And>f. contains f src' \<longleftrightarrow> contains f src \<and> f \<noteq> e" "\<And>f. contains f dst' \<longleftrightarrow> contains f dst \<or> f = e'"
    "\<not> contains e' dst" "\<And>c v. get_component rg e c src = Some v \<Longrightarrow> get_component rg e' c dst' = Some v"
    "\<And>f c. f \<noteq> e \<Longrightarrow> get_component rg f c src' = get_component rg f c src"
    "\<And>f c. f \<noteq> e' \<Longrightarrow> get_component rg f c dst' = get_component rg f c dst"
    "(\<nexists>f. contains f dst \<and> entity_type_id f = entity_type_id e \<and> entity_slot f = entity_slot e) \<longrightarrow> e' = e"
  note all = this
  show ?thesis
    by (intro exI conjI) (rule all(1), rule all(2), rule all(3), use all(4) in blast, use all(5) in blast, rule all(6),
      use all(7) in blast, use all(8) in blast, use all(9) in blast, use all(10) in blast)
qed

theorem migration_moves_components_witness:
  "\<exists>e' src' dst'. migrate_entity demo_registry [1] PLACEHOLDER filled_world filled_world = Some (Inr e', src', dst') \<and>
    \<not> contains PLACEHOLDER src' \<and> get_component demo_registry e' 1 dst' = Some 7"
proof -
  have room: "arena_room (entity_type_id PLACEHOLDER) (w_entities filled_world)"
    by (simp add: placeholder_parts filled_simps one_world_def arena_room_def arena_of_def type_room_def)
  have there: "w_index filled_world PLACEHOLDER = Some (0x8000, 0)" "w_archetypes filled_world 0x8000 = Some filled_storage"
    "df_entity_kind (st_def filled_storage) = entity_type_id PLACEHOLDER" "set [1] = dom (st_columns filled_storage)"
    by (simp_all add: filled_simps placeholder_parts)
  have "\<exists>e' src' dst'. migrate_entity demo_registry [1] PLACEHOLDER filled_world filled_world = Some (Inr e', src', dst') \<and>
    world_ok demo_registry src' \<and> world_ok demo_registry dst' \<and>
    (\<forall>f. contains f src' \<longleftrightarrow> contains f filled_world \<and> f \<noteq> PLACEHOLDER) \<and>
    (\<forall>f. contains f dst' \<longleftrightarrow> contains f filled_world \<or> f = e') \<and> \<not> contains e' filled_world \<and>
    (\<forall>c v. get_component demo_registry PLACEHOLDER c filled_world = Some v \<longrightarrow> get_component demo_registry e' c dst' = Some v) \<and>
    (\<forall>f c. f \<noteq> PLACEHOLDER \<longrightarrow> get_component demo_registry f c src' = get_component demo_registry f c filled_world) \<and>
    (\<forall>f c. f \<noteq> e' \<longrightarrow> get_component demo_registry f c dst' = get_component demo_registry f c filled_world) \<and>
    ((\<exists>f. contains f filled_world \<and> entity_type_id f = entity_type_id PLACEHOLDER \<and> entity_slot f = entity_slot PLACEHOLDER) \<or>
      e' = PLACEHOLDER)"
    by (rule migration_moves_components [OF filled_world_ok filled_world_ok there(1,2,2,3) room _ there(4)])
      (simp_all add: filled_get filled_simps split: if_splits)
  then show ?thesis using filled_get [of 1] by auto
qed

text \<open>C21: Queries are exact: the iterator yields a list of rows, each entity at most once, and the row of an
  entity is there precisely when its archetype passes the filter and looking up its components one by one gives
  that row; a query for a single row tells none, one and more than one apart.\<close>

theorem queries_are_exact:
  assumes "world_ok rg w"
  shows "distinct (map fst (query_rows d f w)) \<and> query_first n d f w = take n (map snd (query_rows d f w)) \<and>
    query_single d f w = (case query_rows d f w of [] \<Rightarrow> Inl QueryEmpty | [r] \<Rightarrow> Inr (snd r) | _ \<Rightarrow> Inl NonUnique) \<and>
    ((e, x) \<in> set (query_rows d f w) \<longleftrightarrow>
      (\<exists>a st. entity_archetype w e = Some a \<and> w_archetypes w a = Some st \<and> passes f st) \<and> item_of rg w e d = Some x)"
  using query_rows_distinct [OF assms] query_first_rows query_single_rows query_rows_exact [OF assms] by blast

theorem queries_are_exact_witness:
  "let d = QTuple [QRef 1, QEntity]; w = filled_world
   in distinct (map fst (query_rows d AnyFilter w)) \<and> query_first 5 d AnyFilter w = take 5 (map snd (query_rows d AnyFilter w)) \<and>
    query_single d AnyFilter w =
      (case query_rows d AnyFilter w of [] \<Rightarrow> Inl QueryEmpty | [r] \<Rightarrow> Inr (snd r) | _ \<Rightarrow> Inl NonUnique) \<and>
    ((PLACEHOLDER, Items [Value 7, Handle_of PLACEHOLDER]) \<in> set (query_rows d AnyFilter w) \<longleftrightarrow>
      (\<exists>a st. entity_archetype w PLACEHOLDER = Some a \<and> w_archetypes w a = Some st \<and> passes AnyFilter st) \<and>
      item_of demo_registry w PLACEHOLDER d = Some (Items [Value 7, Handle_of PLACEHOLDER]))"
  unfolding Let_def by (rule queries_are_exact [OF filled_world_ok])

text \<open>A filter that excludes a component works on archetypes: once one entity of an archetype has had a sparse
  component, no entity of the archetype matches, whether it has the component or not.\<close>

theorem exclusion_is_by_archetype:
  assumes "insert_component rg e c v w = Inr w'" and "entity_archetype w e' = entity_archetype w e"
  shows "\<not> query_contains d (Without c) e' w'"
  by (rule without_filters_archetype [OF assms])

theorem exclusion_is_by_archetype_witness:
  "\<not> query_contains QEntity (Without 1) PLACEHOLDER filled_world"
  by (rule exclusion_is_by_archetype [OF insert_filled refl])

text \<open>C22: Deferring commands changes nothing: running the buffer that systems have filled, with entities they have
  just spawned known by tokens, has the outcome of doing the same operations at once, a panic included.\<close>

theorem deferred_equals_immediate:
  "map_option snd (buffer_apply rg (fold queue_segment segs command_buffer_new) w) = segments_do rg segs w"
proof -
  obtain cs where "cb_commands (fold queue_segment segs command_buffer_new) = cs"
      "\<And>m w. apply_commands rg cs m w = segments_do rg segs w"
    using apply_queued [of segs command_buffer_new rg] by (auto simp: command_buffer_new_def)
  note cs = this
  show ?thesis
  proof (cases "cs = []")
    case True
    then show ?thesis using cs(1) cs(2) [of Map.empty w] by (simp add: buffer_apply_def)
  next
    case False
    then show ?thesis
      unfolding buffer_apply_def cs(1) cs(2) by (simp add: option.map_comp comp_def option.map_ident)
  qed
qed

text \<open>The handle that a queued spawn answers is a valid one: it is the placeholder, which is also the handle of
  the first entity of its kind in every world.\<close>

theorem placeholder_is_a_real_handle:
  "ec_id (fst (cmd_spawn a b)) = PLACEHOLDER \<and> ec_id (fst (cmd_spawn_bundle cs b)) = PLACEHOLDER \<and>
   map_option fst (spawn_empty_with rg 0 world_new) = Some PLACEHOLDER"
  using placeholder_of_spawn [of a b] first_entity_is_placeholder [of rg]
  by (simp add: cmd_spawn_bundle_def ec_id_def Let_def)

section \<open>The queue between threads\<close>

text \<open>A thread that pushes a value into an empty queue.\<close>

definition demo_labels :: "(nat \<times> nat label) list" where
  "demo_labels = [(0, CallPush 5), (0, Silent), (0, Silent), (0, PushClaim 5), (0, Silent), (0, PushOk)]"

definition demo_queue :: "nat mpmc" where
  "demo_queue =
     (let q = mpmc_new 4 in q\<lparr>q_enq := 1, q_values := (q_values q)[0 := Some 5], q_seqs := (q_seqs q)[0 := 1]\<rparr>)"

lemma run_access:
  "qrun s ls (q, ts) \<Longrightarrow> ts t \<noteq> Idle \<Longrightarrow> advance False q (ts t) = (q', pc, l) \<Longrightarrow> qrun s (ls @ [(t, l)]) (q', ts(t := pc))"
  by (rule qrun_step [OF _ access])

lemma slots_four: "slots_for 4 = 8"
  by (simp add: slots_for_def next_power_of_two_def next_power_of_two_from.simps)

lemma queue_four: "mpmc_new 4 = \<lparr>q_values = replicate 8 None, q_seqs = map word_of_nat [0..<8],
    q_capacity = 8, q_mask = 7, q_enq = 0, q_deq = 0\<rparr>"
  using slots_four by (simp add: slots_for_def mpmc_new_def)

lemma demo_queue_run: "qrun (queue_start 4) demo_labels (demo_queue, \<lambda>_. Idle)"
proof -
  let ?q = "mpmc_new 4 :: nat mpmc"
  have q: "q_enq ?q = 0" "slot_of ?q 0 = 0" "q_seqs ?q ! 0 = 0" by (simp_all add: queue_four slot_of_def)
  have "qrun (queue_start 4) ([] @ [(0, CallPush 5)]) (?q, (\<lambda>_. Idle)(0 := PushLoad 5))"
    unfolding queue_start_def by (rule qrun_step [OF qrun_nil call_push]) simp
  from run_access [OF this, of 0] have "qrun (queue_start 4) (([] @ [(0, CallPush 5)]) @ [(0, Silent)]) (?q, (\<lambda>_. Idle)(0 := PushSeq 5 0))"
    by (simp add: advance_def q)
  from run_access [OF this, of 0] have "qrun (queue_start 4) ((([] @ [(0, CallPush 5)]) @ [(0, Silent)]) @ [(0, Silent)])
      (?q, (\<lambda>_. Idle)(0 := PushCas 5 0))"
    by (simp add: advance_def q)
  from run_access [OF this, of 0] have "qrun (queue_start 4) (((([] @ [(0, CallPush 5)]) @ [(0, Silent)]) @ [(0, Silent)]) @ [(0, PushClaim 5)])
      (?q\<lparr>q_enq := 1\<rparr>, (\<lambda>_. Idle)(0 := PushWrite 5 0))"
    by (simp add: advance_def q)
  from run_access [OF this, of 0] have "qrun (queue_start 4)
      ((((([] @ [(0, CallPush 5)]) @ [(0, Silent)]) @ [(0, Silent)]) @ [(0, PushClaim 5)]) @ [(0, Silent)])
      (?q\<lparr>q_enq := 1, q_values := (q_values ?q)[0 := Some 5]\<rparr>, (\<lambda>_. Idle)(0 := PushPublish 5 0))"
    by (simp add: advance_def q slot_of_def)
  note last = run_access [OF this, of 0]
  have idle: "(\<lambda>_ :: nat. Idle :: nat pc)(0 := Idle) = (\<lambda>_. Idle)" by auto
  show ?thesis
    using last by (simp add: advance_def q slot_of_def demo_labels_def demo_queue_def Let_def idle)
qed

text \<open>C23: The lock-free queue is linearizable: every interleaving of the threads, cut at each access to the
  shared memory, is a run of a bounded list. A push puts its value at the end when it claims its position, a pop
  takes the first one when it claims its own, and answers it; a push is refused only when the list is full or a
  pop is under way, a pop only when it is empty or a push is under way. No value that is not there is ever read.\<close>

theorem queue_is_linearizable:
  assumes "qrun (queue_start c) ls s" and "c \<le> 2 ^ 62" and "length ls + slots_for c < 2 ^ 63"
  shows "\<exists>s'. queue_spec_run (slots_for c) ([], Map.empty, {}) ls s' \<and> (\<forall>t. (t, Undefined) \<notin> set ls)"
proof -
  obtain s' where run: "queue_spec_run (slots_for c) ([], Map.empty, {}) ls s'" using run_refines [OF assms] by blast
  moreover have "(t, Undefined) \<notin> set ls" for t
    using run by (induction "([], Map.empty, {}) :: 'a queue_view" ls s' rule: queue_spec_run.induct) (auto simp: spec_next_def)
  ultimately show ?thesis by blast
qed

theorem queue_is_linearizable_witness:
  "\<exists>s'. queue_spec_run (slots_for 4) ([], Map.empty, {}) demo_labels s' \<and> (\<forall>t. (t, Undefined) \<notin> set demo_labels)"
  by (rule queue_is_linearizable [OF demo_queue_run]) (simp_all add: slots_four demo_labels_def)

text \<open>With one consumer the queue is first in, first out: what was pushed is what the pops answered, in this
  order, followed by the value that is on its way and what is in the queue.\<close>

theorem queue_is_fifo:
  assumes "qrun (queue_start c) ls s" and "c \<le> 2 ^ 62" and "length ls + slots_for c < 2 ^ 63" and "one_consumer t ls"
  shows "\<exists>held queued. length held \<le> 1 \<and> length queued \<le> slots_for c \<and> pushed ls = popped ls @ held @ queued"
proof -
  obtain s' where "queue_spec_run (slots_for c) ([], Map.empty, {}) ls s'" using run_refines [OF assms(1-3)] by blast
  from spec_fifo [OF this assms(4)] obtain xs owed where "length xs \<le> slots_for c"
    "pushed ls = popped ls @ (case owed t of None \<Rightarrow> [] | Some v \<Rightarrow> [v]) @ xs" by blast
  then show ?thesis by (intro exI [of _ "case owed t of None \<Rightarrow> [] | Some v \<Rightarrow> [v]"] exI [of _ xs]) (simp split: option.split)
qed

theorem queue_is_fifo_witness:
  "\<exists>held queued. length held \<le> 1 \<and> length queued \<le> slots_for 4 \<and> pushed demo_labels = popped demo_labels @ held @ queued"
  by (rule queue_is_fifo [OF demo_queue_run, of 7]) (simp_all add: slots_four demo_labels_def one_consumer_def)

text \<open>C24: A thread that runs alone gets done: from any state that an interleaving has led to, six steps of one
  thread are enough to finish the operation it is in, whatever the others have left half-done.\<close>

theorem lone_thread_finishes:
  assumes "qrun (queue_start c) ls s" and "c \<le> 2 ^ 62" and "length ls + 6 + slots_for c < 2 ^ 63"
  shows "\<exists>k \<le> 6. snd ((solo_step t ^^ k) s) t = Idle"
proof -
  obtain P T where "sys_ok (slots_for c) (length ls) (fst s) (snd s) P T"
    using run_refines [OF assms(1,2)] assms(3) by auto
  moreover have "pc_rank (fst s) (snd s t) \<le> 6" by (rule rank_bound)
  moreover from this have "length ls + pc_rank (fst s) (snd s t) + slots_for c < 2 ^ 63" using assms(3) by linarith
  ultimately show ?thesis using solo_finishes [of "slots_for c" "length ls" "fst s" "snd s" P T t] by (metis le_trans prod.collapse)
qed

theorem lone_thread_finishes_witness:
  "\<exists>k \<le> 6. snd ((solo_step 0 ^^ k) (mpmc_new 4 :: nat mpmc, (\<lambda>_. Idle)(0 := PushLoad 5))) 0 = Idle"
proof -
  have "qrun (queue_start 4) ([] @ [(0, CallPush 5)]) (mpmc_new 4 :: nat mpmc, (\<lambda>_. Idle)(0 := PushLoad 5))"
    unfolding queue_start_def by (rule qrun_step [OF qrun_nil call_push]) simp
  then show ?thesis by (rule lone_thread_finishes) (simp_all add: slots_four)
qed

section \<open>Schedules and ticks\<close>

text \<open>C25: The order of the systems is a permutation of them that respects every dependency, when the names are
  distinct and the dependencies have no cycle.\<close>

theorem systems_run_in_order:
  assumes "distinct names" and "\<forall>(later, earlier) \<in> set deps. r earlier < (r later :: nat)"
  shows "mset (concat (topo_groups names deps)) = mset [0..<length names] \<and>
    (\<forall>l < length names. \<forall>e < length names. (names ! l, names ! e) \<in> set deps \<longrightarrow> before_in (topo_groups names deps) e l)"
  using topo_groups_permutation topo_groups_respect [OF assms(1) _ _ _ assms(2)] by blast

theorem systems_run_in_order_witness:
  "let names = [''a'', ''b'', ''c'']; deps = [(''a'', ''c'')]
   in mset (concat (topo_groups names deps)) = mset [0..<length names] \<and>
    (\<forall>l < length names. \<forall>e < length names. (names ! l, names ! e) \<in> set deps \<longrightarrow> before_in (topo_groups names deps) e l)"
  unfolding Let_def by (rule systems_run_in_order [where r = "\<lambda>n. if n = ''a'' then 1 else 0"]) simp_all

text \<open>The flag for parallel groups is invisible: a tick of a schedule does the same with it as without it.\<close>

theorem parallel_flag_is_invisible:
  assumes "schedule_ok sd"
  shows "map_option snd (schedule_run rg (set_parallel b sd) s) = map_option snd (schedule_run rg sd s)"
  by (rule parallel_same_tick [OF assms])

theorem parallel_flag_is_invisible_witness:
  "let sd = add_system \<lparr>sy_name = ''a'', sy_exclusive = False, sy_body = (\<lambda>s. Some (s\<lparr>es_rest := (5 :: nat)\<rparr>))\<rparr> (schedule_new 50);
       s = \<lparr>es_world = one_world, es_buffer = None, es_rest = 0\<rparr>
   in map_option snd (schedule_run demo_registry (set_parallel True sd) s) = map_option snd (schedule_run demo_registry sd s)"
  unfolding Let_def by (rule parallel_flag_is_invisible) simp

text \<open>C26: A tick of all worlds ticks every world exactly once, and has one outcome: however the worlds are spread
  over the worker threads and however the threads interleave, the state of each world is that of its own tick.\<close>

theorem worlds_tick_once:
  assumes "\<And>i e. is_worlds sched i = Some e \<Longrightarrow> tick_entry rg e \<noteq> None"
  shows "tick_all rg sched r \<longleftrightarrow>
    (let ws = (\<lambda>i. Option.bind (is_worlds sched i) (tick_entry rg)) in r = (tick_stats ws, sched\<lparr>is_worlds := ws\<rparr>))"
  by (rule tick_all_once [OF assms])

definition demo_entry :: "(nat, nat) ecs_state world_entry" where
  "demo_entry = \<lparr>en_world = \<lparr>es_world = one_world, es_buffer = None, es_rest = 0\<rparr>, en_schedule = schedule_new 50,
     en_queue = queue_with_capacity 1024\<rparr>"

theorem worlds_tick_once_witness:
  "let sched = (scheduler_with SharedPool 2)\<lparr>is_worlds := [3 \<mapsto> demo_entry]\<rparr>;
       ws = (\<lambda>i. Option.bind ([3 \<mapsto> demo_entry] i) (tick_entry demo_registry))
   in tick_all demo_registry sched (tick_stats ws, sched\<lparr>is_worlds := ws\<rparr>)"
proof -
  have e: "tick_entry demo_registry demo_entry \<noteq> None"
    by (simp add: tick_entry_def demo_entry_def queue_drain_def queue_with_capacity_def schedule_run_def schedule_new_def
        apply_deferred_def)
  show ?thesis
    unfolding Let_def by (subst worlds_tick_once) (use e in \<open>auto split: if_splits\<close>)
qed

text \<open>C27: The clock of fixed steps loses no time: over any sequence of ticks the steps it reports, at their
  length, and what it holds back add up to the time that has passed, and it holds back less than a step.\<close>

theorem clock_loses_no_time:
  assumes "0 < fc_step c" and "fc_step c \<le> 2 ^ 64" and "fc_accumulator c < fc_step c"
    and "\<And>dt. dt \<in> set dts \<Longrightarrow> fc_step c + dt < duration_bound \<and> dt < fc_step c * (2 ^ 64 - 1)"
  shows "\<exists>ns c'. clock_run dts c = Some (ns, c') \<and> fc_accumulator c' < fc_step c \<and>
    sum_list ns * fc_step c + fc_accumulator c' = fc_accumulator c + sum_list dts"
  by (rule clock_run_law [OF assms])

theorem clock_loses_no_time_witness:
  "\<exists>ns c'. clock_run [30, 80, 49] (clock_new 50) = Some (ns, c') \<and> fc_accumulator c' < 50 \<and>
    sum_list ns * 50 + fc_accumulator c' = sum_list [30, 80, 49]"
proof -
  have "\<exists>ns c'. clock_run [30, 80, 49] (clock_new 50) = Some (ns, c') \<and> fc_accumulator c' < fc_step (clock_new 50) \<and>
    sum_list ns * fc_step (clock_new 50) + fc_accumulator c' = fc_accumulator (clock_new 50) + sum_list [30, 80, 49]"
    by (rule clock_loses_no_time) (auto simp: clock_new_def duration_bound_def)
  then show ?thesis by (simp add: clock_new_def del: clock_run.simps)
qed

text \<open>C28: When no periodic task has the period zero and the tick is not the last one of a 64-bit counter, a tick of
  the task scheduler returns, and what is due runs: a task of the heaps runs once in the tick if it is due, a
  periodic one as often as periods have passed, and afterwards nothing that is left is due. A period of zero is
  not refused when a task is scheduled; with one the tick does not return (C29).\<close>

theorem due_tasks_run:
  assumes "scheduler_ok s" and "no_zero_period s" and "now \<noteq> - 1"
  shows "\<exists>log s'. scheduler_tick now s = Some (log, s') \<and> scheduler_ok s' \<and>
    (\<forall>ty d i. (d, i) \<in> set (heap_of ty s') \<longrightarrow> now < d) \<and>
    (\<forall>ty d i e. (d, i) \<in> set (heap_of ty s) \<longrightarrow> sc_tasks s i = Some e \<longrightarrow> times i log = runs_of now d e)"
  by (rule tick_drains [OF assms])

lemma repeat_ok: "scheduler_ok (snd (schedule_repeat p f scheduler_new))"
  using insert_task_ok [OF scheduler_new_ok, of "saturating_add64 0 p" True p Tick_Start f]
  by (simp add: schedule_repeat_def scheduler_new_def insert_task_def Let_def)

theorem due_tasks_run_witness:
  "let s = snd (schedule_repeat 3 ''spawn'' scheduler_new)
   in \<exists>log s'. scheduler_tick 10 s = Some (log, s') \<and> scheduler_ok s' \<and> times 0 log = 3"
proof -
  let ?s = "snd (schedule_repeat 3 ''spawn'' scheduler_new)"
  have z: "no_zero_period ?s"
    by (auto simp: no_zero_period_def schedule_repeat_def scheduler_new_def insert_task_def Let_def set_heap_def split: if_splits)
  have h: "(3, 0) \<in> set (heap_of Tick_Start ?s)" "sc_tasks ?s 0 = Some \<lparr>te_repeat = True, te_period = 3, te_type = Tick_Start, te_f = ''spawn''\<rparr>"
    by (simp_all add: schedule_repeat_def scheduler_new_def insert_task_def Let_def set_heap_def heap_of_def saturating_add64_def)
  have r: "runs_of 10 3 \<lparr>te_repeat = True, te_period = 3, te_type = Tick_Start, te_f = ''spawn''\<rparr> = 3" by code_simp
  obtain log s' where l: "scheduler_tick 10 ?s = Some (log, s')" "scheduler_ok s'"
    "\<forall>ty d i e. (d, i) \<in> set (heap_of ty ?s) \<longrightarrow> sc_tasks ?s i = Some e \<longrightarrow> times i log = runs_of 10 d e"
    using due_tasks_run [OF repeat_ok z, of 10] by auto
  then have "times 0 log = 3" using h r by metis
  then show ?thesis unfolding Let_def using l(1,2) by blast
qed

text \<open>C29: A periodic task with period zero, which registering does not refuse, hangs the tick: the scheduler
  that has one does not return from any tick on or after it is due.\<close>

theorem zero_period_never_returns:
  assumes "scheduler_ok s" and "sc_next_id s < sc_next_id s + 1" and "sc_current s \<le> now"
  shows "scheduler_tick now (snd (schedule_repeat 0 f s)) = None"
proof -
  obtain i s1 where s1: "schedule_repeat 0 f s = (i, s1)" by fastforce
  then have "insert_task (saturating_add64 (sc_current s) 0) True 0 Tick_Start f s = (i, s1)"
    by (simp add: schedule_repeat_def)
  note law = insert_task_ok [OF assms(1,2) this]
  let ?s = "s1\<lparr>sc_current := now\<rparr>"
  have ok: "scheduler_ok ?s" using law by simp
  have "saturating_add64 (sc_current s) 0 = sc_current s"
    using unsigned_less [of "sc_current s", where 'a = nat] by (simp add: saturating_add64_def)
  then have "(sc_current s, i) \<in> set (heap_of Tick_Start ?s)" "sc_tasks ?s i = Some \<lparr>te_repeat = True, te_period = 0, te_type = Tick_Start, te_f = f\<rparr>"
    using law by (simp_all add: heap_of_def set_insort_key)
  then have "spinning Tick_Start now ?s" using assms(3) by (fastforce simp: spinning_def)
  then have "drain Tick_Start now ?s = None" using spinning_never_returns [OF _ ok] by (cases "drain Tick_Start now ?s") auto
  then show ?thesis using s1 by (simp add: scheduler_tick_def tick_start_def)
qed

theorem zero_period_never_returns_witness:
  "scheduler_tick 0 (snd (schedule_repeat 0 ''spawn'' scheduler_new)) = None"
  by (rule zero_period_never_returns [OF scheduler_new_ok]) (simp_all add: scheduler_new_def)

section \<open>Registries\<close>

text \<open>C30: The registries reach the client completely: every registry that has entries is sent, with every entry,
  and the bytes of each decode to the compound made of its TOML table.\<close>

theorem registries_are_complete:
  assumes "show_ok sd" and "show_ok sf" and "snapshot_ok snap"
  shows "map (\<lambda>p. (rd_registry_id p, map (\<lambda>e. (re_key e, map_sum id fst (entry_read e))) (rd_entries p)))
      (registry_data_packets sd sf snap) =
    map (\<lambda>r. (sr_registry_id r, map (\<lambda>e. (fst e, Inr (registry_compound sd sf (snd e)))) (sr_entries r)))
      (filter (\<lambda>r. sr_entries r \<noteq> []) snap)"
  by (rule registry_packets_complete [OF assms])

theorem registries_are_complete_witness:
  "let snap = [\<lparr>sr_registry_id = str ''damage'', sr_entries = [(str ''fall'', TomlTable [(str ''scale'', TomlFloat 7), (str ''id'', TomlInteger 3)])]\<rparr>]
   in map (\<lambda>p. (rd_registry_id p, map (\<lambda>e. (re_key e, map_sum id fst (entry_read e))) (rd_entries p)))
      (registry_data_packets (\<lambda>_. str ''0'') (\<lambda>_. str ''0'') snap) =
    map (\<lambda>r. (sr_registry_id r, map (\<lambda>e. (fst e, Inr (registry_compound (\<lambda>_. str ''0'') (\<lambda>_. str ''0'') (snd e)))) (sr_entries r)))
      (filter (\<lambda>r. sr_entries r \<noteq> []) snap)"
  unfolding Let_def by (rule registries_are_complete) (simp_all add: show_ok_def snapshot_ok_def str_def)

text \<open>The tags packet does not depend on the order in which the hash map of tags is walked.\<close>

theorem tags_packet_is_deterministic:
  assumes "mset tags = mset tags'" and "distinct (map fst tags)"
  shows "update_tags_packet tags = update_tags_packet tags'"
  by (rule update_tags_deterministic [OF assms])

theorem tags_packet_is_deterministic_witness:
  "update_tags_packet [(str ''b'', [str ''stone'', str ''#c'']), (str ''a'', [str ''dirt''])] =
   update_tags_packet [(str ''a'', [str ''dirt'']), (str ''b'', [str ''stone'', str ''#c''])]"
  by (rule tags_packet_is_deterministic) (simp_all add: str_def)

section \<open>What the world looks like to a client\<close>

text \<open>C31: The packets that make the world of a client come back from the wire as they were: the login packet, a chunk
  with its heightmaps, block entities and light, the list entry of a player, and the metadata of an entity, at the
  start of any stream. They have values that the wire form carries: strings in UTF-8 of at most 32767 bytes, lists
  and blocks of bytes shorter than 2^31, UUIDs of 16 bytes, a place of death with y from 0 to 4095; block entities
  without NBT, since the reader rejects every one that is present; and no metadata under the index 255, which ends
  the list.\<close>

theorem world_packets_roundtrip:
  assumes "wf_login l" and "wf_map_chunk c" and "wf_player_info i" and "wf_entity_meta_data m"
  shows "fst (login_decode (bb_new (encoded (login_encode l) @ rest))) = Inr l \<and>
    fst (map_chunk_decode (bb_new (encoded (map_chunk_encode c) @ rest))) = Inr c \<and>
    fst (player_info_decode (bb_new (encoded (player_info_encode i) @ rest))) = Inr i \<and>
    fst (entity_meta_data_decode (bb_new (encoded (entity_meta_data_encode m) @ rest))) = Inr m"
  by (simp_all add: login.decode_encoded map_chunk.decode_encoded player_info.decode_encoded
      entity_meta_data.decode_encoded assms)

definition demo_meta_data :: entity_meta_data where
  "demo_meta_data = \<lparr>emd_entity_id = 7, emd_entries = [(0, MetaByte 32), (2, MetaString (str ''bee''))],
     emd_has_metadata = True\<rparr>"

definition demo_chunk :: map_chunk where
  "demo_chunk = \<lparr>mc_chunk_x = 3, mc_chunk_z = - 1, mc_heightmaps = [], mc_chunk_data = [1, 2, 3], mc_block_entities = [],
     mc_sky_light_mask = [5], mc_block_light_mask = [], mc_empty_sky_light_mask = [], mc_empty_block_light_mask = [],
     mc_sky_light = [], mc_block_light = []\<rparr>"

definition demo_info :: player_info where
  "demo_info = \<lparr>plin_uuid = replicate 16 7, plin_name = str ''Ann'', plin_properties = []\<rparr>"

definition demo_login :: login where
  "demo_login = \<lparr>lo_entity_id = 1, lo_is_hardcore = False, lo_world_names = [str ''minecraft:overworld''],
     lo_max_players = 20, lo_view_distance = 10, lo_simulation_distance = 10, lo_reduced_debug_info = False,
     lo_enable_respawn_screen = True, lo_do_limited_crafting = False,
     lo_world_state = \<lparr>si_dimension = 0, si_name = str ''minecraft:overworld'', si_hashed_seed = 0, si_gamemode = 0,
       si_previous_gamemode = 255, si_is_debug = False, si_is_flat = True, si_death = None, si_portal_cooldown = 0,
       si_sea_level = 63\<rparr>, lo_enforces_secure_chat = False\<rparr>"

theorem world_packets_roundtrip_witness:
  "fst (entity_meta_data_decode (bb_new (encoded (entity_meta_data_encode demo_meta_data) @ [1]))) = Inr demo_meta_data"
proof -
  have "wf_login demo_login"
    by (simp add: demo_login_def wf_login_def packet_wf wf_spawn_info_def wf_string_def MAX_STRING_LEN_def)
  moreover have "wf_map_chunk demo_chunk" by (simp add: demo_chunk_def wf_map_chunk_def packet_wf)
  moreover have "wf_player_info demo_info"
    by (simp add: demo_info_def wf_player_info_def packet_wf wf_string_def MAX_STRING_LEN_def)
  moreover have "wf_entity_meta_data demo_meta_data"
    by (simp add: demo_meta_data_def wf_entity_meta_data_def METADATA_TERMINATOR_def wf_string_def MAX_STRING_LEN_def)
  ultimately show ?thesis using world_packets_roundtrip by blast
qed

text \<open>A suggestion whose tooltip flag is set without a tooltip is not preserved: the encoder writes the
  flag from the tooltip and drops the one it was given.\<close>

theorem tooltip_flag_is_dropped:
  "fst (get_match (bb_new (encoded (put_match (str ''say'', True, None))))) = Inr (str ''say'', False, None)"
proof -
  have "put_match (str ''say'', True, None) = put_match (str ''say'', False, None)" by (simp add: put_match_def)
  moreover have "wf_match (str ''say'', False, None)" by (simp add: wf_match_def wf_string_def MAX_STRING_LEN_def)
  ultimately show ?thesis using carries_at_start [OF carries_match, of "(str ''say'', False, None)" "[]"] by simp
qed

section \<open>Items and their component patches\<close>

text \<open>C32: A well-formed item stack survives the wire: decoding its encoding, with anything after
  it, consumes exactly the encoding and gives the stack with its Set entries moved before its
  Remove entries (and AIR for an empty stack).\<close>

theorem item_stack_roundtrip:
  assumes "wf_item item"
  shows "decode_item_stack (bb_new (encoded (encode_item_stack item) @ rest))
     = (Inr (norm_item item), \<lparr>bb_buf = encoded (encode_item_stack item) @ rest,
         bb_pos = length (encoded (encode_item_stack item))\<rparr>)"
  by (rule carries_at_start [OF carries_item [OF assms refl]])

theorem item_stack_roundtrip_witness:
  "let item = \<lparr>is_material = 5, is_amount = 3,
         is_components = \<lparr>ic_entries = [CRemove 3, CSet 1 (CvMaxStackSize 16)]\<rparr>\<rparr>
   in decode_item_stack (bb_new (encoded (encode_item_stack item) @ [1, 2]))
     = (Inr (norm_item item), \<lparr>bb_buf = encoded (encode_item_stack item) @ [1, 2],
         bb_pos = length (encoded (encode_item_stack item))\<rparr>) \<and>
     norm_item item = item\<lparr>is_components := \<lparr>ic_entries = [CSet 1 (CvMaxStackSize 16), CRemove 3]\<rparr>\<rparr>"
  unfolding Let_def
  by (intro conjI item_stack_roundtrip)
     (simp_all add: wf_item_def wf_entry_id_def wf_value_def norm_item_def is_air_def is_set_def)

text \<open>Decoding an item stack from arbitrary bytes reads within the buffer and leaves the bytes
  alone, also when it fails.\<close>

theorem item_stack_in_bounds:
  "case decode_item_stack (bb_new bytes) of
     (r, b) \<Rightarrow> bb_buf b = bytes \<and> bb_pos b \<le> length bytes"
  using cursor_safeD [OF safe_item, of "bb_new bytes"] by (auto simp: bb_new_def split: prod.split)

text \<open>C33: The component patch of an item is a map from component ids to values: after any
  sequence of set and remove operations a lookup gives what a finite map would.\<close>

theorem patch_refines_map:
  "ic_get (fold (run_op ic_set_at ic_remove) ops c) = fold spec_op ops (ic_get c)"
  by (rule patch.replay_refines) simp

text \<open>The operations keep each id at most once among the Set entries and at most once among
  the Remove entries, so the patch never grows beyond one of each per id.\<close>

theorem patch_ids_distinct:
  "distinct_ids (fold (run_op ic_set_at ic_remove) ops ic_EMPTY)"
proof -
  have "distinct_ids c \<Longrightarrow> distinct_ids (fold (run_op ic_set_at ic_remove) ops c)" for c
    by (induction ops arbitrary: c)
       (auto simp: run_op_def distinct_ids_set_at distinct_ids_remove split: store_op.split)
  then show ?thesis by (simp add: distinct_ids_def ic_EMPTY_def)
qed

text \<open>Setting a component that was removed does not revoke the removal: the patch then holds
  both the Set and the Remove entry of the id, and both go to the client.\<close>

theorem set_keeps_removal:
  "ic_get (ic_set_at cid v (ic_remove cid c)) cid = Some v \<and>
   CRemove cid \<in> set (ic_entries (ic_set_at cid v (ic_remove cid c)))"
  using remove_marks [of cid c] patch.get_put [OF TrueI]
  by (simp add: ic_set_at_def set_entry_keeps_remove)

section \<open>Text components and NBT\<close>

text \<open>C34: A text component is recovered from its NBT form, through the bytes: its tag can be
  written, the reader reads the same tag back whatever follows it, and the tag converts to the
  component.\<close>

theorem text_component_roundtrip:
  assumes "wf_component c"
  shows "\<exists>bs. encode_anonymous (to_nbt c) = Inr bs \<and>
     (\<forall>rest. decode_anonymous (bs @ rest) = Inr (to_nbt c, length bs)) \<and> from_nbt (to_nbt c) = Inr c"
proof -
  obtain es where es: "to_nbt c = NbtCompound es" using to_nbt_compound by blast
  with wf_to_nbt [OF assms] have "wf_tag (NbtCompound es)" by simp
  from anonymous_roundtrip [OF this] show ?thesis by (simp add: es [symmetric] from_to_nbt)
qed

theorem text_component_roundtrip_witness:
  "let c = CompTranslatable (str ''chat.type'') None [component_text (str ''hi'')]
   in \<exists>bs. encode_anonymous (to_nbt c) = Inr bs \<and>
     (\<forall>rest. decode_anonymous (bs @ rest) = Inr (to_nbt c, length bs)) \<and> from_nbt (to_nbt c) = Inr c"
  unfolding Let_def
  by (rule text_component_roundtrip)
     (simp add: component_text_def style_default_def wf_style_def wf_str_def wf_opt_def)

text \<open>C35: A well-formed compound survives both NBT formats: the anonymous one inside any byte
  stream, and the root one with its empty name.\<close>

theorem nbt_roundtrip:
  assumes "wf_tag (NbtCompound es)"
  shows "(\<exists>bs. encode_anonymous (NbtCompound es) = Inr bs \<and>
      (\<forall>rest. decode_anonymous (bs @ rest) = Inr (NbtCompound es, length bs))) \<and>
    (\<exists>bs. encode_root (NbtCompound es) = Inr bs \<and> decode_root bs = Inr ([], NbtCompound es))"
  using anonymous_roundtrip [OF assms] root_roundtrip [OF assms] by blast

theorem nbt_roundtrip_witness:
  "let es = [(str ''a'', NbtList [NbtInt 1, NbtInt (- 1)]), (str ''b'', NbtString (str ''x''))]
   in (\<exists>bs. encode_anonymous (NbtCompound es) = Inr bs \<and>
      (\<forall>rest. decode_anonymous (bs @ rest) = Inr (NbtCompound es, length bs))) \<and>
    (\<exists>bs. encode_root (NbtCompound es) = Inr bs \<and> decode_root bs = Inr ([], NbtCompound es))"
  unfolding Let_def by (rule nbt_roundtrip) (simp add: wf_entry_def tag_id_of_def)

text \<open>C36: The NBT readers return on every input within a recursion depth of the input's length
  plus two: they never run out of that depth, and a successful anonymous read consumes no more
  than the input.\<close>

theorem nbt_readers_total:
  "(case decode_anonymous bytes of Inl e \<Rightarrow> e \<noteq> OutOfFuel | Inr (tag, n) \<Rightarrow> n \<le> length bytes) \<and>
   (case decode_root bytes of Inl e \<Rightarrow> e \<noteq> OutOfFuel | Inr _ \<Rightarrow> True)"
  using decode_anonymous_total [of bytes] decode_root_total [of bytes]
  by (auto split: sum.split prod.split)

text \<open>The readers put no limit on nesting: there are payloads of 2n + 2 bytes that no
  recursion depth up to 2n + 1 can read. The stack an attacker can ask for grows with the
  packet.\<close>

theorem nbt_depth_unlimited:
  "length (nested_lists n) = 2 * n + 2 \<and>
   fst (read_payload (min f (2 * n + 1)) TAG_LIST (nested_lists n) 0) = Inl OutOfFuel"
  by (simp only: length_nested_lists nested_lists_depth min.cobounded2 simp_thms)

text \<open>A list whose elements differ in type is written without an error, and what is read
  back is not what was written.\<close>

theorem mixed_lists_misread:
  "\<exists>bs. encode_anonymous mixed_list = Inr bs \<and> decode_anonymous bs \<noteq> Inr (mixed_list, length bs)"
  using mixed_list_encoding mixed_list_corrupts
  by (intro exI [of _ "[9, 0, 1, 2, 1, 0, 2, 0]"]) (simp add: numeral_eq_Suc del: One_nat_def)

section \<open>Integers, strings and positions\<close>

text \<open>C37: Variable-length integers: reading at the start of an encoding anywhere in a buffer
  gives the value back and the position behind it; an encoding has at most 5 bytes for an
  \<open>i32\<close> and 10 for an \<open>i64\<close>.\<close>

theorem varint_roundtrip:
  "read_varint (pre @ write_varint [] v @ post) (length pre)
     = (Inr v, length pre + length (write_varint [] v)) \<and> length (write_varint [] v) \<le> 5 \<and>
   read_varlong (pre @ write_varlong [] w @ post) (length pre)
     = (Inr w, length pre + length (write_varlong [] w)) \<and> length (write_varlong [] w) \<le> 10"
  using read_varint_bytes [of pre v post] read_varlong_bytes [of pre w post]
  by (simp add: length_varint_bytes_i32 length_varint_bytes_i64)

text \<open>The three write loops compute the unsigned LEB128 encoding of the value read as an
  unsigned number.\<close>

theorem varint_is_leb128:
  "write_varint buf v = buf @ leb128 (unat v) \<and> write_varlong buf w = buf @ leb128 (unat w) \<and>
   write_usize_varint buf n = buf @ leb128 (n mod 2 ^ 64)"
  by (simp add: varint_bytes_leb128 write_usize_varint_def varint_loop_bytes unat_of_nat take_bit_eq_mod)

text \<open>A string of at most 32767 bytes of valid UTF-8 survives the wire.\<close>

theorem string_roundtrip:
  assumes "wf_string s"
  shows "get_string (bb_new (encoded (put_string s) @ rest))
     = (Inr s, \<lparr>bb_buf = encoded (put_string s) @ rest, bb_pos = length (encoded (put_string s))\<rparr>)"
  by (rule carries_at_start [OF carries_string [OF assms]])

theorem string_roundtrip_witness:
  "get_string (bb_new (encoded (put_string (str ''minecraft'')) @ [0]))
     = (Inr (str ''minecraft''), \<lparr>bb_buf = encoded (put_string (str ''minecraft'')) @ [0],
          bb_pos = length (encoded (put_string (str ''minecraft'')))\<rparr>)"
  by (rule string_roundtrip) (simp add: wf_string_def MAX_STRING_LEN_def)

text \<open>A block position whose x and z fit 26 signed bits comes back with the same x and z, but
  with y reduced to its low 12 bits as an unsigned number: a negative y is lost.\<close>

theorem position_on_the_wire:
  assumes "- (2 ^ 25) \<le> sint x" "sint x < 2 ^ 25" "- (2 ^ 25) \<le> sint z" "sint z < 2 ^ 25"
  shows "fst (get_position (bb_new (encoded (put_position (x, y, z)) @ rest))) = Inr (x, y AND 0xFFF, z)"
proof -
  have "carries (put_position (x, y, z)) get_position (x, y AND 0xFFF, z)"
    unfolding put_position_def put_i64_def prod.case
    by (rule carriesI [OF writes_put_raw reads_get_position [OF assms]])
  from carries_at_start [OF this, of rest] show ?thesis by simp
qed

theorem position_on_the_wire_witness:
  "fst (get_position (bb_new (encoded (put_position (100, - 1, - 200)) @ []))) = Inr (100, 4095, - 200)"
  using position_on_the_wire [of 100 "- 200" "- 1" "[]"] by simp

section \<open>Frames\<close>

text \<open>Frames written one after the other are read back one by one: decoding at the start of a
  frame inside a buffer gives its payload and the position of the next frame.\<close>

theorem frame_roundtrip:
  assumes "encode_frame buf payload = (Inr (), buf')"
  shows "decode_frame (buf' @ post) (length buf) = (Inr payload, length buf')"
proof -
  have "length payload \<le> MAX_FRAME"
    using assms by (simp add: encode_frame_def Let_def split: if_splits)
  with assms decode_frame_prefix [OF this, of buf post] show ?thesis
    by (auto simp: encode_frame_ok)
qed

theorem frame_roundtrip_witness:
  "decode_frame ([9, 2, 5, 6] @ [8, 8]) (length [9 :: u8]) = (Inr [5, 6], length [9, 2, 5, 6 :: u8])"
  by (rule frame_roundtrip) (simp add: encode_frame_ok MAX_FRAME_def leb128.simps)

text \<open>A compressed frame is read back in two steps, the length prefix and the compressed
  body, to the payload, where the inflater undoes the deflater on that payload.\<close>

theorem compressed_frame_roundtrip:
  assumes "compressible decompress d0 deflater threshold payload"
  shows "\<exists>body. decode_frame (encode_frame_compressed deflater payload threshold @ post) 0
       = (Inr body, length (encode_frame_compressed deflater payload threshold)) \<and>
     fst (decode_frame_compressed decompress d0 body 0) = Inr payload"
proof -
  let ?b = "compressed_body deflater threshold payload"
  have t: "0 < sint threshold" "length payload \<le> MAX_FRAME" "length ?b \<le> MAX_FRAME"
    using assms by (simp_all add: compressible_def)
  have "fst (decode_frame_compressed decompress d0 ?b 0) = Inr payload"
    using opened_compressed_body [OF assms] by (simp add: opened_def split: sum.splits)
  with decode_frame_prefix [OF t(3), of "[]" post] encode_compressed_body [OF t(1,2)]
  show ?thesis by (intro exI [of _ ?b]) simp
qed

theorem compressed_frame_roundtrip_witness:
  "\<exists>body. decode_frame (encode_frame_compressed toy_deflater sevens 2 @ [1]) 0
       = (Inr body, length (encode_frame_compressed toy_deflater sevens 2)) \<and>
     fst (decode_frame_compressed toy_inflater () body 0) = Inr sevens"
  by (rule compressed_frame_roundtrip [OF toy_ok])

text \<open>No input inflates to more than the limit, for any decompressor: the loop stops with an
  error first.\<close>

theorem inflated_size_bounded:
  "case inflate_zlib decompress d0 data max_len of Inl e \<Rightarrow> True | Inr out \<Rightarrow> length out \<le> max_len"
  using inflate_loop_bound [of decompress data max_len d0 0 "[]"]
  by (auto simp: inflate_zlib_def split: sum.split)

section \<open>The listener\<close>

text \<open>The listener's own parser of the frame length agrees with \<open>read_varint\<close> and the
  conversion to \<open>usize\<close>, except that it has one answer for everything that is not a length yet:
  too few bytes, five continuation bytes and a negative length.\<close>

theorem frame_length_parser:
  "try_parse_frame_length data =
     (case read_varint data 0 of
        (Inr v, p) \<Rightarrow> (case i32_to_usize v of Some len \<Rightarrow> Some (len, p) | None \<Rightarrow> None)
      | (Inl _, _) \<Rightarrow> None)"
  by (simp add: try_parse_read_varint option.map_comp map_option_case cong: sum.case_cong)

text \<open>C38: Five continuation bytes at the start of the buffer wedge the connection: nothing is
  reported any more and the buffer keeps every byte that arrives.\<close>

theorem overlong_length_wedges:
  assumes "5 \<le> length buf" and "\<forall>b \<in> set (take 5 buf). b AND 0x80 \<noteq> 0"
    and "\<forall>c \<in> set chunks. c \<noteq> []"
  shows "read_task decompress d0 (sh, r\<lparr>rd_read_buf := buf\<rparr>) (map ReadOk chunks)
     = Inr (sh, r\<lparr>rd_read_buf := buf @ concat chunks\<rparr>)"
  by (rule overlong_wedges [OF assms])

theorem overlong_length_wedges_witness:
  "read_task no_zlib () (listener_start, demo_reader\<lparr>rd_read_buf := replicate 5 0x80\<rparr>) (map ReadOk [[1], [0, 0]])
     = Inr (listener_start, demo_reader\<lparr>rd_read_buf := replicate 5 0x80 @ concat [[1], [0, 0]]\<rparr>)"
  by (rule overlong_length_wedges) simp_all

text \<open>A frame of one connection changes neither the phase nor the reports of another.\<close>

theorem connections_are_isolated:
  assumes "frame_turn decompress d0 (sh, r) = (p, sh', r')" and "c \<noteq> rd_conn_id r"
  shows "state_of (sh_states sh') c = state_of (sh_states sh) c \<and> reports_of c sh' = reports_of c sh"
  by (rule frame_turn_other [OF assms])

theorem connections_are_isolated_witness:
  "\<exists>sh'. frame_turn no_zlib () (listener_start, demo_reader\<lparr>rd_read_buf := wire [0] @ []\<rparr>)
      = (True, sh', demo_reader\<lparr>rd_read_buf := []\<rparr>) \<and>
     state_of (sh_states sh') 2 = state_of (sh_states listener_start) 2 \<and>
     reports_of 2 sh' = reports_of 2 listener_start"
proof -
  have t: "frame_turn no_zlib () (listener_start, demo_reader\<lparr>rd_read_buf := wire [0] @ []\<rparr>)
      = (True, handle_frame no_zlib () demo_reader [0] listener_start, demo_reader\<lparr>rd_read_buf := []\<rparr>)"
    by (rule frame_turn_whole) (simp add: MAX_FRAME_def)
  from connections_are_isolated [OF t, of 2] t show ?thesis by (simp add: demo_reader_def)
qed

section \<open>The send queues\<close>

text \<open>C39: Batching: every message of a flush is shorter than the MTU threshold or is a single
  frame of the normal or the urgent queue.\<close>

theorem batches_below_mtu:
  assumes "Frame b \<in> set (flush_client deflater client)"
  shows "length b < nw_mtu_threshold client \<or>
     b \<in> set (frames deflater client (nw_urgent_queue client @ nw_normal_queue client))"
proof -
  let ?S = "set (frames deflater client (nw_urgent_queue client @ nw_normal_queue client))"
  have s: "frames deflater client (q @ q') = frames deflater client q @ frames deflater client q'" for q q'
    by (induction q) (simp_all split: option.split)
  show ?thesis
  proof (cases "Frame b \<in> set (flush_urgent deflater client (nw_urgent_queue client))")
    case True
    then show ?thesis by (auto simp: flush_urgent_frames s)
  next
    case False
    with assms have "Frame b \<in> set (flush_normal deflater client (nw_normal_queue client) [])"
      by (simp add: flush_client_def)
    then show ?thesis by (intro flush_normal_mtu [of "[]" client ?S deflater]) (auto simp: s)
  qed
qed

theorem batches_below_mtu_witness:
  "let client = enqueue [5] Normal (enqueue [6] Normal client_network_new)
   in Frame [1, 6, 1, 5] \<in> set (flush_client toy_deflater client) \<and>
     (length [1, 6, 1, 5 :: u8] < nw_mtu_threshold client \<or>
      [1, 6, 1, 5] \<in> set (frames toy_deflater client (nw_urgent_queue client @ nw_normal_queue client)))"
proof -
  have "Frame [1, 6, 1, 5] \<in> set (flush_client toy_deflater (enqueue [5] Normal (enqueue [6] Normal client_network_new)))"
    by (simp add: flush_client_def client_network_new_def enqueue_def frame_bytes_def encode_frame_ok
        MAX_FRAME_def leb128.simps)
  from batches_below_mtu [OF this] this show ?thesis by (simp only: Let_def simp_thms)
qed

text \<open>Broadcasting to distinct connections gives each target in the table exactly one copy, in
  the queue that its own urgent window selects, and leaves every other connection alone.\<close>

theorem broadcast_reaches_targets:
  assumes "distinct targets"
  shows "nws_clients (broadcast targets b p cs) k =
     (if k \<in> set targets then map_option (\<lambda>c. enqueue b (effective p c) c) (nws_clients cs k)
      else nws_clients cs k)"
  by (rule broadcast_at [OF assms])

theorem broadcast_reaches_targets_witness:
  "let cs = networks_insert 2 (networks_insert 1 client_networks_default)
   in map_option nw_urgent_queue (nws_clients (broadcast [1, 3] [7] Urgent cs) 1) = Some [[7]] \<and>
      nws_clients (broadcast [1, 3] [7] Urgent cs) 2 = nws_clients cs 2"
  using broadcast_reaches_targets [of "[1, 3]" "[7]" Urgent
      "networks_insert 2 (networks_insert 1 client_networks_default)"]
  by (simp add: Let_def networks_insert_def client_networks_default_def client_network_new_def
      effective_def)

text \<open>The urgent window is counted down by one per flush and stays at zero; once it has run
  out, normal packets are queued as normal again.\<close>

theorem urgent_window_ends:
  "unat (nw_urgent_window_ticks ((clear_queues ^^ n) c)) = unat (nw_urgent_window_ticks c) - n \<and>
   effective Normal ((clear_queues ^^ unat (nw_urgent_window_ticks c)) c) = Normal"
proof -
  have "nw_urgent_window_ticks ((clear_queues ^^ unat (nw_urgent_window_ticks c)) c) = 0"
    using window_runs_out [of "unat (nw_urgent_window_ticks c)" c] by (simp add: unat_eq_0)
  then show ?thesis by (simp add: window_runs_out effective_def)
qed

section \<open>The connection state machine\<close>

text \<open>A connection reaches the play phase from the handshake only through the login and then
  the configuration phase.\<close>

theorem play_through_configuration:
  assumes "reachable c c'" and "cn_state c = Handshake" and "cn_state c' = Play"
  shows "\<exists>l k. cn_state l = Login \<and> cn_state k = Configuration \<and>
     reachable c l \<and> reachable l k \<and> reachable k c'"
  by (rule play_through_login [OF assms])

theorem play_through_configuration_witness:
  "\<exists>c c' l k. cn_state c = Handshake \<and> cn_state c' = Play \<and> cn_state l = Login \<and>
     cn_state k = Configuration \<and> reachable c l \<and> reachable l k \<and> reachable k c'"
proof -
  let ?c = "connection_new 1 (str ''host'') Handshake"
  have "cn_state ?c = Handshake" "cn_state (?c\<lparr>cn_state := Play\<rparr>) = Play"
    by (simp_all add: connection_new_def)
  with play_through_configuration [OF demo_run this] show ?thesis by blast
qed

text \<open>A connection only moves forward: its phase never goes back, its id and address never
  change, and compression once enabled stays enabled.\<close>

theorem connection_moves_forward:
  assumes "reachable c c'"
  shows "rank (cn_state c) \<le> rank (cn_state c') \<and> cn_id c' = cn_id c \<and> cn_address c' = cn_address c \<and>
     (if cn_compression_enabled c then cn_compression_enabled c' else True)"
  using reachable_rank [OF assms] reachable_identity [OF assms] reachable_compression [OF assms] by simp

theorem connection_moves_forward_witness:
  "let c = connection_new 1 (str ''host'') Handshake; c' = c\<lparr>cn_state := Play\<rparr>
   in rank (cn_state c) \<le> rank (cn_state c') \<and> cn_id c' = cn_id c \<and> cn_address c' = cn_address c \<and>
     (if cn_compression_enabled c then cn_compression_enabled c' else True)"
  unfolding Let_def by (rule connection_moves_forward [OF demo_run])

section \<open>Protocol details\<close>

text \<open>Outside the play phase an id beyond the ones the protocol has is an error that names the
  phase and the id.\<close>

theorem unknown_ids_rejected:
  assumes "s \<noteq> Play" and "k \<notin> {0, 1, 2, 3, 4, 5, 6}"
  shows "dispatch s k payload = Inl (UnknownPacket (state_name s) k)"
  by (rule dispatch_unknown [OF assms])

theorem unknown_ids_rejected_witness:
  "dispatch Login 9 [1] = Inl (UnknownPacket ''Login'' 9)"
  using unknown_ids_rejected [of Login 9 "[1]"] by (simp add: state_name_def)

text \<open>Click packets delimit themselves: of two well-formed ones whose encodings, with anything
  after them, agree, both the packets and the remainders are equal.\<close>

theorem click_packets_prefix_free:
  assumes "wf_click_container p" and "wf_click_container q"
    and "encoded (click_container_encode p) @ r = encoded (click_container_encode q) @ r'"
  shows "p = q \<and> r = r'"
  using click_container.encoded_prefix_free [OF assms] by simp

theorem click_packets_prefix_free_witness:
  "let p = \<lparr>cc_window_id = 0, cc_state_id = 1, cc_slot = 36, cc_button = 0, cc_mode = 0,
        cc_changed_slots = [(36, AIR)], cc_carried_item = AIR\<rparr>
   in wf_click_container p \<and> p = p \<and> [1 :: u8] = [1]"
  unfolding Let_def
  by (intro conjI [OF _ click_packets_prefix_free])
     (simp_all add: wf_click_container_def wf_array_def normal_item_def wf_item_def norm_item_def AIR_def is_air_def)

section \<open>Forwarded identities\<close>

text \<open>C40: An identity is accepted only from a blob of the documented layout whose signature over
  the version and the payload verifies under the shared secret; it is the identity the payload
  holds, and its timestamp passed the age test.\<close>

theorem forwarding_needs_signature:
  assumes "verify_forwarding new_mac verify clock secret blob = Inr i"
  shows "\<exists>signature payload mac now. blob = 1 # signature @ payload \<and> length signature = 32 \<and>
     new_mac secret = Some mac \<and> verify mac (1 # payload) signature \<and>
     fst (get_identity (bb_new payload)) = Inr i \<and> clock = Some now \<and> \<not> too_old now (fi_timestamp i)"
  by (rule verify_forwarding_sound [OF assms])

theorem forwarding_needs_signature_witness:
  "\<exists>signature payload mac now. forwarding_blob demo_identity (replicate 32 0) = 1 # signature @ payload \<and>
     length signature = 32 \<and> Some [42] = Some mac \<and> toy_verify mac (1 # payload) signature \<and>
     fst (get_identity (bb_new payload)) = Inr demo_identity \<and> Some (3000 :: i64) = Some now \<and>
     \<not> too_old now (fi_timestamp demo_identity)"
  by (rule forwarding_needs_signature [OF demo_forwarded])

text \<open>What the proxy sends is accepted: a well-formed identity whose signature verifies and
  whose timestamp passes the age test comes back unchanged.\<close>

theorem forwarding_roundtrip:
  assumes "wf_identity i" and "length signature = 32" and "new_mac secret = Some mac"
    and "verify mac (1 # encoded (put_identity i)) signature"
    and "\<not> too_old now (fi_timestamp i)"
  shows "verify_forwarding new_mac verify (Some now) secret (forwarding_blob i signature) = Inr i"
  using assms by (rule verify_forwarding_complete)

theorem forwarding_roundtrip_witness:
  "verify_forwarding Some toy_verify (Some (- 4000)) [42]
     (forwarding_blob (demo_identity\<lparr>fi_timestamp := 0\<rparr>) (replicate 32 0)) = Inr (demo_identity\<lparr>fi_timestamp := 0\<rparr>)"
  by (rule forwarding_roundtrip)
     (simp_all add: demo_identity_def wf_identity_def toy_verify_def too_old_def abs_i64_def
        Velocity.MAX_SKEW_def wf_string_def MAX_STRING_LEN_def)

text \<open>The age test is exact, five seconds to either side, as long as the difference to the
  clock is one an \<open>i64\<close> can hold; but a timestamp at the distance of the least \<open>i64\<close> passes as
  fresh, because \<open>abs\<close> of that value is negative.\<close>

theorem forwarding_age_window:
  "(if \<bar>sint now - sint t\<bar> < 2 ^ 63 then too_old now t \<longleftrightarrow> \<bar>sint now - sint t\<bar> > 5000 else True) \<and>
   \<not> too_old now (now - 0x8000000000000000)"
  using too_old_exact [of now t] too_old_wraps by simp

end
